(* ===== verification/Prelude.thy ===== *)
theory Prelude
  imports Complex_Main "HOL-Library.Word"
begin

text \<open>
  What every component of the development shares: the types of identifiers and of the
  clock, results with errors, transactions that roll back, and the handful of list
  operations a relational table needs (look a row up, update the rows that satisfy a
  condition, find the row with the greatest key) with their laws.
\<close>

section \<open>Collections\<close>

named_theorems table_simps \<open>laws of the table operations, safe as rewrite rules\<close>
named_theorems row_defs \<open>definitions of the insertions and row conditions of the schema\<close>

section \<open>Identifiers, clock and results\<close>

text \<open>
  A UUID is its 128-bit integer, which is also how UUIDs are ordered. A time is the number
  of microseconds since some epoch, in UTC.
\<close>

type_synonym uuid = "128 word"
type_synonym time = int

text \<open>JSON values, as the JSONB columns hold them.\<close>

datatype json = JNull | JBool bool | JNum rat | JStr string | JArr "json list"
  | JObj "(string \<times> json) list"

type_synonym json_object = "string \<rightharpoonup> json"

text \<open>Python's truth value of a JSON value, and of the value \<open>dict.get\<close> returns.\<close>

fun truthy :: "json \<Rightarrow> bool" where
  "truthy JNull = False"
| "truthy (JBool b) = b"
| "truthy (JNum q) = (q \<noteq> 0)"
| "truthy (JStr s) = (s \<noteq> [])"
| "truthy (JArr xs) = (xs \<noteq> [])"
| "truthy (JObj kvs) = (kvs \<noteq> [])"

definition get_truthy :: "json_object \<Rightarrow> string \<Rightarrow> bool" where
  "get_truthy d k = (case d k of None \<Rightarrow> False | Some v \<Rightarrow> truthy v)"

text \<open>
  \<open>dict.get(k)\<close>: a missing key reads as \<open>None\<close>, which JSON writes \<open>null\<close>.
\<close>

definition get_or_null :: "json_object \<Rightarrow> string \<Rightarrow> json" where
  "get_or_null d k = (case d k of None \<Rightarrow> JNull | Some v \<Rightarrow> v)"

text \<open>Sequencing of computations that may raise.\<close>

definition bindE :: "'e + 'a \<Rightarrow> ('a \<Rightarrow> 'e + 'b) \<Rightarrow> 'e + 'b" where
  "bindE m f = (case m of Inl e \<Rightarrow> Inl e | Inr x \<Rightarrow> f x)"

definition requireE :: "bool \<Rightarrow> 'e \<Rightarrow> 'e + unit" where
  "requireE b e = (if b then Inr () else Inl e)"

lemma bindE_simps [simp]:
  "bindE (Inl e) f = Inl e"
  "bindE (Inr x) f = f x"
  by (simp_all add: bindE_def)

lemma requireE_simps [simp]:
  "requireE True e = Inr ()"
  "requireE False e = Inl e"
  by (simp_all add: requireE_def)

lemma bindE_Inr_iff: "bindE m f = Inr y \<longleftrightarrow> (\<exists>x. m = Inr x \<and> f x = Inr y)"
  by (cases m) auto

lemma bindE_Inl_iff:
  "bindE m f = Inl e \<longleftrightarrow> m = Inl e \<or> (\<exists>x. m = Inr x \<and> f x = Inl e)"
  by (cases m) auto

lemma requireE_Inr_iff: "requireE b e = Inr u \<longleftrightarrow> b"
  by (simp add: requireE_def)

lemma requireE_Inl_iff: "requireE b e = Inl e' \<longleftrightarrow> \<not> b \<and> e' = e"
  by (auto simp: requireE_def)

lemmas resultE_iffs = bindE_Inr_iff bindE_Inl_iff requireE_Inr_iff requireE_Inl_iff

text \<open>
  \<open>with session_factory.begin() as session: body\<close>. The body works on the state the
  transaction reads; when it returns, its state is committed, and when it raises, every
  change it made is rolled back and the error propagates.
\<close>

definition transact :: "('db \<Rightarrow> 'e + 'a \<times> 'db) \<Rightarrow> 'db \<Rightarrow> ('e + 'a) \<times> 'db" where
  "transact body db = (case body db of Inl e \<Rightarrow> (Inl e, db) | Inr (a, db') \<Rightarrow> (Inr a, db'))"

lemma transact_Inl: "body db = Inl e \<Longrightarrow> transact body db = (Inl e, db)"
  by (simp add: transact_def)

lemma transact_Inr: "body db = Inr (a, db') \<Longrightarrow> transact body db = (Inr a, db')"
  by (simp add: transact_def)

text \<open>Whatever a transaction does, an invariant its successful bodies keep is kept.\<close>

lemma transact_invariant:
  assumes "P db" and "\<And>a db'. body db = Inr (a, db') \<Longrightarrow> P db'"
  shows "P (snd (transact body db))"
  using assms by (auto simp: transact_def split: sum.splits prod.splits)

section \<open>Tables as lists of rows\<close>

text \<open>
  A table is the list of its rows in insertion order. \<open>find p rows\<close> is
  \<open>session.scalar(select(...).where(p))\<close> for a condition at most one row satisfies.
\<close>

definition update_where :: "('r \<Rightarrow> bool) \<Rightarrow> ('r \<Rightarrow> 'r) \<Rightarrow> 'r list \<Rightarrow> 'r list" where
  "update_where p f rows = map (\<lambda>r. if p r then f r else r) rows"

text \<open>\<open>order_by(key.desc()).limit(1)\<close>.\<close>

fun greatest :: "('r \<Rightarrow> 'k::linorder) \<Rightarrow> 'r list \<Rightarrow> 'r option" where
  "greatest k [] = None"
| "greatest k (r # rows) =
     (case greatest k rows of None \<Rightarrow> Some r | Some s \<Rightarrow> if k r < k s then Some s else Some r)"

lemma find_Some_in: "find p rows = Some r \<Longrightarrow> r \<in> set rows \<and> p r"
  by (auto simp: find_Some_iff)

lemma find_None_all: "find p rows = None \<longleftrightarrow> (\<forall>r\<in>set rows. \<not> p r)"
  by (auto simp: find_None_iff)

lemma find_append: "find p (xs @ ys) = (case find p xs of None \<Rightarrow> find p ys | Some x \<Rightarrow> Some x)"
  by (induction xs) auto

lemma set_update_where:
  "set (update_where p f rows) = {if p r then f r else r | r. r \<in> set rows}"
  by (auto simp: update_where_def)

lemma in_update_where:
  "s \<in> set (update_where p f rows) \<longleftrightarrow> (\<exists>r\<in>set rows. s = (if p r then f r else r))"
  by (auto simp: update_where_def)

lemma length_update_where [table_simps, simp]: "length (update_where p f rows) = length rows"
  by (simp add: update_where_def)

lemma map_update_where [table_simps]:
  "(\<And>r. k (f r) = k r) \<Longrightarrow> map k (update_where p f rows) = map k rows"
  by (simp add: update_where_def)

lemma update_where_append [table_simps]:
  "update_where p f (xs @ ys) = update_where p f xs @ update_where p f ys"
  by (simp add: update_where_def)

lemma update_where_id: "(\<And>r. r \<in> set rows \<Longrightarrow> \<not> p r) \<Longrightarrow> update_where p f rows = rows"
  by (induction rows) (auto simp: update_where_def)

lemma filter_update_where:
  "(\<And>r. q (f r) = q r) \<Longrightarrow>
     filter q (update_where p f rows) = update_where p f (filter q rows)"
  by (induction rows) (auto simp: update_where_def)

lemma find_update_where:
  "(\<And>r. q (f r) = q r) \<Longrightarrow> find q (update_where p f rows) = map_option (\<lambda>r. if p r then f r else r) (find q rows)"
  by (induction rows) (auto simp: update_where_def)

lemma list_ex_update_where:
  "(\<And>r. q (f r) = q r) \<Longrightarrow> list_ex q (update_where p f rows) = list_ex q rows"
  by (induction rows) (auto simp: update_where_def)

lemma filter_update_outside:
  "(\<And>r. p r \<Longrightarrow> \<not> q r \<and> \<not> q (f r)) \<Longrightarrow> filter q (update_where p f rows) = filter q rows"
  by (induction rows) (auto simp: update_where_def)

lemma map_update_where_on:
  "(\<And>r. r \<in> set rows \<Longrightarrow> p r \<Longrightarrow> k (f r) = k r) \<Longrightarrow> map k (update_where p f rows) = map k rows"
  by (simp add: update_where_def)

lemma filter_update_where_on:
  "(\<And>r. r \<in> set rows \<Longrightarrow> p r \<Longrightarrow> q (f r) = q r) \<Longrightarrow>
     filter q (update_where p f rows) = update_where p f (filter q rows)"
  by (induction rows) (auto simp: update_where_def)

lemma greatest_None [simp]: "greatest k rows = None \<longleftrightarrow> rows = []"
  by (cases rows) (auto split: option.splits)

lemma greatest_Some: "greatest k rows = Some r \<Longrightarrow> r \<in> set rows \<and> (\<forall>s\<in>set rows. k s \<le> k r)"
proof (induction rows arbitrary: r)
  case Nil
  then show ?case by simp
next
  case (Cons x xs)
  show ?case
  proof (cases "greatest k xs")
    case None
    with Cons.prems show ?thesis by simp
  next
    case (Some s)
    with Cons.IH [OF Some] Cons.prems show ?thesis
      by (auto split: if_splits)
  qed
qed

text \<open>
  At most one row satisfies a condition: the form in which partial unique indexes are
  stated. \<open>at_most_one\<close> is kept by appending a row that no present one conflicts with
  and by updates that make no further row satisfy the condition.
\<close>

definition at_most_one :: "('r \<Rightarrow> bool) \<Rightarrow> 'r list \<Rightarrow> bool" where
  "at_most_one p rows \<longleftrightarrow> length (filter p rows) \<le> 1"

lemma at_most_one_Nil [simp]: "at_most_one p []"
  by (simp add: at_most_one_def)

lemma at_most_one_append1:
  "at_most_one p rows \<Longrightarrow> (p r \<Longrightarrow> \<forall>s\<in>set rows. \<not> p s) \<Longrightarrow> at_most_one p (rows @ [r])"
  by (auto simp: at_most_one_def filter_empty_conv)

lemma at_most_one_update:
  assumes "at_most_one p rows" and "\<And>r. r \<in> set rows \<Longrightarrow> q r \<Longrightarrow> p (f r) \<Longrightarrow> p r"
  shows "at_most_one p (update_where q f rows)"
proof -
  have "length (filter p (update_where q f rows)) \<le> length (filter p rows)"
    using assms(2) by (induction rows) (auto simp: update_where_def)
  with assms(1) show ?thesis by (simp add: at_most_one_def)
qed

lemma at_most_one_filter: "at_most_one p rows \<Longrightarrow> at_most_one p (filter q rows)"
proof -
  assume "at_most_one p rows"
  moreover have "length (filter p (filter q rows)) \<le> length (filter p rows)"
    by (induction rows) auto
  ultimately show ?thesis by (simp add: at_most_one_def)
qed

lemma at_most_one_eq:
  assumes "at_most_one p rows" "x \<in> set rows" "y \<in> set rows" "p x" "p y"
  shows "x = y"
proof -
  have "x \<in> set (filter p rows)" "y \<in> set (filter p rows)" using assms by auto
  moreover have "length (filter p rows) \<le> 1" using assms(1) by (simp add: at_most_one_def)
  ultimately show ?thesis by (cases "filter p rows") auto
qed

section \<open>Strings the schema constrains\<close>

definition hex_digits :: string where
  "hex_digits = ''0123456789abcdef''"

text \<open>The check \<open>x ~ '^[a-f0-9]{64}$'\<close> and \<open>re.fullmatch(r"[a-f0-9]{64}", x)\<close>.\<close>

definition hex64 :: "string \<Rightarrow> bool" where
  "hex64 s \<longleftrightarrow> length s = 64 \<and> list_all (\<lambda>c. c \<in> set hex_digits) s"

definition hex64_or_null :: "string option \<Rightarrow> bool" where
  "hex64_or_null x = (case x of None \<Rightarrow> True | Some s \<Rightarrow> hex64 s)"

lemma hex64_replicate: "c \<in> set hex_digits \<Longrightarrow> hex64 (replicate 64 c)"
  by (simp add: hex64_def list_all_iff)

section \<open>Strings as Python handles them\<close>

text \<open>
  A string is the list of its characters, here the code points below 256. \<open>str.strip\<close>
  removes the characters \<open>str.isspace\<close> holds of, from both ends.
\<close>

definition is_space :: "char \<Rightarrow> bool" where
  "is_space c = (let n = (of_char c :: nat) in
     n \<in> {9, 10, 11, 12, 13, 28, 29, 30, 31, 32, 133, 160})"

definition strip :: "string \<Rightarrow> string" where
  "strip s = rev (dropWhile is_space (rev (dropWhile is_space s)))"

definition starts_with :: "string \<Rightarrow> string \<Rightarrow> bool" where
  "starts_with p s \<longleftrightarrow> take (length p) s = p"

definition ends_with :: "string \<Rightarrow> string \<Rightarrow> bool" where
  "ends_with p s \<longleftrightarrow> starts_with (rev p) (rev s)"

text \<open>\<open>str.lower\<close> of these characters.\<close>

definition lower :: "string \<Rightarrow> string" where
  "lower s = map (\<lambda>c. let n = (of_char c :: nat) in
     if (65 \<le> n \<and> n \<le> 90) \<or> (192 \<le> n \<and> n \<le> 222 \<and> n \<noteq> 215) then char_of (n + 32) else c) s"

text \<open>\<open>s or t\<close> for a string that may be missing.\<close>

definition or_else :: "string option \<Rightarrow> string \<Rightarrow> string" where
  "or_else s t = (case s of None \<Rightarrow> t | Some x \<Rightarrow> if x = [] then t else x)"

text \<open>\<open>s or None\<close>.\<close>

definition or_none :: "string \<Rightarrow> string option" where
  "or_none s = (if s = [] then None else Some s)"

text \<open>\<open>str(n)\<close> of a natural number, and the format \<open>04d\<close>.\<close>

fun decimal :: "nat \<Rightarrow> string" where
  "decimal n = (if n < 10 then [char_of (48 + n)]
     else decimal (n div 10) @ [char_of (48 + n mod 10)])"

declare decimal.simps [simp del]

definition int_text :: "int \<Rightarrow> string" where
  "int_text i = (if i < 0 then CHR ''-'' # decimal (nat (- i)) else decimal (nat i))"

text \<open>
  The formats \<open>.1f\<close> and \<open>.0f\<close>: the digits of the number rounded to even, and the sign of the
  number itself.
\<close>

definition round_even :: "rat \<Rightarrow> int" where
  "round_even x = (let f = \<lfloor>x\<rfloor>; r = x - of_int f in
     if r < 1/2 \<or> r = 1/2 \<and> even f then f else f + 1)"

definition fixed_text :: "nat \<Rightarrow> rat \<Rightarrow> string" where
  "fixed_text n x =
     (let m = nat (round_even (\<bar>x\<bar> * 10 ^ n)); fraction = decimal (m mod 10 ^ n) in
      (if x < 0 then ''-'' else []) @ decimal (m div 10 ^ n)
      @ (if n = 0 then [] else CHR ''.'' # replicate (n - length fraction) CHR ''0'' @ fraction))"

definition pad4 :: "string \<Rightarrow> string" where
  "pad4 s = replicate (4 - length s) CHR ''0'' @ s"

lemma starts_with_append [simp]: "starts_with p (p @ s)"
  by (simp add: starts_with_def)

lemma starts_with_iff: "starts_with p s \<longleftrightarrow> (\<exists>t. s = p @ t)"
  unfolding starts_with_def by (metis append_eq_conv_conj append_take_drop_id)

lemma or_else_simps [simp]:
  "or_else None t = t" "or_else (Some []) t = t" "s \<noteq> [] \<Longrightarrow> or_else (Some s) t = s"
  by (simp_all add: or_else_def)


section \<open>Lists without repetitions\<close>

text \<open>\<open>list(dict.fromkeys(xs))\<close>: the first of equal elements stays.\<close>

fun unique_list :: "'a list \<Rightarrow> 'a list" where
  "unique_list [] = []"
| "unique_list (x # xs) = x # filter (\<lambda>y. y \<noteq> x) (unique_list xs)"

lemma set_unique_list [simp]: "set (unique_list xs) = set xs"
  by (induction xs) auto

lemma distinct_unique_list [simp]: "distinct (unique_list xs)"
  by (induction xs) auto

lemma unique_list_id: "distinct xs \<Longrightarrow> unique_list xs = xs"
  by (induction xs) (auto intro!: filter_True)

end
