(* ===== verification/Tables.thy ===== *)
theory Tables
  imports Prelude
begin

text \<open>
  The relational schema of \<^verbatim>\<open>app/persistence/models.py\<close>: one record per table with
  the columns of the mapped class, and the database as the record of its tables.

  The string columns with a closed set of values are datatypes; where tables share state
  names they share the datatype \<open>state\<close>, and the check constraint of each table says
  which of the names it admits. Column widths are not modelled. The insertions are in the
  theory \<open>Schema\<close>.
\<close>

section \<open>Value domains\<close>

datatype state = Pending | Queued | Processing | Completed | Failed | Cancelled | Stale
  | Unavailable

datatype stage = Uploaded | Inspected | Calibrated | Tracked | PlayerSelected | Analyzed

datatype sport = Pickleball | Padel

datatype lifecycle = Live | DeletionPending | Deleted

datatype video_state = VPending | VAvailable | VFailed | VDeleting | VDeleted

datatype upload_status = Initiated | Uploading | Completing | Verifying | Analyzing
  | UCompleted | Aborted | UFailed | Expired

datatype account_status = Active | Disabled

datatype token_purpose = EmailVerification | PasswordReset

datatype artifact_state = APending | AAvailable | AQuarantined | ADeleted

datatype review_state = Verified | Rejected

text \<open>Errors the services raise; the messages are not modelled.\<close>

datatype error =
    ResourceNotFoundError
  | OwnershipMismatchError
  | IdempotencyConflictError
  | OperationInProgressError
  | OptimisticConcurrencyError
  | InvalidStateTransitionError
  | SourceMediaUnavailableError
  | ArtifactNotAvailableError
  | PersistenceConfigurationError
  | ValueError
  | KeyError
  | AssertionError
  | IntegrityError
  | AuthenticationError string nat
  | JobConflictError string
  | JobRequestError string
  | JobNotFoundError
  | JobTooLargeError
  | JobStorageCapacityError string nat
  | JobStorageBackendError
  | RuntimeError

section \<open>Rows\<close>

record user =
  usr_id :: uuid
  usr_email :: string
  usr_password_hash :: string
  usr_account_status :: account_status
  usr_created_at :: time
  usr_updated_at :: time
  usr_last_login_at :: "time option"
  usr_email_verified_at :: "time option"
  usr_password_changed_at :: "time option"
  usr_display_name :: "string option"

record refresh_session =
  rs_id :: uuid
  rs_user_id :: uuid
  rs_token_hash :: string
  rs_token_family_id :: uuid
  rs_replaced_by :: "uuid option"
  rs_created_at :: time
  rs_expires_at :: time
  rs_last_used_at :: "time option"
  rs_revoked_at :: "time option"
  rs_revocation_reason :: "string option"
  rs_user_agent :: "string option"

record account_token =
  tok_id :: uuid
  tok_user_id :: uuid
  tok_purpose :: token_purpose
  tok_token_hash :: string
  tok_created_at :: time
  tok_expires_at :: time
  tok_consumed_at :: "time option"
  tok_invalidated_at :: "time option"
  tok_request_user_agent :: "string option"

record upload_session =
  up_id :: uuid
  up_owner :: uuid
  up_analysis_id :: string
  up_sport :: sport
  up_filename :: string
  up_content_type :: string
  up_declared_size :: int
  up_logical_key :: string
  up_storage_key :: string
  up_provider :: string
  up_provider_upload_id :: string
  up_status :: upload_status
  up_part_size :: int
  up_part_count :: int
  up_expected_sha256 :: "string option"
  up_verified_sha256 :: "string option"
  up_idempotency_key_hash :: string
  up_request_fingerprint :: string
  up_reanalyze :: bool
  up_client_metadata :: json_object
  up_result_payload :: "json_object option"
  up_failure_reason :: "string option"
  up_row_version :: int
  up_created_at :: time
  up_updated_at :: time
  up_expires_at :: time
  up_verification_started_at :: "time option"
  up_completed_at :: "time option"
  up_aborted_at :: "time option"

record video =
  vid_id :: uuid
  vid_owner :: uuid
  vid_state :: video_state
  vid_filename :: string
  vid_provider :: string
  vid_storage_key :: "string option"
  vid_content_type :: "string option"
  vid_size :: "int option"
  vid_checksum :: "string option"
  vid_metadata :: json_object
  vid_row_version :: int
  vid_created_at :: time
  vid_updated_at :: time

record analysis =
  an_id :: string
  an_owner :: uuid
  an_video_id :: uuid
  an_lifecycle :: lifecycle
  an_deletion_requested_at :: "time option"
  an_deleted_at :: "time option"
  an_sport :: sport
  an_state :: state
  an_current_stage :: stage
  an_job_payload :: json_object
  an_promoted_run_id :: "uuid option"
  an_row_version :: int
  an_created_at :: time
  an_updated_at :: time
  an_completed_at :: "time option"
  an_failed_at :: "time option"
  an_cancelled_at :: "time option"

record run =
  run_id :: uuid
  run_analysis_id :: string
  run_attempt :: int
  run_state :: state
  run_previous :: "uuid option"
  run_row_version :: int
  run_source_checksum :: "string option"
  run_sport :: sport
  run_sport_config_version :: string
  run_court_definition_version :: string
  run_pipeline_version :: string
  run_schema_version :: int
  run_policy_version :: string
  run_fingerprint :: string
  run_software_commit :: string
  run_deployment_build :: string
  run_lease_expires_at :: "time option"
  run_heartbeat_at :: "time option"
  run_started_at :: "time option"
  run_completed_at :: "time option"
  run_failed_at :: "time option"
  run_cancelled_at :: "time option"
  run_stale_at :: "time option"
  run_error_code :: "string option"
  run_error_detail :: "string option"
  run_created_at :: time
  run_updated_at :: time

text \<open>An entry of the JSONB lists of artifact references.\<close>

record artifact_reference =
  ref_artifact_id :: "uuid option"
  ref_storage_key :: string
  ref_checksum :: string
  ref_schema_version :: "int option"

text \<open>The provenance of a stage, as \<^verbatim>\<open>app/schemas/stage_execution.py\<close> types it.\<close>

record stage_provenance =
  sp_schema_version :: int
  sp_stage_name :: string
  sp_stage_version :: string
  sp_sport :: sport
  sp_sport_config_version :: string
  sp_court_definition_version :: string
  sp_detector_name :: "string option"
  sp_detector_version :: "string option"
  sp_model_identifier :: "string option"
  sp_model_sha256 :: "string option"
  sp_tracker_name :: "string option"
  sp_tracker_version :: "string option"
  sp_confidence_threshold :: "rat option"
  sp_interpolation_policy_version :: "string option"
  sp_source_video_checksum :: "string option"
  sp_court_calibration_artifact_checksum :: "string option"
  sp_calibration_schema_version :: "int option"
  sp_software_commit :: "string option"
  sp_build_id :: "string option"
  sp_environment :: "string option"
  sp_effective_configuration :: json_object
  sp_configuration_fingerprint :: string
  sp_output_schema_version :: int

record stage_execution =
  se_id :: uuid
  se_owner :: uuid
  se_analysis_id :: string
  se_run_id :: uuid
  se_stage_type :: string
  se_attempt :: int
  se_state :: state
  se_row_version :: int
  se_is_optional :: bool
  se_shadow_mode :: bool
  se_fingerprint :: string
  se_provenance :: stage_provenance
  se_inputs :: "artifact_reference list"
  se_outputs :: "artifact_reference list"
  se_failure_category :: "string option"
  se_created_at :: time
  se_started_at :: "time option"
  se_completed_at :: "time option"
  se_failed_at :: "time option"
  se_cancelled_at :: "time option"
  se_stale_at :: "time option"
  se_unavailable_at :: "time option"
  se_updated_at :: time

datatype subject = SubjectAnalysis | SubjectRun

record state_event =
  ev_id :: uuid
  ev_subject :: subject
  ev_analysis_id :: string
  ev_run_id :: "uuid option"
  ev_previous :: "state option"
  ev_new :: state
  ev_type :: string
  ev_reason :: "string option"
  ev_actor :: string
  ev_row_version :: int
  ev_created_at :: time

datatype idempotency_status = InProgress | IdemCompleted | IdemFailed

record idempotency_record =
  idem_id :: uuid
  idem_owner :: uuid
  idem_scope :: string
  idem_key_hash :: string
  idem_fingerprint :: string
  idem_status :: idempotency_status
  idem_resource_type :: "string option"
  idem_resource_id :: "string option"
  idem_response :: "json_object option"
  idem_created_at :: time
  idem_updated_at :: time
  idem_expires_at :: "time option"

record artifact =
  art_id :: uuid
  art_owner :: uuid
  art_analysis_id :: string
  art_run_id :: "uuid option"
  art_stage_id :: "uuid option"
  art_kind :: string
  art_provider :: string
  art_storage_key :: string
  art_logical_key :: string
  art_content_type :: string
  art_size :: int
  art_checksum :: string
  art_schema_version :: "int option"
  art_state :: artifact_state
  art_is_current :: bool
  art_created_at :: time
  art_updated_at :: time

record calibration_verification =
  cv_id :: uuid
  cv_owner :: uuid
  cv_analysis_id :: string
  cv_calibration_id :: string
  cv_checksum :: string
  cv_state :: review_state
  cv_method :: string
  cv_reviewer_context :: "string option"
  cv_schema_version :: int
  cv_verified_at :: time
  cv_created_at :: time

record player_selection =
  ps_id :: uuid
  ps_owner :: uuid
  ps_analysis_id :: string
  ps_run_id :: uuid
  ps_candidate_id :: "string option"
  ps_track_id :: "int option"
  ps_source_track_ids :: "int list"
  ps_is_current :: bool
  ps_created_at :: time

section \<open>The database\<close>

record db =
  users :: "user list"
  refresh_sessions :: "refresh_session list"
  account_tokens :: "account_token list"
  upload_sessions :: "upload_session list"
  videos :: "video list"
  analyses :: "analysis list"
  runs :: "run list"
  stages :: "stage_execution list"
  events :: "state_event list"
  idem_records :: "idempotency_record list"
  artifacts :: "artifact list"
  verifications :: "calibration_verification list"
  selections :: "player_selection list"

definition empty_db :: db where
  "empty_db = \<lparr>users = [], refresh_sessions = [], account_tokens = [], upload_sessions = [],
     videos = [], analyses = [], runs = [], stages = [], events = [], idem_records = [],
     artifacts = [], verifications = [], selections = []\<rparr>"

text \<open>\<open>session.get(Model, key)\<close>: the row with that primary key.\<close>

definition get_user :: "db \<Rightarrow> uuid \<Rightarrow> user option" where
  "get_user d k = find (\<lambda>r. usr_id r = k) (users d)"

definition get_video :: "db \<Rightarrow> uuid \<Rightarrow> video option" where
  "get_video d k = find (\<lambda>r. vid_id r = k) (videos d)"

definition get_analysis :: "db \<Rightarrow> string \<Rightarrow> analysis option" where
  "get_analysis d k = find (\<lambda>r. an_id r = k) (analyses d)"

definition get_run :: "db \<Rightarrow> uuid \<Rightarrow> run option" where
  "get_run d k = find (\<lambda>r. run_id r = k) (runs d)"

definition get_stage :: "db \<Rightarrow> uuid \<Rightarrow> stage_execution option" where
  "get_stage d k = find (\<lambda>r. se_id r = k) (stages d)"

end
