(* ===== verification/Uuids.thy ===== *)
theory Uuids
  imports Prelude
begin

text \<open>
  The two textual forms of a UUID the code uses, and the parser: \<open>str(u)\<close> (32 lower-case
  hexadecimal digits in groups of 8, 4, 4, 4 and 12), \<open>u.hex\<close> (the digits without
  dashes), and \<open>UUID(text)\<close> of Python's \<open>uuid\<close> module, which drops the prefixes
  \<open>urn:\<close> and \<open>uuid:\<close>, braces and dashes and then wants 32 hexadecimal digits of
  either case. (The further spellings Python's \<open>int(text, 16)\<close> takes, such as
  underscores between digits, are refused here.)
\<close>

fun hex_of :: "nat \<Rightarrow> nat \<Rightarrow> string" where
  "hex_of 0 n = []"
| "hex_of (Suc k) n = hex_of k (n div 16) @ [hex_digits ! (n mod 16)]"

definition uuid_hex :: "uuid \<Rightarrow> string" where
  "uuid_hex u = hex_of 32 (unat u)"

definition uuid_text :: "uuid \<Rightarrow> string" where
  "uuid_text u = (let h = uuid_hex u in
     take 8 h @ ''-'' @ take 4 (drop 8 h) @ ''-'' @ take 4 (drop 12 h) @ ''-''
     @ take 4 (drop 16 h) @ ''-'' @ drop 20 h)"

text \<open>\<open>s.replace(pat, "")\<close> for a non-empty \<open>pat\<close>: left to right, not overlapping.\<close>

function remove_all :: "string \<Rightarrow> string \<Rightarrow> string" where
  "remove_all pat [] = []"
| "remove_all pat (c # cs) =
     (if pat \<noteq> [] \<and> take (length pat) (c # cs) = pat
      then remove_all pat (drop (length pat) (c # cs))
      else c # remove_all pat cs)"
  by pat_completeness auto
termination
  by (relation "measure (\<lambda>(pat, s). length s)") auto

definition strip_braces :: "string \<Rightarrow> string" where
  "strip_braces s =
     (let brace = (\<lambda>c. c = CHR ''{'' \<or> c = CHR ''}'')
      in rev (dropWhile brace (rev (dropWhile brace s))))"

definition lower_char :: "char \<Rightarrow> char" where
  "lower_char c = (let n = of_char c :: nat in
     if 65 \<le> n \<and> n \<le> 90 then char_of (n + 32) else c)"

definition digit_value :: "char \<Rightarrow> nat option" where
  "digit_value c = map_option fst (find (\<lambda>(i, d). d = lower_char c) (enumerate 0 hex_digits))"

fun hex_value :: "nat \<Rightarrow> string \<Rightarrow> nat option" where
  "hex_value acc [] = Some acc"
| "hex_value acc (c # cs) =
     (case digit_value c of None \<Rightarrow> None | Some d \<Rightarrow> hex_value (16 * acc + d) cs)"

definition parse_uuid :: "string \<Rightarrow> uuid option" where
  "parse_uuid s =
     (let h = filter (\<lambda>c. c \<noteq> CHR ''-'')
                (strip_braces (remove_all ''uuid:'' (remove_all ''urn:'' s)))
      in if length h = 32 then map_option word_of_nat (hex_value 0 h) else None)"

section \<open>The round trip\<close>

lemma length_hex_of [simp]: "length (hex_of k n) = k"
  by (induction k arbitrary: n) auto

lemma hex_digits_nth: "i < 16 \<Longrightarrow> hex_digits ! i \<in> set hex_digits"
  by (rule nth_mem) (simp add: hex_digits_def)

lemma set_hex_of: "set (hex_of k n) \<subseteq> set hex_digits"
proof (induction k arbitrary: n)
  case 0
  show ?case by simp
next
  case (Suc k)
  have "hex_digits ! (n mod 16) \<in> set hex_digits"
    by (rule hex_digits_nth) simp
  with Suc.IH [of "n div 16"] show ?case by simp
qed

lemma digit_value_nth: "i < 16 \<Longrightarrow> digit_value (hex_digits ! i) = Some i"
proof -
  have "\<forall>i\<in>set [0..<16]. digit_value (hex_digits ! i) = Some i"
    by code_simp
  then show "i < 16 \<Longrightarrow> digit_value (hex_digits ! i) = Some i" by simp
qed

lemma hex_value_append:
  "hex_value a (xs @ ys) = Option.bind (hex_value a xs) (\<lambda>b. hex_value b ys)"
  by (induction xs arbitrary: a) (auto split: option.splits)

lemma hex_value_hex_of: "hex_value a (hex_of k n) = Some (a * 16 ^ k + n mod 16 ^ k)"
proof (induction k arbitrary: n)
  case 0
  show ?case by simp
next
  case (Suc k)
  have "n mod 16 ^ Suc k = 16 * (n div 16 mod 16 ^ k) + n mod 16"
    by (metis mod_mult2_eq power_Suc)
  then show ?case
    by (simp add: Suc.IH hex_value_append digit_value_nth algebra_simps)
qed

lemma remove_all_absent: "c0 \<in> set pat \<Longrightarrow> c0 \<notin> set s \<Longrightarrow> remove_all pat s = s"
proof (induction pat s rule: remove_all.induct)
  case (1 pat)
  show ?case by simp
next
  case (2 pat c cs)
  have "take (length pat) (c # cs) \<noteq> pat"
    using "2.prems" by (metis in_set_takeD)
  with 2 show ?case by simp
qed

lemma hex_plain: "c \<in> set hex_digits \<Longrightarrow> c \<notin> {CHR ''-'', CHR ''{'', CHR ''}'', CHR '':''}"
  by (auto simp: hex_digits_def)

lemma strip_braces_absent:
  "CHR ''{'' \<notin> set s \<Longrightarrow> CHR ''}'' \<notin> set s \<Longrightarrow> strip_braces s = s"
proof -
  assume *: "CHR ''{'' \<notin> set s" "CHR ''}'' \<notin> set s"
  have "dropWhile (\<lambda>c. c = CHR ''{'' \<or> c = CHR ''}'') t = t" if "set t \<subseteq> set s" for t
    using that * by (cases t) auto
  then show ?thesis by (simp add: strip_braces_def)
qed

lemma set_take_drop: "set (take k xs) \<subseteq> set xs" "set (drop k xs) \<subseteq> set xs"
  by (auto dest: in_set_takeD in_set_dropD)

lemma set_uuid_text: "set (uuid_text u) \<subseteq> insert CHR ''-'' (set hex_digits)"
proof -
  have h: "set (uuid_hex u) \<subseteq> set hex_digits"
    by (simp add: uuid_hex_def set_hex_of)
  show ?thesis
    unfolding uuid_text_def Let_def set_append
    using set_take_drop [of _ "uuid_hex u"] set_take_drop [of 4 "drop _ (uuid_hex u)"] h
    by (auto dest!: in_set_takeD in_set_dropD)
qed

lemma take_drop_join: "take a (drop b h) @ drop (b + a) h = drop b h"
  by (metis append_take_drop_id drop_drop add.commute)

lemma uuid_text_digits: "filter (\<lambda>c. c \<noteq> CHR ''-'') (uuid_text u) = uuid_hex u"
proof -
  define h where "h = uuid_hex u"
  have keep: "filter (\<lambda>c. c \<noteq> CHR ''-'') t = t" if "set t \<subseteq> set h" for t
    using that set_hex_of [of 32 "unat u"] hex_plain
    by (auto simp: filter_id_conv h_def uuid_hex_def)
  have sub: "set (take a (drop b h)) \<subseteq> set h" for a b
    by (auto dest: in_set_takeD in_set_dropD)
  have split: "take 8 h @ take 4 (drop 8 h) @ take 4 (drop 12 h) @ take 4 (drop 16 h) @ drop 20 h
    = h"
    using take_drop_join [of 4 16 h] take_drop_join [of 4 12 h] take_drop_join [of 4 8 h]
    by simp
  have "filter (\<lambda>c. c \<noteq> CHR ''-'') (uuid_text u)
    = take 8 h @ take 4 (drop 8 h) @ take 4 (drop 12 h) @ take 4 (drop 16 h) @ drop 20 h"
    unfolding uuid_text_def Let_def h_def [symmetric]
    using keep [OF sub] keep [OF set_take_drop(1)] keep [OF set_take_drop(2)]
    by simp
  then show ?thesis by (simp only: split) (simp only: h_def)
qed

lemma parse_digits: "length h = 32 \<Longrightarrow> h = uuid_hex u \<Longrightarrow>
  map_option word_of_nat (hex_value 0 h) = Some u"
proof -
  assume "h = uuid_hex u"
  moreover have "unat u < 16 ^ 32"
    using unsigned_less [of u, where 'a = nat] by simp
  ultimately show ?thesis by (simp add: uuid_hex_def hex_value_hex_of del: power_numeral)
qed

lemma plain_text:
  assumes "set s \<subseteq> insert CHR ''-'' (set hex_digits)"
  shows "strip_braces (remove_all ''uuid:'' (remove_all ''urn:'' s)) = s"
proof -
  have "CHR '':'' \<notin> set s" "CHR ''{'' \<notin> set s" "CHR ''}'' \<notin> set s"
    using assms hex_plain by auto
  then show ?thesis
    using remove_all_absent [of "CHR '':''"] strip_braces_absent by simp
qed

text \<open>Parsing what was printed gives the UUID back, for both printed forms.\<close>

lemma parse_uuid_text [simp]: "parse_uuid (uuid_text u) = Some u"
  using set_uuid_text [of u] parse_digits [of "uuid_hex u" u]
  by (simp add: parse_uuid_def Let_def plain_text uuid_text_digits uuid_hex_def)

lemma uuid_text_inj: "uuid_text u = uuid_text v \<longleftrightarrow> u = v"
  by (metis option.inject parse_uuid_text)

lemma uuid_hex_inj: "uuid_hex u = uuid_hex v \<longleftrightarrow> u = v"
  by (metis length_hex_of option.inject parse_digits uuid_hex_def)

end
