(* ===== verification/Interfaces.thy ===== *)
theory Interfaces
  imports Prelude
begin

text \<open>
  The contracts the components of the library rely on, as locales. Each is interpreted
  on the model's own definitions, in the theory of the component that provides them:
  \<^item> \<open>keyed_table\<close>: a table with a primary key, an insertion and an update by key (the
    schema provides it, every service is its client);
  \<^item> \<open>status_machine\<close>: a transition table that only moves forward, so a row visits no
    state twice and ends after a bounded number of moves (runs and stage executions).
\<close>

section \<open>Tables with a primary key\<close>

locale keyed_table =
  fixes key :: "'r \<Rightarrow> 'k"
    and table :: "'d \<Rightarrow> 'r list"
    and modify :: "'k \<Rightarrow> ('r \<Rightarrow> 'r) \<Rightarrow> 'd \<Rightarrow> 'd"
    and insert_row :: "'r \<Rightarrow> 'd \<Rightarrow> 'e + 'd"
  assumes table_modify: "table (modify k f d) = update_where (\<lambda>r. key r = k) f (table d)"
    and table_insert: "insert_row r d = Inr d' \<Longrightarrow> table d' = table d @ [r]"
    and key_fresh: "insert_row r d = Inr d' \<Longrightarrow> key r \<notin> key ` set (table d)"
begin

lemma keys_modify:
  assumes "\<And>r. key r = k \<Longrightarrow> key (f r) = k"
  shows "map key (table (modify k f d)) = map key (table d)"
  using assms by (auto simp: table_modify update_where_def)

lemma distinct_modify:
  assumes "\<And>r. key r = k \<Longrightarrow> key (f r) = k" and "distinct (map key (table d))"
  shows "distinct (map key (table (modify k f d)))"
  using assms(2) by (simp only: keys_modify [OF assms(1)])

lemma distinct_insert:
  assumes "insert_row r d = Inr d'" and "distinct (map key (table d))"
  shows "distinct (map key (table d'))"
  using assms(2) table_insert [OF assms(1)] key_fresh [OF assms(1)] by simp

lemma lookup_unique:
  assumes "distinct (map key (table d))" and "r \<in> set (table d)"
  shows "find (\<lambda>s. key s = key r) (table d) = Some r"
proof (cases "find (\<lambda>s. key s = key r) (table d)")
  case None
  with assms(2) show ?thesis by (auto simp: find_None_all)
next
  case (Some s)
  then have "s \<in> set (table d)" "key s = key r" by (auto dest: find_Some_in)
  with assms have "s = r" by (auto simp: distinct_map dest: inj_onD)
  with Some show ?thesis by simp
qed

lemma lookup_modify_same:
  assumes "find (\<lambda>r. key r = k) (table d) = Some r" and "\<And>r. key r = k \<Longrightarrow> key (f r) = k"
  shows "find (\<lambda>r. key r = k) (table (modify k f d)) = Some (f r)"
proof -
  have "find (\<lambda>r. key r = k) (update_where (\<lambda>r. key r = k) f rows)
      = map_option f (find (\<lambda>r. key r = k) rows)" for rows
    using assms(2) by (induction rows) (auto simp: update_where_def)
  with assms(1) show ?thesis by (simp add: table_modify)
qed

lemma lookup_modify_other:
  assumes "k \<noteq> k'" and "\<And>r. key r = k \<Longrightarrow> key (f r) = k"
  shows "find (\<lambda>r. key r = k') (table (modify k f d)) = find (\<lambda>r. key r = k') (table d)"
proof -
  have "find (\<lambda>r. key r = k') (update_where (\<lambda>r. key r = k) f rows)
      = find (\<lambda>r. key r = k') rows" for rows
    using assms by (induction rows) (auto simp: update_where_def)
  then show ?thesis by (simp add: table_modify)
qed

lemma lookup_insert_same:
  assumes "insert_row r d = Inr d'"
  shows "find (\<lambda>s. key s = key r) (table d') = Some r"
proof -
  have "find (\<lambda>s. key s = key r) (table d) = None"
    using key_fresh [OF assms] unfolding find_None_all by (metis image_eqI)
  then show ?thesis by (simp add: table_insert [OF assms] find_append)
qed

lemma lookup_insert_other:
  assumes "insert_row r d = Inr d'" and "key r \<noteq> k"
  shows "find (\<lambda>s. key s = k) (table d') = find (\<lambda>s. key s = k) (table d)"
  using assms by (simp add: table_insert [OF assms(1)] find_append split: option.splits)

lemma lookup_insert_mono:
  assumes "insert_row r d = Inr d'" and "find (\<lambda>s. key s = k) (table d) = Some s"
  shows "find (\<lambda>s. key s = k) (table d') = Some s"
  using assms by (simp add: table_insert [OF assms(1)] find_append)

end

section \<open>Status machines\<close>

locale status_machine =
  fixes allowed :: "'s \<Rightarrow> 's \<Rightarrow> bool" and rank :: "'s \<Rightarrow> nat" and top :: nat
  assumes allowed_rank: "allowed s t \<Longrightarrow> rank s < rank t"
    and rank_top: "rank s \<le> top"
begin

text \<open>A path of the machine: each state may follow the one before.\<close>

lemma path_rank:
  assumes "successively allowed (s # ss)" and "ss \<noteq> []"
  shows "rank s + length ss \<le> rank (last ss)"
  using assms
proof (induction ss arbitrary: s)
  case Nil
  then show ?case by simp
next
  case (Cons t ts)
  have "rank s < rank t" using Cons.prems allowed_rank by simp
  show ?case
  proof (cases "ts = []")
    case True
    with \<open>rank s < rank t\<close> show ?thesis by simp
  next
    case False
    with Cons have "rank t + length ts \<le> rank (last ts)" by simp
    with \<open>rank s < rank t\<close> False show ?thesis by simp
  qed
qed

lemma path_bounded:
  assumes "successively allowed (s # ss)"
  shows "rank s + length ss \<le> top"
proof (cases "ss = []")
  case True
  then show ?thesis using rank_top [of s] by simp
next
  case False
  then show ?thesis using path_rank [OF assms False] rank_top [of "last ss"] by linarith
qed

lemma no_return:
  assumes "successively allowed (s # ss)" and "ss \<noteq> []"
  shows "last ss \<noteq> s"
  using path_rank [OF assms] assms(2) by (cases ss) auto

lemma irreflexive: "\<not> allowed s s"
  using allowed_rank by blast

end

end
