(* ===== verification/Schema.thy ===== *)
theory Schema
  imports Tables Uuids Interfaces
begin

text \<open>
  The insertions and the row updates of the schema. An insertion checks what PostgreSQL
  checks for the table (primary key, unique and partial unique indexes, foreign keys,
  check constraints) and fails with \<open>IntegrityError\<close>; otherwise the row is appended.
  \<open>modify_*\<close> is the update of the one row with a given key: an ORM object the session
  flushes, or a core \<open>update()\<close> whose condition names the primary key.
\<close>

section \<open>Conditions of the partial unique indexes\<close>

definition active_state :: "state \<Rightarrow> bool" where
  "active_state s \<longleftrightarrow> s = Queued \<or> s = Processing"

definition active_run_of :: "string \<Rightarrow> run \<Rightarrow> bool" where
  "active_run_of a r \<longleftrightarrow> run_analysis_id r = a \<and> active_state (run_state r)"

definition active_stage_of :: "string \<Rightarrow> string \<Rightarrow> stage_execution \<Rightarrow> bool" where
  "active_stage_of a ty r \<longleftrightarrow>
     se_analysis_id r = a \<and> se_stage_type r = ty \<and> active_state (se_state r)"

definition current_logical_of :: "string \<Rightarrow> string \<Rightarrow> artifact \<Rightarrow> bool" where
  "current_logical_of a lk r \<longleftrightarrow>
     art_is_current r \<and> art_analysis_id r = a \<and> art_logical_key r = lk"

definition current_storage_of :: "string \<Rightarrow> string \<Rightarrow> string \<Rightarrow> artifact \<Rightarrow> bool" where
  "current_storage_of a pr sk r \<longleftrightarrow>
     art_is_current r \<and> art_analysis_id r = a \<and> art_provider r = pr \<and> art_storage_key r = sk"

definition current_selection_of :: "string \<Rightarrow> player_selection \<Rightarrow> bool" where
  "current_selection_of a r \<longleftrightarrow> ps_is_current r \<and> ps_analysis_id r = a"

definition idem_slot :: "uuid \<Rightarrow> string \<Rightarrow> string \<Rightarrow> idempotency_record \<Rightarrow> bool" where
  "idem_slot owner scope kh r \<longleftrightarrow>
     idem_owner r = owner \<and> idem_scope r = scope \<and> idem_key_hash r = kh"

definition active_token_of :: "uuid \<Rightarrow> token_purpose \<Rightarrow> account_token \<Rightarrow> bool" where
  "active_token_of u p r \<longleftrightarrow>
     tok_user_id r = u \<and> tok_purpose r = p \<and> tok_consumed_at r = None
     \<and> tok_invalidated_at r = None"

lemmas [row_defs] = active_state_def active_run_of_def active_stage_of_def
  current_logical_of_def current_storage_of_def current_selection_of_def idem_slot_def
  active_token_of_def

section \<open>Insertions\<close>

definition has_user :: "db \<Rightarrow> uuid \<Rightarrow> bool" where
  "has_user d u \<longleftrightarrow> get_user d u \<noteq> None"

text \<open>The foreign key (analysis, owner) of the tables that repeat the owner.\<close>

definition has_owned_analysis :: "db \<Rightarrow> string \<Rightarrow> uuid \<Rightarrow> bool" where
  "has_owned_analysis d a u \<longleftrightarrow> (\<exists>r\<in>set (analyses d). an_id r = a \<and> an_owner r = u)"

text \<open>The foreign key (run, analysis).\<close>

definition has_run_of :: "db \<Rightarrow> uuid \<Rightarrow> string \<Rightarrow> bool" where
  "has_run_of d k a \<longleftrightarrow> (\<exists>r\<in>set (runs d). run_id r = k \<and> run_analysis_id r = a)"

definition has_stage_of :: "db \<Rightarrow> uuid \<Rightarrow> string \<Rightarrow> bool" where
  "has_stage_of d k a \<longleftrightarrow> (\<exists>r\<in>set (stages d). se_id r = k \<and> se_analysis_id r = a)"

definition fk_null_or :: "('k \<Rightarrow> bool) \<Rightarrow> 'k option \<Rightarrow> bool" where
  "fk_null_or p k = (case k of None \<Rightarrow> True | Some x \<Rightarrow> p x)"

definition insert_user :: "user \<Rightarrow> db \<Rightarrow> error + db" where
  "insert_user r d =
     (if (\<exists>s\<in>set (users d). usr_id s = usr_id r \<or> usr_email s = usr_email r)
      then Inl IntegrityError else Inr (d\<lparr>users := users d @ [r]\<rparr>))"

definition insert_refresh_session :: "refresh_session \<Rightarrow> db \<Rightarrow> error + db" where
  "insert_refresh_session r d =
     (if (\<exists>s\<in>set (refresh_sessions d). rs_id s = rs_id r \<or> rs_token_hash s = rs_token_hash r)
         \<or> \<not> has_user d (rs_user_id r)
      then Inl IntegrityError else Inr (d\<lparr>refresh_sessions := refresh_sessions d @ [r]\<rparr>))"

definition insert_account_token :: "account_token \<Rightarrow> db \<Rightarrow> error + db" where
  "insert_account_token r d =
     (if (\<exists>s\<in>set (account_tokens d). tok_id s = tok_id r \<or> tok_token_hash s = tok_token_hash r)
         \<or> (active_token_of (tok_user_id r) (tok_purpose r) r
            \<and> (\<exists>s\<in>set (account_tokens d). active_token_of (tok_user_id r) (tok_purpose r) s))
         \<or> tok_expires_at r \<le> tok_created_at r
         \<or> (tok_consumed_at r \<noteq> None \<and> tok_invalidated_at r \<noteq> None)
         \<or> \<not> has_user d (tok_user_id r)
      then Inl IntegrityError else Inr (d\<lparr>account_tokens := account_tokens d @ [r]\<rparr>))"

definition insert_upload_session :: "upload_session \<Rightarrow> db \<Rightarrow> error + db" where
  "insert_upload_session r d =
     (if (\<exists>s\<in>set (upload_sessions d).
            up_id s = up_id r \<or> up_analysis_id s = up_analysis_id r
            \<or> up_storage_key s = up_storage_key r
            \<or> (up_owner s = up_owner r \<and> up_idempotency_key_hash s = up_idempotency_key_hash r))
         \<or> up_declared_size r \<le> 0 \<or> up_part_size r \<le> 0 \<or> up_part_count r \<le> 0
         \<or> up_row_version r \<le> 0
         \<or> \<not> hex64_or_null (up_expected_sha256 r) \<or> \<not> hex64_or_null (up_verified_sha256 r)
         \<or> \<not> has_user d (up_owner r)
      then Inl IntegrityError else Inr (d\<lparr>upload_sessions := upload_sessions d @ [r]\<rparr>))"

definition insert_video :: "video \<Rightarrow> db \<Rightarrow> error + db" where
  "insert_video r d =
     (if (\<exists>s\<in>set (videos d). vid_id s = vid_id r) \<or> vid_row_version r \<le> 0
         \<or> \<not> hex64_or_null (vid_checksum r) \<or> \<not> has_user d (vid_owner r)
      then Inl IntegrityError else Inr (d\<lparr>videos := videos d @ [r]\<rparr>))"

definition analysis_state_ok :: "state \<Rightarrow> bool" where
  "analysis_state_ok s \<longleftrightarrow> s \<in> {Pending, Processing, Completed, Failed, Cancelled}"

definition run_state_ok :: "state \<Rightarrow> bool" where
  "run_state_ok s \<longleftrightarrow> s \<in> {Queued, Processing, Completed, Failed, Cancelled, Stale}"

definition stage_state_ok :: "state \<Rightarrow> bool" where
  "stage_state_ok s \<longleftrightarrow>
     s \<in> {Queued, Processing, Completed, Failed, Cancelled, Stale, Unavailable}"

definition insert_analysis :: "analysis \<Rightarrow> db \<Rightarrow> error + db" where
  "insert_analysis r d =
     (if (\<exists>s\<in>set (analyses d). an_id s = an_id r)
         \<or> \<not> (\<exists>v\<in>set (videos d). vid_id v = an_video_id r \<and> vid_owner v = an_owner r)
         \<or> \<not> fk_null_or (\<lambda>k. has_run_of d k (an_id r)) (an_promoted_run_id r)
         \<or> \<not> analysis_state_ok (an_state r) \<or> an_row_version r \<le> 0
         \<or> \<not> has_user d (an_owner r)
      then Inl IntegrityError else Inr (d\<lparr>analyses := analyses d @ [r]\<rparr>))"

definition insert_run :: "run \<Rightarrow> db \<Rightarrow> error + db" where
  "insert_run r d =
     (if (\<exists>s\<in>set (runs d). run_id s = run_id r
            \<or> (run_analysis_id s = run_analysis_id r \<and> run_attempt s = run_attempt r))
         \<or> (active_state (run_state r)
            \<and> (\<exists>s\<in>set (runs d). active_run_of (run_analysis_id r) s))
         \<or> \<not> run_state_ok (run_state r) \<or> run_row_version r \<le> 0 \<or> run_schema_version r \<le> 0
         \<or> \<not> hex64_or_null (run_source_checksum r) \<or> \<not> hex64 (run_fingerprint r)
         \<or> get_analysis d (run_analysis_id r) = None
         \<or> \<not> fk_null_or (\<lambda>k. get_run d k \<noteq> None) (run_previous r)
      then Inl IntegrityError else Inr (d\<lparr>runs := runs d @ [r]\<rparr>))"

definition insert_stage :: "stage_execution \<Rightarrow> db \<Rightarrow> error + db" where
  "insert_stage r d =
     (if (\<exists>s\<in>set (stages d). se_id s = se_id r
            \<or> (se_analysis_id s = se_analysis_id r \<and> se_stage_type s = se_stage_type r
               \<and> se_attempt s = se_attempt r))
         \<or> (active_state (se_state r)
            \<and> (\<exists>s\<in>set (stages d). active_stage_of (se_analysis_id r) (se_stage_type r) s))
         \<or> \<not> stage_state_ok (se_state r) \<or> se_attempt r \<le> 0 \<or> se_row_version r \<le> 0
         \<or> \<not> hex64 (se_fingerprint r)
         \<or> \<not> has_run_of d (se_run_id r) (se_analysis_id r)
         \<or> \<not> has_owned_analysis d (se_analysis_id r) (se_owner r)
         \<or> \<not> has_user d (se_owner r)
      then Inl IntegrityError else Inr (d\<lparr>stages := stages d @ [r]\<rparr>))"

definition insert_event :: "state_event \<Rightarrow> db \<Rightarrow> error + db" where
  "insert_event r d =
     (if (\<exists>s\<in>set (events d). ev_id s = ev_id r)
         \<or> \<not> (case ev_subject r of SubjectAnalysis \<Rightarrow> ev_run_id r = None
               | SubjectRun \<Rightarrow> ev_run_id r \<noteq> None)
         \<or> get_analysis d (ev_analysis_id r) = None
         \<or> \<not> fk_null_or (\<lambda>k. get_run d k \<noteq> None) (ev_run_id r)
      then Inl IntegrityError else Inr (d\<lparr>events := events d @ [r]\<rparr>))"

definition insert_idem :: "idempotency_record \<Rightarrow> db \<Rightarrow> error + db" where
  "insert_idem r d =
     (if (\<exists>s\<in>set (idem_records d). idem_id s = idem_id r
            \<or> idem_slot (idem_owner r) (idem_scope r) (idem_key_hash r) s)
         \<or> \<not> hex64 (idem_key_hash r) \<or> \<not> hex64 (idem_fingerprint r)
         \<or> \<not> has_user d (idem_owner r)
      then Inl IntegrityError else Inr (d\<lparr>idem_records := idem_records d @ [r]\<rparr>))"

definition insert_artifact :: "artifact \<Rightarrow> db \<Rightarrow> error + db" where
  "insert_artifact r d =
     (if (\<exists>s\<in>set (artifacts d). art_id s = art_id r
            \<or> (art_is_current r
               \<and> (current_storage_of (art_analysis_id r) (art_provider r) (art_storage_key r) s
                  \<or> current_logical_of (art_analysis_id r) (art_logical_key r) s)))
         \<or> art_size r < 0 \<or> \<not> hex64 (art_checksum r)
         \<or> \<not> fk_null_or (\<lambda>k. has_run_of d k (art_analysis_id r)) (art_run_id r)
         \<or> \<not> fk_null_or (\<lambda>k. has_stage_of d k (art_analysis_id r)) (art_stage_id r)
         \<or> \<not> has_owned_analysis d (art_analysis_id r) (art_owner r)
         \<or> \<not> has_user d (art_owner r)
      then Inl IntegrityError else Inr (d\<lparr>artifacts := artifacts d @ [r]\<rparr>))"

definition insert_verification :: "calibration_verification \<Rightarrow> db \<Rightarrow> error + db" where
  "insert_verification r d =
     (if (\<exists>s\<in>set (verifications d). cv_id s = cv_id r
            \<or> (cv_analysis_id s = cv_analysis_id r \<and> cv_calibration_id s = cv_calibration_id r
               \<and> cv_checksum s = cv_checksum r))
         \<or> \<not> hex64 (cv_checksum r) \<or> cv_schema_version r \<le> 0
         \<or> \<not> has_owned_analysis d (cv_analysis_id r) (cv_owner r)
         \<or> \<not> has_user d (cv_owner r)
      then Inl IntegrityError else Inr (d\<lparr>verifications := verifications d @ [r]\<rparr>))"

definition insert_selection :: "player_selection \<Rightarrow> db \<Rightarrow> error + db" where
  "insert_selection r d =
     (if (\<exists>s\<in>set (selections d). ps_id s = ps_id r)
         \<or> (ps_is_current r
            \<and> (\<exists>s\<in>set (selections d). current_selection_of (ps_analysis_id r) s))
         \<or> \<not> has_run_of d (ps_run_id r) (ps_analysis_id r)
         \<or> \<not> has_owned_analysis d (ps_analysis_id r) (ps_owner r)
         \<or> \<not> has_user d (ps_owner r)
      then Inl IntegrityError else Inr (d\<lparr>selections := selections d @ [r]\<rparr>))"

lemmas insert_defs = insert_user_def insert_refresh_session_def insert_account_token_def
  insert_upload_session_def insert_video_def insert_analysis_def insert_run_def
  insert_stage_def insert_event_def insert_idem_def insert_artifact_def
  insert_verification_def insert_selection_def

section \<open>Updates of one row\<close>

definition modify_user :: "uuid \<Rightarrow> (user \<Rightarrow> user) \<Rightarrow> db \<Rightarrow> db" where
  "modify_user k f d = d\<lparr>users := update_where (\<lambda>r. usr_id r = k) f (users d)\<rparr>"

definition modify_refresh_session ::
    "uuid \<Rightarrow> (refresh_session \<Rightarrow> refresh_session) \<Rightarrow> db \<Rightarrow> db" where
  "modify_refresh_session k f d =
     d\<lparr>refresh_sessions := update_where (\<lambda>r. rs_id r = k) f (refresh_sessions d)\<rparr>"

definition modify_account_token ::
    "uuid \<Rightarrow> (account_token \<Rightarrow> account_token) \<Rightarrow> db \<Rightarrow> db" where
  "modify_account_token k f d =
     d\<lparr>account_tokens := update_where (\<lambda>r. tok_id r = k) f (account_tokens d)\<rparr>"

definition modify_upload ::
    "uuid \<Rightarrow> (upload_session \<Rightarrow> upload_session) \<Rightarrow> db \<Rightarrow> db" where
  "modify_upload k f d =
     d\<lparr>upload_sessions := update_where (\<lambda>r. up_id r = k) f (upload_sessions d)\<rparr>"

definition modify_video :: "uuid \<Rightarrow> (video \<Rightarrow> video) \<Rightarrow> db \<Rightarrow> db" where
  "modify_video k f d = d\<lparr>videos := update_where (\<lambda>r. vid_id r = k) f (videos d)\<rparr>"

definition modify_analysis :: "string \<Rightarrow> (analysis \<Rightarrow> analysis) \<Rightarrow> db \<Rightarrow> db" where
  "modify_analysis k f d = d\<lparr>analyses := update_where (\<lambda>r. an_id r = k) f (analyses d)\<rparr>"

definition modify_run :: "uuid \<Rightarrow> (run \<Rightarrow> run) \<Rightarrow> db \<Rightarrow> db" where
  "modify_run k f d = d\<lparr>runs := update_where (\<lambda>r. run_id r = k) f (runs d)\<rparr>"

definition modify_stage :: "uuid \<Rightarrow> (stage_execution \<Rightarrow> stage_execution) \<Rightarrow> db \<Rightarrow> db" where
  "modify_stage k f d = d\<lparr>stages := update_where (\<lambda>r. se_id r = k) f (stages d)\<rparr>"

definition modify_idem ::
    "uuid \<Rightarrow> (idempotency_record \<Rightarrow> idempotency_record) \<Rightarrow> db \<Rightarrow> db" where
  "modify_idem k f d = d\<lparr>idem_records := update_where (\<lambda>r. idem_id r = k) f (idem_records d)\<rparr>"

definition modify_artifacts :: "(artifact \<Rightarrow> bool) \<Rightarrow> (artifact \<Rightarrow> artifact) \<Rightarrow> db \<Rightarrow> db" where
  "modify_artifacts p f d = d\<lparr>artifacts := update_where p f (artifacts d)\<rparr>"

lemmas modify_defs = modify_user_def modify_refresh_session_def modify_account_token_def
  modify_upload_def modify_video_def modify_analysis_def modify_run_def modify_stage_def
  modify_idem_def modify_artifacts_def

section \<open>Shapes\<close>

text \<open>A successful insertion appends the row and touches no other table.\<close>

lemma insert_user_Inr: "insert_user r d = Inr d' \<Longrightarrow> d' = d\<lparr>users := users d @ [r]\<rparr>"
  by (auto simp: insert_user_def split: if_splits)

lemma insert_refresh_session_Inr:
  "insert_refresh_session r d = Inr d' \<Longrightarrow>
     d' = d\<lparr>refresh_sessions := refresh_sessions d @ [r]\<rparr>"
  by (auto simp: insert_refresh_session_def split: if_splits)

lemma insert_account_token_Inr:
  "insert_account_token r d = Inr d' \<Longrightarrow> d' = d\<lparr>account_tokens := account_tokens d @ [r]\<rparr>"
  by (auto simp: insert_account_token_def split: if_splits)

lemma insert_upload_session_Inr:
  "insert_upload_session r d = Inr d' \<Longrightarrow> d' = d\<lparr>upload_sessions := upload_sessions d @ [r]\<rparr>"
  by (auto simp: insert_upload_session_def split: if_splits)

lemma insert_video_Inr: "insert_video r d = Inr d' \<Longrightarrow> d' = d\<lparr>videos := videos d @ [r]\<rparr>"
  by (auto simp: insert_video_def split: if_splits)

lemma insert_analysis_Inr: "insert_analysis r d = Inr d' \<Longrightarrow> d' = d\<lparr>analyses := analyses d @ [r]\<rparr>"
  by (auto simp: insert_analysis_def split: if_splits)

lemma insert_run_Inr: "insert_run r d = Inr d' \<Longrightarrow> d' = d\<lparr>runs := runs d @ [r]\<rparr>"
  by (auto simp: insert_run_def split: if_splits)

lemma insert_stage_Inr: "insert_stage r d = Inr d' \<Longrightarrow> d' = d\<lparr>stages := stages d @ [r]\<rparr>"
  by (auto simp: insert_stage_def split: if_splits)

lemma insert_event_Inr: "insert_event r d = Inr d' \<Longrightarrow> d' = d\<lparr>events := events d @ [r]\<rparr>"
  unfolding insert_event_def by (simp split: if_split_asm)

lemma insert_idem_Inr: "insert_idem r d = Inr d' \<Longrightarrow> d' = d\<lparr>idem_records := idem_records d @ [r]\<rparr>"
  by (auto simp: insert_idem_def split: if_splits)

lemma insert_artifact_Inr: "insert_artifact r d = Inr d' \<Longrightarrow> d' = d\<lparr>artifacts := artifacts d @ [r]\<rparr>"
  by (auto simp: insert_artifact_def split: if_splits)

lemma insert_verification_Inr:
  "insert_verification r d = Inr d' \<Longrightarrow> d' = d\<lparr>verifications := verifications d @ [r]\<rparr>"
  by (auto simp: insert_verification_def split: if_splits)

lemma insert_selection_Inr:
  "insert_selection r d = Inr d' \<Longrightarrow> d' = d\<lparr>selections := selections d @ [r]\<rparr>"
  by (auto simp: insert_selection_def split: if_splits)

lemmas insert_shapes = insert_user_Inr insert_refresh_session_Inr insert_account_token_Inr
  insert_upload_session_Inr insert_video_Inr insert_analysis_Inr insert_run_Inr
  insert_stage_Inr insert_event_Inr insert_idem_Inr insert_artifact_Inr
  insert_verification_Inr insert_selection_Inr

text \<open>The only error an insertion raises.\<close>

lemma insert_Inl:
  "insert_run r d = Inl e \<Longrightarrow> e = IntegrityError"
  "insert_idem i d = Inl e \<Longrightarrow> e = IntegrityError"
  "insert_event ev d = Inl e \<Longrightarrow> e = IntegrityError"
  "insert_video v d = Inl e \<Longrightarrow> e = IntegrityError"
  "insert_analysis a d = Inl e \<Longrightarrow> e = IntegrityError"
  "insert_stage s d = Inl e \<Longrightarrow> e = IntegrityError"
  unfolding insert_defs by (simp_all split: if_split_asm)

section \<open>The tables as keyed tables\<close>

interpretation user_tab: keyed_table usr_id users modify_user insert_user
  by unfold_locales (auto simp: modify_user_def insert_user_def split: if_splits)

interpretation refresh_tab:
  keyed_table rs_id refresh_sessions modify_refresh_session insert_refresh_session
  by unfold_locales
    (auto simp: modify_refresh_session_def insert_refresh_session_def split: if_splits)

interpretation token_tab:
  keyed_table tok_id account_tokens modify_account_token insert_account_token
  by unfold_locales
    (auto simp: modify_account_token_def insert_account_token_def split: if_splits)

interpretation upload_tab: keyed_table up_id upload_sessions modify_upload insert_upload_session
  by unfold_locales (auto simp: modify_upload_def insert_upload_session_def split: if_splits)

interpretation video_tab: keyed_table vid_id videos modify_video insert_video
  by unfold_locales (auto simp: modify_video_def insert_video_def split: if_splits)

interpretation analysis_tab: keyed_table an_id analyses modify_analysis insert_analysis
  by unfold_locales (auto simp: modify_analysis_def insert_analysis_def split: if_splits)

interpretation run_tab: keyed_table run_id runs modify_run insert_run
  by unfold_locales (auto simp: modify_run_def insert_run_def split: if_splits)

interpretation stage_tab: keyed_table se_id stages modify_stage insert_stage
  by unfold_locales (auto simp: modify_stage_def insert_stage_def split: if_splits)

interpretation idem_tab: keyed_table idem_id idem_records modify_idem insert_idem
  by unfold_locales (auto simp: modify_idem_def insert_idem_def split: if_splits)

end
