(* ===== verification/Runs.thy ===== *)
theory Runs
  imports Schema "HOL-Library.Product_Lexorder" "HOL-Library.List_Lexorder"
    "HOL-Library.Char_ord"
begin

text \<open>
  The run side of \<open>PersistenceService\<close> (\<^verbatim>\<open>app/persistence/service.py\<close>): reserving an
  analysis for an upload, starting a run, moving a run through its states, and the reads
  over analyses, runs and their event log.

  Conventions. \<open>u i\<close> is the \<open>i\<close>-th UUID the operation draws (\<open>uuid4()\<close> of a column
  default), \<open>now\<close> the clock; the readings of one operation are the same instant.
  \<open>svc_sha256\<close> is \<open>sha256(...).hexdigest()\<close>. An operation is a function from the
  database to its outcome and the database it leaves. The synchronization hooks of the
  code, called between an operation's reads and its writes, are arguments
  \<open>env :: db \<Rightarrow> db\<close>: what other transactions commit at that point (the isolation level
  is READ COMMITTED, so the statements after the hook see it). Advisory and row locks
  have no effect on the state and do not appear; backend process ids are not modelled.
\<close>

section \<open>The service and its arguments\<close>

record run_provenance =
  pv_pipeline_version :: string
  pv_schema_version :: int
  pv_policy_version :: string
  pv_fingerprint :: string
  pv_software_commit :: string
  pv_deployment_build :: string

record service =
  svc_sha256 :: "string \<Rightarrow> string"
  svc_provenance :: run_provenance

record sport_config =
  sc_config_version :: string
  sc_court_version :: string

fun get_sport_config :: "sport \<Rightarrow> sport_config" where
  "get_sport_config Pickleball =
     \<lparr>sc_config_version = ''pickleball-analysis-v1'', sc_court_version = ''pickleball-court-v1''\<rparr>"
| "get_sport_config Padel =
     \<lparr>sc_config_version = ''padel-experimental-v1'', sc_court_version = ''padel-court-v1''\<rparr>"

fun sport_value :: "sport \<Rightarrow> string" where
  "sport_value Pickleball = ''pickleball''"
| "sport_value Padel = ''padel''"

fun state_value :: "state \<Rightarrow> string" where
  "state_value Pending = ''pending''"
| "state_value Queued = ''queued''"
| "state_value Processing = ''processing''"
| "state_value Completed = ''completed''"
| "state_value Failed = ''failed''"
| "state_value Cancelled = ''cancelled''"
| "state_value Stale = ''stale''"
| "state_value Unavailable = ''unavailable''"

definition default_provenance :: "(string \<Rightarrow> string) \<Rightarrow> run_provenance" where
  "default_provenance sha =
     \<lparr>pv_pipeline_version = ''court4-1.8b'', pv_schema_version = 1,
      pv_policy_version = ''phase-1.8b'', pv_fingerprint = sha ''court4-phase-1.8b'',
      pv_software_commit = ''working-tree'', pv_deployment_build = ''local''\<rparr>"

section \<open>Ownership and shared helpers\<close>

definition owned_analysis :: "analysis option \<Rightarrow> uuid \<Rightarrow> error + analysis" where
  "owned_analysis a owner =
     (case a of
        None \<Rightarrow> Inl ResourceNotFoundError
      | Some r \<Rightarrow>
          if an_owner r \<noteq> owner then Inl OwnershipMismatchError
          else if an_lifecycle r \<noteq> Live then Inl ResourceNotFoundError
          else Inr r)"

definition source_checksum :: "db \<Rightarrow> analysis \<Rightarrow> string option" where
  "source_checksum d a = (case get_video d (an_video_id a) of None \<Rightarrow> None | Some v \<Rightarrow> vid_checksum v)"

definition add_event ::
    "uuid \<Rightarrow> time \<Rightarrow> analysis \<Rightarrow> state option \<Rightarrow> state \<Rightarrow> string \<Rightarrow> string \<Rightarrow> string option
     \<Rightarrow> db \<Rightarrow> error + db" where
  "add_event k now a prev new ty actor reason =
     insert_event \<lparr>ev_id = k, ev_subject = SubjectAnalysis, ev_analysis_id = an_id a,
       ev_run_id = None, ev_previous = prev, ev_new = new, ev_type = ty, ev_reason = reason,
       ev_actor = actor, ev_row_version = an_row_version a, ev_created_at = now\<rparr>"

definition add_run_event ::
    "uuid \<Rightarrow> time \<Rightarrow> run \<Rightarrow> state option \<Rightarrow> state \<Rightarrow> string \<Rightarrow> db \<Rightarrow> error + db" where
  "add_run_event k now r prev new ty =
     insert_event \<lparr>ev_id = k, ev_subject = SubjectRun, ev_analysis_id = run_analysis_id r,
       ev_run_id = Some (run_id r), ev_previous = prev, ev_new = new, ev_type = ty,
       ev_reason = None, ev_actor = ''system'', ev_row_version = run_row_version r,
       ev_created_at = now\<rparr>"

definition runs_of :: "db \<Rightarrow> string \<Rightarrow> run list" where
  "runs_of d a = filter (\<lambda>r. run_analysis_id r = a) (runs d)"

definition run_fingerprint_of :: "service \<Rightarrow> sport \<Rightarrow> string" where
  "run_fingerprint_of svc sp =
     svc_sha256 svc
       (pv_fingerprint (svc_provenance svc) @ [CHR 0x00] @ sport_value sp @ [CHR 0x00]
        @ sc_config_version (get_sport_config sp) @ [CHR 0x00]
        @ sc_court_version (get_sport_config sp))"

text \<open>The row \<open>_insert_run\<close> builds, given the latest run of the analysis.\<close>

definition new_run ::
    "service \<Rightarrow> uuid \<Rightarrow> time \<Rightarrow> analysis \<Rightarrow> string option \<Rightarrow> state \<Rightarrow> time option \<Rightarrow> run option
     \<Rightarrow> run" where
  "new_run svc k now a checksum st lease latest =
     \<lparr>run_id = k, run_analysis_id = an_id a,
      run_attempt = (case latest of None \<Rightarrow> 1 | Some l \<Rightarrow> run_attempt l + 1),
      run_state = st, run_previous = map_option run_id latest, run_row_version = 1,
      run_source_checksum = checksum, run_sport = an_sport a,
      run_sport_config_version = sc_config_version (get_sport_config (an_sport a)),
      run_court_definition_version = sc_court_version (get_sport_config (an_sport a)),
      run_pipeline_version = pv_pipeline_version (svc_provenance svc),
      run_schema_version = pv_schema_version (svc_provenance svc),
      run_policy_version = pv_policy_version (svc_provenance svc),
      run_fingerprint = run_fingerprint_of svc (an_sport a),
      run_software_commit = pv_software_commit (svc_provenance svc),
      run_deployment_build = pv_deployment_build (svc_provenance svc),
      run_lease_expires_at = lease, run_heartbeat_at = None,
      run_started_at = (if st = Processing then Some now else None),
      run_completed_at = None, run_failed_at = None, run_cancelled_at = None,
      run_stale_at = None, run_error_code = None, run_error_detail = None,
      run_created_at = now, run_updated_at = now\<rparr>"

definition insert_new_run ::
    "service \<Rightarrow> uuid \<Rightarrow> time \<Rightarrow> analysis \<Rightarrow> string option \<Rightarrow> state \<Rightarrow> time option \<Rightarrow> db
     \<Rightarrow> error + run \<times> db" where
  "insert_new_run svc k now a checksum st lease d =
     (let r = new_run svc k now a checksum st lease (greatest run_attempt (runs_of d (an_id a)))
      in bindE (insert_run r d) (\<lambda>d'. Inr (r, d')))"

definition active_or_latest_run :: "db \<Rightarrow> string \<Rightarrow> run option" where
  "active_or_latest_run d a =
     greatest (\<lambda>r. (active_state (run_state r), run_attempt r)) (runs_of d a)"

section \<open>Reserving an analysis\<close>

record duplicate_match =
  dup_video_id :: uuid
  dup_analysis_id :: string
  dup_uploaded_at :: time

record reservation =
  res_analysis_id :: string
  res_created :: bool
  res_duplicate :: "duplicate_match option"

definition match_of :: "video \<times> analysis \<Rightarrow> duplicate_match" where
  "match_of = (\<lambda>(v, a). \<lparr>dup_video_id = vid_id v, dup_analysis_id = an_id a,
     dup_uploaded_at = vid_created_at v\<rparr>)"

text \<open>The join of videos and analyses, on the video and its owner.\<close>

definition video_analysis_join :: "db \<Rightarrow> (video \<times> analysis) list" where
  "video_analysis_join d =
     filter (\<lambda>(v, a). an_video_id a = vid_id v \<and> an_owner a = vid_owner v)
       (List.product (videos d) (analyses d))"

definition find_uploaded_video :: "db \<Rightarrow> uuid \<Rightarrow> string \<Rightarrow> sport \<Rightarrow> duplicate_match option" where
  "find_uploaded_video d owner checksum sp =
     map_option match_of
       (greatest (\<lambda>(v, a). (an_created_at a, an_id a))
         (filter (\<lambda>(v, a). vid_owner v = owner \<and> vid_checksum v = Some checksum
                    \<and> an_owner a = owner \<and> an_sport a = sp \<and> an_lifecycle a = Live)
           (video_analysis_join d)))"

definition duplicate_match_for_analysis :: "db \<Rightarrow> uuid \<Rightarrow> string \<Rightarrow> duplicate_match option" where
  "duplicate_match_for_analysis d owner a =
     map_option match_of
       (find (\<lambda>(v, x). an_id x = a \<and> an_owner x = owner \<and> vid_owner v = owner)
         (video_analysis_join d))"

definition reservation_from_record ::
    "db \<Rightarrow> idempotency_record \<Rightarrow> uuid \<Rightarrow> error + reservation" where
  "reservation_from_record d rec owner =
     (case idem_resource_id rec of
        None \<Rightarrow> Inl OperationInProgressError
      | Some a \<Rightarrow>
          bindE (owned_analysis (get_analysis d a) owner) (\<lambda>_.
            if idem_resource_type rec = Some ''exact_duplicate_analysis''
            then (case duplicate_match_for_analysis d owner a of
                    None \<Rightarrow> Inl ResourceNotFoundError
                  | Some m \<Rightarrow> Inr \<lparr>res_analysis_id = a, res_created = False,
                                   res_duplicate = Some m\<rparr>)
            else Inr \<lparr>res_analysis_id = a, res_created = False, res_duplicate = None\<rparr>))"

record reserve_request =
  rq_owner :: uuid
  rq_analysis_id :: string
  rq_idempotency_key :: string
  rq_fingerprint :: string
  rq_filename :: string
  rq_content_type :: "string option"
  rq_size :: int
  rq_checksum :: string
  rq_payload :: json_object
  rq_allow_duplicate :: bool
  rq_sport :: sport

definition idem_lookup :: "service \<Rightarrow> db \<Rightarrow> uuid \<Rightarrow> string \<Rightarrow> string \<Rightarrow> idempotency_record option" where
  "idem_lookup svc d owner scope key =
     find (idem_slot owner scope (svc_sha256 svc key)) (idem_records d)"

text \<open>A record found for the key: the replay of the first call, or its refusal.\<close>

definition replay_reservation ::
    "db \<Rightarrow> reserve_request \<Rightarrow> idempotency_record \<Rightarrow> error + reservation" where
  "replay_reservation d rq rec =
     (if idem_fingerprint rec \<noteq> rq_fingerprint rq then Inl IdempotencyConflictError
      else if idem_resource_id rec = None then Inl OperationInProgressError
      else reservation_from_record d rec (rq_owner rq))"

definition duplicate_record ::
    "service \<Rightarrow> uuid \<Rightarrow> time \<Rightarrow> reserve_request \<Rightarrow> (time \<Rightarrow> string) \<Rightarrow> duplicate_match
     \<Rightarrow> idempotency_record" where
  "duplicate_record svc k now rq isofmt m =
     \<lparr>idem_id = k, idem_owner = rq_owner rq, idem_scope = ''analysis_upload'',
      idem_key_hash = svc_sha256 svc (rq_idempotency_key rq),
      idem_fingerprint = rq_fingerprint rq, idem_status = IdemCompleted,
      idem_resource_type = Some ''exact_duplicate_analysis'',
      idem_resource_id = Some (dup_analysis_id m),
      idem_response = Some [''duplicate_type'' \<mapsto> JStr ''exact'',
        ''existing_analysis_id'' \<mapsto> JStr (dup_analysis_id m),
        ''uploaded_at'' \<mapsto> JStr (isofmt (dup_uploaded_at m))],
      idem_created_at = now, idem_updated_at = now, idem_expires_at = None\<rparr>"

definition in_progress_record ::
    "service \<Rightarrow> uuid \<Rightarrow> time \<Rightarrow> uuid \<Rightarrow> string \<Rightarrow> string \<Rightarrow> string \<Rightarrow> idempotency_record" where
  "in_progress_record svc k now owner scope key fp =
     \<lparr>idem_id = k, idem_owner = owner, idem_scope = scope, idem_key_hash = svc_sha256 svc key,
      idem_fingerprint = fp, idem_status = InProgress, idem_resource_type = None,
      idem_resource_id = None, idem_response = None, idem_created_at = now,
      idem_updated_at = now, idem_expires_at = None\<rparr>"

text \<open>Setting status, resource type and resource of a record before the commit.\<close>

definition complete_record ::
    "uuid \<Rightarrow> time \<Rightarrow> string \<Rightarrow> string \<Rightarrow> db \<Rightarrow> db" where
  "complete_record k now ty rid =
     modify_idem k (\<lambda>r. r\<lparr>idem_status := IdemCompleted, idem_resource_type := Some ty,
       idem_resource_id := Some rid, idem_updated_at := now\<rparr>)"

definition pending_video :: "uuid \<Rightarrow> time \<Rightarrow> reserve_request \<Rightarrow> video" where
  "pending_video k now rq =
     \<lparr>vid_id = k, vid_owner = rq_owner rq, vid_state = VPending, vid_filename = rq_filename rq,
      vid_provider = ''local'', vid_storage_key = None, vid_content_type = rq_content_type rq,
      vid_size = Some (rq_size rq), vid_checksum = Some (rq_checksum rq), vid_metadata = Map.empty,
      vid_row_version = 1, vid_created_at = now, vid_updated_at = now\<rparr>"

definition reserved_analysis :: "uuid \<Rightarrow> time \<Rightarrow> reserve_request \<Rightarrow> analysis" where
  "reserved_analysis vid now rq =
     \<lparr>an_id = rq_analysis_id rq, an_owner = rq_owner rq, an_video_id = vid, an_lifecycle = Live,
      an_deletion_requested_at = None, an_deleted_at = None, an_sport = rq_sport rq,
      an_state = Processing, an_current_stage = Uploaded, an_job_payload = rq_payload rq,
      an_promoted_run_id = None, an_row_version = 1, an_created_at = now, an_updated_at = now,
      an_completed_at = None, an_failed_at = None, an_cancelled_at = None\<rparr>"

text \<open>
  The writing half of \<open>_reserve_analysis_once\<close>, after the hook: an exact duplicate is
  recorded and answered, otherwise video, analysis, first run and both events are created.
\<close>

definition create_reservation ::
    "service \<Rightarrow> (nat \<Rightarrow> uuid) \<Rightarrow> time \<Rightarrow> reserve_request \<Rightarrow> db \<Rightarrow> error + reservation \<times> db" where
  "create_reservation svc u now rq d =
     bindE (insert_idem (in_progress_record svc (u 0) now (rq_owner rq) ''analysis_upload''
              (rq_idempotency_key rq) (rq_fingerprint rq)) d) (\<lambda>d.
     bindE (insert_video (pending_video (u 1) now rq) d) (\<lambda>d.
     let a = reserved_analysis (u 1) now rq in
     bindE (insert_analysis a d) (\<lambda>d.
     bindE (insert_new_run svc (u 2) now a (Some (rq_checksum rq)) Processing None d) (\<lambda>(r, d).
     bindE (add_event (u 3) now a None Processing ''analysis_created'' ''development'' None d) (\<lambda>d.
     bindE (add_run_event (u 4) now r None Processing ''run_started'' d) (\<lambda>d.
     Inr (\<lparr>res_analysis_id = rq_analysis_id rq, res_created = True, res_duplicate = None\<rparr>,
          complete_record (u 0) now ''analysis'' (an_id a) d)))))))"

definition reserve_write ::
    "service \<Rightarrow> (time \<Rightarrow> string) \<Rightarrow> (nat \<Rightarrow> uuid) \<Rightarrow> time \<Rightarrow> reserve_request \<Rightarrow> db
     \<Rightarrow> error + reservation \<times> db" where
  "reserve_write svc isofmt u now rq d =
     (case (if rq_allow_duplicate rq then None
            else find_uploaded_video d (rq_owner rq) (rq_checksum rq) (rq_sport rq)) of
        Some m \<Rightarrow>
          bindE (insert_idem (duplicate_record svc (u 0) now rq isofmt m) d) (\<lambda>d'.
            Inr (\<lparr>res_analysis_id = dup_analysis_id m, res_created = False,
                  res_duplicate = Some m\<rparr>, d'))
      | None \<Rightarrow> create_reservation svc u now rq d)"

text \<open>
  \<open>reserve_analysis\<close>: replay a known key; otherwise write, and when a constraint refuses
  the write look the key up again, in a new transaction, for the winner of the race.
  \<open>env\<close> is what commits at the synchronization hook, \<open>gap\<close> what commits between the
  failed transaction and the second look.
\<close>

definition reserve_recover ::
    "service \<Rightarrow> reserve_request \<Rightarrow> db \<Rightarrow> error + reservation" where
  "reserve_recover svc rq d =
     (case idem_lookup svc d (rq_owner rq) ''analysis_upload'' (rq_idempotency_key rq) of
        None \<Rightarrow> Inl IntegrityError
      | Some rec \<Rightarrow> replay_reservation d rq rec)"

definition reserve_analysis ::
    "service \<Rightarrow> (time \<Rightarrow> string) \<Rightarrow> (db \<Rightarrow> db) \<Rightarrow> (db \<Rightarrow> db) \<Rightarrow> (nat \<Rightarrow> uuid) \<Rightarrow> time
     \<Rightarrow> reserve_request \<Rightarrow> db \<Rightarrow> (error + reservation) \<times> db" where
  "reserve_analysis svc isofmt env gap u now rq d =
     (case idem_lookup svc d (rq_owner rq) ''analysis_upload'' (rq_idempotency_key rq) of
        Some rec \<Rightarrow> (replay_reservation d rq rec, d)
      | None \<Rightarrow>
          let d1 = env d in
          case reserve_write svc isofmt u now rq d1 of
            Inr (res, d2) \<Rightarrow> (Inr res, d2)
          | Inl e \<Rightarrow>
              if e = IntegrityError
              then let d2 = gap d1 in (reserve_recover svc rq d2, d2)
              else (Inl e, d1))"

section \<open>Starting a run\<close>

record run_result =
  rr_run_id :: uuid
  rr_created :: bool

definition resolve_run_record :: "idempotency_record \<Rightarrow> string \<Rightarrow> error + run_result" where
  "resolve_run_record rec fp =
     (if idem_fingerprint rec \<noteq> fp then Inl IdempotencyConflictError
      else case idem_resource_id rec of
        None \<Rightarrow> Inl OperationInProgressError
      | Some s \<Rightarrow> (case parse_uuid s of
                     None \<Rightarrow> Inl ValueError
                   | Some k \<Rightarrow> Inr \<lparr>rr_run_id = k, rr_created = False\<rparr>))"

record start_request =
  st_owner :: uuid
  st_analysis_id :: string
  st_idempotency_key :: string
  st_fingerprint :: string
  st_state :: state
  st_lease :: "time option"

text \<open>The parent analysis of a run that starts processing.\<close>

definition mark_processing :: "time \<Rightarrow> analysis \<Rightarrow> analysis" where
  "mark_processing now a =
     a\<lparr>an_state := Processing, an_row_version := an_row_version a + 1, an_updated_at := now\<rparr>"

definition start_run_write ::
    "service \<Rightarrow> (nat \<Rightarrow> uuid) \<Rightarrow> time \<Rightarrow> start_request \<Rightarrow> db \<Rightarrow> error + run_result \<times> db" where
  "start_run_write svc u now rq d =
     bindE (owned_analysis (get_analysis d (st_analysis_id rq)) (st_owner rq)) (\<lambda>a.
     bindE (insert_idem (in_progress_record svc (u 0) now (st_owner rq) ''run_start''
              (st_idempotency_key rq) (st_fingerprint rq)) d) (\<lambda>d.
     bindE (insert_new_run svc (u 1) now a (source_checksum d a) (st_state rq) (st_lease rq) d)
       (\<lambda>(r, d).
     bindE (add_run_event (u 2) now r None (st_state rq) ''run_started'' d) (\<lambda>d.
     bindE (if st_state rq = Processing \<and> an_state a \<noteq> Processing
            then let a' = mark_processing now a in
              add_event (u 3) now a' (Some (an_state a)) Processing ''run_started'' ''system'' None
                (modify_analysis (an_id a) (\<lambda>_. a') d)
            else Inr d) (\<lambda>d.
     Inr (\<lparr>rr_run_id = run_id r, rr_created = True\<rparr>,
          complete_record (u 0) now ''analysis_run'' (uuid_text (run_id r)) d))))))"

text \<open>The handler of \<open>IntegrityError\<close>: replay, or adopt the run that won the race.\<close>

definition start_run_recover ::
    "service \<Rightarrow> uuid \<Rightarrow> time \<Rightarrow> start_request \<Rightarrow> db \<Rightarrow> error + run_result \<times> db" where
  "start_run_recover svc k now rq d =
     (case idem_lookup svc d (st_owner rq) ''run_start'' (st_idempotency_key rq) of
        Some rec \<Rightarrow> bindE (resolve_run_record rec (st_fingerprint rq)) (\<lambda>res. Inr (res, d))
      | None \<Rightarrow>
          bindE (owned_analysis (get_analysis d (st_analysis_id rq)) (st_owner rq)) (\<lambda>_.
            case find (active_run_of (st_analysis_id rq)) (runs d) of
              None \<Rightarrow> Inl IntegrityError
            | Some r \<Rightarrow>
                bindE (insert_idem
                  ((in_progress_record svc k now (st_owner rq) ''run_start''
                      (st_idempotency_key rq) (st_fingerprint rq))
                   \<lparr>idem_status := IdemCompleted, idem_resource_type := Some ''analysis_run'',
                    idem_resource_id := Some (uuid_text (run_id r))\<rparr>) d) (\<lambda>d'.
                  Inr (\<lparr>rr_run_id = run_id r, rr_created = False\<rparr>, d'))))"

definition start_run ::
    "service \<Rightarrow> (db \<Rightarrow> db) \<Rightarrow> (db \<Rightarrow> db) \<Rightarrow> (nat \<Rightarrow> uuid) \<Rightarrow> time \<Rightarrow> start_request \<Rightarrow> db
     \<Rightarrow> (error + run_result) \<times> db" where
  "start_run svc env gap u now rq d =
     (if st_state rq \<notin> {Queued, Processing} then (Inl ValueError, d)
      else case idem_lookup svc d (st_owner rq) ''run_start'' (st_idempotency_key rq) of
        Some rec \<Rightarrow>
          (bindE (owned_analysis (get_analysis d (st_analysis_id rq)) (st_owner rq)) (\<lambda>_.
             resolve_run_record rec (st_fingerprint rq)), d)
      | None \<Rightarrow>
          (case owned_analysis (get_analysis d (st_analysis_id rq)) (st_owner rq) of
             Inl e \<Rightarrow> (Inl e, d)
           | Inr _ \<Rightarrow>
               let d1 = env d in
               case start_run_write svc u now rq d1 of
                 Inr (res, d2) \<Rightarrow> (Inr res, d2)
               | Inl e \<Rightarrow>
                   if e = IntegrityError
                   then transact (start_run_recover svc (u 4) now rq) (gap d1)
                   else (Inl e, d1)))"

section \<open>Moving a run through its states\<close>

fun run_allowed :: "state \<Rightarrow> state \<Rightarrow> bool" where
  "run_allowed Queued t = (t \<in> {Processing, Cancelled})"
| "run_allowed Processing t = (t \<in> {Completed, Failed, Cancelled, Stale})"
| "run_allowed _ t = False"

text \<open>\<open>values[timestamp_column] = now\<close>.\<close>

fun stamp_run :: "state \<Rightarrow> time \<Rightarrow> run \<Rightarrow> run" where
  "stamp_run Processing now r = r\<lparr>run_started_at := Some now\<rparr>"
| "stamp_run Completed now r = r\<lparr>run_completed_at := Some now\<rparr>"
| "stamp_run Failed now r = r\<lparr>run_failed_at := Some now\<rparr>"
| "stamp_run Cancelled now r = r\<lparr>run_cancelled_at := Some now\<rparr>"
| "stamp_run Stale now r = r\<lparr>run_stale_at := Some now\<rparr>"
| "stamp_run _ now r = r"

fun stamp_analysis :: "state \<Rightarrow> time \<Rightarrow> analysis \<Rightarrow> analysis" where
  "stamp_analysis Completed now a = a\<lparr>an_completed_at := Some now\<rparr>"
| "stamp_analysis Failed now a = a\<lparr>an_failed_at := Some now\<rparr>"
| "stamp_analysis Cancelled now a = a\<lparr>an_cancelled_at := Some now\<rparr>"
| "stamp_analysis _ now a = a"

definition advance_run :: "state \<Rightarrow> int \<Rightarrow> time \<Rightarrow> run \<Rightarrow> run" where
  "advance_run new version now r =
     stamp_run new now (r\<lparr>run_state := new, run_row_version := version + 1, run_updated_at := now\<rparr>)"

definition follow_run :: "uuid \<Rightarrow> state \<Rightarrow> time \<Rightarrow> analysis \<Rightarrow> analysis" where
  "follow_run k new now a =
     (let a1 = stamp_analysis new now
                 (a\<lparr>an_state := new, an_row_version := an_row_version a + 1, an_updated_at := now\<rparr>)
      in if new = Completed then a1\<lparr>an_promoted_run_id := Some k\<rparr> else a1)"

record transition_result =
  tr_run_id :: uuid
  tr_state :: state
  tr_row_version :: int

text \<open>The run with that id, if its analysis belongs to the caller.\<close>

definition owned_run :: "db \<Rightarrow> uuid \<Rightarrow> uuid \<Rightarrow> run option" where
  "owned_run d k owner =
     find (\<lambda>r. run_id r = k
        \<and> (\<exists>a\<in>set (analyses d). an_id a = run_analysis_id r \<and> an_owner a = owner)) (runs d)"

text \<open>The event of a moved run: \<open>r\<close> is the row after the move.\<close>

definition run_moved_event ::
    "uuid \<Rightarrow> time \<Rightarrow> run \<Rightarrow> state \<Rightarrow> string option \<Rightarrow> state_event" where
  "run_moved_event k now r prev reason =
     \<lparr>ev_id = k, ev_subject = SubjectRun, ev_analysis_id = run_analysis_id r,
      ev_run_id = Some (run_id r), ev_previous = Some prev, ev_new = run_state r,
      ev_type = ''run_'' @ state_value (run_state r), ev_reason = reason,
      ev_actor = ''system'', ev_row_version = run_row_version r, ev_created_at = now\<rparr>"

text \<open>
  The compare-and-set after the observation hook: the row is updated only if its version
  is the expected one and its state is still the state that was read.
\<close>

definition transition_write ::
    "(nat \<Rightarrow> uuid) \<Rightarrow> time \<Rightarrow> uuid \<Rightarrow> int \<Rightarrow> state \<Rightarrow> state \<Rightarrow> string option \<Rightarrow> db
     \<Rightarrow> error + transition_result \<times> db" where
  "transition_write u now k expected prev new reason d =
     (case find (\<lambda>r. run_id r = k \<and> run_row_version r = expected \<and> run_state r = prev) (runs d) of
        None \<Rightarrow> Inl OptimisticConcurrencyError
      | Some r \<Rightarrow>
          let r' = advance_run new expected now r; d = modify_run k (\<lambda>_. r') d in
          (case get_analysis d (run_analysis_id r) of
             None \<Rightarrow> Inl ResourceNotFoundError
           | Some a \<Rightarrow>
               bindE (if new \<in> {Processing, Completed, Failed, Cancelled}
                      then let a' = follow_run k new now a in
                        add_event (u 0) now a' (Some (an_state a)) new
                          (''run_'' @ state_value new) ''system'' reason
                          (modify_analysis (an_id a) (\<lambda>_. a') d)
                      else Inr d) (\<lambda>d.
               bindE (insert_event (run_moved_event (u 1) now r' prev reason) d) (\<lambda>d.
               Inr (\<lparr>tr_run_id = k, tr_state = new, tr_row_version = run_row_version r'\<rparr>, d)))))"

definition transition_run ::
    "(db \<Rightarrow> db) \<Rightarrow> (nat \<Rightarrow> uuid) \<Rightarrow> time \<Rightarrow> uuid \<Rightarrow> uuid \<Rightarrow> int \<Rightarrow> state \<Rightarrow> string option \<Rightarrow> db
     \<Rightarrow> (error + transition_result) \<times> db" where
  "transition_run env u now owner k expected new reason d =
     (case owned_run d k owner of
        None \<Rightarrow> (Inl ResourceNotFoundError, d)
      | Some current \<Rightarrow>
          if run_state current = new
          then (Inr \<lparr>tr_run_id = run_id current, tr_state = run_state current,
                     tr_row_version = run_row_version current\<rparr>, d)
          else let d1 = env d in
            if \<not> run_allowed (run_state current) new then (Inl InvalidStateTransitionError, d1)
            else transact
              (transition_write u now k expected (run_state current) new reason) d1)"

section \<open>Reads\<close>

definition run_is_stale :: "db \<Rightarrow> uuid \<Rightarrow> time \<Rightarrow> error + bool" where
  "run_is_stale d k tn =
     (case get_run d k of
        None \<Rightarrow> Inl ResourceNotFoundError
      | Some r \<Rightarrow> Inr (run_state r = Processing
          \<and> (case run_lease_expires_at r of None \<Rightarrow> False | Some t \<Rightarrow> t \<le> tn)))"

definition state_events :: "db \<Rightarrow> string \<Rightarrow> state_event list" where
  "state_events d a =
     sort_key (\<lambda>e. (ev_created_at e, ev_id e)) (filter (\<lambda>e. ev_analysis_id e = a) (events d))"

definition list_analysis_ids :: "db \<Rightarrow> uuid \<Rightarrow> string list" where
  "list_analysis_ids d owner =
     map an_id (sort_key (\<lambda>a. (an_created_at a, an_id a))
       (filter (\<lambda>a. an_owner a = owner \<and> an_lifecycle a = Live) (analyses d)))"

fun video_state_value :: "video_state \<Rightarrow> string" where
  "video_state_value VPending = ''pending''"
| "video_state_value VAvailable = ''available''"
| "video_state_value VFailed = ''failed''"
| "video_state_value VDeleting = ''deleting''"
| "video_state_value VDeleted = ''deleted''"

definition source_media_state :: "video option \<Rightarrow> string" where
  "source_media_state v =
     (case v of
        None \<Rightarrow> ''unavailable''
      | Some v \<Rightarrow> if vid_state v \<in> {VAvailable, VDeleting, VDeleted}
                  then video_state_value (vid_state v) else ''unavailable'')"

definition load_job :: "db \<Rightarrow> uuid \<Rightarrow> string \<Rightarrow> error + json_object" where
  "load_job d owner a =
     bindE (owned_analysis (get_analysis d a) owner) (\<lambda>r.
       Inr ((an_job_payload r)
         (''persistence_version'' \<mapsto> JNum (of_int (an_row_version r)),
          ''sport'' \<mapsto> JStr (sport_value (an_sport r)),
          ''source_media_state'' \<mapsto> JStr (source_media_state (get_video d (an_video_id r))))))"

end
