(* ===== verification/Stages.thy ===== *)
theory Stages
  imports Runs
begin

text \<open>
  The stage and artifact side of \<open>PersistenceService\<close> (\<^verbatim>\<open>app/persistence/service.py\<close>):
  attempts of optional stages, their artifacts with one current registration per logical
  key, human calibration reviews, player selections and the bootstrap user. The
  conventions are those of the theory \<open>Runs\<close>. \<open>env\<close> and \<open>gap\<close> are what other
  transactions commit between the read and the write of an operation, and before its
  recovery.
\<close>

section \<open>Validation\<close>

definition valid_stage_type :: "string \<Rightarrow> bool" where
  "valid_stage_type s \<longleftrightarrow>
     (case s of
        [] \<Rightarrow> False
      | c # cs \<Rightarrow> c \<in> set ''abcdefghijklmnopqrstuvwxyz'' \<and> length cs \<le> 63
          \<and> list_all (\<lambda>x. x \<in> set ''abcdefghijklmnopqrstuvwxyz0123456789_'') cs)"

definition validate_stage_type :: "string \<Rightarrow> error + string" where
  "validate_stage_type s = (if valid_stage_type s then Inr s else Inl ValueError)"

definition validate_sha256 :: "string \<Rightarrow> error + string" where
  "validate_sha256 s = (if hex64 s then Inr s else Inl ValueError)"

definition at_least :: "int \<Rightarrow> int option \<Rightarrow> bool" where
  "at_least n x = (case x of None \<Rightarrow> True | Some k \<Rightarrow> n \<le> k)"

text \<open>The field constraints of the schema classes; the types are those of the record.\<close>

definition provenance_ok :: "stage_provenance \<Rightarrow> bool" where
  "provenance_ok p \<longleftrightarrow> 1 \<le> sp_schema_version p \<and> hex64_or_null (sp_model_sha256 p)
     \<and> (case sp_confidence_threshold p of None \<Rightarrow> True | Some t \<Rightarrow> 0 \<le> t \<and> t \<le> 1)
     \<and> hex64_or_null (sp_source_video_checksum p)
     \<and> hex64_or_null (sp_court_calibration_artifact_checksum p)
     \<and> at_least 1 (sp_calibration_schema_version p) \<and> hex64 (sp_configuration_fingerprint p)
     \<and> 1 \<le> sp_output_schema_version p"

definition reference_ok :: "artifact_reference \<Rightarrow> bool" where
  "reference_ok r \<longleftrightarrow> hex64 (ref_checksum r) \<and> at_least 1 (ref_schema_version r)"

definition stage_artifact_prefix :: "string \<Rightarrow> int \<Rightarrow> error + string" where
  "stage_artifact_prefix ty n =
     bindE (validate_stage_type ty) (\<lambda>_.
       if n < 1 then Inl ValueError
       else Inr ((if ty = ''ball_tracking'' then ''ball'' else ''stages/'' @ ty)
         @ ''/attempt-'' @ pad4 (decimal (nat n)) @ ''/''))"

section \<open>Stage executions\<close>

record stage_result =
  sr_id :: uuid
  sr_attempt :: int
  sr_state :: state
  sr_row_version :: int
  sr_created :: bool

definition stage_result_of :: "bool \<Rightarrow> stage_execution \<Rightarrow> stage_result" where
  "stage_result_of created r =
     \<lparr>sr_id = se_id r, sr_attempt = se_attempt r, sr_state = se_state r,
      sr_row_version = se_row_version r, sr_created = created\<rparr>"

record stage_request =
  sq_owner :: uuid
  sq_analysis_id :: string
  sq_run_id :: uuid
  sq_stage_type :: string
  sq_fingerprint :: string
  sq_provenance :: stage_provenance
  sq_inputs :: "artifact_reference list"
  sq_state :: state
  sq_is_optional :: bool
  sq_shadow_mode :: bool

definition stages_of :: "db \<Rightarrow> string \<Rightarrow> string \<Rightarrow> stage_execution list" where
  "stages_of d a ty = filter (\<lambda>s. se_analysis_id s = a \<and> se_stage_type s = ty) (stages d)"

definition new_stage :: "uuid \<Rightarrow> time \<Rightarrow> stage_request \<Rightarrow> stage_execution option \<Rightarrow> stage_execution" where
  "new_stage k now rq latest =
     \<lparr>se_id = k, se_owner = sq_owner rq, se_analysis_id = sq_analysis_id rq,
      se_run_id = sq_run_id rq, se_stage_type = sq_stage_type rq,
      se_attempt = (case latest of None \<Rightarrow> 1 | Some l \<Rightarrow> se_attempt l + 1),
      se_state = sq_state rq, se_row_version = 1, se_is_optional = sq_is_optional rq,
      se_shadow_mode = sq_shadow_mode rq, se_fingerprint = sq_fingerprint rq,
      se_provenance = sq_provenance rq, se_inputs = sq_inputs rq, se_outputs = [],
      se_failure_category = None, se_created_at = now,
      se_started_at = (if sq_state rq = Processing then Some now else None),
      se_completed_at = None, se_failed_at = None, se_cancelled_at = None, se_stale_at = None,
      se_unavailable_at = None, se_updated_at = now\<rparr>"

definition stage_request_ok :: "stage_request \<Rightarrow> error + unit" where
  "stage_request_ok rq =
     bindE (requireE (sq_state rq \<in> {Queued, Processing}) ValueError) (\<lambda>_.
     bindE (validate_stage_type (sq_stage_type rq)) (\<lambda>_.
     bindE (validate_sha256 (sq_fingerprint rq)) (\<lambda>_.
     bindE (requireE (provenance_ok (sq_provenance rq)) ValueError) (\<lambda>_.
     bindE (requireE (sp_stage_name (sq_provenance rq) = sq_stage_type rq) ValueError) (\<lambda>_.
     bindE (requireE (sp_configuration_fingerprint (sq_provenance rq) = sq_fingerprint rq) ValueError)
       (\<lambda>_. requireE (list_all reference_ok (sq_inputs rq)) ValueError))))))"

definition start_stage_write ::
    "uuid \<Rightarrow> time \<Rightarrow> stage_request \<Rightarrow> db \<Rightarrow> error + stage_result \<times> db" where
  "start_stage_write k now rq d =
     bindE (owned_analysis (get_analysis d (sq_analysis_id rq)) (sq_owner rq)) (\<lambda>a.
       case find (\<lambda>r. run_id r = sq_run_id rq \<and> run_analysis_id r = an_id a) (runs d) of
         None \<Rightarrow> Inl ResourceNotFoundError
       | Some r \<Rightarrow>
           if sp_sport (sq_provenance rq) \<noteq> an_sport a \<or> run_sport r \<noteq> an_sport a
           then Inl ValueError
           else (case find (active_stage_of (sq_analysis_id rq) (sq_stage_type rq)) (stages d) of
               Some act \<Rightarrow> Inr (stage_result_of False act, d)
             | None \<Rightarrow>
                 let s = new_stage k now rq
                   (greatest se_attempt (stages_of d (sq_analysis_id rq) (sq_stage_type rq)))
                 in bindE (insert_stage s d) (\<lambda>d'. Inr (stage_result_of True s, d'))))"

definition start_stage_recover :: "stage_request \<Rightarrow> db \<Rightarrow> error + stage_result" where
  "start_stage_recover rq d =
     (case find (\<lambda>s. active_stage_of (sq_analysis_id rq) (sq_stage_type rq) s
              \<and> (\<exists>a\<in>set (analyses d). an_id a = se_analysis_id s \<and> an_owner a = sq_owner rq)) (stages d) of
        Some act \<Rightarrow> Inr (stage_result_of False act)
      | None \<Rightarrow> Inl IntegrityError)"

definition start_stage_execution ::
    "(db \<Rightarrow> db) \<Rightarrow> uuid \<Rightarrow> time \<Rightarrow> stage_request \<Rightarrow> db \<Rightarrow> (error + stage_result) \<times> db" where
  "start_stage_execution gap k now rq d =
     (case stage_request_ok rq of
        Inl e \<Rightarrow> (Inl e, d)
      | Inr _ \<Rightarrow>
          (case start_stage_write k now rq d of
             Inr (res, d') \<Rightarrow> (Inr res, d')
           | Inl e \<Rightarrow>
               if e = IntegrityError then (start_stage_recover rq (gap d), gap d) else (Inl e, d)))"

fun stage_allowed :: "state \<Rightarrow> state \<Rightarrow> bool" where
  "stage_allowed Queued t = (t \<in> {Processing, Cancelled, Unavailable})"
| "stage_allowed Processing t = (t \<in> {Completed, Failed, Cancelled, Stale, Unavailable})"
| "stage_allowed _ t = False"

fun stamp_stage :: "state \<Rightarrow> time \<Rightarrow> stage_execution \<Rightarrow> stage_execution" where
  "stamp_stage Processing now r = r\<lparr>se_started_at := Some now\<rparr>"
| "stamp_stage Completed now r = r\<lparr>se_completed_at := Some now\<rparr>"
| "stamp_stage Failed now r = r\<lparr>se_failed_at := Some now\<rparr>"
| "stamp_stage Cancelled now r = r\<lparr>se_cancelled_at := Some now\<rparr>"
| "stamp_stage Stale now r = r\<lparr>se_stale_at := Some now\<rparr>"
| "stamp_stage Unavailable now r = r\<lparr>se_unavailable_at := Some now\<rparr>"
| "stamp_stage _ now r = r"

definition advance_stage ::
    "state \<Rightarrow> int \<Rightarrow> time \<Rightarrow> string option \<Rightarrow> stage_execution \<Rightarrow> stage_execution" where
  "advance_stage new version now category r =
     (let r1 = stamp_stage new now
                 (r\<lparr>se_state := new, se_row_version := version + 1, se_updated_at := now\<rparr>)
      in if new = Failed
         then r1\<lparr>se_failure_category := Some (take 64 (strip (or_else category [])))\<rparr> else r1)"

definition owned_stage :: "db \<Rightarrow> uuid \<Rightarrow> uuid \<Rightarrow> stage_execution option" where
  "owned_stage d k owner =
     find (\<lambda>s. se_id s = k
        \<and> (\<exists>a\<in>set (analyses d). an_id a = se_analysis_id s \<and> an_owner a = owner)) (stages d)"

text \<open>A completed attempt supersedes the artifacts of the other attempts of its stage.\<close>

definition superseded_by :: "db \<Rightarrow> stage_execution \<Rightarrow> artifact \<Rightarrow> bool" where
  "superseded_by d s r \<longleftrightarrow> art_is_current r
     \<and> (\<exists>t\<in>set (stages d). art_stage_id r = Some (se_id t)
          \<and> se_analysis_id t = se_analysis_id s \<and> se_stage_type t = se_stage_type s
          \<and> se_id t \<noteq> se_id s)"

definition transition_stage_write ::
    "time \<Rightarrow> uuid \<Rightarrow> int \<Rightarrow> state \<Rightarrow> state \<Rightarrow> string option \<Rightarrow> db \<Rightarrow> error + stage_result \<times> db" where
  "transition_stage_write now k expected prev new category d =
     (case find (\<lambda>s. se_id s = k \<and> se_row_version s = expected \<and> se_state s = prev) (stages d) of
        None \<Rightarrow> Inl OptimisticConcurrencyError
      | Some s \<Rightarrow>
          let s' = advance_stage new expected now category s;
              d1 = modify_stage k (\<lambda>_. s') d;
              d2 = (if new = Completed
                    then modify_artifacts (superseded_by d1 s')
                      (\<lambda>r. r\<lparr>art_is_current := False, art_updated_at := now\<rparr>) d1
                    else d1)
          in Inr (stage_result_of False s', d2))"

definition transition_stage_execution ::
    "(db \<Rightarrow> db) \<Rightarrow> time \<Rightarrow> uuid \<Rightarrow> uuid \<Rightarrow> int \<Rightarrow> state \<Rightarrow> string option \<Rightarrow> db
     \<Rightarrow> (error + stage_result) \<times> db" where
  "transition_stage_execution env now owner k expected new category d =
     (if new = Failed \<and> strip (or_else category []) = [] then (Inl ValueError, d)
      else case owned_stage d k owner of
        None \<Rightarrow> (Inl ResourceNotFoundError, d)
      | Some cur \<Rightarrow>
          if se_state cur = new then (Inr (stage_result_of False cur), d)
          else if \<not> stage_allowed (se_state cur) new then (Inl InvalidStateTransitionError, d)
          else transact (transition_stage_write now k expected (se_state cur) new category) (env d))"

definition list_stage_executions ::
    "db \<Rightarrow> uuid \<Rightarrow> string \<Rightarrow> string option \<Rightarrow> error + stage_execution list" where
  "list_stage_executions d owner a ty =
     bindE (owned_analysis (get_analysis d a) owner) (\<lambda>_.
       Inr (sort_key (\<lambda>s. (se_stage_type s, se_attempt s))
         (filter (\<lambda>s. se_analysis_id s = a \<and> se_owner s = owner
             \<and> (case ty of None \<Rightarrow> True | Some t \<Rightarrow> se_stage_type s = t)) (stages d))))"

section \<open>Artifacts\<close>

record artifact_input =
  ai_storage_key :: string
  ai_content_type :: string
  ai_size :: int
  ai_checksum :: string
  ai_kind :: string
  ai_schema_version :: "int option"
  ai_provider :: string
  ai_logical_key :: "string option"

definition input_key :: "artifact_input \<Rightarrow> string" where
  "input_key x = or_else (ai_logical_key x) (ai_storage_key x)"

definition registers :: "artifact_input \<Rightarrow> artifact \<Rightarrow> bool" where
  "registers x r \<longleftrightarrow> art_checksum r = ai_checksum x \<and> art_size r = ai_size x
     \<and> art_provider r = ai_provider x \<and> art_storage_key r = ai_storage_key x"

definition new_artifact ::
    "uuid \<Rightarrow> time \<Rightarrow> uuid \<Rightarrow> string \<Rightarrow> uuid option \<Rightarrow> uuid option \<Rightarrow> artifact_input \<Rightarrow> artifact" where
  "new_artifact k now owner a run stage x =
     \<lparr>art_id = k, art_owner = owner, art_analysis_id = a, art_run_id = run, art_stage_id = stage,
      art_kind = ai_kind x, art_provider = ai_provider x, art_storage_key = ai_storage_key x,
      art_logical_key = input_key x, art_content_type = ai_content_type x, art_size = ai_size x,
      art_checksum = ai_checksum x, art_schema_version = ai_schema_version x,
      art_state = AAvailable, art_is_current = True, art_created_at = now, art_updated_at = now\<rparr>"

definition retire_artifact :: "time \<Rightarrow> artifact \<Rightarrow> db \<Rightarrow> db" where
  "retire_artifact now c =
     modify_artifacts (\<lambda>r. art_id r = art_id c) (\<lambda>r. r\<lparr>art_is_current := False, art_updated_at := now\<rparr>)"

text \<open>
  One registration: the row of the current artifact, if it is the same file, otherwise a
  new row in its place. \<open>_register_artifacts\<close> returns the rows; here their keys, which the
  callers read in the database they leave.
\<close>

definition register_one ::
    "uuid \<Rightarrow> time \<Rightarrow> uuid \<Rightarrow> string \<Rightarrow> uuid option \<Rightarrow> uuid option \<Rightarrow> artifact_input \<Rightarrow> db
     \<Rightarrow> error + uuid \<times> db" where
  "register_one k now owner a run stage x d =
     (case find (current_logical_of a (input_key x)) (artifacts d) of
        Some c \<Rightarrow>
          if registers x c then Inr (art_id c, d)
          else bindE (insert_artifact (new_artifact k now owner a run stage x) (retire_artifact now c d))
                 (\<lambda>d'. Inr (k, d'))
      | None \<Rightarrow>
          bindE (insert_artifact (new_artifact k now owner a run stage x) d) (\<lambda>d'. Inr (k, d')))"

fun register_artifacts ::
    "(nat \<Rightarrow> uuid) \<Rightarrow> time \<Rightarrow> uuid \<Rightarrow> string \<Rightarrow> uuid option \<Rightarrow> uuid option \<Rightarrow> artifact_input list
     \<Rightarrow> db \<Rightarrow> error + uuid list \<times> db" where
  "register_artifacts u now owner a run stage [] d = Inr ([], d)"
| "register_artifacts u now owner a run stage (x # xs) d =
     bindE (register_one (u 0) now owner a run stage x d) (\<lambda>(k, d).
     bindE (register_artifacts (\<lambda>i. u (Suc i)) now owner a run stage xs d) (\<lambda>(ks, d).
     Inr (k # ks, d)))"

definition get_artifact_row :: "db \<Rightarrow> uuid \<Rightarrow> artifact option" where
  "get_artifact_row d k = find (\<lambda>r. art_id r = k) (artifacts d)"

definition reference_of :: "artifact \<Rightarrow> artifact_reference" where
  "reference_of r = \<lparr>ref_artifact_id = Some (art_id r), ref_storage_key = art_logical_key r,
     ref_checksum = art_checksum r, ref_schema_version = art_schema_version r\<rparr>"

definition register_stage_body ::
    "(nat \<Rightarrow> uuid) \<Rightarrow> time \<Rightarrow> uuid \<Rightarrow> uuid \<Rightarrow> artifact_input list \<Rightarrow> db
     \<Rightarrow> error + artifact list \<times> db" where
  "register_stage_body u now owner k xs d =
     (case owned_stage d k owner of
        None \<Rightarrow> Inl ResourceNotFoundError
      | Some s \<Rightarrow>
          bindE (requireE (se_state s \<in> {Queued, Processing}) InvalidStateTransitionError) (\<lambda>_.
          bindE (stage_artifact_prefix (se_stage_type s) (se_attempt s)) (\<lambda>p.
          bindE (requireE (list_all (\<lambda>x. starts_with p (input_key x)) xs) ValueError) (\<lambda>_.
          bindE (owned_analysis (get_analysis d (se_analysis_id s)) owner) (\<lambda>a.
          bindE (register_artifacts u now owner (an_id a)
                   (map_option run_id (get_run d (se_run_id s))) (Some (se_id s)) xs d) (\<lambda>(ks, d).
          let rows = List.map_filter (get_artifact_row d) ks in
          Inr (rows, modify_stage k
            (\<lambda>r. r\<lparr>se_outputs := map reference_of rows, se_updated_at := now\<rparr>) d)))))))"

definition register_stage_artifacts ::
    "(nat \<Rightarrow> uuid) \<Rightarrow> time \<Rightarrow> uuid \<Rightarrow> uuid \<Rightarrow> artifact_input list \<Rightarrow> db
     \<Rightarrow> (error + artifact list) \<times> db" where
  "register_stage_artifacts u now owner k xs = transact (register_stage_body u now owner k xs)"

text \<open>Reads of the registry. Strings are ordered by code point.\<close>

definition available :: "uuid \<Rightarrow> string \<Rightarrow> artifact \<Rightarrow> bool" where
  "available owner a r \<longleftrightarrow> art_owner r = owner \<and> art_analysis_id r = a
     \<and> art_state r = AAvailable \<and> art_is_current r"

definition list_artifacts :: "db \<Rightarrow> uuid \<Rightarrow> string \<Rightarrow> error + artifact list" where
  "list_artifacts d owner a =
     bindE (owned_analysis (get_analysis d a) owner) (\<lambda>_.
       Inr (sort_key art_storage_key (filter (available owner a) (artifacts d))))"

definition get_artifact :: "db \<Rightarrow> uuid \<Rightarrow> string \<Rightarrow> string \<Rightarrow> error + artifact" where
  "get_artifact d owner a lk =
     bindE (owned_analysis (get_analysis d a) owner) (\<lambda>_.
       case find (\<lambda>r. available owner a r \<and> art_logical_key r = lk) (artifacts d) of
         None \<Rightarrow> Inl ArtifactNotAvailableError
       | Some r \<Rightarrow> Inr r)"

definition get_artifacts :: "db \<Rightarrow> uuid \<Rightarrow> string \<Rightarrow> string list \<Rightarrow> error + artifact list" where
  "get_artifacts d owner a lks =
     (if lks = [] then Inr []
      else bindE (owned_analysis (get_analysis d a) owner) (\<lambda>_.
        Inr (filter (\<lambda>r. available owner a r \<and> art_logical_key r \<in> set lks) (artifacts d))))"

text \<open>\<open>like("calibrations/%/calibration.json")\<close>.\<close>

definition like_calibration :: "string \<Rightarrow> bool" where
  "like_calibration s \<longleftrightarrow> starts_with ''calibrations/'' s
     \<and> ends_with ''/calibration.json'' (drop (length ''calibrations/'') s)"

definition find_current_calibration_artifacts ::
    "db \<Rightarrow> uuid \<Rightarrow> string \<Rightarrow> nat \<Rightarrow> error + artifact list" where
  "find_current_calibration_artifacts d owner a limit =
     bindE (owned_analysis (get_analysis d a) owner) (\<lambda>_.
       Inr (take limit (sort_key art_logical_key
         (filter (\<lambda>r. available owner a r \<and> like_calibration (art_logical_key r)) (artifacts d)))))"

definition list_artifact_history :: "db \<Rightarrow> uuid \<Rightarrow> string \<Rightarrow> error + artifact list" where
  "list_artifact_history d owner a =
     bindE (owned_analysis (get_analysis d a) owner) (\<lambda>_.
       Inr (sort_key (\<lambda>r. (art_storage_key r, art_created_at r))
         (filter (\<lambda>r. art_owner r = owner \<and> art_analysis_id r = a) (artifacts d))))"

section \<open>Calibration reviews\<close>

fun review_state_of :: "string \<Rightarrow> review_state option" where
  "review_state_of s =
     (if s = ''verified'' then Some Verified else if s = ''rejected'' then Some Rejected else None)"

definition record_calibration_body ::
    "uuid \<Rightarrow> time \<Rightarrow> uuid \<Rightarrow> string \<Rightarrow> string \<Rightarrow> string \<Rightarrow> review_state \<Rightarrow> string \<Rightarrow> string option
     \<Rightarrow> time option \<Rightarrow> db \<Rightarrow> error + calibration_verification \<times> db" where
  "record_calibration_body k now owner a cal checksum st meth context verified_at d =
     bindE (owned_analysis (get_analysis d a) owner) (\<lambda>_.
       case find (\<lambda>v. cv_analysis_id v = a \<and> cv_calibration_id v = cal \<and> cv_checksum v = checksum)
              (verifications d) of
         Some v \<Rightarrow> Inr (v, d)
       | None \<Rightarrow>
           let v = \<lparr>cv_id = k, cv_owner = owner, cv_analysis_id = a, cv_calibration_id = cal,
                    cv_checksum = checksum, cv_state = st, cv_method = take 64 (strip meth),
                    cv_reviewer_context = or_none (take 256 (strip (or_else context []))),
                    cv_schema_version = 1,
                    cv_verified_at = (case verified_at of None \<Rightarrow> now | Some t \<Rightarrow> t),
                    cv_created_at = now\<rparr>
           in bindE (insert_verification v d) (\<lambda>d'. Inr (v, d')))"

definition record_calibration_verification ::
    "uuid \<Rightarrow> time \<Rightarrow> uuid \<Rightarrow> string \<Rightarrow> string \<Rightarrow> string \<Rightarrow> string \<Rightarrow> string \<Rightarrow> string option
     \<Rightarrow> time option \<Rightarrow> db \<Rightarrow> (error + calibration_verification) \<times> db" where
  "record_calibration_verification k now owner a cal checksum st meth context verified_at d =
     (case review_state_of st of
        None \<Rightarrow> (Inl ValueError, d)
      | Some rs \<Rightarrow>
          (case validate_sha256 checksum of
             Inl e \<Rightarrow> (Inl e, d)
           | Inr _ \<Rightarrow>
               transact (record_calibration_body k now owner a cal checksum rs meth context verified_at) d))"

section \<open>Player selections\<close>

record selection_input =
  pi_candidate_id :: "string option"
  pi_track_id :: "int option"
  pi_source_track_ids :: "int list"

definition retire_selection :: "player_selection \<Rightarrow> db \<Rightarrow> db" where
  "retire_selection c d = d\<lparr>selections :=
     update_where (\<lambda>r. ps_id r = ps_id c) (\<lambda>r. r\<lparr>ps_is_current := False\<rparr>) (selections d)\<rparr>"

definition same_selection :: "selection_input \<Rightarrow> player_selection \<Rightarrow> bool" where
  "same_selection x c \<longleftrightarrow> ps_candidate_id c = pi_candidate_id x \<and> ps_track_id c = pi_track_id x
     \<and> ps_source_track_ids c = pi_source_track_ids x"

definition persist_player_selection ::
    "uuid \<Rightarrow> time \<Rightarrow> uuid \<Rightarrow> string \<Rightarrow> run option \<Rightarrow> selection_input option \<Rightarrow> db \<Rightarrow> error + db" where
  "persist_player_selection k now owner a r sel d =
     (let cur = find (current_selection_of a) (selections d);
          d1 = (case cur of None \<Rightarrow> d | Some c \<Rightarrow> retire_selection c d)
      in case sel of
           None \<Rightarrow> Inr d1
         | Some x \<Rightarrow>
             if (case cur of None \<Rightarrow> False | Some c \<Rightarrow> same_selection x c) then Inr d
             else (case r of
                None \<Rightarrow> Inl ResourceNotFoundError
              | Some r \<Rightarrow> insert_selection
                  \<lparr>ps_id = k, ps_owner = owner, ps_analysis_id = a, ps_run_id = run_id r,
                   ps_candidate_id = pi_candidate_id x, ps_track_id = pi_track_id x,
                   ps_source_track_ids = pi_source_track_ids x, ps_is_current = True,
                   ps_created_at = now\<rparr> d1))"

section \<open>The bootstrap user\<close>

definition ensure_bootstrap_body :: "time \<Rightarrow> uuid \<Rightarrow> string \<Rightarrow> db \<Rightarrow> error + uuid \<times> db" where
  "ensure_bootstrap_body now k label d =
     (case get_user d k of
        None \<Rightarrow> bindE (insert_user
            \<lparr>usr_id = k, usr_email = lower label,
             usr_password_hash = ''!development-bootstrap-user-cannot-login'',
             usr_account_status = Disabled, usr_created_at = now, usr_updated_at = now,
             usr_last_login_at = None, usr_email_verified_at = None,
             usr_password_changed_at = None, usr_display_name = None\<rparr> d) (\<lambda>d'. Inr (k, d'))
      | Some usr \<Rightarrow> if usr_email usr \<noteq> lower label then Inl IdempotencyConflictError
                  else Inr (k, d))"

definition ensure_bootstrap_user :: "time \<Rightarrow> uuid \<Rightarrow> string \<Rightarrow> db \<Rightarrow> (error + uuid) \<times> db" where
  "ensure_bootstrap_user now k label = transact (ensure_bootstrap_body now k label)"

end
