(* ===== verification/Jobs.thy ===== *)
theory Jobs
  imports Stages
begin

text \<open>
  \<open>PersistenceService.persist_job\<close> (\<^verbatim>\<open>app/persistence/service.py\<close>): saving the job document of
  an analysis. One transaction, which holds the lock of the analysis row, compares the row
  version, retires the results the new document invalidates, moves analysis and run to the
  state the document names, follows its source video and registers its files and its
  player selection.

  The document is the dump of an \<open>AnalysisJob\<close>, whose identifiers, states and texts are
  strings; a string column given anything else is read as \<open>ValueError\<close>. A state or stage no
  check constraint admits is refused where it is assigned. \<open>as_time\<close> parses an ISO 8601
  text (\<open>datetime.fromisoformat\<close>).
\<close>

section \<open>Reading the document\<close>

record job_input =
  jb_owner :: uuid
  jb_payload :: json_object
  jb_artifacts :: "artifact_input list"
  jb_selection :: "selection_input option"
  jb_import :: bool
  jb_expected :: "int option"

definition text_at :: "json_object \<Rightarrow> string \<Rightarrow> error + string" where
  "text_at p k = (case p k of None \<Rightarrow> Inl KeyError | Some (JStr s) \<Rightarrow> Inr s | Some _ \<Rightarrow> Inl ValueError)"

text \<open>\<open>str(payload.get(k) or t)\<close>.\<close>

definition text_or :: "string \<Rightarrow> json_object \<Rightarrow> string \<Rightarrow> string" where
  "text_or t p k = (case get_or_null p k of JStr s \<Rightarrow> or_else (Some s) t | _ \<Rightarrow> t)"

definition analysis_state_of :: "string \<Rightarrow> error + state" where
  "analysis_state_of t =
     (case find (\<lambda>s. state_value s = t) [Pending, Processing, Completed, Failed, Cancelled] of
        None \<Rightarrow> Inl IntegrityError | Some s \<Rightarrow> Inr s)"

fun stage_value :: "stage \<Rightarrow> string" where
  "stage_value Uploaded = ''uploaded''"
| "stage_value Inspected = ''inspected''"
| "stage_value Calibrated = ''calibrated''"
| "stage_value Tracked = ''tracked''"
| "stage_value PlayerSelected = ''player_selected''"
| "stage_value Analyzed = ''analyzed''"

definition stage_of :: "string \<Rightarrow> error + stage" where
  "stage_of t =
     (case find (\<lambda>s. stage_value s = t) [Uploaded, Inspected, Calibrated, Tracked, PlayerSelected, Analyzed] of
        None \<Rightarrow> Inl IntegrityError | Some s \<Rightarrow> Inr s)"

text \<open>\<open>str(payload.get("sport", "pickleball"))\<close>, read as a sport.\<close>

definition payload_sport :: "error \<Rightarrow> json_object \<Rightarrow> error + sport" where
  "payload_sport e p =
     bindE (case p ''sport'' of None \<Rightarrow> Inr ''pickleball'' | Some (JStr s) \<Rightarrow> Inr s | Some _ \<Rightarrow> Inl e) (\<lambda>t.
       case find (\<lambda>s. sport_value s = t) [Pickleball, Padel] of None \<Rightarrow> Inl e | Some s \<Rightarrow> Inr s)"

definition time_at :: "(string \<Rightarrow> time option) \<Rightarrow> json_object \<Rightarrow> string \<Rightarrow> time \<Rightarrow> error + time" where
  "time_at as_time p k now =
     (case get_or_null p k of
        JStr s \<Rightarrow> (case as_time s of None \<Rightarrow> Inl ValueError | Some t \<Rightarrow> Inr t)
      | _ \<Rightarrow> Inr now)"

section \<open>The analysis\<close>

text \<open>The import of an analysis that has no row: an available video, the row, a first run.\<close>

definition import_video :: "uuid \<Rightarrow> time \<Rightarrow> uuid \<Rightarrow> json_object \<Rightarrow> video" where
  "import_video k now owner p =
     \<lparr>vid_id = k, vid_owner = owner, vid_state = VAvailable, vid_filename = text_or ''legacy'' p ''source_video'',
      vid_provider = ''local'', vid_storage_key = None, vid_content_type = None, vid_size = None,
      vid_checksum = None, vid_metadata = Map.empty, vid_row_version = 1, vid_created_at = now,
      vid_updated_at = now\<rparr>"

definition import_analysis ::
    "string \<Rightarrow> uuid \<Rightarrow> uuid \<Rightarrow> sport \<Rightarrow> state \<Rightarrow> stage \<Rightarrow> json_object \<Rightarrow> time \<Rightarrow> time \<Rightarrow> analysis" where
  "import_analysis k owner vid sp st sg p created updated =
     \<lparr>an_id = k, an_owner = owner, an_video_id = vid, an_lifecycle = Live, an_deletion_requested_at = None,
      an_deleted_at = None, an_sport = sp, an_state = st, an_current_stage = sg, an_job_payload = p,
      an_promoted_run_id = None, an_row_version = 1, an_created_at = created, an_updated_at = updated,
      an_completed_at = None, an_failed_at = None, an_cancelled_at = None\<rparr>"

definition import_job ::
    "service \<Rightarrow> (string \<Rightarrow> time option) \<Rightarrow> (nat \<Rightarrow> uuid) \<Rightarrow> time \<Rightarrow> uuid \<Rightarrow> string \<Rightarrow> json_object \<Rightarrow> db
     \<Rightarrow> error + analysis \<times> db" where
  "import_job svc as_time u now owner k p d =
     bindE (insert_video (import_video (u 0) now owner p) d) (\<lambda>d.
     bindE (text_at p ''status'') (\<lambda>status.
     bindE (text_at p ''current_stage'') (\<lambda>stage.
     bindE (time_at as_time p ''created_at'' now) (\<lambda>created.
     bindE (time_at as_time p ''updated_at'' now) (\<lambda>updated.
     bindE (payload_sport IntegrityError p) (\<lambda>sp.
     bindE (analysis_state_of status) (\<lambda>st.
     bindE (stage_of stage) (\<lambda>sg.
     let a = import_analysis k owner (u 0) sp st sg p created updated in
     bindE (insert_analysis a d) (\<lambda>d.
     bindE (insert_new_run svc (u 1) now a None Processing None d) (\<lambda>(r, d).
     bindE (add_event (u 2) now a None st ''legacy_imported'' ''development'' None d) (\<lambda>d.
     bindE (add_run_event (u 3) now r None Processing ''run_started'' d) (\<lambda>d.
     Inr (a, d)))))))))))))"

text \<open>A document that was loaded before another save.\<close>

definition job_outdated :: "int option \<Rightarrow> analysis \<Rightarrow> bool" where
  "job_outdated expected a \<longleftrightarrow>
     (case expected of
        Some v \<Rightarrow> an_row_version a \<noteq> v
      | None \<Rightarrow> get_truthy (an_job_payload a) ''calibration_completed'')"

definition job_analysis ::
    "service \<Rightarrow> (string \<Rightarrow> time option) \<Rightarrow> (nat \<Rightarrow> uuid) \<Rightarrow> time \<Rightarrow> job_input \<Rightarrow> string \<Rightarrow> db \<Rightarrow> error + analysis \<times> db" where
  "job_analysis svc as_time u now j k d =
     (case get_analysis d k of
        None \<Rightarrow>
          if jb_import j then import_job svc as_time u now (jb_owner j) k (jb_payload j) d
          else Inl ResourceNotFoundError
      | Some a \<Rightarrow>
          bindE (owned_analysis (Some a) (jb_owner j)) (\<lambda>a.
            if job_outdated (jb_expected j) a then Inl OptimisticConcurrencyError else Inr (a, d)))"

section \<open>Invalidated results\<close>

definition court_changed :: "json_object \<Rightarrow> json_object \<Rightarrow> bool" where
  "court_changed p old \<longleftrightarrow> get_truthy p ''active_calibration_id''
     \<and> get_or_null p ''active_calibration_id'' \<noteq> get_or_null old ''active_calibration_id''
     \<and> get_or_null p ''calibration_verification'' = JNull \<and> \<not> get_truthy p ''tracking_completed''"

definition evidence_changed :: "json_object \<Rightarrow> json_object \<Rightarrow> bool" where
  "evidence_changed p old \<longleftrightarrow>
     get_or_null p ''selected_evidence_signature'' \<noteq> get_or_null old ''selected_evidence_signature''
     \<or> (get_truthy old ''analytics_completed'' \<and> \<not> get_truthy p ''analytics_completed'')"

text \<open>
  In SQL \<open>startswith("active_play/")\<close> is \<open>LIKE 'active_play/%'\<close>, where the underscore is any
  character; in Python it is the prefix itself.
\<close>

definition result_row :: "string \<Rightarrow> bool" where
  "result_row l \<longleftrightarrow> starts_with ''analytics/'' l
     \<or> (6 < length l \<and> starts_with ''active'' l \<and> starts_with ''play/'' (drop 7 l))"

definition result_file :: "string \<Rightarrow> bool" where
  "result_file l \<longleftrightarrow> starts_with ''analytics/'' l \<or> starts_with ''active_play/'' l"

definition retire_rows :: "string \<Rightarrow> (string \<Rightarrow> bool) \<Rightarrow> time \<Rightarrow> db \<Rightarrow> db" where
  "retire_rows a p now =
     modify_artifacts (\<lambda>r. art_analysis_id r = a \<and> art_is_current r \<and> p (art_logical_key r))
       (\<lambda>r. r\<lparr>art_is_current := False, art_updated_at := now\<rparr>)"

definition invalidate :: "string \<Rightarrow> json_object \<Rightarrow> json_object \<Rightarrow> time \<Rightarrow> db \<Rightarrow> db" where
  "invalidate a p old now d =
     (let d = (if court_changed p old then retire_rows a (\<lambda>l. starts_with ''tracking/'' l \<or> result_row l) now d else d)
      in if evidence_changed p old then retire_rows a result_row now d else d)"

definition kept_artifacts :: "json_object \<Rightarrow> json_object \<Rightarrow> artifact_input list \<Rightarrow> artifact_input list" where
  "kept_artifacts p old xs =
     (if evidence_changed p old then filter (\<lambda>x. \<not> result_file (input_key x)) xs else xs)"

section \<open>The run, the row and the video\<close>

text \<open>The run the document is about: a document in progress starts one if none is active.\<close>

definition job_run ::
    "service \<Rightarrow> (nat \<Rightarrow> uuid) \<Rightarrow> time \<Rightarrow> analysis \<Rightarrow> state \<Rightarrow> db \<Rightarrow> error + run option \<times> db" where
  "job_run svc u now a st d =
     (let r = active_or_latest_run d (an_id a) in
      if st = Processing \<and> (case r of None \<Rightarrow> True | Some r \<Rightarrow> \<not> active_state (run_state r))
      then bindE (insert_new_run svc (u 4) now a (source_checksum d a) Processing None d) (\<lambda>(r, d).
           bindE (add_run_event (u 5) now r None Processing ''run_started'' d) (\<lambda>d. Inr (Some r, d)))
      else Inr (r, d))"

definition save_analysis :: "state \<Rightarrow> stage \<Rightarrow> json_object \<Rightarrow> time \<Rightarrow> analysis \<Rightarrow> analysis" where
  "save_analysis st sg p now a =
     (let a = a\<lparr>an_state := st, an_current_stage := sg, an_job_payload := p,
                an_row_version := an_row_version a + 1, an_updated_at := now\<rparr> in
      if st = Completed then a\<lparr>an_completed_at := Some now\<rparr>
      else if st = Failed then a\<lparr>an_failed_at := Some now\<rparr> else a)"

definition save_video :: "string \<Rightarrow> artifact_input list \<Rightarrow> time \<Rightarrow> video \<Rightarrow> video" where
  "save_video source xs now v =
     (let v = (case find (\<lambda>x. input_key x = source \<and> ai_kind x = ''source_video'') xs of
          None \<Rightarrow> v\<lparr>vid_provider := ''local'', vid_storage_key := Some source\<rparr>
        | Some x \<Rightarrow> v\<lparr>vid_provider := ai_provider x, vid_storage_key := Some (ai_storage_key x),
              vid_content_type := Some (ai_content_type x), vid_size := Some (ai_size x),
              vid_checksum := Some (ai_checksum x)\<rparr>)
      in v\<lparr>vid_state := VAvailable, vid_row_version := vid_row_version v + 1, vid_updated_at := now\<rparr>)"

definition follow_source :: "json_object \<Rightarrow> artifact_input list \<Rightarrow> time \<Rightarrow> analysis \<Rightarrow> db \<Rightarrow> error + db" where
  "follow_source p xs now a d =
     (case (get_video d (an_video_id a), p ''source_video'') of
        (Some v, Some (JStr source)) \<Rightarrow>
          let v' = save_video source xs now v in
          if hex64_or_null (vid_checksum v') then Inr (modify_video (vid_id v) (\<lambda>_. v') d) else Inl IntegrityError
      | _ \<Rightarrow> Inr d)"

definition finish_run :: "state \<Rightarrow> json_object \<Rightarrow> time \<Rightarrow> run \<Rightarrow> run" where
  "finish_run st p now r =
     (let r = r\<lparr>run_state := st, run_row_version := run_row_version r + 1, run_updated_at := now\<rparr> in
      if st = Completed then r\<lparr>run_completed_at := Some now\<rparr>
      else r\<lparr>run_failed_at := Some now, run_error_detail := or_none (take 4000 (text_or [] p ''error''))\<rparr>)"

definition close_run ::
    "(nat \<Rightarrow> uuid) \<Rightarrow> time \<Rightarrow> string \<Rightarrow> state \<Rightarrow> json_object \<Rightarrow> run option \<Rightarrow> db \<Rightarrow> error + db" where
  "close_run u now k st p r d =
     (case r of
        None \<Rightarrow> Inr d
      | Some r \<Rightarrow>
          if st \<in> {Completed, Failed} \<and> active_state (run_state r)
          then let r' = finish_run st p now r; d = modify_run (run_id r) (\<lambda>_. r') d;
                   d = (if st = Completed
                        then modify_analysis k (\<lambda>a. a\<lparr>an_promoted_run_id := Some (run_id r)\<rparr>) d else d)
            in add_run_event (u 7) now r' (Some (run_state r)) st (''run_'' @ state_value st) d
          else Inr d)"

section \<open>Saving\<close>

definition persist_job_body ::
    "service \<Rightarrow> (string \<Rightarrow> time option) \<Rightarrow> (nat \<Rightarrow> uuid) \<Rightarrow> time \<Rightarrow> job_input \<Rightarrow> db \<Rightarrow> error + int \<times> db" where
  "persist_job_body svc as_time u now j d =
     (let p = jb_payload j in
      bindE (text_at p ''analysis_id'') (\<lambda>k.
      bindE (job_analysis svc as_time u now j k d) (\<lambda>(a, d).
      bindE (requireE (case get_video d (an_video_id a) of None \<Rightarrow> True | Some v \<Rightarrow> vid_state v \<notin> {VDeleting, VDeleted})
               SourceMediaUnavailableError) (\<lambda>_.
      bindE (payload_sport ValueError p) (\<lambda>sp.
      bindE (requireE (an_sport a = sp) ValueError) (\<lambda>_.
      let xs = kept_artifacts p (an_job_payload a) (jb_artifacts j);
          d = invalidate k p (an_job_payload a) now d in
      bindE (text_at p ''status'') (\<lambda>status.
      bindE (analysis_state_of status) (\<lambda>st.
      bindE (job_run svc u now a st d) (\<lambda>(r, d).
      bindE (text_at p ''current_stage'') (\<lambda>stage.
      bindE (stage_of stage) (\<lambda>sg.
      let a' = save_analysis st sg p now a; d = modify_analysis k (\<lambda>_. a') d in
      bindE (if an_state a \<noteq> st
             then add_event (u 6) now a' (Some (an_state a)) st ''job_state_changed'' ''system'' None d
             else Inr d) (\<lambda>d.
      bindE (follow_source p xs now a' d) (\<lambda>d.
      bindE (close_run u now k st p r d) (\<lambda>d.
      bindE (register_artifacts (\<lambda>i. u (9 + i)) now (jb_owner j) k (map_option run_id r) None xs d) (\<lambda>(_, d).
      bindE (persist_player_selection (u 8) now (jb_owner j) k r (jb_selection j) d) (\<lambda>d.
      Inr (an_row_version a', d)))))))))))))))))"

definition persist_job ::
    "service \<Rightarrow> (string \<Rightarrow> time option) \<Rightarrow> (nat \<Rightarrow> uuid) \<Rightarrow> time \<Rightarrow> job_input \<Rightarrow> db \<Rightarrow> (error + int) \<times> db" where
  "persist_job svc as_time u now j = transact (persist_job_body svc as_time u now j)"

end
