(* ===== verification/Run_Laws.thy ===== *)
theory Run_Laws
  imports Runs
begin

text \<open>
  What the writing halves of the run operations do to the tables, as elimination lemmas
  (\<open>start_run_write_shape\<close>, \<open>transition_write_shape\<close>, \<open>create_reservation_shape\<close>):
  when the writes commit, the database they leave is an explicit update of the one they
  read. The invariant and the properties rest on these.
\<close>

section \<open>Facts about the primitives\<close>

lemma insert_run_fresh:
  assumes "insert_run r d = Inr d'"
  shows "run_id r \<notin> run_id ` set (runs d)"
    and "active_state (run_state r) \<Longrightarrow> s \<in> set (runs d) \<Longrightarrow> \<not> active_run_of (run_analysis_id r) s"
    and "\<exists>a. get_analysis d (run_analysis_id r) = Some a"
  using assms by (auto simp: insert_run_def split: if_splits)

lemma insert_idem_fresh:
  assumes "insert_idem r d = Inr d'"
  shows "s \<in> set (idem_records d) \<Longrightarrow> idem_id s \<noteq> idem_id r"
    and "s \<in> set (idem_records d) \<Longrightarrow> \<not> idem_slot (idem_owner r) (idem_scope r) (idem_key_hash r) s"
  using assms by (auto simp: insert_idem_def split: if_splits)

lemma complete_record_last:
  assumes "\<And>s. s \<in> set (idem_records d) \<Longrightarrow> idem_id s \<noteq> k" and "idem_id r = k"
    and "idem_records d' = idem_records d @ [r]"
  shows "complete_record k now ty rid d' = d'\<lparr>idem_records := idem_records d @
     [r\<lparr>idem_status := IdemCompleted, idem_resource_type := Some ty,
        idem_resource_id := Some rid, idem_updated_at := now\<rparr>]\<rparr>"
  using assms by (auto simp: complete_record_def modify_idem_def update_where_append update_where_id)
     (simp add: update_where_def)

lemma owned_analysis_Inr:
  "owned_analysis (get_analysis d a) owner = Inr r \<longleftrightarrow>
     get_analysis d a = Some r \<and> an_owner r = owner \<and> an_lifecycle r = Live"
  by (auto simp: owned_analysis_def split: option.splits if_splits)

lemma get_analysis_Some: "get_analysis d a = Some r \<Longrightarrow> r \<in> set (analyses d) \<and> an_id r = a"
  by (auto simp: get_analysis_def dest: find_Some_in)

definition started_event :: "uuid \<Rightarrow> time \<Rightarrow> run \<Rightarrow> state_event" where
  "started_event k now r = \<lparr>ev_id = k, ev_subject = SubjectRun, ev_analysis_id = run_analysis_id r,
       ev_run_id = Some (run_id r), ev_previous = None, ev_new = run_state r, ev_type = ''run_started'',
       ev_reason = None, ev_actor = ''system'', ev_row_version = run_row_version r,
       ev_created_at = now\<rparr>"


lemma insert_new_run_Inr:
  assumes "insert_new_run svc k now a cs st lease d = Inr (r, d')"
  shows "r = new_run svc k now a cs st lease (greatest run_attempt (runs_of d (an_id a)))"
    and "insert_run r d = Inr d'"
  using assms by (auto simp: insert_new_run_def Let_def resultE_iffs)

lemma new_run_simps [simp]:
  "run_id (new_run svc k now a cs st lease l) = k"
  "run_analysis_id (new_run svc k now a cs st lease l) = an_id a"
  "run_state (new_run svc k now a cs st lease l) = st"
  "run_row_version (new_run svc k now a cs st lease l) = 1"
  "run_attempt (new_run svc k now a cs st lease l) = (case l of None \<Rightarrow> 1 | Some x \<Rightarrow> run_attempt x + 1)"
  "run_previous (new_run svc k now a cs st lease l) = map_option run_id l"
  "run_lease_expires_at (new_run svc k now a cs st lease l) = lease"
  by (simp_all add: new_run_def)

lemma add_run_event_Inr:
  "add_run_event k now r None st ''run_started'' d = Inr d' \<Longrightarrow> st = run_state r \<Longrightarrow>
     d' = d\<lparr>events := events d @ [started_event k now r]\<rparr>"
  by (auto simp: add_run_event_def started_event_def dest!: insert_event_Inr)

lemma add_event_Inr:
  "add_event k now a p n ty actor reason d = Inr d' \<Longrightarrow>
     \<exists>e. ev_run_id e = None \<and> ev_analysis_id e = an_id a \<and> d' = d\<lparr>events := events d @ [e]\<rparr>"
  unfolding add_event_def by (drule insert_event_Inr) (rule exI, auto)

lemma start_run_write_shape:
  assumes "start_run_write svc u now rq d = Inr (res, d')"
  obtains a r more where
    "get_analysis d (st_analysis_id rq) = Some a" "an_owner a = st_owner rq" "an_lifecycle a = Live"
    "r = new_run svc (u 1) now a (source_checksum d a) (st_state rq) (st_lease rq)
           (greatest run_attempt (runs_of d (an_id a)))"
    "res = \<lparr>rr_run_id = run_id r, rr_created = True\<rparr>"
    "insert_run r d = Inr (d\<lparr>runs := runs d @ [r]\<rparr>)"
    "insert_idem (in_progress_record svc (u 0) now (st_owner rq) ''run_start''
              (st_idempotency_key rq) (st_fingerprint rq)) d \<noteq> Inl IntegrityError"
    "\<forall>e\<in>set more. ev_run_id e = None \<and> ev_analysis_id e = an_id a"
    "d' = d\<lparr>runs := runs d @ [r],
        events := events d @ started_event (u 2) now r # more,
        analyses := (if st_state rq = Processing \<and> an_state a \<noteq> Processing
          then update_where (\<lambda>x. an_id x = an_id a) (\<lambda>_. mark_processing now a) (analyses d)
          else analyses d),
        idem_records := idem_records d @
          [(in_progress_record svc (u 0) now (st_owner rq) ''run_start''
              (st_idempotency_key rq) (st_fingerprint rq))
           \<lparr>idem_status := IdemCompleted, idem_resource_type := Some ''analysis_run'',
             idem_resource_id := Some (uuid_text (run_id r))\<rparr>]\<rparr>"
proof -
  from assms obtain a d1 r d2 d3 d4 where
    a: "owned_analysis (get_analysis d (st_analysis_id rq)) (st_owner rq) = Inr a" and
    i: "insert_idem (in_progress_record svc (u 0) now (st_owner rq) ''run_start''
              (st_idempotency_key rq) (st_fingerprint rq)) d = Inr d1" and
    r: "insert_new_run svc (u 1) now a (source_checksum d1 a) (st_state rq) (st_lease rq) d1 = Inr (r, d2)" and
    e: "add_run_event (u 2) now r None (st_state rq) ''run_started'' d2 = Inr d3" and
    f: "(if st_state rq = Processing \<and> an_state a \<noteq> Processing
            then let a' = mark_processing now a in
              add_event (u 3) now a' (Some (an_state a)) Processing ''run_started'' ''system'' None
                (modify_analysis (an_id a) (\<lambda>_. a') d3)
            else Inr d3) = Inr d4" and
    res: "res = \<lparr>rr_run_id = run_id r, rr_created = True\<rparr>" and
    d': "d' = complete_record (u 0) now ''analysis_run'' (uuid_text (run_id r)) d4"
    by (auto simp: start_run_write_def resultE_iffs)
  note d1 = insert_idem_Inr [OF i] and rr = insert_new_run_Inr [OF r]
  note d2 = insert_run_Inr [OF rr(2)]
  have st: "run_state r = st_state rq" by (simp add: rr(1))
  note d3 = add_run_event_Inr [OF e st [symmetric]]
  have run_d: "insert_run r d = Inr (d\<lparr>runs := runs d @ [r]\<rparr>)"
    using rr(2) by (auto simp: insert_run_def d1 get_analysis_def get_run_def split: if_splits)
  obtain more where more: "\<forall>e\<in>set more. ev_run_id e = None \<and> ev_analysis_id e = an_id a"
    and d4: "d4 = d3\<lparr>events := events d3 @ more,
        analyses := (if st_state rq = Processing \<and> an_state a \<noteq> Processing
          then update_where (\<lambda>x. an_id x = an_id a) (\<lambda>_. mark_processing now a) (analyses d3)
          else analyses d3)\<rparr>"
  proof (cases "st_state rq = Processing \<and> an_state a \<noteq> Processing")
    case True
    with f obtain ev where "ev_run_id ev = None" "ev_analysis_id ev = an_id a"
      "d4 = modify_analysis (an_id a) (\<lambda>_. mark_processing now a) d3\<lparr>events := events d3 @ [ev]\<rparr>"
      by (auto simp: Let_def modify_analysis_def mark_processing_def dest!: add_event_Inr)
    with True that [of "[ev]"] show ?thesis by (simp add: modify_analysis_def)
  next
    case False
    with f that [of "[]"] show ?thesis by simp
  qed
  have "idem_records d4 = idem_records d @ [in_progress_record svc (u 0) now (st_owner rq)
      ''run_start'' (st_idempotency_key rq) (st_fingerprint rq)]"
    by (simp add: d4 d3 d2 d1)
  then have d'': "d' = d4\<lparr>idem_records := idem_records d @
       [(in_progress_record svc (u 0) now (st_owner rq) ''run_start''
           (st_idempotency_key rq) (st_fingerprint rq))
        \<lparr>idem_status := IdemCompleted, idem_resource_type := Some ''analysis_run'',
         idem_resource_id := Some (uuid_text (run_id r)), idem_updated_at := now\<rparr>]\<rparr>"
    unfolding d' by (intro complete_record_last)
      (use insert_idem_fresh(1) [OF i] in \<open>auto simp: in_progress_record_def\<close>)
  show thesis
  proof (rule that)
    show "get_analysis d (st_analysis_id rq) = Some a" "an_owner a = st_owner rq" "an_lifecycle a = Live"
      using a by (auto simp: owned_analysis_Inr)
    show "r = new_run svc (u 1) now a (source_checksum d a) (st_state rq) (st_lease rq)
           (greatest run_attempt (runs_of d (an_id a)))"
      using rr(1) by (simp add: d1 runs_of_def source_checksum_def get_video_def)
    show "insert_idem (in_progress_record svc (u 0) now (st_owner rq) ''run_start''
              (st_idempotency_key rq) (st_fingerprint rq)) d \<noteq> Inl IntegrityError"
      using i by simp
    show "\<forall>e\<in>set more. ev_run_id e = None \<and> ev_analysis_id e = an_id a" by (rule more)
  qed (use res run_d d'' in \<open>simp_all add: d4 d3 d2 d1 in_progress_record_def\<close>)
qed

lemma advance_run_simps [simp]:
  "run_id (advance_run new v now r) = run_id r"
  "run_analysis_id (advance_run new v now r) = run_analysis_id r"
  "run_attempt (advance_run new v now r) = run_attempt r"
  "run_state (advance_run new v now r) = new"
  "run_row_version (advance_run new v now r) = v + 1"
  "run_previous (advance_run new v now r) = run_previous r"
  by (cases new; simp add: advance_run_def)+

lemma follow_run_simps [simp]:
  "an_id (follow_run k new now a) = an_id a"
  "an_owner (follow_run k new now a) = an_owner a"
  "an_lifecycle (follow_run k new now a) = an_lifecycle a"
  "an_video_id (follow_run k new now a) = an_video_id a"
  "an_sport (follow_run k new now a) = an_sport a"
  "an_state (follow_run k new now a) = new"
  "an_row_version (follow_run k new now a) = an_row_version a + 1"
  "an_promoted_run_id (follow_run k new now a)
     = (if new = Completed then Some k else an_promoted_run_id a)"
  by (cases new; simp add: follow_run_def Let_def)+

lemma mark_processing_simps [simp]:
  "an_id (mark_processing now a) = an_id a"
  "an_owner (mark_processing now a) = an_owner a"
  "an_lifecycle (mark_processing now a) = an_lifecycle a"
  "an_promoted_run_id (mark_processing now a) = an_promoted_run_id a"
  "an_row_version (mark_processing now a) = an_row_version a + 1"
  "an_state (mark_processing now a) = Processing"
  by (simp_all add: mark_processing_def)

lemma transition_write_shape:
  assumes "transition_write u now k expected prev new reason d = Inr (res, d')"
  obtains r a more where
    "r \<in> set (runs d)" "run_id r = k" "run_row_version r = expected" "run_state r = prev"
    "get_analysis d (run_analysis_id r) = Some a"
    "res = \<lparr>tr_run_id = k, tr_state = new, tr_row_version = run_row_version (advance_run new expected now r)\<rparr>"
    "\<forall>e\<in>set more. ev_run_id e = None \<and> ev_analysis_id e = an_id a"
    "d' = d\<lparr>runs := update_where (\<lambda>x. run_id x = k) (\<lambda>_. advance_run new expected now r) (runs d),
        analyses := (if new \<in> {Processing, Completed, Failed, Cancelled}
          then update_where (\<lambda>x. an_id x = an_id a) (\<lambda>_. follow_run k new now a) (analyses d)
          else analyses d),
        events := events d @ more @
          [run_moved_event (u 1) now (advance_run new expected now r) prev reason]\<rparr>"
proof -
  from assms obtain r where
    r: "find (\<lambda>r. run_id r = k \<and> run_row_version r = expected \<and> run_state r = prev) (runs d) = Some r"
    by (auto simp: transition_write_def split: option.splits)
  define d1 where "d1 = modify_run k (\<lambda>_. advance_run new expected now r) d"
  from assms r obtain a where a: "get_analysis d1 (run_analysis_id r) = Some a"
    by (auto simp: transition_write_def Let_def d1_def split: option.splits)
  have "bindE (if new \<in> {Processing, Completed, Failed, Cancelled}
         then let a' = follow_run k new now a in
           add_event (u 0) now a' (Some (an_state a)) new (''run_'' @ state_value new) ''system'' reason
             (modify_analysis (an_id a) (\<lambda>_. a') d1)
         else Inr d1) (\<lambda>d. bindE (insert_event (run_moved_event (u 1) now
           (advance_run new expected now r) prev reason) d) (\<lambda>d. Inr (\<lparr>tr_run_id = k, tr_state = new,
             tr_row_version = run_row_version (advance_run new expected now r)\<rparr>, d))) = Inr (res, d')"
    using assms r a unfolding transition_write_def Let_def d1_def by (simp only: option.case)
  then obtain d2 where
    f: "(if new \<in> {Processing, Completed, Failed, Cancelled}
         then let a' = follow_run k new now a in
           add_event (u 0) now a' (Some (an_state a)) new (''run_'' @ state_value new) ''system'' reason
             (modify_analysis (an_id a) (\<lambda>_. a') d1)
         else Inr d1) = Inr d2" and
    e: "insert_event (run_moved_event (u 1) now (advance_run new expected now r) prev reason) d2 = Inr d'" and
    res: "res = \<lparr>tr_run_id = k, tr_state = new, tr_row_version = run_row_version (advance_run new expected now r)\<rparr>"
    unfolding bindE_Inr_iff by blast
  obtain more where more: "\<forall>e\<in>set more. ev_run_id e = None \<and> ev_analysis_id e = an_id a"
    and d2: "d2 = d1\<lparr>events := events d @ more,
        analyses := (if new \<in> {Processing, Completed, Failed, Cancelled}
          then update_where (\<lambda>x. an_id x = an_id a) (\<lambda>_. follow_run k new now a) (analyses d)
          else analyses d)\<rparr>"
  proof (cases "new \<in> {Processing, Completed, Failed, Cancelled}")
    case True
    with f obtain ev where "ev_run_id ev = None" "ev_analysis_id ev = an_id a"
      "d2 = modify_analysis (an_id a) (\<lambda>_. follow_run k new now a) d1\<lparr>events := events d @ [ev]\<rparr>"
      by (auto simp: Let_def modify_analysis_def d1_def modify_run_def dest!: add_event_Inr)
    with True that [of "[ev]"] show ?thesis by (simp add: modify_analysis_def d1_def modify_run_def)
  next
    case False
    with f that [of "[]"] show ?thesis by (auto simp: d1_def modify_run_def)
  qed
  show thesis
  proof (rule that)
    show "r \<in> set (runs d)" "run_id r = k" "run_row_version r = expected" "run_state r = prev"
      using r by (auto dest: find_Some_in)
    show "get_analysis d (run_analysis_id r) = Some a"
      using a by (simp add: d1_def modify_run_def get_analysis_def)
    show "\<forall>e\<in>set more. ev_run_id e = None \<and> ev_analysis_id e = an_id a" by (rule more)
  qed (use res insert_event_Inr [OF e] in \<open>simp_all add: d2 d1_def modify_run_def\<close>)
qed

lemma create_reservation_shape:
  assumes "create_reservation svc u now rq d = Inr (res, d')"
  obtains v a r ev rec where
    "v = pending_video (u 1) now rq" "a = reserved_analysis (u 1) now rq"
    "r = new_run svc (u 2) now a (Some (rq_checksum rq)) Processing None
           (greatest run_attempt (runs_of d (an_id a)))"
    "insert_video v d = Inr (d\<lparr>videos := videos d @ [v]\<rparr>)"
    "an_id a \<notin> an_id ` set (analyses d)"
    "insert_run r (d\<lparr>analyses := analyses d @ [a]\<rparr>)
       = Inr (d\<lparr>analyses := analyses d @ [a], runs := runs d @ [r]\<rparr>)"
    "ev_run_id ev = None \<and> ev_analysis_id ev = an_id a"
    "rec = (in_progress_record svc (u 0) now (rq_owner rq) ''analysis_upload''
              (rq_idempotency_key rq) (rq_fingerprint rq))
           \<lparr>idem_status := IdemCompleted, idem_resource_type := Some ''analysis'',
             idem_resource_id := Some (an_id a)\<rparr>"
    "insert_idem rec d = Inr (d\<lparr>idem_records := idem_records d @ [rec]\<rparr>)"
    "res = \<lparr>res_analysis_id = an_id a, res_created = True, res_duplicate = None\<rparr>"
    "d' = d\<lparr>videos := videos d @ [v], analyses := analyses d @ [a], runs := runs d @ [r],
        events := events d @ [ev, started_event (u 4) now r],
        idem_records := idem_records d @ [rec]\<rparr>"
proof -
  define a where "a = reserved_analysis (u 1) now rq"
  define i where "i = in_progress_record svc (u 0) now (rq_owner rq) ''analysis_upload''
              (rq_idempotency_key rq) (rq_fingerprint rq)"
  from assms obtain d1 d2 d3 d4 r d5 d6 where
    i: "insert_idem i d = Inr d1" and
    v: "insert_video (pending_video (u 1) now rq) d1 = Inr d2" and
    a: "insert_analysis a d2 = Inr d3" and
    r: "insert_new_run svc (u 2) now a (Some (rq_checksum rq)) Processing None d3 = Inr (r, d4)" and
    e: "add_event (u 3) now a None Processing ''analysis_created'' ''development'' None d4 = Inr d5" and
    f: "add_run_event (u 4) now r None Processing ''run_started'' d5 = Inr d6" and
    res: "res = \<lparr>res_analysis_id = rq_analysis_id rq, res_created = True, res_duplicate = None\<rparr>" and
    d': "d' = complete_record (u 0) now ''analysis'' (an_id a) d6"
    by (auto simp: create_reservation_def Let_def resultE_iffs a_def i_def)
  note d1 = insert_idem_Inr [OF i] and d2 = insert_video_Inr [OF v] and d3 = insert_analysis_Inr [OF a]
  note rr = insert_new_run_Inr [OF r]
  note d4 = insert_run_Inr [OF rr(2)]
  have st: "run_state r = Processing" by (simp add: rr(1))
  obtain ev where ev: "ev_run_id ev = None \<and> ev_analysis_id ev = an_id a" and d5: "d5 = d4\<lparr>events := events d4 @ [ev]\<rparr>"
    using add_event_Inr [OF e] by blast
  note d6 = add_run_event_Inr [OF f st [symmetric]]
  have "idem_records d6 = idem_records d @ [i]"
    by (simp add: d6 d5 d4 d3 d2 d1)
  then have d'': "d' = d6\<lparr>idem_records := idem_records d @
       [i\<lparr>idem_status := IdemCompleted, idem_resource_type := Some ''analysis'',
         idem_resource_id := Some (an_id a), idem_updated_at := now\<rparr>]\<rparr>"
    unfolding d' by (intro complete_record_last)
      (use insert_idem_fresh(1) [OF i] in \<open>auto simp: i_def in_progress_record_def\<close>)
  have analyses2: "analyses d2 = analyses d" by (simp add: d2 d1)
  show thesis
  proof (rule that)
    show "insert_video (pending_video (u 1) now rq) d
        = Inr (d\<lparr>videos := videos d @ [pending_video (u 1) now rq]\<rparr>)"
      using v by (auto simp: insert_video_def d1 has_user_def get_user_def split: if_splits)
    show "an_id a \<notin> an_id ` set (analyses d)"
      using analysis_tab.key_fresh [OF a] by (simp add: analyses2)
    show "insert_run r (d\<lparr>analyses := analyses d @ [a]\<rparr>)
       = Inr (d\<lparr>analyses := analyses d @ [a], runs := runs d @ [r]\<rparr>)"
      using rr(2)
      by (auto simp: insert_run_def d3 d2 d1 get_analysis_def get_run_def split: if_splits)
    show "insert_idem (i\<lparr>idem_status := IdemCompleted, idem_resource_type := Some ''analysis'',
             idem_resource_id := Some (an_id a)\<rparr>) d = Inr (d\<lparr>idem_records := idem_records d @
               [i\<lparr>idem_status := IdemCompleted, idem_resource_type := Some ''analysis'',
             idem_resource_id := Some (an_id a)\<rparr>]\<rparr>)"
      using i by (auto simp: insert_idem_def split: if_splits)
    show "i\<lparr>idem_status := IdemCompleted, idem_resource_type := Some ''analysis'',
             idem_resource_id := Some (an_id a)\<rparr> = (in_progress_record svc (u 0) now (rq_owner rq)
              ''analysis_upload'' (rq_idempotency_key rq) (rq_fingerprint rq))
           \<lparr>idem_status := IdemCompleted, idem_resource_type := Some ''analysis'',
             idem_resource_id := Some (an_id a)\<rparr>"
      by (simp add: i_def)
    show "r = new_run svc (u 2) now a (Some (rq_checksum rq)) Processing None
           (greatest run_attempt (runs_of d (an_id a)))"
      using rr(1) by (simp add: d3 d2 d1 runs_of_def)
    show "ev_run_id ev = None \<and> ev_analysis_id ev = an_id a" by (rule ev)
  qed (use d'' res in \<open>simp_all add: d6 d5 d4 d3 d2 d1 a_def i_def in_progress_record_def reserved_analysis_def\<close>)
qed
end
