(* ===== verification/Run_Invariant.thy ===== *)
theory Run_Invariant
  imports Run_Laws
begin

text \<open>
  The invariant of analyses, runs, their event log and the idempotency records, and its
  preservation by what the run operations commit. Its parts: primary keys are distinct
  and the references hold (\<open>keys_ok\<close>); an analysis has at most one active run; the
  attempts of an analysis are numbered 1, 2, 3, \dots\ without gaps; a promoted run is a
  completed run of its analysis; the event log of a run of a live analysis replays to
  the run's state and version (\<open>audit_ok\<close>); every committed idempotency record is
  complete and names its resource (\<open>idem_ok\<close>).
\<close>

section \<open>The invariant\<close>

definition one_active_run :: "db \<Rightarrow> bool" where
  "one_active_run d \<longleftrightarrow> (\<forall>a. at_most_one (active_run_of a) (runs d))"

definition attempts_ok :: "db \<Rightarrow> bool" where
  "attempts_ok d \<longleftrightarrow>
     (\<forall>a. map run_attempt (runs_of d a) = [1..int (length (runs_of d a))])"

definition keys_ok :: "db \<Rightarrow> bool" where
  "keys_ok d \<longleftrightarrow> distinct (map run_id (runs d)) \<and> distinct (map an_id (analyses d))
     \<and> (\<forall>e\<in>set (events d). \<forall>k. ev_run_id e = Some k \<longrightarrow> k \<in> run_id ` set (runs d))
     \<and> (\<forall>r\<in>set (runs d). run_analysis_id r \<in> an_id ` set (analyses d))"

definition promoted_ok :: "db \<Rightarrow> bool" where
  "promoted_ok d \<longleftrightarrow> (\<forall>a\<in>set (analyses d). \<forall>k. an_promoted_run_id a = Some k \<longrightarrow>
     (\<exists>r\<in>set (runs d). run_id r = k \<and> run_analysis_id r = an_id a \<and> run_state r = Completed))"

fun log_from :: "state \<Rightarrow> int \<Rightarrow> state_event list \<Rightarrow> (state \<times> int) option" where
  "log_from s v [] = Some (s, v)"
| "log_from s v (e # es) =
     (if ev_previous e = Some s \<and> run_allowed s (ev_new e) \<and> ev_row_version e = v + 1
      then log_from (ev_new e) (v + 1) es else None)"

fun replay_log :: "state_event list \<Rightarrow> (state \<times> int) option" where
  "replay_log [] = None"
| "replay_log (e # es) =
     (if ev_previous e = None \<and> active_state (ev_new e) \<and> ev_row_version e = 1
      then log_from (ev_new e) 1 es else None)"

definition run_log :: "db \<Rightarrow> uuid \<Rightarrow> state_event list" where
  "run_log d k = filter (\<lambda>e. ev_run_id e = Some k) (events d)"

definition live_in :: "db \<Rightarrow> string \<Rightarrow> bool" where
  "live_in d a \<longleftrightarrow> (\<exists>x\<in>set (analyses d). an_id x = a \<and> an_lifecycle x = Live)"

definition audit_ok :: "db \<Rightarrow> bool" where
  "audit_ok d \<longleftrightarrow>
     (\<forall>r\<in>set (runs d). live_in d (run_analysis_id r) \<longrightarrow>
        replay_log (run_log d (run_id r)) = Some (run_state r, run_row_version r))"

definition idem_ok :: "db \<Rightarrow> bool" where
  "idem_ok d \<longleftrightarrow> (\<forall>i\<in>set (idem_records d).
     idem_status i = IdemCompleted
     \<and> (idem_scope i = ''run_start'' \<longrightarrow>
          (\<exists>k. idem_resource_id i = Some (uuid_text k)))
     \<and> (idem_scope i = ''analysis_upload'' \<longrightarrow>
          (\<exists>a\<in>set (analyses d). an_owner a = idem_owner i \<and> idem_resource_id i = Some (an_id a))))
     \<and> (\<forall>u sc kh. at_most_one (idem_slot u sc kh) (idem_records d))"

definition run_inv :: "db \<Rightarrow> bool" where
  "run_inv d \<longleftrightarrow> keys_ok d \<and> one_active_run d \<and> attempts_ok d \<and> promoted_ok d \<and> audit_ok d
     \<and> idem_ok d"

lemmas run_inv_defs = run_inv_def keys_ok_def one_active_run_def attempts_ok_def promoted_ok_def
  audit_ok_def idem_ok_def

lemma run_inv_empty: "run_inv empty_db"
  by (simp add: run_inv_defs empty_db_def runs_of_def)

lemma run_inv_frame:
  assumes "run_inv d" "runs d' = runs d" "analyses d' = analyses d" "events d' = events d"
    "idem_records d' = idem_records d"
  shows "run_inv d'"
  using assms by (simp add: run_inv_defs runs_of_def run_log_def live_in_def)

lemma log_from_snoc:
  "log_from s v (es @ [e]) = (case log_from s v es of None \<Rightarrow> None
     | Some (t, w) \<Rightarrow> log_from t w [e])"
  by (induction es arbitrary: s v) auto

lemma replay_log_snoc:
  "es \<noteq> [] \<Longrightarrow> replay_log (es @ [e]) = (case replay_log es of None \<Rightarrow> None
     | Some (t, w) \<Rightarrow> log_from t w [e])"
  by (cases es) (auto simp: log_from_snoc)

text \<open>The latest attempt is the number of runs so far.\<close>

lemma greatest_attempt:
  assumes "map run_attempt rs = [1..int (length rs)]"
  shows "(case greatest run_attempt rs of None \<Rightarrow> 1 | Some l \<Rightarrow> run_attempt l + 1) = int (length rs) + 1"
proof (cases "greatest run_attempt rs")
  case None
  then show ?thesis by simp
next
  case (Some l)
  note g = greatest_Some [OF Some]
  have eq: "run_attempt ` set rs = {1..int (length rs)}"
    using arg_cong [OF assms, of set] by simp
  from g have "rs \<noteq> []" by auto
  then have "int (length rs) \<in> run_attempt ` set rs" unfolding eq by (cases rs) auto
  then obtain s where "s \<in> set rs" "run_attempt s = int (length rs)" by force
  moreover have "run_attempt l \<in> {1..int (length rs)}" using g unfolding eq [symmetric] by simp
  ultimately have "run_attempt l = int (length rs)"
    using g by fastforce
  with Some show ?thesis by simp
qed

text \<open>
  Appending a run: a fresh row in its first version, in an active state no other run of
  the analysis is in, whose only event is its creation.
\<close>

lemma run_inv_new_run:
  assumes inv: "run_inv d"
    and runs: "runs d' = runs d @ [r]"
    and fresh: "run_id r \<notin> run_id ` set (runs d)"
    and act: "active_state (run_state r)" "\<forall>s\<in>set (runs d). \<not> active_run_of (run_analysis_id r) s"
    and v: "run_row_version r = 1"
    and att: "run_attempt r = (case greatest run_attempt (runs_of d (run_analysis_id r)) of None \<Rightarrow> 1
       | Some l \<Rightarrow> run_attempt l + 1)"
    and ev: "events d' = events d @ before @ started_event k now r # after"
      "\<forall>e\<in>set (before @ after). ev_run_id e = None"
    and an: "distinct (map an_id (analyses d'))" "an_id ` set (analyses d) \<subseteq> an_id ` set (analyses d')"
      "run_analysis_id r \<in> an_id ` set (analyses d')"
      "\<forall>a\<in>set (analyses d'). (\<exists>b\<in>set (analyses d). an_id b = an_id a
           \<and> an_lifecycle b = an_lifecycle a \<and> an_promoted_run_id b = an_promoted_run_id a)
         \<or> (an_id a \<notin> an_id ` set (analyses d) \<and> an_promoted_run_id a = None)"
    and idem: "idem_ok d'"
  shows "run_inv d'"
proof -
  have k: "keys_ok d'"
    using inv fresh ev an runs unfolding run_inv_def keys_ok_def
    by (auto simp: started_event_def)
  have o: "one_active_run d'"
    unfolding one_active_run_def runs
  proof
    fix a
    have "at_most_one (active_run_of a) (runs d)"
      using inv by (simp add: run_inv_def one_active_run_def)
    then show "at_most_one (active_run_of a) (runs d @ [r])"
      using act by (intro at_most_one_append1) (auto simp: active_run_of_def)
  qed
  have t: "attempts_ok d'"
    unfolding attempts_ok_def
  proof
    fix a
    have old: "map run_attempt (runs_of d b) = [1..int (length (runs_of d b))]" for b
      using inv by (simp add: run_inv_def attempts_ok_def)
    show "map run_attempt (runs_of d' a) = [1..int (length (runs_of d' a))]"
    proof (cases "run_analysis_id r = a")
      case True
      then have "runs_of d' a = runs_of d a @ [r]" by (simp add: runs_of_def runs)
      with att old [of a] greatest_attempt [OF old [of a]] True show ?thesis
        by (simp add: upto_rec2)
    next
      case False
      then have "runs_of d' a = runs_of d a" by (simp add: runs_of_def runs)
      with old [of a] show ?thesis by simp
    qed
  qed
  have p: "promoted_ok d'"
    using inv an(4) unfolding run_inv_def promoted_ok_def runs by fastforce
  have none: "run_log d (run_id r) = []"
    using inv fresh by (auto simp: run_inv_def keys_ok_def run_log_def filter_empty_conv)
  have only: "filter (\<lambda>e. ev_run_id e = Some j) xs = []" if "\<forall>e\<in>set xs. ev_run_id e = None" for j xs
    using that by (auto simp: filter_empty_conv)
  have a: "audit_ok d'"
    unfolding audit_ok_def
  proof
    fix s assume "s \<in> set (runs d')"
    then have "s = r \<or> (s \<in> set (runs d) \<and> run_id s \<noteq> run_id r)"
      using fresh by (cases "s = r") (auto simp: runs, metis image_eqI)
    then consider "s = r" | "s \<in> set (runs d)" "run_id s \<noteq> run_id r" by blast
    then show "live_in d' (run_analysis_id s) \<longrightarrow>
      replay_log (run_log d' (run_id s)) = Some (run_state s, run_row_version s)"
    proof cases
      case 1
      then have "run_log d' (run_id s) = [started_event k now r]"
        using none ev only by (simp add: run_log_def started_event_def)
      with 1 act v show ?thesis by (simp add: started_event_def)
    next
      case 2
      then have "run_log d' (run_id s) = run_log d (run_id s)"
        using ev only by (simp add: run_log_def started_event_def)
      moreover have "live_in d (run_analysis_id s)" if "live_in d' (run_analysis_id s)"
      proof -
        from that obtain a where a: "a \<in> set (analyses d')" "an_id a = run_analysis_id s"
          "an_lifecycle a = Live" by (auto simp: live_in_def)
        moreover have "an_id a \<in> an_id ` set (analyses d)"
          using inv 2 a by (simp add: run_inv_def keys_ok_def)
        ultimately show ?thesis using an(4) by (fastforce simp: live_in_def)
      qed
      ultimately show ?thesis using 2 inv by (simp add: run_inv_def audit_ok_def)
    qed
  qed
  from k o t p a idem show ?thesis by (simp add: run_inv_def)
qed

lemma run_allowed_active: "run_allowed s t \<Longrightarrow> active_state s"
  by (cases s) (auto simp: active_state_def)

lemma run_allowed_not_completed: "run_allowed s t \<Longrightarrow> s \<noteq> Completed"
  by (cases s) auto


text \<open>
  One run moved, its analysis followed, one event of the run was logged: what a
  transition commits, in the form the invariant needs.
\<close>

definition run_moved :: "db \<Rightarrow> run \<Rightarrow> run \<Rightarrow> db \<Rightarrow> bool" where
  "run_moved d r r' d' \<longleftrightarrow>
     r \<in> set (runs d)
     \<and> run_id r' = run_id r \<and> run_analysis_id r' = run_analysis_id r \<and> run_attempt r' = run_attempt r
     \<and> run_row_version r' = run_row_version r + 1
     \<and> runs d' = update_where (\<lambda>x. run_id x = run_id r) (\<lambda>_. r') (runs d)
     \<and> (\<exists>more k now reason. (\<forall>e\<in>set more. ev_run_id e = None)
          \<and> events d' = events d @ more @ [run_moved_event k now r' (run_state r) reason])
     \<and> map an_id (analyses d') = map an_id (analyses d)
     \<and> (\<forall>x\<in>set (analyses d'). \<exists>y\<in>set (analyses d). an_id y = an_id x
          \<and> an_lifecycle y = an_lifecycle x
          \<and> (an_promoted_run_id x = an_promoted_run_id y
             \<or> (run_state r' = Completed \<and> an_id x = run_analysis_id r
                \<and> an_promoted_run_id x = Some (run_id r))))
     \<and> map (\<lambda>x. (an_owner x, an_id x)) (analyses d') = map (\<lambda>x. (an_owner x, an_id x)) (analyses d)
     \<and> idem_records d' = idem_records d"

lemma same_run:
  "distinct (map run_id (runs d)) \<Longrightarrow> r \<in> set (runs d) \<Longrightarrow> s \<in> set (runs d) \<Longrightarrow>
     run_id s = run_id r \<Longrightarrow> s = r"
  by (metis distinct_map inj_onD)

lemma same_analysis:
  "distinct (map an_id (analyses d)) \<Longrightarrow> a \<in> set (analyses d) \<Longrightarrow> b \<in> set (analyses d) \<Longrightarrow>
     an_id b = an_id a \<Longrightarrow> b = a"
  by (metis distinct_map inj_onD)

lemma get_analysis_unique:
  "distinct (map an_id (analyses d)) \<Longrightarrow> a \<in> set (analyses d) \<Longrightarrow> an_id a = k \<Longrightarrow> get_analysis d k = Some a"
  unfolding get_analysis_def using analysis_tab.lookup_unique by fastforce

lemma transition_write_moved:
  assumes w: "transition_write u now k expected prev new reason d = Inr (res, d')"
    and keys: "keys_ok d"
  shows "\<exists>r. run_moved d r (advance_run new expected now r) d' \<and> run_id r = k \<and> run_state r = prev
    \<and> run_row_version r = expected \<and> res = \<lparr>tr_run_id = k, tr_state = new, tr_row_version = expected + 1\<rparr>"
proof -
  from w obtain r a more where
    r: "r \<in> set (runs d)" "run_id r = k" "run_row_version r = expected" "run_state r = prev" and
    a: "get_analysis d (run_analysis_id r) = Some a" and
    res: "res = \<lparr>tr_run_id = k, tr_state = new, tr_row_version = run_row_version (advance_run new expected now r)\<rparr>" and
    more: "\<forall>e\<in>set more. ev_run_id e = None \<and> ev_analysis_id e = an_id a" and
    d': "d' = d\<lparr>runs := update_where (\<lambda>x. run_id x = k) (\<lambda>_. advance_run new expected now r) (runs d),
        analyses := (if new \<in> {Processing, Completed, Failed, Cancelled}
          then update_where (\<lambda>x. an_id x = an_id a) (\<lambda>_. follow_run k new now a) (analyses d)
          else analyses d),
        events := events d @ more @ [run_moved_event (u 1) now (advance_run new expected now r) prev reason]\<rparr>"
    by (rule transition_write_shape)
  have aa: "a \<in> set (analyses d)" "an_id a = run_analysis_id r"
    using get_analysis_Some [OF a] by auto
  have same: "x = a" if "x \<in> set (analyses d)" "an_id x = an_id a" for x
    using same_analysis [of d a x] that aa keys by (simp add: keys_ok_def)
  have m: "map f (update_where (\<lambda>x. an_id x = an_id a) (\<lambda>_. follow_run k new now a) (analyses d))
      = map f (analyses d)" if "f (follow_run k new now a) = f a" for f :: "analysis \<Rightarrow> 'c"
  proof (rule map_update_where_on)
    fix x assume "x \<in> set (analyses d)" "an_id x = an_id a"
    then have "x = a" by (rule same)
    with that show "f (follow_run k new now a) = f x" by simp
  qed
  have "run_moved d r (advance_run new expected now r) d'"
    unfolding run_moved_def
  proof (intro conjI)
    show "\<exists>more k' now' reason'. (\<forall>e\<in>set more. ev_run_id e = None) \<and> events d' = events d @ more @
      [run_moved_event k' now' (advance_run new expected now r) (run_state r) reason']"
      using more r d' by (intro exI [of _ more] exI [of _ "u 1"] exI [of _ now] exI [of _ reason]) simp
    show "map an_id (analyses d') = map an_id (analyses d)"
      "map (\<lambda>x. (an_owner x, an_id x)) (analyses d') = map (\<lambda>x. (an_owner x, an_id x)) (analyses d)"
      by (simp_all add: d' m)
    show "\<forall>x\<in>set (analyses d'). \<exists>y\<in>set (analyses d). an_id y = an_id x \<and> an_lifecycle y = an_lifecycle x
      \<and> (an_promoted_run_id x = an_promoted_run_id y \<or> (run_state (advance_run new expected now r) = Completed \<and> an_id x = run_analysis_id r
                \<and> an_promoted_run_id x = Some (run_id r)))"
    proof
      fix x assume "x \<in> set (analyses d')"
      then consider "x \<in> set (analyses d)" | "x = follow_run k new now a"
        by (auto simp: d' in_update_where split: if_splits)
      then show "\<exists>y\<in>set (analyses d). an_id y = an_id x \<and> an_lifecycle y = an_lifecycle x
        \<and> (an_promoted_run_id x = an_promoted_run_id y \<or> (run_state (advance_run new expected now r) = Completed \<and> an_id x = run_analysis_id r
                \<and> an_promoted_run_id x = Some (run_id r)))"
        by cases (use aa r in auto)
    qed
  qed (use r d' in simp_all)
  with r res show ?thesis by auto
qed

lemma moved_cols:
  assumes "run_moved d r r' d'"
  shows "run_id r' = run_id r" "run_analysis_id r' = run_analysis_id r" "run_attempt r' = run_attempt r"
    "run_row_version r' = run_row_version r + 1"
  using assms by (simp_all add: run_moved_def)

lemma moved_rows:
  assumes "run_moved d r r' d'" and "keys_ok d"
  shows "s \<in> set (runs d') \<longleftrightarrow> s = r'
     \<or> (s \<in> set (runs d) \<and> run_id s \<noteq> run_id r)"
  using assms same_run [of d r] by (auto simp: run_moved_def in_update_where keys_ok_def)

lemma moved_map:
  assumes "run_moved d r r' d'" and "keys_ok d"
    and "f r' = f r"
  shows "map f (runs d') = map f (runs d)"
proof -
  have "map f (update_where (\<lambda>x. run_id x = run_id r) (\<lambda>_. r') (runs d))
    = map f (runs d)"
    by (rule map_update_where_on) (use assms same_run [of d r] in \<open>auto simp: run_moved_def keys_ok_def\<close>)
  with assms(1) show ?thesis by (simp add: run_moved_def)
qed

lemma moved_keys_ok:
  assumes m: "run_moved d r r' d'" and k: "keys_ok d"
  shows "keys_ok d'"
proof -
  have ids: "map run_id (runs d') = map run_id (runs d)" by (rule moved_map [OF m k]) (simp add: moved_cols [OF m])
  have aids: "map an_id (analyses d') = map an_id (analyses d)" using m by (simp add: run_moved_def)
  note im = arg_cong [OF ids, of set, simplified] arg_cong [OF aids, of set, simplified]
  have r: "r \<in> set (runs d)" using m by (simp add: run_moved_def)
  from m obtain more x now reason where "events d' = events d @ more @ [run_moved_event x now
      r' (run_state r) reason]" "\<forall>e\<in>set more. ev_run_id e = None"
    by (auto simp: run_moved_def)
  with k r have "\<forall>e\<in>set (events d'). \<forall>j. ev_run_id e = Some j \<longrightarrow> j \<in> run_id ` set (runs d)"
    by (auto simp: keys_ok_def run_moved_event_def moved_cols [OF m])
  moreover have "\<forall>s\<in>set (runs d'). run_analysis_id s \<in> an_id ` set (analyses d)"
    using moved_rows [OF m k] k r by (auto simp: keys_ok_def moved_cols [OF m])
  ultimately show ?thesis using k by (simp add: keys_ok_def ids aids im)
qed

lemma moved_one_active:
  assumes m: "run_moved d r r' d'" and k: "keys_ok d" and o: "one_active_run d"
    and ok: "run_allowed (run_state r) (run_state r')"
  shows "one_active_run d'"
  unfolding one_active_run_def
proof
  fix b
  have "at_most_one (active_run_of b)
    (update_where (\<lambda>x. run_id x = run_id r) (\<lambda>_. r') (runs d))"
  proof (rule at_most_one_update)
    show "at_most_one (active_run_of b) (runs d)" using o by (simp add: one_active_run_def)
    fix s assume "s \<in> set (runs d)" "run_id s = run_id r"
      "active_run_of b r'"
    moreover from this have "s = r"
      using same_run [of d r s] m k by (simp add: run_moved_def keys_ok_def)
    ultimately show "active_run_of b s"
      using ok moved_cols(2) [OF m] by (simp add: active_run_of_def run_allowed_active)
  qed
  then show "at_most_one (active_run_of b) (runs d')" using m by (simp add: run_moved_def)
qed

lemma moved_attempts_ok:
  assumes m: "run_moved d r r' d'" and k: "keys_ok d" and t: "attempts_ok d"
  shows "attempts_ok d'"
  unfolding attempts_ok_def
proof
  fix b
  have eq: "map (\<lambda>x. (run_analysis_id x, run_attempt x)) (runs d')
      = map (\<lambda>x. (run_analysis_id x, run_attempt x)) (runs d)"
    by (rule moved_map [OF m k]) (simp add: moved_cols [OF m])
  have pairs: "map run_attempt (filter (\<lambda>x. run_analysis_id x = b) xs)
      = map snd (filter (\<lambda>p. fst p = b) (map (\<lambda>x. (run_analysis_id x, run_attempt x)) xs))" for xs
    by (induction xs) auto
  have "map run_attempt (runs_of d' b) = map run_attempt (runs_of d b)"
    by (simp only: runs_of_def pairs eq)
  with t show "map run_attempt (runs_of d' b) = [1..int (length (runs_of d' b))]"
    unfolding attempts_ok_def by (metis length_map)
qed

lemma moved_promoted_ok:
  assumes m: "run_moved d r r' d'" and k: "keys_ok d" and p: "promoted_ok d"
    and ok: "run_allowed (run_state r) (run_state r')"
  shows "promoted_ok d'"
  unfolding promoted_ok_def
proof (intro ballI allI impI)
  fix x j assume x: "x \<in> set (analyses d')" "an_promoted_run_id x = Some j"
  from m x(1) obtain y where y: "y \<in> set (analyses d)" "an_id y = an_id x"
    "an_promoted_run_id x = an_promoted_run_id y
     \<or> (run_state r' = Completed \<and> an_id x = run_analysis_id r \<and> an_promoted_run_id x = Some (run_id r))"
    by (fastforce simp: run_moved_def)
  from y(3) show "\<exists>s\<in>set (runs d'). run_id s = j \<and> run_analysis_id s = an_id x \<and> run_state s = Completed"
  proof
    assume "an_promoted_run_id x = an_promoted_run_id y"
    with x y p obtain s where s: "s \<in> set (runs d)" "run_id s = j" "run_analysis_id s = an_id x"
      "run_state s = Completed" by (fastforce simp: promoted_ok_def)
    moreover have "run_id s \<noteq> run_id r"
      using s(1,4) ok same_run [of d r s] m k
      by (auto simp: run_moved_def keys_ok_def dest: run_allowed_not_completed)
    ultimately show ?thesis using moved_rows [OF m k] by blast
  next
    assume "run_state r' = Completed \<and> an_id x = run_analysis_id r \<and> an_promoted_run_id x = Some (run_id r)"
    with x(2) show ?thesis by (intro bexI [of _ r']) (auto simp: moved_rows [OF m k] moved_cols [OF m])
  qed
qed

lemma moved_audit_ok:
  assumes m: "run_moved d r r' d'" and k: "keys_ok d" and a: "audit_ok d"
    and ok: "run_allowed (run_state r) (run_state r')"
  shows "audit_ok d'"
  unfolding audit_ok_def
proof (intro ballI impI)
  fix s assume s: "s \<in> set (runs d')" "live_in d' (run_analysis_id s)"
  from m obtain more x now reason where ev: "events d' = events d @ more @ [run_moved_event x now r' (run_state r) reason]"
    and more: "\<forall>e\<in>set more. ev_run_id e = None" by (auto simp: run_moved_def)
  have more0: "filter (\<lambda>e. ev_run_id e = Some j) more = []" for j
    using more by (auto simp: filter_empty_conv)
  have live: "live_in d (run_analysis_id s)"
    using s(2) m unfolding live_in_def run_moved_def by metis
  from s(1) consider "s = r'" | "s \<in> set (runs d)" "run_id s \<noteq> run_id r"
    by (auto simp: moved_rows [OF m k])
  then show "replay_log (run_log d' (run_id s)) = Some (run_state s, run_row_version s)"
  proof cases
    case 1
    have old: "replay_log (run_log d (run_id r)) = Some (run_state r, run_row_version r)"
      using a live 1 m moved_cols [OF m] by (auto simp: run_moved_def audit_ok_def)
    moreover have "run_log d' (run_id r) = run_log d (run_id r) @ [run_moved_event x now r' (run_state r) reason]"
      by (simp add: run_log_def ev more0 run_moved_event_def moved_cols [OF m])
    moreover have "run_log d (run_id r) \<noteq> []" using old by auto
    ultimately show ?thesis
      using 1 ok by (simp add: replay_log_snoc run_moved_event_def moved_cols [OF m])
  next
    case 2
    then have "run_log d' (run_id s) = run_log d (run_id s)"
      by (simp add: run_log_def ev more0 run_moved_event_def moved_cols [OF m])
    with 2 a live show ?thesis by (simp add: audit_ok_def)
  qed
qed

lemma moved_idem_ok:
  assumes m: "run_moved d r r' d'" and i: "idem_ok d"
  shows "idem_ok d'"
proof -
  have "set (map (\<lambda>x. (an_owner x, an_id x)) (analyses d')) = set (map (\<lambda>x. (an_owner x, an_id x)) (analyses d))"
    using m by (simp only: run_moved_def)
  then have sub: "(an_owner x, an_id x) \<in> (\<lambda>x. (an_owner x, an_id x)) ` set (analyses d')"
    if "x \<in> set (analyses d)" for x
    using that by auto
  have up: "\<exists>y\<in>set (analyses d'). an_owner y = an_owner x \<and> an_id y = an_id x"
    if "x \<in> set (analyses d)" for x
    using sub [OF that] by (auto simp del: image_eqI)
  have same: "idem_records d' = idem_records d" using m by (simp add: run_moved_def)
  show ?thesis
    unfolding idem_ok_def same
  proof (intro conjI ballI)
    fix i assume i: "i \<in> set (idem_records d)"
    then show "idem_status i = IdemCompleted"
      "idem_scope i = ''run_start'' \<longrightarrow> (\<exists>k. idem_resource_id i = Some (uuid_text k))"
      using \<open>idem_ok d\<close> by (simp_all add: idem_ok_def)
    show "idem_scope i = ''analysis_upload'' \<longrightarrow> (\<exists>a\<in>set (analyses d'). an_owner a = idem_owner i
        \<and> idem_resource_id i = Some (an_id a))"
      using \<open>idem_ok d\<close> i up unfolding idem_ok_def by fastforce
  qed (use \<open>idem_ok d\<close> in \<open>simp add: idem_ok_def\<close>)
qed

lemma run_inv_moved: "run_inv d \<Longrightarrow> run_moved d r r' d' \<Longrightarrow> run_allowed (run_state r) (run_state r') \<Longrightarrow> run_inv d'"
  by (simp add: run_inv_def moved_keys_ok moved_one_active moved_attempts_ok moved_promoted_ok moved_audit_ok moved_idem_ok)

lemma run_inv_transition:
  assumes "run_inv d" and "transition_write u now k expected prev new reason d = Inr (res, d')"
    and "run_allowed prev new"
  shows "run_inv d'"
proof -
  from assms obtain r where "run_moved d r (advance_run new expected now r) d'" "run_state r = prev"
    using transition_write_moved by (metis run_inv_def)
  with assms show ?thesis by (intro run_inv_moved [of d r "advance_run new expected now r" d']) simp_all
qed

section \<open>What the run operations commit keeps the invariant\<close>

lemma idem_ok_insert:
  assumes "idem_ok d" and "insert_idem i d = Inr d'"
    and "idem_status i = IdemCompleted"
    and "idem_scope i = ''run_start'' \<Longrightarrow> \<exists>k. idem_resource_id i = Some (uuid_text k)"
    and "idem_scope i = ''analysis_upload'' \<Longrightarrow>
      \<exists>a\<in>set (analyses d). an_owner a = idem_owner i \<and> idem_resource_id i = Some (an_id a)"
  shows "idem_ok d'"
proof -
  have slots: "at_most_one (idem_slot u sc kh) (idem_records d @ [i])" for u sc kh
  proof (rule at_most_one_append1)
    show "at_most_one (idem_slot u sc kh) (idem_records d)" using assms(1) by (simp add: idem_ok_def)
    assume "idem_slot u sc kh i"
    then show "\<forall>s\<in>set (idem_records d). \<not> idem_slot u sc kh s"
      using insert_idem_fresh(2) [OF assms(2)] by (auto simp: idem_slot_def)
  qed
  show ?thesis
    using assms(1,3-5) slots unfolding idem_ok_def insert_idem_Inr [OF assms(2)] by auto
qed

lemma run_inv_insert_idem:
  assumes "run_inv d" and "insert_idem i d = Inr d'"
    and "idem_status i = IdemCompleted"
    and "idem_scope i = ''run_start'' \<Longrightarrow> \<exists>k. idem_resource_id i = Some (uuid_text k)"
    and "idem_scope i = ''analysis_upload'' \<Longrightarrow>
      \<exists>a\<in>set (analyses d). an_owner a = idem_owner i \<and> idem_resource_id i = Some (an_id a)"
  shows "run_inv d'"
proof -
  have "idem_ok d'" using assms idem_ok_insert by (auto simp: run_inv_def)
  then show ?thesis
    using assms(1) unfolding run_inv_def insert_idem_Inr [OF assms(2)]
    by (simp add: run_inv_defs runs_of_def run_log_def live_in_def)
qed

lemma idem_ok_cong:
  "idem_ok d \<Longrightarrow> idem_records d' = idem_records d \<Longrightarrow>
   (\<And>a. a \<in> set (analyses d) \<Longrightarrow> \<exists>b\<in>set (analyses d'). an_owner b = an_owner a \<and> an_id b = an_id a) \<Longrightarrow>
   idem_ok d'"
  unfolding idem_ok_def by (simp, metis)

lemma map_replace_analysis:
  assumes "keys_ok d" and "a \<in> set (analyses d)" and "g b = g a"
  shows "map g (update_where (\<lambda>x. an_id x = an_id a) (\<lambda>_. b) (analyses d)) = map g (analyses d)"
proof (rule map_update_where_on)
  fix x assume "x \<in> set (analyses d)" "an_id x = an_id a"
  then have "x = a" using same_analysis [of d a x] assms by (simp add: keys_ok_def)
  with assms(3) show "g b = g x" by simp
qed

lemma run_inv_start_write:
  assumes inv: "run_inv d" and w: "start_run_write svc u now rq d = Inr (res, d')"
    and st: "st_state rq \<in> {Queued, Processing}"
  shows "run_inv d'"
proof -
  from w obtain a r more where
    a: "get_analysis d (st_analysis_id rq) = Some a" and "an_owner a = st_owner rq" "an_lifecycle a = Live" and
    r: "r = new_run svc (u 1) now a (source_checksum d a) (st_state rq) (st_lease rq)
           (greatest run_attempt (runs_of d (an_id a)))" and
    "res = \<lparr>rr_run_id = run_id r, rr_created = True\<rparr>" and
    ins: "insert_run r d = Inr (d\<lparr>runs := runs d @ [r]\<rparr>)" and
    i: "insert_idem (in_progress_record svc (u 0) now (st_owner rq) ''run_start''
              (st_idempotency_key rq) (st_fingerprint rq)) d \<noteq> Inl IntegrityError" and
    more: "\<forall>e\<in>set more. ev_run_id e = None \<and> ev_analysis_id e = an_id a" and
    d': "d' = d\<lparr>runs := runs d @ [r],
        events := events d @ started_event (u 2) now r # more,
        analyses := (if st_state rq = Processing \<and> an_state a \<noteq> Processing
          then update_where (\<lambda>x. an_id x = an_id a) (\<lambda>_. mark_processing now a) (analyses d)
          else analyses d),
        idem_records := idem_records d @
          [(in_progress_record svc (u 0) now (st_owner rq) ''run_start''
              (st_idempotency_key rq) (st_fingerprint rq))
           \<lparr>idem_status := IdemCompleted, idem_resource_type := Some ''analysis_run'',
             idem_resource_id := Some (uuid_text (run_id r))\<rparr>]\<rparr>"
    by (rule start_run_write_shape)
  let ?i = "(in_progress_record svc (u 0) now (st_owner rq) ''run_start''
              (st_idempotency_key rq) (st_fingerprint rq))
           \<lparr>idem_status := IdemCompleted, idem_resource_type := Some ''analysis_run'',
             idem_resource_id := Some (uuid_text (run_id r))\<rparr>"
  have aa: "a \<in> set (analyses d)" "an_id a = st_analysis_id rq" using get_analysis_Some [OF a] by auto
  have idi: "insert_idem ?i d = Inr (d\<lparr>idem_records := idem_records d @ [?i]\<rparr>)"
    using i by (auto simp: insert_idem_def split: if_splits)
  have "idem_ok (d\<lparr>idem_records := idem_records d @ [?i]\<rparr>)"
    by (rule idem_ok_insert [OF _ idi]) (use inv in \<open>auto simp: run_inv_def in_progress_record_def\<close>)
  then have idem: "idem_ok d'"
  proof (rule idem_ok_cong)
    fix x assume "x \<in> set (analyses (d\<lparr>idem_records := idem_records d @ [?i]\<rparr>))"
    then have "(an_owner x, an_id x) \<in> set (map (\<lambda>x. (an_owner x, an_id x)) (analyses d))" by simp
    also have "map (\<lambda>x. (an_owner x, an_id x)) (analyses d)
        = map (\<lambda>x. (an_owner x, an_id x)) (analyses d')"
      using map_replace_analysis [OF _ aa(1), of "\<lambda>x. (an_owner x, an_id x)" "mark_processing now a"] inv
      by (simp add: d' run_inv_def)
    finally show "\<exists>b\<in>set (analyses d'). an_owner b = an_owner x \<and> an_id b = an_id x" by auto
  qed (simp add: d')
  have ids: "map an_id (analyses d') = map an_id (analyses d)"
    by (auto simp: d' update_where_def)
  show ?thesis
  proof (rule run_inv_new_run [OF inv, where r = r and k = "u 2" and now = now and before = "[]" and after = more])
    show "run_id r \<notin> run_id ` set (runs d)" by (rule insert_run_fresh(1) [OF ins])
    show "active_state (run_state r)" using st by (auto simp: r active_state_def)
    then show "\<forall>s\<in>set (runs d). \<not> active_run_of (run_analysis_id r) s"
      using insert_run_fresh(2) [OF ins] by blast
    show "distinct (map an_id (analyses d'))" using inv by (simp only: ids run_inv_def keys_ok_def)
    show "an_id ` set (analyses d) \<subseteq> an_id ` set (analyses d')"
      using arg_cong [OF ids, of set] by simp
    then show "run_analysis_id r \<in> an_id ` set (analyses d')" using aa unfolding r new_run_simps by blast
    show "\<forall>x\<in>set (analyses d'). (\<exists>b\<in>set (analyses d). an_id b = an_id x
           \<and> an_lifecycle b = an_lifecycle x \<and> an_promoted_run_id b = an_promoted_run_id x)
         \<or> (an_id x \<notin> an_id ` set (analyses d) \<and> an_promoted_run_id x = None)"
    proof
      fix x assume "x \<in> set (analyses d')"
      then have "x \<in> set (analyses d) \<or> x = mark_processing now a"
        by (auto simp: d' in_update_where split: if_splits)
      then show "(\<exists>b\<in>set (analyses d). an_id b = an_id x \<and> an_lifecycle b = an_lifecycle x
          \<and> an_promoted_run_id b = an_promoted_run_id x)
        \<or> (an_id x \<notin> an_id ` set (analyses d) \<and> an_promoted_run_id x = None)"
        using aa by auto
    qed
  qed (use more idem in \<open>simp_all add: d' r\<close>)
qed

lemma run_inv_start_recover:
  assumes "run_inv d" and "start_run_recover svc k now rq d = Inr (res, d')"
  shows "run_inv d'"
proof (cases "idem_lookup svc d (st_owner rq) ''run_start'' (st_idempotency_key rq)")
  case (Some rec)
  with assms show ?thesis by (auto simp: start_run_recover_def resultE_iffs)
next
  case None
  with assms(2) obtain r where "find (active_run_of (st_analysis_id rq)) (runs d) = Some r"
    by (auto simp: start_run_recover_def resultE_iffs split: option.splits)
  with None assms(2) have "insert_idem
        ((in_progress_record svc k now (st_owner rq) ''run_start'' (st_idempotency_key rq) (st_fingerprint rq))
                   \<lparr>idem_status := IdemCompleted, idem_resource_type := Some ''analysis_run'',
                    idem_resource_id := Some (uuid_text (run_id r))\<rparr>) d = Inr d'"
    by (auto simp: start_run_recover_def resultE_iffs)
  with assms(1) show ?thesis
    by (rule run_inv_insert_idem) (auto simp: in_progress_record_def)
qed

lemma run_inv_create_reservation:
  assumes inv: "run_inv d" and w: "create_reservation svc u now rq d = Inr (res, d')"
  shows "run_inv d'"
proof -
  from w obtain v a r ev rec where
    "v = pending_video (u 1) now rq" and a: "a = reserved_analysis (u 1) now rq" and
    r: "r = new_run svc (u 2) now a (Some (rq_checksum rq)) Processing None
           (greatest run_attempt (runs_of d (an_id a)))" and
    "insert_video v d = Inr (d\<lparr>videos := videos d @ [v]\<rparr>)" and
    fresh: "an_id a \<notin> an_id ` set (analyses d)" and
    ins: "insert_run r (d\<lparr>analyses := analyses d @ [a]\<rparr>)
       = Inr (d\<lparr>analyses := analyses d @ [a], runs := runs d @ [r]\<rparr>)" and
    ev: "ev_run_id ev = None \<and> ev_analysis_id ev = an_id a" and
    rec: "rec = (in_progress_record svc (u 0) now (rq_owner rq) ''analysis_upload''
              (rq_idempotency_key rq) (rq_fingerprint rq))
           \<lparr>idem_status := IdemCompleted, idem_resource_type := Some ''analysis'',
             idem_resource_id := Some (an_id a)\<rparr>" and
    idi: "insert_idem rec d = Inr (d\<lparr>idem_records := idem_records d @ [rec]\<rparr>)" and
    "res = \<lparr>res_analysis_id = an_id a, res_created = True, res_duplicate = None\<rparr>" and
    d': "d' = d\<lparr>videos := videos d @ [v], analyses := analyses d @ [a], runs := runs d @ [r],
        events := events d @ [ev, started_event (u 4) now r],
        idem_records := idem_records d @ [rec]\<rparr>"
    by (rule create_reservation_shape)
  have "idem_ok (d\<lparr>analyses := analyses d @ [a]\<rparr>)"
    using inv unfolding run_inv_def idem_ok_def by auto
  moreover have "insert_idem rec (d\<lparr>analyses := analyses d @ [a]\<rparr>)
      = Inr (d\<lparr>analyses := analyses d @ [a], idem_records := idem_records d @ [rec]\<rparr>)"
    using idi by (auto simp: insert_idem_def has_user_def get_user_def split: if_splits)
  ultimately have "idem_ok (d\<lparr>analyses := analyses d @ [a], idem_records := idem_records d @ [rec]\<rparr>)"
    by (rule idem_ok_insert) (auto simp: rec in_progress_record_def a reserved_analysis_def)
  then have idem: "idem_ok d'" by (rule idem_ok_cong) (auto simp: d')
  show ?thesis
  proof (rule run_inv_new_run [OF inv, where r = r and k = "u 4" and now = now and before = "[ev]" and after = "[]"])
    show "run_id r \<notin> run_id ` set (runs d)" using insert_run_fresh(1) [OF ins] by simp
    show act: "active_state (run_state r)" by (simp add: r active_state_def)
    then show "\<forall>s\<in>set (runs d). \<not> active_run_of (run_analysis_id r) s"
      using insert_run_fresh(2) [OF ins] by simp
    show "distinct (map an_id (analyses d'))" using inv fresh by (simp add: d' run_inv_def keys_ok_def)
  qed (use ev idem fresh in \<open>auto simp: d' r a reserved_analysis_def\<close>)
qed

lemma find_uploaded_video_Some:
  assumes "find_uploaded_video d owner cs sp = Some m"
  shows "\<exists>v\<in>set (videos d). \<exists>a\<in>set (analyses d). m = match_of (v, a)
    \<and> an_video_id a = vid_id v \<and> vid_owner v = owner
    \<and> an_owner a = owner \<and> vid_checksum v = Some cs \<and> an_sport a = sp \<and> an_lifecycle a = Live"
proof -
  from assms obtain v a where m: "m = match_of (v, a)" and
    "greatest (\<lambda>(v, a). (an_created_at a, an_id a))
         (filter (\<lambda>(v, a). vid_owner v = owner \<and> vid_checksum v = Some cs
                    \<and> an_owner a = owner \<and> an_sport a = sp \<and> an_lifecycle a = Live)
           (video_analysis_join d)) = Some (v, a)"
    unfolding find_uploaded_video_def by force
  from greatest_Some [OF this(2)] m show ?thesis
    unfolding video_analysis_join_def by (intro bexI [of _ v] bexI [of _ a]) auto
qed

lemma run_inv_reserve_write:
  assumes inv: "run_inv d" and w: "reserve_write svc isofmt u now rq d = Inr (res, d')"
  shows "run_inv d'"
proof (cases "if rq_allow_duplicate rq then None
            else find_uploaded_video d (rq_owner rq) (rq_checksum rq) (rq_sport rq)")
  case None
  with w have "create_reservation svc u now rq d = Inr (res, d')" by (simp add: reserve_write_def)
  with inv show ?thesis by (rule run_inv_create_reservation)
next
  case (Some m)
  then have "find_uploaded_video d (rq_owner rq) (rq_checksum rq) (rq_sport rq) = Some m"
    by (simp split: if_splits)
  from find_uploaded_video_Some [OF this] have
    "\<exists>a\<in>set (analyses d). an_owner a = rq_owner rq \<and> dup_analysis_id m = an_id a"
    by (auto simp: match_of_def)
  moreover from w Some have "insert_idem (duplicate_record svc (u 0) now rq isofmt m) d = Inr d'"
    by (auto simp: reserve_write_def resultE_iffs)
  ultimately show ?thesis
    by (intro run_inv_insert_idem [OF inv]) (auto simp: duplicate_record_def)
qed
end
