(* ===== verification/Run_Progress.thy ===== *)
theory Run_Progress
  imports Run_Invariant
begin

text \<open>
  How the rows of analyses and runs move: \<open>db_later d e\<close> says that every row of \<open>d\<close> is in
  \<open>e\<close>, unchanged or in a later version, and that no event and no idempotency record was lost.
  What the run operations commit is later in this sense.
\<close>

text \<open>
  What can happen to a run: nothing, or it was active and its version grew; its identity
  stays.
\<close>

definition run_later :: "run \<Rightarrow> run \<Rightarrow> bool" where
  "run_later r s \<longleftrightarrow> run_id s = run_id r \<and> run_analysis_id s = run_analysis_id r
     \<and> run_attempt s = run_attempt r
     \<and> (s = r \<or> (active_state (run_state r) \<and> run_row_version r < run_row_version s))"

definition analysis_later :: "analysis \<Rightarrow> analysis \<Rightarrow> bool" where
  "analysis_later a b \<longleftrightarrow> an_id b = an_id a \<and> an_owner b = an_owner a \<and> an_sport b = an_sport a
     \<and> an_lifecycle b = an_lifecycle a \<and> (b = a \<or> an_row_version a < an_row_version b)"

definition db_later :: "db \<Rightarrow> db \<Rightarrow> bool" where
  "db_later d e \<longleftrightarrow> (\<forall>r\<in>set (runs d). \<exists>s\<in>set (runs e). run_later r s)
     \<and> (\<forall>a\<in>set (analyses d). \<exists>b\<in>set (analyses e). analysis_later a b)
     \<and> set (idem_records d) \<subseteq> set (idem_records e)
     \<and> set (events d) \<subseteq> set (events e)"

lemma run_later_refl: "run_later r r" and analysis_later_refl: "analysis_later a a"
  by (simp_all add: run_later_def analysis_later_def)

lemma run_later_trans: "run_later r s \<Longrightarrow> run_later s t \<Longrightarrow> run_later r t"
  by (auto simp: run_later_def)

lemma analysis_later_trans: "analysis_later r s \<Longrightarrow> analysis_later s t \<Longrightarrow> analysis_later r t"
  by (auto simp: analysis_later_def)

lemma db_later_refl: "db_later d d"
  by (auto simp: db_later_def intro: run_later_refl analysis_later_refl)

lemma db_later_trans: "db_later d e \<Longrightarrow> db_later e f \<Longrightarrow> db_later d f"
  unfolding db_later_def by (meson run_later_trans analysis_later_trans subset_trans)

lemma start_write_later:
  assumes "start_run_write svc u now sq d = Inr (res, d')" and "keys_ok d"
  shows "db_later d d'"
  using assms(1)
proof (rule start_run_write_shape)
  fix a r more
  assume a: "get_analysis d (st_analysis_id sq) = Some a"
    and d': "d' = d\<lparr>runs := runs d @ [r],
        events := events d @ started_event (u 2) now r # more,
        analyses := (if st_state sq = Processing \<and> an_state a \<noteq> Processing
          then update_where (\<lambda>x. an_id x = an_id a) (\<lambda>_. mark_processing now a) (analyses d)
          else analyses d),
        idem_records := idem_records d @
          [(in_progress_record svc (u 0) now (st_owner sq) ''run_start''
              (st_idempotency_key sq) (st_fingerprint sq))
           \<lparr>idem_status := IdemCompleted, idem_resource_type := Some ''analysis_run'',
             idem_resource_id := Some (uuid_text (run_id r))\<rparr>]\<rparr>"
  have aa: "a \<in> set (analyses d)" using get_analysis_Some [OF a] by auto
  have "\<exists>b\<in>set (analyses d'). analysis_later x b" if x: "x \<in> set (analyses d)" for x
  proof (cases "x \<in> set (analyses d')")
    case True
    then show ?thesis by (blast intro: analysis_later_refl)
  next
    case False
    with x have id: "an_id x = an_id a" and upd: "analyses d' = update_where (\<lambda>x. an_id x = an_id a) (\<lambda>_. mark_processing now a) (analyses d)"
      by (auto simp: d' in_update_where split: if_splits)
    then have "x = a" using same_analysis [of d a x] aa x assms(2) by (simp add: keys_ok_def)
    moreover have "mark_processing now a \<in> set (analyses d')" using aa unfolding upd by (auto simp: in_update_where)
    moreover have "analysis_later a (mark_processing now a)" by (simp add: analysis_later_def mark_processing_def)
    ultimately show ?thesis by blast
  qed
  then show ?thesis
    unfolding db_later_def by (auto simp: d' intro: run_later_refl)
qed

lemma start_recover_later:
  assumes "start_run_recover svc k now sq d = Inr (res, d')"
  shows "db_later d d'"
  using assms
  by (auto simp: start_run_recover_def resultE_iffs db_later_def split: option.splits dest!: insert_idem_Inr
      intro: run_later_refl analysis_later_refl)

lemma reserve_write_later:
  assumes "reserve_write svc isofmt u now rq d = Inr (res, d')"
  shows "db_later d d'"
proof (cases "if rq_allow_duplicate rq then None
            else find_uploaded_video d (rq_owner rq) (rq_checksum rq) (rq_sport rq)")
  case None
  with assms have "create_reservation svc u now rq d = Inr (res, d')" by (simp add: reserve_write_def)
  then show ?thesis
    by (rule create_reservation_shape)
      (auto simp: db_later_def intro: run_later_refl analysis_later_refl)
next
  case (Some m)
  with assms have "insert_idem (duplicate_record svc (u 0) now rq isofmt m) d = Inr d'"
    by (auto simp: reserve_write_def resultE_iffs)
  then show ?thesis
    by (auto simp: db_later_def dest!: insert_idem_Inr intro: run_later_refl analysis_later_refl)
qed

lemma transition_write_later:
  assumes w: "transition_write u now k expected prev new reason d = Inr (res, d')"
    and ok: "run_allowed prev new" and keys: "keys_ok d"
  shows "db_later d d'"
  using w
proof (rule transition_write_shape)
  fix r a more
  assume r: "r \<in> set (runs d)" "run_id r = k" "run_row_version r = expected" "run_state r = prev"
    and a: "get_analysis d (run_analysis_id r) = Some a"
    and d': "d' = d\<lparr>runs := update_where (\<lambda>x. run_id x = k) (\<lambda>_. advance_run new expected now r) (runs d),
        analyses := (if new \<in> {Processing, Completed, Failed, Cancelled}
          then update_where (\<lambda>x. an_id x = an_id a) (\<lambda>_. follow_run k new now a) (analyses d)
          else analyses d),
        events := events d @ more @ [run_moved_event (u 1) now (advance_run new expected now r) prev reason]\<rparr>"
  have aa: "a \<in> set (analyses d)" using get_analysis_Some [OF a] by auto
  have "\<exists>b\<in>set (analyses d'). analysis_later x b" if x: "x \<in> set (analyses d)" for x
  proof (cases "x \<in> set (analyses d')")
    case True
    then show ?thesis by (blast intro: analysis_later_refl)
  next
    case False
    with x have id: "an_id x = an_id a" and upd: "analyses d' = update_where (\<lambda>x. an_id x = an_id a) (\<lambda>_. follow_run k new now a) (analyses d)"
      by (auto simp: d' in_update_where split: if_splits)
    then have "x = a" using same_analysis [of d a x] aa x keys by (simp add: keys_ok_def)
    moreover have "follow_run k new now a \<in> set (analyses d')" using aa unfolding upd by (auto simp: in_update_where)
    moreover have "analysis_later a (follow_run k new now a)" by (simp add: analysis_later_def)
    ultimately show ?thesis by blast
  qed
  moreover have "\<exists>s\<in>set (runs d'). run_later x s" if x: "x \<in> set (runs d)" for x
  proof (cases "run_id x = k")
    case True
    then have "x = r" using same_run [of d r x] r x keys by (simp add: keys_ok_def)
    moreover have "run_later r (advance_run new expected now r)"
      using r ok by (simp add: run_later_def run_allowed_active)
    moreover have "advance_run new expected now r \<in> set (runs d')"
      using r(1,2) by (force simp: d' in_update_where)
    ultimately show ?thesis by blast
  next
    case False
    then have "x \<in> set (runs d')" using x by (auto simp: d' in_update_where)
    then show ?thesis by (blast intro: run_later_refl)
  qed
  ultimately show ?thesis unfolding db_later_def by (auto simp: d')
qed

end
