(* ===== verification/Stage_Laws.thy ===== *)
theory Stage_Laws
  imports Stages Run_Laws
begin

text \<open>
  The lemmas about stages and artifacts: the stage machine, the invariants of the two
  tables (\<open>stage_inv\<close>, \<open>artifact_inv\<close>) and what a registration leaves.
\<close>

section \<open>The stage machine\<close>

fun stage_rank :: "state \<Rightarrow> nat" where
  "stage_rank Queued = 0"
| "stage_rank Processing = 1"
| "stage_rank _ = 2"

interpretation stage_machine: status_machine stage_allowed stage_rank 2
proof
  show "stage_rank s < stage_rank t" if "stage_allowed s t" for s t
    using that by (cases s; cases t) simp_all
  show "stage_rank s \<le> 2" for s by (cases s) simp_all
qed

lemma stage_allowed_active: "stage_allowed s t \<Longrightarrow> active_state s"
  by (cases s) (simp_all add: active_state_def)

definition stage_inv :: "db \<Rightarrow> bool" where
  "stage_inv d \<longleftrightarrow> distinct (map se_id (stages d))
     \<and> (\<forall>a ty. at_most_one (active_stage_of a ty) (stages d))
     \<and> (\<forall>a ty. map se_attempt (stages_of d a ty) = [1..int (length (stages_of d a ty))])
     \<and> (\<forall>s\<in>set (stages d). se_row_version s \<le> 1 + int (stage_rank (se_state s)))"

definition artifact_inv :: "db \<Rightarrow> bool" where
  "artifact_inv d \<longleftrightarrow> distinct (map art_id (artifacts d))
     \<and> (\<forall>a lk. at_most_one (current_logical_of a lk) (artifacts d))"

section \<open>Stages\<close>

lemma advance_stage_simps [simp]:
  "se_id (advance_stage new v now c s) = se_id s"
  "se_analysis_id (advance_stage new v now c s) = se_analysis_id s"
  "se_stage_type (advance_stage new v now c s) = se_stage_type s"
  "se_attempt (advance_stage new v now c s) = se_attempt s"
  "se_state (advance_stage new v now c s) = new"
  "se_row_version (advance_stage new v now c s) = v + 1"
  by (cases new; simp add: advance_stage_def Let_def)+

lemma new_stage_simps [simp]:
  "se_id (new_stage k now rq l) = k"
  "se_analysis_id (new_stage k now rq l) = sq_analysis_id rq"
  "se_stage_type (new_stage k now rq l) = sq_stage_type rq"
  "se_attempt (new_stage k now rq l) = (case l of None \<Rightarrow> 1 | Some x \<Rightarrow> se_attempt x + 1)"
  "se_state (new_stage k now rq l) = sq_state rq"
  "se_row_version (new_stage k now rq l) = 1"
  by (simp_all add: new_stage_def)

lemma start_stage_write_shape:
  assumes "start_stage_write k now rq d = Inr (res, d')"
  shows "d' = d \<or> (\<exists>s. s = new_stage k now rq (greatest se_attempt (stages_of d (sq_analysis_id rq) (sq_stage_type rq)))
    \<and> insert_stage s d = Inr d' \<and> d' = d\<lparr>stages := stages d @ [s]\<rparr>
    \<and> (\<forall>t\<in>set (stages d). \<not> active_stage_of (sq_analysis_id rq) (sq_stage_type rq) t))"
proof (cases "find (active_stage_of (sq_analysis_id rq) (sq_stage_type rq)) (stages d)")
  case None
  let ?s = "new_stage k now rq (greatest se_attempt (stages_of d (sq_analysis_id rq) (sq_stage_type rq)))"
  from assms None have "insert_stage ?s d = Inr d'"
    by (auto simp: start_stage_write_def bindE_def Let_def split: option.splits if_splits sum.splits)
  with None insert_stage_Inr [OF this] show ?thesis by (simp add: find_None_all)
next
  case (Some act)
  with assms have "d' = d"
    by (auto simp: start_stage_write_def bindE_def split: option.splits if_splits sum.splits)
  then show ?thesis ..
qed

text \<open>The attempts are numbered from one without gaps, so the next is the number of rows plus one.\<close>

lemma next_attempt:
  assumes "map f rs = [1..int (length rs)]"
  shows "(case greatest f rs of None \<Rightarrow> 1 | Some l \<Rightarrow> f l + 1) = int (length rs) + 1"
proof (cases "greatest f rs")
  case None
  then show ?thesis by simp
next
  case (Some l)
  from greatest_Some [OF Some] have "l \<in> set rs" and max: "\<forall>s\<in>set rs. f s \<le> f l" by auto
  then have "f l \<in> {1..int (length rs)}" using arg_cong [OF assms, of set] by (metis image_eqI set_map set_upto)
  moreover have "int (length rs) \<in> f ` set rs"
    using arg_cong [OF assms, of set] \<open>l \<in> set rs\<close> by (cases rs) auto
  ultimately show ?thesis using Some max by force
qed

lemma upto_snoc: "map f rs = [1..int (length rs)] \<Longrightarrow> f r = int (length rs) + 1 \<Longrightarrow>
    map f (rs @ [r]) = [1..int (length (rs @ [r]))]"
  by (simp add: upto_rec2)

lemma stage_inv_insert:
  assumes inv: "stage_inv d" and ins: "insert_stage s d = Inr d'" and d': "d' = d\<lparr>stages := stages d @ [s]\<rparr>"
    and att: "se_attempt s = int (length (stages_of d (se_analysis_id s) (se_stage_type s))) + 1"
    and v: "se_row_version s = 1"
  shows "stage_inv d'"
proof -
  have "at_most_one (active_stage_of a ty) (stages d @ [s])" for a ty
  proof (rule at_most_one_append1)
    show "at_most_one (active_stage_of a ty) (stages d)" using inv by (simp add: stage_inv_def)
    show "\<forall>t\<in>set (stages d). \<not> active_stage_of a ty t" if "active_stage_of a ty s"
      using ins that by (auto simp: insert_stage_def active_stage_of_def split: if_splits)
  qed
  moreover have "map se_attempt (stages_of d' a ty) = [1..int (length (stages_of d' a ty))]" for a ty
  proof (cases "se_analysis_id s = a \<and> se_stage_type s = ty")
    case True
    then have "stages_of d' a ty = stages_of d a ty @ [s]" by (simp add: d' stages_of_def)
    then show ?thesis using upto_snoc [of se_attempt "stages_of d a ty" s] inv att True
      by (simp add: stage_inv_def)
  next
    case False
    then have "stages_of d' a ty = stages_of d a ty" by (auto simp: d' stages_of_def)
    then show ?thesis using inv by (simp add: stage_inv_def)
  qed
  moreover have "distinct (map se_id (stages d'))"
    using stage_tab.distinct_insert [OF ins] inv by (simp add: stage_inv_def)
  moreover have "se_row_version s \<le> 1 + int (stage_rank (se_state s))" by (simp add: v)
  ultimately show ?thesis using inv by (auto simp: stage_inv_def d')
qed

lemma stage_inv_start:
  assumes "stage_inv d" and "start_stage_write k now rq d = Inr (res, d')"
  shows "stage_inv d'"
  using start_stage_write_shape [OF assms(2)]
proof
  assume "d' = d" then show ?thesis using assms(1) by simp
next
  assume "\<exists>s. s = new_stage k now rq (greatest se_attempt (stages_of d (sq_analysis_id rq) (sq_stage_type rq)))
    \<and> insert_stage s d = Inr d' \<and> d' = d\<lparr>stages := stages d @ [s]\<rparr>
    \<and> (\<forall>t\<in>set (stages d). \<not> active_stage_of (sq_analysis_id rq) (sq_stage_type rq) t)"
  then obtain s where s: "s = new_stage k now rq (greatest se_attempt (stages_of d (sq_analysis_id rq) (sq_stage_type rq)))"
    "insert_stage s d = Inr d'" "d' = d\<lparr>stages := stages d @ [s]\<rparr>" by blast
  show ?thesis
    by (rule stage_inv_insert [OF assms(1) s(2,3)])
      (use assms(1) s(1) next_attempt [of se_attempt "stages_of d (sq_analysis_id rq) (sq_stage_type rq)"]
        in \<open>simp_all add: stage_inv_def\<close>)
qed

lemma transition_stage_shape:
  assumes "transition_stage_write now k v prev new c d = Inr (res, d')"
  obtains s where "s \<in> set (stages d)" "se_id s = k" "se_row_version s = v" "se_state s = prev"
    "stages d' = stages (modify_stage k (\<lambda>_. advance_stage new v now c s) d)"
    "artifacts d' = (if new = Completed then update_where
        (superseded_by (modify_stage k (\<lambda>_. advance_stage new v now c s) d) (advance_stage new v now c s))
        (\<lambda>r. r\<lparr>art_is_current := False, art_updated_at := now\<rparr>) (artifacts d) else artifacts d)"
    "analyses d' = analyses d"
    "res = stage_result_of False (advance_stage new v now c s)"
proof -
  from assms obtain s where s: "find (\<lambda>s. se_id s = k \<and> se_row_version s = v \<and> se_state s = prev) (stages d) = Some s"
    by (auto simp: transition_stage_write_def split: option.splits)
  with assms find_Some_in [OF s] show ?thesis
    by (intro that [of s]) (auto simp: transition_stage_write_def Let_def modify_defs)
qed

lemma map_modify_stage:
  assumes "distinct (map se_id (stages d))" and "s \<in> set (stages d)" and "f s' = f s"
  shows "map f (stages (modify_stage (se_id s) (\<lambda>_. s') d)) = map f (stages d)"
proof -
  have "f s' = f x" if "x \<in> set (stages d)" "se_id x = se_id s" for x
  proof -
    have "x = s" using that assms(1,2) by (auto simp: distinct_map dest: inj_onD)
    with assms(3) show ?thesis by simp
  qed
  then show ?thesis by (simp add: modify_stage_def map_update_where_on)
qed

lemma stages_of_map:
  assumes "map (\<lambda>s. (se_analysis_id s, se_stage_type s, se_attempt s)) (stages d')
    = map (\<lambda>s. (se_analysis_id s, se_stage_type s, se_attempt s)) (stages d)"
  shows "map se_attempt (stages_of d' a ty) = map se_attempt (stages_of d a ty)"
proof -
  have "map se_attempt (filter (\<lambda>s. se_analysis_id s = a \<and> se_stage_type s = ty) rs)
      = map (snd \<circ> snd) (filter (\<lambda>(x, y, z). x = a \<and> y = ty)
          (map (\<lambda>s. (se_analysis_id s, se_stage_type s, se_attempt s)) rs))" for rs
    by (induction rs) auto
  from this [of "stages d'"] this [of "stages d"] show ?thesis unfolding stages_of_def assms by simp
qed

lemma stage_inv_transition:
  assumes inv: "stage_inv d" and w: "transition_stage_write now k v prev new c d = Inr (res, d')"
    and ok: "stage_allowed prev new"
  shows "stage_inv d'"
  using w
proof (rule transition_stage_shape)
  fix s
  assume s: "s \<in> set (stages d)" "se_id s = k" "se_row_version s = v" "se_state s = prev"
    and d': "stages d' = stages (modify_stage k (\<lambda>_. advance_stage new v now c s) d)"
  let ?s = "advance_stage new v now c s"
  have keys: "distinct (map se_id (stages d))" using inv by (simp add: stage_inv_def)
  have same: "x = s" if "x \<in> set (stages d)" "se_id x = k" for x
    using that s keys by (auto simp: distinct_map dest: inj_onD)
  have "map se_id (stages d') = map se_id (stages d)" using map_modify_stage [OF keys s(1), of se_id ?s] by (simp add: d' s(2))
  moreover have att: "map se_attempt (stages_of d' a ty) = map se_attempt (stages_of d a ty)" for a ty
    by (rule stages_of_map) (use map_modify_stage [OF keys s(1), of "\<lambda>s. (se_analysis_id s, se_stage_type s, se_attempt s)" ?s]
        in \<open>simp add: d' s(2)\<close>)
  moreover have "length (stages_of d' a ty) = length (stages_of d a ty)" for a ty
    using arg_cong [OF att [of a ty], of length] by simp
  moreover have "at_most_one (active_stage_of a ty) (stages d')" for a ty
  proof -
    have "active_stage_of a ty x" if "x \<in> set (stages d)" "se_id x = k" "active_stage_of a ty ?s" for x
      using that(3) same [OF that(1,2)] stage_allowed_active [OF ok] s(4) by (simp add: active_stage_of_def)
    moreover have "at_most_one (active_stage_of a ty) (stages d)" using inv by (simp add: stage_inv_def)
    ultimately show ?thesis
      unfolding d' modify_stage_def by (simp add: at_most_one_update)
  qed
  moreover have "se_row_version x \<le> 1 + int (stage_rank (se_state x))" if "x \<in> set (stages d')" for x
  proof (cases "x = ?s")
    case True
    have "v \<le> 1 + int (stage_rank prev)" using inv s by (auto simp: stage_inv_def)
    with stage_machine.allowed_rank [OF ok] True show ?thesis by simp
  next
    case False
    with that have "x \<in> set (stages d)" by (auto simp: d' modify_stage_def in_update_where split: if_splits)
    with inv show ?thesis by (simp add: stage_inv_def)
  qed
  ultimately show ?thesis using inv by (simp add: stage_inv_def)
qed


section \<open>Artifacts\<close>

lemma retire_frame [simp]:
  "stages (retire_artifact now c d) = stages d" "analyses (retire_artifact now c d) = analyses d"
  "runs (retire_artifact now c d) = runs d" "users (retire_artifact now c d) = users d"
  by (simp_all add: retire_artifact_def modify_artifacts_def)

lemma artifact_inv_update:
  assumes "artifact_inv d" and "artifacts d' = update_where p (\<lambda>r. r\<lparr>art_is_current := False, art_updated_at := now\<rparr>) (artifacts d)"
  shows "artifact_inv d'"
  using assms unfolding artifact_inv_def
  by (auto simp: map_update_where current_logical_of_def intro!: at_most_one_update)

lemma artifact_inv_insert:
  assumes "artifact_inv d" and "insert_artifact r d = Inr d'"
  shows "artifact_inv d'"
proof -
  have d': "artifacts d' = artifacts d @ [r]" using insert_artifact_Inr [OF assms(2)] by simp
  have "art_id r \<notin> art_id ` set (artifacts d)"
    using assms(2) by (auto simp: insert_artifact_def split: if_splits)
  moreover have "at_most_one (current_logical_of a lk) (artifacts d @ [r])" for a lk
    by (rule at_most_one_append1)
      (use assms in \<open>auto simp: artifact_inv_def insert_artifact_def current_logical_of_def split: if_splits\<close>)
  ultimately show ?thesis using assms(1) by (simp add: artifact_inv_def d')
qed

text \<open>What one registration leaves: the current artifact of its logical key is the one given.\<close>

definition holds_input :: "db \<Rightarrow> string \<Rightarrow> artifact_input \<Rightarrow> uuid \<Rightarrow> bool" where
  "holds_input d a x k \<longleftrightarrow> (\<exists>r\<in>set (artifacts d). art_id r = k
     \<and> current_logical_of a (input_key x) r \<and> registers x r)"

definition artifact_kept :: "artifact \<Rightarrow> artifact \<Rightarrow> bool" where
  "artifact_kept r s \<longleftrightarrow> s = r\<lparr>art_is_current := art_is_current s, art_updated_at := art_updated_at s\<rparr>
     \<and> (art_is_current s \<longrightarrow> art_is_current r)"

lemma find_at_most_one:
  assumes "at_most_one p rows" and "r \<in> set rows" and "p r"
  shows "find p rows = Some r"
proof (cases "find p rows")
  case None
  with assms show ?thesis by (auto simp: find_None_all)
next
  case (Some s)
  with assms find_Some_in [OF Some] show ?thesis by (metis at_most_one_eq)
qed

lemma register_one_cases:
  assumes "register_one k now owner a run st x d = Inr (k', d')"
  obtains c where "find (current_logical_of a (input_key x)) (artifacts d) = Some c" "registers x c" "k' = art_id c" "d' = d"
  | c where "find (current_logical_of a (input_key x)) (artifacts d) = Some c" "\<not> registers x c" "k' = k"
      "insert_artifact (new_artifact k now owner a run st x) (retire_artifact now c d) = Inr d'"
  | "find (current_logical_of a (input_key x)) (artifacts d) = None" "k' = k"
      "insert_artifact (new_artifact k now owner a run st x) d = Inr d'"
  using assms by (auto simp: register_one_def resultE_iffs split: option.splits if_splits)

lemma register_one_inv:
  assumes "artifact_inv d" and "register_one k now owner a run st x d = Inr (k', d')"
  shows "artifact_inv d'"
  using assms(2)
proof (cases rule: register_one_cases)
  case (2 c)
  have "artifact_inv (retire_artifact now c d)"
    by (rule artifact_inv_update [OF assms(1)]) (simp add: retire_artifact_def modify_artifacts_def)
  with 2 show ?thesis by (blast intro: artifact_inv_insert)
qed (use assms(1) in \<open>auto intro: artifact_inv_insert\<close>)

lemma new_artifact_holds: "insert_artifact (new_artifact k now owner a run st x) d = Inr d' \<Longrightarrow> holds_input d' a x k"
  by (auto simp: holds_input_def current_logical_of_def registers_def new_artifact_def dest!: insert_artifact_Inr)

lemma register_one_holds:
  assumes "register_one k now owner a run st x d = Inr (k', d')"
  shows "holds_input d' a x k'"
  using assms
proof (cases rule: register_one_cases)
  case (1 c)
  then show ?thesis using find_Some_in [OF 1(1)] by (auto simp: holds_input_def)
qed (auto intro: new_artifact_holds)

lemma register_one_other:
  assumes "register_one k now owner a run st x d = Inr (k', d')"
    and "holds_input d a y j" and "input_key y \<noteq> input_key x" and "artifact_inv d"
  shows "holds_input d' a y j"
  using assms(1)
proof (cases rule: register_one_cases)
  case (2 c)
  from find_Some_in [OF 2(1)] have c: "c \<in> set (artifacts d)" "current_logical_of a (input_key x) c" by auto
  from assms(2) obtain r where r: "r \<in> set (artifacts d)" "art_id r = j"
    "current_logical_of a (input_key y) r" "registers y r" by (auto simp: holds_input_def)
  have "art_id r \<noteq> art_id c"
  proof
    assume "art_id r = art_id c"
    with r(1) c(1) assms(4) have "r = c" by (auto simp: artifact_inv_def distinct_map dest: inj_onD)
    with r(3) c(2) assms(3) show False by (simp add: current_logical_of_def)
  qed
  then have "r \<in> set (artifacts (retire_artifact now c d))"
    using r(1) by (force simp: retire_artifact_def modify_artifacts_def in_update_where)
  with r insert_artifact_Inr [OF 2(4)] show ?thesis by (auto simp: holds_input_def)
qed (use assms(2) in \<open>auto simp: holds_input_def dest!: insert_artifact_Inr\<close>)

lemma register_artifacts_inv:
  "register_artifacts u now owner a run st xs d = Inr (ks, d') \<Longrightarrow> artifact_inv d \<Longrightarrow> artifact_inv d'"
proof (induction xs arbitrary: u ks d)
  case Nil
  then show ?case by simp
next
  case (Cons x xs)
  then obtain k ks' d1 where one: "register_one (u 0) now owner a run st x d = Inr (k, d1)"
    and rest: "register_artifacts (\<lambda>i. u (Suc i)) now owner a run st xs d1 = Inr (ks', d')"
    by (auto simp: resultE_iffs)
  show ?case by (rule Cons.IH [OF rest register_one_inv [OF Cons.prems(2) one]])
qed

lemma register_artifacts_other:
  "register_artifacts u now owner a run st xs d = Inr (ks, d') \<Longrightarrow> holds_input d a y j \<Longrightarrow>
     input_key y \<notin> input_key ` set xs \<Longrightarrow> artifact_inv d \<Longrightarrow> holds_input d' a y j"
proof (induction xs arbitrary: u ks d)
  case Nil
  then show ?case by simp
next
  case (Cons x xs)
  then obtain k ks' d1 where one: "register_one (u 0) now owner a run st x d = Inr (k, d1)"
    and rest: "register_artifacts (\<lambda>i. u (Suc i)) now owner a run st xs d1 = Inr (ks', d')"
    by (auto simp: resultE_iffs)
  from Cons.prems register_one_other [OF one] have "holds_input d1 a y j" by auto
  with Cons.prems Cons.IH [OF rest] register_one_inv [OF _ one] show ?case by simp
qed

lemma register_artifacts_holds:
  "register_artifacts u now owner a run st xs d = Inr (ks, d') \<Longrightarrow> distinct (map input_key xs) \<Longrightarrow>
     artifact_inv d \<Longrightarrow> list_all2 (holds_input d' a) xs ks"
proof (induction xs arbitrary: u ks d)
  case Nil
  then show ?case by simp
next
  case (Cons x xs)
  then obtain k ks' d1 where one: "register_one (u 0) now owner a run st x d = Inr (k, d1)"
    and rest: "register_artifacts (\<lambda>i. u (Suc i)) now owner a run st xs d1 = Inr (ks', d')"
    and ks: "ks = k # ks'"
    by (auto simp: resultE_iffs)
  have inv1: "artifact_inv d1" using register_one_inv [OF _ one] Cons.prems by simp
  have "holds_input d' a x k"
    using register_artifacts_other [OF rest register_one_holds [OF one] _ inv1] Cons.prems by auto
  with Cons.IH [OF rest _ inv1] Cons.prems ks show ?case by simp
qed

text \<open>Registering what is already registered changes nothing.\<close>

lemma register_artifacts_again:
  "list_all2 (holds_input d a) xs ks \<Longrightarrow> artifact_inv d \<Longrightarrow>
     register_artifacts u now owner a run st xs d = Inr (ks, d)"
proof (induction xs ks arbitrary: u rule: list_all2_induct)
  case Nil
  then show ?case by simp
next
  case (Cons x xs k ks)
  then obtain r where "r \<in> set (artifacts d)" "art_id r = k" "current_logical_of a (input_key x) r" "registers x r"
    by (auto simp: holds_input_def)
  moreover from this Cons.prems have "find (current_logical_of a (input_key x)) (artifacts d) = Some r"
    by (auto intro: find_at_most_one simp: artifact_inv_def)
  ultimately show ?case using Cons by (simp add: register_one_def)
qed

lemma register_artifacts_frame:
  "register_artifacts u now owner a run st xs d = Inr (ks, d') \<Longrightarrow>
     stages d' = stages d \<and> analyses d' = analyses d \<and> runs d' = runs d \<and> events d' = events d
     \<and> idem_records d' = idem_records d \<and> videos d' = videos d"
proof (induction xs arbitrary: u ks d)
  case Nil
  then show ?case by simp
next
  case (Cons x xs)
  then obtain k ks' d1 where one: "register_one (u 0) now owner a run st x d = Inr (k, d1)"
    and rest: "register_artifacts (\<lambda>i. u (Suc i)) now owner a run st xs d1 = Inr (ks', d')"
    by (auto simp: resultE_iffs)
  from one have "stages d1 = stages d \<and> analyses d1 = analyses d \<and> runs d1 = runs d \<and> events d1 = events d
      \<and> idem_records d1 = idem_records d \<and> videos d1 = videos d"
    by (cases rule: register_one_cases) (auto dest!: insert_artifact_Inr simp: retire_artifact_def modify_artifacts_def)
  with Cons.IH [OF rest] show ?case by simp
qed

text \<open>A current file after a registration was there before or is one of the inputs.\<close>

lemma register_artifacts_from:
  "register_artifacts u now owner a run st xs d = Inr (ks, d') \<Longrightarrow> r \<in> set (artifacts d') \<Longrightarrow> art_is_current r \<Longrightarrow>
     r \<in> set (artifacts d) \<or> art_logical_key r \<in> input_key ` set xs"
proof (induction xs arbitrary: u ks d)
  case Nil
  then show ?case by simp
next
  case (Cons x xs)
  then obtain k ks' d1 where one: "register_one (u 0) now owner a run st x d = Inr (k, d1)"
    and rest: "register_artifacts (\<lambda>i. u (Suc i)) now owner a run st xs d1 = Inr (ks', d')"
    by (auto simp: resultE_iffs)
  have "s \<in> set (artifacts d) \<or> art_logical_key s = input_key x" if "s \<in> set (artifacts d1)" "art_is_current s" for s
    using one that
    by (cases rule: register_one_cases)
      (auto dest!: insert_artifact_Inr simp: retire_artifact_def modify_artifacts_def in_update_where new_artifact_def split: if_splits)
  with Cons.IH [OF rest Cons.prems(2,3)] Cons.prems(3) show ?case by auto
qed

end
