(* ===== verification/Job_Laws.thy ===== *)
theory Job_Laws
  imports Jobs Run_Progress Stage_Laws
begin

text \<open>
  What \<open>persist_job\<close> commits: its parts one by one (\<open>persist_job_Inr\<close>), and that together
  they keep the invariant of runs and analyses and move rows only forward, unless the
  document ends a run that is still queued (\<open>skips_processing\<close>), which the transitions of
  a run do not allow.
\<close>

section \<open>The parts of a save\<close>

lemma text_at_Inr: "text_at p k = Inr t \<longleftrightarrow> p k = Some (JStr t)"
  by (auto simp: text_at_def split: option.splits json.splits)

lemma analysis_state_of_Inr: "analysis_state_of t = Inr st \<Longrightarrow> t = state_value st \<and> analysis_state_ok st"
  by (auto simp: analysis_state_of_def analysis_state_ok_def split: option.splits if_splits)

lemma persist_job_Inr:
  assumes "persist_job_body svc as_time u now j d = Inr (v, d')"
  obtains k a d0 st r d1 sg d2 d3 d4 ks d5 where
    "jb_payload j ''analysis_id'' = Some (JStr k)" "job_analysis svc as_time u now j k d = Inr (a, d0)"
    "payload_sport ValueError (jb_payload j) = Inr (an_sport a)"
    "case get_video d0 (an_video_id a) of None \<Rightarrow> True | Some v \<Rightarrow> vid_state v \<notin> {VDeleting, VDeleted}"
    "jb_payload j ''status'' = Some (JStr (state_value st))" "analysis_state_ok st"
    "job_run svc u now a st (invalidate k (jb_payload j) (an_job_payload a) now d0) = Inr (r, d1)"
    "jb_payload j ''current_stage'' = Some (JStr (stage_value sg))"
    "(if an_state a \<noteq> st
      then add_event (u 6) now (save_analysis st sg (jb_payload j) now a) (Some (an_state a)) st ''job_state_changed'' ''system'' None
        (modify_analysis k (\<lambda>_. save_analysis st sg (jb_payload j) now a) d1)
      else Inr (modify_analysis k (\<lambda>_. save_analysis st sg (jb_payload j) now a) d1)) = Inr d2"
    "follow_source (jb_payload j) (kept_artifacts (jb_payload j) (an_job_payload a) (jb_artifacts j)) now
      (save_analysis st sg (jb_payload j) now a) d2 = Inr d3"
    "close_run u now k st (jb_payload j) r d3 = Inr d4"
    "register_artifacts (\<lambda>i. u (9 + i)) now (jb_owner j) k (map_option run_id r) None
      (kept_artifacts (jb_payload j) (an_job_payload a) (jb_artifacts j)) d4 = Inr (ks, d5)"
    "persist_player_selection (u 8) now (jb_owner j) k r (jb_selection j) d5 = Inr d'"
    "v = an_row_version a + 1"
proof -
  have stage: "stage_of t = Inr sg \<Longrightarrow> t = stage_value sg" for t sg
    by (auto simp: stage_of_def split: option.splits if_splits)
  have version: "an_row_version (save_analysis st sg p now a) = an_row_version a + 1" for st sg p a
    by (simp add: save_analysis_def Let_def)
  from assms show ?thesis
    unfolding persist_job_body_def Let_def
    by (simp only: resultE_iffs split_paired_Ex prod.case text_at_Inr version sum.inject prod.inject)
      (elim exE conjE, drule analysis_state_of_Inr, drule stage, rule that, (assumption | simp)+)
qed

lemma save_analysis_simps [simp]:
  "an_id (save_analysis st sg p now a) = an_id a" "an_owner (save_analysis st sg p now a) = an_owner a"
  "an_lifecycle (save_analysis st sg p now a) = an_lifecycle a" "an_sport (save_analysis st sg p now a) = an_sport a"
  "an_promoted_run_id (save_analysis st sg p now a) = an_promoted_run_id a"
  "an_video_id (save_analysis st sg p now a) = an_video_id a" "an_job_payload (save_analysis st sg p now a) = p"
  "an_state (save_analysis st sg p now a) = st" "an_current_stage (save_analysis st sg p now a) = sg"
  "an_row_version (save_analysis st sg p now a) = an_row_version a + 1"
  by (simp_all add: save_analysis_def Let_def)

lemma finish_run_simps [simp]:
  "run_id (finish_run st p now r) = run_id r" "run_analysis_id (finish_run st p now r) = run_analysis_id r"
  "run_attempt (finish_run st p now r) = run_attempt r" "run_state (finish_run st p now r) = st"
  "run_row_version (finish_run st p now r) = run_row_version r + 1"
  by (simp_all add: finish_run_def Let_def)

text \<open>The tables of runs, analyses, events and idempotency records, in which the invariant is stated.\<close>

definition same_run_tables :: "db \<Rightarrow> db \<Rightarrow> bool" where
  "same_run_tables d e \<longleftrightarrow> runs e = runs d \<and> analyses e = analyses d \<and> events e = events d \<and> idem_records e = idem_records d"

lemma same_run_tables_inv: "same_run_tables d e \<Longrightarrow> run_inv d \<Longrightarrow> run_inv e"
  by (auto simp: same_run_tables_def intro: run_inv_frame)

lemma same_run_tables_later: "same_run_tables d e \<Longrightarrow> db_later d e"
  using db_later_refl [of d] by (simp add: same_run_tables_def db_later_def)

lemma invalidate_same: "same_run_tables d (invalidate k p old now d)"
  by (simp add: same_run_tables_def invalidate_def retire_rows_def modify_artifacts_def Let_def)

lemma follow_source_same: "follow_source p xs now a d = Inr d' \<Longrightarrow> same_run_tables d d'"
  by (auto simp: same_run_tables_def follow_source_def modify_video_def Let_def split: option.splits json.splits if_splits)

lemma register_same: "register_artifacts u now owner a run st xs d = Inr (ks, d') \<Longrightarrow> same_run_tables d d'"
  by (auto simp: same_run_tables_def dest!: register_artifacts_frame)

lemma selection_same: "persist_player_selection k now owner a r sel d = Inr d' \<Longrightarrow> same_run_tables d d'"
  by (auto simp: same_run_tables_def persist_player_selection_def retire_selection_def Let_def split: option.splits if_splits
      dest!: insert_selection_Inr)

section \<open>The row of the analysis\<close>

text \<open>An analysis imported: a new video, the row, its first run and their events.\<close>

lemma import_job_Inr:
  assumes "import_job svc as_time u now owner k p d = Inr (a, d')"
  obtains r ev where "an_id a = k" "an_owner a = owner" "an_lifecycle a = Live" "an_promoted_run_id a = None"
    "an_id a \<notin> an_id ` set (analyses d)" "run_state r = Processing" "run_analysis_id r = k" "run_row_version r = 1"
    "run_attempt r = (case greatest run_attempt (runs_of d k) of None \<Rightarrow> 1 | Some l \<Rightarrow> run_attempt l + 1)"
    "run_id r \<notin> run_id ` set (runs d)" "\<forall>s\<in>set (runs d). \<not> active_run_of k s" "ev_run_id ev = None"
    "analyses d' = analyses d @ [a]" "runs d' = runs d @ [r]" "events d' = events d @ [ev, started_event (u 3) now r]"
    "idem_records d' = idem_records d"
proof -
  from assms obtain d1 d2 d3 d4 r sp st sg created updated where
    v: "insert_video (import_video (u 0) now owner p) d = Inr d1" and
    a: "a = import_analysis k owner (u 0) sp st sg p created updated" "insert_analysis a d1 = Inr d2" and
    r: "insert_new_run svc (u 1) now a None Processing None d2 = Inr (r, d3)" and
    e: "add_event (u 2) now a None st ''legacy_imported'' ''development'' None d3 = Inr d4" and
    f: "add_run_event (u 3) now r None Processing ''run_started'' d4 = Inr d'"
    by (auto simp: import_job_def Let_def resultE_iffs)
  note rr = insert_new_run_Inr [OF r]
  have st: "run_state r = Processing" "run_analysis_id r = k" by (simp_all add: rr(1) a(1) import_analysis_def)
  obtain ev where ev: "ev_run_id ev = None" "d4 = d3\<lparr>events := events d3 @ [ev]\<rparr>" using add_event_Inr [OF e] by blast
  have d': "d' = d4\<lparr>events := events d4 @ [started_event (u 3) now r]\<rparr>" using add_run_event_Inr [OF f] st by simp
  note ds = d' ev(2) insert_run_Inr [OF rr(2)] insert_analysis_Inr [OF a(2)] insert_video_Inr [OF v]
  show ?thesis
  proof (rule that)
    show "an_id a \<notin> an_id ` set (analyses d)" using analysis_tab.key_fresh [OF a(2)] ds(5) by simp
    show "run_attempt r = (case greatest run_attempt (runs_of d k) of None \<Rightarrow> 1 | Some l \<Rightarrow> run_attempt l + 1)"
      by (simp add: rr(1) a(1) import_analysis_def runs_of_def ds(4,5))
    show "run_id r \<notin> run_id ` set (runs d)" using run_tab.key_fresh [OF rr(2)] ds(4,5) by simp
    show "\<forall>s\<in>set (runs d). \<not> active_run_of k s"
      using insert_run_fresh(2) [OF rr(2)] st ds(4,5) by (simp add: active_state_def)
  qed (use st ev(1) in \<open>simp_all add: a(1) import_analysis_def rr(1) ds\<close>)
qed

lemma run_inv_import:
  assumes inv: "run_inv d" and w: "import_job svc as_time u now owner k p d = Inr (a, d')"
  shows "run_inv d' \<and> db_later d d'"
  using w
proof (rule import_job_Inr)
  fix r ev
  assume a: "an_id a = k" "an_lifecycle a = Live" "an_promoted_run_id a = None" "an_id a \<notin> an_id ` set (analyses d)"
    and r: "run_state r = Processing" "run_analysis_id r = k" "run_row_version r = 1"
      "run_attempt r = (case greatest run_attempt (runs_of d k) of None \<Rightarrow> 1 | Some l \<Rightarrow> run_attempt l + 1)"
      "run_id r \<notin> run_id ` set (runs d)" "\<forall>s\<in>set (runs d). \<not> active_run_of k s" "ev_run_id ev = None"
    and d': "analyses d' = analyses d @ [a]" "runs d' = runs d @ [r]" "events d' = events d @ [ev, started_event (u 3) now r]"
      "idem_records d' = idem_records d"
  have "run_inv d'"
  proof (rule run_inv_new_run [OF inv, where r = r and k = "u 3" and now = now and before = "[ev]" and after = "[]"])
    show "idem_ok d'" using inv by (intro idem_ok_cong [of d d']) (auto simp: run_inv_def d')
    show "distinct (map an_id (analyses d'))" using inv a(4) by (simp add: d' run_inv_def keys_ok_def)
  qed (use a r d' in \<open>auto simp: active_state_def\<close>)
  moreover have "db_later d d'"
    unfolding db_later_def d' using run_later_refl analysis_later_refl by auto
  ultimately show ?thesis ..
qed

text \<open>The row a save works on, found or imported.\<close>

lemma job_analysis_ok:
  assumes inv: "run_inv d" and w: "job_analysis svc as_time u now j k d = Inr (a, d0)"
  shows "run_inv d0 \<and> db_later d d0 \<and> a \<in> set (analyses d0) \<and> an_id a = k \<and> an_owner a = jb_owner j \<and> an_lifecycle a = Live"
proof (cases "get_analysis d k")
  case None
  with w have i: "import_job svc as_time u now (jb_owner j) k (jb_payload j) d = Inr (a, d0)"
    by (auto simp: job_analysis_def split: if_splits)
  with run_inv_import [OF inv i] show ?thesis by (auto elim: import_job_Inr)
next
  case (Some b)
  with w inv show ?thesis
    using get_analysis_Some [OF Some]
    by (auto simp: job_analysis_def resultE_iffs owned_analysis_def db_later_refl split: if_splits)
qed

text \<open>Replacing it, and logging an event of the analysis.\<close>

lemma run_inv_replace:
  assumes inv: "run_inv d" and a: "a \<in> set (analyses d)" "an_id a = k"
    and b: "an_id b = k" "an_owner b = an_owner a" "an_lifecycle b = an_lifecycle a" "an_promoted_run_id b = an_promoted_run_id a"
  shows "run_inv (modify_analysis k (\<lambda>_. b) d)"
proof -
  let ?d = "modify_analysis k (\<lambda>_. b) d"
  have keys: "keys_ok d" using inv by (simp add: run_inv_def)
  have same: "map f (analyses ?d) = map f (analyses d)" if "f b = f a" for f :: "analysis \<Rightarrow> 'x"
    using map_replace_analysis [OF keys a(1) that] a(2) by (simp add: modify_analysis_def)
  have rows: "x = b \<or> x \<in> set (analyses d)" if "x \<in> set (analyses ?d)" for x
    using that by (auto simp: modify_analysis_def in_update_where split: if_splits)
  have frame: "runs ?d = runs d" "events ?d = events d" "idem_records ?d = idem_records d" by (simp_all add: modify_analysis_def)
  have ids: "map an_id (analyses ?d) = map an_id (analyses d)" using a b by (intro same) simp
  have im: "an_id ` set (analyses ?d) = an_id ` set (analyses d)" using ids by (metis list.set_map)
  have "keys_ok ?d" using keys by (simp add: keys_ok_def frame ids im)
  moreover have "promoted_ok ?d"
    unfolding promoted_ok_def frame
  proof
    fix x assume "x \<in> set (analyses ?d)"
    with rows have "x = b \<or> x \<in> set (analyses d)" by blast
    then show "\<forall>j. an_promoted_run_id x = Some j \<longrightarrow>
        (\<exists>r\<in>set (runs d). run_id r = j \<and> run_analysis_id r = an_id x \<and> run_state r = Completed)"
      using inv a b by (auto simp: run_inv_def promoted_ok_def)
  qed
  moreover have "live_in d c" if "live_in ?d c" for c
    using that rows a b unfolding live_in_def by metis
  then have "audit_ok ?d" using inv by (simp add: run_inv_def audit_ok_def run_log_def frame)
  moreover have "idem_ok ?d"
  proof (rule idem_ok_cong [of d])
    fix x assume "x \<in> set (analyses d)"
    then have "(an_owner x, an_id x) \<in> set (map (\<lambda>x. (an_owner x, an_id x)) (analyses ?d))"
      using same [of "\<lambda>x. (an_owner x, an_id x)"] a b by simp
    then show "\<exists>y\<in>set (analyses ?d). an_owner y = an_owner x \<and> an_id y = an_id x" by auto
  qed (use inv frame in \<open>simp_all add: run_inv_def\<close>)
  ultimately show ?thesis using inv by (simp add: run_inv_def one_active_run_def attempts_ok_def runs_of_def frame)
qed

lemma run_inv_log_analysis:
  assumes "run_inv d" and "add_event k now a p n ty actor reason d = Inr d'"
  shows "run_inv d'"
proof -
  obtain e where e: "ev_run_id e = None" "d' = d\<lparr>events := events d @ [e]\<rparr>" using add_event_Inr [OF assms(2)] by blast
  with assms(1) show ?thesis
    by (simp add: run_inv_defs runs_of_def run_log_def live_in_def)
qed

section \<open>The run\<close>

text \<open>The run a document is about is the active one, if there is one.\<close>

lemma active_or_latest:
  assumes "one_active_run d"
  shows "case active_or_latest_run d k of None \<Rightarrow> runs_of d k = []
    | Some x \<Rightarrow> x \<in> set (runs d) \<and> run_analysis_id x = k \<and> (\<forall>s\<in>set (runs d). active_run_of k s \<longrightarrow> s = x)"
proof (cases "active_or_latest_run d k")
  case None
  then show ?thesis by (simp add: active_or_latest_run_def)
next
  case (Some x)
  from greatest_Some [OF this [unfolded active_or_latest_run_def]]
  have x: "x \<in> set (runs d)" "run_analysis_id x = k"
    and max: "\<And>s. s \<in> set (runs_of d k) \<Longrightarrow> (active_state (run_state s), run_attempt s) \<le> (active_state (run_state x), run_attempt x)"
    by (auto simp: runs_of_def)
  have "s = x" if "s \<in> set (runs d)" "active_run_of k s" for s
  proof (rule at_most_one_eq [of "active_run_of k" "runs d"])
    show "at_most_one (active_run_of k) (runs d)" using assms by (simp add: one_active_run_def)
    from that max [of s] have "active_state (run_state x)" by (auto simp: runs_of_def active_run_of_def less_eq_prod_def)
    with x show "active_run_of k x" by (simp add: active_run_of_def)
  qed (use that x in simp_all)
  with Some x show ?thesis by simp
qed

definition run_found :: "db \<Rightarrow> string \<Rightarrow> run option \<Rightarrow> bool" where
  "run_found d k r \<longleftrightarrow> (case r of None \<Rightarrow> runs_of d k = []
     | Some x \<Rightarrow> x \<in> set (runs d) \<and> run_analysis_id x = k \<and> (\<forall>s\<in>set (runs d). active_run_of k s \<longrightarrow> s = x))"

lemma job_run_ok:
  assumes inv: "run_inv d" and a: "a \<in> set (analyses d)" "an_id a = k" and w: "job_run svc u now a st d = Inr (r, d1)"
  shows "run_inv d1 \<and> db_later d d1 \<and> analyses d1 = analyses d \<and> videos d1 = videos d \<and> run_found d1 k r
    \<and> (st = Processing \<longrightarrow> (\<exists>x. r = Some x \<and> active_state (run_state x)))
    \<and> (st \<noteq> Processing \<longrightarrow> d1 = d \<and> r = active_or_latest_run d k)"
proof -
  let ?l = "active_or_latest_run d k"
  have found: "run_found d k ?l"
    using active_or_latest [of d k] inv by (simp add: run_inv_def run_found_def)
  show ?thesis
  proof (cases "st = Processing \<and> (case ?l of None \<Rightarrow> True | Some r \<Rightarrow> \<not> active_state (run_state r))")
    case False
    with w a have "r = ?l" "d1 = d" by (auto simp: job_run_def Let_def)
    with inv found False show ?thesis by (auto simp: db_later_refl split: option.splits)
  next
    case True
    with w a obtain x d2 where n: "insert_new_run svc (u 4) now a (source_checksum d a) Processing None d = Inr (x, d2)"
      "add_run_event (u 5) now x None Processing ''run_started'' d2 = Inr d1" "r = Some x"
      by (auto simp: job_run_def Let_def resultE_iffs)
    note nn = insert_new_run_Inr [OF n(1)]
    have x: "run_state x = Processing" "run_analysis_id x = k" "run_row_version x = 1" by (simp_all add: nn(1) a(2))
    note d2 = insert_run_Inr [OF nn(2)]
    have d1: "d1 = d2\<lparr>events := events d2 @ [started_event (u 5) now x]\<rparr>" using add_run_event_Inr [OF n(2)] x by simp
    have none: "\<forall>s\<in>set (runs d). \<not> active_run_of k s"
      using insert_run_fresh(2) [OF nn(2)] x by (simp add: active_state_def)
    have "run_inv d1"
    proof (rule run_inv_new_run [OF inv, where r = x and k = "u 5" and now = now and before = "[]" and after = "[]"])
      show "idem_ok d1" using inv by (intro idem_ok_cong [of d d1]) (auto simp: run_inv_def d1 d2)
      show "run_id x \<notin> run_id ` set (runs d)" by (rule run_tab.key_fresh [OF nn(2)])
      show "run_attempt x = (case greatest run_attempt (runs_of d (run_analysis_id x)) of None \<Rightarrow> 1 | Some l \<Rightarrow> run_attempt l + 1)"
        by (simp add: nn(1))
    qed (use inv a x none in \<open>auto simp: d1 d2 active_state_def run_inv_def keys_ok_def\<close>)
    moreover have "db_later d d1"
      unfolding db_later_def d1 d2 using run_later_refl analysis_later_refl by auto
    moreover have "run_found d1 k r" using n(3) x none by (auto simp: run_found_def d1 d2)
    ultimately show ?thesis using True n(3) x by (simp add: d1 d2 active_state_def)
  qed
qed

text \<open>Closing the run a document ends.\<close>

lemma close_run_cases:
  assumes "close_run u now k st p r d = Inr d'"
  obtains "d' = d" "\<And>x. r = Some x \<Longrightarrow> st \<in> {Completed, Failed} \<Longrightarrow> \<not> active_state (run_state x)"
  | x where "r = Some x" "st \<in> {Completed, Failed}" "active_state (run_state x)"
    "d' = d\<lparr>runs := update_where (\<lambda>y. run_id y = run_id x) (\<lambda>_. finish_run st p now x) (runs d),
      analyses := (if st = Completed then update_where (\<lambda>a. an_id a = k) (\<lambda>a. a\<lparr>an_promoted_run_id := Some (run_id x)\<rparr>) (analyses d)
        else analyses d),
      events := events d @ [run_moved_event (u 7) now (finish_run st p now x) (run_state x) None]\<rparr>"
proof (cases "\<exists>x. r = Some x \<and> st \<in> {Completed, Failed} \<and> active_state (run_state x)")
  case False
  with assms show ?thesis by (intro that(1)) (auto simp: close_run_def split: option.splits if_splits)
next
  case True
  then obtain x where x: "r = Some x" "st \<in> {Completed, Failed}" "active_state (run_state x)" by blast
  have e: "add_run_event (u 7) now (finish_run st p now x) (Some (run_state x)) st (''run_'' @ state_value st)
      = insert_event (run_moved_event (u 7) now (finish_run st p now x) (run_state x) None)"
    by (simp add: add_run_event_def run_moved_event_def)
  let ?d = "let d = modify_run (run_id x) (\<lambda>_. finish_run st p now x) d in
    if st = Completed then modify_analysis k (\<lambda>a. a\<lparr>an_promoted_run_id := Some (run_id x)\<rparr>) d else d"
  have "insert_event (run_moved_event (u 7) now (finish_run st p now x) (run_state x) None) ?d = Inr d'"
    using assms x(3) x(2) unfolding x(1) close_run_def option.case Let_def e by (simp only: simp_thms if_True)
  from insert_event_Inr [OF this] show ?thesis
    by (intro that(2) [OF x]) (simp add: Let_def modify_run_def modify_analysis_def)
qed

section \<open>A save\<close>

text \<open>The row is replaced, the change logged and the video updated: no run moves.\<close>

lemma saved_row:
  assumes inv: "run_inv d" and a: "a \<in> set (analyses d)" "an_id a = k" and b: "b = save_analysis st sg p now a"
    and e: "(if an_state a \<noteq> st then add_event i now b (Some (an_state a)) st ty actor None (modify_analysis k (\<lambda>_. b) d)
      else Inr (modify_analysis k (\<lambda>_. b) d)) = Inr d2"
    and f: "follow_source p xs now b d2 = Inr d3"
  shows "run_inv d3 \<and> runs d3 = runs d \<and> idem_records d3 = idem_records d \<and> set (events d) \<subseteq> set (events d3)
    \<and> analyses d3 = update_where (\<lambda>x. an_id x = k) (\<lambda>_. b) (analyses d)"
proof -
  let ?m = "modify_analysis k (\<lambda>_. b) d"
  have m: "run_inv ?m" using a by (intro run_inv_replace [OF inv a]) (simp_all add: b)
  have d2: "run_inv d2 \<and> runs d2 = runs ?m \<and> analyses d2 = analyses ?m \<and> idem_records d2 = idem_records ?m
      \<and> set (events ?m) \<subseteq> set (events d2)"
  proof (cases "an_state a = st")
    case True
    with e m show ?thesis by simp
  next
    case False
    with e have l: "add_event i now b (Some (an_state a)) st ty actor None ?m = Inr d2" by simp
    from run_inv_log_analysis [OF m l] add_event_Inr [OF l] show ?thesis by auto
  qed
  moreover have "run_inv d3" using same_run_tables_inv [OF follow_source_same [OF f]] d2 by blast
  ultimately show ?thesis using follow_source_same [OF f] by (auto simp: same_run_tables_def modify_analysis_def)
qed

lemma save_moves:
  assumes inv: "run_inv d" and a: "a \<in> set (analyses d)" "an_id a = k" and b: "b = save_analysis st sg p now a"
    and e: "(if an_state a \<noteq> st then add_event i now b (Some (an_state a)) st ty actor None (modify_analysis k (\<lambda>_. b) d)
      else Inr (modify_analysis k (\<lambda>_. b) d)) = Inr d2"
    and f: "follow_source p xs now b d2 = Inr d3" and c: "close_run u now k st p r d3 = Inr d4" and r: "run_found d k r"
    and ok: "\<And>x. r = Some x \<Longrightarrow> st \<in> {Completed, Failed} \<Longrightarrow> run_state x \<noteq> Queued"
  shows "run_inv d4 \<and> db_later d d4"
proof -
  note s = saved_row [OF inv a b e f]
  have only: "y = a" if "y \<in> set (analyses d)" "an_id y = k" for y
    using same_analysis [of d a y] inv a that by (simp add: run_inv_def keys_ok_def)
  \<comment> \<open>the rows, whatever the promotion writes\<close>
  have rows: "\<exists>z\<in>set (update_where (\<lambda>x. an_id x = k) g (analyses d3)). analysis_later y z"
    if y: "y \<in> set (analyses d)" and g: "analysis_later a (g b)" for y g
  proof (cases "an_id y = k")
    case True
    then have "y = a" using only y by blast
    moreover have "b \<in> set (analyses d3)" using s a by (auto simp: in_update_where)
    then have "g b \<in> set (update_where (\<lambda>x. an_id x = k) g (analyses d3))"
      unfolding in_update_where using a(2) b by (intro bexI [of _ b]) simp_all
    ultimately show ?thesis using g by blast
  next
    case False
    then have "y \<in> set (update_where (\<lambda>x. an_id x = k) g (analyses d3))" using s y by (force simp: in_update_where)
    then show ?thesis using analysis_later_refl by blast
  qed
  from c show ?thesis
  proof (rule close_run_cases)
    assume d4: "d4 = d3"
    have "analyses d3 = update_where (\<lambda>x. an_id x = k) (\<lambda>z. z) (analyses d3)" by (simp add: update_where_def)
    with rows [of _ "\<lambda>z. z"] have "\<forall>y\<in>set (analyses d). \<exists>z\<in>set (analyses d3). analysis_later y z"
      using a b by (simp add: analysis_later_def)
    with s run_later_refl show ?thesis unfolding d4 db_later_def by auto
  next
    fix x
    let ?x = "finish_run st p now x"
    assume x: "r = Some x" "st \<in> {Completed, Failed}" "active_state (run_state x)"
      and d4: "d4 = d3\<lparr>runs := update_where (\<lambda>y. run_id y = run_id x) (\<lambda>_. ?x) (runs d3),
        analyses := (if st = Completed then update_where (\<lambda>a. an_id a = k) (\<lambda>a. a\<lparr>an_promoted_run_id := Some (run_id x)\<rparr>) (analyses d3)
          else analyses d3),
        events := events d3 @ [run_moved_event (u 7) now ?x (run_state x) None]\<rparr>"
    from r x(1) have xin: "x \<in> set (runs d)" "run_analysis_id x = k" by (simp_all add: run_found_def)
    have "run_state x = Processing" using ok [OF x(1,2)] x(3) by (auto simp: active_state_def)
    with x(2) have allowed: "run_allowed (run_state x) (run_state ?x)" by auto
    let ?g = "\<lambda>a. if st = Completed then a\<lparr>an_promoted_run_id := Some (run_id x)\<rparr> else a"
    have an: "analyses d4 = update_where (\<lambda>a. an_id a = k) ?g (analyses d3)"
      by (cases "st = Completed") (simp_all add: d4 update_where_def)
    have "run_moved d3 x ?x d4"
      unfolding run_moved_def
    proof (intro conjI)
      show "\<exists>more l now' reason. (\<forall>e\<in>set more. ev_run_id e = None)
          \<and> events d4 = events d3 @ more @ [run_moved_event l now' ?x (run_state x) reason]"
        by (intro exI [of _ "[]"] exI [of _ "u 7"] exI [of _ now] exI [of _ None]) (simp add: d4)
      show "map an_id (analyses d4) = map an_id (analyses d3)"
        "map (\<lambda>x. (an_owner x, an_id x)) (analyses d4) = map (\<lambda>x. (an_owner x, an_id x)) (analyses d3)"
        unfolding an by (rule map_update_where, simp)+
      show "\<forall>y\<in>set (analyses d4). \<exists>z\<in>set (analyses d3). an_id z = an_id y \<and> an_lifecycle z = an_lifecycle y
          \<and> (an_promoted_run_id y = an_promoted_run_id z
             \<or> (run_state ?x = Completed \<and> an_id y = run_analysis_id x \<and> an_promoted_run_id y = Some (run_id x)))"
      proof
        fix y assume "y \<in> set (analyses d4)"
        then obtain z where z: "z \<in> set (analyses d3)" "y = (if an_id z = k then ?g z else z)"
          unfolding an in_update_where by blast
        show "\<exists>z\<in>set (analyses d3). an_id z = an_id y \<and> an_lifecycle z = an_lifecycle y
          \<and> (an_promoted_run_id y = an_promoted_run_id z
             \<or> (run_state ?x = Completed \<and> an_id y = run_analysis_id x \<and> an_promoted_run_id y = Some (run_id x)))"
          using z(1) by (intro bexI [of _ z]) (simp_all add: z(2) xin(2))
      qed
    qed (use s xin in \<open>simp_all add: d4\<close>)
    with s allowed have "run_inv d4" by (blast intro: run_inv_moved)
    moreover have "\<forall>y\<in>set (runs d). \<exists>z\<in>set (runs d4). run_later y z"
    proof
      fix y assume y: "y \<in> set (runs d)"
      show "\<exists>z\<in>set (runs d4). run_later y z"
      proof (cases "run_id y = run_id x")
        case True
        then have "y = x" using same_run [of d x y] inv y xin by (simp add: run_inv_def keys_ok_def)
        moreover have "?x \<in> set (runs d4)" using s xin by (force simp: d4 in_update_where)
        moreover have "run_later x ?x" using x(3) by (simp add: run_later_def)
        ultimately show ?thesis by blast
      next
        case False
        then have "y \<in> set (runs d4)" using s y by (force simp: d4 in_update_where)
        then show ?thesis using run_later_refl by blast
      qed
    qed
    moreover have "\<forall>y\<in>set (analyses d). \<exists>z\<in>set (analyses d4). analysis_later y z"
      using rows [of _ ?g] a b unfolding an by (simp add: analysis_later_def)
    ultimately show ?thesis using s unfolding db_later_def by (auto simp: d4)
  qed
qed

text \<open>
  A document that says an analysis ended while its run is still queued: \<open>persist_job\<close> ends
  the run from there, a transition \<open>transition_run\<close> refuses.
\<close>

definition skips_processing :: "job_input \<Rightarrow> db \<Rightarrow> bool" where
  "skips_processing j d \<longleftrightarrow>
     (\<exists>r\<in>set (runs d). run_state r = Queued \<and> jb_payload j ''analysis_id'' = Some (JStr (run_analysis_id r)))
     \<and> (\<exists>st\<in>{Completed, Failed}. jb_payload j ''status'' = Some (JStr (state_value st)))"

lemma persist_job_moves:
  assumes inv: "run_inv d" and ok: "\<not> skips_processing j d"
  shows "run_inv (snd (persist_job svc as_time u now j d)) \<and> db_later d (snd (persist_job svc as_time u now j d))"
proof (cases "persist_job_body svc as_time u now j d")
  case (Inl e)
  with inv show ?thesis by (simp add: persist_job_def transact_def db_later_refl)
next
  case (Inr vd)
  then obtain v d' where w: "persist_job_body svc as_time u now j d = Inr (v, d')" by (cases vd) simp
  have "run_inv d' \<and> db_later d d'"
    using w
  proof (rule persist_job_Inr)
    fix k and a :: analysis and d0 st r d1 sg d2 d3 d4 ks d5
    let ?p = "jb_payload j" and ?i = "invalidate k (jb_payload j) (an_job_payload a) now d0"
      and ?xs = "kept_artifacts (jb_payload j) (an_job_payload a) (jb_artifacts j)"
    let ?b = "save_analysis st sg ?p now a"
    assume k: "?p ''analysis_id'' = Some (JStr k)" and a: "job_analysis svc as_time u now j k d = Inr (a, d0)"
      and st: "?p ''status'' = Some (JStr (state_value st))" and r: "job_run svc u now a st ?i = Inr (r, d1)"
      and e: "(if an_state a \<noteq> st
        then add_event (u 6) now ?b (Some (an_state a)) st ''job_state_changed'' ''system'' None (modify_analysis k (\<lambda>_. ?b) d1)
        else Inr (modify_analysis k (\<lambda>_. ?b) d1)) = Inr d2"
      and f: "follow_source ?p ?xs now ?b d2 = Inr d3" and c: "close_run u now k st ?p r d3 = Inr d4"
      and g: "register_artifacts (\<lambda>i. u (9 + i)) now (jb_owner j) k (map_option run_id r) None ?xs d4 = Inr (ks, d5)"
      and h: "persist_player_selection (u 8) now (jb_owner j) k r (jb_selection j) d5 = Inr d'"
    note a0 = job_analysis_ok [OF inv a] and i0 = invalidate_same [of d0 k ?p "an_job_payload a" now]
    have i1: "run_inv ?i" "db_later d0 ?i" "a \<in> set (analyses ?i)" "an_id a = k"
      using a0 same_run_tables_inv [OF i0] same_run_tables_later [OF i0] i0 by (simp_all add: same_run_tables_def)
    note r1 = job_run_ok [OF i1(1,3,4) r]
    have queued: "run_state x \<noteq> Queued" if x: "r = Some x" "st \<in> {Completed, Failed}" for x
    proof
      assume q: "run_state x = Queued"
      from x(1) r1 have xr: "x \<in> set (runs d1)" "run_analysis_id x = k" by (simp_all add: run_found_def)
      from x(2) r1 i0 xr have "x \<in> set (runs d0)" by (auto simp: same_run_tables_def)
      with a have "x \<in> set (runs d)"
        using q by (auto simp: job_analysis_def resultE_iffs elim!: import_job_Inr split: option.splits if_splits)
      with q xr(2) k st x(2) ok show False unfolding skips_processing_def by blast
    qed
    have a1: "a \<in> set (analyses d1)" using i1 r1 by simp
    note m = save_moves [OF r1 [THEN conjunct1] a1 i1(4) refl e f c _ queued]
    show "run_inv d' \<and> db_later d d'"
      using m r1 i1 a0 same_run_tables_inv [OF selection_same [OF h]] same_run_tables_later [OF selection_same [OF h]]
        same_run_tables_inv [OF register_same [OF g]] same_run_tables_later [OF register_same [OF g]]
      by (meson db_later_trans)
  qed
  with w show ?thesis by (simp add: persist_job_def transact_def)
qed

end
