(* ===== verification/Run_Evolution.thy ===== *)
theory Run_Evolution
  imports Job_Laws
begin

text \<open>
  Every interleaving of the run operations. \<open>evolves svc d0 d\<close>: from \<open>d0\<close> the
  operations and the saves of job documents (those that do not skip a run's processing) can
  lead to \<open>d\<close>, where the transactions that commit at a synchronization
  hook of an operation (its \<open>env\<close> and \<open>gap\<close>) are again such operations, and the rest
  of the system may do anything that leaves runs, analyses, events and idempotency
  records alone. The invariant holds throughout (\<open>evolves_run_inv\<close>), and rows only move
  forward (\<open>evolves_later\<close>).
\<close>

inductive evolves :: "service \<Rightarrow> db \<Rightarrow> db \<Rightarrow> bool" for svc :: service where
  same: "evolves svc d d"
| reserve: "evolves svc d0 d \<Longrightarrow> evolves svc d (env d) \<Longrightarrow> evolves svc (env d) (gap (env d)) \<Longrightarrow>
    evolves svc d0 (snd (reserve_analysis svc isofmt env gap u now rq d))"
| start: "evolves svc d0 d \<Longrightarrow> evolves svc d (env d) \<Longrightarrow> evolves svc (env d) (gap (env d)) \<Longrightarrow>
    evolves svc d0 (snd (start_run svc env gap u now sq d))"
| transition: "evolves svc d0 d \<Longrightarrow> evolves svc d (env d) \<Longrightarrow>
    evolves svc d0 (snd (transition_run env u now owner k expected new reason d))"
| save: "evolves svc d0 d \<Longrightarrow> \<not> skips_processing j d \<Longrightarrow>
    evolves svc d0 (snd (persist_job svc as_time u now j d))"
| elsewhere: "evolves svc d0 d \<Longrightarrow> runs d' = runs d \<Longrightarrow> analyses d' = analyses d \<Longrightarrow>
    events d' = events d \<Longrightarrow> idem_records d' = idem_records d \<Longrightarrow> evolves svc d0 d'"

section \<open>What one operation leaves\<close>

text \<open>The three possible databases after an operation.\<close>

lemma reserve_cases:
  "snd (reserve_analysis svc isofmt env gap u now rq d) \<in> {d, env d, gap (env d)}
   \<or> (\<exists>res. reserve_write svc isofmt u now rq (env d)
        = Inr (res, snd (reserve_analysis svc isofmt env gap u now rq d)))"
  by (auto simp: reserve_analysis_def Let_def split: option.splits sum.splits prod.splits)

lemma start_cases:
  "snd (start_run svc env gap u now sq d) \<in> {d, env d, gap (env d)}
   \<or> (\<exists>res. st_state sq \<in> {Queued, Processing} \<and> start_run_write svc u now sq (env d)
        = Inr (res, snd (start_run svc env gap u now sq d)))
   \<or> (\<exists>res. start_run_recover svc (u 4) now sq (gap (env d))
        = Inr (res, snd (start_run svc env gap u now sq d)))"
  by (auto simp: start_run_def Let_def transact_def split: option.splits sum.splits prod.splits)

lemma transition_cases:
  "snd (transition_run env u now owner k expected new reason d) \<in> {d, env d}
   \<or> (\<exists>prev res. run_allowed prev new \<and> transition_write u now k expected prev new reason (env d)
        = Inr (res, snd (transition_run env u now owner k expected new reason d)))"
  by (auto simp: transition_run_def Let_def transact_def split: option.splits sum.splits prod.splits)

theorem evolves_run_inv: "evolves svc d0 d \<Longrightarrow> run_inv d0 \<Longrightarrow> run_inv d"
proof (induction rule: evolves.induct)
  case (same d)
  then show ?case .
next
  case (reserve d0 d env gap isofmt u now rq)
  then show ?case
    using reserve_cases [of svc isofmt env gap u now rq d] by (auto intro: run_inv_reserve_write)
next
  case (start d0 d env gap u now sq)
  then show ?case
    using start_cases [of svc env gap u now sq d]
    by (auto intro: run_inv_start_write run_inv_start_recover)
next
  case (transition d0 d env u now owner k expected new reason)
  then show ?case
    using transition_cases [of env u now owner k expected new reason d]
    by (auto intro: run_inv_transition)
next
  case (save d0 d j as_time u now)
  then show ?case by (blast dest: persist_job_moves)
next
  case (elsewhere d0 d d')
  then show ?case by (blast intro: run_inv_frame)
qed

section \<open>Progress\<close>

lemma evolves_later:
  "evolves svc d0 d \<Longrightarrow> run_inv d0 \<Longrightarrow> db_later d0 d"
proof (induction rule: evolves.induct)
  case (same d)
  show ?case by (rule db_later_refl)
next
  case (reserve d0 d env gap isofmt u now rq)
  from reserve have "run_inv d" "run_inv (env d)" by (blast intro: evolves_run_inv)+
  with reserve show ?case
    using reserve_cases [of svc isofmt env gap u now rq d]
    by (auto intro: db_later_trans dest: reserve_write_later)
next
  case (start d0 d env gap u now sq)
  from start have inv: "run_inv d" "run_inv (env d)" by (blast intro: evolves_run_inv)+
  then have "keys_ok (env d)" by (simp add: run_inv_def)
  with start inv show ?case
    using start_cases [of svc env gap u now sq d]
    by (auto intro: db_later_trans dest: start_write_later start_recover_later)
next
  case (transition d0 d env u now owner k expected new reason)
  from transition have inv: "run_inv d" "run_inv (env d)" by (blast intro: evolves_run_inv)+
  then have "keys_ok (env d)" by (simp add: run_inv_def)
  with transition inv show ?case
    using transition_cases [of env u now owner k expected new reason d]
    by (auto intro: db_later_trans dest: transition_write_later)
next
  case (save d0 d j as_time u now)
  then have "run_inv d" by (blast intro: evolves_run_inv)
  from persist_job_moves [OF this save.hyps(2)] save.IH [OF save.prems] show ?case
    by (blast intro: db_later_trans)
next
  case (elsewhere d0 d d')
  then show ?case by (simp add: db_later_def)
qed

end
