(* ===== verification/Run_Demo.thy ===== *)
theory Run_Demo
  imports Run_Evolution
begin

text \<open>
  A concrete history the properties of the runs are applied to: one user reserves an
  analysis, sees its run fail and starts it again; a second user owns nothing. The
  databases it goes through are evaluated once (\<open>demo_reserved_eq\<close>,
  \<open>demo_failed_eq\<close>, \<open>demo_started_eq\<close>).
\<close>

section \<open>The calls\<close>

definition demo_service :: service where
  "demo_service = (let sha = (\<lambda>s. replicate 64 (if s = ''key-2'' then CHR ''b''
       else if s = ''key-3'' then CHR ''c'' else CHR ''a'')) in
     \<lparr>svc_sha256 = sha, svc_provenance = default_provenance sha\<rparr>)"

definition demo_user :: "uuid \<Rightarrow> string \<Rightarrow> user" where
  "demo_user k email = \<lparr>usr_id = k, usr_email = email, usr_password_hash = ''x'',
     usr_account_status = Active, usr_created_at = 0, usr_updated_at = 0, usr_last_login_at = None,
     usr_email_verified_at = None, usr_password_changed_at = None, usr_display_name = None\<rparr>"

definition demo_db :: db where
  "demo_db = empty_db\<lparr>users := [demo_user 1 ''a@b.c'', demo_user 2 ''d@e.f'']\<rparr>"

definition demo_reserve :: reserve_request where
  "demo_reserve = \<lparr>rq_owner = 1, rq_analysis_id = ''an-1'', rq_idempotency_key = ''key-1'',
     rq_fingerprint = replicate 64 CHR ''c'', rq_filename = ''m.mp4'', rq_content_type = None,
     rq_size = 10, rq_checksum = replicate 64 CHR ''d'', rq_payload = Map.empty,
     rq_allow_duplicate = False, rq_sport = Pickleball\<rparr>"

definition demo_ids :: "uuid \<Rightarrow> nat \<Rightarrow> uuid" where
  "demo_ids k i = k + of_nat i"

definition demo_start :: "string \<Rightarrow> start_request" where
  "demo_start key = \<lparr>st_owner = 1, st_analysis_id = ''an-1'', st_idempotency_key = key,
     st_fingerprint = replicate 64 CHR ''e'', st_state = Processing, st_lease = Some 100\<rparr>"

definition demo_iso :: "time \<Rightarrow> string" where
  "demo_iso t = []"

definition demo_reserved :: "(error + reservation) \<times> db" where
  "demo_reserved = reserve_analysis demo_service demo_iso id id (demo_ids 10) 5 demo_reserve demo_db"

definition demo_failed :: "(error + transition_result) \<times> db" where
  "demo_failed = transition_run id (demo_ids 20) 6 1 12 1 Failed None (snd demo_reserved)"

definition demo_started :: "(error + run_result) \<times> db" where
  "demo_started = start_run demo_service id id (demo_ids 30) 7 (demo_start ''key-3'') (snd demo_failed)"

section \<open>The databases\<close>

definition demo_analysis :: analysis where "demo_analysis = reserved_analysis 11 5 demo_reserve"
definition demo_run :: run where
  "demo_run = new_run demo_service 12 5 demo_analysis (Some (replicate 64 CHR ''d'')) Processing None None"
definition demo_db1 :: db where
  "demo_db1 = demo_db\<lparr>videos := [pending_video 11 5 demo_reserve], analyses := [demo_analysis], runs := [demo_run],
     events := [\<lparr>ev_id = 13, ev_subject = SubjectAnalysis, ev_analysis_id = ''an-1'', ev_run_id = None,
        ev_previous = None, ev_new = Processing, ev_type = ''analysis_created'', ev_reason = None, ev_actor = ''development'',
        ev_row_version = 1, ev_created_at = 5\<rparr>, started_event 14 5 demo_run],
     idem_records := [(in_progress_record demo_service 10 5 1 ''analysis_upload'' ''key-1'' (replicate 64 CHR ''c''))
        \<lparr>idem_status := IdemCompleted, idem_resource_type := Some ''analysis'', idem_resource_id := Some ''an-1''\<rparr>]\<rparr>"


lemma demo_service_simps [simp]:
  "hex64 (svc_sha256 demo_service s)"
  "pv_schema_version (svc_provenance demo_service) = 1"
  "hex64 (replicate 64 CHR ''c'')" "hex64 (replicate 64 CHR ''d'')" "hex64 (replicate 64 CHR ''e'')"
  by (simp_all del: replicate.simps add: demo_service_def Let_def hex64_replicate hex_digits_def default_provenance_def)

lemma new_run_checks [simp]:
  "run_fingerprint (new_run svc k now a cs st lease l) = run_fingerprint_of svc (an_sport a)"
  "run_source_checksum (new_run svc k now a cs st lease l) = cs"
  "run_schema_version (new_run svc k now a cs st lease l) = pv_schema_version (svc_provenance svc)"
  by (simp_all add: new_run_def)

lemmas demo_defs = Let_def demo_db_def empty_db_def idem_lookup_def demo_reserve_def insert_defs
  in_progress_record_def has_user_def get_user_def demo_user_def demo_ids_def pending_video_def
  reserved_analysis_def insert_new_run_def runs_of_def add_event_def add_run_event_def
  get_video_def get_analysis_def demo_run_def started_event_def demo_analysis_def
  complete_record_def modify_idem_def update_where_def hex64_or_null_def fk_null_or_def get_run_def
  run_fingerprint_of_def
  run_state_ok_def analysis_state_ok_def demo_db1_def


lemma demo_reserved_eq:
  "demo_reserved = (Inr \<lparr>res_analysis_id = ''an-1'', res_created = True, res_duplicate = None\<rparr>, demo_db1)"
  unfolding demo_reserved_def reserve_analysis_def
  by (simp del: replicate.simps add: demo_defs reserve_write_def find_uploaded_video_def
     video_analysis_join_def create_reservation_def)

definition demo_db2 :: db where
  "demo_db2 = demo_db1\<lparr>analyses := [follow_run 12 Failed 6 demo_analysis],
     runs := [advance_run Failed 1 6 demo_run],
     events := events demo_db1 @ [\<lparr>ev_id = 20, ev_subject = SubjectAnalysis, ev_analysis_id = ''an-1'', ev_run_id = None,
        ev_previous = Some Processing, ev_new = Failed, ev_type = ''run_failed'', ev_reason = None, ev_actor = ''system'',
        ev_row_version = 2, ev_created_at = 6\<rparr>, run_moved_event 21 6 (advance_run Failed 1 6 demo_run) Processing None]\<rparr>"

lemma demo_failed_eq:
  "demo_failed = (Inr \<lparr>tr_run_id = 12, tr_state = Failed, tr_row_version = 2\<rparr>, demo_db2)"
  unfolding demo_failed_def transition_run_def
  by (simp del: replicate.simps add: demo_reserved_eq demo_defs demo_db2_def owned_run_def transition_write_def transact_def
    modify_run_def modify_analysis_def run_moved_event_def)

definition demo_run2 :: run where
  "demo_run2 = new_run demo_service 31 7 (follow_run 12 Failed 6 demo_analysis)
     (Some (replicate 64 CHR ''d'')) Processing (Some 100) (Some (advance_run Failed 1 6 demo_run))"

definition demo_db3 :: db where
  "demo_db3 = demo_db2\<lparr>runs := runs demo_db2 @ [demo_run2],
     analyses := [mark_processing 7 (follow_run 12 Failed 6 demo_analysis)],
     events := events demo_db2 @ [started_event 32 7 demo_run2,
       \<lparr>ev_id = 33, ev_subject = SubjectAnalysis, ev_analysis_id = ''an-1'', ev_run_id = None,
        ev_previous = Some Failed, ev_new = Processing, ev_type = ''run_started'', ev_reason = None, ev_actor = ''system'',
        ev_row_version = 3, ev_created_at = 7\<rparr>],
     idem_records := idem_records demo_db2 @ [(in_progress_record demo_service 30 7 1 ''run_start'' ''key-3'' (replicate 64 CHR ''e''))
        \<lparr>idem_status := IdemCompleted, idem_resource_type := Some ''analysis_run'', idem_resource_id := Some (uuid_text 31)\<rparr>]\<rparr>"

lemma demo_started_eq:
  "demo_started = (Inr \<lparr>rr_run_id = 31, rr_created = True\<rparr>, demo_db3)"
  unfolding demo_started_def start_run_def
  by (simp del: replicate.simps add: demo_failed_eq demo_defs demo_db2_def demo_db3_def owned_analysis_def start_run_write_def
    modify_run_def modify_analysis_def run_moved_event_def demo_start_def idem_slot_def source_checksum_def active_state_def active_run_of_def
    mark_processing_def demo_run2_def)

section \<open>Reachability\<close>

lemma demo_reserved_reachable: "evolves demo_service empty_db (snd demo_reserved)"
proof -
  have "evolves demo_service empty_db demo_db"
    by (rule evolves.elsewhere [OF evolves.same]) (simp_all add: demo_db_def)
  then show ?thesis unfolding demo_reserved_def by (rule evolves.reserve) (simp_all add: evolves.same)
qed

lemma demo_failed_later: "evolves demo_service d (snd demo_reserved) \<Longrightarrow> evolves demo_service d (snd demo_failed)"
  unfolding demo_failed_def by (rule evolves.transition) (simp_all add: evolves.same)

lemma demo_started_later: "evolves demo_service d (snd demo_failed) \<Longrightarrow> evolves demo_service d (snd demo_started)"
  unfolding demo_started_def by (rule evolves.start) (simp_all add: evolves.same)

lemmas demo_reachable = demo_reserved_reachable
  demo_failed_later [OF demo_reserved_reachable]
  demo_started_later [OF demo_failed_later [OF demo_reserved_reachable]]

end
