(* ===== verification/Run_Properties.thy ===== *)
theory Run_Properties
  imports Run_Demo
begin

text \<open>
  The correctness properties of reserving analyses and of starting and moving runs, each
  under every interleaving the \<open>evolves\<close> relation of \<open>Run_Evolution\<close> allows. Each is
  applied to the databases of \<open>Run_Demo\<close>.
\<close>

section \<open>Lemmas the properties share\<close>

lemma lookup_slot:
  assumes "idem_ok d" and "i \<in> set (idem_records d)" and "idem_slot owner scope (svc_sha256 svc key) i"
  shows "idem_lookup svc d owner scope key = Some i"
proof -
  have one: "at_most_one (idem_slot owner scope (svc_sha256 svc key)) (idem_records d)"
    using assms(1) by (simp add: idem_ok_def)
  show ?thesis
  proof (cases "idem_lookup svc d owner scope key")
    case None
    with assms(2,3) show ?thesis by (auto simp: idem_lookup_def find_None_all)
  next
    case (Some j)
    then have "j \<in> set (idem_records d)" "idem_slot owner scope (svc_sha256 svc key) j"
      by (auto simp: idem_lookup_def dest: find_Some_in)
    with one assms(2,3) have "j = i" by (metis at_most_one_eq)
    with Some show ?thesis by simp
  qed
qed

lemma lookup_Some:
  "idem_lookup svc d owner scope key = Some i \<Longrightarrow>
     i \<in> set (idem_records d) \<and> idem_slot owner scope (svc_sha256 svc key) i"
  by (auto simp: idem_lookup_def dest: find_Some_in)








text \<open>
  A call of \<open>start_run\<close> that reports a created run appended exactly
  one run to an analysis of the caller that had no active run: in the requested state,
  at row version 1, with the lease asked for and with the next attempt number.
\<close>

theorem start_run_created:
  assumes "start_run svc env gap u now rq d = (Inr res, d1)" and "rr_created res"
    and "evolves svc empty_db (env d)"
  shows "\<exists>a r. get_analysis (env d) (st_analysis_id rq) = Some a \<and> an_owner a = st_owner rq
     \<and> runs d1 = runs (env d) @ [r] \<and> run_id r = rr_run_id res
     \<and> run_state r = st_state rq \<and> run_row_version r = 1 \<and> run_lease_expires_at r = st_lease rq
     \<and> run_attempt r = int (length (runs_of (env d) (st_analysis_id rq))) + 1
     \<and> (\<forall>s\<in>set (runs (env d)). \<not> active_run_of (st_analysis_id rq) s)"
proof -
  have inv: "run_inv (env d)" using assms(3) run_inv_empty by (rule evolves_run_inv)
  have st: "st_state rq \<in> {Queued, Processing}" using assms(1) by (auto simp: start_run_def split: if_splits)
  have "start_run_write svc u now rq (env d) = Inr (res, d1)"
    using assms(1,2) by (auto simp: start_run_def start_run_recover_def resolve_run_record_def Let_def transact_def resultE_iffs
       split: if_splits option.splits sum.splits prod.splits)
  then show ?thesis
  proof (rule start_run_write_shape)
    fix a r more
    assume a: "get_analysis (env d) (st_analysis_id rq) = Some a" "an_owner a = st_owner rq"
      and r: "r = new_run svc (u 1) now a (source_checksum (env d) a) (st_state rq) (st_lease rq)
           (greatest run_attempt (runs_of (env d) (an_id a)))"
      and res: "res = \<lparr>rr_run_id = run_id r, rr_created = True\<rparr>"
      and ins: "insert_run r (env d) = Inr ((env d)\<lparr>runs := runs (env d) @ [r]\<rparr>)"
      and "d1 = (env d)\<lparr>runs := runs (env d) @ [r],
        events := events (env d) @ started_event (u 2) now r # more,
        analyses := (if st_state rq = Processing \<and> an_state a \<noteq> Processing
          then update_where (\<lambda>x. an_id x = an_id a) (\<lambda>_. mark_processing now a) (analyses (env d))
          else analyses (env d)),
        idem_records := idem_records (env d) @
          [(in_progress_record svc (u 0) now (st_owner rq) ''run_start''
              (st_idempotency_key rq) (st_fingerprint rq))
           \<lparr>idem_status := IdemCompleted, idem_resource_type := Some ''analysis_run'',
             idem_resource_id := Some (uuid_text (run_id r))\<rparr>]\<rparr>"
    then have runs1: "runs d1 = runs (env d) @ [r]" by simp
    have id: "an_id a = st_analysis_id rq" using get_analysis_Some [OF a(1)] by simp
    have "run_attempt r = int (length (runs_of (env d) (st_analysis_id rq))) + 1"
      using greatest_attempt [of "runs_of (env d) (st_analysis_id rq)"] inv id
      by (simp add: r run_inv_def attempts_ok_def)
    moreover have "active_state (run_state r)" using st by (auto simp: r active_state_def)
    then have "\<forall>s\<in>set (runs (env d)). \<not> active_run_of (st_analysis_id rq) s"
      using insert_run_fresh(2) [OF ins] id by (simp add: r)
    ultimately show ?thesis using a r res runs1 id by (intro exI [of _ a] exI [of _ r]) simp
  qed
qed

theorem start_run_created_witness:
  "\<exists>a r. get_analysis (snd demo_failed) ''an-1'' = Some a \<and> an_owner a = 1
     \<and> runs (snd demo_started) = runs (snd demo_failed) @ [r] \<and> run_id r = 31 \<and> run_state r = Processing
     \<and> run_attempt r = int (length (runs_of (snd demo_failed) ''an-1'')) + 1"
  using start_run_created [where env = id and gap = id and d = "snd demo_failed"
      and u = "demo_ids 30" and now = 7 and rq = "demo_start ''key-3''" and res = "\<lparr>rr_run_id = 31, rr_created = True\<rparr>"
      and ?d1.0 = "snd demo_started" and svc = demo_service] demo_reachable(2) demo_started_eq
  by (fastforce simp: demo_started_def demo_start_def)

text \<open>
  C4: At most one run of an analysis is queued or processing, in every reachable
  database.
\<close>

theorem active_run_unique:
  assumes "evolves svc empty_db d"
  shows "length (filter (active_run_of a) (runs d)) \<le> 1"
  using evolves_run_inv [OF assms run_inv_empty]
  by (simp add: run_inv_def one_active_run_def at_most_one_def)

theorem active_run_unique_witness: "length (filter (active_run_of ''an-1'') (runs (snd demo_started))) \<le> 1"
  by (rule active_run_unique [OF demo_reachable(3)])



text \<open>
  A run that has completed, failed, been cancelled or become stale never changes
  again: the identical row is present after any interleaving of operations.
\<close>

theorem terminal_run_final:
  assumes "evolves svc empty_db d" and "evolves svc d e"
    and "r \<in> set (runs d)" and "\<not> active_state (run_state r)"
  shows "r \<in> set (runs e)"
proof -
  have "db_later d e"
    using evolves_later [OF assms(2)] evolves_run_inv [OF assms(1) run_inv_empty] by simp
  with assms(3,4) show ?thesis by (auto simp: db_later_def run_later_def)
qed

theorem terminal_run_final_witness: "advance_run Failed 1 6 demo_run \<in> set (runs (snd demo_started))"
  using terminal_run_final [OF demo_reachable(2) demo_started_later [OF evolves.same],
      of "advance_run Failed 1 6 demo_run"]
  by (simp add: demo_failed_eq demo_db2_def active_state_def)

text \<open>The row a transition moved has a version above the expected one ever after.\<close>

lemma transition_result:
  assumes "transition_run env u now owner k v new reason d = (Inr res, e)"
  shows "(tr_state res = new \<and> e = d \<and> (\<exists>r. owned_run d k owner = Some r \<and> run_state r = new))
    \<or> (\<exists>prev. run_allowed prev new \<and> transition_write u now k v prev new reason (env d) = Inr (res, e))"
  using assms by (auto simp: transition_run_def Let_def transact_def split: option.splits sum.splits prod.splits if_splits)

lemma version_exceeded:
  assumes "run_inv d" and "r \<in> set (runs d)" and "run_id r = k" and "v < run_row_version r"
    and "evolves svc d e"
  shows "transition_write u now k v prev new reason e = Inl OptimisticConcurrencyError"
proof -
  have later: "db_later d e" and inv: "run_inv e"
    using assms evolves_later evolves_run_inv by blast+
  from later assms(2) obtain s where s: "s \<in> set (runs e)" "run_later r s" by (auto simp: db_later_def)
  have "x = s" if "x \<in> set (runs e)" "run_id x = k" for x
    using same_run [of e s x] that s assms(3) inv by (simp add: run_inv_def keys_ok_def run_later_def)
  moreover have "run_row_version s \<noteq> v" using s(2) assms(4) by (auto simp: run_later_def)
  ultimately have "find (\<lambda>r. run_id r = k \<and> run_row_version r = v \<and> run_state r = prev) (runs e) = None"
    by (auto simp: find_None_all)
  then show ?thesis by (simp add: transition_write_def)
qed

lemma evolves_trans: "evolves svc d e \<Longrightarrow> evolves svc d0 d \<Longrightarrow> evolves svc d0 e"
proof (induction rule: evolves.induct)
  case (reserve d0 d env gap isofmt u now rq)
  then show ?case by (intro evolves.reserve)
next
  case (start d0 d env gap u now sq)
  then show ?case by (intro evolves.start)
next
  case (transition d0 d env u now owner k expected new reason)
  then show ?case by (intro evolves.transition)
next
  case (save d0 d j as_time u now)
  then show ?case by (intro evolves.save)
next
  case (elsewhere d0 d d')
  then show ?case by (blast intro: evolves.elsewhere)
qed

text \<open>
  C2: Optimistic concurrency: after one caller has moved a run at version
  \<open>v\<close>, no other call that expects version \<open>v\<close> changes
  anything; a call that still reports success found the run already in the state it
  asked for.
\<close>

theorem transition_run_one_winner:
  assumes d: "evolves svc empty_db d" and env: "evolves svc d (env d)"
    and first: "transition_run env u now owner k v new reason d = (Inr res, d1)"
      "owned_run d k owner = Some r0" "run_state r0 \<noteq> new"
    and between: "evolves svc d1 d2" "evolves svc d2 (env' d2)"
  shows "snd (transition_run env' u' now' owner' k v new' reason' d2) \<in> {d2, env' d2}
    \<and> (\<forall>res'. fst (transition_run env' u' now' owner' k v new' reason' d2) = Inr res'
         \<longrightarrow> tr_state res' = new' \<and> snd (transition_run env' u' now' owner' k v new' reason' d2) = d2)"
proof -
  have inv: "run_inv d" "run_inv (env d)" using d env run_inv_empty by (blast intro: evolves_run_inv)+
  from transition_result [OF first(1)] first(2,3) obtain prev where
    w: "transition_write u now k v prev new reason (env d) = Inr (res, d1)" "run_allowed prev new"
    by auto
  from inv(2) obtain r where r: "run_moved (env d) r (advance_run new v now r) d1" "run_id r = k" "run_row_version r = v"
    using transition_write_moved [OF w(1)] by (auto simp: run_inv_def)
  have inv1: "run_inv d1" using inv(2) w by (blast intro: run_inv_transition)
  have moved: "advance_run new v now r \<in> set (runs d1)"
    using moved_rows [OF r(1)] inv(2) r(3) by (auto simp: run_inv_def)
  have "evolves svc d1 (env' d2)" using between evolves_trans by blast
  then have "transition_write u' now' k v p new' reason' (env' d2) = Inl OptimisticConcurrencyError" for p
    using version_exceeded [OF inv1 moved] r(2) by simp
  then show ?thesis
    by (auto simp: transition_run_def Let_def transact_def split: option.splits)
qed

theorem transition_run_one_winner_witness:
  "snd (transition_run id (demo_ids 80) 8 1 12 1 Cancelled None (snd demo_failed)) = snd demo_failed"
  using transition_run_one_winner [where env = id and env' = id and d = "snd demo_reserved" and u = "demo_ids 20"
      and now = 6 and owner = 1 and k = 12 and v = 1 and new = Failed and reason = None
      and res = "\<lparr>tr_run_id = 12, tr_state = Failed, tr_row_version = 2\<rparr>" and ?d1.0 = "snd demo_failed"
      and ?r0.0 = demo_run and ?d2.0 = "snd demo_failed", OF demo_reachable(1)] demo_failed_eq
  by (simp add: evolves.same demo_failed_def owned_run_def demo_reserved_eq demo_db1_def demo_run_def
      demo_analysis_def reserved_analysis_def demo_reserve_def)

text \<open>Where the drawn UUIDs are new, a permitted transition at the current version succeeds.\<close>

lemma owned_run_Some:
  "owned_run d k owner = Some r \<Longrightarrow> r \<in> set (runs d) \<and> run_id r = k
    \<and> (\<exists>a\<in>set (analyses d). an_id a = run_analysis_id r \<and> an_owner a = owner)"
  by (auto simp: owned_run_def dest: find_Some_in)

lemma insert_event_ok:
  assumes "ev_id e \<notin> ev_id ` set (events d)"
    and "ev_subject e = SubjectRun \<longleftrightarrow> ev_run_id e \<noteq> None"
    and "get_analysis d (ev_analysis_id e) \<noteq> None"
    and "\<And>k. ev_run_id e = Some k \<Longrightarrow> get_run d k \<noteq> None"
  shows "insert_event e d = Inr (d\<lparr>events := events d @ [e]\<rparr>)"
proof -
  have "\<forall>s\<in>set (events d). ev_id s \<noteq> ev_id e" using assms(1) by (metis image_eqI)
  with assms(2-4) show ?thesis
    by (cases "ev_subject e") (auto simp: insert_event_def fk_null_or_def split: option.splits)
qed

lemma get_run_in: "get_run d k \<noteq> None \<longleftrightarrow> k \<in> run_id ` set (runs d)"
  by (auto simp: get_run_def find_None_all)

lemma get_analysis_in: "get_analysis d k \<noteq> None \<longleftrightarrow> k \<in> an_id ` set (analyses d)"
  by (auto simp: get_analysis_def find_None_all)

lemma get_run_unique: "run_inv d \<Longrightarrow> r \<in> set (runs d) \<Longrightarrow> get_run d (run_id r) = Some r"
  unfolding get_run_def by (rule run_tab.lookup_unique) (simp_all add: run_inv_def keys_ok_def)

lemma find_current_run:
  assumes "run_inv d" and "r \<in> set (runs d)" and "run_id r = k"
  shows "find (\<lambda>s. run_id s = k \<and> run_row_version s = run_row_version r \<and> run_state s = run_state r)
    (runs d) = Some r" (is "find ?p _ = _")
proof (cases "find ?p (runs d)")
  case None
  with assms show ?thesis by (auto simp: find_None_all)
next
  case (Some s)
  with find_Some_in [OF Some] same_run [of d r s] assms show ?thesis by (simp add: run_inv_def keys_ok_def)
qed

text \<open>The state a permitted transition commits, and the audit rows it appends.\<close>

definition moved_events :: "(nat \<Rightarrow> uuid) \<Rightarrow> time \<Rightarrow> analysis \<Rightarrow> run \<Rightarrow> state \<Rightarrow> string option \<Rightarrow> state_event list" where
  "moved_events u now a r new reason =
     (if new = Stale then [] else [\<lparr>ev_id = u 0, ev_subject = SubjectAnalysis,
        ev_analysis_id = an_id a, ev_run_id = None, ev_previous = Some (an_state a), ev_new = new,
        ev_type = ''run_'' @ state_value new, ev_reason = reason, ev_actor = ''system'',
        ev_row_version = an_row_version a + 1, ev_created_at = now\<rparr>])
     @ [run_moved_event (u 1) now (advance_run new (run_row_version r) now r) (run_state r) reason]"

definition moved_db :: "time \<Rightarrow> analysis \<Rightarrow> run \<Rightarrow> state \<Rightarrow> db \<Rightarrow> db" where
  "moved_db now a r new d =
     (let d1 = modify_run (run_id r) (\<lambda>_. advance_run new (run_row_version r) now r) d
      in if new = Stale then d1
         else modify_analysis (an_id a) (\<lambda>_. follow_run (run_id r) new now a) d1)"

lemma moved_db_events [simp]: "events (moved_db now a r new d) = events d"
  by (simp add: moved_db_def Let_def modify_run_def modify_analysis_def)

lemma moved_db_keys:
  assumes "run_inv d" and "r \<in> set (runs d)" and "a \<in> set (analyses d)"
  shows "run_id ` set (runs (moved_db now a r new d)) = run_id ` set (runs d)"
    and "an_id ` set (analyses (moved_db now a r new d)) = an_id ` set (analyses d)"
proof -
  have "map run_id (runs (moved_db now a r new d)) = map run_id (runs d)"
    by (simp add: moved_db_def Let_def modify_run_def modify_analysis_def update_where_def)
  from arg_cong [OF this, of set] show "run_id ` set (runs (moved_db now a r new d)) = run_id ` set (runs d)"
    by simp
  have "map an_id (analyses (moved_db now a r new d)) = map an_id (analyses d)"
    by (simp add: moved_db_def Let_def modify_run_def modify_analysis_def update_where_def)
  from arg_cong [OF this, of set] show "an_id ` set (analyses (moved_db now a r new d)) = an_id ` set (analyses d)"
    by simp
qed

lemma moved_db_run:
  "run_inv d \<Longrightarrow> r \<in> set (runs d) \<Longrightarrow>
     get_run (moved_db now a r new d) (run_id r) = Some (advance_run new (run_row_version r) now r)"
  using run_tab.lookup_modify_same [of "run_id r" d r "\<lambda>_. advance_run new (run_row_version r) now r"]
    get_run_unique [of d r]
  by (cases "new = Stale") (simp_all add: get_run_def moved_db_def Let_def modify_analysis_def)

lemma moved_db_analysis:
  "get_analysis d (an_id a) = Some a \<Longrightarrow>
     get_analysis (moved_db now a r new d) (an_id a)
       = Some (if new = Stale then a else follow_run (run_id r) new now a)"
  using analysis_tab.lookup_modify_same [of "an_id a" d a "\<lambda>_. follow_run (run_id r) new now a"]
  by (simp add: get_analysis_def moved_db_def Let_def modify_run_def modify_analysis_def)

lemma transition_write_moves:
  assumes inv: "run_inv d" and r: "r \<in> set (runs d)" and a: "get_analysis d (run_analysis_id r) = Some a"
    and new: "new \<in> {Processing, Completed, Failed, Cancelled, Stale}"
    and u: "u 0 \<notin> ev_id ` set (events d)" "u 1 \<notin> ev_id ` set (events d)" "u 0 \<noteq> u 1"
  shows "transition_write u now (run_id r) (run_row_version r) (run_state r) new reason d
      = Inr (\<lparr>tr_run_id = run_id r, tr_state = new, tr_row_version = run_row_version r + 1\<rparr>,
          (moved_db now a r new d)\<lparr>events := events d @ moved_events u now a r new reason\<rparr>)"
proof -
  let ?r' = "advance_run new (run_row_version r) now r"
  let ?d1 = "modify_run (run_id r) (\<lambda>_. ?r') d"
  let ?d2 = "moved_db now a r new d"
  define es where "es = butlast (moved_events u now a r new reason)"
  have aid: "an_id a = run_analysis_id r" "a \<in> set (analyses d)" using get_analysis_Some [OF a] by auto
  note keys = moved_db_keys [OF inv r aid(2)]
  have a1: "get_analysis ?d1 x = get_analysis d x" for x by (simp add: get_analysis_def modify_run_def)
  have step1: "(if new \<in> {Processing, Completed, Failed, Cancelled}
      then let a' = follow_run (run_id r) new now a in
        add_event (u 0) now a' (Some (an_state a)) new (''run_'' @ state_value new) ''system'' reason
          (modify_analysis (an_id a) (\<lambda>_. a') ?d1)
      else Inr ?d1) = Inr (?d2\<lparr>events := events d @ es\<rparr>)"
  proof (cases "new = Stale")
    case True
    have "?d1\<lparr>events := events d\<rparr> = ?d1" by (simp add: modify_run_def)
    with True show ?thesis by (simp add: moved_db_def es_def moved_events_def)
  next
    case False
    then have d2: "modify_analysis (an_id a) (\<lambda>_. follow_run (run_id r) new now a) ?d1 = ?d2"
      by (simp add: moved_db_def)
    have "get_analysis ?d2 (an_id a) \<noteq> None"
      unfolding get_analysis_in keys using aid by blast
    with False new u show ?thesis
      unfolding Let_def d2 add_event_def
      by (subst insert_event_ok) (auto simp: es_def moved_events_def)
  qed
  let ?e = "run_moved_event (u 1) now ?r' (run_state r) reason"
  let ?d = "?d2\<lparr>events := events d @ es\<rparr>"
  have "get_analysis ?d (ev_analysis_id ?e) \<noteq> None"
    unfolding get_analysis_in using aid by (simp add: run_moved_event_def keys) (metis aid image_eqI)
  moreover have "get_run ?d k \<noteq> None" if "ev_run_id ?e = Some k" for k
    unfolding get_run_in using that r by (auto simp: run_moved_event_def keys)
  ultimately have "insert_event ?e ?d = Inr (?d\<lparr>events := events ?d @ [?e]\<rparr>)"
    using u by (intro insert_event_ok) (auto simp: es_def moved_events_def run_moved_event_def)
  moreover have "moved_events u now a r new reason = es @ [?e]" by (simp add: es_def moved_events_def)
  ultimately show ?thesis
    unfolding transition_write_def Let_def find_current_run [OF inv r refl] option.case
    unfolding a1 a option.case step1 [unfolded Let_def] bindE_simps
    by simp
qed

text \<open>
  A permitted transition at the current row version succeeds when the drawn event
  ids are new: it returns version + 1, leaves the advanced run and, except for
  \<open>Stale\<close>, the analysis that follows it.
\<close>

theorem transition_run_succeeds:
  assumes d: "evolves svc empty_db d" and r: "owned_run d k owner = Some r"
    and ok: "run_allowed (run_state r) new"
    and u: "u 0 \<notin> ev_id ` set (events d)" "u 1 \<notin> ev_id ` set (events d)" "u 0 \<noteq> u 1"
  shows "\<exists>d' a. transition_run (\<lambda>x. x) u now owner k (run_row_version r) new reason d
      = (Inr \<lparr>tr_run_id = k, tr_state = new, tr_row_version = run_row_version r + 1\<rparr>, d')
    \<and> get_run d' k = Some (advance_run new (run_row_version r) now r)
    \<and> get_analysis d (run_analysis_id r) = Some a
    \<and> get_analysis d' (run_analysis_id r) = Some (if new = Stale then a else follow_run k new now a)"
proof -
  have inv: "run_inv d" using d run_inv_empty by (rule evolves_run_inv)
  from owned_run_Some [OF r] have rr: "r \<in> set (runs d)" "run_id r = k" and
    an: "run_analysis_id r \<in> an_id ` set (analyses d)" by force+
  then obtain a where a: "get_analysis d (run_analysis_id r) = Some a" using get_analysis_in by fastforce
  have new: "run_state r \<noteq> new" "new \<in> {Processing, Completed, Failed, Cancelled, Stale}"
    using ok by (cases "run_state r"; auto)+
  let ?d' = "(moved_db now a r new d)\<lparr>events := events d @ moved_events u now a r new reason\<rparr>"
  have "transition_run (\<lambda>x. x) u now owner k (run_row_version r) new reason d
      = (Inr \<lparr>tr_run_id = k, tr_state = new, tr_row_version = run_row_version r + 1\<rparr>, ?d')"
    using transition_write_moves [OF inv rr(1) a new(2) u] rr(2) r new(1) ok
    by (simp add: transition_run_def transact_def)
  moreover have "get_run ?d' k = Some (advance_run new (run_row_version r) now r)"
    using moved_db_run [OF inv rr(1)] rr(2) by (simp add: get_run_def)
  moreover have "get_analysis ?d' (run_analysis_id r) = Some (if new = Stale then a else follow_run k new now a)"
    using moved_db_analysis [of d a now r new] a get_analysis_Some [OF a] rr(2) by (simp add: get_analysis_def)
  ultimately show ?thesis using a by blast
qed

theorem transition_run_succeeds_witness:
  "\<exists>d'. transition_run (\<lambda>x. x) (demo_ids 20) 6 1 12 1 Failed None (snd demo_reserved)
      = (Inr \<lparr>tr_run_id = 12, tr_state = Failed, tr_row_version = 2\<rparr>, d')"
proof -
  have "owned_run (snd demo_reserved) 12 1 = Some demo_run"
    by (simp add: owned_run_def demo_reserved_eq demo_db1_def demo_run_def
      demo_analysis_def reserved_analysis_def demo_reserve_def)
  from transition_run_succeeds [OF demo_reachable(1) this, of Failed "demo_ids 20" 6 None] show ?thesis
    by (auto simp: demo_reserved_eq demo_db1_def demo_run_def demo_ids_def started_event_def)
qed

section \<open>The run machine and its log\<close>

interpretation run_machine: status_machine run_allowed "\<lambda>s. case s of Queued \<Rightarrow> 0 | Processing \<Rightarrow> 1 | _ \<Rightarrow> 2" 2
  by unfold_locales (auto split: state.splits elim: run_allowed.elims)

lemma log_from_path:
  "log_from s v es = Some (t, w) \<Longrightarrow>
     successively run_allowed (s # map ev_new es) \<and> w = v + int (length es)"
proof (induction es arbitrary: s v)
  case (Cons e es)
  then have "log_from (ev_new e) (v + 1) es = Some (t, w)" "run_allowed s (ev_new e)"
    by (auto split: if_splits)
  with Cons.IH [of "ev_new e" "v + 1"] show ?case by simp
qed simp

text \<open>
  The row version of a run of a live analysis counts its logged transitions, and
  there are at most three of them: start, processing, end.
\<close>

theorem run_log_bounded:
  assumes "evolves svc empty_db d" and "r \<in> set (runs d)" and "live_in d (run_analysis_id r)"
  shows "run_row_version r = int (length (run_log d (run_id r))) \<and> length (run_log d (run_id r)) \<le> 3"
proof -
  from assms have "replay_log (run_log d (run_id r)) = Some (run_state r, run_row_version r)"
    using evolves_run_inv [OF assms(1) run_inv_empty] by (simp add: run_inv_def audit_ok_def)
  then obtain e es where l: "run_log d (run_id r) = e # es"
    and path: "log_from (ev_new e) 1 es = Some (run_state r, run_row_version r)"
    by (cases "run_log d (run_id r)") (auto split: if_splits)
  from log_from_path [OF path] run_machine.path_bounded [of "ev_new e" "map ev_new es"]
  have "length es \<le> 2" "run_row_version r = 1 + int (length es)" by auto
  with l show ?thesis by simp
qed

theorem run_log_bounded_witness: "length (run_log (snd demo_failed) 12) = 2"
  using run_log_bounded [OF demo_reachable(2), of "hd (runs (snd demo_failed))"]
  by (simp add: demo_failed_eq demo_db2_def live_in_def demo_run_def demo_analysis_def reserved_analysis_def)

lemma start_run_write_blocked:
  assumes own: "owned_analysis (get_analysis d (st_analysis_id rq)) (st_owner rq) = Inr a"
    and act: "r \<in> set (runs d)" "active_run_of (st_analysis_id rq) r" and st: "active_state (st_state rq)"
  shows "start_run_write svc u now rq d = Inl IntegrityError"
proof (cases "start_run_write svc u now rq d")
  case (Inr p)
  then obtain res d' where "start_run_write svc u now rq d = Inr (res, d')" by (cases p) auto
  then have False
    by (rule start_run_write_shape)
      (use act st in \<open>auto dest!: insert_run_fresh(2) get_analysis_Some\<close>)
  then show ?thesis ..
next
  case (Inl e)
  then show ?thesis using own
    by (auto simp: start_run_write_def insert_new_run_def add_run_event_def add_event_def Let_def resultE_iffs
        dest: insert_Inl split: if_splits)
qed

text \<open>
  C5: A start under a new key while the analysis has an active run does not fail and
  does not create a second one: the constraint on active runs refuses the insertion,
  and the recovery answers with the active run and leaves runs, analyses and events as
  they are.
\<close>

theorem start_run_adopts:
  assumes d: "evolves svc empty_db d" and new: "idem_lookup svc d (st_owner rq) ''run_start'' (st_idempotency_key rq) = None"
    and own: "owned_analysis (get_analysis d (st_analysis_id rq)) (st_owner rq) = Inr a"
    and act: "r \<in> set (runs d)" "active_run_of (st_analysis_id rq) r" and st: "active_state (st_state rq)"
    and wf: "get_user d (st_owner rq) \<noteq> None" "hex64 (svc_sha256 svc (st_idempotency_key rq))"
      "hex64 (st_fingerprint rq)" "u 4 \<notin> idem_id ` set (idem_records d)"
  shows "\<exists>d1. start_run svc (\<lambda>x. x) (\<lambda>x. x) u now rq d = (Inr \<lparr>rr_run_id = run_id r, rr_created = False\<rparr>, d1)
    \<and> runs d1 = runs d \<and> analyses d1 = analyses d \<and> events d1 = events d"
proof -
  have inv: "run_inv d" using d run_inv_empty by (rule evolves_run_inv)
  have st': "st_state rq \<in> {Queued, Processing}" using st by (auto simp: active_state_def)
  from act obtain r' where found: "find (active_run_of (st_analysis_id rq)) (runs d) = Some r'"
    by (cases "find (active_run_of (st_analysis_id rq)) (runs d)") (auto simp: find_None_all)
  then have "r' \<in> set (runs d)" "active_run_of (st_analysis_id rq) r'" by (auto dest: find_Some_in)
  then have "r' = r" using act inv by (simp add: run_inv_def one_active_run_def) (metis at_most_one_eq)
  have "\<forall>s\<in>set (idem_records d). idem_id s \<noteq> u 4" using wf(4) by (metis image_eqI)
  moreover have "\<forall>s\<in>set (idem_records d). \<not> idem_slot (st_owner rq) ''run_start'' (svc_sha256 svc (st_idempotency_key rq)) s"
    using new by (simp add: idem_lookup_def find_None_all)
  ultimately have ins: "insert_idem ((in_progress_record svc (u 4) now (st_owner rq) ''run_start''
        (st_idempotency_key rq) (st_fingerprint rq))
       \<lparr>idem_status := IdemCompleted, idem_resource_type := Some ''analysis_run'',
        idem_resource_id := Some (uuid_text (run_id r))\<rparr>) d = Inr (d\<lparr>idem_records := idem_records d @
      [(in_progress_record svc (u 4) now (st_owner rq) ''run_start''
        (st_idempotency_key rq) (st_fingerprint rq))
       \<lparr>idem_status := IdemCompleted, idem_resource_type := Some ''analysis_run'',
        idem_resource_id := Some (uuid_text (run_id r))\<rparr>]\<rparr>)"
    using wf(1-3) by (simp add: insert_idem_def in_progress_record_def has_user_def)
  have "start_run_recover svc (u 4) now rq d = Inr (\<lparr>rr_run_id = run_id r, rr_created = False\<rparr>,
      d\<lparr>idem_records := idem_records d @
      [(in_progress_record svc (u 4) now (st_owner rq) ''run_start''
        (st_idempotency_key rq) (st_fingerprint rq))
       \<lparr>idem_status := IdemCompleted, idem_resource_type := Some ''analysis_run'',
        idem_resource_id := Some (uuid_text (run_id r))\<rparr>]\<rparr>)"
    unfolding start_run_recover_def new option.case own bindE_simps found \<open>r' = r\<close> ins by simp
  then show ?thesis
    using st' new own start_run_write_blocked [OF own act st]
    by (simp add: start_run_def transact_def)
qed

theorem start_run_adopts_witness:
  "fst (start_run demo_service (\<lambda>x. x) (\<lambda>x. x) (demo_ids 40) 8 (demo_start ''key-2'') (snd demo_reserved))
     = Inr \<lparr>rr_run_id = 12, rr_created = False\<rparr>"
proof -
  have a: "owned_analysis (get_analysis (snd demo_reserved) (st_analysis_id (demo_start ''key-2'')))
      (st_owner (demo_start ''key-2'')) = Inr demo_analysis"
    by (simp add: owned_analysis_def demo_reserved_eq demo_defs demo_start_def)
  have "\<exists>d1. start_run demo_service (\<lambda>x. x) (\<lambda>x. x) (demo_ids 40) 8 (demo_start ''key-2'') (snd demo_reserved)
     = (Inr \<lparr>rr_run_id = run_id demo_run, rr_created = False\<rparr>, d1)
     \<and> runs d1 = runs (snd demo_reserved) \<and> analyses d1 = analyses (snd demo_reserved)
     \<and> events d1 = events (snd demo_reserved)"
    by (rule start_run_adopts [OF demo_reachable(1) _ a])
      (simp_all del: replicate.simps add: demo_reserved_eq demo_defs demo_start_def idem_slot_def active_run_of_def active_state_def)
  then show ?thesis by (auto simp: demo_run_def)
qed

lemma resolve_in_progress:
  assumes "idem_ok d" and "i \<in> set (idem_records d)" and "idem_scope i = ''run_start''"
  shows "resolve_run_record i fp \<noteq> Inl OperationInProgressError"
proof -
  from assms obtain k where "idem_resource_id i = Some (uuid_text k)" by (auto simp: idem_ok_def)
  then show ?thesis by (simp add: resolve_run_record_def)
qed

lemma lookup_resource:
  assumes "run_inv d" and "idem_lookup svc d owner scope key = Some i" and "scope \<in> {''run_start'', ''analysis_upload''}"
  shows "idem_resource_id i \<noteq> None"
  using assms lookup_Some [OF assms(2)] by (auto simp: run_inv_def idem_ok_def idem_slot_def)

lemma owned_error: "owned_analysis x w = Inl e \<Longrightarrow> e \<in> {ResourceNotFoundError, OwnershipMismatchError}"
  by (auto simp: owned_analysis_def split: option.splits if_splits)

lemma start_run_write_error:
  "start_run_write svc u now rq d = Inl e \<Longrightarrow> e \<noteq> OperationInProgressError"
  by (auto simp: start_run_write_def insert_new_run_def add_run_event_def add_event_def Let_def resultE_iffs
        dest: insert_Inl owned_error split: if_splits)

text \<open>
  No call of \<open>start_run\<close> answers
  \<open>OperationInProgressError\<close>: a record is completed in the transaction
  that inserts it, so no unfinished record is ever visible.
\<close>

theorem start_run_never_in_progress:
  assumes d: "evolves svc empty_db d" and env: "evolves svc d (env d)" "evolves svc (env d) (gap (env d))"
  shows "fst (start_run svc env gap u now rq d) \<noteq> Inl OperationInProgressError"
proof -
  have inv: "run_inv d" "run_inv (gap (env d))"
    using d env run_inv_empty by (blast intro: evolves_run_inv)+
  have res: "resolve_run_record i fp \<noteq> Inl OperationInProgressError"
    if "idem_lookup svc x owner ''run_start'' key = Some i" "run_inv x" for x owner key i fp
    using that(2) lookup_Some [OF that(1)] resolve_in_progress [of x i fp]
    by (simp add: run_inv_def idem_slot_def)
  have rec: "start_run_recover svc k now rq (gap (env d)) \<noteq> Inl OperationInProgressError" for k
    using res [OF _ inv(2)]
    by (auto simp: start_run_recover_def resultE_iffs split: option.splits dest: insert_Inl owned_error)
  show ?thesis
    using res [OF _ inv(1)] rec
    by (auto simp: start_run_def transact_def Let_def resultE_iffs split: option.splits sum.splits prod.splits
        dest: start_run_write_error owned_error)
qed


theorem start_run_never_in_progress_witness:
  "fst (start_run demo_service id id (demo_ids 40) 8 (demo_start ''key-2'') (snd demo_reserved))
     \<noteq> Inl OperationInProgressError"
  by (rule start_run_never_in_progress [OF demo_reachable(1)]) (simp_all add: evolves.same)

section \<open>Reservations\<close>

lemma find_uploaded_video_newest:
  assumes "find_uploaded_video d owner cs sp = Some m"
    and "v \<in> set (videos d)" "a \<in> set (analyses d)" "an_video_id a = vid_id v" "vid_owner v = owner"
      "vid_checksum v = Some cs" "an_owner a = owner" "an_sport a = sp" "an_lifecycle a = Live"
  shows "\<exists>b\<in>set (analyses d). dup_analysis_id m = an_id b \<and> an_owner b = owner \<and> an_sport b = sp
    \<and> an_lifecycle b = Live \<and> (\<exists>w\<in>set (videos d). vid_id w = an_video_id b \<and> vid_checksum w = Some cs)
    \<and> (an_created_at a, an_id a) \<le> (an_created_at b, an_id b)"
proof -
  let ?rows = "filter (\<lambda>(v, a). vid_owner v = owner \<and> vid_checksum v = Some cs
       \<and> an_owner a = owner \<and> an_sport a = sp \<and> an_lifecycle a = Live) (video_analysis_join d)"
  let ?key = "\<lambda>(v :: video, a). (an_created_at a, an_id a)"
  from assms(1) obtain w b where m: "m = match_of (w, b)" and g: "greatest ?key ?rows = Some (w, b)"
    unfolding find_uploaded_video_def by force
  note max = greatest_Some [OF g]
  have "(v, a) \<in> set ?rows" using assms(2-) by (simp add: video_analysis_join_def)
  with max have "?key (v, a) \<le> ?key (w, b)" by blast
  moreover from max have "(w, b) \<in> set ?rows" by simp
  ultimately show ?thesis
    by (intro bexI [of _ b]) (auto simp: m match_of_def video_analysis_join_def)
qed

lemma find_uploaded_video_exists:
  assumes "v \<in> set (videos d)" "a \<in> set (analyses d)" "an_video_id a = vid_id v" "vid_owner v = owner"
      "vid_checksum v = Some cs" "an_owner a = owner" "an_sport a = sp" "an_lifecycle a = Live"
  shows "\<exists>m. find_uploaded_video d owner cs sp = Some m"
proof -
  have "(v, a) \<in> set (filter (\<lambda>(v, a). vid_owner v = owner \<and> vid_checksum v = Some cs
       \<and> an_owner a = owner \<and> an_sport a = sp \<and> an_lifecycle a = Live) (video_analysis_join d))"
    using assms by (simp add: video_analysis_join_def)
  then show ?thesis
    unfolding find_uploaded_video_def
    by (metis (no_types, lifting) greatest_None list.set_cases list.distinct(1) not_None_eq option.map_disc_iff)
qed

text \<open>
  Exact duplicates: reserving a file whose checksum is that of a live analysis of
  the same owner and sport, under a new key and without the override, creates nothing
  and answers with the most recently created of those analyses.
\<close>

theorem reserve_reuses_duplicate:
  assumes new: "idem_lookup svc d (rq_owner rq) ''analysis_upload'' (rq_idempotency_key rq) = None"
    and dup: "\<not> rq_allow_duplicate rq" "v \<in> set (videos d)" "a \<in> set (analyses d)" "an_video_id a = vid_id v"
      "vid_owner v = rq_owner rq" "vid_checksum v = Some (rq_checksum rq)" "an_owner a = rq_owner rq"
      "an_sport a = rq_sport rq" "an_lifecycle a = Live"
    and wf: "get_user d (rq_owner rq) \<noteq> None" "hex64 (svc_sha256 svc (rq_idempotency_key rq))"
      "hex64 (rq_fingerprint rq)" "u 0 \<notin> idem_id ` set (idem_records d)"
  shows "\<exists>m b d1. reserve_analysis svc isofmt (\<lambda>x. x) (\<lambda>x. x) u now rq d
        = (Inr \<lparr>res_analysis_id = an_id b, res_created = False, res_duplicate = Some m\<rparr>, d1)
    \<and> videos d1 = videos d \<and> analyses d1 = analyses d \<and> runs d1 = runs d \<and> events d1 = events d
    \<and> b \<in> set (analyses d) \<and> an_owner b = rq_owner rq \<and> an_lifecycle b = Live \<and> an_sport b = rq_sport rq
    \<and> (\<exists>w\<in>set (videos d). vid_id w = an_video_id b \<and> vid_checksum w = Some (rq_checksum rq))
    \<and> (an_created_at a, an_id a) \<le> (an_created_at b, an_id b)"
proof -
  from find_uploaded_video_exists [OF dup(2-)] obtain m where
    m: "find_uploaded_video d (rq_owner rq) (rq_checksum rq) (rq_sport rq) = Some m" ..
  from find_uploaded_video_newest [OF m dup(2-)] obtain b where
    b: "b \<in> set (analyses d)" "dup_analysis_id m = an_id b" "an_owner b = rq_owner rq" "an_sport b = rq_sport rq"
      "an_lifecycle b = Live" "\<exists>w\<in>set (videos d). vid_id w = an_video_id b \<and> vid_checksum w = Some (rq_checksum rq)"
      "(an_created_at a, an_id a) \<le> (an_created_at b, an_id b)" by blast
  have "\<forall>s\<in>set (idem_records d). idem_id s \<noteq> u 0" using wf(4) by (metis image_eqI)
  moreover have "\<forall>s\<in>set (idem_records d). \<not> idem_slot (rq_owner rq) ''analysis_upload'' (svc_sha256 svc (rq_idempotency_key rq)) s"
    using new by (simp add: idem_lookup_def find_None_all)
  ultimately have "insert_idem (duplicate_record svc (u 0) now rq isofmt m) d
      = Inr (d\<lparr>idem_records := idem_records d @ [duplicate_record svc (u 0) now rq isofmt m]\<rparr>)"
    using wf(1-3) by (simp add: insert_idem_def duplicate_record_def has_user_def)
  then have "reserve_analysis svc isofmt (\<lambda>x. x) (\<lambda>x. x) u now rq d
      = (Inr \<lparr>res_analysis_id = an_id b, res_created = False, res_duplicate = Some m\<rparr>,
         d\<lparr>idem_records := idem_records d @ [duplicate_record svc (u 0) now rq isofmt m]\<rparr>)"
    using new dup(1) m b(2) by (simp add: reserve_analysis_def reserve_write_def)
  with b show ?thesis by (intro exI [of _ m] exI [of _ b]) simp
qed

theorem reserve_reuses_duplicate_witness:
  "\<exists>m. fst (reserve_analysis demo_service demo_iso (\<lambda>x. x) (\<lambda>x. x) (demo_ids 50) 8
      (demo_reserve\<lparr>rq_analysis_id := ''an-2'', rq_idempotency_key := ''key-2''\<rparr>) (snd demo_reserved))
     = Inr \<lparr>res_analysis_id = ''an-1'', res_created = False, res_duplicate = Some m\<rparr>"
proof -
  let ?rq = "demo_reserve\<lparr>rq_analysis_id := ''an-2'', rq_idempotency_key := ''key-2''\<rparr>"
  have "\<exists>m b d1. reserve_analysis demo_service demo_iso (\<lambda>x. x) (\<lambda>x. x) (demo_ids 50) 8 ?rq (snd demo_reserved)
        = (Inr \<lparr>res_analysis_id = an_id b, res_created = False, res_duplicate = Some m\<rparr>, d1)
    \<and> videos d1 = videos (snd demo_reserved) \<and> analyses d1 = analyses (snd demo_reserved)
    \<and> runs d1 = runs (snd demo_reserved) \<and> events d1 = events (snd demo_reserved)
    \<and> b \<in> set (analyses (snd demo_reserved)) \<and> an_owner b = rq_owner ?rq \<and> an_lifecycle b = Live \<and> an_sport b = rq_sport ?rq
    \<and> (\<exists>w\<in>set (videos (snd demo_reserved)). vid_id w = an_video_id b \<and> vid_checksum w = Some (rq_checksum ?rq))
    \<and> (an_created_at demo_analysis, an_id demo_analysis) \<le> (an_created_at b, an_id b)"
    by (rule reserve_reuses_duplicate [where v = "pending_video 11 5 demo_reserve"])
      (simp_all del: replicate.simps add: demo_reserved_eq demo_defs idem_slot_def demo_service_def hex64_replicate hex_digits_def)
  then show ?thesis by (force simp: demo_reserved_eq demo_db1_def demo_analysis_def reserved_analysis_def demo_reserve_def)
qed

definition reserved_under :: "service \<Rightarrow> reserve_request \<Rightarrow> string \<Rightarrow> db \<Rightarrow> bool" where
  "reserved_under svc rq a d \<longleftrightarrow> (\<exists>i\<in>set (idem_records d).
     idem_slot (rq_owner rq) ''analysis_upload'' (svc_sha256 svc (rq_idempotency_key rq)) i
     \<and> idem_fingerprint i = rq_fingerprint rq \<and> idem_resource_id i = Some a
     \<and> idem_resource_type i \<noteq> Some ''exact_duplicate_analysis'')
   \<and> (\<exists>x\<in>set (analyses d). an_id x = a \<and> an_owner x = rq_owner rq \<and> an_lifecycle x = Live)"

lemma reserved_under_later: "reserved_under svc rq a d \<Longrightarrow> db_later d e \<Longrightarrow> reserved_under svc rq a e"
  unfolding reserved_under_def db_later_def analysis_later_def by (elim conjE bexE) fastforce

lemma reserve_created:
  assumes "reserve_analysis svc isofmt env gap u now rq d = (Inr res, d1)" and "res_created res"
  shows "create_reservation svc u now rq (env d) = Inr (res, d1)"
  using assms
  by (auto simp: reserve_analysis_def reserve_write_def reserve_recover_def replay_reservation_def
      reservation_from_record_def Let_def resultE_iffs split: option.splits sum.splits if_splits)

lemma create_reserved:
  "create_reservation svc u now rq d = Inr (res, d1) \<Longrightarrow> reserved_under svc rq (res_analysis_id res) d1"
  by (erule create_reservation_shape)
    (auto simp: reserved_under_def reserved_analysis_def in_progress_record_def idem_slot_def)

text \<open>
  Idempotency of \<open>reserve_analysis\<close>: once a call has created an
  analysis, the same request answers with the same analysis, marked as not created, at
  every later time, and writes nothing.
\<close>

theorem reserve_analysis_replay:
  assumes d: "evolves svc empty_db d" and env: "evolves svc d (env d)" "evolves svc (env d) (gap (env d))"
    and call: "reserve_analysis svc isofmt env gap u now rq d = (Inr res, d1)" "res_created res"
    and later: "evolves svc d1 d2"
  shows "reserve_analysis svc isofmt' env' gap' u' now' rq d2 = (Inr (res\<lparr>res_created := False\<rparr>), d2)"
proof -
  have "evolves svc empty_db d1"
    using evolves.reserve [where isofmt = isofmt and u = u and now = now and rq = rq and env = env and gap = gap, OF d env] call(1) by simp
  then have inv: "run_inv d1" "run_inv d2" and "db_later d1 d2"
    using later run_inv_empty by (blast intro: evolves_run_inv evolves_later)+
  note w = reserve_created [OF call]
  from create_reserved [OF w] \<open>db_later d1 d2\<close> have "reserved_under svc rq (res_analysis_id res) d2"
    by (rule reserved_under_later)
  then obtain i x where i: "i \<in> set (idem_records d2)" "idem_fingerprint i = rq_fingerprint rq"
      "idem_slot (rq_owner rq) ''analysis_upload'' (svc_sha256 svc (rq_idempotency_key rq)) i"
      "idem_resource_id i = Some (res_analysis_id res)" "idem_resource_type i \<noteq> Some ''exact_duplicate_analysis''"
    and x: "x \<in> set (analyses d2)" "an_id x = res_analysis_id res" "an_owner x = rq_owner rq" "an_lifecycle x = Live"
    unfolding reserved_under_def by blast
  have "idem_lookup svc d2 (rq_owner rq) ''analysis_upload'' (rq_idempotency_key rq) = Some i"
    by (rule lookup_slot) (use inv i in \<open>simp_all add: run_inv_def\<close>)
  moreover have "get_analysis d2 (res_analysis_id res) = Some x"
    unfolding get_analysis_def using analysis_tab.lookup_unique [of d2 x] x inv(2)
    by (simp add: run_inv_def keys_ok_def)
  then have "owned_analysis (get_analysis d2 (res_analysis_id res)) (rq_owner rq) = Inr x"
    using x by (simp add: owned_analysis_def)
  moreover have "res = \<lparr>res_analysis_id = res_analysis_id res, res_created = True, res_duplicate = None\<rparr>"
    using w by (rule create_reservation_shape) simp
  ultimately show ?thesis using i
    by (cases res) (simp add: reserve_analysis_def replay_reservation_def reservation_from_record_def)
qed


theorem reserve_analysis_replay_witness:
  "reserve_analysis demo_service demo_iso id id (demo_ids 90) 9 demo_reserve (snd demo_started)
     = (Inr \<lparr>res_analysis_id = ''an-1'', res_created = False, res_duplicate = None\<rparr>, snd demo_started)"
proof -
  have db: "evolves demo_service empty_db demo_db"
    by (rule evolves.elsewhere [OF evolves.same]) (simp_all add: demo_db_def)
  have call: "reserve_analysis demo_service demo_iso id id (demo_ids 10) 5 demo_reserve demo_db
      = (Inr \<lparr>res_analysis_id = ''an-1'', res_created = True, res_duplicate = None\<rparr>, snd demo_reserved)"
    using demo_reserved_eq by (simp add: demo_reserved_def)
  have "evolves demo_service (snd demo_reserved) (snd demo_started)"
    by (intro demo_started_later demo_failed_later evolves.same)
  from reserve_analysis_replay [where env = id and gap = id, OF db _ _ call _ this] show ?thesis
    by (simp add: evolves.same)
qed

section \<open>Isolation\<close>

text \<open>The rows of the analyses somebody else owns.\<close>

definition foreign_rows :: "uuid \<Rightarrow> db \<Rightarrow> analysis list \<times> run list \<times> state_event list" where
  "foreign_rows owner d =
     (let as = filter (\<lambda>a. an_owner a \<noteq> owner) (analyses d); ids = an_id ` set as
      in (as, filter (\<lambda>r. run_analysis_id r \<in> ids) (runs d),
          filter (\<lambda>e. ev_analysis_id e \<in> ids) (events d)))"

lemma foreign_rowsI:
  assumes "filter (\<lambda>a. an_owner a \<noteq> owner) (analyses d') = filter (\<lambda>a. an_owner a \<noteq> owner) (analyses d)"
    and "\<And>ids. ids = an_id ` {a \<in> set (analyses d). an_owner a \<noteq> owner} \<Longrightarrow>
        filter (\<lambda>r. run_analysis_id r \<in> ids) (runs d') = filter (\<lambda>r. run_analysis_id r \<in> ids) (runs d)"
    and "\<And>ids. ids = an_id ` {a \<in> set (analyses d). an_owner a \<noteq> owner} \<Longrightarrow>
        filter (\<lambda>e. ev_analysis_id e \<in> ids) (events d') = filter (\<lambda>e. ev_analysis_id e \<in> ids) (events d)"
  shows "foreign_rows owner d' = foreign_rows owner d"
proof -
  have ids: "an_id ` set (filter (\<lambda>a. an_owner a \<noteq> owner) (analyses d)) = an_id ` {a \<in> set (analyses d). an_owner a \<noteq> owner}"
    by simp
  show ?thesis
    unfolding foreign_rows_def Let_def assms(1) assms(2) [OF ids] assms(3) [OF ids] ..
qed

lemma filter_update_none:
  "(\<And>r. r \<in> set rows \<Longrightarrow> p r \<Longrightarrow> \<not> q r \<and> \<not> q (f r)) \<Longrightarrow> filter q (update_where p f rows) = filter q rows"
  by (induction rows) (auto simp: update_where_def)

lemma own_not_foreign:
  assumes "keys_ok d" and "x \<in> set (analyses d)" and "an_owner x = owner"
  shows "an_id x \<notin> an_id ` {a \<in> set (analyses d). an_owner a \<noteq> owner}"
proof
  assume "an_id x \<in> an_id ` {a \<in> set (analyses d). an_owner a \<noteq> owner}"
  then obtain y where "y \<in> set (analyses d)" "an_owner y \<noteq> owner" "an_id y = an_id x" by auto
  with assms same_analysis [of d x y] show False by (simp add: keys_ok_def)
qed

lemma start_write_foreign:
  assumes "start_run_write svc u now rq d = Inr (res, d')" and keys: "keys_ok d"
  shows "foreign_rows (st_owner rq) d' = foreign_rows (st_owner rq) d"
  using assms(1)
proof (rule start_run_write_shape)
  fix a r more
  assume a: "get_analysis d (st_analysis_id rq) = Some a" "an_owner a = st_owner rq"
    and r: "r = new_run svc (u 1) now a (source_checksum d a) (st_state rq) (st_lease rq)
           (greatest run_attempt (runs_of d (an_id a)))"
    and more: "\<forall>e\<in>set more. ev_run_id e = None \<and> ev_analysis_id e = an_id a"
    and d': "d' = d\<lparr>runs := runs d @ [r],
        events := events d @ started_event (u 2) now r # more,
        analyses := (if st_state rq = Processing \<and> an_state a \<noteq> Processing
          then update_where (\<lambda>x. an_id x = an_id a) (\<lambda>_. mark_processing now a) (analyses d)
          else analyses d),
        idem_records := idem_records d @
          [(in_progress_record svc (u 0) now (st_owner rq) ''run_start''
              (st_idempotency_key rq) (st_fingerprint rq))
           \<lparr>idem_status := IdemCompleted, idem_resource_type := Some ''analysis_run'',
             idem_resource_id := Some (uuid_text (run_id r))\<rparr>]\<rparr>"
  have aa: "a \<in> set (analyses d)" using get_analysis_Some [OF a(1)] by simp
  note own = own_not_foreign [OF keys aa a(2)]
  show ?thesis
  proof (rule foreign_rowsI)
    have "an_owner x = st_owner rq" if "x \<in> set (analyses d)" "an_id x = an_id a" for x
      using that own a(2) by (metis (mono_tags, lifting) image_eqI mem_Collect_eq)
    then show "filter (\<lambda>a. an_owner a \<noteq> st_owner rq) (analyses d') = filter (\<lambda>a. an_owner a \<noteq> st_owner rq) (analyses d)"
      using a(2) by (auto simp: d' mark_processing_def intro!: filter_update_none)
  qed (use own more in \<open>auto simp: d' r started_event_def filter_empty_conv\<close>)
qed

lemma transition_write_foreign:
  assumes "transition_write u now k v prev new reason d = Inr (res, d')" and keys: "keys_ok d"
    and own: "\<And>r. r \<in> set (runs d) \<Longrightarrow> run_id r = k \<Longrightarrow>
      \<exists>a\<in>set (analyses d). an_id a = run_analysis_id r \<and> an_owner a = owner"
  shows "foreign_rows owner d' = foreign_rows owner d"
  using assms(1)
proof (rule transition_write_shape)
  fix r a more
  assume r: "r \<in> set (runs d)" "run_id r = k"
    and a: "get_analysis d (run_analysis_id r) = Some a"
    and more: "\<forall>e\<in>set more. ev_run_id e = None \<and> ev_analysis_id e = an_id a"
    and d': "d' = d\<lparr>runs := update_where (\<lambda>x. run_id x = k) (\<lambda>_. advance_run new v now r) (runs d),
        analyses := (if new \<in> {Processing, Completed, Failed, Cancelled}
          then update_where (\<lambda>x. an_id x = an_id a) (\<lambda>_. follow_run k new now a) (analyses d)
          else analyses d),
        events := events d @ more @ [run_moved_event (u 1) now (advance_run new v now r) prev reason]\<rparr>"
  have aa: "a \<in> set (analyses d)" "an_id a = run_analysis_id r" using get_analysis_Some [OF a] by auto
  from own [OF r] obtain b where "b \<in> set (analyses d)" "an_id b = run_analysis_id r" "an_owner b = owner" by blast
  then have o: "an_owner a = owner" using same_analysis [of d a b] aa keys by (simp add: keys_ok_def)
  note nf = own_not_foreign [OF keys aa(1) o]
  show ?thesis
  proof (rule foreign_rowsI)
    have "an_owner x = owner" if "x \<in> set (analyses d)" "an_id x = an_id a" for x
      using that nf o by (metis (mono_tags, lifting) image_eqI mem_Collect_eq)
    then show "filter (\<lambda>a. an_owner a \<noteq> owner) (analyses d') = filter (\<lambda>a. an_owner a \<noteq> owner) (analyses d)"
      using o by (auto simp: d' intro!: filter_update_none)
  next
    fix ids assume ids: "ids = an_id ` {a \<in> set (analyses d). an_owner a \<noteq> owner}"
    have "x = r" if "x \<in> set (runs d)" "run_id x = k" for x
      using same_run [of d r x] that r keys by (simp add: keys_ok_def)
    then show "filter (\<lambda>r. run_analysis_id r \<in> ids) (runs d') = filter (\<lambda>r. run_analysis_id r \<in> ids) (runs d)"
      using nf aa by (auto simp: d' ids intro!: filter_update_none)
  qed (use nf more aa in \<open>auto simp: d' run_moved_event_def filter_empty_conv\<close>)
qed

lemma create_reservation_foreign:
  "create_reservation svc u now rq d = Inr (res, d') \<Longrightarrow> foreign_rows (rq_owner rq) d' = foreign_rows (rq_owner rq) d"
proof (erule create_reservation_shape)
  fix v a r ev rec
  assume a: "a = reserved_analysis (u 1) now rq" and r: "r = new_run svc (u 2) now a (Some (rq_checksum rq)) Processing None
           (greatest run_attempt (runs_of d (an_id a)))"
    and fresh: "an_id a \<notin> an_id ` set (analyses d)"
    and ev: "ev_run_id ev = None \<and> ev_analysis_id ev = an_id a"
    and d': "d' = d\<lparr>videos := videos d @ [v], analyses := analyses d @ [a], runs := runs d @ [r],
        events := events d @ [ev, started_event (u 4) now r],
        idem_records := idem_records d @ [rec]\<rparr>"
  have "an_id a \<notin> an_id ` {a \<in> set (analyses d). an_owner a \<noteq> rq_owner rq}" using fresh by auto
  then show "foreign_rows (rq_owner rq) d' = foreign_rows (rq_owner rq) d"
    using ev by (intro foreign_rowsI) (auto simp: d' r started_event_def reserved_analysis_def a)
qed

lemma foreign_rows_cong:
  "analyses d' = analyses d \<Longrightarrow> runs d' = runs d \<Longrightarrow> events d' = events d \<Longrightarrow>
     foreign_rows owner d' = foreign_rows owner d"
  by (simp add: foreign_rows_def)

lemma reserve_write_foreign:
  assumes "reserve_write svc isofmt u now rq d = Inr (res, d')"
  shows "foreign_rows (rq_owner rq) d' = foreign_rows (rq_owner rq) d"
proof (cases "if rq_allow_duplicate rq then None
            else find_uploaded_video d (rq_owner rq) (rq_checksum rq) (rq_sport rq)")
  case None
  with assms show ?thesis by (simp add: reserve_write_def create_reservation_foreign)
next
  case (Some m)
  with assms show ?thesis
    by (auto simp: reserve_write_def resultE_iffs dest!: insert_idem_Inr intro: foreign_rows_cong)
qed

lemma start_recover_foreign:
  "start_run_recover svc k now rq d = Inr (res, d') \<Longrightarrow> foreign_rows owner d' = foreign_rows owner d"
  by (auto simp: start_run_recover_def resultE_iffs split: option.splits dest!: insert_idem_Inr
      intro: foreign_rows_cong)

text \<open>
  C6: Isolation of owners: no call of \<open>start_run\<close>,
  \<open>transition_run\<close> or \<open>reserve_analysis\<close> changes an analysis
  of another owner, or any run or event of such an analysis.
\<close>

theorem other_owners_untouched:
  assumes "evolves svc empty_db d"
  shows "foreign_rows (st_owner sq) (snd (start_run svc id id u now sq d)) = foreign_rows (st_owner sq) d
    \<and> foreign_rows owner (snd (transition_run id u now owner k v new reason d)) = foreign_rows owner d
    \<and> foreign_rows (rq_owner rq) (snd (reserve_analysis svc isofmt id id u now rq d)) = foreign_rows (rq_owner rq) d"
proof (intro conjI)
  have keys: "keys_ok d" using evolves_run_inv [OF assms run_inv_empty] by (simp add: run_inv_def)
  show "foreign_rows (st_owner sq) (snd (start_run svc id id u now sq d)) = foreign_rows (st_owner sq) d"
    using start_cases [of svc id id u now sq d] keys by (auto dest: start_write_foreign start_recover_foreign)
  show "foreign_rows (rq_owner rq) (snd (reserve_analysis svc isofmt id id u now rq d)) = foreign_rows (rq_owner rq) d"
    using reserve_cases [of svc isofmt id id u now rq d] by (auto dest: reserve_write_foreign)
  show "foreign_rows owner (snd (transition_run id u now owner k v new reason d)) = foreign_rows owner d"
  proof (cases "owned_run d k owner")
    case None
    then show ?thesis by (simp add: transition_run_def)
  next
    case (Some r)
    note r = owned_run_Some [OF Some]
    have "\<exists>a\<in>set (analyses d). an_id a = run_analysis_id s \<and> an_owner a = owner"
      if "s \<in> set (runs d)" "run_id s = k" for s
      using same_run [of d r s] that r keys by (simp add: keys_ok_def)
    then show ?thesis
      using transition_cases [of id u now owner k v new reason d] keys
      by (auto dest: transition_write_foreign)
  qed
qed

theorem other_owners_untouched_witness:
  "foreign_rows 2 (snd (transition_run id (demo_ids 20) 6 2 12 1 Failed None (snd demo_reserved)))
     = ([demo_analysis], [demo_run], events (snd demo_reserved))"
proof -
  have "foreign_rows 2 (snd demo_reserved) = ([demo_analysis], [demo_run], events (snd demo_reserved))"
    by (simp add: foreign_rows_def demo_reserved_eq demo_db1_def demo_run_def demo_analysis_def
        reserved_analysis_def demo_reserve_def started_event_def)
  with other_owners_untouched [OF demo_reachable(1), THEN conjunct2, THEN conjunct1,
      of 2 "demo_ids 20" 6 12 1 Failed None]
  show ?thesis by (simp only:)
qed

end
