(* ===== verification/Stage_Evolution.thy ===== *)
theory Stage_Evolution
  imports Stage_Laws
begin

text \<open>
  Every interleaving of the stage and artifact operations (\<open>stage_evolves\<close>): it keeps the
  invariants (\<open>stage_evolves_inv\<close>) and only moves rows forward (\<open>stage_evolves_later\<close>).
\<close>

section \<open>Every interleaving\<close>

text \<open>
  \<open>registry\<close> and \<open>invalidate\<close> are what \<open>persist_job\<close> does to artifacts; \<open>elsewhere\<close>
  is the rest of the system, which leaves stages and artifacts alone.
\<close>

inductive stage_evolves :: "db \<Rightarrow> db \<Rightarrow> bool" where
  same: "stage_evolves d d"
| start: "stage_evolves d0 d \<Longrightarrow> stage_evolves d (gap d) \<Longrightarrow>
    stage_evolves d0 (snd (start_stage_execution gap k now rq d))"
| transition: "stage_evolves d0 d \<Longrightarrow> stage_evolves d (env d) \<Longrightarrow>
    stage_evolves d0 (snd (transition_stage_execution env now owner k v new c d))"
| register: "stage_evolves d0 d \<Longrightarrow> stage_evolves d0 (snd (register_stage_artifacts u now owner k xs d))"
| registry: "stage_evolves d0 d \<Longrightarrow> register_artifacts u now owner a run None xs d = Inr (ks, d') \<Longrightarrow>
    stage_evolves d0 d'"
| invalidate: "stage_evolves d0 d \<Longrightarrow> stage_evolves d0
    (modify_artifacts p (\<lambda>r. r\<lparr>art_is_current := False, art_updated_at := now\<rparr>) d)"
| elsewhere: "stage_evolves d0 d \<Longrightarrow> stages d' = stages d \<Longrightarrow> artifacts d' = artifacts d \<Longrightarrow>
    stage_evolves d0 d'"

lemma start_stage_cases:
  "snd (start_stage_execution gap k now rq d) \<in> {d, gap d}
   \<or> (\<exists>res. start_stage_write k now rq d = Inr (res, snd (start_stage_execution gap k now rq d)))"
  by (auto simp: start_stage_execution_def split: sum.splits prod.splits)

lemma transition_stage_cases:
  "snd (transition_stage_execution env now owner k v new c d) \<in> {d, env d}
   \<or> (\<exists>prev res. stage_allowed prev new \<and> transition_stage_write now k v prev new c (env d)
        = Inr (res, snd (transition_stage_execution env now owner k v new c d)))"
  by (auto simp: transition_stage_execution_def transact_def split: option.splits sum.splits prod.splits)

lemma register_stage_shape:
  assumes "register_stage_body u now owner k xs d = Inr (rows, d')"
  obtains s a ks d1 p where "s \<in> set (stages d)" "se_id s = k" "active_state (se_state s)"
    "owned_analysis (get_analysis d (se_analysis_id s)) owner = Inr a" "an_id a = se_analysis_id s"
    "register_artifacts u now owner (se_analysis_id s) (map_option run_id (get_run d (se_run_id s))) (Some k) xs d = Inr (ks, d1)"
    "rows = List.map_filter (get_artifact_row d1) ks"
    "d' = modify_stage k (\<lambda>r. r\<lparr>se_outputs := map reference_of rows, se_updated_at := now\<rparr>) d1"
    "owned_stage d k owner = Some s" "stage_artifact_prefix (se_stage_type s) (se_attempt s) = Inr p"
    "list_all (\<lambda>x. starts_with p (input_key x)) xs"
proof -
  from assms obtain s where own: "owned_stage d k owner = Some s" by (auto simp: register_stage_body_def split: option.splits)
  with assms obtain a ks d1 p where *: "se_state s \<in> {Queued, Processing}"
    "owned_analysis (get_analysis d (se_analysis_id s)) owner = Inr a"
    "register_artifacts u now owner (an_id a) (map_option run_id (get_run d (se_run_id s))) (Some (se_id s)) xs d = Inr (ks, d1)"
    "rows = List.map_filter (get_artifact_row d1) ks"
    "d' = modify_stage k (\<lambda>r. r\<lparr>se_outputs := map reference_of rows, se_updated_at := now\<rparr>) d1"
    "stage_artifact_prefix (se_stage_type s) (se_attempt s) = Inr p" "list_all (\<lambda>x. starts_with p (input_key x)) xs"
    unfolding register_stage_body_def own option.case Let_def bindE_Inr_iff requireE_Inr_iff
    by (elim exE conjE) (auto split: prod.splits)
  moreover from own have "s \<in> set (stages d)" "se_id s = k" by (auto simp: owned_stage_def dest: find_Some_in)
  moreover from *(2) have "an_id a = se_analysis_id s" by (auto simp: owned_analysis_Inr dest: get_analysis_Some)
  ultimately show ?thesis using own by (intro that) (auto simp: active_state_def)
qed

lemma stage_inv_outputs:
  assumes "stage_inv d" and "stages d' = update_where p (\<lambda>r. r\<lparr>se_outputs := os, se_updated_at := now\<rparr>) (stages d)"
  shows "stage_inv d'"
proof -
  have so: "map se_attempt (stages_of d' a ty) = map se_attempt (stages_of d a ty)" for a ty
    by (rule stages_of_map) (simp add: assms(2) map_update_where)
  have "length (stages_of d' a ty) = length (stages_of d a ty)" for a ty
    using arg_cong [OF so [of a ty], of length] by simp
  moreover have "at_most_one (active_stage_of a ty) (stages d')" for a ty
    unfolding assms(2) by (rule at_most_one_update) (use assms(1) in \<open>auto simp: stage_inv_def active_stage_of_def\<close>)
  ultimately show ?thesis using assms(1) so
    by (auto simp: stage_inv_def assms(2) map_update_where in_update_where)
qed

lemma stage_inv_cong: "stage_inv d \<Longrightarrow> stages d' = stages d \<Longrightarrow> stage_inv d'"
  by (simp add: stage_inv_def stages_of_def)

lemma artifact_inv_cong: "artifact_inv d \<Longrightarrow> artifacts d' = artifacts d \<Longrightarrow> artifact_inv d'"
  by (simp add: artifact_inv_def)

lemma start_stage_frame: "start_stage_write k now rq d = Inr (res, d') \<Longrightarrow> artifacts d' = artifacts d"
  by (drule start_stage_write_shape) auto

lemma artifact_inv_transition:
  assumes "artifact_inv d" and "transition_stage_write now k v prev new c d = Inr (res, d')"
  shows "artifact_inv d'"
  using assms(2)
proof (rule transition_stage_shape)
  fix s
  assume a: "artifacts d' = (if new = Completed then update_where
        (superseded_by (modify_stage k (\<lambda>_. advance_stage new v now c s) d) (advance_stage new v now c s))
        (\<lambda>r. r\<lparr>art_is_current := False, art_updated_at := now\<rparr>) (artifacts d) else artifacts d)"
  show ?thesis
    using a assms(1) by (cases "new = Completed") (auto intro: artifact_inv_update artifact_inv_cong)
qed

lemma register_stage_inv:
  assumes "stage_inv d" and "artifact_inv d" and "register_stage_body u now owner k xs d = Inr (rows, d')"
  shows "stage_inv d' \<and> artifact_inv d'"
  using assms(3)
proof (rule register_stage_shape)
  fix s a ks d1
  assume r: "register_artifacts u now owner (se_analysis_id s) (map_option run_id (get_run d (se_run_id s))) (Some k) xs d = Inr (ks, d1)"
    and d': "d' = modify_stage k (\<lambda>r. r\<lparr>se_outputs := map reference_of rows, se_updated_at := now\<rparr>) d1"
  have "stage_inv d1" using register_artifacts_frame [OF r] assms(1) by (auto intro: stage_inv_cong)
  then have "stage_inv d'" by (rule stage_inv_outputs) (simp add: d' modify_stage_def)
  moreover have "artifact_inv d1" using register_artifacts_inv [OF r assms(2)] .
  then have "artifact_inv d'" by (rule artifact_inv_cong) (simp add: d' modify_stage_def)
  ultimately show ?thesis ..
qed

lemma register_stage_cases:
  "snd (register_stage_artifacts u now owner k xs d) = d
   \<or> (\<exists>rows. register_stage_body u now owner k xs d = Inr (rows, snd (register_stage_artifacts u now owner k xs d)))"
  by (auto simp: register_stage_artifacts_def transact_def split: sum.splits prod.splits)

lemma stage_evolves_inv: "stage_evolves d0 d \<Longrightarrow> stage_inv d0 \<and> artifact_inv d0 \<Longrightarrow> stage_inv d \<and> artifact_inv d"
proof (induction rule: stage_evolves.induct)
  case (start d0 d gap k now rq)
  then show ?case
    using start_stage_cases [of gap k now rq d]
    by (auto intro: stage_inv_start dest: start_stage_frame intro: artifact_inv_cong)
next
  case (transition d0 d env now owner k v new c)
  then show ?case
    using transition_stage_cases [of env now owner k v new c d]
    by (auto intro: stage_inv_transition artifact_inv_transition)
next
  case (register d0 d u now owner k xs)
  then have inv: "stage_inv d" "artifact_inv d" by blast+
  from register_stage_cases [of u now owner k xs d] show ?case
  proof
    assume "snd (register_stage_artifacts u now owner k xs d) = d"
    with inv show ?thesis by simp
  next
    assume "\<exists>rows. register_stage_body u now owner k xs d = Inr (rows, snd (register_stage_artifacts u now owner k xs d))"
    then show ?thesis using register_stage_inv [OF inv] by blast
  qed
next
  case (registry d0 d u now owner a run xs ks d')
  then have inv: "stage_inv d" "artifact_inv d" by blast+
  have "stage_inv d'" using register_artifacts_frame [OF registry(2)] by (blast intro: stage_inv_cong [OF inv(1)])
  with register_artifacts_inv [OF registry(2) inv(2)] show ?case by simp
next
  case (invalidate d0 d p now)
  let ?d = "modify_artifacts p (\<lambda>r. r\<lparr>art_is_current := False, art_updated_at := now\<rparr>) d"
  from invalidate have "stage_inv d" "artifact_inv d" by blast+
  moreover have "stage_inv ?d" by (rule stage_inv_cong [OF \<open>stage_inv d\<close>]) (simp add: modify_artifacts_def)
  moreover have "artifact_inv ?d" by (rule artifact_inv_update [OF \<open>artifact_inv d\<close>]) (simp add: modify_artifacts_def)
  ultimately show ?case by blast
next
  case (elsewhere d0 d d')
  then show ?case by (auto intro: stage_inv_cong artifact_inv_cong)
qed simp

section \<open>Progress\<close>

definition stage_later :: "stage_execution \<Rightarrow> stage_execution \<Rightarrow> bool" where
  "stage_later r s \<longleftrightarrow> se_id s = se_id r \<and> se_analysis_id s = se_analysis_id r
     \<and> se_stage_type s = se_stage_type r \<and> se_attempt s = se_attempt r
     \<and> (s = r \<or> active_state (se_state r))"

definition registry_later :: "db \<Rightarrow> db \<Rightarrow> bool" where
  "registry_later d e \<longleftrightarrow> (\<forall>r\<in>set (stages d). \<exists>s\<in>set (stages e). stage_later r s)
     \<and> (\<forall>r\<in>set (artifacts d). \<exists>s\<in>set (artifacts e). artifact_kept r s)"

lemma stage_later_refl: "stage_later r r" and artifact_kept_refl: "artifact_kept x x"
  by (simp_all add: stage_later_def artifact_kept_def)

lemma stage_later_trans: "stage_later r s \<Longrightarrow> stage_later s t \<Longrightarrow> stage_later r t"
  by (auto simp: stage_later_def)

lemma artifact_kept_trans: "artifact_kept r s \<Longrightarrow> artifact_kept s t \<Longrightarrow> artifact_kept r t"
  by (cases r; cases s; cases t) (auto simp: artifact_kept_def)

lemma registry_later_refl: "registry_later d d"
  by (auto simp: registry_later_def intro: stage_later_refl artifact_kept_refl)

lemma registry_later_trans: "registry_later d e \<Longrightarrow> registry_later e f \<Longrightarrow> registry_later d f"
  unfolding registry_later_def by (meson stage_later_trans artifact_kept_trans)

lemma retired_kept:
  "\<forall>r\<in>set rows. \<exists>s\<in>set (update_where p (\<lambda>r. r\<lparr>art_is_current := False, art_updated_at := now\<rparr>) rows). artifact_kept r s"
proof
  fix r assume r: "r \<in> set rows"
  let ?s = "if p r then r\<lparr>art_is_current := False, art_updated_at := now\<rparr> else r"
  have "artifact_kept r ?s" by (simp add: artifact_kept_def)
  moreover have "?s \<in> set (update_where p (\<lambda>r. r\<lparr>art_is_current := False, art_updated_at := now\<rparr>) rows)"
    using r by (auto simp: in_update_where)
  ultimately show "\<exists>s\<in>set (update_where p (\<lambda>r. r\<lparr>art_is_current := False, art_updated_at := now\<rparr>) rows). artifact_kept r s" ..
qed

lemma registry_later_artifacts:
  "stages e = stages d \<Longrightarrow> \<forall>r\<in>set (artifacts d). \<exists>s\<in>set (artifacts e). artifact_kept r s \<Longrightarrow> registry_later d e"
  by (auto simp: registry_later_def intro: stage_later_refl)

lemma register_one_later:
  assumes "register_one k now owner a run st x d = Inr (k', d')"
  shows "registry_later d d'"
  using assms
proof (cases rule: register_one_cases)
  case (1 c)
  then show ?thesis by (simp add: registry_later_refl)
next
  case (2 c)
  have "\<forall>r\<in>set (artifacts d). \<exists>s\<in>set (artifacts (retire_artifact now c d)). artifact_kept r s"
    using retired_kept [of "artifacts d" "\<lambda>r. art_id r = art_id c" now] by (simp add: retire_artifact_def modify_artifacts_def)
  then show ?thesis
    using insert_artifact_Inr [OF 2(4)] by (intro registry_later_artifacts) fastforce+
next
  case 3
  then show ?thesis
    by (intro registry_later_artifacts) (auto dest!: insert_artifact_Inr intro: artifact_kept_refl)
qed

lemma register_artifacts_later:
  "register_artifacts u now owner a run st xs d = Inr (ks, d') \<Longrightarrow> registry_later d d'"
proof (induction xs arbitrary: u ks d)
  case Nil
  then show ?case by (simp add: registry_later_refl)
next
  case (Cons x xs)
  then obtain k ks' d1 where one: "register_one (u 0) now owner a run st x d = Inr (k, d1)"
    and rest: "register_artifacts (\<lambda>i. u (Suc i)) now owner a run st xs d1 = Inr (ks', d')"
    by (auto simp: resultE_iffs)
  show ?case by (rule registry_later_trans [OF register_one_later [OF one] Cons.IH [OF rest]])
qed

lemma registry_later_modify_stage:
  assumes "\<And>r. r \<in> set (stages d) \<Longrightarrow> se_id r = k \<Longrightarrow> stage_later r (f r)"
    and "stages e = update_where (\<lambda>r. se_id r = k) f (stages d)"
    and "\<forall>r\<in>set (artifacts d). \<exists>s\<in>set (artifacts e). artifact_kept r s"
  shows "registry_later d e"
proof -
  have "\<exists>s\<in>set (stages e). stage_later r s" if r: "r \<in> set (stages d)" for r
  proof -
    have "stage_later r (if se_id r = k then f r else r)" using assms(1) [OF r] by (simp add: stage_later_refl)
    moreover have "(if se_id r = k then f r else r) \<in> set (stages e)"
      using r unfolding assms(2) in_update_where by blast
    ultimately show ?thesis ..
  qed
  with assms(3) show ?thesis by (simp add: registry_later_def)
qed


lemma start_stage_later: "start_stage_write k now rq d = Inr (res, d') \<Longrightarrow> registry_later d d'"
  by (drule start_stage_write_shape) (auto simp: registry_later_def intro: stage_later_refl artifact_kept_refl)

lemma transition_stage_later:
  assumes w: "transition_stage_write now k v prev new c d = Inr (res, d')"
    and ok: "stage_allowed prev new" and keys: "distinct (map se_id (stages d))"
  shows "registry_later d d'"
  using w
proof (rule transition_stage_shape)
  fix s
  assume s: "s \<in> set (stages d)" "se_id s = k" "se_row_version s = v" "se_state s = prev"
    and d': "stages d' = stages (modify_stage k (\<lambda>_. advance_stage new v now c s) d)"
    and a: "artifacts d' = (if new = Completed then update_where
        (superseded_by (modify_stage k (\<lambda>_. advance_stage new v now c s) d) (advance_stage new v now c s))
        (\<lambda>r. r\<lparr>art_is_current := False, art_updated_at := now\<rparr>) (artifacts d) else artifacts d)"
  show ?thesis
  proof (rule registry_later_modify_stage [of d k "\<lambda>_. advance_stage new v now c s"])
    fix r assume "r \<in> set (stages d)" "se_id r = k"
    with s keys have "r = s" by (auto simp: distinct_map dest: inj_onD)
    with ok s show "stage_later r (advance_stage new v now c s)" by (simp add: stage_later_def stage_allowed_active)
  next
    show "\<forall>r\<in>set (artifacts d). \<exists>s\<in>set (artifacts d'). artifact_kept r s"
      using retired_kept [of "artifacts d"] unfolding a by (auto intro: artifact_kept_refl)
  qed (simp add: d' modify_stage_def)
qed

lemma register_stage_later:
  assumes "register_stage_body u now owner k xs d = Inr (rows, d')" and keys: "distinct (map se_id (stages d))"
  shows "registry_later d d'"
  using assms(1)
proof (rule register_stage_shape)
  fix s a ks d1
  assume s: "s \<in> set (stages d)" "se_id s = k" "active_state (se_state s)"
    and r: "register_artifacts u now owner (se_analysis_id s) (map_option run_id (get_run d (se_run_id s))) (Some k) xs d = Inr (ks, d1)"
    and d': "d' = modify_stage k (\<lambda>r. r\<lparr>se_outputs := map reference_of rows, se_updated_at := now\<rparr>) d1"
  note fr = register_artifacts_frame [OF r]
  have "registry_later d1 d'"
  proof (rule registry_later_modify_stage)
    fix t assume "t \<in> set (stages d1)" "se_id t = k"
    with s keys fr have "t = s" by (auto simp: distinct_map dest: inj_onD)
    with s(3) show "stage_later t (t\<lparr>se_outputs := map reference_of rows, se_updated_at := now\<rparr>)"
      by (simp add: stage_later_def)
  qed (auto simp: d' modify_stage_def intro: artifact_kept_refl)
  with register_artifacts_later [OF r] show ?thesis by (rule registry_later_trans)
qed

lemma stage_evolves_later: "stage_evolves d0 d \<Longrightarrow> stage_inv d0 \<and> artifact_inv d0 \<Longrightarrow> registry_later d0 d"
proof (induction rule: stage_evolves.induct)
  case (same d)
  show ?case by (rule registry_later_refl)
next
  case (start d0 d gap k now rq)
  have inv: "stage_inv d \<and> artifact_inv d" using stage_evolves_inv [OF start(1)] start(5) by simp
  then have later: "registry_later d0 d" "registry_later d (gap d)" using start by blast+
  with start_stage_cases [of gap k now rq d] show ?case
    by (auto intro: registry_later_trans dest: start_stage_later)
next
  case (transition d0 d env now owner k v new c)
  have inv: "stage_inv d \<and> artifact_inv d" using stage_evolves_inv [OF transition(1)] transition(5) by simp
  then have inv': "stage_inv (env d)" using transition(2) stage_evolves_inv by blast
  have later: "registry_later d0 d" "registry_later d (env d)" using transition inv by blast+
  from transition_stage_cases [of env now owner k v new c d] show ?case
  proof (elim disjE exE conjE)
    fix prev res assume "stage_allowed prev new" "transition_stage_write now k v prev new c (env d)
        = Inr (res, snd (transition_stage_execution env now owner k v new c d))"
    from transition_stage_later [OF this(2,1)] inv' later show ?thesis
      by (auto simp: stage_inv_def intro: registry_later_trans)
  qed (use later in \<open>auto intro: registry_later_trans\<close>)
next
  case (register d0 d u now owner k xs)
  then have inv: "stage_inv d" and later: "registry_later d0 d" using stage_evolves_inv by blast+
  from register_stage_cases [of u now owner k xs d] show ?case
  proof (elim disjE exE)
    fix rows assume "register_stage_body u now owner k xs d = Inr (rows, snd (register_stage_artifacts u now owner k xs d))"
    from register_stage_later [OF this] inv later show ?thesis
      by (auto simp: stage_inv_def intro: registry_later_trans)
  qed (use later in simp)
next
  case (registry d0 d u now owner a run xs ks d')
  then show ?case using register_artifacts_later [OF registry(2)] by (blast intro: registry_later_trans)
next
  case (invalidate d0 d p now)
  have "registry_later d (modify_artifacts p (\<lambda>r. r\<lparr>art_is_current := False, art_updated_at := now\<rparr>) d)"
    using retired_kept [of "artifacts d" p now] by (intro registry_later_artifacts) (simp_all add: modify_artifacts_def)
  with invalidate show ?case by (blast intro: registry_later_trans)
next
  case (elsewhere d0 d d')
  then have "registry_later d d'" by (intro registry_later_artifacts) (auto intro: artifact_kept_refl)
  with elsewhere show ?case by (blast intro: registry_later_trans)
qed

section \<open>Reachable registries\<close>

lemma stage_inv_reachable: "stage_evolves empty_db d \<Longrightarrow> stage_inv d \<and> artifact_inv d"
proof -
  have "stage_inv empty_db \<and> artifact_inv empty_db"
    by (simp add: stage_inv_def artifact_inv_def empty_db_def stages_of_def)
  then show "stage_evolves empty_db d \<Longrightarrow> stage_inv d \<and> artifact_inv d" by (rule stage_evolves_inv [rotated])
qed

lemma superseded_none:
  assumes "distinct (map se_id (stages d))" and "s \<in> set (stages d)"
    and "stages d' = stages (modify_stage (se_id s) (\<lambda>_. s') d)" "se_id s' = se_id s"
      "se_analysis_id s' = se_analysis_id s" "se_stage_type s' = se_stage_type s"
    and "artifacts d' = update_where (superseded_by (modify_stage (se_id s) (\<lambda>_. s') d) s')
        (\<lambda>r. r\<lparr>art_is_current := False, art_updated_at := now\<rparr>) (artifacts d)"
    and "r \<in> set (artifacts d')" "art_is_current r" "t \<in> set (stages d')" "art_stage_id r = Some (se_id t)"
      "se_analysis_id t = se_analysis_id s" "se_stage_type t = se_stage_type s"
  shows "se_id t = se_id s"
proof (rule ccontr)
  assume ne: "se_id t \<noteq> se_id s"
  let ?p = "superseded_by (modify_stage (se_id s) (\<lambda>_. s') d) s'"
  obtain r0 where r0: "r = (if ?p r0 then r0\<lparr>art_is_current := False, art_updated_at := now\<rparr> else r0)"
    using assms(8) unfolding assms(7) in_update_where by blast
  have r: "\<not> ?p r"
  proof (cases "?p r0")
    case True
    then have "\<not> art_is_current r" using r0 by simp
    with assms(9) show ?thesis by simp
  next
    case False
    with r0 show ?thesis by simp
  qed
  have "superseded_by (modify_stage (se_id s) (\<lambda>_. s') d) s' r"
    unfolding superseded_by_def assms(3) [symmetric] assms(4-6)
    using assms(9-13) ne by blast
  with r show False ..
qed

lemma find_key:
  assumes "distinct (map f rows)" and "r \<in> set rows"
  shows "find (\<lambda>s. f s = f r) rows = Some r"
  using assms by (induction rows) (auto simp: image_iff)

lemma map_filter_rows:
  "list_all2 (holds_input d a) xs ks \<Longrightarrow> artifact_inv d \<Longrightarrow>
     list_all2 (\<lambda>x r. r \<in> set (artifacts d) \<and> current_logical_of a (input_key x) r \<and> registers x r)
       xs (List.map_filter (get_artifact_row d) ks)"
proof (induction xs ks rule: list_all2_induct)
  case Nil
  then show ?case by simp
next
  case (Cons x xs k ks)
  then obtain r where r: "r \<in> set (artifacts d)" "art_id r = k" "current_logical_of a (input_key x) r" "registers x r"
    by (auto simp: holds_input_def)
  have "get_artifact_row d k = Some r"
    using find_key [of art_id "artifacts d" r] r Cons.prems by (simp add: get_artifact_row_def artifact_inv_def)
  with Cons r show ?case by simp
qed


text \<open>A second registration of the same files, in the state the first one left.\<close>

lemma register_stage_again:
  assumes s: "owned_stage d k owner = Some s" "se_state s \<in> {Queued, Processing}"
    and a: "owned_analysis (get_analysis d (se_analysis_id s)) owner = Inr a" "an_id a = se_analysis_id s"
    and p: "stage_artifact_prefix (se_stage_type s) (se_attempt s) = Inr p"
      "list_all (\<lambda>x. starts_with p (input_key x)) xs"
    and d1: "stages d1 = stages d" "analyses d1 = analyses d"
    and d': "d' = modify_stage k (\<lambda>r. r\<lparr>se_outputs := os, se_updated_at := t\<rparr>) d1"
    and held: "list_all2 (holds_input d1 (se_analysis_id s)) xs ks" "artifact_inv d1"
  shows "\<exists>e. register_stage_artifacts u now owner k xs d'
      = (Inr (List.map_filter (get_artifact_row d1) ks), e) \<and> artifacts e = artifacts d1"
proof -
  have arts: "artifacts d' = artifacts d1" and an: "analyses d' = analyses d"
    by (simp_all add: d' modify_stage_def d1)
  have ga: "get_analysis d' = get_analysis d" by (simp add: fun_eq_iff get_analysis_def an)
  have gr: "get_artifact_row d' = get_artifact_row d1" by (simp add: fun_eq_iff get_artifact_row_def arts)
  let ?f = "\<lambda>r. if se_id r = k then r\<lparr>se_outputs := os, se_updated_at := t\<rparr> else r"
  have own: "owned_stage d' k owner = Some (?f s)"
    using s(1) unfolding owned_stage_def d' modify_stage_def
    by (simp add: find_update_where d1)
  have fs: "se_state (?f s) = se_state s" "se_stage_type (?f s) = se_stage_type s" "se_attempt (?f s) = se_attempt s"
    "se_analysis_id (?f s) = se_analysis_id s" by simp_all
  have "list_all2 (holds_input d' (se_analysis_id s)) xs ks" "artifact_inv d'"
    using held arts by (simp_all add: holds_input_def [abs_def] artifact_inv_def)
  note again = register_artifacts_again [OF this]
  have "register_stage_body u now owner k xs d' = Inr (List.map_filter (get_artifact_row d1) ks,
      modify_stage k (\<lambda>r. r\<lparr>se_outputs := map reference_of (List.map_filter (get_artifact_row d1) ks), se_updated_at := now\<rparr>) d')"
    unfolding register_stage_body_def own option.case fs ga a(1) p(1) bindE_simps a(2) again gr Let_def prod.case
    using s(2) p(2) by simp
  then show ?thesis by (simp add: register_stage_artifacts_def transact_def modify_stage_def arts)
qed

end
