(* ===== verification/Job_Saves.thy ===== *)
theory Job_Saves
  imports Job_Laws Stage_Evolution
begin

text \<open>
  The effect of a save on every table: stages and files change only as the stage operations
  change them (\<open>persist_job_stages\<close>), and the rows of the analysis and of its run are the
  ones \<open>saved_row_of\<close> and \<open>finish_run\<close> give (\<open>saved_job\<close>).
\<close>

section \<open>Stages and files\<close>

definition same_files :: "db \<Rightarrow> db \<Rightarrow> bool" where
  "same_files d e \<longleftrightarrow> stages e = stages d \<and> artifacts e = artifacts d"

lemma same_files_trans: "same_files d e \<Longrightarrow> same_files e f \<Longrightarrow> same_files d f"
  by (simp add: same_files_def)

lemma same_files_log: "add_event k now a p n ty actor reason d = Inr d' \<Longrightarrow> same_files d d'"
  "add_run_event k now r p n ty d = Inr d' \<Longrightarrow> same_files d d'"
  by (auto simp: same_files_def add_event_def add_run_event_def dest!: insert_event_Inr)

lemma same_files_new_run: "insert_new_run svc k now a cs st lease d = Inr (r, d') \<Longrightarrow> same_files d d'"
  by (auto simp: same_files_def dest!: insert_new_run_Inr insert_run_Inr)

lemma job_analysis_files:
  assumes "job_analysis svc as_time u now j k d = Inr (a, d0)"
  shows "same_files d d0"
proof (cases "get_analysis d k")
  case None
  with assms have "import_job svc as_time u now (jb_owner j) k (jb_payload j) d = Inr (a, d0)"
    by (auto simp: job_analysis_def split: if_splits)
  then obtain v b d1 d2 d3 d4 r st where "insert_video v d = Inr d1" "insert_analysis b d1 = Inr d2"
    "insert_new_run svc (u 1) now b None Processing None d2 = Inr (r, d3)"
    "add_event (u 2) now b None st ''legacy_imported'' ''development'' None d3 = Inr d4"
    "add_run_event (u 3) now r None Processing ''run_started'' d4 = Inr d0"
    by (auto simp: import_job_def Let_def resultE_iffs)
  then show ?thesis
    by (auto simp: same_files_def dest!: insert_video_Inr insert_analysis_Inr same_files_new_run same_files_log)
next
  case (Some b)
  with assms show ?thesis
    by (auto simp: job_analysis_def resultE_iffs owned_analysis_def same_files_def split: if_splits)
qed

lemma job_run_files: "job_run svc u now a st d = Inr (r, d') \<Longrightarrow> same_files d d'"
  by (auto simp: job_run_def Let_def resultE_iffs same_files_def split: if_splits dest!: same_files_new_run same_files_log)

lemma save_files:
  assumes e: "(if an_state a \<noteq> st then add_event i now b (Some (an_state a)) st ty actor None (modify_analysis k (\<lambda>_. b) d)
      else Inr (modify_analysis k (\<lambda>_. b) d)) = Inr d2"
    and f: "follow_source p xs now b d2 = Inr d3" and c: "close_run u now k st p r d3 = Inr d4"
  shows "same_files d d4"
proof -
  have "same_files d d2"
    using e same_files_log(1) [of i now b "Some (an_state a)" st ty actor None "modify_analysis k (\<lambda>_. b) d" d2]
    by (auto simp: same_files_def modify_analysis_def split: if_splits)
  moreover have "same_files d2 d3"
    using f by (auto simp: same_files_def follow_source_def modify_video_def Let_def split: option.splits json.splits if_splits)
  moreover have "same_files d3 d4"
    using c by (rule close_run_cases) (auto simp: same_files_def)
  ultimately show ?thesis by (blast intro: same_files_trans)
qed

lemma selection_files: "persist_player_selection k now owner a r sel d = Inr d' \<Longrightarrow> same_files d d'"
  by (auto simp: same_files_def persist_player_selection_def retire_selection_def Let_def split: option.splits if_splits
      dest!: insert_selection_Inr)

lemma stage_evolves_files: "stage_evolves d0 d \<Longrightarrow> same_files d e \<Longrightarrow> stage_evolves d0 e"
  unfolding same_files_def by (blast intro: stage_evolves.elsewhere)

lemma stage_evolves_retire: "stage_evolves d0 d \<Longrightarrow> stage_evolves d0 (retire_rows a p now d)"
  unfolding retire_rows_def by (rule stage_evolves.invalidate)

lemma persist_job_stages:
  assumes "stage_evolves d0 d"
  shows "stage_evolves d0 (snd (persist_job svc as_time u now j d))"
proof (cases "persist_job_body svc as_time u now j d")
  case (Inl e)
  with assms show ?thesis by (simp add: persist_job_def transact_def)
next
  case (Inr vd)
  then obtain v d' where w: "persist_job_body svc as_time u now j d = Inr (v, d')" by (cases vd) simp
  have "stage_evolves d0 d'"
    using w
  proof (rule persist_job_Inr)
    fix k and a :: analysis and e0 st r d1 sg d2 d3 d4 ks d5
    let ?p = "jb_payload j" and ?i = "invalidate k (jb_payload j) (an_job_payload a) now e0"
      and ?xs = "kept_artifacts (jb_payload j) (an_job_payload a) (jb_artifacts j)"
    let ?b = "save_analysis st sg ?p now a"
    assume a: "job_analysis svc as_time u now j k d = Inr (a, e0)" and r: "job_run svc u now a st ?i = Inr (r, d1)"
      and e: "(if an_state a \<noteq> st
        then add_event (u 6) now ?b (Some (an_state a)) st ''job_state_changed'' ''system'' None (modify_analysis k (\<lambda>_. ?b) d1)
        else Inr (modify_analysis k (\<lambda>_. ?b) d1)) = Inr d2"
      and f: "follow_source ?p ?xs now ?b d2 = Inr d3" and c: "close_run u now k st ?p r d3 = Inr d4"
      and g: "register_artifacts (\<lambda>i. u (9 + i)) now (jb_owner j) k (map_option run_id r) None ?xs d4 = Inr (ks, d5)"
      and h: "persist_player_selection (u 8) now (jb_owner j) k r (jb_selection j) d5 = Inr d'"
    have "stage_evolves d0 e0" by (rule stage_evolves_files [OF assms job_analysis_files [OF a]])
    then have "stage_evolves d0 ?i" by (simp add: invalidate_def Let_def stage_evolves_retire)
    then have "stage_evolves d0 d4"
      using job_run_files [OF r] save_files [OF e f c] by (blast intro: stage_evolves_files)
    then have "stage_evolves d0 d5" using g by (rule stage_evolves.registry)
    then show "stage_evolves d0 d'" using selection_files [OF h] by (rule stage_evolves_files)
  qed
  with w show ?thesis by (simp add: persist_job_def transact_def)
qed

section \<open>What a save leaves\<close>

definition closes :: "state \<Rightarrow> run option \<Rightarrow> run option" where
  "closes st r = (if st \<in> {Completed, Failed} then (case r of None \<Rightarrow> None
     | Some x \<Rightarrow> if active_state (run_state x) then Some x else None) else None)"

definition saved_row_of :: "state \<Rightarrow> stage \<Rightarrow> json_object \<Rightarrow> time \<Rightarrow> run option \<Rightarrow> analysis \<Rightarrow> analysis" where
  "saved_row_of st sg p now r a = (let b = save_analysis st sg p now a in
     case closes st r of Some x \<Rightarrow> if st = Completed then b\<lparr>an_promoted_run_id := Some (run_id x)\<rparr> else b | None \<Rightarrow> b)"

lemma saved_row_of_simps [simp]:
  "an_id (saved_row_of st sg p now r a) = an_id a" "an_owner (saved_row_of st sg p now r a) = an_owner a"
  "an_lifecycle (saved_row_of st sg p now r a) = an_lifecycle a" "an_sport (saved_row_of st sg p now r a) = an_sport a"
  "an_job_payload (saved_row_of st sg p now r a) = p" "an_state (saved_row_of st sg p now r a) = st"
  "an_row_version (saved_row_of st sg p now r a) = an_row_version a + 1"
  "an_video_id (saved_row_of st sg p now r a) = an_video_id a"
  by (simp_all add: saved_row_of_def Let_def split: option.split)

lemma saved_job:
  assumes inv: "run_inv d" and w: "persist_job svc as_time u now j d = (Inr v, d')"
  obtains k a d0 st sg r d1 d4 d5 ks where
    "jb_payload j ''analysis_id'' = Some (JStr k)" "job_analysis svc as_time u now j k d = Inr (a, d0)"
    "run_inv d0" "a \<in> set (analyses d0)" "an_id a = k" "an_owner a = jb_owner j" "an_lifecycle a = Live"
    "jb_payload j ''status'' = Some (JStr (state_value st))" "jb_payload j ''current_stage'' = Some (JStr (stage_value sg))"
    "payload_sport ValueError (jb_payload j) = Inr (an_sport a)" "v = an_row_version a + 1"
    "job_run svc u now a st (invalidate k (jb_payload j) (an_job_payload a) now d0) = Inr (r, d1)"
    "run_inv d1" "run_found d1 k r" "runs d1 = runs d0 \<or> st = Processing"
    "analyses d' = update_where (\<lambda>x. an_id x = k) (\<lambda>_. saved_row_of st sg (jb_payload j) now r a) (analyses d0)"
    "runs d' = (case closes st r of None \<Rightarrow> runs d1
       | Some x \<Rightarrow> update_where (\<lambda>y. run_id y = run_id x) (\<lambda>_. finish_run st (jb_payload j) now x) (runs d1))"
    "st = Processing \<Longrightarrow> \<exists>x. r = Some x \<and> active_state (run_state x)"
    "artifacts d4 = artifacts (invalidate k (jb_payload j) (an_job_payload a) now d0)"
    "register_artifacts (\<lambda>i. u (9 + i)) now (jb_owner j) k (map_option run_id r) None
       (kept_artifacts (jb_payload j) (an_job_payload a) (jb_artifacts j)) d4 = Inr (ks, d5)" "artifacts d' = artifacts d5"
proof -
  from w have w': "persist_job_body svc as_time u now j d = Inr (v, d')"
    by (simp add: persist_job_def transact_def split: sum.splits prod.splits)
  then show thesis
  proof (rule persist_job_Inr)
    fix k and a :: analysis and d0 st r d1 sg d2 d3 d4 ks d5
    let ?p = "jb_payload j" and ?i = "invalidate k (jb_payload j) (an_job_payload a) now d0"
      and ?xs = "kept_artifacts (jb_payload j) (an_job_payload a) (jb_artifacts j)"
    let ?b = "save_analysis st sg ?p now a"
    assume k: "?p ''analysis_id'' = Some (JStr k)" and a: "job_analysis svc as_time u now j k d = Inr (a, d0)"
      and st: "?p ''status'' = Some (JStr (state_value st))" "?p ''current_stage'' = Some (JStr (stage_value sg))"
      and sp: "payload_sport ValueError ?p = Inr (an_sport a)" and v: "v = an_row_version a + 1"
      and r: "job_run svc u now a st ?i = Inr (r, d1)"
      and e: "(if an_state a \<noteq> st
        then add_event (u 6) now ?b (Some (an_state a)) st ''job_state_changed'' ''system'' None (modify_analysis k (\<lambda>_. ?b) d1)
        else Inr (modify_analysis k (\<lambda>_. ?b) d1)) = Inr d2"
      and f: "follow_source ?p ?xs now ?b d2 = Inr d3" and c: "close_run u now k st ?p r d3 = Inr d4"
      and g: "register_artifacts (\<lambda>i. u (9 + i)) now (jb_owner j) k (map_option run_id r) None ?xs d4 = Inr (ks, d5)"
      and h: "persist_player_selection (u 8) now (jb_owner j) k r (jb_selection j) d5 = Inr d'"
    note a0 = job_analysis_ok [OF inv a] and i0 = invalidate_same [of d0 k ?p "an_job_payload a" now]
    have i1: "run_inv ?i" "a \<in> set (analyses ?i)" "an_id a = k"
      using a0 same_run_tables_inv [OF i0] i0 by (simp_all add: same_run_tables_def)
    note r1 = job_run_ok [OF i1 r]
    have a1: "a \<in> set (analyses d1)" using i1 r1 by simp
    note s = saved_row [OF r1 [THEN conjunct1] a1 i1(3) refl e f]
    have rows: "update_where (\<lambda>x. an_id x = k) g (update_where (\<lambda>x. an_id x = k) (\<lambda>_. ?b) (analyses d0))
        = update_where (\<lambda>x. an_id x = k) (\<lambda>_. g ?b) (analyses d0)" for g
      using i1(3) by (auto simp: update_where_def)
    have "analyses d4 = update_where (\<lambda>x. an_id x = k) (\<lambda>_. saved_row_of st sg ?p now r a) (analyses d0)
        \<and> runs d4 = (case closes st r of None \<Rightarrow> runs d1
           | Some x \<Rightarrow> update_where (\<lambda>y. run_id y = run_id x) (\<lambda>_. finish_run st ?p now x) (runs d1))"
      using c
    proof (rule close_run_cases)
      assume d4: "d4 = d3" and none: "\<And>x. r = Some x \<Longrightarrow> st \<in> {Completed, Failed} \<Longrightarrow> \<not> active_state (run_state x)"
      then have "closes st r = None" by (auto simp: closes_def split: option.split)
      with s r1 i0 d4 show ?thesis by (simp add: saved_row_of_def same_run_tables_def)
    next
      fix x
      assume x: "r = Some x" "st \<in> {Completed, Failed}" "active_state (run_state x)"
        and d4: "d4 = d3\<lparr>runs := update_where (\<lambda>y. run_id y = run_id x) (\<lambda>_. finish_run st ?p now x) (runs d3),
          analyses := (if st = Completed then update_where (\<lambda>a. an_id a = k) (\<lambda>a. a\<lparr>an_promoted_run_id := Some (run_id x)\<rparr>) (analyses d3)
            else analyses d3),
          events := events d3 @ [run_moved_event (u 7) now (finish_run st ?p now x) (run_state x) None]\<rparr>"
      have "closes st r = Some x" using x by (simp add: closes_def)
      with s r1 i0 rows [of "an_promoted_run_id_update (\<lambda>_. Some (run_id x))"] show ?thesis
        by (cases "st = Completed") (simp_all add: d4 saved_row_of_def same_run_tables_def Let_def)
    qed
    then have tables: "analyses d' = update_where (\<lambda>x. an_id x = k) (\<lambda>_. saved_row_of st sg ?p now r a) (analyses d0)"
      "runs d' = (case closes st r of None \<Rightarrow> runs d1
         | Some x \<Rightarrow> update_where (\<lambda>y. run_id y = run_id x) (\<lambda>_. finish_run st ?p now x) (runs d1))"
      using register_same [OF g] selection_same [OF h] by (simp_all add: same_run_tables_def)
    have files: "artifacts d4 = artifacts ?i" "artifacts d' = artifacts d5"
      using job_run_files [OF r] save_files [OF e f c] selection_files [OF h] by (simp_all add: same_files_def)
    show thesis
      by (rule that [OF k a _ _ _ _ _ st sp v r _ _ _ tables _ files(1) g files(2)])
        (use a0 r1 i0 in \<open>auto simp: same_run_tables_def\<close>)
  qed
qed

end
