(* ===== verification/Stage_Properties.thy ===== *)
theory Stage_Properties
  imports Stage_Evolution Run_Demo
begin

text \<open>
  The correctness properties of stage attempts and of the artifact registry, each under
  every interleaving \<open>stage_evolves\<close> allows, applied to a concrete history.
\<close>

section \<open>A concrete history\<close>

text \<open>
  On the reserved analysis of \<open>Run_Demo\<close>: an attempt of the ball tracking stage starts,
  registers one file and completes.
\<close>

definition demo_provenance :: stage_provenance where
  "demo_provenance = \<lparr>sp_schema_version = 1, sp_stage_name = ''ball_tracking'', sp_stage_version = ''v1'',
     sp_sport = Pickleball, sp_sport_config_version = ''pickleball-analysis-v1'',
     sp_court_definition_version = ''pickleball-court-v1'', sp_detector_name = None,
     sp_detector_version = None, sp_model_identifier = None, sp_model_sha256 = None,
     sp_tracker_name = None, sp_tracker_version = None, sp_confidence_threshold = Some (1 / 2),
     sp_interpolation_policy_version = None, sp_source_video_checksum = None,
     sp_court_calibration_artifact_checksum = None, sp_calibration_schema_version = None,
     sp_software_commit = None, sp_build_id = None, sp_environment = None,
     sp_effective_configuration = Map.empty, sp_configuration_fingerprint = replicate 64 CHR ''d'',
     sp_output_schema_version = 1\<rparr>"

definition demo_stage_request :: stage_request where
  "demo_stage_request = \<lparr>sq_owner = 1, sq_analysis_id = ''an-1'', sq_run_id = 12,
     sq_stage_type = ''ball_tracking'', sq_fingerprint = replicate 64 CHR ''d'',
     sq_provenance = demo_provenance, sq_inputs = [], sq_state = Processing,
     sq_is_optional = True, sq_shadow_mode = True\<rparr>"

definition demo_file :: artifact_input where
  "demo_file = \<lparr>ai_storage_key = ''ball/attempt-0001/t'', ai_content_type = ''application/json'',
     ai_size = 7, ai_checksum = replicate 64 CHR ''e'', ai_kind = ''ball'', ai_schema_version = None,
     ai_provider = ''local'', ai_logical_key = None\<rparr>"

definition demo_stage :: stage_execution where
  "demo_stage = new_stage 50 8 demo_stage_request None"

definition demo_artifact :: artifact where
  "demo_artifact = new_artifact 60 9 1 ''an-1'' (Some 12) (Some 50) demo_file"

definition demo_stage_started :: db where
  "demo_stage_started = demo_db1\<lparr>stages := [demo_stage]\<rparr>"

definition demo_stage_registered :: db where
  "demo_stage_registered = demo_db1\<lparr>stages := [demo_stage\<lparr>se_outputs := [reference_of demo_artifact],
     se_updated_at := 9\<rparr>], artifacts := [demo_artifact]\<rparr>"

definition demo_stage_completed :: db where
  "demo_stage_completed = demo_db1\<lparr>stages := [advance_stage Completed 1 10 None
     (demo_stage\<lparr>se_outputs := [reference_of demo_artifact], se_updated_at := 9\<rparr>)],
     artifacts := [demo_artifact]\<rparr>"

lemmas demo_stage_defs = demo_stage_def demo_stage_request_def demo_provenance_def demo_file_def
  demo_artifact_def demo_stage_started_def demo_stage_registered_def demo_stage_completed_def

lemma demo_start_stage:
  "start_stage_execution id 50 8 demo_stage_request demo_db1
     = (Inr \<lparr>sr_id = 50, sr_attempt = 1, sr_state = Processing, sr_row_version = 1, sr_created = True\<rparr>,
        demo_stage_started)"
  by (simp del: replicate.simps add: start_stage_execution_def stage_request_ok_def start_stage_write_def demo_stage_defs
      demo_defs provenance_ok_def validate_sha256_def validate_stage_type_def valid_stage_type_def at_least_def
      owned_analysis_def stages_of_def insert_stage_def stage_state_ok_def has_run_of_def has_owned_analysis_def
      stage_result_of_def new_run_def active_state_def new_stage_def)

lemma demo_prefix:
  "stage_artifact_prefix ''ball_tracking'' 1 = Inr ''ball/attempt-0001/''"
  "starts_with ''ball/attempt-0001/'' ''ball/attempt-0001/t''"
  by code_simp+

lemma demo_register_stage:
  "register_stage_artifacts (demo_ids 60) 9 1 50 [demo_file] demo_stage_started
     = (Inr [demo_artifact], demo_stage_registered)"
  by (simp del: replicate.simps add: register_stage_artifacts_def transact_def register_stage_body_def owned_stage_def demo_stage_defs demo_defs
      demo_prefix input_key_def owned_analysis_def register_one_def insert_artifact_def new_artifact_def get_artifact_row_def
      modify_stage_def new_run_def has_run_of_def has_stage_of_def has_owned_analysis_def new_stage_def)

lemma demo_complete_stage:
  "transition_stage_execution id 10 1 50 1 Completed None demo_stage_registered
     = (Inr \<lparr>sr_id = 50, sr_attempt = 1, sr_state = Completed, sr_row_version = 2, sr_created = False\<rparr>,
        demo_stage_completed)"
  by (simp del: replicate.simps add: transition_stage_execution_def transact_def transition_stage_write_def owned_stage_def demo_stage_defs demo_defs
      superseded_by_def modify_defs stage_result_of_def new_stage_def)

lemma demo_stage_reachable:
  "stage_evolves empty_db demo_stage_started" "stage_evolves empty_db demo_stage_registered"
  "stage_evolves demo_stage_registered demo_stage_completed" "stage_evolves empty_db demo_stage_completed"
proof -
  have "stage_evolves empty_db demo_db1"
    by (rule stage_evolves.elsewhere [OF stage_evolves.same]) (simp_all add: demo_defs)
  from stage_evolves.start [OF this, of id 50 8 demo_stage_request] show s: "stage_evolves empty_db demo_stage_started"
    by (simp add: stage_evolves.same demo_start_stage)
  from stage_evolves.register [OF s, of "demo_ids 60" 9 1 50 "[demo_file]"]
  show r: "stage_evolves empty_db demo_stage_registered" by (simp add: demo_register_stage)
  show "stage_evolves demo_stage_registered demo_stage_completed" "stage_evolves empty_db demo_stage_completed"
    using stage_evolves.transition [where env = id and now = 10 and owner = 1 and k = 50 and v = 1 and new = Completed and c = None, OF r]
      stage_evolves.transition [where env = id and now = 10 and owner = 1 and k = 50 and v = 1 and new = Completed and c = None, OF stage_evolves.same [of demo_stage_registered]]
    by (simp_all add: stage_evolves.same demo_complete_stage)
qed

section \<open>Properties\<close>

text \<open>
  C12: In every reachable database an analysis has at most one queued or processing
  attempt of a stage, and its attempts are numbered 1, 2, 3, ... without gaps.
\<close>

theorem stage_attempts:
  assumes "stage_evolves empty_db d"
  shows "length (filter (active_stage_of a ty) (stages d)) \<le> 1
    \<and> map se_attempt (stages_of d a ty) = [1..int (length (stages_of d a ty))]"
  using stage_inv_reachable [OF assms] by (simp add: stage_inv_def at_most_one_def)

theorem stage_attempts_witness:
  "map se_attempt (stages_of demo_stage_completed ''an-1'' ''ball_tracking'') = [1..1]"
  using stage_attempts [OF demo_stage_reachable(4), of "''an-1''" "''ball_tracking''"]
  by (simp add: demo_stage_completed_def stages_of_def demo_stage_def demo_stage_request_def new_stage_def)

text \<open>
  A stage execution is written at most three times: its row version never exceeds
  3.
\<close>

theorem stage_version_bounded:
  assumes "stage_evolves empty_db d" and "s \<in> set (stages d)"
  shows "se_row_version s \<le> 3"
proof -
  have "se_row_version s \<le> 1 + int (stage_rank (se_state s))"
    using stage_inv_reachable [OF assms(1)] assms(2) by (simp add: stage_inv_def)
  with stage_machine.rank_top [of "se_state s"] show ?thesis by linarith
qed

theorem stage_version_bounded_witness: "list_all (\<lambda>s. se_row_version s \<le> 3) (stages demo_stage_completed)"
  unfolding list_all_iff using stage_version_bounded [OF demo_stage_reachable(4)] by blast

text \<open>
  A stage execution that has ended is the identical row after any interleaving of
  stage operations, registrations and the rest of the system.
\<close>

theorem terminal_stage_final:
  assumes "stage_evolves empty_db d" and "stage_evolves d e"
    and "s \<in> set (stages d)" and "\<not> active_state (se_state s)"
  shows "s \<in> set (stages e)"
proof -
  have "registry_later d e"
    using stage_evolves_later [OF assms(2)] stage_inv_reachable [OF assms(1)] by blast
  with assms(3,4) show ?thesis by (auto simp: registry_later_def stage_later_def)
qed

theorem terminal_stage_final_witness:
  "\<exists>s\<in>set (stages demo_stage_completed). s \<in> set (stages (demo_stage_completed\<lparr>users := []\<rparr>)) \<and> se_state s = Completed"
proof -
  have "stage_evolves demo_stage_completed (demo_stage_completed\<lparr>users := []\<rparr>)"
    by (rule stage_evolves.elsewhere [OF stage_evolves.same]) simp_all
  from terminal_stage_final [OF demo_stage_reachable(4) this, of "hd (stages demo_stage_completed)"]
  show ?thesis by (simp add: demo_stage_completed_def active_state_def)
qed



text \<open>
  C7: When an attempt of a stage completes, no artifact of another attempt of that
  stage is current any more.
\<close>

theorem completed_supersedes:
  assumes d: "stage_evolves empty_db d" and env: "stage_evolves d (env d)"
    and s: "owned_stage d k owner = Some s" "se_state s \<noteq> Completed"
    and call: "transition_stage_execution env now owner k v Completed c d = (Inr res, d')"
    and r: "r \<in> set (artifacts d')" "art_is_current r" "art_stage_id r = Some (se_id t)"
    and t: "t \<in> set (stages d')" "se_analysis_id t = se_analysis_id s" "se_stage_type t = se_stage_type s"
  shows "se_id t = k"
proof -
  have sk: "s \<in> set (stages d)" "se_id s = k" using s(1) by (auto simp: owned_stage_def dest: find_Some_in)
  have inv: "stage_inv d" "stage_inv (env d)" using stage_evolves_inv [OF env] stage_inv_reachable [OF d] by blast+
  have "registry_later d (env d)" using stage_evolves_later [OF env] stage_inv_reachable [OF d] by blast
  then obtain s1 where s1: "s1 \<in> set (stages (env d))" "se_id s1 = k" "se_analysis_id s1 = se_analysis_id s"
    "se_stage_type s1 = se_stage_type s"
    using sk by (auto simp: registry_later_def stage_later_def)
  from call s have "stage_allowed (se_state s) Completed
      \<and> transact (transition_stage_write now k v (se_state s) Completed c) (env d) = (Inr res, d')"
    by (simp add: transition_stage_execution_def split: if_splits)
  then have w: "transition_stage_write now k v (se_state s) Completed c (env d) = Inr (res, d')"
    by (auto simp: transact_def split: sum.splits prod.splits)
  then show ?thesis
  proof (rule transition_stage_shape)
    fix x
    assume x: "x \<in> set (stages (env d))" "se_id x = k"
      and st: "stages d' = stages (modify_stage k (\<lambda>_. advance_stage Completed v now c x) (env d))"
      and a: "artifacts d' = (if Completed = Completed then update_where
        (superseded_by (modify_stage k (\<lambda>_. advance_stage Completed v now c x) (env d)) (advance_stage Completed v now c x))
        (\<lambda>r. r\<lparr>art_is_current := False, art_updated_at := now\<rparr>) (artifacts (env d)) else artifacts (env d))"
    have keys: "distinct (map se_id (stages (env d)))" using inv by (simp add: stage_inv_def)
    with x s1 have "x = s1" by (auto simp: distinct_map dest: inj_onD)
    have "se_id t = se_id x"
      by (rule superseded_none [OF keys x(1), of d' "advance_stage Completed v now c x" now r])
        (use st a r t x s1 \<open>x = s1\<close> in \<open>simp_all only: if_True advance_stage_simps simp_thms\<close>)
    with x show ?thesis by simp
  qed
qed

theorem completed_supersedes_witness:
  "\<exists>r\<in>set (artifacts demo_stage_completed). \<exists>t\<in>set (stages demo_stage_completed).
     art_is_current r \<and> art_stage_id r = Some (se_id t) \<and> se_id t = 50"
proof -
  let ?s = "demo_stage\<lparr>se_outputs := [reference_of demo_artifact], se_updated_at := 9\<rparr>"
  let ?t = "advance_stage Completed 1 10 None ?s"
  have s: "owned_stage demo_stage_registered 50 1 = Some ?s" "se_state ?s \<noteq> Completed"
    by (simp_all add: owned_stage_def demo_stage_defs demo_defs new_stage_def)
  have r: "demo_artifact \<in> set (artifacts demo_stage_completed)" "art_is_current demo_artifact"
    "art_stage_id demo_artifact = Some (se_id ?t)"
    by (simp_all add: demo_stage_defs new_stage_def new_artifact_def)
  have t: "?t \<in> set (stages demo_stage_completed)" "se_analysis_id ?t = se_analysis_id ?s"
    "se_stage_type ?t = se_stage_type ?s"
    by (simp_all add: demo_stage_completed_def)
  have "se_id ?t = 50"
    by (rule completed_supersedes [where env = id, OF demo_stage_reachable(2) _ s demo_complete_stage r t])
      (simp add: stage_evolves.same)
  with r t show ?thesis by blast
qed

text \<open>
  A successful registration under distinct logical keys makes exactly the given
  files current, and registering them again returns the same rows and leaves the
  registry as it is.
\<close>

theorem registered_artifacts_current:
  assumes d: "stage_evolves empty_db d" and keys: "distinct (map input_key xs)"
    and call: "register_stage_artifacts u now owner k xs d = (Inr rows, d')"
  shows "\<exists>s\<in>set (stages d). se_id s = k \<and> active_state (se_state s)
    \<and> list_all2 (\<lambda>x r. r \<in> set (artifacts d') \<and> current_logical_of (se_analysis_id s) (input_key x) r \<and> registers x r)
        xs rows
    \<and> fst (register_stage_artifacts u' now' owner k xs d') = Inr rows
    \<and> artifacts (snd (register_stage_artifacts u' now' owner k xs d')) = artifacts d'"
proof -
  have inv: "artifact_inv d" using stage_inv_reachable [OF d] by blast
  have body: "register_stage_body u now owner k xs d = Inr (rows, d')"
    using call by (auto simp: register_stage_artifacts_def transact_def split: sum.splits prod.splits)
  then show ?thesis
  proof (rule register_stage_shape)
    fix s a ks d1 p
    assume s: "s \<in> set (stages d)" "se_id s = k" "active_state (se_state s)" "owned_stage d k owner = Some s"
      and p: "stage_artifact_prefix (se_stage_type s) (se_attempt s) = Inr p"
        "list_all (\<lambda>x. starts_with p (input_key x)) xs"
      and a: "owned_analysis (get_analysis d (se_analysis_id s)) owner = Inr a" "an_id a = se_analysis_id s"
      and r: "register_artifacts u now owner (se_analysis_id s) (map_option run_id (get_run d (se_run_id s))) (Some k) xs d = Inr (ks, d1)"
      and rows: "rows = List.map_filter (get_artifact_row d1) ks"
      and d': "d' = modify_stage k (\<lambda>r. r\<lparr>se_outputs := map reference_of rows, se_updated_at := now\<rparr>) d1"
    have inv1: "artifact_inv d1" by (rule register_artifacts_inv [OF r inv])
    note held = register_artifacts_holds [OF r keys inv]
    have arts: "artifacts d' = artifacts d1" by (simp add: d' modify_stage_def)
    have "list_all2 (\<lambda>x r. r \<in> set (artifacts d') \<and> current_logical_of (se_analysis_id s) (input_key x) r \<and> registers x r) xs rows"
      using map_filter_rows [OF held inv1] by (simp add: rows arts)
    moreover have "fst (register_stage_artifacts u' now' owner k xs d') = Inr rows
      \<and> artifacts (snd (register_stage_artifacts u' now' owner k xs d')) = artifacts d'"
      using register_stage_again [OF s(4) _ a p _ _ d' held inv1, of u' now'] s(3) register_artifacts_frame [OF r]
      by (auto simp: rows arts active_state_def)
    ultimately show ?thesis using s by blast
  qed
qed

theorem registered_artifacts_current_witness:
  "registers demo_file demo_artifact
   \<and> fst (register_stage_artifacts (demo_ids 70) 10 1 50 [demo_file] demo_stage_registered) = Inr [demo_artifact]"
  using registered_artifacts_current [OF demo_stage_reachable(1) _ demo_register_stage, of "demo_ids 70" 10] by auto

end
