(* ===== verification/Job_Properties.thy ===== *)
theory Job_Properties
  imports Job_Saves Stage_Properties
begin

text \<open>
  The correctness properties of \<open>persist_job\<close>: a round trip with \<open>load_job\<close>, optimistic
  concurrency between saves, the runs a save settles and the results it retires, applied to
  a concrete history of two saves.
\<close>

section \<open>A concrete history\<close>

text \<open>The second save changes the selected evidence: the result of the first is retired.\<close>

definition demo_doc :: "string \<Rightarrow> (string \<times> json) list \<Rightarrow> json_object" where
  "demo_doc status fs = map_of (fs @ [(''analysis_id'', JStr ''an-1''), (''status'', JStr status), (''current_stage'', JStr ''analyzed''),
     (''source_video'', JStr ''m.mp4'')])"

definition demo_result :: artifact_input where
  "demo_result = demo_file\<lparr>ai_logical_key := Some ''analytics/summary.json'', ai_storage_key := ''analytics/summary.json''\<rparr>"

definition demo_job :: "string \<Rightarrow> (string \<times> json) list \<Rightarrow> int \<Rightarrow> job_input" where
  "demo_job status fs v = \<lparr>jb_owner = 1, jb_payload = demo_doc status fs, jb_artifacts = [demo_result],
     jb_selection = None, jb_import = False, jb_expected = Some v\<rparr>"

definition demo_job1 :: job_input where
  "demo_job1 = demo_job ''processing'' [(''analytics_completed'', JBool True)] 1"

definition demo_job2 :: job_input where
  "demo_job2 = demo_job ''completed'' [(''selected_evidence_signature'', JStr ''s'')] 2"

definition demo_saved :: "(error + int) \<times> db" where
  "demo_saved = persist_job demo_service (\<lambda>_. None) (demo_ids 100) 8 demo_job1 demo_db1"

definition demo_saved_again :: "(error + int) \<times> db" where
  "demo_saved_again = persist_job demo_service (\<lambda>_. None) (demo_ids 200) 9 demo_job2 (snd demo_saved)"

lemma demo_saved_ok: "fst demo_saved = Inr 2" "fst demo_saved_again = Inr 3" by code_simp+

lemmas demo_jobs = demo_job1_def demo_job2_def demo_job_def demo_doc_def

lemma demo_saved_eq:
  "persist_job demo_service (\<lambda>_. None) (demo_ids 100) 8 demo_job1 demo_db1 = (Inr 2, snd demo_saved)"
  "persist_job demo_service (\<lambda>_. None) (demo_ids 200) 9 demo_job2 (snd demo_saved) = (Inr 3, snd demo_saved_again)"
  using demo_saved_ok by (simp_all add: demo_saved_def demo_saved_again_def prod_eq_iff)

lemma demo_saved_active:
  "map_option run_id (find (active_run_of ''an-1'') (runs (snd demo_saved))) = Some 12" by code_simp

lemma demo_saved_old:
  "(case get_analysis (snd demo_saved) ''an-1'' of None \<Rightarrow> False
    | Some a \<Rightarrow> evidence_changed (jb_payload demo_job2) (an_job_payload a))" by code_simp

lemma demo_job1_runs: "\<not> skips_processing demo_job1 demo_db1"
  by (simp_all add: skips_processing_def demo_jobs)

lemma demo_db1_reachable: "evolves demo_service empty_db demo_db1"
  using demo_reachable(1) unfolding demo_reserved_eq by simp

lemma demo_saved_reachable: "evolves demo_service empty_db (snd demo_saved)"
  unfolding demo_saved_def by (rule evolves.save [OF demo_db1_reachable demo_job1_runs])

section \<open>Properties\<close>

lemma saved_in: "a \<in> set rows \<Longrightarrow> p a \<Longrightarrow> b \<in> set (update_where p (\<lambda>_. b) rows)"
  by (force simp: in_update_where)

lemma result_file_row: "result_file l \<Longrightarrow> result_row l"
proof -
  assume "result_file l"
  then consider "starts_with ''analytics/'' l" | t where "l = ''active_play/'' @ t"
    unfolding result_file_def starts_with_def by (metis append_take_drop_id)
  then show ?thesis by cases (simp_all add: result_row_def starts_with_def)
qed

lemma retired_rows:
  assumes "r \<in> set (artifacts (retire_rows k p now d))" and "art_is_current r"
  shows "\<not> (art_analysis_id r = k \<and> p (art_logical_key r))"
proof -
  let ?p = "\<lambda>s. art_analysis_id s = k \<and> art_is_current s \<and> p (art_logical_key s)"
  obtain s where "r = (if ?p s then s\<lparr>art_is_current := False, art_updated_at := now\<rparr> else s)"
    using assms(1) unfolding retire_rows_def modify_artifacts_def by (auto simp: in_update_where)
  with assms(2) show ?thesis by (cases "?p s") simp_all
qed

text \<open>A finished run is not active.\<close>

lemma in_updated_run:
  assumes "s \<in> set (update_where (\<lambda>y. run_id y = run_id x) (\<lambda>_. finish_run st p now x) rows)"
    and "active_run_of k s" "st \<in> {Completed, Failed}"
  shows "s \<in> set rows \<and> s \<noteq> x"
proof -
  from assms(1) obtain r where "r \<in> set rows" "s = (if run_id r = run_id x then finish_run st p now x else r)"
    unfolding in_update_where by blast
  with assms(2,3) show ?thesis by (cases "run_id r = run_id x") (auto simp: active_run_of_def active_state_def)
qed

lemma saved_get:
  assumes "run_inv d0" and "a \<in> set (analyses d0)" "an_id a = k" "an_id b = k"
    and "analyses d' = update_where (\<lambda>x. an_id x = k) (\<lambda>_. b) (analyses d0)"
  shows "get_analysis d' k = Some b"
proof -
  have "b \<in> set (analyses d')" using assms by (auto intro: saved_in)
  moreover have "distinct (map an_id (analyses d'))"
    using assms map_replace_analysis [of d0 a an_id b] by (simp add: run_inv_def keys_ok_def)
  ultimately show ?thesis using assms(4) by (simp add: get_analysis_unique)
qed

text \<open>
  C8: What was saved is what is loaded: after a save that returned version \<open>v\<close>, loading
  the analysis gives the saved document with that version and its sport, and every other
  analysis is as it was.
\<close>

theorem persist_job_roundtrip:
  assumes "evolves svc empty_db d" and "persist_job svc as_time u now j d = (Inr v, d')"
  shows "\<exists>k a sp. jb_payload j ''analysis_id'' = Some (JStr k) \<and> payload_sport ValueError (jb_payload j) = Inr sp
    \<and> get_analysis d' k = Some a \<and> jb_payload j ''status'' = Some (JStr (state_value (an_state a)))
    \<and> load_job d' (jb_owner j) k = Inr ((jb_payload j)(''persistence_version'' \<mapsto> JNum (of_int v),
         ''sport'' \<mapsto> JStr (sport_value sp), ''source_media_state'' \<mapsto> JStr (source_media_state (get_video d' (an_video_id a)))))
    \<and> (\<forall>b\<in>set (analyses d). an_id b \<noteq> k \<longrightarrow> b \<in> set (analyses d'))"
proof -
  have inv: "run_inv d" using evolves_run_inv [OF assms(1) run_inv_empty] .
  show ?thesis
    using inv assms(2)
  proof (rule saved_job)
    fix k and a :: analysis and d0 st sg r
    let ?b = "saved_row_of st sg (jb_payload j) now r a"
    assume k: "jb_payload j ''analysis_id'' = Some (JStr k)" and w: "job_analysis svc as_time u now j k d = Inr (a, d0)"
      and d0: "run_inv d0" and a: "a \<in> set (analyses d0)" "an_id a = k" "an_owner a = jb_owner j" "an_lifecycle a = Live"
      and st: "jb_payload j ''status'' = Some (JStr (state_value st))" and sp: "payload_sport ValueError (jb_payload j) = Inr (an_sport a)"
      and v: "v = an_row_version a + 1" and d': "analyses d' = update_where (\<lambda>x. an_id x = k) (\<lambda>_. ?b) (analyses d0)"
    have g: "get_analysis d' k = Some ?b" using a(2) by (intro saved_get [OF d0 a(1,2) _ d']) simp
    then have l: "load_job d' (jb_owner j) k = Inr ((jb_payload j)(''persistence_version'' \<mapsto> JNum (of_int v),
        ''sport'' \<mapsto> JStr (sport_value (an_sport a)), ''source_media_state'' \<mapsto> JStr (source_media_state (get_video d' (an_video_id ?b)))))"
      using a by (simp add: load_job_def owned_analysis_def v)
    have "b \<in> set (analyses d0)" if "b \<in> set (analyses d)" for b
      using w that by (auto simp: job_analysis_def resultE_iffs elim!: import_job_Inr split: option.splits if_splits)
    then have "\<forall>b\<in>set (analyses d). an_id b \<noteq> k \<longrightarrow> b \<in> set (analyses d')"
      by (force simp: d' in_update_where)
    with k sp g st l show ?thesis by auto
  qed
qed

theorem persist_job_roundtrip_witness:
  "\<exists>doc. load_job (snd demo_saved) 1 ''an-1'' = Inr doc \<and> doc ''persistence_version'' = Some (JNum 2)
    \<and> doc ''status'' = Some (JStr ''processing'')"
  using persist_job_roundtrip [OF demo_db1_reachable demo_saved_eq(1)]
  by (auto simp: demo_jobs)



text \<open>
  The runs follow the document: a document that says the analysis completed or failed
  leaves no active run of it, and moves the one there was, at the next version, to that
  state, promoted if it completed; a document in progress leaves exactly one active run.
\<close>

theorem persist_job_settles_runs:
  assumes "evolves svc empty_db d" and "persist_job svc as_time u now j d = (Inr v, d')"
  shows "\<exists>k a st. jb_payload j ''analysis_id'' = Some (JStr k) \<and> get_analysis d' k = Some a \<and> an_state a = st
    \<and> jb_payload j ''status'' = Some (JStr (state_value st))
    \<and> (st = Processing \<longrightarrow> (\<exists>!r. r \<in> set (runs d') \<and> active_run_of k r))
    \<and> (st \<in> {Completed, Failed} \<longrightarrow> (\<forall>r\<in>set (runs d'). \<not> active_run_of k r)
         \<and> (\<forall>r\<in>set (runs d). active_run_of k r \<longrightarrow> finish_run st (jb_payload j) now r \<in> set (runs d')
              \<and> (st = Completed \<longrightarrow> an_promoted_run_id a = Some (run_id r))))"
proof -
  have inv: "run_inv d" using evolves_run_inv [OF assms(1) run_inv_empty] .
  show ?thesis
    using inv assms(2)
  proof (rule saved_job)
    fix k and a :: analysis and d0 st sg r d1
    let ?p = "jb_payload j"
    let ?b = "saved_row_of st sg ?p now r a"
    assume k: "?p ''analysis_id'' = Some (JStr k)" and w: "job_analysis svc as_time u now j k d = Inr (a, d0)"
      and d0: "run_inv d0" and a: "a \<in> set (analyses d0)" "an_id a = k"
      and st: "?p ''status'' = Some (JStr (state_value st))"
      and d1: "run_inv d1" "run_found d1 k r" "runs d1 = runs d0 \<or> st = Processing"
      and d': "analyses d' = update_where (\<lambda>x. an_id x = k) (\<lambda>_. ?b) (analyses d0)"
        "runs d' = (case closes st r of None \<Rightarrow> runs d1
           | Some x \<Rightarrow> update_where (\<lambda>y. run_id y = run_id x) (\<lambda>_. finish_run st ?p now x) (runs d1))"
      and p: "st = Processing \<Longrightarrow> \<exists>x. r = Some x \<and> active_state (run_state x)"
    have only: "closes st r = Some s" if "s \<in> set (runs d1)" "active_run_of k s" "st \<in> {Completed, Failed}" for s
      using that d1(2) by (auto simp: run_found_def closes_def runs_of_def active_run_of_def filter_empty_conv split: option.splits)
    have "\<exists>!s. s \<in> set (runs d') \<and> active_run_of k s" if "st = Processing"
    proof -
      obtain x where x: "r = Some x" "active_state (run_state x)" using p [OF \<open>st = Processing\<close>] by blast
      with that d1(2) show ?thesis
        by (intro ex1I [of _ x]) (simp_all add: d'(2) closes_def run_found_def active_run_of_def)
    qed
    moreover have "\<not> active_run_of k s" if e: "st \<in> {Completed, Failed}" and s: "s \<in> set (runs d')" for s
    proof
      assume act: "active_run_of k s"
      have "s \<in> set (runs d1)" "closes st r \<noteq> Some s"
        using s act e in_updated_run [of s _ st ?p now "runs d1"] by (auto simp: d'(2) split: option.splits)
      with only [OF _ act e] show False by blast
    qed
    moreover have "finish_run st ?p now s \<in> set (runs d') \<and> (st = Completed \<longrightarrow> an_promoted_run_id ?b = Some (run_id s))"
      if e: "st \<in> {Completed, Failed}" and s: "s \<in> set (runs d)" "active_run_of k s" for s
    proof -
      have "s \<in> set (runs d0)"
        using w s by (auto simp: job_analysis_def resultE_iffs elim!: import_job_Inr split: option.splits if_splits)
      with d1(3) e have s1: "s \<in> set (runs d1)" by auto
      from only [OF s1 s(2) e] show ?thesis
        using saved_in [OF s1, of "\<lambda>y. run_id y = run_id s"] by (cases "st = Completed") (simp_all add: d'(2) saved_row_of_def Let_def)
    qed
    ultimately show ?thesis using k st saved_get [OF d0 a _ d'(1)] a(2)
      by (intro exI [of _ k] exI [of _ ?b] exI [of _ st]) simp
  qed
qed

theorem persist_job_settles_runs_witness:
  "filter (active_run_of ''an-1'') (runs (snd demo_saved_again)) = []
    \<and> map_option an_promoted_run_id (get_analysis (snd demo_saved_again) ''an-1'') = Some (Some 12)"
proof -
  obtain r where r: "r \<in> set (runs (snd demo_saved))" "active_run_of ''an-1'' r" "run_id r = 12"
    using demo_saved_active by (auto dest: find_Some_in)
  have completed: "st = Completed" if "state_value st = ''completed''" for st using that by (cases st) simp_all
  from persist_job_settles_runs [OF demo_saved_reachable demo_saved_eq(2)] r show ?thesis
    by (auto simp: demo_jobs filter_empty_conv dest!: completed [OF sym])
qed

text \<open>
  C10: Results of superseded evidence are never served: after a save whose document selects
  other evidence, or drops completed analytics, no analytics or active-play file of the
  analysis is current.
\<close>

theorem persist_job_retires_results:
  assumes "evolves svc empty_db d" and "persist_job svc as_time u now j d = (Inr v, d')"
    and "jb_payload j ''analysis_id'' = Some (JStr k)" and "get_analysis d k = Some a"
    and "evidence_changed (jb_payload j) (an_job_payload a)"
  shows "\<not> (\<exists>r\<in>set (artifacts d'). art_analysis_id r = k \<and> art_is_current r \<and> result_file (art_logical_key r))"
proof -
  have inv: "run_inv d" using evolves_run_inv [OF assms(1) run_inv_empty] .
  show ?thesis
    using inv assms(2)
  proof (rule saved_job)
    fix l and b :: analysis and d0 st sg r d1 d4 d5 ks
    let ?p = "jb_payload j"
    assume l: "?p ''analysis_id'' = Some (JStr l)" and w: "job_analysis svc as_time u now j l d = Inr (b, d0)"
      and d4: "artifacts d4 = artifacts (invalidate l ?p (an_job_payload b) now d0)"
      and g: "register_artifacts (\<lambda>i. u (9 + i)) now (jb_owner j) l (map_option run_id r) None
         (kept_artifacts ?p (an_job_payload b) (jb_artifacts j)) d4 = Inr (ks, d5)" "artifacts d' = artifacts d5"
    have [simp]: "l = k" "b = a"
      using l w assms(3,4) by (auto simp: job_analysis_def resultE_iffs owned_analysis_def split: if_splits)
    have "\<not> (art_analysis_id r = k \<and> art_is_current r \<and> result_row (art_logical_key r))" if "r \<in> set (artifacts d4)" for r
      using that assms(5) retired_rows [of r k result_row now] by (auto simp: d4 invalidate_def Let_def)
    moreover have "\<not> result_file l" if "l \<in> input_key ` set (kept_artifacts ?p (an_job_payload a) (jb_artifacts j))" for l
      using that assms(5) by (auto simp: kept_artifacts_def)
    ultimately show ?thesis
      using register_artifacts_from [OF g(1)] result_file_row g(2) by (metis (no_types, lifting) \<open>b = a\<close>)
  qed
qed

theorem persist_job_retires_results_witness:
  "filter (\<lambda>r. art_is_current r \<and> art_logical_key r = ''analytics/summary.json'' \<and> art_analysis_id r = ''an-1'')
     (artifacts (snd demo_saved_again)) = []"
proof -
  obtain a where a: "get_analysis (snd demo_saved) ''an-1'' = Some a" "evidence_changed (jb_payload demo_job2) (an_job_payload a)"
    using demo_saved_old by (auto split: option.splits)
  have "jb_payload demo_job2 ''analysis_id'' = Some (JStr ''an-1'')" by (simp add: demo_jobs)
  from persist_job_retires_results [OF demo_saved_reachable demo_saved_eq(2) this a]
  show ?thesis by (auto simp: filter_empty_conv result_file_def starts_with_def)
qed

end
