(* ===== verification/Accounts.thy ===== *)
theory Accounts
  imports Schema
begin

text \<open>
  \<open>AuthenticationService\<close> (\<^verbatim>\<open>app/auth/service.py\<close>): registration, login, refresh-token
  rotation with reuse detection, e-mail verification, password recovery and change, and
  the management of sessions.

  Parameters (the record \<open>auth_service\<close>): SHA-256, the Argon2 hasher (its random salt an
  argument), the JWT library, the mail provider, and the settings the service reads.
  \<open>dr\<close> holds what one call draws: UUIDs, \<open>secrets.token_urlsafe(48)\<close>, a salt. \<open>now\<close> is
  the clock, in microseconds. Every operation serializes on an advisory lock of the
  account; where the code reads before it waits for that lock, \<open>env\<close> is what other
  transactions commit in between. SQLAlchemy returns a row the session has loaded before
  as it was loaded, unless \<open>populate_existing\<close> is set: that decides which reads after the
  wait see \<open>env\<close>.
\<close>

section \<open>The service, what it draws and what it sends\<close>

datatype delivery = Recorded | Sent | DeliveryFailed

datatype mail_category = MailVerification | MailReset | MailPasswordChanged | MailSessionsRevoked

record mail =
  mail_recipient :: string
  mail_category :: mail_category
  mail_token :: string
  mail_correlation :: string

record access_claims =
  cl_sub :: string
  cl_iat :: time
  cl_exp :: time
  cl_iss :: string
  cl_aud :: string
  cl_jti :: string

record auth_service =
  au_sha256 :: "string \<Rightarrow> string"
  au_hash :: "string \<Rightarrow> string \<Rightarrow> string"
  au_verify :: "string \<Rightarrow> string \<Rightarrow> bool"
  au_needs_rehash :: "string \<Rightarrow> bool"
  au_jwt_encode :: "access_claims \<Rightarrow> string"
  au_jwt_decode :: "time \<Rightarrow> string \<Rightarrow> access_claims option"
  au_send :: "(mail \<Rightarrow> delivery) option"
  au_issuer :: string
  au_audience :: string
  au_access_minutes :: int
  au_refresh_days :: int
  au_verification_hours :: int
  au_reset_minutes :: int
  au_min_password :: nat
  au_max_password :: nat

record draws =
  dr_uuid :: "nat \<Rightarrow> uuid"
  dr_secret :: "nat \<Rightarrow> string"
  dr_salt :: string

definition seconds :: "int \<Rightarrow> time" where
  "seconds n = n * 1000000"

record session_tokens =
  tk_access :: string
  tk_refresh :: string
  tk_expires_in :: int

text \<open>The errors by their codes; the status is the one of the response.\<close>

definition invalid_session :: error where
  "invalid_session = AuthenticationError ''invalid_session'' 401"

definition unauthorized :: error where
  "unauthorized = AuthenticationError ''unauthorized'' 401"

definition login_failed :: error where
  "login_failed = AuthenticationError ''invalid_credentials'' 401"

definition invalid_account_token :: error where
  "invalid_account_token = AuthenticationError ''invalid_or_used_token'' 400"

definition delivery_unavailable :: error where
  "delivery_unavailable = AuthenticationError ''EMAIL_DELIVERY_UNAVAILABLE'' 503"

definition account_mismatch :: error where
  "account_mismatch = AuthenticationError ''verification_account_mismatch'' 409"

section \<open>E-mail addresses, passwords, tokens\<close>

text \<open>
  \<open>str.casefold\<close> of the characters below 256; the micro sign, whose folding lies outside,
  is kept.
\<close>

definition casefold :: "string \<Rightarrow> string" where
  "casefold s = concat (map (\<lambda>c. if c = CHR 0xDF then ''ss'' else [c]) (lower s))"

text \<open>The pattern \<open>^[^@\s]+@[^@\s]+\.[^@\s]+$\<close>.\<close>

definition email_ok :: "string \<Rightarrow> bool" where
  "email_ok s =
     (let local = takeWhile (\<lambda>c. c \<noteq> CHR ''@'') s; dom = drop (length local + 1) s in
      length local < length s \<and> local \<noteq> [] \<and> list_all (\<lambda>c. \<not> is_space c) s
      \<and> CHR ''@'' \<notin> set dom
      \<and> list_ex (\<lambda>i. dom ! i = CHR ''.'') [1..<length dom - 1])"

definition normalize_email :: "string \<Rightarrow> error + string" where
  "normalize_email value =
     (let n = casefold (strip value) in
      if length n > 320 \<or> \<not> email_ok n then Inl (AuthenticationError ''invalid_registration'' 422)
      else Inr n)"

definition validate_new_password :: "auth_service \<Rightarrow> string \<Rightarrow> string \<Rightarrow> error + unit" where
  "validate_new_password au code p =
     (if CHR 0x00 \<in> set p \<or> length p < au_min_password au \<or> length p > au_max_password au
      then Inl (AuthenticationError code 422) else Inr ())"

definition token_hash :: "auth_service \<Rightarrow> string \<Rightarrow> string" where
  "token_hash au raw = au_sha256 au raw"

text \<open>\<open>raw_token.split(".", 1)\<close>, then the length of the secret and the UUID.\<close>

definition parse_refresh_session_id :: "string option \<Rightarrow> error + uuid" where
  "parse_refresh_session_id raw =
     (case raw of
        None \<Rightarrow> Inl invalid_session
      | Some t \<Rightarrow>
          let sid = takeWhile (\<lambda>c. c \<noteq> CHR ''.'') t; secret = drop (length sid + 1) t in
          if t = [] \<or> length t > 256 \<or> length sid = length t \<or> length secret < 32
          then Inl invalid_session
          else (case parse_uuid sid of None \<Rightarrow> Inl invalid_session | Some k \<Rightarrow> Inr k))"

section \<open>Rows\<close>

definition get_session :: "db \<Rightarrow> uuid \<Rightarrow> refresh_session option" where
  "get_session d k = find (\<lambda>r. rs_id r = k) (refresh_sessions d)"

definition user_agent_column :: "string option \<Rightarrow> string option" where
  "user_agent_column ua = or_none (take 512 (or_else ua []))"

text \<open>
  The assignments of an operation to a user row. When they change something the session
  writes the row, and the column \<open>updated_at\<close> follows (\<open>onupdate\<close>).
\<close>

definition touch_user :: "uuid \<Rightarrow> time \<Rightarrow> (user \<Rightarrow> user) \<Rightarrow> db \<Rightarrow> db" where
  "touch_user k now f =
     modify_user k (\<lambda>r. if f r = r then r else (f r)\<lparr>usr_updated_at := now\<rparr>)"

definition revoke :: "time \<Rightarrow> string \<Rightarrow> refresh_session \<Rightarrow> refresh_session" where
  "revoke now reason r = r\<lparr>rs_revoked_at := Some now, rs_revocation_reason := Some reason\<rparr>"

definition revoke_where :: "(refresh_session \<Rightarrow> bool) \<Rightarrow> time \<Rightarrow> string \<Rightarrow> db \<Rightarrow> db" where
  "revoke_where p now reason d = d\<lparr>refresh_sessions :=
     update_where (\<lambda>r. p r \<and> rs_revoked_at r = None) (revoke now reason) (refresh_sessions d)\<rparr>"

definition revoke_family :: "uuid \<Rightarrow> string \<Rightarrow> time \<Rightarrow> db \<Rightarrow> db" where
  "revoke_family fam reason now = revoke_where (\<lambda>r. rs_token_family_id r = fam) now reason"

definition new_session ::
    "auth_service \<Rightarrow> uuid \<Rightarrow> string \<Rightarrow> time \<Rightarrow> uuid \<Rightarrow> uuid \<Rightarrow> string option \<Rightarrow> refresh_session" where
  "new_session au k raw now owner fam ua =
     \<lparr>rs_id = k, rs_user_id = owner, rs_token_hash = token_hash au raw, rs_token_family_id = fam,
      rs_replaced_by = None, rs_created_at = now,
      rs_expires_at = now + seconds (au_refresh_days au * 86400), rs_last_used_at = None,
      rs_revoked_at = None, rs_revocation_reason = None, rs_user_agent = user_agent_column ua\<rparr>"

definition refresh_token_of :: "uuid \<Rightarrow> string \<Rightarrow> string" where
  "refresh_token_of k secret = uuid_text k @ ''.'' @ secret"

text \<open>\<open>_create_session_tokens\<close>: the UUIDs 0 and 1 are the session's and the token's id.\<close>

definition create_session_tokens ::
    "auth_service \<Rightarrow> draws \<Rightarrow> time \<Rightarrow> uuid \<Rightarrow> uuid \<Rightarrow> string option \<Rightarrow> db
     \<Rightarrow> error + (session_tokens \<times> uuid) \<times> db" where
  "create_session_tokens au dr now owner fam ua d =
     (let k = dr_uuid dr 0; raw = refresh_token_of k (dr_secret dr 0);
          ttl = au_access_minutes au * 60
      in bindE (insert_refresh_session (new_session au k raw now owner fam ua) d) (\<lambda>d'.
        Inr ((\<lparr>tk_access = au_jwt_encode au
                 \<lparr>cl_sub = uuid_text owner, cl_iat = now, cl_exp = now + seconds ttl,
                  cl_iss = au_issuer au, cl_aud = au_audience au, cl_jti = uuid_hex (dr_uuid dr 1)\<rparr>,
               tk_refresh = raw, tk_expires_in = ttl\<rparr>, k), d')))"

text \<open>\<open>_create_session\<close>: the UUID 2 is the id of the new family.\<close>

definition create_session ::
    "auth_service \<Rightarrow> draws \<Rightarrow> time \<Rightarrow> uuid \<Rightarrow> string option \<Rightarrow> db \<Rightarrow> error + session_tokens \<times> db" where
  "create_session au dr now owner ua d =
     bindE (create_session_tokens au dr now owner (dr_uuid dr 2) ua d) (\<lambda>((tk, k), d'). Inr (tk, d'))"

text \<open>The rotation of a session, which \<open>refresh\<close> and three other operations share.\<close>

definition rotate_session ::
    "auth_service \<Rightarrow> draws \<Rightarrow> time \<Rightarrow> uuid \<Rightarrow> refresh_session \<Rightarrow> string option \<Rightarrow> db
     \<Rightarrow> error + session_tokens \<times> db" where
  "rotate_session au dr now owner r ua d =
     bindE (create_session_tokens au dr now owner (rs_token_family_id r) ua
        (modify_refresh_session (rs_id r)
           (\<lambda>r. (revoke now ''rotated'' r)\<lparr>rs_last_used_at := Some now\<rparr>) d)) (\<lambda>((tk, k), d').
     Inr (tk, modify_refresh_session (rs_id r) (\<lambda>r. r\<lparr>rs_replaced_by := Some k\<rparr>) d'))"

text \<open>\<open>_create_account_token\<close>: the UUID 3 is the token's id, the secret 1 the token.\<close>

definition create_account_token ::
    "auth_service \<Rightarrow> draws \<Rightarrow> time \<Rightarrow> uuid \<Rightarrow> token_purpose \<Rightarrow> time \<Rightarrow> string option \<Rightarrow> db
     \<Rightarrow> error + (string \<times> uuid) \<times> db" where
  "create_account_token au dr now owner purpose lifetime ua d =
     (let raw = dr_secret dr 1; k = dr_uuid dr 3 in
      bindE (insert_account_token
        \<lparr>tok_id = k, tok_user_id = owner, tok_purpose = purpose, tok_token_hash = token_hash au raw,
         tok_created_at = now, tok_expires_at = now + lifetime, tok_consumed_at = None,
         tok_invalidated_at = None, tok_request_user_agent = user_agent_column ua\<rparr> d) (\<lambda>d'.
      Inr ((raw, k), d')))"

definition invalidate_active_tokens ::
    "uuid \<Rightarrow> token_purpose \<Rightarrow> time \<Rightarrow> uuid option \<Rightarrow> db \<Rightarrow> db" where
  "invalidate_active_tokens owner purpose now except d = d\<lparr>account_tokens :=
     update_where (\<lambda>t. active_token_of owner purpose t \<and> except \<noteq> Some (tok_id t))
       (\<lambda>t. t\<lparr>tok_invalidated_at := Some now\<rparr>) (account_tokens d)\<rparr>"

definition token_of :: "auth_service \<Rightarrow> db \<Rightarrow> string \<Rightarrow> token_purpose \<Rightarrow> account_token option" where
  "token_of au d raw purpose =
     find (\<lambda>t. tok_token_hash t = token_hash au raw \<and> tok_purpose t = purpose) (account_tokens d)"

text \<open>
  \<open>_lock_account_token\<close> reads the token, waits for the lock of its account and reads it
  again; the second read is the one returned, and the database is the one then.
\<close>

definition lock_account_token ::
    "auth_service \<Rightarrow> (db \<Rightarrow> db) \<Rightarrow> string \<Rightarrow> token_purpose \<Rightarrow> db \<Rightarrow> error + account_token \<times> db" where
  "lock_account_token au env raw purpose d =
     (if raw = [] \<or> length raw > 256 then Inl invalid_account_token
      else case token_of au d raw purpose of
        None \<Rightarrow> Inl invalid_account_token
      | Some _ \<Rightarrow>
          (case token_of au (env d) raw purpose of
             None \<Rightarrow> Inl invalid_account_token
           | Some t \<Rightarrow> Inr (t, env d)))"

text \<open>
  \<open>_validate_account_token\<close>. The assignment to \<open>invalidated_at\<close> of an expired token is in
  the transaction the exception then rolls back.
\<close>

definition validate_account_token :: "time \<Rightarrow> account_token \<Rightarrow> error + unit" where
  "validate_account_token now t =
     (if tok_consumed_at t \<noteq> None \<or> tok_invalidated_at t \<noteq> None then Inl invalid_account_token
      else if tok_expires_at t \<le> now then Inl (AuthenticationError ''token_expired'' 400)
      else Inr ())"

definition usable :: "auth_service \<Rightarrow> time \<Rightarrow> string \<Rightarrow> refresh_session \<Rightarrow> bool" where
  "usable au now raw r \<longleftrightarrow> rs_revoked_at r = None \<and> now < rs_expires_at r
     \<and> rs_token_hash r = token_hash au raw"

text \<open>\<open>_active_refresh_session\<close>.\<close>

definition active_refresh_session ::
    "auth_service \<Rightarrow> time \<Rightarrow> string option \<Rightarrow> db \<Rightarrow> refresh_session option" where
  "active_refresh_session au now raw d =
     (case (raw, parse_refresh_session_id raw) of
        (Some t, Inr k) \<Rightarrow>
          (case get_session d k of
             None \<Rightarrow> None
           | Some r \<Rightarrow> if usable au now t r then Some r else None)
      | _ \<Rightarrow> None)"

definition require_active_matching_session ::
    "auth_service \<Rightarrow> time \<Rightarrow> string option \<Rightarrow> refresh_session option \<Rightarrow> error + refresh_session" where
  "require_active_matching_session au now raw r =
     (case (r, raw) of
        (Some r, Some t) \<Rightarrow> if usable au now t r then Inr r else Inl invalid_session
      | _ \<Rightarrow> Inl invalid_session)"

definition matching_current_session_id ::
    "auth_service \<Rightarrow> time \<Rightarrow> uuid \<Rightarrow> string option \<Rightarrow> db \<Rightarrow> uuid option" where
  "matching_current_session_id au now owner raw d =
     (case (raw, parse_refresh_session_id raw) of
        (Some t, Inr k) \<Rightarrow>
          (case find (\<lambda>r. rs_id r = k \<and> rs_user_id r = owner) (refresh_sessions d) of
             None \<Rightarrow> None
           | Some r \<Rightarrow> if usable au now t r then Some k else None)
      | _ \<Rightarrow> None)"

text \<open>The account a mutation is about, which must be active.\<close>

definition active_user :: "error \<Rightarrow> db \<Rightarrow> uuid \<Rightarrow> error + user" where
  "active_user e d k =
     (case get_user d k of
        None \<Rightarrow> Inl e
      | Some r \<Rightarrow> if usr_account_status r = Active then Inr r else Inl e)"

section \<open>Registration and login\<close>

definition register_body ::
    "auth_service \<Rightarrow> draws \<Rightarrow> time \<Rightarrow> string \<Rightarrow> string \<Rightarrow> string option \<Rightarrow> db
     \<Rightarrow> error + (user \<times> session_tokens \<times> delivery option) \<times> db" where
  "register_body au dr now email pwhash ua d =
     (let usr = \<lparr>usr_id = dr_uuid dr 4, usr_email = email, usr_password_hash = pwhash,
            usr_account_status = Active, usr_created_at = now, usr_updated_at = now,
            usr_last_login_at = None, usr_email_verified_at = None, usr_password_changed_at = None,
            usr_display_name = None\<rparr> in
      bindE (insert_user usr d) (\<lambda>d.
      bindE (create_account_token au dr now (usr_id usr) EmailVerification
               (seconds (au_verification_hours au * 3600)) ua d) (\<lambda>((raw, tid), d).
      bindE (create_session au dr now (usr_id usr) ua d) (\<lambda>(tk, d).
      let delivery = map_option (\<lambda>send. send \<lparr>mail_recipient = email, mail_category = MailVerification,
            mail_token = raw, mail_correlation = uuid_text tid\<rparr>) (au_send au) in
      if delivery = Some DeliveryFailed then Inl delivery_unavailable
      else Inr ((usr, tk, delivery), d)))))"

definition register ::
    "auth_service \<Rightarrow> draws \<Rightarrow> time \<Rightarrow> string \<Rightarrow> string \<Rightarrow> string option \<Rightarrow> db
     \<Rightarrow> (error + user \<times> session_tokens \<times> delivery option) \<times> db" where
  "register au dr now email password ua d =
     (case bindE (normalize_email email) (\<lambda>n.
             bindE (validate_new_password au ''invalid_registration'' password) (\<lambda>_. Inr n)) of
        Inl e \<Rightarrow> (Inl e, d)
      | Inr n \<Rightarrow>
          (case transact (register_body au dr now n (au_hash au (dr_salt dr) password) ua) d of
             (Inl e, d') \<Rightarrow>
               (Inl (if e = IntegrityError then AuthenticationError ''registration_failed'' 409 else e), d')
           | r \<Rightarrow> r))"

text \<open>
  After the wait the account is looked up again, but the row is the one loaded before: the
  status and the password hash that are checked are those of \<open>d\<close>, the writes go to the
  row as \<open>env\<close> left it.
\<close>

definition login_body ::
    "auth_service \<Rightarrow> draws \<Rightarrow> time \<Rightarrow> user \<Rightarrow> string \<Rightarrow> string option \<Rightarrow> db
     \<Rightarrow> error + (user \<times> session_tokens) \<times> db" where
  "login_body au dr now usr password ua d =
     (if usr_account_status usr \<noteq> Active \<or> \<not> au_verify au (usr_password_hash usr) password
      then Inl login_failed
      else let f = (\<lambda>r. (if au_needs_rehash au (usr_password_hash usr)
                        then r\<lparr>usr_password_hash := au_hash au (dr_salt dr) password\<rparr> else r)
                       \<lparr>usr_last_login_at := Some now\<rparr>)
        in bindE (create_session au dr now (usr_id usr) ua (touch_user (usr_id usr) now f d))
             (\<lambda>(tk, d). Inr ((f usr, tk), d)))"

definition user_by_email :: "db \<Rightarrow> string \<Rightarrow> user option" where
  "user_by_email d email = find (\<lambda>r. usr_email r = email) (users d)"

definition login ::
    "auth_service \<Rightarrow> (db \<Rightarrow> db) \<Rightarrow> draws \<Rightarrow> time \<Rightarrow> string \<Rightarrow> string \<Rightarrow> string option \<Rightarrow> db
     \<Rightarrow> (error + user \<times> session_tokens) \<times> db" where
  "login au env dr now email password ua d =
     (if length password > au_max_password au then (Inl login_failed, d)
      else case normalize_email email of
        Inl _ \<Rightarrow> (Inl login_failed, d)
      | Inr n \<Rightarrow>
          (case user_by_email d n of
             None \<Rightarrow> (Inl login_failed, d)
           | Some loaded \<Rightarrow>
               (case user_by_email (env d) n of
                  None \<Rightarrow> (Inl login_failed, env d)
                | Some found \<Rightarrow>
                    transact (login_body au dr now
                      (if usr_id found = usr_id loaded then loaded else found) password ua) (env d))))"

section \<open>Refresh and logout\<close>

text \<open>The decision after the wait, on the rows as they are then.\<close>

definition refresh_locked ::
    "auth_service \<Rightarrow> draws \<Rightarrow> time \<Rightarrow> string \<Rightarrow> uuid \<Rightarrow> uuid \<Rightarrow> string option \<Rightarrow> db
     \<Rightarrow> (error + user \<times> session_tokens) \<times> db" where
  "refresh_locked au dr now raw k owner ua d =
     (case get_session d k of
        None \<Rightarrow> (Inl invalid_session, d)
      | Some r \<Rightarrow>
          if rs_token_hash r \<noteq> token_hash au raw then (Inl invalid_session, d)
          else if rs_revoked_at r \<noteq> None
          then (Inl invalid_session,
                if rs_revocation_reason r = Some ''rotated''
                then revoke_family (rs_token_family_id r) ''refresh_token_reuse'' now d else d)
          else if rs_expires_at r \<le> now
          then (Inl invalid_session, modify_refresh_session k (revoke now ''expired'') d)
          else (case active_user unauthorized d owner of
              Inl _ \<Rightarrow> (Inl invalid_session,
                       revoke_family (rs_token_family_id r) ''account_unavailable'' now d)
            | Inr usr \<Rightarrow>
                transact (\<lambda>d. bindE (rotate_session au dr now (usr_id usr) r ua d)
                  (\<lambda>(tk, d). Inr ((usr, tk), d))) d))"

definition refresh ::
    "auth_service \<Rightarrow> (db \<Rightarrow> db) \<Rightarrow> draws \<Rightarrow> time \<Rightarrow> string option \<Rightarrow> string option \<Rightarrow> db
     \<Rightarrow> (error + user \<times> session_tokens) \<times> db" where
  "refresh au env dr now raw ua d =
     (case (raw, parse_refresh_session_id raw) of
        (Some t, Inr k) \<Rightarrow>
          (case get_session d k of
             None \<Rightarrow> (Inl invalid_session, d)
           | Some c \<Rightarrow>
               if rs_token_hash c \<noteq> token_hash au t then (Inl invalid_session, d)
               else refresh_locked au dr now t k (rs_user_id c) ua (env d))
      | _ \<Rightarrow> (Inl invalid_session, d))"

definition logout :: "auth_service \<Rightarrow> time \<Rightarrow> string option \<Rightarrow> db \<Rightarrow> db" where
  "logout au now raw d =
     (case (raw, parse_refresh_session_id raw) of
        (Some t, Inr k) \<Rightarrow>
          (case get_session d k of
             None \<Rightarrow> d
           | Some r \<Rightarrow>
               if rs_token_hash r = token_hash au t \<and> rs_revoked_at r = None
               then modify_refresh_session k (revoke now ''logout'') d else d)
      | _ \<Rightarrow> d)"

section \<open>E-mail verification and onboarding\<close>

definition resend_body ::
    "auth_service \<Rightarrow> draws \<Rightarrow> time \<Rightarrow> uuid \<Rightarrow> string option \<Rightarrow> db
     \<Rightarrow> error + (user \<times> (string \<times> uuid) option) \<times> db" where
  "resend_body au dr now k ua d =
     bindE (active_user unauthorized d k) (\<lambda>usr.
       if usr_email_verified_at usr \<noteq> None then Inr ((usr, None), d)
       else bindE (create_account_token au dr now k EmailVerification
                (seconds (au_verification_hours au * 3600)) ua
                (invalidate_active_tokens k EmailVerification now None d)) (\<lambda>(t, d).
            Inr ((usr, Some t), d)))"

definition resend_verification ::
    "auth_service \<Rightarrow> draws \<Rightarrow> time \<Rightarrow> uuid \<Rightarrow> string option \<Rightarrow> db
     \<Rightarrow> (error + bool \<times> delivery option) \<times> db" where
  "resend_verification au dr now k ua d =
     (case transact (resend_body au dr now k ua) d of
        (Inl e, d') \<Rightarrow> (Inl e, d')
      | (Inr (usr, None), d') \<Rightarrow> (Inr (False, None), d')
      | (Inr (usr, Some (raw, tid)), d') \<Rightarrow>
          let delivery = map_option (\<lambda>send. send \<lparr>mail_recipient = usr_email usr,
                mail_category = MailVerification, mail_token = raw,
                mail_correlation = uuid_text tid\<rparr>) (au_send au)
          in (if delivery = Some DeliveryFailed then Inl delivery_unavailable
              else Inr (True, delivery), d'))"

definition verify_email_body ::
    "auth_service \<Rightarrow> (db \<Rightarrow> db) \<Rightarrow> draws \<Rightarrow> time \<Rightarrow> string \<Rightarrow> string option \<Rightarrow> uuid option
     \<Rightarrow> string option \<Rightarrow> db \<Rightarrow> error + (user \<times> session_tokens) \<times> db" where
  "verify_email_body au env dr now raw ua current raw_refresh d =
     bindE (lock_account_token au env raw EmailVerification d) (\<lambda>(t, d).
     bindE (validate_account_token now t) (\<lambda>_.
     bindE (active_user invalid_account_token d (tok_user_id t)) (\<lambda>usr.
     bindE (requireE (current = None \<or> current = Some (usr_id usr)) account_mismatch) (\<lambda>_.
     let cur = active_refresh_session au now raw_refresh d in
     bindE (requireE (case cur of None \<Rightarrow> True | Some r \<Rightarrow> rs_user_id r = usr_id usr) account_mismatch) (\<lambda>_.
     let f = (\<lambda>r. if usr_email_verified_at usr = None
                  then r\<lparr>usr_email_verified_at := Some now\<rparr> else r);
         d = touch_user (usr_id usr) now f
               (modify_account_token (tok_id t) (\<lambda>x. x\<lparr>tok_consumed_at := Some now\<rparr>) d);
         d = invalidate_active_tokens (usr_id usr) EmailVerification now (Some (tok_id t)) d
     in bindE (case cur of
                 None \<Rightarrow> create_session au dr now (usr_id usr) ua d
               | Some r \<Rightarrow> rotate_session au dr now (usr_id usr) r ua d) (\<lambda>(tk, d).
        Inr ((f usr, tk), d)))))))"

definition verify_email ::
    "auth_service \<Rightarrow> (db \<Rightarrow> db) \<Rightarrow> draws \<Rightarrow> time \<Rightarrow> string \<Rightarrow> string option \<Rightarrow> uuid option
     \<Rightarrow> string option \<Rightarrow> db \<Rightarrow> (error + user \<times> session_tokens) \<times> db" where
  "verify_email au env dr now raw ua current raw_refresh =
     transact (verify_email_body au env dr now raw ua current raw_refresh)"

text \<open>\<open>" ".join(display_name.split())\<close>.\<close>

fun split_words :: "string \<Rightarrow> string \<Rightarrow> string list" where
  "split_words w [] = (if w = [] then [] else [w])"
| "split_words w (c # cs) =
     (if is_space c then (if w = [] then [] else [w]) @ split_words [] cs
      else split_words (w @ [c]) cs)"

fun join_words :: "string list \<Rightarrow> string" where
  "join_words [] = []"
| "join_words [w] = w"
| "join_words (w # ws) = w @ '' '' @ join_words ws"

definition complete_onboarding_body :: "time \<Rightarrow> uuid \<Rightarrow> string \<Rightarrow> db \<Rightarrow> error + user \<times> db" where
  "complete_onboarding_body now k name d =
     bindE (active_user unauthorized d k) (\<lambda>usr.
     bindE (requireE (usr_email_verified_at usr \<noteq> None)
              (AuthenticationError ''email_verification_required'' 403)) (\<lambda>_.
     Inr (usr\<lparr>usr_display_name := Some name\<rparr>,
          touch_user k now (\<lambda>r. r\<lparr>usr_display_name := Some name\<rparr>) d)))"

definition complete_onboarding :: "time \<Rightarrow> uuid \<Rightarrow> string \<Rightarrow> db \<Rightarrow> (error + user) \<times> db" where
  "complete_onboarding now k display_name d =
     (let name = join_words (split_words [] display_name) in
      if name = [] \<or> length name > 36 \<or> list_ex (\<lambda>c. (of_char c :: nat) < 32) name
      then (Inl (AuthenticationError ''invalid_display_name'' 422), d)
      else transact (complete_onboarding_body now k name) d)"

section \<open>Password recovery\<close>

definition reset_request_body ::
    "auth_service \<Rightarrow> draws \<Rightarrow> time \<Rightarrow> user option \<Rightarrow> string option \<Rightarrow> db
     \<Rightarrow> error + (user \<times> string \<times> uuid) option \<times> db" where
  "reset_request_body au dr now usr ua d =
     (case usr of
        None \<Rightarrow> Inr (None, d)
      | Some r \<Rightarrow>
          if usr_account_status r \<noteq> Active then Inr (None, d)
          else bindE (create_account_token au dr now (usr_id r) PasswordReset
                 (seconds (au_reset_minutes au * 60)) ua
                 (invalidate_active_tokens (usr_id r) PasswordReset now None d)) (\<lambda>((raw, tid), d).
               Inr (Some (r, raw, tid), d)))"

text \<open>
  The outcome is the same for every address; what differs is the mail, returned here with
  the outcome.
\<close>

definition request_password_reset ::
    "auth_service \<Rightarrow> (db \<Rightarrow> db) \<Rightarrow> draws \<Rightarrow> time \<Rightarrow> string \<Rightarrow> string option \<Rightarrow> db
     \<Rightarrow> (error + unit) \<times> mail option \<times> db" where
  "request_password_reset au env dr now email ua d =
     (case normalize_email email of
        Inl _ \<Rightarrow> (Inr (), None, d)
      | Inr n \<Rightarrow>
          let usr = (case user_by_email d n of
                None \<Rightarrow> None
              | Some loaded \<Rightarrow>
                  map_option (\<lambda>found. if usr_id found = usr_id loaded then loaded else found)
                    (user_by_email (env d) n));
              d1 = (if user_by_email d n = None then d else env d)
          in (case transact (reset_request_body au dr now usr ua) d1 of
                (Inl e, d') \<Rightarrow> (Inl e, None, d')
              | (Inr None, d') \<Rightarrow> (Inr (), None, d')
              | (Inr (Some (r, raw, tid)), d') \<Rightarrow>
                  (Inr (), if au_send au = None then None
                     else Some \<lparr>mail_recipient = usr_email r, mail_category = MailReset,
                        mail_token = raw, mail_correlation = uuid_text tid\<rparr>, d')))"

definition reset_password_body ::
    "auth_service \<Rightarrow> (db \<Rightarrow> db) \<Rightarrow> time \<Rightarrow> string \<Rightarrow> string \<Rightarrow> db \<Rightarrow> error + user \<times> db" where
  "reset_password_body au env now raw pwhash d =
     bindE (lock_account_token au env raw PasswordReset d) (\<lambda>(t, d).
     bindE (validate_account_token now t) (\<lambda>_.
     bindE (active_user invalid_account_token d (tok_user_id t)) (\<lambda>usr.
     let f = (\<lambda>r. r\<lparr>usr_password_hash := pwhash, usr_password_changed_at := Some now\<rparr>);
         d = touch_user (usr_id usr) now f
               (modify_account_token (tok_id t) (\<lambda>x. x\<lparr>tok_consumed_at := Some now\<rparr>) d);
         d = revoke_where (\<lambda>r. rs_user_id r = tok_user_id t) now ''password_reset'' d
     in Inr (f usr, invalidate_active_tokens (usr_id usr) PasswordReset now (Some (tok_id t)) d))))"

definition reset_password ::
    "auth_service \<Rightarrow> (db \<Rightarrow> db) \<Rightarrow> draws \<Rightarrow> time \<Rightarrow> string \<Rightarrow> string \<Rightarrow> db \<Rightarrow> (error + user) \<times> db" where
  "reset_password au env dr now raw password d =
     (case validate_new_password au ''invalid_password'' password of
        Inl e \<Rightarrow> (Inl e, d)
      | Inr _ \<Rightarrow>
          transact (reset_password_body au env now raw (au_hash au (dr_salt dr) password)) d)"

definition change_password_body ::
    "auth_service \<Rightarrow> draws \<Rightarrow> time \<Rightarrow> uuid \<Rightarrow> uuid \<Rightarrow> string \<Rightarrow> string \<Rightarrow> string option
     \<Rightarrow> string option \<Rightarrow> db \<Rightarrow> error + (user \<times> session_tokens) \<times> db" where
  "change_password_body au dr now k cur old new raw ua d =
     bindE (active_user unauthorized d k) (\<lambda>usr.
     bindE (require_active_matching_session au now raw
              (find (\<lambda>r. rs_id r = cur \<and> rs_user_id r = k) (refresh_sessions d))) (\<lambda>r.
     bindE (requireE (au_verify au (usr_password_hash usr) old)
              (AuthenticationError ''invalid_current_password'' 400)) (\<lambda>_.
     bindE (requireE (\<not> au_verify au (usr_password_hash usr) new)
              (AuthenticationError ''password_unchanged'' 422)) (\<lambda>_.
     let f = (\<lambda>x. x\<lparr>usr_password_hash := au_hash au (dr_salt dr) new, usr_password_changed_at := Some now\<rparr>);
         d = touch_user k now f d;
         d = revoke_where (\<lambda>s. rs_user_id s = k \<and> rs_id s \<noteq> cur) now ''password_changed'' d
     in bindE (rotate_session au dr now k r ua d) (\<lambda>(tk, d).
        Inr ((f usr, tk), invalidate_active_tokens k PasswordReset now None d))))))"

definition change_password ::
    "auth_service \<Rightarrow> draws \<Rightarrow> time \<Rightarrow> uuid \<Rightarrow> string \<Rightarrow> string \<Rightarrow> string option \<Rightarrow> string option
     \<Rightarrow> db \<Rightarrow> (error + user \<times> session_tokens) \<times> db" where
  "change_password au dr now k old new raw ua d =
     (case bindE (validate_new_password au ''invalid_password'' new) (\<lambda>_. parse_refresh_session_id raw) of
        Inl e \<Rightarrow> (Inl e, d)
      | Inr cur \<Rightarrow> transact (change_password_body au dr now k cur old new raw ua) d)"

section \<open>Managed sessions\<close>

record managed_session =
  ms_id :: uuid
  ms_created_at :: time
  ms_last_used_at :: "time option"
  ms_expires_at :: time
  ms_revoked_at :: "time option"
  ms_client_label :: string
  ms_current :: bool

definition contains :: "string \<Rightarrow> string \<Rightarrow> bool" where
  "contains p s = list_ex (\<lambda>i. starts_with p (drop i s)) [0..<length s + 1]"

definition client_label :: "string option \<Rightarrow> string" where
  "client_label ua =
     (let v = casefold (or_else ua []);
          browser = (if contains ''edg/'' v then ''Edge'' else if contains ''firefox/'' v then ''Firefox''
            else if contains ''chrome/'' v \<or> contains ''crios/'' v then ''Chrome''
            else if contains ''safari/'' v then ''Safari'' else ''Browser'');
          platform = (if contains ''iphone'' v \<or> contains ''ipad'' v then ''iOS''
            else if contains ''android'' v then ''Android'' else if contains ''windows'' v then ''Windows''
            else if contains ''macintosh'' v \<or> contains ''mac os'' v then ''macOS''
            else if contains ''linux'' v then ''Linux'' else ''Unknown device'')
      in browser @ '' on '' @ platform)"

definition list_sessions ::
    "auth_service \<Rightarrow> time \<Rightarrow> uuid \<Rightarrow> string option \<Rightarrow> db \<Rightarrow> managed_session list" where
  "list_sessions au now k raw d =
     (let cur = matching_current_session_id au now k raw d in
      map (\<lambda>r. \<lparr>ms_id = rs_id r, ms_created_at = rs_created_at r, ms_last_used_at = rs_last_used_at r,
           ms_expires_at = rs_expires_at r, ms_revoked_at = rs_revoked_at r,
           ms_client_label = client_label (rs_user_agent r), ms_current = (cur = Some (rs_id r))\<rparr>)
        (filter (\<lambda>r. rs_revoked_at r = None \<and> now < rs_expires_at r)
          (sort_key (\<lambda>r. - rs_created_at r) (filter (\<lambda>r. rs_user_id r = k) (refresh_sessions d)))))"

definition revoke_session ::
    "auth_service \<Rightarrow> time \<Rightarrow> uuid \<Rightarrow> uuid \<Rightarrow> string option \<Rightarrow> db \<Rightarrow> (error + bool) \<times> db" where
  "revoke_session au now k sid raw d =
     (let cur = matching_current_session_id au now k raw d in
      case find (\<lambda>r. rs_id r = sid \<and> rs_user_id r = k) (refresh_sessions d) of
        None \<Rightarrow> (Inl (AuthenticationError ''session_not_found'' 404), d)
      | Some r \<Rightarrow> (Inr (cur = Some sid),
                   revoke_where (\<lambda>s. rs_id s = sid) now ''user_revoked'' d))"

record session_mutation =
  sm_revoked_count :: nat
  sm_current_preserved :: bool
  sm_replacement :: "session_tokens option"

definition revoke_all_body ::
    "auth_service \<Rightarrow> draws \<Rightarrow> time \<Rightarrow> uuid \<Rightarrow> uuid option \<Rightarrow> string option \<Rightarrow> string option \<Rightarrow> db
     \<Rightarrow> error + (user \<times> nat \<times> session_tokens option) \<times> db" where
  "revoke_all_body au dr now k cur raw ua d =
     bindE (active_user unauthorized d k) (\<lambda>usr.
     bindE (case cur of
              None \<Rightarrow> Inr None
            | Some c \<Rightarrow> bindE (require_active_matching_session au now raw
                (find (\<lambda>r. rs_id r = c \<and> rs_user_id r = k) (refresh_sessions d))) (\<lambda>r. Inr (Some r)))
       (\<lambda>mine.
     let others = (\<lambda>s. rs_user_id s = k \<and> cur \<noteq> Some (rs_id s));
         n = length (filter (\<lambda>s. others s \<and> rs_revoked_at s = None) (refresh_sessions d));
         d = revoke_where others now ''user_revoke_all'' d
     in case mine of
          None \<Rightarrow> Inr ((usr, n, None), d)
        | Some r \<Rightarrow> bindE (rotate_session au dr now k r ua d) (\<lambda>(tk, d). Inr ((usr, n, Some tk), d))))"

definition revoke_all_managed_sessions ::
    "auth_service \<Rightarrow> draws \<Rightarrow> time \<Rightarrow> uuid \<Rightarrow> bool \<Rightarrow> string option \<Rightarrow> string option \<Rightarrow> db
     \<Rightarrow> (error + session_mutation) \<times> db" where
  "revoke_all_managed_sessions au dr now k preserve raw ua d =
     (case (if preserve then bindE (parse_refresh_session_id raw) (\<lambda>c. Inr (Some c)) else Inr None) of
        Inl e \<Rightarrow> (Inl e, d)
      | Inr cur \<Rightarrow>
          (case transact (revoke_all_body au dr now k cur raw ua) d of
             (Inl e, d') \<Rightarrow> (Inl e, d')
           | (Inr (usr, n, tk), d') \<Rightarrow>
               (Inr \<lparr>sm_revoked_count = n, sm_current_preserved = preserve, sm_replacement = tk\<rparr>, d')))"

definition revoke_all_sessions :: "time \<Rightarrow> uuid \<Rightarrow> string \<Rightarrow> db \<Rightarrow> db" where
  "revoke_all_sessions now k reason = revoke_where (\<lambda>r. rs_user_id r = k) now (take 64 reason)"

section \<open>Access tokens\<close>

definition resolve_access_token :: "auth_service \<Rightarrow> time \<Rightarrow> string \<Rightarrow> db \<Rightarrow> error + user" where
  "resolve_access_token au now token d =
     (case au_jwt_decode au now token of
        None \<Rightarrow> Inl unauthorized
      | Some cl \<Rightarrow>
          (case parse_uuid (cl_sub cl) of
             None \<Rightarrow> Inl unauthorized
           | Some k \<Rightarrow> active_user unauthorized d k))"

text \<open>
  The dependencies of \<^verbatim>\<open>app/auth/dependencies.py\<close>; \<open>cred\<close> is the scheme and the token of the
  header, when there is one.
\<close>

definition get_current_user ::
    "auth_service \<Rightarrow> time \<Rightarrow> (string \<times> string) option \<Rightarrow> db \<Rightarrow> error + user" where
  "get_current_user au now cred d =
     (case cred of
        None \<Rightarrow> Inl unauthorized
      | Some (scheme, token) \<Rightarrow>
          if lower scheme \<noteq> ''bearer'' then Inl unauthorized else resolve_access_token au now token d)"

definition get_optional_current_user ::
    "auth_service \<Rightarrow> time \<Rightarrow> (string \<times> string) option \<Rightarrow> db \<Rightarrow> error + user option" where
  "get_optional_current_user au now cred d =
     (case cred of
        None \<Rightarrow> Inr None
      | Some (scheme, token) \<Rightarrow>
          if lower scheme \<noteq> ''bearer'' then Inl unauthorized
          else bindE (resolve_access_token au now token d) (\<lambda>usr. Inr (Some usr)))"

text \<open>\<open>require_verified_user\<close> of \<^verbatim>\<open>app/auth/dependencies.py\<close>.\<close>

definition require_verified_user :: "user \<Rightarrow> error + user" where
  "require_verified_user usr =
     (if usr_account_status usr \<noteq> Active then Inl unauthorized
      else if usr_email_verified_at usr = None
      then Inl (AuthenticationError ''email_verification_required'' 403) else Inr usr)"

section \<open>The rate limiter\<close>

text \<open>
  \<open>AuthRateLimiter\<close> of \<^verbatim>\<open>app/auth/rate_limit.py\<close>: the times of the attempts per key,
  oldest first; a missing key reads as no attempts.
\<close>

type_synonym attempts = "string \<Rightarrow> time list"

definition rate_check :: "time \<Rightarrow> string \<Rightarrow> nat \<Rightarrow> int \<Rightarrow> attempts \<Rightarrow> (error + unit) \<times> attempts" where
  "rate_check now key limit window st =
     (let recent = dropWhile (\<lambda>t. t \<le> now - seconds window) (st key) in
      if limit \<le> length recent
      then (Inl (AuthenticationError ''rate_limited'' 429), st(key := recent))
      else (Inr (), st(key := recent @ [now])))"

definition rate_reset :: "attempts \<Rightarrow> attempts" where
  "rate_reset st = (\<lambda>_. [])"

end
