(* ===== verification/Account_Laws.thy ===== *)
theory Account_Laws
  imports Accounts
begin

text \<open>
  What the operations of \<^verbatim>\<open>app/auth/service.py\<close> do to the rows of \<open>refresh_sessions\<close> and
  \<open>account_tokens\<close>: \<open>auth_inv\<close> is kept, no row disappears and a revoked session or a used
  token never changes again (\<open>auth_moves\<close>). The shape lemmas (\<open>..._Inr\<close>) say what a
  successful call found and wrote. \<open>auth_evolves\<close> is any interleaving of the operations,
  in which the database may change while an operation waits for its lock.
\<close>

section \<open>What every operation does to sessions and tokens\<close>

definition session_later :: "refresh_session \<Rightarrow> refresh_session \<Rightarrow> bool" where
  "session_later r s \<longleftrightarrow> rs_id s = rs_id r \<and> rs_user_id s = rs_user_id r
     \<and> rs_token_hash s = rs_token_hash r \<and> rs_token_family_id s = rs_token_family_id r
     \<and> rs_expires_at s = rs_expires_at r \<and> (rs_revoked_at r \<noteq> None \<longrightarrow> s = r)"

definition token_later :: "account_token \<Rightarrow> account_token \<Rightarrow> bool" where
  "token_later t s \<longleftrightarrow> tok_id s = tok_id t \<and> tok_user_id s = tok_user_id t
     \<and> tok_purpose s = tok_purpose t \<and> tok_token_hash s = tok_token_hash t
     \<and> tok_expires_at s = tok_expires_at t
     \<and> (tok_consumed_at t \<noteq> None \<or> tok_invalidated_at t \<noteq> None \<longrightarrow> s = t)"

definition auth_inv :: "db \<Rightarrow> bool" where
  "auth_inv d \<longleftrightarrow> distinct (map rs_id (refresh_sessions d)) \<and> distinct (map rs_token_hash (refresh_sessions d))
     \<and> distinct (map tok_id (account_tokens d)) \<and> distinct (map tok_token_hash (account_tokens d))
     \<and> (\<forall>k p. at_most_one (active_token_of k p) (account_tokens d))"

definition auth_later :: "db \<Rightarrow> db \<Rightarrow> bool" where
  "auth_later d e \<longleftrightarrow> (\<forall>r\<in>set (refresh_sessions d). \<exists>s\<in>set (refresh_sessions e). session_later r s)
     \<and> (\<forall>t\<in>set (account_tokens d). \<exists>s\<in>set (account_tokens e). token_later t s)"

definition auth_moves :: "db \<Rightarrow> db \<Rightarrow> bool" where
  "auth_moves d e \<longleftrightarrow> (auth_inv d \<longrightarrow> auth_inv e \<and> auth_later d e)"

lemma session_later_refl [simp]: "session_later r r" and token_later_refl [simp]: "token_later t t"
  by (simp_all add: session_later_def token_later_def)

lemma later_ex [simp]:
  "r \<in> set rows \<Longrightarrow> \<exists>s\<in>set rows. session_later r s"
  "t \<in> set tokens \<Longrightarrow> \<exists>s\<in>set tokens. token_later t s"
  using session_later_refl token_later_refl by blast+

lemma session_later_trans: "session_later r s \<Longrightarrow> session_later s t \<Longrightarrow> session_later r t"
  by (auto simp: session_later_def)

lemma token_later_trans: "token_later r s \<Longrightarrow> token_later s t \<Longrightarrow> token_later r t"
  by (auto simp: token_later_def)

lemma auth_later_refl: "auth_later d d"
  unfolding auth_later_def using session_later_refl token_later_refl by blast

lemma auth_later_trans: "auth_later d e \<Longrightarrow> auth_later e f \<Longrightarrow> auth_later d f"
  unfolding auth_later_def by (meson session_later_trans token_later_trans)

lemma auth_moves_refl [simp]: "auth_moves d d"
  by (simp add: auth_moves_def auth_later_refl)

lemma auth_moves_trans: "auth_moves d e \<Longrightarrow> auth_moves e f \<Longrightarrow> auth_moves d f"
  unfolding auth_moves_def by (blast intro: auth_later_trans)

lemma auth_moves_frame:
  "refresh_sessions e = refresh_sessions d \<Longrightarrow> account_tokens e = account_tokens d \<Longrightarrow> auth_moves d e"
  by (auto simp: auth_moves_def auth_inv_def auth_later_def)

lemma later_update:
  assumes "\<And>r. r \<in> set rows \<Longrightarrow> p r \<Longrightarrow> later r (f r)" and "\<And>r. later r r" and "r \<in> set rows"
  shows "\<exists>s\<in>set (update_where p f rows). later r s"
proof -
  have "later r (if p r then f r else r)" using assms by simp
  moreover have "(if p r then f r else r) \<in> set (update_where p f rows)"
    using assms(3) unfolding in_update_where by blast
  ultimately show ?thesis ..
qed

text \<open>An update of unrevoked sessions.\<close>

lemma sessions_update_moves:
  assumes "\<And>r. r \<in> set (refresh_sessions d) \<Longrightarrow> p r \<Longrightarrow> session_later r (f r)"
    and "refresh_sessions e = update_where p f (refresh_sessions d)" and "account_tokens e = account_tokens d"
  shows "auth_moves d e"
proof -
  have "map rs_id (refresh_sessions e) = map rs_id (refresh_sessions d)"
    "map rs_token_hash (refresh_sessions e) = map rs_token_hash (refresh_sessions d)"
    unfolding assms(2) using assms(1) by (auto intro!: map_update_where_on simp: session_later_def)
  moreover have "\<forall>r\<in>set (refresh_sessions d). \<exists>s\<in>set (refresh_sessions e). session_later r s"
    unfolding assms(2) using assms(1) by (auto intro!: later_update)
  ultimately show ?thesis using assms(3) by (auto simp: auth_moves_def auth_inv_def auth_later_def)
qed

lemma tokens_update_moves:
  assumes "\<And>t. t \<in> set (account_tokens d) \<Longrightarrow> p t \<Longrightarrow> token_later t (f t) \<and> (\<forall>k q. \<not> active_token_of k q (f t))"
    and "account_tokens e = update_where p f (account_tokens d)" and "refresh_sessions e = refresh_sessions d"
  shows "auth_moves d e"
proof -
  have "map tok_id (account_tokens e) = map tok_id (account_tokens d)"
    "map tok_token_hash (account_tokens e) = map tok_token_hash (account_tokens d)"
    unfolding assms(2) using assms(1) by (auto intro!: map_update_where_on simp: token_later_def)
  moreover have "\<forall>r\<in>set (account_tokens d). \<exists>s\<in>set (account_tokens e). token_later r s"
    unfolding assms(2) using assms(1) by (auto intro!: later_update)
  moreover have "at_most_one (active_token_of k q) (account_tokens e)"
    if "at_most_one (active_token_of k q) (account_tokens d)" for k q
    unfolding assms(2) by (rule at_most_one_update [OF that]) (use assms(1) in blast)
  ultimately show ?thesis using assms(3) by (auto simp: auth_moves_def auth_inv_def auth_later_def)
qed

lemma revoke_simps [simp]:
  "rs_id (revoke now c r) = rs_id r" "rs_user_id (revoke now c r) = rs_user_id r"
  "rs_token_hash (revoke now c r) = rs_token_hash r" "rs_token_family_id (revoke now c r) = rs_token_family_id r"
  "rs_expires_at (revoke now c r) = rs_expires_at r" "rs_revoked_at (revoke now c r) = Some now"
  "rs_revocation_reason (revoke now c r) = Some c"
  by (simp_all add: revoke_def)

lemma revoke_where_moves: "auth_moves d (revoke_where p now c d)"
  by (rule sessions_update_moves) (auto simp: revoke_where_def session_later_def)

lemma revoke_where_frame [simp]:
  "account_tokens (revoke_where p now c d) = account_tokens d" "users (revoke_where p now c d) = users d"
  by (simp_all add: revoke_where_def)

lemma revoke_family_moves: "auth_moves d (revoke_family fam c now d)"
  by (simp add: revoke_family_def revoke_where_moves)

lemma modify_session_moves:
  assumes "get_session d k = Some r" and "rs_revoked_at r = None" and "auth_inv d"
    and "\<And>r. session_later (r\<lparr>rs_revoked_at := None\<rparr>) (f r)"
  shows "auth_moves d (modify_refresh_session k f d)"
proof (rule sessions_update_moves)
  fix s assume s: "s \<in> set (refresh_sessions d)" "rs_id s = k"
  from assms(1) have "r \<in> set (refresh_sessions d)" "rs_id r = k" by (auto simp: get_session_def dest: find_Some_in)
  with s assms(3) have "s = r" by (auto simp: auth_inv_def distinct_map dest: inj_onD)
  with assms(2) have "s\<lparr>rs_revoked_at := None\<rparr> = s" by (cases s) simp
  with assms(4) [of s] show "session_later s (f s)" by simp
qed (simp_all add: modify_refresh_session_def)

lemma insert_session_moves:
  assumes "insert_refresh_session r d = Inr e"
  shows "auth_moves d e"
proof -
  have e: "e = d\<lparr>refresh_sessions := refresh_sessions d @ [r]\<rparr>" using insert_refresh_session_Inr [OF assms] .
  have "rs_id r \<notin> rs_id ` set (refresh_sessions d)" "rs_token_hash r \<notin> rs_token_hash ` set (refresh_sessions d)"
    using assms by (auto simp: insert_refresh_session_def split: if_splits)
  then show ?thesis by (auto simp: auth_moves_def auth_inv_def auth_later_def e)
qed

lemma insert_token_moves:
  assumes "insert_account_token t d = Inr e"
  shows "auth_moves d e"
proof -
  have e: "e = d\<lparr>account_tokens := account_tokens d @ [t]\<rparr>" using insert_account_token_Inr [OF assms] .
  have "tok_id t \<notin> tok_id ` set (account_tokens d)" "tok_token_hash t \<notin> tok_token_hash ` set (account_tokens d)"
    using assms by (auto simp: insert_account_token_def split: if_splits)
  moreover have "at_most_one (active_token_of k p) (account_tokens d @ [t])"
    if "at_most_one (active_token_of k p) (account_tokens d)" for k p
    by (rule at_most_one_append1 [OF that])
      (use assms in \<open>auto simp: insert_account_token_def active_token_of_def split: if_splits\<close>)
  ultimately show ?thesis by (auto simp: auth_moves_def auth_inv_def auth_later_def e)
qed

lemma touch_user_frame [simp]:
  "refresh_sessions (touch_user k now f d) = refresh_sessions d"
  "account_tokens (touch_user k now f d) = account_tokens d"
  by (simp_all add: touch_user_def modify_user_def)

lemma touch_user_moves: "auth_moves d (touch_user k now f d)"
  by (simp add: auth_moves_frame)

lemma insert_user_moves: "insert_user r d = Inr e \<Longrightarrow> auth_moves d e"
  by (auto dest!: insert_user_Inr intro: auth_moves_frame)

lemma invalidate_moves: "auth_moves d (invalidate_active_tokens k p now x d)"
  by (rule tokens_update_moves) (auto simp: invalidate_active_tokens_def token_later_def active_token_of_def)

lemma invalidate_frame [simp]:
  "refresh_sessions (invalidate_active_tokens k p now x d) = refresh_sessions d"
  "users (invalidate_active_tokens k p now x d) = users d"
  by (simp_all add: invalidate_active_tokens_def)

section \<open>Creation and rotation\<close>

lemma create_tokens_Inr:
  assumes "create_session_tokens au dr now k fam ua d = Inr ((tk, i), e)"
  shows "i = dr_uuid dr 0 \<and> tk_refresh tk = refresh_token_of i (dr_secret dr 0)
    \<and> insert_refresh_session (new_session au i (tk_refresh tk) now k fam ua) d = Inr e"
  using assms by (auto simp: create_session_tokens_def Let_def resultE_iffs)

lemma create_session_moves: "create_session au dr now k ua d = Inr (tk, e) \<Longrightarrow> auth_moves d e"
  by (auto simp: create_session_def resultE_iffs dest!: create_tokens_Inr intro: insert_session_moves)

lemma create_token_moves: "create_account_token au dr now k p l ua d = Inr (x, e) \<Longrightarrow> auth_moves d e"
  by (auto simp: create_account_token_def Let_def resultE_iffs intro: insert_token_moves)

definition rotated :: "time \<Rightarrow> uuid \<Rightarrow> refresh_session \<Rightarrow> refresh_session" where
  "rotated now k r = (revoke now ''rotated'' r)\<lparr>rs_last_used_at := Some now, rs_replaced_by := Some k\<rparr>"

lemma rotate_Inr:
  assumes "rotate_session au dr now k r ua d = Inr (tk, e)" and r: "rs_id r \<in> rs_id ` set (refresh_sessions d)"
  obtains i where "tk_refresh tk = refresh_token_of i (dr_secret dr 0)" "i = dr_uuid dr 0"
    "refresh_sessions e = update_where (\<lambda>s. rs_id s = rs_id r) (rotated now i) (refresh_sessions d)
       @ [new_session au i (tk_refresh tk) now k (rs_token_family_id r) ua]"
    "account_tokens e = account_tokens d" "users e = users d"
    "i \<notin> rs_id ` set (refresh_sessions d)"
    "token_hash au (tk_refresh tk) \<notin> rs_token_hash ` set (refresh_sessions d)"
proof -
  let ?d = "modify_refresh_session (rs_id r) (\<lambda>r. (revoke now ''rotated'' r)\<lparr>rs_last_used_at := Some now\<rparr>) d"
  from assms(1) obtain i d1 where c: "create_session_tokens au dr now k (rs_token_family_id r) ua ?d = Inr ((tk, i), d1)"
    and e: "e = modify_refresh_session (rs_id r) (\<lambda>r. r\<lparr>rs_replaced_by := Some i\<rparr>) d1"
    by (auto simp: rotate_session_def resultE_iffs)
  note i = create_tokens_Inr [OF c]
  from i have d1: "d1 = ?d\<lparr>refresh_sessions := refresh_sessions ?d @ [new_session au i (tk_refresh tk) now k (rs_token_family_id r) ua]\<rparr>"
    by (auto dest: insert_refresh_session_Inr)
  have ids: "rs_id ` set (refresh_sessions ?d) = rs_id ` set (refresh_sessions d)"
    "rs_token_hash ` set (refresh_sessions ?d) = rs_token_hash ` set (refresh_sessions d)"
  proof -
    have "map rs_id (refresh_sessions ?d) = map rs_id (refresh_sessions d)"
      "map rs_token_hash (refresh_sessions ?d) = map rs_token_hash (refresh_sessions d)"
      by (simp_all add: modify_refresh_session_def map_update_where)
    from arg_cong [OF this(1), of set] arg_cong [OF this(2), of set]
    show "rs_id ` set (refresh_sessions ?d) = rs_id ` set (refresh_sessions d)"
      "rs_token_hash ` set (refresh_sessions ?d) = rs_token_hash ` set (refresh_sessions d)" by simp_all
  qed
  have fresh: "i \<notin> rs_id ` set (refresh_sessions ?d)" "token_hash au (tk_refresh tk) \<notin> rs_token_hash ` set (refresh_sessions ?d)"
    using i by (auto simp: insert_refresh_session_def new_session_def split: if_splits)
  have upd: "update_where (\<lambda>s. rs_id s = rs_id r) (\<lambda>r. r\<lparr>rs_replaced_by := Some i\<rparr>) (refresh_sessions ?d)
      = update_where (\<lambda>s. rs_id s = rs_id r) (rotated now i) (refresh_sessions d)"
    by (simp add: modify_refresh_session_def update_where_def rotated_def)
  have "rs_id (new_session au i (tk_refresh tk) now k (rs_token_family_id r) ua) \<noteq> rs_id r"
    using fresh(1) r ids(1) by (auto simp: new_session_def)
  then have "refresh_sessions e = update_where (\<lambda>s. rs_id s = rs_id r) (rotated now i) (refresh_sessions d)
       @ [new_session au i (tk_refresh tk) now k (rs_token_family_id r) ua]"
    by (simp add: e d1 modify_refresh_session_def [of _ _ d1] modify_refresh_session_def [of _ _ "_\<lparr>refresh_sessions := _\<rparr>"]
        update_where_append upd) (simp add: update_where_def)
  moreover have "account_tokens e = account_tokens d" "users e = users d"
    by (simp_all add: e d1 modify_refresh_session_def)
  ultimately show ?thesis using i fresh ids by (intro that [of i]) auto
qed

lemma rotated_simps [simp]:
  "rs_id (rotated now k r) = rs_id r" "rs_user_id (rotated now k r) = rs_user_id r"
  "rs_token_hash (rotated now k r) = rs_token_hash r" "rs_token_family_id (rotated now k r) = rs_token_family_id r"
  "rs_expires_at (rotated now k r) = rs_expires_at r" "rs_revoked_at (rotated now k r) = Some now"
  "rs_revocation_reason (rotated now k r) = Some ''rotated''" "rs_replaced_by (rotated now k r) = Some k"
  by (simp_all add: rotated_def)

lemma new_session_simps [simp]:
  "rs_id (new_session au k raw now o1 fam ua) = k" "rs_user_id (new_session au k raw now o1 fam ua) = o1"
  "rs_token_hash (new_session au k raw now o1 fam ua) = token_hash au raw"
  "rs_token_family_id (new_session au k raw now o1 fam ua) = fam"
  "rs_revoked_at (new_session au k raw now o1 fam ua) = None"
  by (simp_all add: new_session_def)

lemma rotate_moves:
  assumes rot: "rotate_session au dr now k r ua d = Inr (tk, e)"
    and r: "r \<in> set (refresh_sessions d)" "rs_revoked_at r = None" and inv: "auth_inv d"
  shows "auth_moves d e"
  using rot
proof (rule rotate_Inr)
  show "rs_id r \<in> rs_id ` set (refresh_sessions d)" using r by blast
next
  fix i
  assume e: "refresh_sessions e = update_where (\<lambda>s. rs_id s = rs_id r) (rotated now i) (refresh_sessions d)
       @ [new_session au i (tk_refresh tk) now k (rs_token_family_id r) ua]"
    and t: "account_tokens e = account_tokens d"
    and fresh: "i \<notin> rs_id ` set (refresh_sessions d)"
      "token_hash au (tk_refresh tk) \<notin> rs_token_hash ` set (refresh_sessions d)"
  let ?d = "d\<lparr>refresh_sessions := update_where (\<lambda>s. rs_id s = rs_id r) (rotated now i) (refresh_sessions d)\<rparr>"
  have one: "auth_moves d ?d"
  proof (rule sessions_update_moves)
    fix s assume "s \<in> set (refresh_sessions d)" "rs_id s = rs_id r"
    with r(1) inv have "s = r" by (auto simp: auth_inv_def distinct_map dest: inj_onD)
    with r(2) show "session_later s (rotated now i s)" by (simp add: session_later_def)
  qed simp_all
  have ids: "map rs_id (refresh_sessions ?d) = map rs_id (refresh_sessions d)"
    "map rs_token_hash (refresh_sessions ?d) = map rs_token_hash (refresh_sessions d)"
    by (simp_all add: map_update_where)
  have "auth_moves ?d e"
    using fresh arg_cong [OF ids(1), of set] arg_cong [OF ids(2), of set]
    by (auto simp: auth_moves_def auth_inv_def auth_later_def e t)
  with one show ?thesis by (rule auth_moves_trans)
qed

section \<open>The operations\<close>

lemma get_session_Some: "get_session d k = Some r \<Longrightarrow> r \<in> set (refresh_sessions d) \<and> rs_id r = k"
  by (auto simp: get_session_def dest: find_Some_in)

lemma active_user_Inr: "active_user e d k = Inr usr \<longleftrightarrow> get_user d k = Some usr \<and> usr_account_status usr = Active"
  by (auto simp: active_user_def split: option.splits)

lemma get_user_Some: "get_user d k = Some usr \<Longrightarrow> usr \<in> set (users d) \<and> usr_id usr = k"
  by (auto simp: get_user_def dest: find_Some_in)

lemma transact_moves:
  assumes "\<And>x e. body d = Inr (x, e) \<Longrightarrow> auth_moves d e"
  shows "auth_moves d (snd (transact body d))"
  using assms by (auto simp: transact_def split: sum.splits prod.splits)

lemma register_moves: "auth_moves d (snd (register au dr now email p ua d))"
proof -
  have "auth_moves d e" if "register_body au dr now n h ua d = Inr (x, e)" for n h x e
    using that unfolding register_body_def Let_def
    by (auto simp: resultE_iffs split: if_splits
        intro: auth_moves_trans [OF insert_user_moves auth_moves_trans [OF create_token_moves create_session_moves]])
  then have "auth_moves d (snd (transact (register_body au dr now n h ua) d))" for n h
    by (rule transact_moves)
  then show ?thesis
    unfolding register_def by (auto split: sum.splits prod.splits) (metis snd_conv)+
qed

lemma login_moves:
  assumes "auth_moves d (env d)"
  shows "auth_moves d (snd (login au env dr now email p ua d))"
proof -
  have "auth_moves d' e" if "login_body au dr now usr p ua d' = Inr (x, e)" for d' usr x e
    using that unfolding login_body_def Let_def
    by (auto simp: resultE_iffs split: if_splits
        intro: auth_moves_trans [OF touch_user_moves create_session_moves])
  then have "auth_moves d' (snd (transact (login_body au dr now usr p ua) d'))" for d' usr
    by (rule transact_moves)
  with assms show ?thesis
    unfolding login_def by (auto split: sum.splits option.splits intro: auth_moves_trans)
qed

lemma modify_revoke_moves:
  assumes "get_session d k = Some r" and "rs_revoked_at r = None"
  shows "auth_moves d (modify_refresh_session k (revoke now c) d)"
  unfolding auth_moves_def
proof
  assume inv: "auth_inv d"
  have "auth_moves d (modify_refresh_session k (revoke now c) d)"
    by (rule modify_session_moves [OF assms inv]) (simp add: session_later_def)
  with inv show "auth_inv (modify_refresh_session k (revoke now c) d) \<and> auth_later d (modify_refresh_session k (revoke now c) d)"
    by (simp add: auth_moves_def)
qed

lemma auth_movesI: "(auth_inv d \<Longrightarrow> auth_moves d e) \<Longrightarrow> auth_moves d e"
  by (simp add: auth_moves_def)

lemma refresh_locked_moves: "auth_moves d (snd (refresh_locked au dr now raw k k' ua d))"
proof (rule auth_movesI)
  assume inv: "auth_inv d"
  show ?thesis
  proof (cases "get_session d k")
    case None
    then show ?thesis by (simp add: refresh_locked_def)
  next
    case (Some r)
    note r = get_session_Some [OF Some]
    have "auth_moves d e" if "rotate_session au dr now u r ua d = Inr (tk, e)" "rs_revoked_at r = None" for u tk e
      using rotate_moves [OF that(1) _ that(2) inv] r by simp
    then have "auth_moves d (snd (transact (\<lambda>d. bindE (rotate_session au dr now (usr_id usr) r ua d)
        (\<lambda>(tk, d). Inr ((usr, tk), d))) d))" if "rs_revoked_at r = None" for usr
      using that by (intro transact_moves) (auto simp: resultE_iffs)
    then show ?thesis
      using Some by (auto simp: refresh_locked_def revoke_family_moves intro: modify_revoke_moves split: sum.splits)
  qed
qed

lemma refresh_moves: "auth_moves d (env d) \<Longrightarrow> auth_moves d (snd (refresh au env dr now raw ua d))"
  unfolding refresh_def
  by (auto split: option.splits sum.splits intro: auth_moves_trans [OF _ refresh_locked_moves])

lemma logout_moves: "auth_moves d (logout au now raw d)"
  unfolding logout_def by (auto split: option.splits sum.splits intro: modify_revoke_moves)


lemma resend_moves: "auth_moves d (snd (resend_verification au dr now k ua d))"
proof -
  have "auth_moves d e" if "resend_body au dr now k ua d = Inr (x, e)" for x e
    using that unfolding resend_body_def
    by (auto simp: resultE_iffs split: if_splits intro: auth_moves_trans [OF invalidate_moves create_token_moves])
  then have "auth_moves d (snd (transact (resend_body au dr now k ua) d))" by (rule transact_moves)
  then show ?thesis
    unfolding resend_verification_def
    by (cases "transact (resend_body au dr now k ua) d") (auto simp: Let_def split: sum.splits option.splits prod.splits)
qed

lemma lock_token_Inr:
  assumes "lock_account_token au env raw p d = Inr (t, e)"
  shows "e = env d \<and> t \<in> set (account_tokens e) \<and> tok_token_hash t = token_hash au raw \<and> tok_purpose t = p"
  using assms
  by (auto simp: lock_account_token_def token_of_def split: if_splits option.splits dest: find_Some_in)

lemma validate_token_Inr:
  "validate_account_token now t = Inr x \<longleftrightarrow>
     tok_consumed_at t = None \<and> tok_invalidated_at t = None \<and> now < tok_expires_at t"
  by (auto simp: validate_account_token_def)

lemma consume_moves:
  assumes "t \<in> set (account_tokens d)" and "tok_consumed_at t = None" "tok_invalidated_at t = None"
  shows "auth_moves d (modify_account_token (tok_id t) (\<lambda>x. x\<lparr>tok_consumed_at := Some now\<rparr>) d)"
proof (rule auth_movesI, rule tokens_update_moves)
  fix x assume inv: "auth_inv d" and x: "x \<in> set (account_tokens d)" "tok_id x = tok_id t"
  with assms(1) have "x = t" by (auto simp: auth_inv_def distinct_map dest: inj_onD)
  with assms show "token_later x (x\<lparr>tok_consumed_at := Some now\<rparr>)
      \<and> (\<forall>k q. \<not> active_token_of k q (x\<lparr>tok_consumed_at := Some now\<rparr>))"
    by (simp add: token_later_def active_token_of_def)
qed (simp_all add: modify_account_token_def)

lemma consume_frame [simp]:
  "refresh_sessions (modify_account_token k f d) = refresh_sessions d" "users (modify_account_token k f d) = users d"
  by (simp_all add: modify_account_token_def)

text \<open>What a successful \<open>verify_email\<close> did, step by step.\<close>

lemma verify_body_Inr:
  assumes "verify_email_body au env dr now raw ua current rr d = Inr ((u, tk), e)"
  obtains t usr d1 where "t \<in> set (account_tokens (env d))" "tok_token_hash t = token_hash au raw"
    "tok_purpose t = EmailVerification" "tok_consumed_at t = None" "tok_invalidated_at t = None"
    "now < tok_expires_at t" "get_user (env d) (tok_user_id t) = Some usr" "usr_account_status usr = Active"
    "usr_id usr = tok_user_id t" "current = None \<or> current = Some (usr_id usr)"
    "d1 = invalidate_active_tokens (usr_id usr) EmailVerification now (Some (tok_id t))
       (touch_user (usr_id usr) now (\<lambda>r. if usr_email_verified_at usr = None
            then r\<lparr>usr_email_verified_at := Some now\<rparr> else r)
         (modify_account_token (tok_id t) (\<lambda>x. x\<lparr>tok_consumed_at := Some now\<rparr>) (env d)))"
    "(case active_refresh_session au now rr (env d) of
        None \<Rightarrow> create_session au dr now (usr_id usr) ua d1
      | Some r \<Rightarrow> rotate_session au dr now (usr_id usr) r ua d1) = Inr (tk, e)"
    "\<And>r. active_refresh_session au now rr (env d) = Some r \<Longrightarrow> rs_user_id r = usr_id usr"
    "u = (if usr_email_verified_at usr = None then usr\<lparr>usr_email_verified_at := Some now\<rparr> else usr)"
proof -
  from assms obtain t d0 where t: "lock_account_token au env raw EmailVerification d = Inr (t, d0)"
    by (auto simp: verify_email_body_def resultE_iffs)
  note lt = lock_token_Inr [OF t]
  with assms t obtain usr where u: "validate_account_token now t = Inr ()" "active_user invalid_account_token (env d) (tok_user_id t) = Inr usr"
    by (auto simp: verify_email_body_def bindE_Inr_iff)
  note uu = u(2) [unfolded active_user_Inr]
  define d1 where "d1 = invalidate_active_tokens (usr_id usr) EmailVerification now (Some (tok_id t))
       (touch_user (usr_id usr) now (\<lambda>r. if usr_email_verified_at usr = None
            then r\<lparr>usr_email_verified_at := Some now\<rparr> else r)
         (modify_account_token (tok_id t) (\<lambda>x. x\<lparr>tok_consumed_at := Some now\<rparr>) (env d)))"
  have rest: "bindE (requireE (current = None \<or> current = Some (usr_id usr)) account_mismatch) (\<lambda>_.
      bindE (requireE (case active_refresh_session au now rr (env d) of None \<Rightarrow> True | Some r \<Rightarrow> rs_user_id r = usr_id usr)
        account_mismatch) (\<lambda>_.
      bindE (case active_refresh_session au now rr (env d) of
                 None \<Rightarrow> create_session au dr now (usr_id usr) ua d1
               | Some r \<Rightarrow> rotate_session au dr now (usr_id usr) r ua d1) (\<lambda>(tk, d).
        Inr ((if usr_email_verified_at usr = None then usr\<lparr>usr_email_verified_at := Some now\<rparr> else usr, tk), d))))
    = Inr ((u, tk), e)"
    using assms unfolding verify_email_body_def t bindE_simps prod.case lt [THEN conjunct1] u Let_def d1_def by simp
  then obtain x where x: "(case active_refresh_session au now rr (env d) of
                 None \<Rightarrow> create_session au dr now (usr_id usr) ua d1
               | Some r \<Rightarrow> rotate_session au dr now (usr_id usr) r ua d1) = Inr x"
      "current = None \<or> current = Some (usr_id usr)"
      "case active_refresh_session au now rr (env d) of None \<Rightarrow> True | Some r \<Rightarrow> rs_user_id r = usr_id usr"
      "(case x of (tk, d) \<Rightarrow> Inr ((if usr_email_verified_at usr = None then usr\<lparr>usr_email_verified_at := Some now\<rparr> else usr, tk), d))
        = (Inr ((u, tk), e) :: error + (user \<times> session_tokens) \<times> db)"
    unfolding bindE_Inr_iff requireE_Inr_iff by blast
  then have "x = (tk, e)" "u = (if usr_email_verified_at usr = None then usr\<lparr>usr_email_verified_at := Some now\<rparr> else usr)"
    by (auto split: prod.splits)
  with x lt u uu get_user_Some [OF uu [THEN conjunct1]] show ?thesis
    by (intro that [OF _ _ _ _ _ _ _ _ _ _ d1_def]) (auto simp: validate_token_Inr)
qed

lemma active_refresh_Some:
  assumes "active_refresh_session au now raw d = Some r"
  obtains t where "raw = Some t" "r \<in> set (refresh_sessions d)" "rs_revoked_at r = None" "now < rs_expires_at r"
    "rs_token_hash r = token_hash au t" "parse_refresh_session_id raw = Inr (rs_id r)"
  using assms
  by (auto simp: active_refresh_session_def usable_def split: option.splits sum.splits if_splits dest: get_session_Some)

lemma auth_moves_inv: "auth_moves d e \<Longrightarrow> auth_inv d \<Longrightarrow> auth_inv e"
  by (simp add: auth_moves_def)

lemma verify_moves:
  assumes env: "auth_moves d (env d)"
  shows "auth_moves d (snd (verify_email au env dr now raw ua current rr d))"
proof -
  have "auth_moves d e" if b: "verify_email_body au env dr now raw ua current rr d = Inr (x, e)" for x e
  proof (rule auth_movesI)
    assume inv: "auth_inv d"
    obtain u tk where x: "x = (u, tk)" by (cases x)
    show "auth_moves d e"
      using b unfolding x
    proof (rule verify_body_Inr)
      fix t usr d1
      assume t: "t \<in> set (account_tokens (env d))" "tok_consumed_at t = None" "tok_invalidated_at t = None"
        and d1: "d1 = invalidate_active_tokens (usr_id usr) EmailVerification now (Some (tok_id t))
       (touch_user (usr_id usr) now (\<lambda>r. if usr_email_verified_at usr = None
            then r\<lparr>usr_email_verified_at := Some now\<rparr> else r)
         (modify_account_token (tok_id t) (\<lambda>x. x\<lparr>tok_consumed_at := Some now\<rparr>) (env d)))"
        and last: "(case active_refresh_session au now rr (env d) of
        None \<Rightarrow> create_session au dr now (usr_id usr) ua d1
      | Some r \<Rightarrow> rotate_session au dr now (usr_id usr) r ua d1) = Inr (tk, e)"
      have m1: "auth_moves (env d) d1"
        unfolding d1
        by (rule auth_moves_trans [OF consume_moves [OF t] auth_moves_trans [OF touch_user_moves invalidate_moves]])
      have inv1: "auth_inv d1" using env m1 inv by (blast intro: auth_moves_inv)
      have rs: "refresh_sessions d1 = refresh_sessions (env d)" by (simp add: d1)
      have "auth_moves d1 e"
      proof (cases "active_refresh_session au now rr (env d)")
        case None
        with last show ?thesis by (auto intro: create_session_moves)
      next
        case (Some r)
        then have "r \<in> set (refresh_sessions d1)" "rs_revoked_at r = None" by (auto elim: active_refresh_Some simp: rs)
        with last Some inv1 show ?thesis by (auto intro: rotate_moves)
      qed
      with env m1 show ?thesis by (blast intro: auth_moves_trans)
    qed
  qed
  then show ?thesis unfolding verify_email_def by (rule transact_moves)
qed

lemma onboarding_moves: "auth_moves d (snd (complete_onboarding now k name d))"
proof -
  have "auth_moves d e" if "complete_onboarding_body now k n d = Inr (x, e)" for n x e
    using that by (auto simp: complete_onboarding_body_def resultE_iffs touch_user_moves)
  then have "auth_moves d (snd (transact (complete_onboarding_body now k n) d))" for n by (rule transact_moves)
  then show ?thesis by (simp add: complete_onboarding_def Let_def)
qed

lemma request_reset_moves:
  assumes env: "auth_moves d (env d)"
  shows "auth_moves d (snd (snd (request_password_reset au env dr now email ua d)))"
proof -
  have "auth_moves d' e" if "reset_request_body au dr now usr ua d' = Inr (x, e)" for d' usr x e
    using that unfolding reset_request_body_def
    by (auto simp: resultE_iffs split: option.splits if_splits intro: auth_moves_trans [OF invalidate_moves create_token_moves])
  then have body: "auth_moves d' (snd (transact (reset_request_body au dr now usr ua) d'))" for d' usr
    by (rule transact_moves)
  show ?thesis
  proof (cases "normalize_email email")
    case (Inl e)
    then show ?thesis by (simp add: request_password_reset_def)
  next
    case (Inr n)
    let ?d1 = "if user_by_email d n = None then d else env d"
    have d1: "auth_moves d ?d1" using env by simp
    have last: "snd (snd (case x of (Inl e, d') \<Rightarrow> (Inl e, None, d') | (Inr None, d') \<Rightarrow> (Inr (), None, d')
        | (Inr (Some (r, raw, tid)), d') \<Rightarrow> (Inr (), f r raw tid, d'))) = snd x" for x :: "(error + _) \<times> db" and f
      by (auto split: prod.splits sum.splits option.splits)
    show ?thesis
      unfolding request_password_reset_def Inr sum.case Let_def last by (rule auth_moves_trans [OF d1 body])
  qed
qed

text \<open>What a successful \<open>reset_password\<close> did.\<close>

lemma reset_body_Inr:
  assumes "reset_password_body au env now raw h d = Inr (u, e)"
  obtains t usr where "t \<in> set (account_tokens (env d))" "tok_token_hash t = token_hash au raw"
    "tok_purpose t = PasswordReset" "tok_consumed_at t = None" "tok_invalidated_at t = None"
    "now < tok_expires_at t" "get_user (env d) (tok_user_id t) = Some usr" "usr_account_status usr = Active"
    "usr_id usr = tok_user_id t"
    "e = invalidate_active_tokens (tok_user_id t) PasswordReset now (Some (tok_id t))
       (revoke_where (\<lambda>r. rs_user_id r = tok_user_id t) now ''password_reset''
         (touch_user (tok_user_id t) now (\<lambda>r. r\<lparr>usr_password_hash := h, usr_password_changed_at := Some now\<rparr>)
           (modify_account_token (tok_id t) (\<lambda>x. x\<lparr>tok_consumed_at := Some now\<rparr>) (env d))))"
    "u = usr\<lparr>usr_password_hash := h, usr_password_changed_at := Some now\<rparr>"
proof -
  from assms obtain t d0 where t: "lock_account_token au env raw PasswordReset d = Inr (t, d0)"
    by (auto simp: reset_password_body_def resultE_iffs)
  note lt = lock_token_Inr [OF t]
  with assms t obtain usr where u: "validate_account_token now t = Inr ()" "active_user invalid_account_token (env d) (tok_user_id t) = Inr usr"
    by (auto simp: reset_password_body_def bindE_Inr_iff)
  note uu = u(2) [unfolded active_user_Inr]
  show ?thesis
    using assms unfolding reset_password_body_def t bindE_simps prod.case lt [THEN conjunct1] u Let_def
    by (intro that [of t usr]) (use lt u uu get_user_Some [OF uu [THEN conjunct1]] in \<open>auto simp: validate_token_Inr\<close>)
qed

lemma reset_moves:
  assumes env: "auth_moves d (env d)"
  shows "auth_moves d (snd (reset_password au env dr now raw p d))"
proof -
  have "auth_moves d e" if "reset_password_body au env now raw h d = Inr (u, e)" for h u e
    using that
  proof (rule reset_body_Inr)
    fix t
    assume t: "t \<in> set (account_tokens (env d))" "tok_consumed_at t = None" "tok_invalidated_at t = None"
      and e: "e = invalidate_active_tokens (tok_user_id t) PasswordReset now (Some (tok_id t))
       (revoke_where (\<lambda>r. rs_user_id r = tok_user_id t) now ''password_reset''
         (touch_user (tok_user_id t) now (\<lambda>r. r\<lparr>usr_password_hash := h, usr_password_changed_at := Some now\<rparr>)
           (modify_account_token (tok_id t) (\<lambda>x. x\<lparr>tok_consumed_at := Some now\<rparr>) (env d))))"
    show "auth_moves d e"
      unfolding e by (rule auth_moves_trans [OF env auth_moves_trans [OF consume_moves [OF t]
            auth_moves_trans [OF touch_user_moves auth_moves_trans [OF revoke_where_moves invalidate_moves]]]])
  qed
  then have "auth_moves d (snd (transact (reset_password_body au env now raw h) d))" for h by (rule transact_moves)
  then show ?thesis by (simp add: reset_password_def split: sum.splits)
qed

lemma require_active_Inr:
  "require_active_matching_session au now raw r = Inr s \<longleftrightarrow>
     r = Some s \<and> (\<exists>t. raw = Some t \<and> usable au now t s)"
  by (auto simp: require_active_matching_session_def split: option.splits)

text \<open>What a successful \<open>change_password\<close> did.\<close>

lemma change_body_Inr:
  assumes "change_password_body au dr now k cur old new raw ua d = Inr ((u, tk), e)"
  obtains usr r d1 d2 where "get_user d k = Some usr" "usr_account_status usr = Active"
    "r \<in> set (refresh_sessions d)" "rs_id r = cur" "rs_user_id r = k" "rs_revoked_at r = None"
    "au_verify au (usr_password_hash usr) old" "\<not> au_verify au (usr_password_hash usr) new"
    "d1 = revoke_where (\<lambda>s. rs_user_id s = k \<and> rs_id s \<noteq> cur) now ''password_changed''
       (touch_user k now (\<lambda>x. x\<lparr>usr_password_hash := au_hash au (dr_salt dr) new, usr_password_changed_at := Some now\<rparr>) d)"
    "rotate_session au dr now k r ua d1 = Inr (tk, d2)"
    "e = invalidate_active_tokens k PasswordReset now None d2"
proof -
  let ?f = "find (\<lambda>r. rs_id r = cur \<and> rs_user_id r = k) (refresh_sessions d)"
  from assms obtain usr where u: "active_user unauthorized d k = Inr usr"
    by (auto simp: change_password_body_def resultE_iffs)
  with assms obtain r where r: "require_active_matching_session au now raw ?f = Inr r"
    by (auto simp: change_password_body_def resultE_iffs)
  from r have rr: "?f = Some r" "rs_revoked_at r = None" by (auto simp: require_active_Inr usable_def)
  define d1 where "d1 = revoke_where (\<lambda>s. rs_user_id s = k \<and> rs_id s \<noteq> cur) now ''password_changed''
       (touch_user k now (\<lambda>x. x\<lparr>usr_password_hash := au_hash au (dr_salt dr) new, usr_password_changed_at := Some now\<rparr>) d)"
  from assms have pw: "au_verify au (usr_password_hash usr) old" "\<not> au_verify au (usr_password_hash usr) new"
    unfolding change_password_body_def u r bindE_simps bindE_Inr_iff requireE_Inr_iff by blast+
  from assms obtain x where x: "rotate_session au dr now k r ua d1 = Inr x"
      "(case x of (tk, d) \<Rightarrow> Inr ((usr\<lparr>usr_password_hash := au_hash au (dr_salt dr) new, usr_password_changed_at := Some now\<rparr>, tk),
          invalidate_active_tokens k PasswordReset now None d)) = (Inr ((u, tk), e) :: error + (user \<times> session_tokens) \<times> db)"
    unfolding change_password_body_def u r bindE_simps bindE_Inr_iff requireE_Inr_iff Let_def d1_def by blast
  then obtain d2 where "x = (tk, d2)" "e = invalidate_active_tokens k PasswordReset now None d2"
    by (auto split: prod.splits)
  with x pw u rr find_Some_in [OF rr(1)] show ?thesis
    by (intro that [OF _ _ _ _ _ _ _ _ d1_def]) (auto simp: active_user_Inr)
qed

lemma revoke_others_keeps:
  assumes "r \<in> set (refresh_sessions d)" and "\<not> p r"
  shows "r \<in> set (refresh_sessions (revoke_where p now c d))"
  using assms by (force simp: revoke_where_def in_update_where)

lemma change_moves: "auth_moves d (snd (change_password au dr now k old new raw ua d))"
proof -
  have "auth_moves d e" if b: "change_password_body au dr now k cur old new raw ua d = Inr (x, e)" for cur x e
  proof (rule auth_movesI)
    assume inv: "auth_inv d"
    obtain u tk where x: "x = (u, tk)" by (cases x)
    show "auth_moves d e"
      using b unfolding x
    proof (rule change_body_Inr)
      fix usr r d1 d2
      assume r: "r \<in> set (refresh_sessions d)" "rs_id r = cur" "rs_user_id r = k" "rs_revoked_at r = None"
        and d1: "d1 = revoke_where (\<lambda>s. rs_user_id s = k \<and> rs_id s \<noteq> cur) now ''password_changed''
       (touch_user k now (\<lambda>x. x\<lparr>usr_password_hash := au_hash au (dr_salt dr) new, usr_password_changed_at := Some now\<rparr>) d)"
        and rot: "rotate_session au dr now k r ua d1 = Inr (tk, d2)"
        and e: "e = invalidate_active_tokens k PasswordReset now None d2"
      have m1: "auth_moves d d1" unfolding d1 by (rule auth_moves_trans [OF touch_user_moves revoke_where_moves])
      have "r \<in> set (refresh_sessions d1)" unfolding d1 by (rule revoke_others_keeps) (use r in simp_all)
      with m1 inv r rot have "auth_moves d1 d2" by (blast intro: rotate_moves auth_moves_inv)
      with m1 show ?thesis unfolding e by (blast intro: auth_moves_trans invalidate_moves)
    qed
  qed
  then have "auth_moves d (snd (transact (change_password_body au dr now k cur old new raw ua) d))" for cur
    by (rule transact_moves)
  then show ?thesis by (simp add: change_password_def split: sum.splits)
qed


lemma revoke_session_moves: "auth_moves d (snd (revoke_session au now k sid raw d))"
  by (auto simp: revoke_session_def Let_def revoke_where_moves split: option.splits)

text \<open>What a successful revocation of all sessions did.\<close>

lemma revoke_all_body_Inr:
  assumes "revoke_all_body au dr now k cur raw ua d = Inr ((usr, n, tk), e)"
  obtains d1 where "get_user d k = Some usr" "usr_account_status usr = Active"
    "d1 = revoke_where (\<lambda>s. rs_user_id s = k \<and> cur \<noteq> Some (rs_id s)) now ''user_revoke_all'' d"
    "cur = None \<longrightarrow> e = d1 \<and> tk = None"
    "\<And>c. cur = Some c \<Longrightarrow> \<exists>r t. r \<in> set (refresh_sessions d) \<and> rs_id r = c \<and> rs_user_id r = k \<and> rs_revoked_at r = None
       \<and> tk = Some t \<and> rotate_session au dr now k r ua d1 = Inr (t, e)"
proof -
  define d1 where "d1 = revoke_where (\<lambda>s. rs_user_id s = k \<and> cur \<noteq> Some (rs_id s)) now ''user_revoke_all'' d"
  from assms have u: "active_user unauthorized d k = Inr usr"
    by (auto simp: revoke_all_body_def bindE_Inr_iff Let_def split: option.splits)
  show ?thesis
  proof (cases cur)
    case None
    with assms u show ?thesis
      by (intro that [OF _ _ d1_def]) (auto simp: revoke_all_body_def active_user_Inr d1_def)
  next
    case (Some c)
    let ?f = "find (\<lambda>r. rs_id r = c \<and> rs_user_id r = k) (refresh_sessions d)"
    from assms u Some obtain r where r: "require_active_matching_session au now raw ?f = Inr r"
      by (auto simp: revoke_all_body_def bindE_Inr_iff)
    from r have rr: "?f = Some r" "rs_revoked_at r = None" by (auto simp: require_active_Inr usable_def)
    from assms Some obtain x where "rotate_session au dr now k r ua d1 = Inr x" "(case x of (tk', d) \<Rightarrow> Inr ((usr, n, Some tk'), d))
        = (Inr ((usr, n, tk), e) :: error + (user \<times> nat \<times> session_tokens option) \<times> db)"
      unfolding revoke_all_body_def u bindE_simps option.case Some r Let_def bindE_Inr_iff d1_def
      by (auto split: prod.splits)
    with u rr find_Some_in [OF rr(1)] Some show ?thesis
      by (intro that [OF _ _ d1_def]) (auto simp: active_user_Inr split: prod.splits)
  qed
qed

lemma revoke_all_moves: "auth_moves d (snd (revoke_all_managed_sessions au dr now k pr raw ua d))"
proof -
  have "auth_moves d e" if b: "revoke_all_body au dr now k cur raw ua d = Inr (x, e)" for cur x e
  proof (rule auth_movesI)
    assume inv: "auth_inv d"
    obtain usr n tk where x: "x = (usr, n, tk)" by (cases x)
    show "auth_moves d e"
      using b unfolding x
    proof (rule revoke_all_body_Inr)
      fix d1
      assume d1: "d1 = revoke_where (\<lambda>s. rs_user_id s = k \<and> cur \<noteq> Some (rs_id s)) now ''user_revoke_all'' d"
        and n: "cur = None \<longrightarrow> e = d1 \<and> tk = None"
        and s: "\<And>c. cur = Some c \<Longrightarrow> \<exists>r t. r \<in> set (refresh_sessions d) \<and> rs_id r = c \<and> rs_user_id r = k \<and> rs_revoked_at r = None
       \<and> tk = Some t \<and> rotate_session au dr now k r ua d1 = Inr (t, e)"
      have m1: "auth_moves d d1" by (simp add: d1 revoke_where_moves)
      show ?thesis
      proof (cases cur)
        case None
        with m1 n show ?thesis by simp
      next
        case (Some c)
        from s [OF Some] obtain r t where r: "r \<in> set (refresh_sessions d)" "rs_id r = c" "rs_revoked_at r = None"
          and rot: "rotate_session au dr now k r ua d1 = Inr (t, e)" by blast
        have "r \<in> set (refresh_sessions d1)" unfolding d1 by (rule revoke_others_keeps) (use r Some in simp_all)
        with rot r m1 inv have "auth_moves d1 e" by (blast intro: rotate_moves auth_moves_inv)
        with m1 show ?thesis by (rule auth_moves_trans)
      qed
    qed
  qed
  then have t: "auth_moves d (snd (transact (revoke_all_body au dr now k cur raw ua) d))" for cur by (rule transact_moves)
  have last: "snd (case x of (Inl e, d') \<Rightarrow> (Inl e, d') | (Inr (usr, n, tk), d') \<Rightarrow> (Inr (f n tk), d')) = snd x"
    for x :: "(error + _) \<times> db" and f :: "_ \<Rightarrow> _ \<Rightarrow> session_mutation"
    by (auto split: prod.splits sum.splits)
  show ?thesis
    unfolding revoke_all_managed_sessions_def
    by (cases "if pr then bindE (parse_refresh_session_id raw) (\<lambda>c. Inr (Some c)) else Inr None") (simp_all add: last t)
qed

section \<open>Every interleaving\<close>

inductive auth_evolves :: "auth_service \<Rightarrow> db \<Rightarrow> db \<Rightarrow> bool" for au :: auth_service where
  same: "auth_evolves au d d"
| register: "auth_evolves au d0 d \<Longrightarrow> auth_evolves au d0 (snd (register au dr now email p ua d))"
| login: "auth_evolves au d0 d \<Longrightarrow> auth_evolves au d (env d) \<Longrightarrow>
    auth_evolves au d0 (snd (login au env dr now email p ua d))"
| refresh: "auth_evolves au d0 d \<Longrightarrow> auth_evolves au d (env d) \<Longrightarrow>
    auth_evolves au d0 (snd (refresh au env dr now raw ua d))"
| logout: "auth_evolves au d0 d \<Longrightarrow> auth_evolves au d0 (logout au now raw d)"
| resend: "auth_evolves au d0 d \<Longrightarrow> auth_evolves au d0 (snd (resend_verification au dr now k ua d))"
| verify: "auth_evolves au d0 d \<Longrightarrow> auth_evolves au d (env d) \<Longrightarrow>
    auth_evolves au d0 (snd (verify_email au env dr now t ua current raw d))"
| onboarding: "auth_evolves au d0 d \<Longrightarrow> auth_evolves au d0 (snd (complete_onboarding now k name d))"
| request_reset: "auth_evolves au d0 d \<Longrightarrow> auth_evolves au d (env d) \<Longrightarrow>
    auth_evolves au d0 (snd (snd (request_password_reset au env dr now email ua d)))"
| reset: "auth_evolves au d0 d \<Longrightarrow> auth_evolves au d (env d) \<Longrightarrow>
    auth_evolves au d0 (snd (reset_password au env dr now t p d))"
| change: "auth_evolves au d0 d \<Longrightarrow> auth_evolves au d0 (snd (change_password au dr now k old new raw ua d))"
| revoke_one: "auth_evolves au d0 d \<Longrightarrow> auth_evolves au d0 (snd (revoke_session au now k sid raw d))"
| revoke_managed: "auth_evolves au d0 d \<Longrightarrow>
    auth_evolves au d0 (snd (revoke_all_managed_sessions au dr now k pr raw ua d))"
| revoke_all: "auth_evolves au d0 d \<Longrightarrow> auth_evolves au d0 (revoke_all_sessions now k c d)"
| elsewhere: "auth_evolves au d0 d \<Longrightarrow> refresh_sessions d' = refresh_sessions d \<Longrightarrow>
    account_tokens d' = account_tokens d \<Longrightarrow> users d' = users d \<Longrightarrow> auth_evolves au d0 d'"

lemmas op_moves = register_moves logout_moves resend_moves onboarding_moves change_moves
  revoke_session_moves revoke_all_moves

lemma auth_evolves_moves: "auth_evolves au d0 d \<Longrightarrow> auth_moves d0 d"
proof (induction rule: auth_evolves.induct)
  case (login d0 d env dr now email p ua)
  from auth_moves_trans [OF login(3) login_moves [where env = env, OF login(4)]] show ?case .
next
  case (refresh d0 d env dr now raw ua)
  from auth_moves_trans [OF refresh(3) refresh_moves [where env = env, OF refresh(4)]] show ?case .
next
  case (verify d0 d env dr now t ua current raw)
  from auth_moves_trans [OF verify(3) verify_moves [where env = env, OF verify(4)]] show ?case .
next
  case (request_reset d0 d env dr now email ua)
  from auth_moves_trans [OF request_reset(3) request_reset_moves [where env = env, OF request_reset(4)]] show ?case .
next
  case (reset d0 d env dr now t p)
  from auth_moves_trans [OF reset(3) reset_moves [where env = env, OF reset(4)]] show ?case .
next
  case (revoke_all d0 d now k c)
  from auth_moves_trans [OF revoke_all(2) revoke_where_moves] show ?case by (simp add: revoke_all_sessions_def)
next
  case (elsewhere d0 d d')
  from auth_moves_trans [OF elsewhere(5) auth_moves_frame [OF elsewhere(2,3)]] show ?case .
qed (simp, (rule auth_moves_trans, assumption, rule op_moves)+)

lemma auth_inv_empty: "auth_inv empty_db"
  by (simp add: auth_inv_def empty_db_def)

lemma auth_reachable: "auth_evolves au empty_db d \<Longrightarrow> auth_inv d"
  using auth_evolves_moves auth_inv_empty auth_moves_inv by blast

lemma auth_evolves_later: "auth_evolves au empty_db d \<Longrightarrow> auth_evolves au d e \<Longrightarrow> auth_later d e \<and> auth_inv e"
  using auth_evolves_moves [of au d e] auth_reachable [of au d] by (simp add: auth_moves_def)

end
