(* ===== verification/Account_Properties.thy ===== *)
theory Account_Properties
  imports Account_Laws
begin

text \<open>
  The correctness properties of the accounts: rotation and reuse of refresh tokens,
  password recovery and change, verification links, login, the rate limiter; under
  every interleaving \<open>auth_evolves\<close> allows, applied to a concrete history.
\<close>

section \<open>A concrete history\<close>

text \<open>
  An account registers, its session is refreshed, the verification link is sent again; a
  reset link is requested and used, or the password is changed.
\<close>

lemma no_dot: "CHR ''.'' \<notin> set (uuid_text k)"
  using set_uuid_text [of k] by (auto simp: hex_digits_def)

lemma takeWhile_sep: "c \<notin> set xs \<Longrightarrow> takeWhile (\<lambda>x. x \<noteq> c) (xs @ c # ys) = xs"
  by (induction xs) auto

lemma length_uuid_text [simp]: "length (uuid_text k) = 36"
  by (simp add: uuid_text_def Let_def uuid_hex_def)

lemma parse_token_of:
  "32 \<le> length secret \<Longrightarrow> length secret < 220 \<Longrightarrow> parse_refresh_session_id (Some (refresh_token_of k secret)) = Inr k"
  by (simp add: parse_refresh_session_id_def refresh_token_of_def Let_def takeWhile_sep [OF no_dot])

lemma token_of_inj: "refresh_token_of k s = refresh_token_of k' s' \<longleftrightarrow> k = k' \<and> s = s'"
proof
  assume eq: "refresh_token_of k s = refresh_token_of k' s'"
  then have "takeWhile (\<lambda>x. x \<noteq> CHR ''.'') (uuid_text k @ CHR ''.'' # s)
      = takeWhile (\<lambda>x. x \<noteq> CHR ''.'') (uuid_text k' @ CHR ''.'' # s')" by (simp add: refresh_token_of_def)
  then have "uuid_text k = uuid_text k'" unfolding takeWhile_sep [OF no_dot] .
  with eq show "k = k' \<and> s = s'" by (simp add: refresh_token_of_def uuid_text_inj)
qed simp

definition demo_auth :: auth_service where
  "demo_auth = \<lparr>au_sha256 = id, au_hash = (\<lambda>salt p. salt @ p), au_verify = (\<lambda>h p. drop 1 h = p),
     au_needs_rehash = (\<lambda>h. False), au_jwt_encode = cl_sub, au_jwt_decode = (\<lambda>t s. None), au_send = None,
     au_issuer = ''i'', au_audience = ''a'', au_access_minutes = 15, au_refresh_days = 30,
     au_verification_hours = 24, au_reset_minutes = 30, au_min_password = 3, au_max_password = 9\<rparr>"

definition demo_draws :: "uuid \<Rightarrow> char \<Rightarrow> draws" where
  "demo_draws k c = \<lparr>dr_uuid = (\<lambda>i. k + of_nat i), dr_secret = (\<lambda>i. if i = 0 then replicate 40 c else [c]),
     dr_salt = ''s''\<rparr>"

definition demo_token :: "uuid \<Rightarrow> char \<Rightarrow> string" where
  "demo_token k c = refresh_token_of k (replicate 40 c)"

definition demo_account :: user where
  "demo_account = \<lparr>usr_id = 104, usr_email = ''a@b.c'', usr_password_hash = ''sfirst'', usr_account_status = Active,
     usr_created_at = 5, usr_updated_at = 5, usr_last_login_at = None, usr_email_verified_at = None,
     usr_password_changed_at = None, usr_display_name = None\<rparr>"

definition demo_session :: refresh_session where
  "demo_session = new_session demo_auth 100 (demo_token 100 CHR ''p'') 5 104 102 None"

definition demo_link :: "uuid \<Rightarrow> token_purpose \<Rightarrow> string \<Rightarrow> time \<Rightarrow> time \<Rightarrow> account_token" where
  "demo_link k p raw now l = \<lparr>tok_id = k, tok_user_id = 104, tok_purpose = p, tok_token_hash = raw, tok_created_at = now,
     tok_expires_at = now + l, tok_consumed_at = None, tok_invalidated_at = None, tok_request_user_agent = None\<rparr>"

definition demo_first :: db where
  "demo_first = empty_db\<lparr>users := [demo_account], refresh_sessions := [demo_session],
     account_tokens := [demo_link 103 EmailVerification ''p'' 5 86400000000]\<rparr>"

lemma demo_token_simps [simp]:
  "demo_token k c = demo_token k' c' \<longleftrightarrow> k = k' \<and> c = c'"
  "parse_refresh_session_id (Some (demo_token k c)) = Inr k"
  "refresh_token_of k (replicate 40 c) = demo_token k c"
  using parse_token_of [of "replicate 40 c" k] by (auto simp: demo_token_def token_of_inj simp del: replicate.simps)

lemma demo_emails: "normalize_email ''a@b.c'' = Inr ''a@b.c''"
  by code_simp

lemmas demo_auth_defs = demo_auth_def demo_draws_def demo_account_def demo_session_def demo_link_def demo_first_def
  token_hash_def create_session_def create_session_tokens_def create_account_token_def user_agent_column_def or_none_def
  insert_defs new_session_def has_user_def get_user_def empty_db_def active_token_of_def seconds_def

lemma demo_register:
  "\<exists>u tk. register demo_auth (demo_draws 100 CHR ''p'') 5 ''a@b.c'' ''first'' None empty_db = (Inr (u, tk, None), demo_first)"
  by (simp del: replicate.simps add: register_def demo_emails validate_new_password_def register_body_def transact_def demo_auth_defs Let_def)

definition demo_second :: db where
  "demo_second = demo_first\<lparr>refresh_sessions := [rotated 6 110 demo_session,
     new_session demo_auth 110 (demo_token 110 CHR ''q'') 6 104 102 None]\<rparr>"

definition demo_tokens :: "uuid \<Rightarrow> char \<Rightarrow> session_tokens" where
  "demo_tokens k c = \<lparr>tk_access = uuid_text 104, tk_refresh = demo_token k c, tk_expires_in = 900\<rparr>"

definition demo_refresh :: "time \<Rightarrow> db \<Rightarrow> (error + user \<times> session_tokens) \<times> db" where
  "demo_refresh t = refresh demo_auth id (demo_draws 110 CHR ''q'') t (Some (demo_token 100 CHR ''p'')) None"

lemma demo_refresh_eq: "demo_refresh 6 demo_first = (Inr (demo_account, demo_tokens 110 CHR ''q''), demo_second)"
  by (simp del: replicate.simps add: demo_refresh_def refresh_def refresh_locked_def get_session_def active_user_def transact_def
      rotate_session_def modify_refresh_session_def revoke_def rotated_def update_where_def demo_second_def demo_tokens_def demo_auth_defs Let_def)

definition demo_resent :: db where
  "demo_resent = demo_first\<lparr>account_tokens := [(demo_link 103 EmailVerification ''p'' 5 86400000000)\<lparr>tok_invalidated_at := Some 7\<rparr>,
     demo_link 123 EmailVerification ''r'' 7 86400000000]\<rparr>"

lemma demo_resend_eq:
  "resend_verification demo_auth (demo_draws 120 CHR ''r'') 7 104 None demo_first = (Inr (True, None), demo_resent)"
  by (simp del: replicate.simps add: resend_verification_def resend_body_def active_user_def transact_def
      invalidate_active_tokens_def update_where_def demo_resent_def demo_auth_defs Let_def)

definition demo_requested :: db where
  "demo_requested = demo_first\<lparr>account_tokens := [demo_link 103 EmailVerification ''p'' 5 86400000000,
     demo_link 133 PasswordReset ''u'' 8 1800000000]\<rparr>"

lemma demo_request_eq:
  "request_password_reset demo_auth id (demo_draws 130 CHR ''u'') 8 ''a@b.c'' None demo_first = (Inr (), None, demo_requested)"
  by (simp del: replicate.simps add: request_password_reset_def reset_request_body_def demo_emails user_by_email_def transact_def
      invalidate_active_tokens_def update_where_def demo_requested_def demo_auth_defs Let_def)

definition demo_changed :: "string \<Rightarrow> time \<Rightarrow> user" where
  "demo_changed h t = demo_account\<lparr>usr_password_hash := h, usr_password_changed_at := Some t\<rparr>"

definition demo_recovered :: db where
  "demo_recovered = demo_requested\<lparr>users := [(demo_changed ''ssecond'' 9)\<lparr>usr_updated_at := 9\<rparr>],
     refresh_sessions := [revoke 9 ''password_reset'' demo_session],
     account_tokens := [demo_link 103 EmailVerification ''p'' 5 86400000000,
       (demo_link 133 PasswordReset ''u'' 8 1800000000)\<lparr>tok_consumed_at := Some 9\<rparr>]\<rparr>"

lemma demo_reset_eq:
  "reset_password demo_auth id (demo_draws 140 CHR ''w'') 9 ''u'' ''second'' demo_requested
    = (Inr (demo_changed ''ssecond'' 9), demo_recovered)"
  by (simp del: replicate.simps add: reset_password_def reset_password_body_def lock_account_token_def token_of_def
      validate_account_token_def validate_new_password_def active_user_def transact_def touch_user_def modify_user_def
      modify_account_token_def revoke_where_def revoke_def demo_changed_def demo_recovered_def demo_requested_def
      invalidate_active_tokens_def update_where_def demo_auth_defs Let_def)

definition demo_rekeyed :: db where
  "demo_rekeyed = demo_first\<lparr>users := [(demo_changed ''sthird'' 7)\<lparr>usr_updated_at := 7\<rparr>],
     refresh_sessions := [rotated 7 150 demo_session, new_session demo_auth 150 (demo_token 150 CHR ''v'') 7 104 102 None]\<rparr>"

lemma demo_change_eq:
  "change_password demo_auth (demo_draws 150 CHR ''v'') 7 104 ''first'' ''third'' (Some (demo_token 100 CHR ''p'')) None demo_first
    = (Inr (demo_changed ''sthird'' 7, demo_tokens 150 CHR ''v''), demo_rekeyed)"
  by (simp del: replicate.simps add: change_password_def change_password_body_def require_active_matching_session_def usable_def
      validate_new_password_def active_user_def transact_def touch_user_def modify_user_def rotate_session_def modify_refresh_session_def
      revoke_where_def revoke_def rotated_def demo_changed_def demo_rekeyed_def demo_tokens_def
      invalidate_active_tokens_def update_where_def demo_auth_defs Let_def)

lemma demo_auth_reachable:
  "auth_evolves demo_auth empty_db demo_first" "auth_evolves demo_auth empty_db demo_second"
  "auth_evolves demo_auth empty_db demo_requested" "auth_evolves demo_auth demo_first demo_rekeyed"
proof -
  from demo_register obtain u tk where
    "register demo_auth (demo_draws 100 CHR ''p'') 5 ''a@b.c'' ''first'' None empty_db = (Inr (u, tk, None), demo_first)" by blast
  then show f: "auth_evolves demo_auth empty_db demo_first"
    using auth_evolves.register [OF auth_evolves.same, of demo_auth empty_db "demo_draws 100 CHR ''p''" 5 "''a@b.c''" "''first''" None]
    by simp
  show "auth_evolves demo_auth empty_db demo_second"
    using auth_evolves.refresh [where env = id and dr = "demo_draws 110 CHR ''q''" and now = 6
        and raw = "Some (demo_token 100 CHR ''p'')" and ua = None, OF f]
    by (simp add: auth_evolves.same demo_refresh_eq [unfolded demo_refresh_def])
  show "auth_evolves demo_auth empty_db demo_requested"
    using auth_evolves.request_reset [where env = id and dr = "demo_draws 130 CHR ''u''" and now = 8 and email = "''a@b.c''"
        and ua = None, OF f]
    by (simp add: auth_evolves.same demo_request_eq)
  show "auth_evolves demo_auth demo_first demo_rekeyed"
    using auth_evolves.change [OF auth_evolves.same, of demo_auth demo_first "demo_draws 150 CHR ''v''" 7 104 "''first''" "''third''"
        "Some (demo_token 100 CHR ''p'')" None]
    by (simp add: demo_change_eq)
qed

section \<open>Properties\<close>

text \<open>The session a refresh token names, and the refusal of a session that is revoked.\<close>

lemma refresh_Inr:
  assumes "refresh au env dr now raw ua d = (Inr (usr, tk), d')"
  obtains t r where "raw = Some t" "parse_refresh_session_id raw = Inr (rs_id r)" "r \<in> set (refresh_sessions (env d))"
    "rs_token_hash r = token_hash au t" "rs_revoked_at r = None" "now < rs_expires_at r"
    "get_user (env d) (usr_id usr) = Some usr" "usr_account_status usr = Active"
    "rotate_session au dr now (usr_id usr) r ua (env d) = Inr (tk, d')"
proof -
  from assms obtain t k c where *: "raw = Some t" "parse_refresh_session_id raw = Inr k" "get_session d k = Some c"
    "refresh_locked au dr now t k (rs_user_id c) ua (env d) = (Inr (usr, tk), d')"
    by (auto simp: refresh_def split: option.splits sum.splits if_splits)
  from *(4) obtain r where r: "get_session (env d) k = Some r" "rs_token_hash r = token_hash au t"
    "rs_revoked_at r = None" "now < rs_expires_at r"
    by (auto simp: refresh_locked_def split: option.splits if_splits)
  with *(4) obtain u where u: "active_user unauthorized (env d) (rs_user_id c) = Inr u"
    by (auto simp: refresh_locked_def split: sum.splits)
  with *(4) r have "u = usr \<and> rotate_session au dr now (usr_id usr) r ua (env d) = Inr (tk, d')"
    by (auto simp: refresh_locked_def transact_def resultE_iffs split: sum.splits prod.splits)
  moreover have "usr_id usr = rs_user_id c" "get_user (env d) (rs_user_id c) = Some usr" "usr_account_status usr = Active"
    using u calculation get_user_Some by (auto simp: active_user_Inr)
  ultimately show ?thesis using * r get_session_Some [OF r(1)] by (intro that [of t r]) simp_all
qed

text \<open>
  A refresh that succeeds does so on a session that is neither revoked nor expired
  and whose secret was presented, for an active account; it revokes that session as
  rotated, names its successor in it, and adds exactly one session of the same family
  and user, unrevoked, which holds the hash of the new token.
\<close>

theorem refresh_rotates:
  assumes d: "auth_evolves au empty_db d" and env: "auth_evolves au d (env d)"
    and call: "refresh au env dr now raw ua d = (Inr (usr, tk), d')"
  shows "\<exists>r s. r \<in> set (refresh_sessions (env d)) \<and> rs_revoked_at r = None \<and> now < rs_expires_at r
    \<and> raw \<noteq> None \<and> rs_token_hash r = token_hash au (the raw)
    \<and> rotated now (rs_id s) r \<in> set (refresh_sessions d')
    \<and> s \<in> set (refresh_sessions d') \<and> s \<notin> set (refresh_sessions (env d)) \<and> rs_revoked_at s = None
    \<and> rs_token_hash s = token_hash au (tk_refresh tk) \<and> rs_token_family_id s = rs_token_family_id r
    \<and> rs_user_id s = usr_id usr \<and> usr_account_status usr = Active"
  using call
proof (rule refresh_Inr)
  fix t r
  assume r: "raw = Some t" "r \<in> set (refresh_sessions (env d))" "rs_token_hash r = token_hash au t"
      "rs_revoked_at r = None" "now < rs_expires_at r" "usr_account_status usr = Active"
    and rot: "rotate_session au dr now (usr_id usr) r ua (env d) = Inr (tk, d')"
  from rot r(2) obtain i where i: "i \<notin> rs_id ` set (refresh_sessions (env d))"
    "refresh_sessions d' = update_where (\<lambda>s. rs_id s = rs_id r) (rotated now i) (refresh_sessions (env d))
       @ [new_session au i (tk_refresh tk) now (usr_id usr) (rs_token_family_id r) ua]"
    by (elim rotate_Inr) auto
  let ?s = "new_session au i (tk_refresh tk) now (usr_id usr) (rs_token_family_id r) ua"
  have "rotated now i r \<in> set (refresh_sessions d')" using r(2) unfolding i(2) by (auto simp: in_update_where)
  moreover have "?s \<notin> set (refresh_sessions (env d))"
    using i(1) by force
  ultimately have "?s \<in> set (refresh_sessions d') \<and> ?s \<notin> set (refresh_sessions (env d)) \<and> rotated now (rs_id ?s) r \<in> set (refresh_sessions d')"
    unfolding i(2) by simp
  then show ?thesis
    using r by (intro exI [of _ r] exI [of _ ?s]) simp
qed

theorem refresh_rotates_witness:
  "\<exists>r s. r \<in> set (refresh_sessions demo_first) \<and> rotated 6 (rs_id s) r \<in> set (refresh_sessions demo_second)
    \<and> s \<in> set (refresh_sessions demo_second) \<and> rs_token_hash s = demo_token 110 CHR ''q''"
  using refresh_rotates [where env = id, OF demo_auth_reachable(1) _ demo_refresh_eq [unfolded demo_refresh_def]]
  by (auto simp: auth_evolves.same demo_tokens_def token_hash_def demo_auth_def)

lemma session_unique:
  "auth_inv d \<Longrightarrow> r \<in> set (refresh_sessions d) \<Longrightarrow> get_session d (rs_id r) = Some r"
  unfolding get_session_def by (rule refresh_tab.lookup_unique) (simp_all add: auth_inv_def)

text \<open>Presenting the token of a rotated session revokes its family.\<close>

lemma refresh_reused:
  assumes inv: "auth_inv d" "auth_inv (env d)" and raw: "raw = Some t" "parse_refresh_session_id raw = Inr (rs_id r)"
    and r: "r \<in> set (refresh_sessions d)" "r \<in> set (refresh_sessions (env d))" "rs_token_hash r = token_hash au t"
      "rs_revoked_at r \<noteq> None" "rs_revocation_reason r = Some ''rotated''"
  shows "refresh au env dr now raw ua d
    = (Inl invalid_session, revoke_family (rs_token_family_id r) ''refresh_token_reuse'' now (env d))"
proof -
  have "refresh_locked au dr now t (rs_id r) k ua (env d)
    = (Inl invalid_session, revoke_family (rs_token_family_id r) ''refresh_token_reuse'' now (env d))" for k
    unfolding refresh_locked_def session_unique [OF inv(2) r(2)] by (simp add: r)
  then show ?thesis
    unfolding refresh_def raw(2) unfolding raw(1)
    by (simp add: session_unique [OF inv(1) r(1)] r)
qed

lemma revoke_where_rows:
  "refresh_sessions (revoke_where p now c d)
    = update_where (\<lambda>r. p r \<and> rs_revoked_at r = None) (revoke now c) (refresh_sessions d)"
  by (simp add: revoke_where_def)

lemma revoked_where:
  assumes "s \<in> set (refresh_sessions (revoke_where p now c d))" and "p s" and "\<And>r. p (revoke now c r) = p r"
  shows "rs_revoked_at s \<noteq> None"
proof -
  from assms(1) obtain r where s: "s = (if p r \<and> rs_revoked_at r = None then revoke now c r else r)"
    unfolding revoke_where_rows in_update_where by blast
  show ?thesis
  proof (cases "p r \<and> rs_revoked_at r = None")
    case True
    with s have "s = revoke now c r" by (simp only: if_True simp_thms)
    then show ?thesis by simp
  next
    case False
    with s have "s = r" by (simp only: if_False)
    with False assms(2) show ?thesis by simp
  qed
qed

text \<open>
  C12: A token that was refreshed once is refused ever after, and presenting it again
  revokes every session of its family, the one that succeeded it included, whatever
  happened in between.
\<close>

theorem refresh_reuse_revokes_family:
  assumes d: "auth_evolves au empty_db d" and env: "auth_evolves au d (env d)"
    and call: "refresh au env dr now raw ua d = (Inr (usr, tk), d1)"
    and later: "auth_evolves au d1 d2" "auth_evolves au d2 (env' d2)"
  shows "\<exists>fam. (\<exists>s\<in>set (refresh_sessions d1). rs_token_hash s = token_hash au (tk_refresh tk) \<and> rs_token_family_id s = fam)
    \<and> fst (refresh au env' dr' now' raw ua' d2) = Inl invalid_session
    \<and> (\<forall>s\<in>set (refresh_sessions (snd (refresh au env' dr' now' raw ua' d2))).
         rs_token_family_id s = fam \<longrightarrow> rs_revoked_at s \<noteq> None)"
  using call
proof (rule refresh_Inr)
  fix t r
  assume r: "raw = Some t" "parse_refresh_session_id raw = Inr (rs_id r)" "r \<in> set (refresh_sessions (env d))"
      "rs_token_hash r = token_hash au t" "rs_revoked_at r = None"
    and rot: "rotate_session au dr now (usr_id usr) r ua (env d) = Inr (tk, d1)"
  have inv: "auth_inv (env d)" using auth_evolves_later [OF d env] by simp
  have m: "auth_moves (env d) d1" by (rule rotate_moves [OF rot r(3,5) inv])
  then have inv1: "auth_inv d1" using inv by (simp add: auth_moves_def)
  from rot r(3) obtain i where i:
    "refresh_sessions d1 = update_where (\<lambda>s. rs_id s = rs_id r) (rotated now i) (refresh_sessions (env d))
       @ [new_session au i (tk_refresh tk) now (usr_id usr) (rs_token_family_id r) ua]"
    by (elim rotate_Inr) auto
  let ?r = "rotated now i r"
  have r1: "?r \<in> set (refresh_sessions d1)" using r(3) unfolding i by (auto simp: in_update_where)
  have "auth_moves d1 d2" "auth_moves d2 (env' d2)" using later by (blast intro: auth_evolves_moves)+
  then have inv2: "auth_inv d2" "auth_inv (env' d2)" and l: "auth_later d1 d2" "auth_later d1 (env' d2)"
    using inv1 by (auto simp: auth_moves_def intro: auth_later_trans)
  have mem: "?r \<in> set (refresh_sessions d2)" "?r \<in> set (refresh_sessions (env' d2))"
    using l r1 unfolding auth_later_def session_later_def by (metis option.distinct(1) rotated_simps(6))+
  have *: "refresh au env' dr' now' raw ua' d2
    = (Inl invalid_session, revoke_family (rs_token_family_id r) ''refresh_token_reuse'' now' (env' d2))"
    by (rule refresh_reused [where env = env' and r = ?r, OF inv2 r(1), simplified rotated_simps])
      (use r mem in simp_all)
  let ?s = "new_session au i (tk_refresh tk) now (usr_id usr) (rs_token_family_id r) ua"
  have "?s \<in> set (refresh_sessions d1) \<and> rs_token_hash ?s = token_hash au (tk_refresh tk)
    \<and> rs_token_family_id ?s = rs_token_family_id r" by (simp add: i)
  moreover have "rs_revoked_at s \<noteq> None"
    if "s \<in> set (refresh_sessions (revoke_family (rs_token_family_id r) ''refresh_token_reuse'' now' (env' d2)))"
      "rs_token_family_id s = rs_token_family_id r" for s
    by (rule revoked_where [OF that [unfolded revoke_family_def]]) simp
  ultimately show ?thesis unfolding * fst_conv snd_conv by blast
qed

theorem refresh_reuse_revokes_family_witness:
  "fst (demo_refresh 7 demo_second) = Inl invalid_session
    \<and> list_all (\<lambda>s. rs_revoked_at s \<noteq> None) (refresh_sessions (snd (demo_refresh 7 demo_second)))"
proof -
  have fams: "rs_token_family_id s = 102" if "s \<in> set (refresh_sessions (snd (demo_refresh 7 demo_second)))" for s
  proof -
    have "map rs_token_family_id (refresh_sessions (snd (demo_refresh 7 demo_second))) = [102, 102]"
      by (simp del: replicate.simps add: demo_refresh_def refresh_def refresh_locked_def get_session_def demo_second_def rotated_def
          revoke_family_def revoke_where_def revoke_def update_where_def demo_auth_defs Let_def)
    with that show ?thesis by (metis (no_types, lifting) list.set_intros(1) list.set_map imageI set_ConsD empty_iff list.set(1))
  qed
  have "102 \<in> rs_token_family_id ` set (refresh_sessions demo_second)"
    "\<And>s. s \<in> set (refresh_sessions demo_second) \<Longrightarrow> rs_token_family_id s = 102"
    by (auto simp: demo_second_def demo_auth_defs rotated_def revoke_def)
  with refresh_reuse_revokes_family [where env = id and env' = id and dr' = "demo_draws 110 CHR ''q''" and now' = 7 and ua' = None,
      OF demo_auth_reachable(1) _ demo_refresh_eq [unfolded demo_refresh_def] auth_evolves.same] fams
  show ?thesis unfolding demo_refresh_def list_all_iff by (auto simp: auth_evolves.same)
qed

text \<open>A revoked session refreshes nothing any more.\<close>

text \<open>
  Once a session is revoked (by logout, rotation, a password change or the user) no
  token that names it refreshes anything in any later state.
\<close>

theorem revoked_session_dead:
  assumes d: "auth_evolves au empty_db d" and r: "r \<in> set (refresh_sessions d)" "rs_revoked_at r \<noteq> None"
    and later: "auth_evolves au d e" "auth_evolves au e (env e)"
    and raw: "parse_refresh_session_id raw = Inr (rs_id r)"
  shows "fst (refresh au env dr now raw ua e) = Inl invalid_session"
proof -
  have l: "auth_later d e \<and> auth_inv e" "auth_later e (env e) \<and> auth_inv (env e)"
    using auth_evolves_later [OF d later(1)] auth_evolves_moves [OF later(2)] by (simp_all add: auth_moves_def)
  have m: "r \<in> set (refresh_sessions e)" using l(1) r unfolding auth_later_def session_later_def by metis
  then have m': "r \<in> set (refresh_sessions (env e))" using l(2) r unfolding auth_later_def session_later_def by metis
  have "fst (refresh_locked au dr now t (rs_id r) k ua (env e)) = Inl invalid_session" for t k
    using l(2) r(2) by (simp add: refresh_locked_def session_unique [OF _ m'])
  then show ?thesis
    using l(1) raw by (cases raw) (simp_all add: refresh_def session_unique [OF _ m])
qed


theorem revoked_session_dead_witness:
  "fst (refresh demo_auth id (demo_draws 160 CHR ''z'') 8 (Some (demo_token 100 CHR ''p'')) None demo_second) = Inl invalid_session"
  by (rule revoked_session_dead [OF demo_auth_reachable(2), of "rotated 6 110 demo_session"])
    (simp_all add: demo_second_def auth_evolves.same demo_session_def)

section \<open>Account links\<close>

lemma token_unique:
  assumes "auth_inv d" and "t \<in> set (account_tokens d)" and "token_of au d raw p = Some s"
    and "tok_token_hash t = token_hash au raw"
  shows "s = t"
proof -
  from assms(3) have "s \<in> set (account_tokens d)" "tok_token_hash s = token_hash au raw"
    by (auto simp: token_of_def dest: find_Some_in)
  moreover have "inj_on tok_token_hash (set (account_tokens d))" using assms(1) by (simp add: auth_inv_def distinct_map)
  ultimately show ?thesis using assms(2,4) by (simp add: inj_on_def)
qed

text \<open>A token that was consumed or invalidated is refused, for either purpose.\<close>

lemma spent_token_refused:
  assumes inv: "auth_inv (env d)" and t: "t \<in> set (account_tokens (env d))" "tok_token_hash t = token_hash au raw"
    "tok_consumed_at t \<noteq> None \<or> tok_invalidated_at t \<noteq> None"
  shows "reset_password_body au env now raw h d \<noteq> Inr x" "verify_email_body au env dr now raw ua cur rr d \<noteq> Inr y"
proof -
  have no: "\<not> (lock_account_token au env raw p d = Inr (s, e) \<and> validate_account_token now s = Inr ())" for p s e
    using token_unique [OF inv t(1) _ t(2)] t(3)
    by (auto simp: lock_account_token_def validate_token_Inr split: option.splits if_splits)
  show "reset_password_body au env now raw h d \<noteq> Inr x"
    using no unfolding reset_password_body_def by (auto simp: bindE_Inr_iff)
  show "verify_email_body au env dr now raw ua cur rr d \<noteq> Inr y"
    using no unfolding verify_email_body_def by (auto simp: bindE_Inr_iff)
qed

lemma spent_token_stays:
  assumes "t \<in> set (account_tokens d)" and "tok_consumed_at t \<noteq> None \<or> tok_invalidated_at t \<noteq> None"
    and "auth_later d e"
  shows "t \<in> set (account_tokens e)"
  using assms unfolding auth_later_def token_later_def by metis

lemma modify_token_in:
  "t \<in> set (account_tokens d) \<Longrightarrow> f t \<in> set (account_tokens (modify_account_token (tok_id t) f d))"
  by (force simp: modify_account_token_def in_update_where)

lemma invalidate_rows:
  "account_tokens (invalidate_active_tokens k p now x d) = update_where
     (\<lambda>t. active_token_of k p t \<and> x \<noteq> Some (tok_id t)) (\<lambda>t. t\<lparr>tok_invalidated_at := Some now\<rparr>) (account_tokens d)"
  by (simp add: invalidate_active_tokens_def)

lemma invalidate_keeps:
  assumes "t \<in> set (account_tokens d)" and "\<not> active_token_of k p t"
  shows "t \<in> set (account_tokens (invalidate_active_tokens k p now x d))"
  using assms unfolding invalidate_rows in_update_where by (intro bexI [of _ t]) simp_all

lemma touch_user_get:
  assumes "get_user d k = Some usr" and "\<And>r. usr_id (f r) = usr_id r"
  shows "get_user (touch_user k now f d) k = Some (if f usr = usr then usr else (f usr)\<lparr>usr_updated_at := now\<rparr>)"
  using user_tab.lookup_modify_same [of k d usr "\<lambda>r. if f r = r then r else (f r)\<lparr>usr_updated_at := now\<rparr>"] assms
  by (simp add: touch_user_def get_user_def)

lemma touch_user_column:
  assumes "get_user d k = Some usr" and "\<And>r. usr_id (f r) = usr_id r" and "\<And>r v. col (r\<lparr>usr_updated_at := v\<rparr>) = col r"
  shows "map_option col (get_user (touch_user k now f d) k) = Some (col (f usr))"
proof (cases "f usr = usr")
  case True
  with touch_user_get [OF assms(1,2), of now] show ?thesis by simp
next
  case False
  with touch_user_get [OF assms(1,2), of now] show ?thesis by (simp add: assms(3))
qed

lemma users_get_cong: "users d = users e \<Longrightarrow> get_user d = get_user e"
  by (simp add: fun_eq_iff get_user_def)

text \<open>
  C14: A password reset that succeeds leaves no unrevoked session of the account, stores
  the hash of the new password, and its link works no second time in any later state.
\<close>

theorem reset_password_revokes:
  assumes d: "auth_evolves au empty_db d" and env: "auth_evolves au d (env d)"
    and call: "reset_password au env dr now raw p d = (Inr usr, d1)"
    and later: "auth_evolves au d1 d2" "auth_evolves au d2 (env' d2)"
  shows "(\<forall>s\<in>set (refresh_sessions d1). rs_user_id s = usr_id usr \<longrightarrow> rs_revoked_at s \<noteq> None)
    \<and> map_option usr_password_hash (get_user d1 (usr_id usr)) = Some (au_hash au (dr_salt dr) p)
    \<and> (\<forall>u. fst (reset_password au env' dr' now' raw p' d2) \<noteq> Inr u)"
proof -
  from call have b: "reset_password_body au env now raw (au_hash au (dr_salt dr) p) d = Inr (usr, d1)"
    by (auto simp: reset_password_def transact_def split: sum.splits)
  have inv: "auth_inv (env d)" using auth_evolves_later [OF d env] by simp
  have m: "auth_moves d d1"
    using reset_moves [where env = env and au = au and dr = dr and now = now and raw = raw and p = p, OF auth_evolves_moves [OF env]] call by simp
  have inv2: "auth_inv (env' d2)" and l: "auth_later d1 (env' d2)"
    using m auth_reachable [OF d] auth_moves_trans [OF auth_evolves_moves [OF later(1)] auth_evolves_moves [OF later(2)]]
    by (simp_all add: auth_moves_def)
  from b show ?thesis
  proof (rule reset_body_Inr)
    let ?h = "\<lambda>r::user. r\<lparr>usr_password_hash := au_hash au (dr_salt dr) p, usr_password_changed_at := Some now\<rparr>"
    fix t :: account_token and x :: user
    let ?t = "t\<lparr>tok_consumed_at := Some now\<rparr>"
    let ?d0 = "touch_user (tok_user_id t) now ?h
           (modify_account_token (tok_id t) (\<lambda>x. x\<lparr>tok_consumed_at := Some now\<rparr>) (env d))"
    let ?d0' = "revoke_where (\<lambda>r. rs_user_id r = tok_user_id t) now ''password_reset'' ?d0"
    assume t: "t \<in> set (account_tokens (env d))" "tok_token_hash t = token_hash au raw"
      and x: "get_user (env d) (tok_user_id t) = Some x" "usr_id x = tok_user_id t" "usr = ?h x"
      and d1: "d1 = invalidate_active_tokens (tok_user_id t) PasswordReset now (Some (tok_id t)) ?d0'"
    have k: "usr_id usr = tok_user_id t" using x by simp
    have "rs_revoked_at s \<noteq> None" if "s \<in> set (refresh_sessions d1)" "rs_user_id s = usr_id usr" for s
      using that unfolding d1 invalidate_frame k by (rule revoked_where) simp
    moreover have "map_option usr_password_hash (get_user ?d0 (tok_user_id t)) = Some (usr_password_hash (?h x))"
      by (rule touch_user_column) (use x users_get_cong [OF consume_frame(2)] in simp_all)
    then have "map_option usr_password_hash (get_user d1 (usr_id usr)) = Some (au_hash au (dr_salt dr) p)"
      unfolding k users_get_cong [of d1 ?d0, unfolded d1 invalidate_frame revoke_where_frame, OF refl, folded d1] by simp
    moreover have "?t \<in> set (account_tokens d1)"
      unfolding d1 by (rule invalidate_keeps)
        (use modify_token_in [OF t(1), of "\<lambda>x. x\<lparr>tok_consumed_at := Some now\<rparr>"] in \<open>simp_all add: active_token_of_def\<close>)
    then have "?t \<in> set (account_tokens (env' d2))" by (rule spent_token_stays [OF _ _ l]) simp
    then have "reset_password_body au env' now' raw h d2 \<noteq> Inr y" for h y
      by (rule spent_token_refused [where env = env', OF inv2]) (use t in simp_all)
    then have "\<forall>u. fst (reset_password au env' dr' now' raw p' d2) \<noteq> Inr u"
      by (auto simp: reset_password_def transact_def split: sum.splits)
    ultimately show ?thesis by blast
  qed
qed

theorem reset_password_revokes_witness:
  "list_all (\<lambda>s. rs_revoked_at s \<noteq> None) (refresh_sessions demo_recovered)
    \<and> fst (reset_password demo_auth id (demo_draws 160 CHR ''z'') 10 ''u'' ''again'' demo_recovered) \<noteq> Inr demo_account"
proof -
  have s: "rs_user_id s = 104" if "s \<in> set (refresh_sessions demo_recovered)" for s
    using that by (simp add: demo_recovered_def demo_session_def)
  from reset_password_revokes [where env = id and env' = id and dr' = "demo_draws 160 CHR ''z''" and now' = 10 and p' = "''again''",
      OF demo_auth_reachable(3) _ demo_reset_eq auth_evolves.same] s
  show ?thesis unfolding list_all_iff by (simp add: auth_evolves.same demo_changed_def demo_account_def)
qed

text \<open>The session a change of the password leaves.\<close>

lemma change_password_Inr:
  assumes "change_password au dr now k old new raw ua d = (Inr (usr, tk), d')"
  obtains cur where "change_password_body au dr now k cur old new raw ua d = Inr ((usr, tk), d')"
  using assms by (auto simp: change_password_def transact_def split: sum.splits)

lemma none_active:
  assumes "account_tokens e = account_tokens (invalidate_active_tokens k p now None d)" and "t \<in> set (account_tokens e)"
  shows "\<not> active_token_of k p t"
proof -
  obtain s where s: "t = (if active_token_of k p s \<and> None \<noteq> Some (tok_id s)
      then s\<lparr>tok_invalidated_at := Some now\<rparr> else s)"
    using assms(2) unfolding assms(1) invalidate_rows in_update_where by blast
  show ?thesis
  proof (cases "active_token_of k p s")
    case True
    with s have "t = s\<lparr>tok_invalidated_at := Some now\<rparr>" by simp
    then show ?thesis by (simp add: active_token_of_def)
  next
    case False
    with s have "t = s" by simp
    with False show ?thesis by simp
  qed
qed

text \<open>
  A password change that succeeds was given the current password and a different new
  one; it stores the hash of the new password, leaves exactly one unrevoked session of
  the account, the one of the token it returns, and no active reset link.
\<close>

theorem change_password_leaves_one:
  assumes d: "auth_evolves au empty_db d"
    and call: "change_password au dr now k old new raw ua d = (Inr (usr, tk), d')"
  shows "(\<exists>x. get_user d k = Some x \<and> usr_account_status x = Active \<and> au_verify au (usr_password_hash x) old
        \<and> \<not> au_verify au (usr_password_hash x) new)
    \<and> map_option usr_password_hash (get_user d' k) = Some (au_hash au (dr_salt dr) new)
    \<and> map rs_token_hash (filter (\<lambda>s. rs_user_id s = k \<and> rs_revoked_at s = None) (refresh_sessions d'))
        = [token_hash au (tk_refresh tk)]
    \<and> filter (active_token_of k PasswordReset) (account_tokens d') = []"
proof -
  from call obtain cur where "change_password_body au dr now k cur old new raw ua d = Inr ((usr, tk), d')"
    by (rule change_password_Inr)
  then show ?thesis
  proof (rule change_body_Inr)
    let ?h = "\<lambda>x::user. x\<lparr>usr_password_hash := au_hash au (dr_salt dr) new, usr_password_changed_at := Some now\<rparr>"
    let ?d0 = "touch_user k now ?h d"
    fix x r d1 d2
    assume x: "get_user d k = Some x" "usr_account_status x = Active" "au_verify au (usr_password_hash x) old"
        "\<not> au_verify au (usr_password_hash x) new"
      and r: "r \<in> set (refresh_sessions d)" "rs_id r = cur" "rs_user_id r = k" "rs_revoked_at r = None"
      and d1: "d1 = revoke_where (\<lambda>s. rs_user_id s = k \<and> rs_id s \<noteq> cur) now ''password_changed'' ?d0"
      and rot: "rotate_session au dr now k r ua d1 = Inr (tk, d2)"
      and d': "d' = invalidate_active_tokens k PasswordReset now None d2"
    have r1: "rs_id r \<in> rs_id ` set (refresh_sessions d1)"
      using revoke_others_keeps [of r ?d0] r unfolding d1 by force
    from rotate_Inr [OF rot r1] obtain i where i:
      "refresh_sessions d2 = update_where (\<lambda>s. rs_id s = rs_id r) (rotated now i) (refresh_sessions d1)
         @ [new_session au i (tk_refresh tk) now k (rs_token_family_id r) ua]" "users d2 = users d1" by metis
    have dead: "filter (\<lambda>s. rs_user_id s = k \<and> rs_revoked_at s = None)
        (update_where (\<lambda>s. rs_id s = rs_id r) (rotated now i) (refresh_sessions d1)) = []"
      unfolding filter_empty_conv
    proof
      fix s assume "s \<in> set (update_where (\<lambda>s. rs_id s = rs_id r) (rotated now i) (refresh_sessions d1))"
      then obtain q where q: "q \<in> set (refresh_sessions d1)" "s = (if rs_id q = rs_id r then rotated now i q else q)"
        unfolding in_update_where by blast
      have "rs_revoked_at q \<noteq> None" if "rs_user_id q = k \<and> rs_id q \<noteq> cur"
        by (rule revoked_where [OF q(1) [unfolded d1] that]) simp
      with q(2) r(2) show "\<not> (rs_user_id s = k \<and> rs_revoked_at s = None)" by (cases "rs_id q = rs_id r") auto
    qed
    have "map_option usr_password_hash (get_user ?d0 k) = Some (usr_password_hash (?h x))"
      by (rule touch_user_column) (use x in simp_all)
    then have "map_option usr_password_hash (get_user d' k) = Some (au_hash au (dr_salt dr) new)"
      using users_get_cong [of d' ?d0] i(2) by (simp add: d' d1)
    moreover have "filter (active_token_of k PasswordReset) (account_tokens d') = []"
      using none_active [of d' k PasswordReset now d2] by (auto simp: d' filter_empty_conv)
    moreover have "filter (\<lambda>s. rs_user_id s = k \<and> rs_revoked_at s = None) (refresh_sessions d')
        = [new_session au i (tk_refresh tk) now k (rs_token_family_id r) ua]"
      unfolding d' invalidate_frame i(1) filter_append dead by simp
    ultimately show ?thesis using x by simp
  qed
qed

theorem change_password_leaves_one_witness:
  "map rs_token_hash (filter (\<lambda>s. rs_user_id s = 104 \<and> rs_revoked_at s = None) (refresh_sessions demo_rekeyed))
    = [demo_token 150 CHR ''v'']"
  using change_password_leaves_one [OF demo_auth_reachable(1) demo_change_eq]
  by (simp add: demo_tokens_def token_hash_def demo_auth_def)

text \<open>A new link replaces the older ones.\<close>

lemma resend_Inr:
  assumes "resend_verification au dr now k ua d = (Inr (True, dl), d1)"
  obtains x where "resend_body au dr now k ua d = Inr ((x, Some (dr_secret dr 1, dr_uuid dr 3)), d1)"
proof (cases "resend_body au dr now k ua d")
  case (Inl e)
  with assms show ?thesis by (simp add: resend_verification_def transact_def)
next
  case (Inr q)
  obtain x o1 e where q: "q = ((x, o1), e)" by (cases q) auto
  with Inr assms obtain raw tid where o1: "o1 = Some (raw, tid)" "e = d1"
    by (cases o1) (auto simp: resend_verification_def transact_def Let_def split: if_splits)
  from Inr have "raw = dr_secret dr 1 \<and> tid = dr_uuid dr 3"
    unfolding q o1 by (auto simp: resend_body_def create_account_token_def Let_def resultE_iffs split: if_splits)
  with Inr q o1 show ?thesis by (intro that) simp
qed

text \<open>
  When a new verification link is issued it is the one active link of the account,
  and no older link verifies the address in any later state.
\<close>

theorem resend_replaces_link:
  assumes d: "auth_evolves au empty_db d"
    and call: "resend_verification au dr now k ua d = (Inr (True, dl), d1)"
    and old: "t \<in> set (account_tokens d)" "tok_user_id t = k" "tok_purpose t = EmailVerification"
      "tok_token_hash t = token_hash au raw"
    and later: "auth_evolves au d1 d2" "auth_evolves au d2 (env d2)"
  shows "map tok_token_hash (filter (active_token_of k EmailVerification) (account_tokens d1))
      = [token_hash au (dr_secret dr 1)]
    \<and> (\<forall>x. fst (verify_email au env dr' now' raw ua' cur rr d2) \<noteq> Inr x)"
proof -
  let ?d0 = "invalidate_active_tokens k EmailVerification now None d"
  from call obtain x where "resend_body au dr now k ua d = Inr ((x, Some (dr_secret dr 1, dr_uuid dr 3)), d1)"
    by (rule resend_Inr)
  then have new: "insert_account_token \<lparr>tok_id = dr_uuid dr 3, tok_user_id = k, tok_purpose = EmailVerification,
         tok_token_hash = token_hash au (dr_secret dr 1),
         tok_created_at = now, tok_expires_at = now + seconds (au_verification_hours au * 3600), tok_consumed_at = None,
         tok_invalidated_at = None, tok_request_user_agent = user_agent_column ua\<rparr> ?d0 = Inr d1"
    by (auto simp: resend_body_def create_account_token_def Let_def resultE_iffs split: if_splits)
  have m: "auth_moves d d1" using resend_moves [of d au dr now k ua] call by simp
  have inv2: "auth_inv (env d2)" and l: "auth_later d1 (env d2)"
    using m auth_reachable [OF d] auth_moves_trans [OF auth_evolves_moves [OF later(1)] auth_evolves_moves [OF later(2)]]
    by (simp_all add: auth_moves_def)
  have none: "\<not> active_token_of k EmailVerification s" if "s \<in> set (account_tokens ?d0)" for s
    using none_active [OF refl that] .
  note d1 = insert_account_token_Inr [OF new]
  have "filter (active_token_of k EmailVerification) (account_tokens ?d0) = []"
    using none by (simp add: filter_empty_conv)
  then have first: "map tok_token_hash (filter (active_token_of k EmailVerification) (account_tokens d1))
      = [token_hash au (dr_secret dr 1)]"
    by (simp add: d1 active_token_of_def)
  obtain s where s: "s \<in> set (account_tokens ?d0)" "token_later t s"
    using invalidate_moves [of d k EmailVerification now None] auth_reachable [OF d] old(1)
    by (auto simp: auth_moves_def auth_later_def)
  then have spent: "tok_consumed_at s \<noteq> None \<or> tok_invalidated_at s \<noteq> None"
    using none [OF s(1)] old by (auto simp: active_token_of_def token_later_def)
  have "s \<in> set (account_tokens (env d2))"
    by (rule spent_token_stays [OF _ spent l]) (use s(1) in \<open>simp add: d1\<close>)
  then have "verify_email_body au env dr' now' raw ua' cur rr d2 \<noteq> Inr y" for y
    by (rule spent_token_refused(2) [where env = env, OF inv2]) (use s(2) old(4) spent in \<open>auto simp: token_later_def\<close>)
  then have "\<forall>x. fst (verify_email au env dr' now' raw ua' cur rr d2) \<noteq> Inr x"
    by (auto simp: verify_email_def transact_def split: sum.splits)
  with first show ?thesis by blast
qed

theorem resend_replaces_link_witness:
  "map tok_token_hash (filter (active_token_of 104 EmailVerification) (account_tokens demo_resent)) = [''r'']
    \<and> fst (verify_email demo_auth id (demo_draws 160 CHR ''z'') 8 ''p'' None None None demo_resent) \<noteq> Inr (demo_account, demo_tokens 160 CHR ''z'')"
  using resend_replaces_link [where env = id and raw = "''p''" and dr' = "demo_draws 160 CHR ''z''" and now' = 8 and ua' = None and cur = None
      and rr = None and t = "demo_link 103 EmailVerification ''p'' 5 86400000000", OF demo_auth_reachable(1) demo_resend_eq _ _ _ _ auth_evolves.same]
  by (simp add: auth_evolves.same demo_first_def demo_link_def token_hash_def demo_auth_def demo_draws_def)

section \<open>Login\<close>

lemma touch_user_ids:
  "(\<And>r. usr_id (f r) = usr_id r) \<Longrightarrow> map usr_id (users (touch_user k now f d)) = map usr_id (users d)"
  unfolding touch_user_def by (rule user_tab.keys_modify) simp

text \<open>
  A login for an account that is active when it is first read succeeds exactly if
  the password matches the hash read then, before the wait for the lock: what another
  transaction has made of the row in the meantime (a new password, a disabled account)
  is not looked at, because the second read returns the row already loaded.
\<close>

theorem login_checks_loaded_row:
  assumes email: "normalize_email email = Inr n" "length p \<le> au_max_password au"
    and loaded: "user_by_email d n = Some loaded" "usr_account_status loaded = Active"
    and found: "user_by_email (env d) n = Some found" "usr_id found = usr_id loaded"
    and fresh: "dr_uuid dr 0 \<notin> rs_id ` set (refresh_sessions (env d))"
      "token_hash au (refresh_token_of (dr_uuid dr 0) (dr_secret dr 0)) \<notin> rs_token_hash ` set (refresh_sessions (env d))"
  shows "(\<exists>x. fst (login au env dr now email p ua d) = Inr x) = au_verify au (usr_password_hash loaded) p"
proof -
  have "has_user (touch_user (usr_id loaded) now f (env d)) (usr_id loaded)" if "\<And>r. usr_id (f r) = usr_id r" for f
  proof -
    have "found \<in> set (users (env d))" using found(1) by (auto simp: user_by_email_def dest: find_Some_in)
    then have "usr_id loaded \<in> usr_id ` set (users (env d))" using found(2) by (metis imageI)
    also have "\<dots> = usr_id ` set (users (touch_user (usr_id loaded) now f (env d)))"
      using touch_user_ids [OF that, of "usr_id loaded" now "env d"] by (metis set_map)
    finally show ?thesis unfolding has_user_def get_user_def find_None_all by auto
  qed
  moreover have "rs_id s \<noteq> dr_uuid dr 0" "rs_token_hash s \<noteq> token_hash au (refresh_token_of (dr_uuid dr 0) (dr_secret dr 0))"
    if "s \<in> set (refresh_sessions (env d))" for s using fresh that by (metis imageI)+
  ultimately have s: "\<exists>tk e. create_session au dr now (usr_id loaded) ua (touch_user (usr_id loaded) now f (env d)) = Inr (tk, e)"
    if "\<And>r. usr_id (f r) = usr_id r" for f
    using that by (auto simp: create_session_def create_session_tokens_def Let_def insert_refresh_session_def)
  have "(\<exists>x. login_body au dr now loaded p ua (env d) = Inr x) = au_verify au (usr_password_hash loaded) p"
    using s loaded(2) by (auto simp: login_body_def Let_def resultE_iffs)
  then show ?thesis
    using assms(1-6) by (auto simp: login_def transact_def split: sum.splits)
qed

theorem login_checks_loaded_row_witness:
  "\<exists>x. fst (login demo_auth (\<lambda>_. demo_rekeyed) (demo_draws 160 CHR ''z'') 8 ''a@b.c'' ''first'' None demo_first) = Inr x"
proof -
  have "user_by_email demo_first ''a@b.c'' = Some demo_account"
    "user_by_email demo_rekeyed ''a@b.c'' = Some ((demo_changed ''sthird'' 7)\<lparr>usr_updated_at := 7\<rparr>)"
    by (simp_all add: user_by_email_def demo_first_def demo_rekeyed_def demo_account_def demo_changed_def)
  moreover have "rs_id ` set (refresh_sessions demo_rekeyed) = {100, 150}"
    "rs_token_hash ` set (refresh_sessions demo_rekeyed) = {demo_token 100 CHR ''p'', demo_token 150 CHR ''v''}"
    by (simp_all add: demo_rekeyed_def demo_session_def token_hash_def demo_auth_def)
  ultimately show ?thesis
    using login_checks_loaded_row [where env = "\<lambda>_. demo_rekeyed" and au = demo_auth and dr = "demo_draws 160 CHR ''z''" and now = 8
        and ua = None and p = "''first''" and d = demo_first, OF demo_emails]
    by (simp del: replicate.simps add: demo_auth_def demo_draws_def token_hash_def demo_account_def demo_changed_def)
qed

section \<open>The rate limiter\<close>

text \<open>The attempts a sequence of calls is granted, with the limit and the window of each key.\<close>

fun granted :: "(string \<Rightarrow> nat) \<Rightarrow> (string \<Rightarrow> int) \<Rightarrow> (time \<times> string) list \<Rightarrow> attempts \<Rightarrow> (time \<times> string) list" where
  "granted lmt win [] st = []"
| "granted lmt win ((t, k) # cs) st =
     (case rate_check t k (lmt k) (win k) st of
        (Inl _, st') \<Rightarrow> granted lmt win cs st'
      | (Inr _, st') \<Rightarrow> (t, k) # granted lmt win cs st')"

definition window_of :: "time \<Rightarrow> int \<Rightarrow> time list \<Rightarrow> time list" where
  "window_of u w ts = filter (\<lambda>t. u - seconds w < t \<and> t \<le> u) ts"

definition times_of :: "string \<Rightarrow> (time \<times> string) list \<Rightarrow> time list" where
  "times_of k cs = map fst (filter (\<lambda>(t, k'). k' = k) cs)"

lemma window_of_append: "window_of u w (xs @ ys) = window_of u w xs @ window_of u w ys"
  by (simp add: window_of_def)

lemma window_of_old: "(\<And>x. x \<in> set xs \<Longrightarrow> x \<le> u - seconds w) \<Longrightarrow> window_of u w xs = []"
  by (fastforce simp: window_of_def filter_empty_conv not_less)

lemma granted_window:
  assumes "sorted (map fst cs)" and "\<And>t. t \<in> fst ` set cs \<Longrightarrow> now \<le> t"
    and "\<And>x. x \<in> set older \<Longrightarrow> x \<le> now - seconds (win k)"
    and "\<And>u. length (window_of u (win k) (older @ st k)) \<le> lmt k"
  shows "length (window_of u (win k) (older @ st k @ times_of k (granted lmt win cs st))) \<le> lmt k"
  using assms
proof (induction cs arbitrary: older st now)
  case Nil
  then show ?case by (simp add: times_of_def)
next
  case (Cons c cs)
  obtain t q where c: "c = (t, q)" by (cases c)
  have later: "sorted (map fst cs)" "\<And>x. x \<in> fst ` set cs \<Longrightarrow> t \<le> x" "now \<le> t"
    using Cons.prems(1,2) by (auto simp: c)
  show ?case
  proof (cases "q = k")
    case False
    then have same: "snd (rate_check t q (lmt q) (win q) st) k = st k" by (simp add: rate_check_def Let_def)
    have "length (window_of u (win k) (older @ snd (rate_check t q (lmt q) (win q) st) k
        @ times_of k (granted lmt win cs (snd (rate_check t q (lmt q) (win q) st))))) \<le> lmt k"
      by (rule Cons.IH [OF later(1,2)]) (use Cons.prems(3,4) later(3) same in force)+
    with False same show ?thesis by (auto simp: c times_of_def split: prod.splits sum.splits)
  next
    case True
    define gone recent where "gone = takeWhile (\<lambda>x. x \<le> t - seconds (win k)) (st k)"
      and "recent = dropWhile (\<lambda>x. x \<le> t - seconds (win k)) (st k)"
    have st: "st k = gone @ recent" by (simp add: gone_def recent_def)
    have check: "rate_check t k (lmt k) (win k) st = (if lmt k \<le> length recent
        then (Inl (AuthenticationError ''rate_limited'' 429), st(k := recent)) else (Inr (), st(k := recent @ [t])))"
      by (simp add: rate_check_def recent_def)
    have old: "x \<le> t - seconds (win k)" if "x \<in> set (older @ gone)" for x
      using that Cons.prems(3) [of x] later(3) by (auto simp: gone_def dest: set_takeWhileD)
    show ?thesis
    proof (cases "lmt k \<le> length recent")
      case full: True
      have "length (window_of u (win k) ((older @ gone) @ (st(k := recent)) k
          @ times_of k (granted lmt win cs (st(k := recent))))) \<le> lmt k"
        by (rule Cons.IH [OF later(1,2)]) (use old Cons.prems(4) st in simp_all)
      with full True show ?thesis by (simp add: c check) (simp add: st)
    next
      case room: False
      have "length (window_of v (win k) ((older @ gone) @ recent @ [t])) \<le> lmt k" for v
      proof (cases "v < t")
        case True
        then have "window_of v (win k) [t] = []" by (simp add: window_of_def)
        with Cons.prems(4) [of v] st show ?thesis by (simp add: window_of_append)
      next
        case False
        have "window_of v (win k) (older @ gone) = []" by (rule window_of_old) (use old False in force)
        moreover have "length (window_of v (win k) (recent @ [t])) \<le> length (recent @ [t])"
          unfolding window_of_def by (rule length_filter_le)
        ultimately show ?thesis using room by (simp only: window_of_append) simp
      qed
      then have "length (window_of u (win k) ((older @ gone) @ (st(k := recent @ [t])) k
          @ times_of k (granted lmt win cs (st(k := recent @ [t]))))) \<le> lmt k"
        by (intro Cons.IH [OF later(1,2)]) (use old in simp_all)
      with room True show ?thesis by (simp add: c check times_of_def) (simp add: st)
    qed
  qed
qed

text \<open>
  C13: Over any sequence of calls at non-decreasing times, no window of the configured
  length contains more than the configured number of granted attempts of a key, whatever
  other keys do.
\<close>

theorem rate_limit_window:
  assumes "sorted (map fst cs)"
  shows "length (window_of u (win k) (times_of k (granted lmt win cs (rate_reset st)))) \<le> lmt k"
proof (cases cs)
  case Nil
  then show ?thesis by (simp add: times_of_def window_of_def)
next
  case (Cons c ds)
  have "length (window_of u (win k) ([] @ rate_reset st k @ times_of k (granted lmt win cs (rate_reset st)))) \<le> lmt k"
    by (rule granted_window [OF assms, of "fst c"]) (use assms Cons in \<open>auto simp: rate_reset_def window_of_def\<close>)
  then show ?thesis by (simp add: rate_reset_def)
qed

theorem rate_limit_window_witness:
  "length (window_of 3000000 1 (times_of ''k'' (granted (\<lambda>_. 2) (\<lambda>_. 1)
     [(2100000, ''k''), (2200000, ''k''), (2300000, ''j''), (2400000, ''k''), (3200000, ''k'')] (rate_reset (\<lambda>_. []))))) \<le> 2"
  by (rule rate_limit_window [where lmt = "\<lambda>_. 2" and k = "''k''", simplified]) simp

text \<open>
  The session a refresh token was issued for is read back from the token, for every
  secret of the length the parser accepts, and different sessions or secrets have
  different tokens.
\<close>

theorem refresh_token_roundtrip:
  assumes "32 \<le> length secret" and "length secret < 220"
  shows "parse_refresh_session_id (Some (refresh_token_of k secret)) = Inr k
    \<and> (refresh_token_of k secret = refresh_token_of k' s' \<longleftrightarrow> k = k' \<and> secret = s')"
  using parse_token_of [OF assms] token_of_inj by blast

theorem refresh_token_roundtrip_witness:
  "parse_refresh_session_id (Some (refresh_token_of 7 (replicate 40 CHR ''x''))) = Inr 7"
  using refresh_token_roundtrip [of "replicate 40 CHR ''x''" 7] by simp

end
