(* ===== verification/Object_Keys.thy ===== *)
theory Object_Keys
  imports Tables Uuids
begin

text \<open>
  The keys of \<^verbatim>\<open>app/persistence/object_storage.py\<close>: what a caller may name an object, and
  the keys under which source videos and artifacts are stored. \<open>PurePosixPath\<close> is the
  list of its parts: the segments between slashes, without the empty ones and \<open>.\<close>.
\<close>

section \<open>Paths\<close>

fun split_on :: "char \<Rightarrow> string \<Rightarrow> string list" where
  "split_on c [] = [[]]"
| "split_on c (x # xs) =
     (if x = c then [] # split_on c xs
      else (case split_on c xs of [] \<Rightarrow> [[x]] | w # ws \<Rightarrow> (x # w) # ws))"

fun join_on :: "char \<Rightarrow> string list \<Rightarrow> string" where
  "join_on c [] = []"
| "join_on c [w] = w"
| "join_on c (w # ws) = w @ c # join_on c ws"

definition path_parts :: "string \<Rightarrow> string list" where
  "path_parts s = filter (\<lambda>p. p \<noteq> [] \<and> p \<noteq> ''.'') (split_on CHR ''/'' s)"

text \<open>\<open>as_posix\<close> of a relative path.\<close>

definition as_posix :: "string list \<Rightarrow> string" where
  "as_posix ps = (if ps = [] then ''.'' else join_on CHR ''/'' ps)"

section \<open>Keys\<close>

definition unsafe_key :: error where
  "unsafe_key = PersistenceConfigurationError"

definition validate_object_key :: "string \<Rightarrow> error + string" where
  "validate_object_key value =
     (let cleaned = map (\<lambda>c. if c = CHR 0x5C then CHR ''/'' else c) (strip value);
          parts = path_parts cleaned in
      if cleaned = [] \<or> starts_with ''/'' cleaned \<or> ''..'' \<in> set parts \<or> ''.'' \<in> set parts
      then Inl unsafe_key
      else if list_ex (\<lambda>p. p = [] \<or> p = ''.'' \<or> p = ''..'') parts then Inl unsafe_key
      else Inr (as_posix parts))"

text \<open>\<open>str.isalnum\<close> of a character below 256.\<close>

definition is_alnum :: "char \<Rightarrow> bool" where
  "is_alnum c = (let n = (of_char c :: nat) in
     (48 \<le> n \<and> n \<le> 57) \<or> (65 \<le> n \<and> n \<le> 90) \<or> (97 \<le> n \<and> n \<le> 122)
     \<or> n \<in> {170, 178, 179, 181, 185, 186, 188, 189, 190} \<or> (192 \<le> n \<and> n \<noteq> 215 \<and> n \<noteq> 247))"

definition safe_identifier :: "string \<Rightarrow> error + string" where
  "safe_identifier s =
     (if s = [] \<or> length s > 64 \<or> \<not> list_all (\<lambda>c. is_alnum c \<or> c = CHR ''_'' \<or> c = CHR ''-'') s
      then Inl unsafe_key else Inr s)"

definition source_object_key :: "uuid \<Rightarrow> string \<Rightarrow> string \<Rightarrow> error + string" where
  "source_object_key owner analysis_id suffix =
     bindE (safe_identifier analysis_id) (\<lambda>a.
     let safe = lower suffix in
     if \<not> starts_with ''.'' safe \<or> CHR ''/'' \<in> set safe \<or> CHR 0x5C \<in> set safe then Inl unsafe_key
     else validate_object_key
       (''users/'' @ uuid_text owner @ ''/analyses/'' @ a @ ''/source/video'' @ safe))"

text \<open>
  The version of an artifact is a directory between its parent and its name:
  \<open>logical.parent / "versions" / checksum / logical.name\<close>.
\<close>

definition versioned :: "string list \<Rightarrow> string \<Rightarrow> string list" where
  "versioned ps checksum =
     butlast ps @ [''versions'', checksum] @ (if ps = [] then [] else [last ps])"

definition artifact_object_key :: "uuid \<Rightarrow> string \<Rightarrow> string \<Rightarrow> string option \<Rightarrow> error + string" where
  "artifact_object_key owner analysis_id logical_key checksum =
     bindE (safe_identifier analysis_id) (\<lambda>a.
     bindE (validate_object_key logical_key) (\<lambda>l.
     bindE (case checksum of
              None \<Rightarrow> Inr (path_parts l)
            | Some c \<Rightarrow> bindE (requireE (hex64 c) unsafe_key) (\<lambda>_. Inr (versioned (path_parts l) c)))
       (\<lambda>ps. validate_object_key
         (''users/'' @ uuid_text owner @ ''/analyses/'' @ a @ ''/artifacts/'' @ as_posix ps))))"

section \<open>Names and suffixes\<close>

text \<open>The condition \<open>0 < i < len(name) - 1\<close> of \<open>PurePath.suffix\<close> and \<open>stem\<close>, \<open>i\<close> the last dot.\<close>

definition path_name :: "string \<Rightarrow> string" where
  "path_name s = (if s = ''.'' then [] else s)"

definition last_dot :: "string \<Rightarrow> nat option" where
  "last_dot s =
     (let after = takeWhile (\<lambda>c. c \<noteq> CHR ''.'') (rev s); i = length s - length after - 1 in
      if length after < length s \<and> 0 < i \<and> i < length s - 1 then Some i else None)"

definition path_suffix :: "string \<Rightarrow> string" where
  "path_suffix s = (case last_dot (path_name s) of None \<Rightarrow> [] | Some i \<Rightarrow> drop i (path_name s))"

definition path_stem :: "string \<Rightarrow> string" where
  "path_stem s = (case last_dot (path_name s) of None \<Rightarrow> path_name s | Some i \<Rightarrow> take i (path_name s))"

text \<open>\<open>PurePosixPath(p).name\<close> and \<open>suffix\<close>.\<close>

definition posix_name :: "string \<Rightarrow> string" where
  "posix_name p = (let ps = path_parts p in if ps = [] then [] else last ps)"

definition posix_suffix :: "string \<Rightarrow> string" where
  "posix_suffix p = path_suffix (posix_name p)"

definition posix_stem :: "string \<Rightarrow> string" where
  "posix_stem p = path_stem (posix_name p)"

section \<open>Lemmas on paths\<close>

lemma split_on_not_Nil [simp]: "split_on c s \<noteq> []"
  by (induction s) (auto split: list.splits)

lemma split_on_no_sep: "c \<notin> set s \<Longrightarrow> split_on c s = [s]"
  by (induction s) auto

lemma split_on_append: "c \<notin> set w \<Longrightarrow> split_on c (w @ c # s) = w # split_on c s"
  by (induction w) auto

lemma split_on_parts: "p \<in> set (split_on c s) \<Longrightarrow> c \<notin> set p \<and> set p \<subseteq> set s"
proof (induction s arbitrary: p)
  case (Cons x s)
  obtain w ws where w: "split_on c s = w # ws" by (cases "split_on c s") auto
  with Cons.IH have *: "c \<notin> set q \<and> set q \<subseteq> set s" if "q \<in> set (w # ws)" for q using that by simp
  from Cons.prems *[of w] *[of p] w show ?case by (auto split: if_splits)
qed simp

lemma split_join: "ps \<noteq> [] \<Longrightarrow> (\<And>p. p \<in> set ps \<Longrightarrow> c \<notin> set p) \<Longrightarrow> split_on c (join_on c ps) = ps"
  by (induction c ps rule: join_on.induct) (simp_all add: split_on_no_sep split_on_append)

definition path_ok :: "string list \<Rightarrow> bool" where
  "path_ok ps \<longleftrightarrow> list_all (\<lambda>p. p \<noteq> [] \<and> p \<noteq> ''.'' \<and> CHR ''/'' \<notin> set p) ps"

lemma path_ok_parts: "path_ok (path_parts s)"
  by (auto simp: path_ok_def path_parts_def list_all_iff dest: split_on_parts)

lemma path_ok_append [simp]: "path_ok (ps @ qs) \<longleftrightarrow> path_ok ps \<and> path_ok qs"
  by (simp add: path_ok_def)

lemma parts_posix:
  assumes "path_ok ps"
  shows "path_parts (as_posix ps) = ps"
proof (cases "ps = []")
  case True
  then show ?thesis by (simp add: as_posix_def path_parts_def)
next
  case False
  have "split_on CHR ''/'' (join_on CHR ''/'' ps) = ps"
    using assms by (intro split_join [OF False]) (auto simp: path_ok_def list_all_iff)
  with False show ?thesis
    using assms by (simp add: as_posix_def path_parts_def path_ok_def list_all_iff filter_id_conv)
qed

lemma parts_append: "CHR ''/'' \<notin> set w \<Longrightarrow> w \<noteq> [] \<Longrightarrow> w \<noteq> ''.'' \<Longrightarrow>
    path_parts (w @ CHR ''/'' # s) = w # path_parts s"
  by (simp add: path_parts_def split_on_append)

lemma strip_plain: "s \<noteq> [] \<Longrightarrow> \<not> is_space (hd s) \<Longrightarrow> \<not> is_space (last s) \<Longrightarrow> strip s = s"
proof -
  assume s: "s \<noteq> []" "\<not> is_space (hd s)" "\<not> is_space (last s)"
  then have "dropWhile is_space s = s" "dropWhile is_space (rev s) = rev s"
    by (simp_all add: dropWhile_eq_self_iff hd_rev)
  then show ?thesis by (simp add: strip_def)
qed

lemma strip_ends: "strip s \<noteq> [] \<Longrightarrow> \<not> is_space (last (strip s))"
  using hd_dropWhile [of is_space "rev (dropWhile is_space s)"]
  by (simp add: strip_def last_rev dropWhile_eq_Nil_conv)

lemma length_strip: "length (strip s) \<le> length s"
  unfolding strip_def length_rev
  by (rule order_trans [OF length_dropWhile_le]) (simp add: length_dropWhile_le)

lemma strip_full: "length s \<le> length (strip s) \<Longrightarrow> strip s = s"
proof -
  assume "length s \<le> length (strip s)"
  moreover have "length (strip s) \<le> length (dropWhile is_space s)"
    unfolding strip_def length_rev by (rule order_trans [OF length_dropWhile_le]) simp
  moreover have "length (dropWhile is_space s) \<le> length s" by (rule length_dropWhile_le)
  ultimately have l: "length (dropWhile is_space s) = length s" "length (strip s) = length s" by simp_all
  have "dropWhile is_space s = s"
    using l(1) takeWhile_dropWhile_id [of is_space s] by (metis append_eq_append_conv self_append_conv2)
  moreover from this have "dropWhile is_space (rev s) = rev s"
    using l(2) takeWhile_dropWhile_id [of is_space "rev s"]
    by (metis append_eq_append_conv self_append_conv2 strip_def length_rev)
  ultimately show ?thesis by (simp add: strip_def)
qed

lemma length_join_filter: "length (join_on c (filter P (split_on c s))) \<le> length s"
proof -
  have join: "length (join_on c ps) = sum_list (map length ps) + (length ps - 1)" for ps
    by (induction c ps rule: join_on.induct) auto
  have split: "sum_list (map length (split_on c s)) + length (split_on c s) = Suc (length s)" for s
    by (induction s) (auto split: list.splits)
  have filt: "sum_list (map length (filter P ps)) + length (filter P ps) \<le> sum_list (map length ps) + length ps" for ps :: "string list"
    by (induction ps) auto
  show ?thesis
    using filt [of "split_on c s"] unfolding split join
    by (cases "length (filter P (split_on c s))") simp_all
qed

section \<open>What a key is\<close>

lemma validate_Inr:
  assumes "validate_object_key v = Inr k"
  obtains ps where "k = as_posix ps" "path_ok ps" "''..'' \<notin> set ps" "CHR 0x5C \<notin> set k"
    "ps = path_parts (map (\<lambda>c. if c = CHR 0x5C then CHR ''/'' else c) (strip v))" "path_parts k = ps"
proof -
  let ?c = "map (\<lambda>c. if c = CHR 0x5C then CHR ''/'' else c) (strip v)"
  let ?ps = "path_parts ?c"
  from assms have k: "k = as_posix ?ps" "''..'' \<notin> set ?ps"
    by (auto simp: validate_object_key_def Let_def split: if_splits)
  have "CHR 0x5C \<notin> set (join_on CHR ''/'' ps)" if "\<And>p. p \<in> set ps \<Longrightarrow> CHR 0x5C \<notin> set p" for ps
    using that by (induction "CHR ''/''" ps rule: join_on.induct) auto
  moreover have "CHR 0x5C \<notin> set p" if "p \<in> set ?ps" for p
  proof -
    have "set p \<subseteq> set ?c" using that split_on_parts [of p "CHR ''/''" ?c] by (simp add: path_parts_def)
    then show ?thesis by auto
  qed
  ultimately have "CHR 0x5C \<notin> set k" by (simp add: k as_posix_def)
  with k path_ok_parts [of ?c] show ?thesis by (intro that [of ?ps]) (simp_all add: parts_posix)
qed

lemma validate_parts:
  "validate_object_key v = Inr k \<Longrightarrow>
     path_parts k = path_parts (map (\<lambda>c. if c = CHR 0x5C then CHR ''/'' else c) (strip v))"
  by (erule validate_Inr) simp

text \<open>A key that is its own validation has no blank at its end.\<close>

lemma normal_key_last:
  assumes "validate_object_key l = Inr l"
  shows "l \<noteq> []" "\<not> is_space (last l)" "CHR 0x5C \<notin> set l"
proof -
  from assms obtain ps where ps: "l = as_posix ps" "CHR 0x5C \<notin> set l"
    "ps = path_parts (map (\<lambda>c. if c = CHR 0x5C then CHR ''/'' else c) (strip l))" by (rule validate_Inr)
  show "CHR 0x5C \<notin> set l" by fact
  have ne: "strip l \<noteq> []" using assms by (auto simp: validate_object_key_def Let_def split: if_splits)
  have "length l \<le> length (strip l)"
  proof (cases "ps = []")
    case True
    with ps(1) ne show ?thesis by (cases "strip l") (simp_all add: as_posix_def)
  next
    case False
    then have "length l = length (join_on CHR ''/'' ps)" by (simp add: ps(1) as_posix_def)
    also have "\<dots> \<le> length (strip l)"
      using length_join_filter [of "CHR ''/''" "\<lambda>p. p \<noteq> [] \<and> p \<noteq> ''.''"
          "map (\<lambda>c. if c = CHR 0x5C then CHR ''/'' else c) (strip l)"]
      unfolding ps(3) path_parts_def by simp
    finally show ?thesis .
  qed
  then have "strip l = l" by (rule strip_full)
  with ne strip_ends [of l] show "l \<noteq> []" "\<not> is_space (last l)" by simp_all
qed

text \<open>The keys below an analysis: their first four parts name the owner and the analysis.\<close>

definition below :: "uuid \<Rightarrow> string \<Rightarrow> string \<Rightarrow> string" where
  "below owner a rest = ''users/'' @ uuid_text owner @ ''/analyses/'' @ a @ CHR ''/'' # rest"

lemma uuid_text_part: "CHR ''/'' \<notin> set (uuid_text k)" "uuid_text k \<noteq> []" "uuid_text k \<noteq> ''.''" "CHR 0x5C \<notin> set (uuid_text k)"
proof -
  have l: "length (uuid_text k) = 36" by (simp add: uuid_text_def Let_def uuid_hex_def)
  show "CHR ''/'' \<notin> set (uuid_text k)" "CHR 0x5C \<notin> set (uuid_text k)"
    using set_uuid_text [of k] by (auto simp: hex_digits_def)
  show "uuid_text k \<noteq> []" "uuid_text k \<noteq> ''.''" using l by auto
qed

lemma safe_identifier_part:
  assumes "safe_identifier a = Inr b"
  shows "b = a" "CHR ''/'' \<notin> set a" "a \<noteq> []" "a \<noteq> ''.''" "CHR 0x5C \<notin> set a"
  using assms by (auto simp: safe_identifier_def list_all_iff is_alnum_def Let_def split: if_splits)

lemma below_parts:
  assumes "safe_identifier a = Inr b"
  shows "path_parts (below owner a rest) = [''users'', uuid_text owner, ''analyses'', a] @ path_parts rest"
proof -
  have "path_parts (below owner a rest) = ''users'' # path_parts (uuid_text owner @ CHR ''/'' # ''analyses'' @ CHR ''/'' # a @ CHR ''/'' # rest)"
    using parts_append [of "''users''"] by (simp add: below_def)
  also have "\<dots> = [''users'', uuid_text owner] @ path_parts (''analyses'' @ CHR ''/'' # a @ CHR ''/'' # rest)"
    using parts_append [OF uuid_text_part(1-3)] by simp
  also have "path_parts (''analyses'' @ CHR ''/'' # a @ CHR ''/'' # rest) = [''analyses'', a] @ path_parts rest"
    using parts_append [of "''analyses''"] parts_append [OF safe_identifier_part(2-4) [OF assms]] by simp
  finally show ?thesis by simp
qed

lemma below_strip: "rest \<noteq> [] \<Longrightarrow> \<not> is_space (last rest) \<Longrightarrow> strip (below owner a rest) = below owner a rest"
  by (rule strip_plain) (simp_all add: below_def is_space_def)

lemma validate_below:
  assumes "safe_identifier a = Inr b" and "rest \<noteq> []" "\<not> is_space (last rest)" "CHR 0x5C \<notin> set rest"
    and "validate_object_key (below owner a rest) = Inr k"
  shows "path_parts k = [''users'', uuid_text owner, ''analyses'', a] @ path_parts rest"
proof -
  have "map (\<lambda>c. if c = CHR 0x5C then CHR ''/'' else c) (below owner a rest) = below owner a rest"
    using assms(4) uuid_text_part(4) safe_identifier_part(5) [OF assms(1)]
    by (intro map_idI) (auto simp: below_def)
  then show ?thesis
    using validate_Inr [OF assms(5)] below_parts [OF assms(1)] below_strip [OF assms(2,3)] by metis
qed

section \<open>Properties\<close>



lemma source_parts:
  assumes "source_object_key owner a suffix = Inr k"
  shows "\<exists>ps. path_parts k = [''users'', uuid_text owner, ''analyses'', a, ''source''] @ ps"
proof -
  from assms obtain b where b: "safe_identifier a = Inr b" by (auto simp: source_object_key_def bindE_Inr_iff)
  note ba = safe_identifier_part(1) [OF b]
  let ?full = "below owner a (''source/video'' @ lower suffix)"
  from assms have v: "validate_object_key ?full = Inr k" and s: "CHR 0x5C \<notin> set (lower suffix)"
    by (auto simp: source_object_key_def b ba below_def Let_def split: if_splits)
  define r where "r = strip ?full"
  obtain t where t: "r = below owner a (''source/video'' @ t)" "set t \<subseteq> set (lower suffix)"
  proof -
    have d: "dropWhile is_space ?full = ?full" by (simp add: below_def is_space_def)
    have tr: "rev (dropWhile is_space (rev (xs @ ''o'' @ y))) = xs @ ''o'' @ rev (dropWhile is_space (rev y))" for xs y
      by (simp add: dropWhile_append is_space_def dropWhile_eq_Nil_conv)
    have "r = below owner a (''source/vide'') @ ''o'' @ rev (dropWhile is_space (rev (lower suffix)))"
      unfolding r_def strip_def d using tr [of "below owner a ''source/vide''" "lower suffix"] by (simp add: below_def)
    moreover have "set (rev (dropWhile is_space (rev (lower suffix)))) \<subseteq> set (lower suffix)"
      by (auto dest: set_dropWhileD)
    ultimately show ?thesis
      by (intro that [of "rev (dropWhile is_space (rev (lower suffix)))"]) (simp_all add: below_def)
  qed
  have "map (\<lambda>c. if c = CHR 0x5C then CHR ''/'' else c) r = r"
    using s t uuid_text_part(4) safe_identifier_part(5) [OF b]
    by (intro map_idI) (auto simp: below_def)
  then have "path_parts k = path_parts r" using validate_parts [OF v] by (simp only: r_def)
  also have "\<dots> = [''users'', uuid_text owner, ''analyses'', a] @ path_parts (''source'' @ CHR ''/'' # ''video'' @ t)"
    unfolding t(1) below_parts [OF b] by simp
  also have "path_parts (''source'' @ CHR ''/'' # ''video'' @ t) = ''source'' # path_parts (''video'' @ t)"
    by (rule parts_append) simp_all
  finally show ?thesis unfolding append.simps by (rule exI)
qed

lemma join_Nil: "join_on c ws = [] \<longleftrightarrow> ws = [] \<or> ws = [[]]"
  by (induction c ws rule: join_on.induct) auto

lemma last_join: "ws \<noteq> [] \<Longrightarrow> last ws \<noteq> [] \<Longrightarrow> last (join_on CHR ''/'' ws) = last (last ws)"
proof (induction "CHR ''/''" ws rule: join_on.induct)
  case (3 w v vs)
  then have "join_on CHR ''/'' (v # vs) \<noteq> []" unfolding join_Nil by auto
  with 3 show ?case by simp
qed simp_all

lemma join_set: "x \<in> set (join_on CHR ''/'' ws) \<Longrightarrow> x = CHR ''/'' \<or> (\<exists>w\<in>set ws. x \<in> set w)"
  by (induction "CHR ''/''" ws rule: join_on.induct) auto

lemma in_join: "w \<in> set ws \<Longrightarrow> set w \<subseteq> set (join_on CHR ''/'' ws)"
  by (induction "CHR ''/''" ws rule: join_on.induct) auto

lemma hex64_part:
  assumes "hex64 c"
  shows "c \<noteq> []" "c \<noteq> ''.''" "CHR ''/'' \<notin> set c" "CHR 0x5C \<notin> set c" "\<not> is_space (last c)"
proof -
  from assms have c: "length c = 64" "set c \<subseteq> set hex_digits" by (auto simp: hex64_def list_all_iff)
  then show "c \<noteq> []" "c \<noteq> ''.''" by auto
  show "CHR ''/'' \<notin> set c" "CHR 0x5C \<notin> set c" using c(2) by (auto simp: hex_digits_def)
  have "c \<noteq> []" using c(1) by auto
  then have "last c \<in> set hex_digits" using c(2) last_in_set by blast
  then show "\<not> is_space (last c)" by (auto simp: hex_digits_def is_space_def)
qed

text \<open>The parts of a normal key, and its last one.\<close>

lemma normal_key_parts:
  assumes "validate_object_key l = Inr l"
  shows "l = as_posix (path_parts l)" "path_ok (path_parts l)"
    "w \<in> set (path_parts l) \<Longrightarrow> CHR 0x5C \<notin> set w"
    "path_parts l \<noteq> [] \<Longrightarrow> \<not> is_space (last (last (path_parts l))) \<and> last (path_parts l) \<noteq> []"
proof -
  from assms show l: "l = as_posix (path_parts l)" "path_ok (path_parts l)" by (auto elim: validate_Inr)
  show "CHR 0x5C \<notin> set w" if "w \<in> set (path_parts l)"
  proof -
    have "set w \<subseteq> set l" using in_join [OF that] l(1) that by (metis as_posix_def empty_iff empty_set)
    with normal_key_last(3) [OF assms] show ?thesis by blast
  qed
  show "\<not> is_space (last (last (path_parts l))) \<and> last (path_parts l) \<noteq> []" if "path_parts l \<noteq> []"
  proof -
    have ne: "last (path_parts l) \<noteq> []" using l(2) that by (auto simp: path_ok_def list_all_iff)
    have "last l = last (last (path_parts l))" using last_join [OF that ne] l(1) that by (metis as_posix_def)
    with normal_key_last(2) [OF assms] ne show ?thesis by simp
  qed
qed

lemma artifact_parts:
  assumes "artifact_object_key owner a l (Some c) = Inr k" and "validate_object_key l = Inr l"
  shows "path_parts k = [''users'', uuid_text owner, ''analyses'', a, ''artifacts''] @ versioned (path_parts l) c
    \<and> l = as_posix (path_parts l)"
proof -
  from assms obtain b where b: "safe_identifier a = Inr b" by (auto simp: artifact_object_key_def bindE_Inr_iff)
  note ba = safe_identifier_part(1) [OF b]
  note l = normal_key_parts [OF assms(2)]
  let ?ps = "versioned (path_parts l) c" let ?rest = "''artifacts/'' @ as_posix ?ps"
  from assms b ba have c: "hex64 c" and v: "validate_object_key (below owner a ?rest) = Inr k"
    by (auto simp: artifact_object_key_def bindE_Inr_iff requireE_Inr_iff below_def)
  note c = hex64_part [OF c]
  have ok: "path_ok ?ps"
    using l(2) c by (auto simp: versioned_def path_ok_def list_all_iff dest: in_set_butlastD)
  have ne: "?ps \<noteq> []" by (simp add: versioned_def)
  have "last ?ps = (if path_parts l = [] then c else last (path_parts l))" by (simp add: versioned_def)
  with l(4) c have last: "last ?ps \<noteq> [] \<and> \<not> is_space (last (last ?ps))" by (cases "path_parts l = []") simp_all
  then have "last (as_posix ?ps) = last (last ?ps)" "as_posix ?ps \<noteq> []"
    using last_join [OF ne] in_join [of "last ?ps" ?ps] last_in_set [OF ne] ne
    by (auto simp: as_posix_def)
  with last have "\<not> is_space (last ?rest)" by simp
  moreover have "CHR 0x5C \<notin> set ?rest"
  proof
    assume "CHR 0x5C \<in> set ?rest"
    then obtain w where w: "w \<in> set ?ps" "CHR 0x5C \<in> set w" using join_set ne by (auto simp: as_posix_def)
    from w(1) have "w \<in> set (path_parts l) \<or> w = ''versions'' \<or> w = c"
      by (auto simp: versioned_def dest: in_set_butlastD split: if_splits)
    with w(2) l(3) c(4) show False by auto
  qed
  ultimately have "path_parts k = [''users'', uuid_text owner, ''analyses'', a] @ path_parts ?rest"
    by (intro validate_below [OF b _ _ _ v]) simp_all
  also have "path_parts ?rest = ''artifacts'' # ?ps"
    using parts_append [of "''artifacts''" "as_posix ?ps"] parts_posix [OF ok] by simp
  finally show ?thesis using l(1) by simp
qed

lemma versioned_inj:
  assumes "versioned ps c = versioned qs e"
  shows "ps = qs \<and> c = e"
proof (cases "ps = [] \<or> qs = []")
  case True
  have "length (versioned ps c) = length ps + 2 \<or> ps = [] \<and> length (versioned ps c) = 2"
    "length (versioned qs e) = length qs + 2 \<or> qs = [] \<and> length (versioned qs e) = 2" by (auto simp: versioned_def)
  with True assms have "ps = [] \<and> qs = []" by auto
  with assms show ?thesis by (simp add: versioned_def)
next
  case False
  then obtain a x b y where ab: "ps = a @ [x]" "qs = b @ [y]" by (metis append_butlast_last_id)
  with assms have "(a @ [''versions'', c]) @ [x] = (b @ [''versions'', e]) @ [y]" by (simp add: versioned_def)
  then have "a @ [''versions'', c] = b @ [''versions'', e]" "x = y" by simp_all
  then have "(a @ [''versions'']) @ [c] = (b @ [''versions'']) @ [e]" by simp
  then have "a @ [''versions''] = b @ [''versions'']" "c = e" by blast+
  with ab \<open>x = y\<close> show ?thesis by simp
qed

text \<open>
  Two versions of artifacts with normalized logical names are stored under the same key
  only if owner, analysis, name and checksum are the same, and no source video is stored
  under the key of a version: no object of one account can overwrite another's.
\<close>

theorem object_keys_injective:
  assumes "artifact_object_key o1 a1 l1 (Some c1) = Inr k1" "validate_object_key l1 = Inr l1"
    and "artifact_object_key o2 a2 l2 (Some c2) = Inr k2" "validate_object_key l2 = Inr l2"
    and "source_object_key o3 a3 suffix = Inr k3"
  shows "(k1 = k2 \<longleftrightarrow> o1 = o2 \<and> a1 = a2 \<and> l1 = l2 \<and> c1 = c2) \<and> k1 \<noteq> k3"
proof
  note p1 = artifact_parts [OF assms(1,2)] and p2 = artifact_parts [OF assms(3,4)] and p3 = source_parts [OF assms(5)]
  show "k1 = k2 \<longleftrightarrow> o1 = o2 \<and> a1 = a2 \<and> l1 = l2 \<and> c1 = c2"
  proof
    assume "k1 = k2"
    with p1 p2 have "uuid_text o1 = uuid_text o2" "a1 = a2" "versioned (path_parts l1) c1 = versioned (path_parts l2) c2"
      by auto
    with versioned_inj [OF this(3)] p1 p2 show "o1 = o2 \<and> a1 = a2 \<and> l1 = l2 \<and> c1 = c2"
      by (metis uuid_text_inj)
  next
    assume "o1 = o2 \<and> a1 = a2 \<and> l1 = l2 \<and> c1 = c2"
    with assms(1,3) show "k1 = k2" by simp
  qed
  show "k1 \<noteq> k3" using p1 p3 by auto
qed

theorem object_keys_injective_witness:
  "\<exists>k1 k2 k3. artifact_object_key 1 ''an'' ''a/b'' (Some (replicate 64 CHR ''a'')) = Inr k1
    \<and> artifact_object_key 2 ''an'' ''a/b'' (Some (replicate 64 CHR ''a'')) = Inr k2
    \<and> source_object_key 1 ''an'' ''.MP4'' = Inr k3 \<and> k1 \<noteq> k2 \<and> k1 \<noteq> k3"
proof -
  define key where "key = (\<lambda>u tail. ''users/00000000-0000-0000-0000-00000000000'' @ u @ ''/analyses/an/'' @ tail)"
  have 1: "artifact_object_key 1 ''an'' ''a/b'' (Some (replicate 64 CHR ''a''))
      = Inr (key ''1'' (''artifacts/a/versions/'' @ replicate 64 CHR ''a'' @ ''/b''))"
    unfolding key_def by code_simp
  have 2: "artifact_object_key 2 ''an'' ''a/b'' (Some (replicate 64 CHR ''a''))
      = Inr (key ''2'' (''artifacts/a/versions/'' @ replicate 64 CHR ''a'' @ ''/b''))"
    unfolding key_def by code_simp
  have 3: "source_object_key 1 ''an'' ''.MP4'' = Inr (key ''1'' ''source/video.mp4'')"
    unfolding key_def by code_simp
  have n: "validate_object_key ''a/b'' = Inr ''a/b''" by code_simp
  from object_keys_injective [OF 1 n 2 n 3] 1 2 3 show ?thesis by auto
qed

text \<open>
  The validation is not idempotent: it strips the whole name and then drops a trailing
  slash, which can leave a blank at the end that a second validation removes. The two
  names below are validated to different keys, and stored under the same one.
\<close>

lemma validation_not_idempotent:
  "validate_object_key ''a /'' = Inr ''a ''" "validate_object_key ''a '' = Inr ''a''"
  "artifact_object_key 1 ''an'' ''a /'' None = artifact_object_key 1 ''an'' ''a'' None"
  by code_simp+

end
