(* ===== verification/Uploads.thy ===== *)
theory Uploads
  imports Schema Object_Keys
begin

text \<open>
  \<open>DirectUploadService\<close> (\<^verbatim>\<open>app/services/uploads.py\<close>): the control plane of a multipart
  upload that goes from the browser to the object store.

  The world of an operation is the pair of the database and the store. The store is the
  record \<open>object_store\<close> of the calls the service makes on \<open>MultipartObjectStorage\<close>, over a
  state \<open>'s\<close> of which nothing is known; \<open>None\<close> and \<open>False\<close> are \<open>ObjectStorageError\<close>. A
  transaction that raises rolls back the database, never the store. \<open>env i\<close> is what
  others do to the world before the \<open>i\<close>-th transaction of an operation but the first;
  \<open>now\<close> is the clock, \<open>later i\<close> its reading in the \<open>i\<close>-th transaction.

  JSON encoding and SHA-256 of a request are the settings \<open>us_fingerprint\<close>,
  \<open>us_metadata_size\<close> and \<open>us_sha256\<close>. Log events are not modelled.
\<close>

section \<open>The store\<close>

record stored_part =
  pt_number :: int
  pt_etag :: string
  pt_size :: int

record upload_object =
  uo_size :: int
  uo_content_type :: string
  uo_metadata :: "string \<rightharpoonup> string"

record 's object_store =
  os_provider :: string
  os_initiate :: "string \<Rightarrow> string \<Rightarrow> string \<Rightarrow> int \<Rightarrow> 's \<Rightarrow> string option \<times> 's"
  os_presign :: "string \<Rightarrow> string \<Rightarrow> int \<Rightarrow> int \<Rightarrow> string option"
  os_list_parts :: "string \<Rightarrow> string \<Rightarrow> 's \<Rightarrow> stored_part list option"
  os_complete :: "string \<Rightarrow> string \<Rightarrow> (int \<times> string) list \<Rightarrow> 's \<Rightarrow> bool \<times> 's"
  os_abort :: "string \<Rightarrow> string \<Rightarrow> 's \<Rightarrow> bool \<times> 's"
  os_head :: "string \<Rightarrow> 's \<Rightarrow> upload_object option"
  os_identity :: "string \<Rightarrow> 's \<Rightarrow> string option"
  os_sha256 :: "string \<Rightarrow> 's \<Rightarrow> string option"
  os_set_verified :: "string \<Rightarrow> string \<Rightarrow> 's \<Rightarrow> int option \<times> 's"
  os_delete :: "string \<Rightarrow> 's \<Rightarrow> bool \<times> 's"

record upload_payload =
  pl_filename :: string
  pl_content_type :: string
  pl_byte_size :: int
  pl_sport :: sport
  pl_reanalyze :: bool
  pl_expected_sha256 :: "string option"
  pl_metadata :: json_object
  pl_identity :: "string option"

record upload_settings =
  us_local :: bool
  us_max_upload_size :: int
  us_extensions :: "string list"
  us_part_size :: int
  us_session_ttl :: int
  us_presign_ttl :: int
  us_lease :: int
  us_max_active :: nat
  us_max_concurrency :: int
  us_max_attempts :: int
  us_inactivity :: int
  us_sha256 :: "string \<Rightarrow> string"
  us_fingerprint :: "upload_payload \<Rightarrow> string"
  us_metadata_size :: "json_object \<Rightarrow> nat"

section \<open>Requests and responses\<close>

record initiate_request =
  iq_filename :: string
  iq_content_type :: string
  iq_byte_size :: int
  iq_sport :: sport
  iq_reanalyze :: bool
  iq_expected_sha256 :: "string option"
  iq_identity :: "string option"
  iq_metadata :: json_object

record presigned_part =
  pp_number :: int
  pp_url :: string
  pp_expires_at :: time

record initiate_response =
  ir_direct :: bool
  ir_resumed :: bool
  ir_id :: "uuid option"
  ir_status :: "upload_status option"
  ir_part_size :: "int option"
  ir_part_count :: "int option"
  ir_max_concurrency :: int
  ir_max_attempts :: int
  ir_inactivity :: int
  ir_expires_at :: "time option"
  ir_parts :: "presigned_part list"

record upload_response =
  ur_id :: uuid
  ur_status :: upload_status
  ur_byte_size :: int
  ur_verified_sha256 :: "string option"
  ur_result :: "json_object option"
  ur_failure :: "string option"
  ur_expires_at :: time

record recovery_response =
  rc_cleanup_pending :: bool
  rc_id :: uuid
  rc_status :: upload_status
  rc_filename :: string
  rc_byte_size :: int
  rc_sport :: sport
  rc_identity :: "string option"
  rc_part_size :: int
  rc_part_count :: int
  rc_parts :: "stored_part list"
  rc_max_concurrency :: int
  rc_max_attempts :: int
  rc_inactivity :: int
  rc_expires_at :: time

definition multipart_open :: "upload_status \<Rightarrow> bool" where
  "multipart_open st \<longleftrightarrow> st \<in> {Initiated, Uploading}"

definition in_flight :: "upload_status \<Rightarrow> bool" where
  "in_flight st \<longleftrightarrow> st \<in> {Initiated, Uploading, Completing, Verifying, Analyzing}"

section \<open>Validation of a request\<close>

definition safe_char :: "char \<Rightarrow> bool" where
  "safe_char c = (let n = (of_char c :: nat) in
     (48 \<le> n \<and> n \<le> 57) \<or> (65 \<le> n \<and> n \<le> 90) \<or> (97 \<le> n \<and> n \<le> 122) \<or> c \<in> {CHR ''.'', CHR ''_'', CHR ''-''})"

text \<open>\<open>_SAFE_STEM.sub("_", s)\<close>; the flag says that the run before the first character is replaced.\<close>

fun safe_sub :: "bool \<Rightarrow> string \<Rightarrow> string" where
  "safe_sub b [] = []"
| "safe_sub b (c # cs) =
     (if safe_char c then c # safe_sub False cs
      else if b then safe_sub True cs else CHR ''_'' # safe_sub True cs)"

definition strip_chars :: "string \<Rightarrow> string \<Rightarrow> string" where
  "strip_chars cs s = rev (dropWhile (\<lambda>c. c \<in> set cs) (rev (dropWhile (\<lambda>c. c \<in> set cs) s)))"

definition clean_content_type :: "string \<Rightarrow> string" where
  "clean_content_type v = lower (strip (takeWhile (\<lambda>c. c \<noteq> CHR '';'') v))"

definition validate_metadata :: "upload_settings \<Rightarrow> initiate_request \<Rightarrow> error + string \<times> string" where
  "validate_metadata us rq =
     (let filename = strip (iq_filename rq); suffix = lower (path_suffix filename);
          ct = clean_content_type (iq_content_type rq) in
      if iq_byte_size rq > us_max_upload_size us then Inl JobTooLargeError
      else if CHR ''/'' \<in> set filename \<or> CHR 0x5C \<in> set filename then Inl (JobRequestError ''invalid_filename'')
      else if suffix \<notin> set (map lower (us_extensions us)) then Inl (JobRequestError ''unsupported_extension'')
      else if strip_chars ''._-'' (safe_sub False (path_stem filename)) = []
      then Inl (JobRequestError ''invalid_filename'')
      else if ct \<noteq> ''application/octet-stream'' \<and> \<not> starts_with ''video/'' ct
      then Inl (JobRequestError ''unsupported_media_type'')
      else if us_metadata_size us (iq_metadata rq) > 4096 then Inl (JobRequestError ''client_metadata_too_large'')
      else Inr (filename, suffix))"

definition validate_idempotency_key :: "string \<Rightarrow> error + string" where
  "validate_idempotency_key v =
     (let c = strip v in
      if c = [] \<or> length c > 256 then Inl (JobRequestError ''invalid_idempotency_key'') else Inr c)"

definition request_fingerprint :: "upload_settings \<Rightarrow> initiate_request \<Rightarrow> string \<Rightarrow> string" where
  "request_fingerprint us rq filename = us_fingerprint us
     \<lparr>pl_filename = filename, pl_content_type = clean_content_type (iq_content_type rq),
      pl_byte_size = iq_byte_size rq, pl_sport = iq_sport rq, pl_reanalyze = iq_reanalyze rq,
      pl_expected_sha256 = iq_expected_sha256 rq, pl_metadata = iq_metadata rq,
      pl_identity = iq_identity rq\<rparr>"

section \<open>Transactions on one session\<close>

type_synonym 's world = "db \<times> 's"

text \<open>
  Most transactions lock one session, decide on it, write it back and answer. \<open>f\<close> answers
  with the row to write; when it raises, only what it did to the store stays.
\<close>

definition on_session ::
    "(upload_session \<Rightarrow> bool) \<Rightarrow> error + 'a
     \<Rightarrow> (upload_session \<Rightarrow> 's world \<Rightarrow> (error + 'a \<times> upload_session) \<times> 's) \<Rightarrow> 's world
     \<Rightarrow> (error + 'a) \<times> 's world" where
  "on_session sel absent f w =
     (case find sel (upload_sessions (fst w)) of
        None \<Rightarrow> (absent, w)
      | Some r \<Rightarrow>
          (case f r w of
             (Inl e, s) \<Rightarrow> (Inl e, (fst w, s))
           | (Inr (x, r'), s) \<Rightarrow> (Inr x, (modify_upload (up_id r) (\<lambda>_. r') (fst w), s))))"

definition owned_by :: "uuid \<Rightarrow> uuid \<Rightarrow> upload_session \<Rightarrow> bool" where
  "owned_by owner k r \<longleftrightarrow> up_id r = k \<and> up_owner r = owner"

definition load_owned ::
    "uuid \<Rightarrow> uuid \<Rightarrow> (upload_session \<Rightarrow> 's world \<Rightarrow> (error + 'a \<times> upload_session) \<times> 's) \<Rightarrow> 's world
     \<Rightarrow> (error + 'a) \<times> 's world" where
  "load_owned owner k = on_session (owned_by owner k) (Inl JobNotFoundError)"

text \<open>\<open>row_version += 1\<close> and \<open>updated_at\<close>, with the status.\<close>

definition move_session :: "upload_status \<Rightarrow> time \<Rightarrow> upload_session \<Rightarrow> upload_session" where
  "move_session st now r = r\<lparr>up_status := st, up_row_version := up_row_version r + 1, up_updated_at := now\<rparr>"

definition fail_row :: "string \<Rightarrow> time \<Rightarrow> upload_session \<Rightarrow> upload_session" where
  "fail_row reason now r = (move_session UFailed now r)\<lparr>up_failure_reason := Some reason\<rparr>"

definition expire_record ::
    "'s object_store \<Rightarrow> time \<Rightarrow> upload_session \<Rightarrow> 's \<Rightarrow> (error + bool \<times> upload_session) \<times> 's" where
  "expire_record st now r s =
     (if (\<not> multipart_open (up_status r) \<and> up_status r \<noteq> Expired) \<or> now < up_expires_at r
      then (Inr (False, r), s)
      else let (ok, s) = (if up_aborted_at r = None
              then os_abort st (up_storage_key r) (up_provider_upload_id r) s else (True, s)) in
        if \<not> ok then (Inl JobStorageBackendError, s)
        else (Inr (True, (move_session Expired now r)\<lparr>
               up_aborted_at := (case up_aborted_at r of None \<Rightarrow> Some now | Some t \<Rightarrow> Some t),
               up_failure_reason := Some ''upload_session_expired''\<rparr>), s))"

definition status_response :: "upload_session \<Rightarrow> upload_response" where
  "status_response r =
     \<lparr>ur_id = up_id r, ur_status = up_status r, ur_byte_size = up_declared_size r,
      ur_verified_sha256 = up_verified_sha256 r,
      ur_result = (if up_status r = UCompleted then up_result_payload r else None),
      ur_failure = up_failure_reason r, ur_expires_at = up_expires_at r\<rparr>"

fun all_some :: "'a option list \<Rightarrow> 'a list option" where
  "all_some [] = Some []"
| "all_some (x # xs) = (case x of None \<Rightarrow> None | Some y \<Rightarrow> map_option (\<lambda>ys. y # ys) (all_some xs))"

definition presigned_parts ::
    "upload_settings \<Rightarrow> 's object_store \<Rightarrow> time \<Rightarrow> upload_session \<Rightarrow> int list \<Rightarrow> error + presigned_part list" where
  "presigned_parts us st now r ns =
     (let expires = min (up_expires_at r) (now + us_presign_ttl us * 1000000) in
      case all_some (map (\<lambda>n. map_option (\<lambda>url. \<lparr>pp_number = n, pp_url = url, pp_expires_at = expires\<rparr>)
             (os_presign st (up_storage_key r) (up_provider_upload_id r) n (us_presign_ttl us))) ns) of
        None \<Rightarrow> Inl JobStorageBackendError
      | Some ps \<Rightarrow> Inr ps)"

definition initiate_response_of ::
    "upload_settings \<Rightarrow> 's object_store \<Rightarrow> time \<Rightarrow> bool \<Rightarrow> upload_session \<Rightarrow> error + initiate_response" where
  "initiate_response_of us st now resumed r =
     bindE (if multipart_open (up_status r) then presigned_parts us st now r [1..up_part_count r] else Inr [])
       (\<lambda>ps. Inr \<lparr>ir_direct = True, ir_resumed = resumed, ir_id = Some (up_id r),
         ir_status = Some (up_status r), ir_part_size = Some (up_part_size r),
         ir_part_count = Some (up_part_count r), ir_max_concurrency = us_max_concurrency us,
         ir_max_attempts = us_max_attempts us, ir_inactivity = us_inactivity us,
         ir_expires_at = Some (up_expires_at r), ir_parts = ps\<rparr>)"

section \<open>Initiation\<close>

text \<open>A replay: the session the key belongs to, which may turn out to have expired.\<close>

definition initiate_replay ::
    "upload_settings \<Rightarrow> 's object_store \<Rightarrow> time \<Rightarrow> string \<Rightarrow> upload_session \<Rightarrow> 's world
     \<Rightarrow> (error + initiate_response \<times> upload_session) \<times> 's" where
  "initiate_replay us st now fingerprint r w =
     (if (case get_analysis (fst w) (up_analysis_id r) of None \<Rightarrow> False | Some a \<Rightarrow> an_lifecycle a \<noteq> Live)
      then (Inl (JobConflictError ''match_deleted''), snd w)
      else if up_request_fingerprint r \<noteq> fingerprint
      then (Inl (JobConflictError ''upload_idempotency_conflict''), snd w)
      else case expire_record st now r (snd w) of
        (Inl e, s) \<Rightarrow> (Inl e, s)
      | (Inr (_, r'), s) \<Rightarrow>
          (bindE (initiate_response_of us st now True r') (\<lambda>x. Inr (x, r')), s))"

definition reconcilable :: "uuid \<Rightarrow> time \<Rightarrow> upload_session \<Rightarrow> bool" where
  "reconcilable owner now r \<longleftrightarrow> up_owner r = owner \<and> up_status r \<in> {Initiated, Uploading, Expired}
     \<and> up_expires_at r \<le> now \<and> up_aborted_at r = None"

text \<open>The loop over the expired sessions of the owner.\<close>

fun expire_all ::
    "'s object_store \<Rightarrow> time \<Rightarrow> upload_session list \<Rightarrow> 's world \<Rightarrow> (error + unit) \<times> 's world" where
  "expire_all st now [] w = (Inr (), w)"
| "expire_all st now (r # rs) w =
     (case expire_record st now r (snd w) of
        (Inl e, s) \<Rightarrow> (Inl e, (fst w, s))
      | (Inr (_, r'), s) \<Rightarrow> expire_all st now rs (modify_upload (up_id r) (\<lambda>_. r') (fst w), s))"

definition active_uploads :: "uuid \<Rightarrow> db \<Rightarrow> nat" where
  "active_uploads owner d =
     length (filter (\<lambda>r. up_owner r = owner \<and> in_flight (up_status r)) (upload_sessions d))"

definition new_upload ::
    "upload_settings \<Rightarrow> 's object_store \<Rightarrow> uuid \<Rightarrow> time \<Rightarrow> uuid \<Rightarrow> initiate_request \<Rightarrow> string \<Rightarrow> string
     \<Rightarrow> string \<Rightarrow> string \<Rightarrow> string \<Rightarrow> string \<Rightarrow> upload_session" where
  "new_upload us st k now owner rq filename suffix key_hash fingerprint storage_key provider_id =
     \<lparr>up_id = k, up_owner = owner, up_analysis_id = uuid_hex k, up_sport = iq_sport rq, up_filename = filename,
      up_content_type = clean_content_type (iq_content_type rq), up_declared_size = iq_byte_size rq,
      up_logical_key = ''uploads/source'' @ suffix, up_storage_key = storage_key, up_provider = os_provider st,
      up_provider_upload_id = provider_id, up_status = Initiated, up_part_size = us_part_size us,
      up_part_count = - ((- iq_byte_size rq) div us_part_size us),
      up_expected_sha256 = iq_expected_sha256 rq, up_verified_sha256 = None,
      up_idempotency_key_hash = key_hash, up_request_fingerprint = fingerprint, up_reanalyze = iq_reanalyze rq,
      up_client_metadata = (iq_metadata rq)(''court4_file_identity'' \<mapsto>
        (case iq_identity rq of None \<Rightarrow> JNull | Some x \<Rightarrow> JStr x)),
      up_result_payload = None, up_failure_reason = None, up_row_version = 1, up_created_at = now,
      up_updated_at = now, up_expires_at = now + us_session_ttl us * 1000000, up_verification_started_at = None,
      up_completed_at = None, up_aborted_at = None\<rparr>"

text \<open>Admission, the upload at the provider and the new row, after the reconciliation.\<close>

definition initiate_new ::
    "upload_settings \<Rightarrow> 's object_store \<Rightarrow> uuid \<Rightarrow> time \<Rightarrow> uuid \<Rightarrow> initiate_request \<Rightarrow> string \<Rightarrow> string
     \<Rightarrow> string \<Rightarrow> string \<Rightarrow> 's world \<Rightarrow> (error + upload_session) \<times> 's world" where
  "initiate_new us st k now owner rq filename suffix key_hash fingerprint w =
     (if us_max_active us \<le> active_uploads owner (fst w)
      then (Inl (JobStorageCapacityError ''upload_capacity_busy'' 429), w)
      else case source_object_key owner (uuid_hex k) suffix of
        Inl e \<Rightarrow> (Inl e, w)
      | Inr key \<Rightarrow>
          (case os_initiate st key (clean_content_type (iq_content_type rq)) (uuid_text k) (iq_byte_size rq) (snd w) of
             (None, s) \<Rightarrow> (Inl JobStorageBackendError, (fst w, s))
           | (Some pid, s) \<Rightarrow>
               let r = new_upload us st k now owner rq filename suffix key_hash fingerprint key pid in
               (case insert_upload_session r (fst w) of
                  Inl _ \<Rightarrow> (Inl (JobConflictError ''upload_session_conflict''), (fst w, s))
                | Inr d \<Rightarrow> (Inr r, (d, s)))))"

text \<open>A transaction over the world: the database of a failed one is the one it began with.\<close>

definition transact_world :: "('s world \<Rightarrow> (error + 'a) \<times> 's world) \<Rightarrow> 's world \<Rightarrow> (error + 'a) \<times> 's world" where
  "transact_world body w =
     (case body w of (Inl e, w') \<Rightarrow> (Inl e, (fst w, snd w')) | (Inr x, w') \<Rightarrow> (Inr x, w'))"

definition proxy_response :: initiate_response where
  "proxy_response = \<lparr>ir_direct = False, ir_resumed = False, ir_id = None, ir_status = None, ir_part_size = None,
     ir_part_count = None, ir_max_concurrency = 1, ir_max_attempts = 1, ir_inactivity = 60,
     ir_expires_at = None, ir_parts = []\<rparr>"

definition initiate ::
    "upload_settings \<Rightarrow> 's object_store \<Rightarrow> uuid \<Rightarrow> time \<Rightarrow> uuid \<Rightarrow> initiate_request \<Rightarrow> string \<Rightarrow> 's world
     \<Rightarrow> (error + initiate_response) \<times> 's world" where
  "initiate us st k now owner rq idempotency_key w =
     (case bindE (validate_metadata us rq) (\<lambda>(f, x).
             bindE (validate_idempotency_key idempotency_key) (\<lambda>key. Inr (f, x, key))) of
        Inl e \<Rightarrow> (Inl e, w)
      | Inr (filename, suffix, key) \<Rightarrow>
          if us_local us then (Inr proxy_response, w)
          else let key_hash = us_sha256 us key; fingerprint = request_fingerprint us rq filename;
                   mine = (\<lambda>r. up_owner r = owner \<and> up_idempotency_key_hash r = key_hash) in
            if find mine (upload_sessions (fst w)) \<noteq> None
            then on_session mine (Inl JobNotFoundError) (initiate_replay us st now fingerprint) w
            else (case transact_world (\<lambda>w.
                      case expire_all st now (sort_key up_id (filter (reconcilable owner now) (upload_sessions (fst w)))) w of
                        (Inl e, w') \<Rightarrow> (Inl e, w')
                      | (Inr _, w') \<Rightarrow> initiate_new us st k now owner rq filename suffix key_hash fingerprint w') w of
                    (Inl e, w') \<Rightarrow> (Inl e, w')
                  | (Inr r, w') \<Rightarrow> (initiate_response_of us st now False r, w')))"

section \<open>Recovery\<close>

definition part_bytes :: "upload_session \<Rightarrow> int \<Rightarrow> int" where
  "part_bytes r n = min (up_part_size r) (up_declared_size r - (n - 1) * up_part_size r)"

text \<open>The parts the provider lists, each checked against the session.\<close>

fun check_parts :: "upload_session \<Rightarrow> int list \<Rightarrow> stored_part list \<Rightarrow> stored_part list option" where
  "check_parts r seen [] = Some []"
| "check_parts r seen (p # ps) =
     (if pt_number p \<in> set seen \<or> \<not> (1 \<le> pt_number p \<and> pt_number p \<le> up_part_count r)
         \<or> pt_size p \<noteq> part_bytes r (pt_number p) \<or> strip (pt_etag p) = [] \<or> length (pt_etag p) > 512
         \<or> CHR 0x0D \<in> set (pt_etag p) \<or> CHR 0x0A \<in> set (pt_etag p)
      then None
      else map_option (\<lambda>qs. p\<lparr>pt_etag := strip (pt_etag p)\<rparr> # qs) (check_parts r (pt_number p # seen) ps))"

definition identity_of :: "upload_session \<Rightarrow> string option" where
  "identity_of r = (case get_or_null (up_client_metadata r) ''court4_file_identity'' of JStr x \<Rightarrow> Some x | _ \<Rightarrow> None)"

definition recovery_body ::
    "upload_settings \<Rightarrow> 's object_store \<Rightarrow> time \<Rightarrow> (string \<times> int) option \<Rightarrow> upload_session \<Rightarrow> 's world
     \<Rightarrow> (error + recovery_response \<times> upload_session) \<times> 's" where
  "recovery_body us st now resume r w =
     (if (case resume of None \<Rightarrow> False
          | Some (identity, bytes) \<Rightarrow> identity_of r \<noteq> Some identity \<or> bytes \<noteq> up_declared_size r)
      then (Inl (JobConflictError ''upload_file_mismatch''), snd w)
      else
        let parts = (if multipart_open (up_status r)
              then case os_list_parts st (up_storage_key r) (up_provider_upload_id r) (snd w) of
                None \<Rightarrow> None
              | Some ps \<Rightarrow> check_parts r [] ps
              else Some []) in
        (case parts of
           None \<Rightarrow> Inl JobStorageBackendError
         | Some ps \<Rightarrow> Inr (\<lparr>rc_cleanup_pending = (up_failure_reason r = Some ''duplicate_cleanup_pending''),
             rc_id = up_id r,
             rc_status = (if multipart_open (up_status r) \<and> up_expires_at r \<le> now then Expired else up_status r),
             rc_filename = up_filename r, rc_byte_size = up_declared_size r, rc_sport = up_sport r,
             rc_identity = identity_of r, rc_part_size = up_part_size r, rc_part_count = up_part_count r,
             rc_parts = sort_key pt_number ps, rc_max_concurrency = us_max_concurrency us,
             rc_max_attempts = us_max_attempts us, rc_inactivity = us_inactivity us,
             rc_expires_at = up_expires_at r\<rparr>, r), snd w))"

definition recovery ::
    "upload_settings \<Rightarrow> 's object_store \<Rightarrow> time \<Rightarrow> uuid \<Rightarrow> uuid \<Rightarrow> (string \<times> int) option \<Rightarrow> 's world
     \<Rightarrow> (error + recovery_response) \<times> 's world" where
  "recovery us st now owner k resume = load_owned owner k (recovery_body us st now resume)"

text \<open>\<open>[self.recovery(...) for id in ids]\<close>.\<close>

fun recover_all ::
    "upload_settings \<Rightarrow> 's object_store \<Rightarrow> time \<Rightarrow> uuid \<Rightarrow> uuid list \<Rightarrow> 's world
     \<Rightarrow> (error + recovery_response list) \<times> 's world" where
  "recover_all us st now owner [] w = (Inr [], w)"
| "recover_all us st now owner (k # ks) w =
     (case recovery us st now owner k None w of
        (Inl e, w') \<Rightarrow> (Inl e, w')
      | (Inr x, w') \<Rightarrow>
          (case recover_all us st now owner ks w' of
             (Inl e, w'') \<Rightarrow> (Inl e, w'') | (Inr xs, w'') \<Rightarrow> (Inr (x # xs), w'')))"

definition discover ::
    "upload_settings \<Rightarrow> 's object_store \<Rightarrow> time \<Rightarrow> uuid \<Rightarrow> 's world \<Rightarrow> (error + recovery_response list) \<times> 's world" where
  "discover us st now owner w =
     recover_all us st now owner
       (map up_id (sort_key up_created_at
          (filter (\<lambda>r. up_owner r = owner \<and> in_flight (up_status r)) (upload_sessions (fst w))))) w"

section \<open>Status and part URLs\<close>

definition get_upload ::
    "'s object_store \<Rightarrow> time \<Rightarrow> uuid \<Rightarrow> uuid \<Rightarrow> 's world \<Rightarrow> (error + upload_response) \<times> 's world" where
  "get_upload st now owner k = load_owned owner k (\<lambda>r w.
     case expire_record st now r (snd w) of
       (Inl e, s) \<Rightarrow> (Inl e, s)
     | (Inr (_, r'), s) \<Rightarrow> (Inr (status_response r', r'), s))"

text \<open>\<open>_expire_owned_if_needed\<close>: the expiry is committed before the error is raised.\<close>

definition expire_owned ::
    "'s object_store \<Rightarrow> time \<Rightarrow> uuid \<Rightarrow> uuid \<Rightarrow> 's world \<Rightarrow> (error + unit) \<times> 's world" where
  "expire_owned st now owner k w =
     (case load_owned owner k (\<lambda>r w. expire_record st now r (snd w)) w of
        (Inl e, w') \<Rightarrow> (Inl e, w')
      | (Inr expired, w') \<Rightarrow>
          (if expired then Inl (JobConflictError ''upload_session_expired'') else Inr (), w'))"

definition part_urls_body ::
    "upload_settings \<Rightarrow> 's object_store \<Rightarrow> time \<Rightarrow> int list \<Rightarrow> upload_session \<Rightarrow> 's world
     \<Rightarrow> (error + presigned_part list \<times> upload_session) \<times> 's" where
  "part_urls_body us st now ns r w =
     (bindE (requireE (up_status r \<noteq> Expired) (JobConflictError ''upload_session_expired'')) (\<lambda>_.
      bindE (requireE (multipart_open (up_status r)) (JobConflictError ''invalid_upload_state'')) (\<lambda>_.
      bindE (requireE (list_all (\<lambda>n. n \<le> up_part_count r) ns) (JobRequestError ''invalid_part_number'')) (\<lambda>_.
      let r' = (if up_status r = Initiated then move_session Uploading now r else r) in
      bindE (presigned_parts us st now r' ns) (\<lambda>ps. Inr (ps, r'))))), snd w)"

definition create_part_urls ::
    "upload_settings \<Rightarrow> 's object_store \<Rightarrow> (nat \<Rightarrow> 's world \<Rightarrow> 's world) \<Rightarrow> time \<Rightarrow> uuid \<Rightarrow> uuid \<Rightarrow> int list
     \<Rightarrow> 's world \<Rightarrow> (error + presigned_part list) \<times> 's world" where
  "create_part_urls us st env now owner k ns w =
     (case expire_owned st now owner k w of
        (Inl e, w') \<Rightarrow> (Inl e, w')
      | (Inr _, w') \<Rightarrow> load_owned owner k (part_urls_body us st now ns) (env 1 w'))"

section \<open>Completion\<close>

record completed_part =
  cp_number :: int
  cp_etag :: string

text \<open>
  The transaction that claims the completion. \<open>Inl\<close> of its answer is the early return,
  \<open>Inr\<close> the parts for the provider in order.
\<close>

definition complete_claim ::
    "time \<Rightarrow> completed_part list \<Rightarrow> upload_session \<Rightarrow> 's world
     \<Rightarrow> (error + (upload_response + upload_session \<times> completed_part list) \<times> upload_session) \<times> 's" where
  "complete_claim now parts r w =
     (bindE (requireE (up_status r \<noteq> Expired) (JobConflictError ''upload_session_expired'')) (\<lambda>_.
      if up_status r \<in> {UCompleted, Verifying, Analyzing} then Inr (Inl (status_response r), r)
      else bindE (requireE (multipart_open (up_status r)) (JobConflictError ''invalid_upload_state'')) (\<lambda>_.
      let ordered = sort_key cp_number parts in
      bindE (requireE (map cp_number ordered = [1..up_part_count r]) (JobRequestError ''missing_upload_part'')) (\<lambda>_.
      let r' = move_session Completing now r in Inr (Inr (r', ordered), r')))), snd w)"

definition object_matches :: "upload_object \<Rightarrow> upload_session \<Rightarrow> bool" where
  "object_matches h r \<longleftrightarrow> uo_size h = up_declared_size r
     \<and> uo_metadata h ''court4-upload-session'' = Some (uuid_text (up_id r))
     \<and> uo_metadata h ''court4-declared-size'' = Some (int_text (up_declared_size r))
     \<and> clean_content_type (uo_content_type h) = up_content_type r"

text \<open>
  The transaction that settles it. A mismatch is written and then raised after the commit,
  so it is the answer \<open>Inl\<close>.
\<close>

definition complete_settle ::
    "upload_object \<Rightarrow> time \<Rightarrow> upload_session \<Rightarrow> 's world
     \<Rightarrow> (error + (error + upload_response) \<times> upload_session) \<times> 's" where
  "complete_settle h now r w =
     (bindE (requireE (up_status r = Completing) (JobConflictError ''invalid_upload_state'')) (\<lambda>_.
      if object_matches h r
      then let r' = move_session Verifying now r in Inr (Inr (status_response r'), r')
      else Inr (Inl (JobRequestError ''object_verification_failed''),
             fail_row ''object_metadata_mismatch'' now r)), snd w)"

definition restore_uploading :: "time \<Rightarrow> uuid \<Rightarrow> 's world \<Rightarrow> 's world" where
  "restore_uploading now k w = snd (on_session (\<lambda>r. up_id r = k) (Inr ()) (\<lambda>r w.
     (Inr ((), if up_status r = Completing then move_session Uploading now r else r), snd w)) w)"

definition fail_upload :: "time \<Rightarrow> uuid \<Rightarrow> string \<Rightarrow> 's world \<Rightarrow> 's world" where
  "fail_upload now k reason w = snd (on_session (\<lambda>r. up_id r = k) (Inr ()) (\<lambda>r w.
     (Inr ((), if up_status r \<in> {UCompleted, Aborted} \<or> up_failure_reason r = Some ''duplicate_cleanup_pending''
        then r else fail_row (take 256 reason) now r), snd w)) w)"

text \<open>
  The provider's side: an error of the completion is ignored when the object is there
  (a completion that succeeded before), an error of the check after a completion is not.
\<close>

definition complete_provider ::
    "'s object_store \<Rightarrow> (nat \<Rightarrow> 's world \<Rightarrow> 's world) \<Rightarrow> time \<Rightarrow> uuid \<Rightarrow> upload_session \<Rightarrow> completed_part list
     \<Rightarrow> 's world \<Rightarrow> (error + upload_object) \<times> 's world" where
  "complete_provider st env now k r parts w =
     (let (ok, s) = os_complete st (up_storage_key r) (up_provider_upload_id r)
            (map (\<lambda>p. (cp_number p, cp_etag p)) parts) (snd w);
          w = (fst w, s) in
      case os_head st (up_storage_key r) s of
        Some h \<Rightarrow> (Inr h, w)
      | None \<Rightarrow> (Inl JobStorageBackendError,
                if ok then fail_upload now k ''object_head_failed'' (env 3 w)
                else restore_uploading now k (env 3 w)))"

definition complete_upload ::
    "'s object_store \<Rightarrow> (nat \<Rightarrow> 's world \<Rightarrow> 's world) \<Rightarrow> time \<Rightarrow> uuid \<Rightarrow> uuid \<Rightarrow> completed_part list
     \<Rightarrow> 's world \<Rightarrow> (error + upload_response) \<times> 's world" where
  "complete_upload st env now owner k parts w =
     (case expire_owned st now owner k w of
        (Inl e, w) \<Rightarrow> (Inl e, w)
      | (Inr _, w) \<Rightarrow>
          (case load_owned owner k (complete_claim now parts) (env 1 w) of
             (Inl e, w) \<Rightarrow> (Inl e, w)
           | (Inr (Inl response), w) \<Rightarrow> (Inr response, w)
           | (Inr (Inr (r, ordered)), w) \<Rightarrow>
               (case complete_provider st env now k r ordered (env 2 w) of
                  (Inl e, w) \<Rightarrow> (Inl e, w)
                | (Inr h, w) \<Rightarrow>
                    (case load_owned owner k (complete_settle h now) (env 3 w) of
                       (Inl e, w) \<Rightarrow> (Inl e, w)
                     | (Inr (Inl e), w) \<Rightarrow> (Inl e, w)
                     | (Inr (Inr response), w) \<Rightarrow> (Inr response, w)))))"

section \<open>Cleanup of a duplicate\<close>

definition json_text :: "json_object \<Rightarrow> string \<Rightarrow> string option" where
  "json_text d k = (case get_or_null d k of JStr x \<Rightarrow> Some x | _ \<Rightarrow> None)"

text \<open>The stored object may be deleted only if it is the session's own and nothing refers to it.\<close>

definition cleanup_allowed :: "uuid \<Rightarrow> db \<Rightarrow> upload_session \<Rightarrow> bool" where
  "cleanup_allowed owner d r \<longleftrightarrow>
     (let result = (case up_result_payload r of None \<Rightarrow> Map.empty | Some x \<Rightarrow> x) in
      json_text result ''status'' = Some ''duplicate''
      \<and> json_text result ''existing_analysis_id'' \<noteq> Some (up_analysis_id r)
      \<and> source_object_key owner (up_analysis_id r) (path_suffix (up_filename r)) = Inr (up_storage_key r)
      \<and> get_analysis d (up_analysis_id r) = None
      \<and> \<not> list_ex (\<lambda>v. vid_storage_key v = Some (up_storage_key r)) (videos d))"

definition cleanup_body ::
    "'s object_store \<Rightarrow> time \<Rightarrow> uuid \<Rightarrow> upload_session \<Rightarrow> 's world \<Rightarrow> (error + upload_response \<times> upload_session) \<times> 's" where
  "cleanup_body st now owner r w =
     (if up_status r = UCompleted then (Inr (status_response r, r), snd w)
      else if up_failure_reason r \<noteq> Some ''duplicate_cleanup_pending'' \<or> up_reanalyze r
      then (Inl (JobConflictError ''invalid_upload_state''), snd w)
      else case source_object_key owner (up_analysis_id r) (path_suffix (up_filename r)) of
        Inl e \<Rightarrow> (Inl e, snd w)
      | Inr _ \<Rightarrow>
          if \<not> cleanup_allowed owner (fst w) r then (Inl (JobConflictError ''invalid_upload_state''), snd w)
          else let (ok, s) = os_delete st (up_storage_key r) (snd w) in
            if \<not> ok then (Inl JobStorageBackendError, s)
            else let r' = (move_session UCompleted now r)\<lparr>up_failure_reason := None, up_completed_at := Some now\<rparr>
              in (Inr (status_response r', r'), s))"

definition cleanup_duplicate ::
    "'s object_store \<Rightarrow> time \<Rightarrow> uuid \<Rightarrow> uuid \<Rightarrow> 's world \<Rightarrow> (error + upload_response) \<times> 's world" where
  "cleanup_duplicate st now owner k = load_owned owner k (cleanup_body st now owner)"

section \<open>Verification and analysis\<close>

text \<open>
  What \<open>create_analysis_from_verified_object\<close> of the workflow answers or raises, and the
  object it is given. The workflow itself is a parameter \<open>analyze\<close>.
\<close>

datatype workflow_outcome = Analysed json_object | WorkflowError string | StoreError | OtherError

record verified_object =
  vo_owner :: uuid
  vo_analysis_id :: string
  vo_storage_key :: string
  vo_filename :: string
  vo_content_type :: string
  vo_size :: int
  vo_checksum :: string
  vo_idempotency_key :: string
  vo_reanalyze :: bool
  vo_sport :: sport

definition snapshot_of :: "upload_session \<Rightarrow> string \<Rightarrow> verified_object" where
  "snapshot_of r checksum =
     \<lparr>vo_owner = up_owner r, vo_analysis_id = up_analysis_id r, vo_storage_key = up_storage_key r,
      vo_filename = up_filename r, vo_content_type = up_content_type r, vo_size = up_declared_size r,
      vo_checksum = checksum, vo_idempotency_key = ''direct-upload:'' @ uuid_text (up_id r),
      vo_reanalyze = up_reanalyze r, vo_sport = up_sport r\<rparr>"

text \<open>The claim of the verification: the row to work on, or nothing to do.\<close>

definition verify_claim ::
    "upload_settings \<Rightarrow> time \<Rightarrow> upload_session \<Rightarrow> 's world \<Rightarrow> (error + upload_session option \<times> upload_session) \<times> 's" where
  "verify_claim us now r w =
     (Inr (if up_status r \<notin> {Verifying, Analyzing}
           \<or> (case up_verification_started_at r of None \<Rightarrow> False | Some t \<Rightarrow> now - us_lease us * 1000000 < t)
         then (None, r)
         else let r' = r\<lparr>up_verification_started_at := Some now, up_row_version := up_row_version r + 1,
                up_updated_at := now\<rparr> in (Some r', r')), snd w)"

text \<open>
  The checks on the object itself: \<open>Inl reason\<close> fails the session, the reason of an
  \<open>ObjectStorageError\<close> being the one its handler writes.
\<close>

definition verify_object ::
    "'s object_store \<Rightarrow> upload_session \<Rightarrow> 's \<Rightarrow> (string + string \<times> int) \<times> 's" where
  "verify_object st r s =
     (let key = up_storage_key r;
          identity_ok = (case get_or_null (up_client_metadata r) ''court4_file_identity'' of
             JNull \<Rightarrow> Inr ()
           | v \<Rightarrow> (case os_identity st key s of
               None \<Rightarrow> Inl ''object_verification_failed''
             | Some x \<Rightarrow> if JStr x \<noteq> v then Inl ''checksum_mismatch'' else Inr ())) in
      case identity_ok of
        Inl reason \<Rightarrow> (Inl reason, s)
      | Inr _ \<Rightarrow>
          (case os_sha256 st key s of
             None \<Rightarrow> (Inl ''object_verification_failed'', s)
           | Some c \<Rightarrow>
               if up_expected_sha256 r \<noteq> None \<and> up_expected_sha256 r \<noteq> Some c
               then (Inl ''checksum_mismatch'', s)
               else (case os_set_verified st key c s of
                   (None, s) \<Rightarrow> (Inl ''object_verification_failed'', s)
                 | (Some n, s) \<Rightarrow> (Inr (c, n), s))))"

text \<open>
  The transaction that records the checksum. The row is refused by its check constraint if
  the checksum is no SHA-256 digest.
\<close>

definition verify_record ::
    "time \<Rightarrow> string \<Rightarrow> int \<Rightarrow> upload_session \<Rightarrow> 's world \<Rightarrow> (error + upload_session option \<times> upload_session) \<times> 's" where
  "verify_record now c n r w =
     (if up_status r \<noteq> Verifying then Inr (None, r)
      else if n \<noteq> up_declared_size r then Inr (None, fail_row ''object_size_mismatch'' now r)
      else if \<not> hex64 c then Inl IntegrityError
      else let r' = (move_session Analyzing now r)\<lparr>up_verified_sha256 := Some c, up_verification_started_at := Some now\<rparr>
        in Inr (Some r', r'), snd w)"

definition record_result :: "time \<Rightarrow> json_object \<Rightarrow> upload_session \<Rightarrow> 's world \<Rightarrow> (error + bool \<times> upload_session) \<times> 's" where
  "record_result now result r w =
     (Inr (if up_status r \<noteq> Analyzing then (False, r)
       else if json_text result ''status'' = Some ''duplicate''
       then (True, r\<lparr>up_result_payload := Some result, up_failure_reason := Some ''duplicate_cleanup_pending'',
               up_row_version := up_row_version r + 1, up_updated_at := now\<rparr>)
       else (False, (move_session UCompleted now r)\<lparr>up_result_payload := Some result, up_completed_at := Some now\<rparr>)),
      snd w)"

fun job_code :: "error \<Rightarrow> string" where
  "job_code (JobConflictError c) = c"
| "job_code (JobRequestError c) = c"
| "job_code JobNotFoundError = ''analysis_not_found''"
| "job_code (JobStorageCapacityError c _) = c"
| "job_code JobTooLargeError = ''upload_too_large''"
| "job_code JobStorageBackendError = ''storage_backend_unavailable''"
| "job_code _ = ''upload_finalization_failed''"

text \<open>The workflow on the verified object, and what is written of its outcome.\<close>

definition analyze_and_record ::
    "'s object_store \<Rightarrow> (verified_object \<Rightarrow> 's world \<Rightarrow> workflow_outcome \<times> 's world)
     \<Rightarrow> (nat \<Rightarrow> 's world \<Rightarrow> 's world) \<Rightarrow> time \<Rightarrow> uuid \<Rightarrow> uuid \<Rightarrow> verified_object \<Rightarrow> 's world \<Rightarrow> 's world" where
  "analyze_and_record st analyze env now owner k v w =
     (case analyze v w of
        (WorkflowError code, w) \<Rightarrow> fail_upload now k code (env 3 w)
      | (StoreError, w) \<Rightarrow> fail_upload now k ''object_verification_failed'' (env 3 w)
      | (OtherError, w) \<Rightarrow> fail_upload now k ''upload_finalization_failed'' (env 3 w)
      | (Analysed result, w) \<Rightarrow>
          (case on_session (\<lambda>r. up_id r = k) (Inr False) (record_result now result) (env 3 w) of
             (Inr True, w) \<Rightarrow>
               (case cleanup_duplicate st now owner k (env 4 w) of
                  (Inl e, w) \<Rightarrow> fail_upload now k (job_code e) (env 5 w)
                | (Inr _, w) \<Rightarrow> w)
           | (_, w) \<Rightarrow> w))"

definition verify_and_analyze ::
    "upload_settings \<Rightarrow> 's object_store \<Rightarrow> (verified_object \<Rightarrow> 's world \<Rightarrow> workflow_outcome \<times> 's world)
     \<Rightarrow> (nat \<Rightarrow> 's world \<Rightarrow> 's world) \<Rightarrow> time \<Rightarrow> uuid \<Rightarrow> 's world \<Rightarrow> error option \<times> 's world" where
  "verify_and_analyze us st analyze env now k w =
     (case find (\<lambda>r. up_id r = k \<and> up_failure_reason r = Some ''duplicate_cleanup_pending'') (upload_sessions (fst w)) of
        Some r \<Rightarrow>
          (case cleanup_duplicate st now (up_owner r) k (env 0 w) of
             (Inl e, w) \<Rightarrow> (if e = JobStorageBackendError then None else Some e, w)
           | (Inr _, w) \<Rightarrow> (None, w))
      | None \<Rightarrow>
          (None, case on_session (\<lambda>r. up_id r = k) (Inr None) (verify_claim us now) (env 0 w) of
             (Inr (Some r), w) \<Rightarrow>
               (if up_status r = Analyzing
                then (case up_verified_sha256 r of
                    None \<Rightarrow> fail_upload now k ''verified_checksum_missing'' (env 1 w)
                  | Some c \<Rightarrow>
                      (case find (\<lambda>r. up_id r = k \<and> up_status r = Analyzing) (upload_sessions (fst (env 1 w))) of
                         None \<Rightarrow> env 1 w
                       | Some r \<Rightarrow> analyze_and_record st analyze env now (up_owner r) k (snapshot_of r c) (env 1 w)))
                else (case verify_object st r (snd (env 1 w)) of
                    (Inl reason, s) \<Rightarrow> fail_upload now k reason (env 2 (fst (env 1 w), s))
                  | (Inr (c, n), s) \<Rightarrow>
                      (case on_session (\<lambda>r. up_id r = k) (Inr None) (verify_record now c n) (env 2 (fst (env 1 w), s)) of
                         (Inl e, w) \<Rightarrow> fail_upload now k ''upload_finalization_failed'' w
                       | (Inr None, w) \<Rightarrow> w
                       | (Inr (Some r), w) \<Rightarrow>
                           analyze_and_record st analyze env now (up_owner r) k (snapshot_of r c) w)))
           | (_, w) \<Rightarrow> w))"

section \<open>Cancellation\<close>

text \<open>
  Two transactions: the first marks the session expired, so that nothing completes it any
  more, the second releases the provider's upload.
\<close>

definition abortable :: "upload_session \<Rightarrow> bool" where
  "abortable r \<longleftrightarrow> multipart_open (up_status r) \<or> up_status r = Expired"

definition abort_claim ::
    "time \<Rightarrow> upload_session \<Rightarrow> 's world \<Rightarrow> (error + upload_response option \<times> upload_session) \<times> 's" where
  "abort_claim now r w =
     (if up_status r = Aborted then Inr (Some (status_response r), r)
      else if \<not> abortable r then Inl (JobConflictError ''invalid_upload_state'')
      else Inr (None, (move_session Expired now r)\<lparr>up_expires_at := min (up_expires_at r) now,
             up_failure_reason := Some ''upload_cancel_requested''\<rparr>), snd w)"

definition abort_settle ::
    "'s object_store \<Rightarrow> time \<Rightarrow> upload_session \<Rightarrow> 's world \<Rightarrow> (error + upload_response \<times> upload_session) \<times> 's" where
  "abort_settle st now r w =
     (if up_status r = Aborted then (Inr (status_response r, r), snd w)
      else if \<not> abortable r then (Inl (JobConflictError ''invalid_upload_state''), snd w)
      else let (ok, s) = os_abort st (up_storage_key r) (up_provider_upload_id r) (snd w) in
        if \<not> ok then (Inl JobStorageBackendError, s)
        else let r' = (move_session Aborted now r)\<lparr>up_aborted_at := Some now\<rparr> in (Inr (status_response r', r'), s))"

definition abort_upload ::
    "'s object_store \<Rightarrow> (nat \<Rightarrow> 's world \<Rightarrow> 's world) \<Rightarrow> time \<Rightarrow> uuid \<Rightarrow> uuid \<Rightarrow> 's world
     \<Rightarrow> (error + upload_response) \<times> 's world" where
  "abort_upload st env now owner k w =
     (case load_owned owner k (abort_claim now) w of
        (Inl e, w) \<Rightarrow> (Inl e, w)
      | (Inr (Some response), w) \<Rightarrow> (Inr response, w)
      | (Inr None, w) \<Rightarrow> load_owned owner k (abort_settle st now) (env 1 w))"

end
