(* ===== verification/Upload_Laws.thy ===== *)
theory Upload_Laws
  imports Uploads
begin

text \<open>
  What the operations of \<^verbatim>\<open>app/services/uploads.py\<close> do to the rows of \<open>upload_sessions\<close>.
  \<open>upload_next\<close> is the abstract life of a session; every transaction moves its row along it
  (\<open>session_step\<close>), keeps what a row says consistent (\<open>row_ok\<close>) and the table's invariant
  \<open>upload_inv\<close>. \<open>upload_evolves\<close> is any interleaving of the operations.
\<close>

section \<open>The life of a session\<close>

fun upload_next :: "upload_status \<Rightarrow> upload_status \<Rightarrow> bool" where
  "upload_next Initiated t \<longleftrightarrow> t \<in> {Uploading, Completing, Expired, UFailed}"
| "upload_next Uploading t \<longleftrightarrow> t \<in> {Completing, Expired, UFailed}"
| "upload_next Completing t \<longleftrightarrow> t \<in> {Uploading, Verifying, UFailed}"
| "upload_next Verifying t \<longleftrightarrow> t \<in> {Analyzing, UFailed}"
| "upload_next Analyzing t \<longleftrightarrow> t \<in> {UCompleted, UFailed}"
| "upload_next Expired t \<longleftrightarrow> t \<in> {Aborted, UFailed}"
| "upload_next UFailed t \<longleftrightarrow> False"
| "upload_next UCompleted t \<longleftrightarrow> False"
| "upload_next Aborted t \<longleftrightarrow> False"

abbreviation upload_path :: "upload_status \<Rightarrow> upload_status \<Rightarrow> bool" where
  "upload_path \<equiv> upload_next\<^sup>*\<^sup>*"

lemma next_not_final: "upload_next s t \<Longrightarrow> s \<noteq> UCompleted \<and> s \<noteq> Aborted \<and> s \<noteq> UFailed"
  by (cases s) auto

lemma path_from_final: "upload_path s t \<Longrightarrow> s \<in> {UCompleted, Aborted, UFailed} \<Longrightarrow> t = s"
  by (induction rule: converse_rtranclp_induct) (auto dest: next_not_final)

lemma next_in_flight: "upload_next s t \<Longrightarrow> in_flight t \<Longrightarrow> in_flight s"
  by (cases s) (auto simp: in_flight_def)

lemma path_in_flight: "upload_path s t \<Longrightarrow> in_flight t \<Longrightarrow> in_flight s"
  by (induction rule: rtranclp_induct) (auto dest: next_in_flight)

lemma aborted_path: "s \<in> {Initiated, Uploading, Expired} \<Longrightarrow> upload_path s Aborted"
proof -
  assume s: "s \<in> {Initiated, Uploading, Expired}"
  have "upload_path s Expired" using s by (auto intro: r_into_rtranclp)
  moreover have "upload_next Expired Aborted" by simp
  ultimately show ?thesis by (rule rtranclp.rtrancl_into_rtrancl)
qed

section \<open>Rows\<close>

abbreviation cleanup_pending :: string where
  "cleanup_pending \<equiv> ''duplicate_cleanup_pending''"

definition checksum_ok :: "upload_session \<Rightarrow> bool" where
  "checksum_ok r \<longleftrightarrow> (case up_verified_sha256 r of None \<Rightarrow> False
     | Some c \<Rightarrow> hex64 c \<and> (up_expected_sha256 r = None \<or> up_expected_sha256 r = Some c))"

definition row_ok :: "upload_session \<Rightarrow> bool" where
  "row_ok r \<longleftrightarrow> (up_status r \<in> {Initiated, Uploading, Completing, Verifying} \<longrightarrow> up_verified_sha256 r = None)
     \<and> (up_status r \<in> {Analyzing, UCompleted} \<longrightarrow> checksum_ok r)
     \<and> (up_failure_reason r = Some cleanup_pending \<longrightarrow> up_status r \<in> {Analyzing, UCompleted} \<and> up_result_payload r \<noteq> None)
     \<and> (up_status r = UCompleted \<longrightarrow> up_result_payload r \<noteq> None \<and> up_completed_at r \<noteq> None)
     \<and> (up_status r = Aborted \<longrightarrow> up_aborted_at r \<noteq> None)"

definition same_upload :: "upload_session \<Rightarrow> upload_session \<Rightarrow> bool" where
  "same_upload r s \<longleftrightarrow> s = r\<lparr>up_status := up_status s, up_verified_sha256 := up_verified_sha256 s,
     up_result_payload := up_result_payload s, up_failure_reason := up_failure_reason s,
     up_row_version := up_row_version s, up_updated_at := up_updated_at s, up_expires_at := up_expires_at s,
     up_verification_started_at := up_verification_started_at s, up_completed_at := up_completed_at s,
     up_aborted_at := up_aborted_at s\<rparr>"

definition session_step :: "upload_session \<Rightarrow> upload_session \<Rightarrow> bool" where
  "session_step r s \<longleftrightarrow> same_upload r s \<and> upload_path (up_status r) (up_status s)
     \<and> (up_status r \<in> {UCompleted, Aborted} \<longrightarrow> s = r)
     \<and> up_row_version r \<le> up_row_version s \<and> (up_row_version r = up_row_version s \<longrightarrow> s = r)
     \<and> up_expires_at s \<le> up_expires_at r
     \<and> (up_verified_sha256 r \<noteq> None \<longrightarrow> up_verified_sha256 s = up_verified_sha256 r)"

lemma same_upload_refl [simp]: "same_upload r r"
  by (simp add: same_upload_def)

lemma same_upload_trans: "same_upload r s \<Longrightarrow> same_upload s t \<Longrightarrow> same_upload r t"
  by (cases r; cases s; cases t) (simp add: same_upload_def)

lemma same_upload_cols:
  assumes "same_upload r s"
  shows "up_id s = up_id r" "up_owner s = up_owner r" "up_analysis_id s = up_analysis_id r"
    "up_storage_key s = up_storage_key r" "up_idempotency_key_hash s = up_idempotency_key_hash r"
    "up_request_fingerprint s = up_request_fingerprint r" "up_expected_sha256 s = up_expected_sha256 r"
    "up_part_count s = up_part_count r" "up_declared_size s = up_declared_size r"
    "up_filename s = up_filename r" "up_part_size s = up_part_size r"
  using assms by (cases r; cases s; simp add: same_upload_def)+

lemma session_step_refl [simp]: "session_step r r"
  by (simp add: session_step_def)

lemma session_step_trans: "session_step r s \<Longrightarrow> session_step s t \<Longrightarrow> session_step r t"
  unfolding session_step_def by (auto intro: same_upload_trans)

text \<open>A row that moved one step, with its new version.\<close>

lemma session_stepI:
  assumes "same_upload r s" and "upload_next (up_status r) (up_status s) \<or> up_status s = up_status r"
    and "up_status r \<notin> {UCompleted, Aborted}" and "up_row_version s = up_row_version r + 1"
    and "up_expires_at s \<le> up_expires_at r"
    and "up_verified_sha256 r \<noteq> None \<Longrightarrow> up_verified_sha256 s = up_verified_sha256 r"
  shows "session_step r s"
  using assms by (auto simp: session_step_def)

lemma move_session_simps [simp]:
  "up_status (move_session st now r) = st" "up_row_version (move_session st now r) = up_row_version r + 1"
  "up_verified_sha256 (move_session st now r) = up_verified_sha256 r"
  "up_expected_sha256 (move_session st now r) = up_expected_sha256 r"
  "up_failure_reason (move_session st now r) = up_failure_reason r"
  "up_result_payload (move_session st now r) = up_result_payload r"
  "up_completed_at (move_session st now r) = up_completed_at r"
  "up_aborted_at (move_session st now r) = up_aborted_at r"
  "up_expires_at (move_session st now r) = up_expires_at r"
  "up_id (move_session st now r) = up_id r"
  by (simp_all add: move_session_def)

lemma same_moved:
  "same_upload r (move_session st now r)"
  "same_upload r s \<Longrightarrow> same_upload r (s\<lparr>up_failure_reason := a\<rparr>)"
  "same_upload r s \<Longrightarrow> same_upload r (s\<lparr>up_aborted_at := b\<rparr>)"
  "same_upload r s \<Longrightarrow> same_upload r (s\<lparr>up_completed_at := b\<rparr>)"
  "same_upload r s \<Longrightarrow> same_upload r (s\<lparr>up_result_payload := p\<rparr>)"
  "same_upload r s \<Longrightarrow> same_upload r (s\<lparr>up_expires_at := t\<rparr>)"
  "same_upload r s \<Longrightarrow> same_upload r (s\<lparr>up_verified_sha256 := a\<rparr>)"
  "same_upload r s \<Longrightarrow> same_upload r (s\<lparr>up_verification_started_at := b\<rparr>)"
  "same_upload r s \<Longrightarrow> same_upload r (s\<lparr>up_row_version := v\<rparr>)"
  "same_upload r s \<Longrightarrow> same_upload r (s\<lparr>up_updated_at := t\<rparr>)"
  by (cases r; cases s; simp add: same_upload_def move_session_def)+

lemma row_ok_simps:
  "up_status s = Initiated \<Longrightarrow> row_ok s \<longleftrightarrow> up_verified_sha256 s = None \<and> up_failure_reason s \<noteq> Some cleanup_pending"
  "up_status s = Uploading \<Longrightarrow> row_ok s \<longleftrightarrow> up_verified_sha256 s = None \<and> up_failure_reason s \<noteq> Some cleanup_pending"
  "up_status s = Completing \<Longrightarrow> row_ok s \<longleftrightarrow> up_verified_sha256 s = None \<and> up_failure_reason s \<noteq> Some cleanup_pending"
  "up_status s = Verifying \<Longrightarrow> row_ok s \<longleftrightarrow> up_verified_sha256 s = None \<and> up_failure_reason s \<noteq> Some cleanup_pending"
  "up_status s = Analyzing \<Longrightarrow> row_ok s \<longleftrightarrow> checksum_ok s \<and> (up_failure_reason s = Some cleanup_pending \<longrightarrow> up_result_payload s \<noteq> None)"
  "up_status s = UCompleted \<Longrightarrow> row_ok s \<longleftrightarrow> checksum_ok s \<and> up_result_payload s \<noteq> None \<and> up_completed_at s \<noteq> None"
  "up_status s = Aborted \<Longrightarrow> row_ok s \<longleftrightarrow> up_failure_reason s \<noteq> Some cleanup_pending \<and> up_aborted_at s \<noteq> None"
  "up_status s = UFailed \<Longrightarrow> row_ok s \<longleftrightarrow> up_failure_reason s \<noteq> Some cleanup_pending"
  "up_status s = Expired \<Longrightarrow> row_ok s \<longleftrightarrow> up_failure_reason s \<noteq> Some cleanup_pending"
  by (auto simp: row_ok_def)

text \<open>A step that also keeps the row consistent.\<close>

definition good_step :: "upload_session \<Rightarrow> upload_session \<Rightarrow> bool" where
  "good_step r s \<longleftrightarrow> (row_ok r \<longrightarrow> row_ok s \<and> session_step r s)"

lemma good_step_refl [simp]: "good_step r r"
  by (simp add: good_step_def)

lemma good_step_trans: "good_step r s \<Longrightarrow> good_step s t \<Longrightarrow> good_step r t"
  by (auto simp: good_step_def intro: session_step_trans)

lemma good_stepI:
  assumes "same_upload r s" and "upload_next (up_status r) (up_status s) \<or> up_status s = up_status r"
    and "up_status r \<noteq> UCompleted" "up_status r \<noteq> Aborted" and "up_row_version s = up_row_version r + 1"
    and "up_expires_at s \<le> up_expires_at r"
    and "row_ok r \<Longrightarrow> row_ok s \<and> (up_verified_sha256 r = None \<or> up_verified_sha256 s = up_verified_sha256 r)"
  shows "good_step r s"
  unfolding good_step_def using assms by (auto intro!: session_stepI)

lemma checksum_ok_cong:
  "up_verified_sha256 s = up_verified_sha256 r \<Longrightarrow> up_expected_sha256 s = up_expected_sha256 r \<Longrightarrow>
     checksum_ok s = checksum_ok r"
  by (simp add: checksum_ok_def split: option.splits)

lemmas step_simps = row_ok_simps same_moved multipart_open_def abortable_def fail_row_def

lemma fail_step:
  "up_status r \<notin> {UCompleted, Aborted} \<Longrightarrow> reason \<noteq> cleanup_pending \<Longrightarrow> good_step r (fail_row reason now r)"
  by (rule good_stepI; (cases "up_status r")?) (simp_all add: step_simps)

lemma expire_step:
  assumes "expire_record st now r s = (Inr (b, r'), s')"
  shows "good_step r r'"
proof (cases "r' = r")
  case False
  with assms have st: "up_status r = Initiated \<or> up_status r = Uploading \<or> up_status r = Expired"
    and r': "r' = (move_session Expired now r)\<lparr>
               up_aborted_at := (case up_aborted_at r of None \<Rightarrow> Some now | Some t \<Rightarrow> Some t),
               up_failure_reason := Some ''upload_session_expired''\<rparr>"
    by (auto simp: expire_record_def Let_def multipart_open_def split: if_splits prod.splits)
  show ?thesis
    unfolding r' by (rule good_stepI) (use st in \<open>auto simp: step_simps\<close>)
qed simp

lemma expire_step_id:
  "expire_record st now r s = (Inr (b, r'), s') \<Longrightarrow> up_id r' = up_id r"
  by (auto simp: expire_record_def Let_def split: if_splits prod.splits)

lemma complete_claim_step:
  "complete_claim now parts r w = (Inr (x, r'), s) \<Longrightarrow> good_step r r'"
  unfolding complete_claim_def
  by (auto simp: resultE_iffs Let_def step_simps intro!: good_stepI split: if_splits)

lemma complete_settle_step:
  "complete_settle h now r w = (Inr (x, r'), s) \<Longrightarrow> good_step r r'"
  unfolding complete_settle_def
  by (auto simp: resultE_iffs Let_def step_simps intro!: good_stepI split: if_splits)

lemma part_urls_step:
  "part_urls_body us st now ns r w = (Inr (x, r'), s) \<Longrightarrow> good_step r r'"
  unfolding part_urls_body_def
  by (auto simp: resultE_iffs Let_def step_simps intro!: good_stepI split: if_splits)

lemma recovery_step:
  "recovery_body us st now resume r w = (Inr (x, r'), s) \<Longrightarrow> r' = r"
  by (auto simp: recovery_body_def Let_def split: if_splits option.splits)

lemma initiate_replay_step:
  "initiate_replay us st now fp r w = (Inr (x, r'), s) \<Longrightarrow> good_step r r'"
  by (auto simp: initiate_replay_def bindE_Inr_iff split: if_splits prod.splits sum.splits dest: expire_step)

lemma verify_claim_step:
  assumes "verify_claim us now r w = (Inr (x, r'), s)"
  shows "good_step r r'"
proof (cases "r' = r")
  case False
  with assms have st: "up_status r = Verifying \<or> up_status r = Analyzing"
    and r': "r' = r\<lparr>up_verification_started_at := Some now, up_row_version := up_row_version r + 1, up_updated_at := now\<rparr>"
    by (auto simp: verify_claim_def Let_def split: if_splits)
  have "checksum_ok r' = checksum_ok r" by (rule checksum_ok_cong) (simp_all add: r')
  then show ?thesis
    unfolding r' by (intro good_stepI) (use st in \<open>auto simp: step_simps\<close>)
qed simp

lemma record_result_step:
  assumes "record_result now result r w = (Inr (x, r'), s)"
  shows "good_step r r'"
proof (cases "r' = r")
  case False
  with assms have st: "up_status r = Analyzing"
    and r': "r' = r\<lparr>up_result_payload := Some result, up_failure_reason := Some cleanup_pending,
               up_row_version := up_row_version r + 1, up_updated_at := now\<rparr>
      \<or> r' = (move_session UCompleted now r)\<lparr>up_result_payload := Some result, up_completed_at := Some now\<rparr>"
    by (auto simp: record_result_def Let_def split: if_splits)
  have "checksum_ok r' = checksum_ok r" by (rule checksum_ok_cong) (use r' in auto)
  with r' st show ?thesis by (elim disjE) (auto simp: step_simps intro!: good_stepI)
qed simp

lemma cleanup_step:
  assumes "cleanup_body st now owner r w = (Inr (x, r'), s)"
  shows "good_step r r'"
proof (cases "r' = r")
  case False
  with assms have p: "up_status r \<noteq> UCompleted" "up_failure_reason r = Some cleanup_pending"
    and r': "r' = (move_session UCompleted now r)\<lparr>up_failure_reason := None, up_completed_at := Some now\<rparr>"
    by (auto simp: cleanup_body_def Let_def split: if_splits sum.splits prod.splits)
  have c: "checksum_ok r' = checksum_ok r" by (rule checksum_ok_cong) (simp_all add: r')
  show ?thesis
  proof (cases "up_status r = Analyzing")
    case True
    with c show ?thesis unfolding r' by (intro good_stepI) (auto simp: step_simps p)
  next
    case False
    with p have "\<not> row_ok r" by (auto simp: row_ok_def)
    then show ?thesis by (simp add: good_step_def)
  qed
qed simp

lemma abort_claim_step:
  "abort_claim now r w = (Inr (x, r'), s) \<Longrightarrow> good_step r r'"
  unfolding abort_claim_def by (auto simp: step_simps intro!: good_stepI split: if_splits)

lemma abort_settle_step:
  assumes "abort_settle st now r w = (Inr (x, r'), s)"
  shows "good_step r r'"
proof (cases "r' = r")
  case False
  with assms have st: "up_status r = Initiated \<or> up_status r = Uploading \<or> up_status r = Expired"
    and r': "r' = (move_session Aborted now r)\<lparr>up_aborted_at := Some now\<rparr>"
    by (auto simp: abort_settle_def Let_def abortable_def multipart_open_def split: if_splits prod.splits)
  \<comment> \<open>an open session is expired first, then aborted\<close>
  have "upload_path (up_status r) Aborted"
    by (rule aborted_path) (use st in blast)
  then have "session_step r r'"
    using st unfolding r' session_step_def by (auto simp: same_moved)
  with st show ?thesis unfolding r' good_step_def by (auto simp: step_simps)
qed simp

lemma verify_record_step:
  assumes "verify_record now c n r w = (Inr (x, r'), s)" and "up_expected_sha256 r = None \<or> up_expected_sha256 r = Some c"
  shows "good_step r r'"
  using assms unfolding verify_record_def
  by (auto simp: Let_def step_simps checksum_ok_def intro!: good_stepI split: if_splits)

section \<open>The table\<close>

definition upload_inv :: "upload_settings \<Rightarrow> db \<Rightarrow> bool" where
  "upload_inv us d \<longleftrightarrow> distinct (map up_id (upload_sessions d))
     \<and> distinct (map (\<lambda>r. (up_owner r, up_idempotency_key_hash r)) (upload_sessions d))
     \<and> distinct (map up_storage_key (upload_sessions d))
     \<and> list_all row_ok (upload_sessions d) \<and> (\<forall>owner. active_uploads owner d \<le> us_max_active us)"

definition upload_later :: "db \<Rightarrow> db \<Rightarrow> bool" where
  "upload_later d e \<longleftrightarrow> (\<forall>r\<in>set (upload_sessions d). \<exists>s\<in>set (upload_sessions e). session_step r s)"

definition upload_moves :: "upload_settings \<Rightarrow> db \<Rightarrow> db \<Rightarrow> bool" where
  "upload_moves us d e \<longleftrightarrow> (upload_inv us d \<longrightarrow> upload_inv us e \<and> upload_later d e)"

lemma upload_later_trans: "upload_later d e \<Longrightarrow> upload_later e f \<Longrightarrow> upload_later d f"
  unfolding upload_later_def by (meson session_step_trans)

lemma upload_moves_refl [simp]: "upload_moves us d d"
  unfolding upload_moves_def upload_later_def using session_step_refl by blast

lemma upload_moves_trans: "upload_moves us d e \<Longrightarrow> upload_moves us e f \<Longrightarrow> upload_moves us d f"
  unfolding upload_moves_def by (blast intro: upload_later_trans)

lemma step_ex [simp]: "r \<in> set rows \<Longrightarrow> \<exists>s\<in>set rows. session_step r s"
  using session_step_refl by blast

lemma upload_moves_frame: "upload_sessions e = upload_sessions d \<Longrightarrow> upload_moves us d e"
  unfolding upload_moves_def upload_inv_def upload_later_def active_uploads_def by auto

lemma active_after_update:
  assumes "\<And>r. r \<in> set rows \<Longrightarrow> p r \<Longrightarrow> up_owner (f r) = up_owner r \<and> (in_flight (up_status (f r)) \<longrightarrow> in_flight (up_status r))"
  shows "length (filter (\<lambda>r. up_owner r = owner \<and> in_flight (up_status r)) (update_where p f rows))
    \<le> length (filter (\<lambda>r. up_owner r = owner \<and> in_flight (up_status r)) rows)"
  using assms by (induction rows) (auto simp: update_where_def)

text \<open>Writing back one row that took a good step.\<close>

lemma write_back_moves:
  assumes r: "r \<in> set (upload_sessions d)" and step: "good_step r r'"
  shows "upload_moves us d (modify_upload (up_id r) (\<lambda>_. r') d)"
  unfolding upload_moves_def
proof
  let ?p = "\<lambda>s. up_id s = up_id r" and ?rows = "upload_sessions d"
  let ?new = "update_where ?p (\<lambda>_. r') ?rows"
  assume inv: "upload_inv us d"
  have only: "s = r" if "s \<in> set ?rows" "?p s" for s
    using inv that r by (auto simp: upload_inv_def distinct_map dest: inj_onD)
  have st: "row_ok r'" "session_step r r'" using step inv r by (auto simp: good_step_def upload_inv_def list_all_iff)
  then have same: "same_upload r r'" by (simp add: session_step_def)
  note cols = same_upload_cols [OF same]
  have e: "upload_sessions (modify_upload (up_id r) (\<lambda>_. r') d) = ?new" by (simp add: modify_upload_def)
  have maps: "map up_id ?new = map up_id ?rows" "map up_storage_key ?new = map up_storage_key ?rows"
    "map (\<lambda>r. (up_owner r, up_idempotency_key_hash r)) ?new = map (\<lambda>r. (up_owner r, up_idempotency_key_hash r)) ?rows"
    by (rule map_update_where_on; metis only cols)+
  have oks: "list_all row_ok ?new"
    unfolding list_all_iff
  proof
    fix s assume "s \<in> set ?new"
    then obtain q where "q \<in> set ?rows" "s = (if ?p q then r' else q)" unfolding in_update_where by blast
    with st(1) inv show "row_ok s" by (cases "?p q") (simp_all add: upload_inv_def list_all_iff)
  qed
  have "in_flight (up_status r') \<longrightarrow> in_flight (up_status r)"
    using st(2) path_in_flight by (auto simp: session_step_def)
  then have "length (filter (\<lambda>r. up_owner r = owner \<and> in_flight (up_status r)) ?new) \<le> active_uploads owner d" for owner
    unfolding active_uploads_def by (intro active_after_update) (use only cols in auto)
  with maps oks inv have "upload_inv us (modify_upload (up_id r) (\<lambda>_. r') d)"
    unfolding upload_inv_def active_uploads_def [of _ "modify_upload _ _ _"] e by (metis (no_types, lifting) order_trans)
  moreover have "\<exists>s\<in>set ?new. session_step q s" if "q \<in> set ?rows" for q
  proof (cases "?p q")
    case True
    with only [OF that] st(2) that show ?thesis unfolding in_update_where Bex_def by metis
  next
    case False
    with that session_step_refl [of q] show ?thesis unfolding in_update_where Bex_def by metis
  qed
  ultimately show "upload_inv us (modify_upload (up_id r) (\<lambda>_. r') d)
      \<and> upload_later d (modify_upload (up_id r) (\<lambda>_. r') d)"
    unfolding upload_later_def e by blast
qed

lemma on_session_moves:
  assumes "\<And>r x r' s. r \<in> set (upload_sessions (fst w)) \<Longrightarrow> sel r \<Longrightarrow> f r w = (Inr (x, r'), s) \<Longrightarrow> good_step r r'"
  shows "upload_moves us (fst w) (fst (snd (on_session sel absent f w)))"
proof (cases "find sel (upload_sessions (fst w))")
  case None
  then show ?thesis by (simp add: on_session_def)
next
  case (Some r)
  note r = find_Some_in [OF Some]
  show ?thesis
  proof (cases "f r w")
    case (Pair a s)
    show ?thesis
    proof (cases a)
      case (Inl e)
      with Some Pair show ?thesis by (simp add: on_session_def)
    next
      case (Inr b)
      obtain x r' where b: "b = (x, r')" by (cases b)
      have "good_step r r'" using assms [of r x r' s] r Pair Inr b by simp
      with write_back_moves [of r "fst w"] r Some Pair Inr b show ?thesis by (simp add: on_session_def)
    qed
  qed
qed

lemmas load_owned_moves = on_session_moves [where sel = "owned_by owner k" and absent = "Inl JobNotFoundError" for owner k,
    folded load_owned_def]

lemma fail_upload_moves: "take 256 reason \<noteq> cleanup_pending \<Longrightarrow> upload_moves us (fst w) (fst (fail_upload now k reason w))"
  unfolding fail_upload_def by (rule on_session_moves) (auto simp: fail_step split: if_splits)

lemma restore_moves: "upload_moves us (fst w) (fst (restore_uploading now k w))"
  unfolding restore_uploading_def
  by (rule on_session_moves)
    (auto simp: good_step_def row_ok_def intro!: session_stepI same_moved split: if_splits)

lemma expire_owned_moves: "upload_moves us (fst w) (fst (snd (expire_owned st now owner k w)))"
proof -
  have "upload_moves us (fst w) (fst (snd (load_owned owner k (\<lambda>r w. expire_record st now r (snd w)) w)))"
    by (rule load_owned_moves) (auto dest: expire_step)
  then show ?thesis by (auto simp: expire_owned_def split: sum.splits prod.splits)
qed

text \<open>A transaction inside the operation leaves nothing behind when it fails.\<close>

lemma transact_world_moves:
  assumes "\<And>x w'. body w = (Inr x, w') \<Longrightarrow> upload_moves us (fst w) (fst w')"
  shows "upload_moves us (fst w) (fst (snd (transact_world body w)))"
  using assms by (auto simp: transact_world_def split: sum.splits prod.splits)

lemma expire_all_moves:
  assumes "\<And>r. r \<in> set rs \<Longrightarrow> r \<in> set (upload_sessions (fst w))" and "distinct (map up_id rs)"
    and "expire_all st now rs w = (Inr (), w')"
  shows "upload_moves us (fst w) (fst w')"
  using assms
proof (induction rs arbitrary: w)
  case Nil
  then show ?case by simp
next
  case (Cons r rs)
  from Cons.prems(3) obtain b r' s where r: "expire_record st now r (snd w) = (Inr (b, r'), s)"
    and rest: "expire_all st now rs (modify_upload (up_id r) (\<lambda>_. r') (fst w), s) = (Inr (), w')"
    by (auto split: sum.splits prod.splits)
  have "q \<in> set (upload_sessions (modify_upload (up_id r) (\<lambda>_. r') (fst w)))" if "q \<in> set rs" for q
  proof -
    have "up_id q \<noteq> up_id r" using that Cons.prems(2) by (metis distinct.simps(2) image_eqI list.set_map list.simps(9))
    with Cons.prems(1) that show ?thesis by (force simp: modify_upload_def in_update_where)
  qed
  then have "upload_moves us (modify_upload (up_id r) (\<lambda>_. r') (fst w)) (fst w')"
    using Cons.IH [OF _ _ rest] Cons.prems(2) by simp
  with write_back_moves [OF Cons.prems(1) expire_step [OF r]] show ?case by (meson upload_moves_trans list.set_intros(1))
qed

section \<open>The operations\<close>

lemma load_owned_moves':
  "(\<And>r x r' s. f r w = (Inr (x, r'), s) \<Longrightarrow> good_step r r') \<Longrightarrow>
     upload_moves us (fst w) (fst (snd (load_owned owner k f w)))"
  by (rule load_owned_moves)

lemma get_upload_moves: "upload_moves us (fst w) (fst (snd (get_upload st now owner k w)))"
  unfolding get_upload_def
  by (rule load_owned_moves') (auto split: sum.splits prod.splits dest: expire_step)

lemma recovery_moves: "upload_moves us (fst w) (fst (snd (recovery us' st now owner k resume w)))"
  unfolding recovery_def by (rule load_owned_moves') (auto dest: recovery_step)

lemma recover_all_moves: "upload_moves us (fst w) (fst (snd (recover_all us' st now owner ks w)))"
proof (induction ks arbitrary: w)
  case Nil
  then show ?case by simp
next
  case (Cons k ks)
  obtain a w1 where r: "recovery us' st now owner k None w = (a, w1)" by (cases "recovery us' st now owner k None w")
  have "upload_moves us (fst w) (fst w1)" using recovery_moves [of us w us' st now owner k None] r by simp
  with Cons.IH [of w1] show ?case
    using r by (auto split: sum.splits prod.splits intro: upload_moves_trans)
qed

lemma part_urls_moves:
  assumes "\<And>i w. upload_moves us (fst w) (fst (env i w))"
  shows "upload_moves us (fst w) (fst (snd (create_part_urls us' st env now owner k ns w)))"
proof -
  obtain a w1 where e: "expire_owned st now owner k w = (a, w1)" by (cases "expire_owned st now owner k w")
  have "upload_moves us (fst w) (fst w1)" using expire_owned_moves [of us w st now owner k] e by simp
  moreover have "upload_moves us (fst (env 1 w1)) (fst (snd (load_owned owner k (part_urls_body us' st now ns) (env 1 w1))))"
    by (rule load_owned_moves') (rule part_urls_step)
  ultimately show ?thesis
    using e assms [of w1 1] by (auto simp: create_part_urls_def split: sum.splits intro: upload_moves_trans)
qed

lemma abort_moves:
  assumes "\<And>i w. upload_moves us (fst w) (fst (env i w))"
  shows "upload_moves us (fst w) (fst (snd (abort_upload st env now owner k w)))"
proof -
  obtain a w1 where e: "load_owned owner k (abort_claim now) w = (a, w1)" by (cases "load_owned owner k (abort_claim now) w")
  have "upload_moves us (fst w) (fst (snd (load_owned owner k (abort_claim now) w)))"
    by (rule load_owned_moves') (rule abort_claim_step)
  moreover have "upload_moves us (fst (env 1 w1)) (fst (snd (load_owned owner k (abort_settle st now) (env 1 w1))))"
    by (rule load_owned_moves') (rule abort_settle_step)
  ultimately show ?thesis
    using e assms [of w1 1]
    by (auto simp: abort_upload_def split: sum.splits option.splits intro: upload_moves_trans)
qed

lemma complete_provider_moves:
  assumes "\<And>i w. upload_moves us (fst w) (fst (env i w))"
  shows "upload_moves us (fst w) (fst (snd (complete_provider st env now k r parts w)))"
proof -
  have "upload_moves us d (fst (fail_upload now k ''object_head_failed'' (env 3 (d, s))))"
    "upload_moves us d (fst (restore_uploading now k (env 3 (d, s))))" for d s
    using upload_moves_trans [OF assms [of "(d, s)" 3] restore_moves]
      upload_moves_trans [OF assms [of "(d, s)" 3] fail_upload_moves [of "''object_head_failed''"]] by simp_all
  then show ?thesis by (auto simp: complete_provider_def Let_def split: option.splits prod.splits)
qed

lemma complete_moves:
  assumes env: "\<And>i w. upload_moves us (fst w) (fst (env i w))"
  shows "upload_moves us (fst w) (fst (snd (complete_upload st env now owner k parts w)))"
proof -
  obtain a w1 where e: "expire_owned st now owner k w = (a, w1)" by (cases "expire_owned st now owner k w")
  obtain b w2 where c: "load_owned owner k (complete_claim now parts) (env 1 w1) = (b, w2)"
    by (cases "load_owned owner k (complete_claim now parts) (env 1 w1)")
  have m1: "upload_moves us (fst w) (fst w1)" using expire_owned_moves [of us w st now owner k] e by simp
  have "upload_moves us (fst (env 1 w1)) (fst (snd (load_owned owner k (complete_claim now parts) (env 1 w1))))"
    by (rule load_owned_moves') (rule complete_claim_step)
  with m1 env [of w1 1] c have m2: "upload_moves us (fst w) (fst w2)" by (auto intro: upload_moves_trans)
  have m3: "upload_moves us (fst w) (fst (snd (complete_provider st env now k r ps (env 2 w2))))" for r ps
    by (rule upload_moves_trans [OF m2 upload_moves_trans [OF env [of w2 2] complete_provider_moves [OF env]]])
  have m4: "upload_moves us (fst v) (fst (snd (load_owned owner k (complete_settle h now) (env 3 v))))" for h v
  proof -
    have "upload_moves us (fst (env 3 v)) (fst (snd (load_owned owner k (complete_settle h now) (env 3 v))))"
      by (rule load_owned_moves') (rule complete_settle_step)
    with env [of v 3] show ?thesis by (rule upload_moves_trans)
  qed
  have last: "fst (snd (case x of (Inl e, w) \<Rightarrow> (Inl e, w) | (Inr (Inl e), w) \<Rightarrow> (Inl e, w) | (Inr (Inr q), w) \<Rightarrow> (Inr q, w))) = fst (snd x)"
    for x :: "(error + error + upload_response) \<times> 'a world" by (auto split: prod.splits sum.splits)
  show ?thesis
  proof (cases b)
    case (Inl er)
    with m1 m2 e c show ?thesis by (auto simp: complete_upload_def split: sum.splits)
  next
    case (Inr q)
    show ?thesis
    proof (cases q)
      case (Inl resp)
      with \<open>b = Inr q\<close> m1 m2 e c show ?thesis by (auto simp: complete_upload_def split: sum.splits)
    next
      case (Inr rp)
      obtain r ps where rp: "rp = (r, ps)" by (cases rp)
      obtain h w3 where pr: "complete_provider st env now k r ps (env 2 w2) = (h, w3)"
        by (cases "complete_provider st env now k r ps (env 2 w2)")
      have m5: "upload_moves us (fst w) (fst w3)" using m3 [of r ps] pr by simp
      have "upload_moves us (fst w) (fst (snd (load_owned owner k (complete_settle h' now) (env 3 w3))))" for h'
        by (rule upload_moves_trans [OF m5 m4])
      with m1 m5 \<open>b = Inr q\<close> Inr rp pr e c show ?thesis
        by (auto simp: complete_upload_def last split: sum.splits)
    qed
  qed
qed

lemma cleanup_moves: "upload_moves us (fst w) (fst (snd (cleanup_duplicate st now owner k w)))"
  unfolding cleanup_duplicate_def by (rule load_owned_moves') (rule cleanup_step)

text \<open>The workflow touches no session, and raises no error whose code is the cleanup marker.\<close>

definition analyze_ok :: "(verified_object \<Rightarrow> 's world \<Rightarrow> workflow_outcome \<times> 's world) \<Rightarrow> bool" where
  "analyze_ok analyze \<longleftrightarrow> (\<forall>v w. upload_sessions (fst (snd (analyze v w))) = upload_sessions (fst w)
     \<and> (\<forall>c. fst (analyze v w) = WorkflowError c \<longrightarrow> take 256 c \<noteq> cleanup_pending))"

lemma job_code_ok: "cleanup_body st now owner r w = (Inl e, s) \<Longrightarrow> take 256 (job_code e) \<noteq> cleanup_pending"
proof -
  have "job_code er = ''upload_finalization_failed''" if "source_object_key owner a x = Inl er" for a x er
    using that by (auto simp: source_object_key_def bindE_Inl_iff safe_identifier_def validate_object_key_def unsafe_key_def Let_def
        split: if_splits)
  then show "cleanup_body st now owner r w = (Inl e, s) \<Longrightarrow> take 256 (job_code e) \<noteq> cleanup_pending"
    by (auto simp: cleanup_body_def Let_def split: if_splits sum.splits prod.splits)
qed

lemma cleanup_error:
  "cleanup_duplicate st now owner k w = (Inl e, w') \<Longrightarrow> take 256 (job_code e) \<noteq> cleanup_pending"
  unfolding cleanup_duplicate_def load_owned_def on_session_def
  by (auto split: option.splits prod.splits sum.splits dest: job_code_ok)

lemma analyze_and_record_moves:
  assumes env: "\<And>i w. upload_moves us (fst w) (fst (env i w))" and an: "analyze_ok analyze"
  shows "upload_moves us (fst w) (fst (analyze_and_record st analyze env now owner k v w))"
proof -
  obtain out w1 where a: "analyze v w = (out, w1)" by (cases "analyze v w")
  have "upload_moves us (fst w) (fst w1)"
    using an a by (intro upload_moves_frame) (metis analyze_ok_def snd_conv)
  from upload_moves_trans [OF this env [of w1 3]] have m: "upload_moves us (fst w) (fst (env 3 w1))" .
  have f: "upload_moves us (fst w) (fst (fail_upload now k c (env 3 w1)))" if "take 256 c \<noteq> cleanup_pending" for c
    by (rule upload_moves_trans [OF m fail_upload_moves [OF that]])
  show ?thesis
  proof (cases out)
    case (Analysed result)
    let ?rec = "on_session (\<lambda>r. up_id r = k) (Inr False) (record_result now result) (env 3 w1)"
    obtain b w2 where r: "?rec = (b, w2)" by (cases ?rec)
    have "upload_moves us (fst (env 3 w1)) (fst (snd ?rec))"
      by (rule on_session_moves) (rule record_result_step)
    with m r have m2: "upload_moves us (fst w) (fst w2)" by (auto intro: upload_moves_trans)
    obtain e w3 where c: "cleanup_duplicate st now owner k (env 4 w2) = (e, w3)"
      by (cases "cleanup_duplicate st now owner k (env 4 w2)")
    have m3: "upload_moves us (fst w) (fst w3)"
      using upload_moves_trans [OF m2 upload_moves_trans [OF env [of w2 4] cleanup_moves [of us "env 4 w2" st now owner k]]] c by simp
    have "upload_moves us (fst w) (fst (fail_upload now k (job_code er) (env 5 w3)))" if "e = Inl er" for er
      using upload_moves_trans [OF m3 upload_moves_trans [OF env [of w3 5] fail_upload_moves]] cleanup_error [of st now owner k "env 4 w2" er w3] c that
      by blast
    with m2 m3 show ?thesis
      using a Analysed r c by (auto simp: analyze_and_record_def split: sum.splits bool.splits)
  next
    case (WorkflowError c)
    have "take 256 c \<noteq> cleanup_pending" using an a WorkflowError by (metis analyze_ok_def fst_conv)
    with a WorkflowError f show ?thesis by (simp add: analyze_and_record_def)
  next
    case StoreError
    with a f [of "''object_verification_failed''"] show ?thesis by (simp add: analyze_and_record_def)
  next
    case OtherError
    with a f [of "''upload_finalization_failed''"] show ?thesis by (simp add: analyze_and_record_def)
  qed
qed

lemma verify_object_Inr:
  "verify_object st r s = (Inr (c, n), s') \<Longrightarrow> up_expected_sha256 r = None \<or> up_expected_sha256 r = Some c"
  by (auto simp: verify_object_def Let_def split: json.splits option.splits if_splits prod.splits)

lemma verify_object_Inl:
  "verify_object st r s = (Inl c, s') \<Longrightarrow> take 256 c \<noteq> cleanup_pending"
  by (auto simp: verify_object_def Let_def split: json.splits option.splits if_splits prod.splits)

lemma on_session_Inr:
  assumes "on_session sel absent f w = (Inr x, w')"
  obtains "find sel (upload_sessions (fst w)) = None" "absent = Inr x" "w' = w"
  | r r' s where "find sel (upload_sessions (fst w)) = Some r" "f r w = (Inr (x, r'), s)"
      "w' = (modify_upload (up_id r) (\<lambda>_. r') (fst w), s)"
  using assms by (auto simp: on_session_def split: option.splits prod.splits sum.splits)

lemma written_back:
  "r \<in> set (upload_sessions d) \<Longrightarrow> r' \<in> set (upload_sessions (modify_upload (up_id r) (\<lambda>_. r') d))"
  by (force simp: modify_upload_def in_update_where)

text \<open>The row of a session, later.\<close>

lemma upload_unique:
  "upload_inv us d \<Longrightarrow> r \<in> set (upload_sessions d) \<Longrightarrow> s \<in> set (upload_sessions d) \<Longrightarrow> up_id r = up_id s \<Longrightarrow> r = s"
  by (auto simp: upload_inv_def distinct_map dest: inj_onD)

lemma upload_session_later:
  assumes "upload_later d e" and "upload_inv us e" and "r \<in> set (upload_sessions d)" and "s \<in> set (upload_sessions e)"
    and "up_id s = up_id r"
  shows "session_step r s"
proof -
  from assms(1,3) obtain t where t: "t \<in> set (upload_sessions e)" "session_step r t" by (auto simp: upload_later_def)
  then have "up_id t = up_id r" using same_upload_cols(1) by (auto simp: session_step_def)
  with upload_unique [OF assms(2) t(1) assms(4)] assms(5) t(2) show ?thesis by simp
qed

lemma upload_movesI: "(upload_inv us d \<Longrightarrow> upload_moves us d e) \<Longrightarrow> upload_moves us d e"
  by (simp add: upload_moves_def)

lemma verify_record_moves:
  assumes m: "upload_moves us d (fst w)" and r: "r \<in> set (upload_sessions d)" "up_id r = k"
    and c: "up_expected_sha256 r = None \<or> up_expected_sha256 r = Some c"
  shows "upload_moves us d (fst (snd (on_session (\<lambda>r. up_id r = k) (Inr None) (verify_record now c n) w)))"
proof (rule upload_movesI)
  assume inv: "upload_inv us d"
  then have l: "upload_later d (fst w)" "upload_inv us (fst w)" using m by (simp_all add: upload_moves_def)
  have "upload_moves us (fst w) (fst (snd (on_session (\<lambda>r. up_id r = k) (Inr None) (verify_record now c n) w)))"
  proof (rule on_session_moves)
    fix q x r' s
    assume q: "q \<in> set (upload_sessions (fst w))" "up_id q = k" and v: "verify_record now c n q w = (Inr (x, r'), s)"
    have "session_step r q" by (rule upload_session_later [OF l(1,2) r(1) q(1)]) (simp add: q r)
    then have "up_expected_sha256 q = up_expected_sha256 r" using same_upload_cols(7) by (auto simp: session_step_def)
    with c show "good_step q r'" by (intro verify_record_step [OF v]) simp
  qed
  with m show "upload_moves us d (fst (snd (on_session (\<lambda>r. up_id r = k) (Inr None) (verify_record now c n) w)))"
    by (rule upload_moves_trans)
qed

lemma verify_upload_moves:
  assumes env: "\<And>i w. upload_moves us (fst w) (fst (env i w))" and an: "analyze_ok analyze"
  shows "upload_moves us (fst w) (fst (snd (verify_and_analyze us' st analyze env now k w)))"
proof (cases "find (\<lambda>r. up_id r = k \<and> up_failure_reason r = Some cleanup_pending) (upload_sessions (fst w))")
  case (Some r)
  have "upload_moves us (fst w) (fst (snd (cleanup_duplicate st now (up_owner r) k (env 0 w))))"
    by (rule upload_moves_trans [OF env cleanup_moves])
  with Some show ?thesis by (auto simp: verify_and_analyze_def split: sum.splits prod.splits)
next
  case None
  let ?claim = "on_session (\<lambda>r. up_id r = k) (Inr None) (verify_claim us' now) (env 0 w)"
  obtain a w1 where c: "?claim = (a, w1)" by (cases ?claim)
  have "upload_moves us (fst (env 0 w)) (fst (snd ?claim))"
    by (rule on_session_moves) (rule verify_claim_step)
  then have m1: "upload_moves us (fst w) (fst w1)" using upload_moves_trans [OF env [of w 0]] c by simp
  have m2: "upload_moves us (fst w) (fst (env 1 w1))" by (rule upload_moves_trans [OF m1 env])
  have m3: "upload_moves us (fst w) (fst (env 2 (fst (env 1 w1), s)))" for s
    using upload_moves_trans [OF m2] env [of "(fst (env 1 w1), s)" 2] by simp
  have fail: "upload_moves us (fst w) (fst (fail_upload now k c v))"
    if "upload_moves us (fst w) (fst v)" "take 256 c \<noteq> cleanup_pending" for c v
    by (rule upload_moves_trans [OF that(1) fail_upload_moves [OF that(2)]])
  have run: "upload_moves us (fst w) (fst (analyze_and_record st analyze env now o1 k v u))"
    if "upload_moves us (fst w) (fst u)" for o1 v u
    by (rule upload_moves_trans [OF that analyze_and_record_moves [OF env an]])
  show ?thesis
  proof (cases "\<exists>r. a = Inr (Some r)")
    case False
    with None c m1 show ?thesis by (auto simp: verify_and_analyze_def split: sum.splits option.splits)
  next
    case True
    then obtain r where a: "a = Inr (Some r)" by blast
    show ?thesis
    proof (cases "up_status r = Analyzing")
      case True
      have "upload_moves us (fst w) (fst (fail_upload now k ''verified_checksum_missing'' (env 1 w1)))"
        by (rule fail [OF m2]) simp
      with None c a True m2 run [OF m2] show ?thesis
        by (auto simp: verify_and_analyze_def split: option.splits)
    next
      case False
      obtain v s where v: "verify_object st r (snd (env 1 w1)) = (v, s)" by (cases "verify_object st r (snd (env 1 w1))")
      let ?w2 = "env 2 (fst (env 1 w1), s)"
      show ?thesis
      proof (cases v)
        case (Inl reason)
        with v have "take 256 reason \<noteq> cleanup_pending" by (simp add: verify_object_Inl)
        with None c a False v Inl fail [OF m3] show ?thesis by (simp add: verify_and_analyze_def)
      next
        case (Inr cn)
        obtain ch n where cn: "cn = (ch, n)" by (cases cn)
        let ?rec = "on_session (\<lambda>r. up_id r = k) (Inr None) (verify_record now ch n) ?w2"
        obtain b w3 where b: "?rec = (b, w3)" by (cases ?rec)
        have "r \<in> set (upload_sessions (fst w1)) \<and> up_id r = k"
          using c [unfolded a]
          by (rule on_session_Inr)
            (auto simp: verify_claim_def Let_def split: if_splits dest!: find_Some_in dest: written_back)
        then have "upload_moves us (fst w1) (fst (snd ?rec))"
          using upload_moves_trans [OF env [of w1 1] env [of "(fst (env 1 w1), s)" 2, unfolded fst_conv]] v Inr cn
          by (intro verify_record_moves [of us "fst w1" ?w2 r]) (auto dest: verify_object_Inr)
        with m1 b have m4: "upload_moves us (fst w) (fst w3)" by (auto intro: upload_moves_trans)
        have "upload_moves us (fst w) (fst (fail_upload now k ''upload_finalization_failed'' w3))"
          by (rule fail [OF m4]) simp
        with None c a False v Inr cn b m4 run [OF m4] show ?thesis
          by (auto simp: verify_and_analyze_def split: sum.splits option.splits)
      qed
    qed
  qed
qed

section \<open>Initiation\<close>

lemma insert_moves:
  assumes ins: "insert_upload_session r d = Inr e" and new: "row_ok r" "up_status r = Initiated"
    and room: "active_uploads (up_owner r) d < us_max_active us"
  shows "upload_moves us d e"
  unfolding upload_moves_def
proof
  assume inv: "upload_inv us d"
  have e: "upload_sessions e = upload_sessions d @ [r]" using insert_upload_session_Inr [OF ins] by simp
  have "up_id r \<notin> up_id ` set (upload_sessions d)" "up_storage_key r \<notin> up_storage_key ` set (upload_sessions d)"
    "(up_owner r, up_idempotency_key_hash r) \<notin> (\<lambda>r. (up_owner r, up_idempotency_key_hash r)) ` set (upload_sessions d)"
    using ins by (auto simp: insert_upload_session_def split: if_splits)
  moreover have "active_uploads owner e \<le> us_max_active us" for owner
    using inv room new by (cases "owner = up_owner r") (simp_all add: active_uploads_def e upload_inv_def in_flight_def)
  ultimately have "upload_inv us e" using inv new by (simp add: upload_inv_def e)
  moreover have "upload_later d e" by (auto simp: upload_later_def e)
  ultimately show "upload_inv us e \<and> upload_later d e" ..
qed

lemma initiate_new_Inr:
  assumes "initiate_new us st k now owner rq filename suffix kh fp w = (Inr r, w')"
  obtains key pid s where "active_uploads owner (fst w) < us_max_active us" "source_object_key owner (uuid_hex k) suffix = Inr key"
    "os_initiate st key (clean_content_type (iq_content_type rq)) (uuid_text k) (iq_byte_size rq) (snd w) = (Some pid, s)"
    "r = new_upload us st k now owner rq filename suffix kh fp key pid" "insert_upload_session r (fst w) = Inr (fst w')" "snd w' = s"
  using assms by (auto simp: initiate_new_def Let_def not_le split: if_splits sum.splits prod.splits option.splits)

lemma new_upload_ok:
  "row_ok (new_upload us st k now owner rq f x kh fp key pid)"
  "up_status (new_upload us st k now owner rq f x kh fp key pid) = Initiated"
  "up_owner (new_upload us st k now owner rq f x kh fp key pid) = owner"
  "up_id (new_upload us st k now owner rq f x kh fp key pid) = k"
  by (simp_all add: new_upload_def row_ok_def)

lemma initiate_new_moves:
  assumes "initiate_new us st k now owner rq filename suffix kh fp w = (Inr r, w')"
  shows "upload_moves us (fst w) (fst w')"
  using assms
proof (rule initiate_new_Inr)
  fix key pid s
  assume *: "active_uploads owner (fst w) < us_max_active us"
    "r = new_upload us st k now owner rq filename suffix kh fp key pid" "insert_upload_session r (fst w) = Inr (fst w')"
  show ?thesis by (rule insert_moves [OF *(3)]) (simp_all add: *(1,2) new_upload_ok)
qed

lemma reconciled_rows:
  assumes "upload_inv us d"
  shows "distinct (map up_id (sort_key up_id (filter p (upload_sessions d))))"
    "r \<in> set (sort_key up_id (filter p (upload_sessions d))) \<Longrightarrow> r \<in> set (upload_sessions d)"
proof -
  have "distinct (map up_id (filter p (upload_sessions d)))" using assms by (simp add: upload_inv_def distinct_map_filter)
  then show "distinct (map up_id (sort_key up_id (filter p (upload_sessions d))))"
    by (simp add: distinct_map)
qed simp

lemma initiate_moves: "upload_moves us (fst w) (fst (snd (initiate us st k now owner rq key w)))"
proof (rule upload_movesI)
  assume inv: "upload_inv us (fst w)"
  have replay: "upload_moves us (fst w) (fst (snd (on_session sel a (initiate_replay us st now fp) w)))" for sel and a :: "error + initiate_response" and fp
    by (rule on_session_moves) (rule initiate_replay_step)
  have body: "upload_moves us (fst w) (fst (snd (transact_world (\<lambda>w.
      case expire_all st now (sort_key up_id (filter (reconcilable owner now) (upload_sessions (fst w)))) w of
        (Inl e, w') \<Rightarrow> (Inl e, w')
      | (Inr _, w') \<Rightarrow> initiate_new us st k now owner rq filename suffix kh fp w') w)))" for filename suffix kh fp
  proof (rule transact_world_moves)
    fix x w'
    let ?rows = "sort_key up_id (filter (reconcilable owner now) (upload_sessions (fst w)))"
    assume "(case expire_all st now ?rows w of (Inl e, w') \<Rightarrow> (Inl e, w')
      | (Inr _, w') \<Rightarrow> initiate_new us st k now owner rq filename suffix kh fp w') = (Inr x, w')"
    then obtain w1 where "expire_all st now ?rows w = (Inr (), w1)"
      and n: "initiate_new us st k now owner rq filename suffix kh fp w1 = (Inr x, w')"
      by (auto split: prod.splits sum.splits)
    then have "upload_moves us (fst w) (fst w1)"
      using expire_all_moves [of ?rows w] reconciled_rows [OF inv] by blast
    then show "upload_moves us (fst w) (fst w')" using initiate_new_moves [OF n] by (rule upload_moves_trans)
  qed
  have last: "fst (snd (case x of (Inl e, w') \<Rightarrow> (Inl e, w') | (Inr r, w') \<Rightarrow> (g r, w'))) = fst (snd x)"
    for x :: "(error + upload_session) \<times> 'a world" and g :: "upload_session \<Rightarrow> error + initiate_response"
    by (simp split: prod.splits sum.splits)
  show "upload_moves us (fst w) (fst (snd (initiate us st k now owner rq key w)))"
  proof (cases "bindE (validate_metadata us rq) (\<lambda>(f, x). bindE (validate_idempotency_key key) (\<lambda>key. Inr (f, x, key)))")
    case (Inl e)
    then show ?thesis by (simp add: initiate_def)
  next
    case (Inr fxk)
    then show ?thesis
      unfolding initiate_def Let_def Inr sum.case
      by (cases fxk) (simp only: prod.case split: if_split, simp only: last fst_conv snd_conv replay body upload_moves_refl simp_thms)
  qed
qed

section \<open>Every interleaving\<close>

inductive upload_evolves ::
    "upload_settings \<Rightarrow> 's object_store \<Rightarrow> (verified_object \<Rightarrow> 's world \<Rightarrow> workflow_outcome \<times> 's world)
     \<Rightarrow> 's world \<Rightarrow> 's world \<Rightarrow> bool" for us st analyze where
  same: "upload_evolves us st analyze w w"
| initiate: "upload_evolves us st analyze w0 w \<Longrightarrow>
    upload_evolves us st analyze w0 (snd (initiate us st k now owner rq key w))"
| recover: "upload_evolves us st analyze w0 w \<Longrightarrow>
    upload_evolves us st analyze w0 (snd (recovery us st now owner k resume w))"
| discover: "upload_evolves us st analyze w0 w \<Longrightarrow>
    upload_evolves us st analyze w0 (snd (discover us st now owner w))"
| status: "upload_evolves us st analyze w0 w \<Longrightarrow> upload_evolves us st analyze w0 (snd (get_upload st now owner k w))"
| urls: "upload_evolves us st analyze w0 w \<Longrightarrow> (\<And>i w. upload_evolves us st analyze w (env i w)) \<Longrightarrow>
    upload_evolves us st analyze w0 (snd (create_part_urls us st env now owner k ns w))"
| complete: "upload_evolves us st analyze w0 w \<Longrightarrow> (\<And>i w. upload_evolves us st analyze w (env i w)) \<Longrightarrow>
    upload_evolves us st analyze w0 (snd (complete_upload st env now owner k parts w))"
| verify: "upload_evolves us st analyze w0 w \<Longrightarrow> (\<And>i w. upload_evolves us st analyze w (env i w)) \<Longrightarrow>
    upload_evolves us st analyze w0 (snd (verify_and_analyze us st analyze env now k w))"
| cleanup: "upload_evolves us st analyze w0 w \<Longrightarrow>
    upload_evolves us st analyze w0 (snd (cleanup_duplicate st now owner k w))"
| abort: "upload_evolves us st analyze w0 w \<Longrightarrow> (\<And>i w. upload_evolves us st analyze w (env i w)) \<Longrightarrow>
    upload_evolves us st analyze w0 (snd (abort_upload st env now owner k w))"
| elsewhere: "upload_evolves us st analyze w0 w \<Longrightarrow> upload_sessions (fst w') = upload_sessions (fst w) \<Longrightarrow>
    upload_evolves us st analyze w0 w'"

lemma upload_evolves_moves:
  assumes "upload_evolves us st analyze w0 w" and "analyze_ok analyze"
  shows "upload_moves us (fst w0) (fst w)"
  using assms(1)
proof (induction rule: upload_evolves.induct)
  case (same w)
  then show ?case by simp
next
  case (initiate w0 w k now owner rq key)
  from upload_moves_trans [OF initiate(2) initiate_moves] show ?case .
next
  case (recover w0 w now owner k resume)
  from upload_moves_trans [OF recover(2) recovery_moves] show ?case .
next
  case (discover w0 w now owner)
  from upload_moves_trans [OF discover(2) recover_all_moves] show ?case unfolding discover_def .
next
  case (status w0 w now owner k)
  from upload_moves_trans [OF status(2) get_upload_moves] show ?case .
next
  case (urls w0 w env now owner k ns)
  from upload_moves_trans [OF urls(3) part_urls_moves [where env = env, OF urls(4)]] show ?case .
next
  case (complete w0 w env now owner k parts)
  from upload_moves_trans [OF complete(3) complete_moves [where env = env, OF complete(4)]] show ?case .
next
  case (verify w0 w env now k)
  from upload_moves_trans [OF verify(3) verify_upload_moves [where env = env, OF verify(4) assms(2)]] show ?case .
next
  case (cleanup w0 w now owner k)
  from upload_moves_trans [OF cleanup(2) cleanup_moves] show ?case .
next
  case (abort w0 w env now owner k)
  from upload_moves_trans [OF abort(3) abort_moves [where env = env, OF abort(4)]] show ?case .
next
  case (elsewhere w0 w w')
  from upload_moves_trans [OF elsewhere(3) upload_moves_frame [OF elsewhere(2)]] show ?case .
qed

lemma upload_reachable:
  "upload_evolves us st analyze (empty_db, s0) w \<Longrightarrow> analyze_ok analyze \<Longrightarrow> upload_inv us (fst w)"
  using upload_evolves_moves [of us st analyze "(empty_db, s0)" w]
  by (simp add: upload_moves_def upload_inv_def empty_db_def active_uploads_def)

lemma upload_evolves_later:
  "upload_evolves us st analyze (empty_db, s0) w \<Longrightarrow> upload_evolves us st analyze w w' \<Longrightarrow> analyze_ok analyze \<Longrightarrow>
     upload_later (fst w) (fst w') \<and> upload_inv us (fst w')"
  using upload_evolves_moves [of us st analyze w w'] upload_reachable [of us st analyze s0 w] by (simp add: upload_moves_def)

end
