(* ===== verification/Upload_Demo.thy ===== *)
theory Upload_Demo
  imports Upload_Laws
begin

text \<open>
  A concrete history of one direct upload, to which the properties are applied: user 1 starts
  a two-part upload, completes it, and the verification registers it. The store counts
  its writes and its objects all have the digest \<open>demo_digest\<close>.
\<close>

section \<open>The calls\<close>

definition demo_digest :: string where
  "demo_digest = replicate 64 CHR ''a''"

definition demo_head :: upload_object where
  "demo_head = \<lparr>uo_size = 10, uo_content_type = ''video/mp4'',
     uo_metadata = [''court4-upload-session'' \<mapsto> uuid_text 50, ''court4-declared-size'' \<mapsto> ''10'']\<rparr>"

definition demo_store :: "nat object_store" where
  "demo_store = \<lparr>os_provider = ''s3'', os_initiate = (\<lambda>_ _ _ _ n. (Some ''mpu'', n + 1)),
     os_presign = (\<lambda>_ _ _ _. Some ''url''), os_list_parts = (\<lambda>_ _ _. Some []),
     os_complete = (\<lambda>_ _ _ n. (True, n + 1)), os_abort = (\<lambda>_ _ n. (True, n + 1)),
     os_head = (\<lambda>_ _. Some demo_head), os_identity = (\<lambda>_ _. None), os_sha256 = (\<lambda>_ _. Some demo_digest),
     os_set_verified = (\<lambda>_ _ n. (Some 10, n + 1)), os_delete = (\<lambda>_ n. (True, n + 1))\<rparr>"

definition demo_settings :: upload_settings where
  "demo_settings = \<lparr>us_local = False, us_max_upload_size = 100, us_extensions = [''.mp4''], us_part_size = 6,
     us_session_ttl = 3600, us_presign_ttl = 600, us_lease = 60, us_max_active = 1, us_max_concurrency = 4,
     us_max_attempts = 3, us_inactivity = 60, us_sha256 = id, us_fingerprint = pl_filename, us_metadata_size = (\<lambda>_. 2)\<rparr>"

definition demo_rq :: initiate_request where
  "demo_rq = \<lparr>iq_filename = ''m.mp4'', iq_content_type = ''video/mp4'', iq_byte_size = 10, iq_sport = Pickleball,
     iq_reanalyze = False, iq_expected_sha256 = Some demo_digest, iq_identity = None, iq_metadata = Map.empty\<rparr>"

definition demo_uploader :: user where
  "demo_uploader = \<lparr>usr_id = 1, usr_email = ''a@b.c'', usr_password_hash = ''x'', usr_account_status = Active,
     usr_created_at = 0, usr_updated_at = 0, usr_last_login_at = None, usr_email_verified_at = None,
     usr_password_changed_at = None, usr_display_name = None\<rparr>"

definition demo_analyze :: "verified_object \<Rightarrow> nat world \<Rightarrow> workflow_outcome \<times> nat world" where
  "demo_analyze v w = (Analysed [''status'' \<mapsto> JStr ''processing''], w)"

definition demo_idle :: "nat world" where
  "demo_idle = (empty_db\<lparr>users := [demo_uploader]\<rparr>, 0)"

definition demo_initiate :: "uuid \<Rightarrow> time \<Rightarrow> nat world \<Rightarrow> (error + initiate_response) \<times> nat world" where
  "demo_initiate k t = initiate demo_settings demo_store k t 1 demo_rq ''key''"

definition demo_quiet :: "nat \<Rightarrow> nat world \<Rightarrow> nat world" where
  "demo_quiet i w = w"

definition demo_complete :: "nat world \<Rightarrow> (error + upload_response) \<times> nat world" where
  "demo_complete = complete_upload demo_store demo_quiet 7 1 50
     [\<lparr>cp_number = 2, cp_etag = ''e2''\<rparr>, \<lparr>cp_number = 1, cp_etag = ''e1''\<rparr>]"

definition demo_verify :: "nat world \<Rightarrow> error option \<times> nat world" where
  "demo_verify = verify_and_analyze demo_settings demo_store demo_analyze demo_quiet 8 50"

definition demo_abort :: "nat world \<Rightarrow> (error + upload_response) \<times> nat world" where
  "demo_abort = abort_upload demo_store demo_quiet 6 1 50"

text \<open>A workflow that finds a duplicate, while the store refuses to delete.\<close>

definition demo_duplicate :: "verified_object \<Rightarrow> nat world \<Rightarrow> workflow_outcome \<times> nat world" where
  "demo_duplicate v w = (Analysed [''status'' \<mapsto> JStr ''duplicate'', ''existing_analysis_id'' \<mapsto> JStr ''an-1''], w)"

section \<open>The worlds\<close>

definition demo_open :: "nat world" where "demo_open = snd (demo_initiate 50 5 demo_idle)"
definition demo_closing :: "nat world" where "demo_closing = snd (demo_complete demo_open)"
definition demo_done :: "nat world" where "demo_done = snd (demo_verify demo_closing)"
definition demo_cancelled :: "nat world" where "demo_cancelled = snd (demo_abort demo_open)"
definition demo_pending :: "nat world" where
  "demo_pending = snd (verify_and_analyze demo_settings (demo_store\<lparr>os_delete := (\<lambda>_ n. (False, n + 1))\<rparr>)
     demo_duplicate demo_quiet 8 50 demo_closing)"

definition demo_row :: "nat world \<Rightarrow> upload_session" where
  "demo_row w = hd (upload_sessions (fst w))"

lemma demo_row_in: "length (upload_sessions (fst w)) = 1 \<Longrightarrow> demo_row w \<in> set (upload_sessions (fst w))"
  by (cases "upload_sessions (fst w)") (simp_all add: demo_row_def)

lemma demo_rows_length: "length (upload_sessions (fst demo_open)) = 1" "length (upload_sessions (fst demo_done)) = 1"
  by code_simp+

lemma demo_rows_status: "up_status (demo_row demo_open) = Initiated" "up_status (demo_row demo_done) = UCompleted"
  by code_simp+

lemmas demo_rows = demo_rows_length demo_rows_status

lemma demo_initiated: "case fst (demo_initiate 50 5 demo_idle) of Inl _ \<Rightarrow> False | Inr x \<Rightarrow> ir_direct x"
  by code_simp

lemma demo_initiated_again: "case fst (demo_initiate 51 9 demo_done) of Inl _ \<Rightarrow> False | Inr x \<Rightarrow> ir_id x = Some 50"
  by code_simp

lemma demo_aborted: "case fst (demo_abort demo_open) of Inl _ \<Rightarrow> False | Inr x \<Rightarrow> ur_status x = Aborted"
  by code_simp

lemma demo_active: "active_uploads 1 (fst demo_open) = 1"
  by code_simp

lemma demo_cleaned: "snd (snd (cleanup_duplicate demo_store 9 1 50 demo_pending)) \<noteq> snd demo_pending"
proof -
  have "case demo_pending of (d, n) \<Rightarrow> snd (snd (cleanup_duplicate demo_store 9 1 50 (d, n))) \<noteq> n" by code_simp
  then show ?thesis by (simp add: split_beta)
qed

lemmas demo_answers = demo_initiated demo_initiated_again demo_aborted demo_active demo_cleaned

section \<open>The history\<close>

lemma demo_analyze_ok: "analyze_ok demo_analyze"
  by (simp add: analyze_ok_def demo_analyze_def)

lemma demo_quiet_evolves: "upload_evolves demo_settings demo_store demo_analyze w (demo_quiet i w)"
  by (simp add: demo_quiet_def upload_evolves.same)

lemma demo_reach_idle: "upload_evolves demo_settings demo_store demo_analyze (empty_db, 0) demo_idle"
  by (rule upload_evolves.elsewhere [OF upload_evolves.same]) (simp add: demo_idle_def empty_db_def)

lemma demo_reach_open: "upload_evolves demo_settings demo_store demo_analyze (empty_db, 0) demo_open"
  unfolding demo_open_def demo_initiate_def by (rule upload_evolves.initiate [OF demo_reach_idle])

lemma demo_later: "upload_evolves demo_settings demo_store demo_analyze demo_open demo_done"
  unfolding demo_done_def demo_closing_def demo_verify_def demo_complete_def
  by (intro upload_evolves.verify upload_evolves.complete upload_evolves.same demo_quiet_evolves)

lemma demo_reach_done: "upload_evolves demo_settings demo_store demo_analyze (empty_db, 0) demo_done"
  unfolding demo_done_def demo_closing_def demo_verify_def demo_complete_def
  by (intro upload_evolves.verify upload_evolves.complete demo_reach_open demo_quiet_evolves)

end
