(* ===== verification/Upload_Properties.thy ===== *)
theory Upload_Properties
  imports Upload_Demo
begin

text \<open>
  The correctness properties of direct uploads, under every interleaving
  \<open>upload_evolves\<close> allows and for every object store, applied to a concrete history.
\<close>

section \<open>Lookups\<close>

lemma find_session:
  assumes inv: "upload_inv us d" and r: "r \<in> set (upload_sessions d)" "owned_by owner k r"
  shows "find (owned_by owner k) (upload_sessions d) = Some r"
proof (cases "find (owned_by owner k) (upload_sessions d)")
  case None
  with r show ?thesis by (simp add: find_None_iff)
next
  case (Some s)
  from find_Some_in [OF Some] r have "s \<in> set (upload_sessions d)" "up_id s = up_id r" by (simp_all add: owned_by_def)
  with upload_unique [OF inv, of s r] r Some show ?thesis by simp
qed

lemma find_by_key:
  assumes "upload_inv us d" and "r \<in> set (upload_sessions d)"
  shows "find (\<lambda>s. up_owner s = up_owner r \<and> up_idempotency_key_hash s = up_idempotency_key_hash r) (upload_sessions d) = Some r"
proof -
  have "distinct (map (\<lambda>r. (up_owner r, up_idempotency_key_hash r)) (upload_sessions d))"
    using assms(1) by (simp add: upload_inv_def)
  then have *: "find (\<lambda>s. (up_owner s, up_idempotency_key_hash s) = (up_owner r, up_idempotency_key_hash r)) rows = Some r"
    if "r \<in> set rows" "distinct (map (\<lambda>r. (up_owner r, up_idempotency_key_hash r)) rows)" for rows
    using that by (induction rows) (auto simp: image_iff)
  then show ?thesis using assms by (simp add: upload_inv_def)
qed

lemma final_stays:
  "upload_later d e \<Longrightarrow> r \<in> set (upload_sessions d) \<Longrightarrow> up_status r \<in> {UCompleted, Aborted} \<Longrightarrow> r \<in> set (upload_sessions e)"
  unfolding upload_later_def session_step_def by metis

section \<open>Properties\<close>

text \<open>
  C15: In every reachable database an account has at most the configured number of uploads
  in flight, whatever it starts, loses or cancels.
\<close>

theorem upload_capacity:
  assumes "upload_evolves us st analyze (empty_db, s0) w" and "analyze_ok analyze"
  shows "active_uploads owner (fst w) \<le> us_max_active us"
  using upload_reachable [OF assms] by (simp add: upload_inv_def)

theorem upload_capacity_witness: "active_uploads 1 (fst demo_open) = 1 \<and> active_uploads 1 (fst demo_open) \<le> us_max_active demo_settings"
  using upload_capacity [OF demo_reach_open demo_analyze_ok, of 1] demo_answers by simp





lemma owned_by_cols: "same_upload r s \<Longrightarrow> owned_by owner k s = owned_by owner k r"
  by (simp add: owned_by_def same_upload_cols)

text \<open>What a cancellation leaves when it succeeds.\<close>

lemma abort_row:
  "abort_claim now r w = (Inr (Some x, r'), s) \<Longrightarrow> r' = r \<and> up_status r = Aborted \<and> ur_status x = Aborted"
  "abort_settle st now r w = (Inr (y, r'), s) \<Longrightarrow> same_upload r r' \<and> up_status r' = Aborted \<and> ur_status y = Aborted"
  by (auto simp: abort_claim_def abort_settle_def Let_def status_response_def same_moved split: if_splits prod.splits)

lemma abort_leaves:
  assumes "abort_upload st env now owner k w = (Inr resp, w')"
  shows "\<exists>r\<in>set (upload_sessions (fst w')). owned_by owner k r \<and> up_status r = Aborted \<and> ur_status resp = Aborted"
proof -
  let ?P = "\<exists>r\<in>set (upload_sessions (fst w')). owned_by owner k r \<and> up_status r = Aborted \<and> ur_status resp = Aborted"
  have left: ?P if "load_owned owner k f v = (Inr x, w')"
    "\<And>r r' s. f r v = (Inr (x, r'), s) \<Longrightarrow> same_upload r r' \<and> up_status r' = Aborted \<and> ur_status resp = Aborted" for f v x
    using that(1) unfolding load_owned_def
  proof (rule on_session_Inr)
    fix r r' s
    assume f: "find (owned_by owner k) (upload_sessions (fst v)) = Some r" "f r v = (Inr (x, r'), s)"
      and w': "w' = (modify_upload (up_id r) (\<lambda>_. r') (fst v), s)"
    have "r' \<in> set (upload_sessions (fst w'))" unfolding w' fst_conv using find_Some_in [OF f(1)] by (intro written_back) simp
    with that(2) [OF f(2)] owned_by_cols [of r r'] find_Some_in [OF f(1)] show ?P by blast
  qed simp
  from assms consider
      "load_owned owner k (abort_claim now) w = (Inr (Some resp), w')"
    | v where "load_owned owner k (abort_settle st now) v = (Inr resp, w')"
    by (auto simp: abort_upload_def split: sum.splits prod.splits option.splits)
  then show ?P
  proof cases
    case 1
    then show ?P by (rule left) (drule abort_row(1), simp)
  next
    case (2 v)
    then show ?P by (rule left) (drule abort_row(2), simp)
  qed
qed

lemma expire_owned_final:
  assumes "find (owned_by owner k) (upload_sessions (fst w)) = Some r" and "up_status r = Aborted"
  shows "fst (expire_owned st now owner k w) = Inr ()"
  using assms by (simp add: expire_owned_def load_owned_def on_session_def expire_record_def multipart_open_def)

lemma aborted_refuses:
  assumes inv: "upload_inv us (fst w)" and an: "analyze_ok analyze"
    and env: "\<And>i w. upload_evolves us st analyze w (env i w)"
    and r: "r \<in> set (upload_sessions (fst w))" "owned_by owner k r" "up_status r = Aborted"
  shows "fst (complete_upload st env now owner k parts w) = Inl (JobConflictError ''invalid_upload_state'')
    \<and> fst (create_part_urls us st env now owner k ns w) = Inl (JobConflictError ''invalid_upload_state'')"
proof -
  obtain w' where x: "expire_owned st now owner k w = (Inr (), w')"
    using expire_owned_final [OF find_session [OF inv r(1,2)] r(3), where st = st and now = now] by (metis prod.collapse)
  have "upload_moves us (fst w) (fst (env 1 w'))"
    using upload_moves_trans [OF expire_owned_moves upload_evolves_moves [OF env an]] x by (metis snd_conv)
  with inv have "upload_inv us (fst (env 1 w'))" "r \<in> set (upload_sessions (fst (env 1 w')))"
    using final_stays [OF _ r(1)] r(3) by (auto simp: upload_moves_def)
  from find_session [OF this r(2)]
  have f: "find (owned_by owner k) (upload_sessions (fst (env 1 w'))) = Some r" .
  have "complete_claim now parts r v = (Inl (JobConflictError ''invalid_upload_state''), snd v)"
    "part_urls_body us st now ns r v = (Inl (JobConflictError ''invalid_upload_state''), snd v)" for v
    using r(3) by (simp_all add: complete_claim_def part_urls_body_def multipart_open_def requireE_def bindE_def)
  with x f show ?thesis
    by (simp add: complete_upload_def create_part_urls_def load_owned_def on_session_def)
qed

text \<open>
  C18: Once a cancellation has succeeded, the session can never again be completed or given
  part URLs: at every later time both calls are refused, whatever runs beside them.
\<close>

theorem abort_final:
  assumes reach: "upload_evolves us st analyze (empty_db, s0) w" and an: "analyze_ok analyze"
    and env: "\<And>i w. upload_evolves us st analyze w (env i w)"
    and call: "abort_upload st env now owner k w = (Inr resp, w1)"
    and later: "upload_evolves us st analyze w1 w2"
    and env': "\<And>i w. upload_evolves us st analyze w (env' i w)"
  shows "ur_status resp = Aborted
    \<and> fst (complete_upload st env' now' owner k parts w2) = Inl (JobConflictError ''invalid_upload_state'')
    \<and> fst (create_part_urls us st env' now' owner k ns w2) = Inl (JobConflictError ''invalid_upload_state'')"
proof -
  have r1: "upload_evolves us st analyze (empty_db, s0) w1"
    using upload_evolves.abort [where env = env and now = now and owner = owner and k = k, OF reach env] call by simp
  from abort_leaves [OF call] obtain r where r: "r \<in> set (upload_sessions (fst w1))" "owned_by owner k r" "up_status r = Aborted"
    "ur_status resp = Aborted" by blast
  from upload_evolves_later [OF r1 later an] have inv: "upload_inv us (fst w2)" and l: "upload_later (fst w1) (fst w2)" by simp_all
  have "r \<in> set (upload_sessions (fst w2))" using final_stays [OF l r(1)] r(3) by simp
  from aborted_refuses [where env = env', OF inv an env' this r(2,3)] r(4) show ?thesis by simp
qed

theorem abort_final_witness:
  "fst (complete_upload demo_store demo_quiet 9 1 50 [] demo_cancelled) = Inl (JobConflictError ''invalid_upload_state'')"
proof -
  from demo_answers(3) obtain resp where "fst (demo_abort demo_open) = Inr resp" by (cases "fst (demo_abort demo_open)") simp_all
  then have "demo_abort demo_open = (Inr resp, demo_cancelled)" by (simp add: demo_cancelled_def prod_eq_iff)
  from abort_final [OF demo_reach_open demo_analyze_ok demo_quiet_evolves this [unfolded demo_abort_def] upload_evolves.same demo_quiet_evolves]
  show ?thesis by simp
qed

text \<open>What \<open>initiate\<close> leaves: the session of its key, with its fingerprint.\<close>

lemma initiate_direct:
  assumes call: "initiate us st k now owner rq key w = (Inr resp, w1)" and direct: "ir_direct resp"
  obtains filename suffix c r where "validate_metadata us rq = Inr (filename, suffix)" "validate_idempotency_key key = Inr c"
    "\<not> us_local us" "r \<in> set (upload_sessions (fst w1))" "up_owner r = owner"
    "up_idempotency_key_hash r = us_sha256 us c" "up_request_fingerprint r = request_fingerprint us rq filename"
    "ir_id resp = Some (up_id r)"
proof -
  from call obtain filename suffix c where v: "validate_metadata us rq = Inr (filename, suffix)" "validate_idempotency_key key = Inr c"
    by (auto simp: initiate_def bindE_def split: sum.splits prod.splits)
  have loc: "\<not> us_local us" using call direct v by (auto simp: initiate_def proxy_response_def)
  let ?mine = "\<lambda>r. up_owner r = owner \<and> up_idempotency_key_hash r = us_sha256 us c"
  let ?fp = "request_fingerprint us rq filename"
  show ?thesis
  proof (cases "find ?mine (upload_sessions (fst w))")
    case None
    with call v loc obtain r w2 where
      t: "transact_world (\<lambda>w.
        case expire_all st now (sort_key up_id (filter (reconcilable owner now) (upload_sessions (fst w)))) w of
          (Inl e, w') \<Rightarrow> (Inl e, w')
        | (Inr _, w') \<Rightarrow> initiate_new us st k now owner rq filename suffix (us_sha256 us c) ?fp w') w = (Inr r, w1)"
      and resp: "initiate_response_of us st now False r = Inr resp"
      by (auto simp: initiate_def Let_def split: prod.splits sum.splits)
    then obtain w2 where "initiate_new us st k now owner rq filename suffix (us_sha256 us c) ?fp w2 = (Inr r, w1)"
      by (auto simp: transact_world_def split: prod.splits sum.splits)
    then show ?thesis
    proof (rule initiate_new_Inr)
      fix pkey pid s
      assume r: "r = new_upload us st k now owner rq filename suffix (us_sha256 us c) ?fp pkey pid"
        and ins: "insert_upload_session r (fst w2) = Inr (fst w1)"
      have "r \<in> set (upload_sessions (fst w1))" using insert_upload_session_Inr [OF ins] by simp
      moreover have "ir_id resp = Some (up_id r)" using resp by (auto simp: initiate_response_of_def bindE_Inr_iff)
      ultimately show ?thesis using v loc r by (intro that [of filename suffix c r]) (simp_all add: new_upload_def)
    qed
  next
    case (Some q)
    with call v loc have "on_session ?mine (Inl JobNotFoundError) (initiate_replay us st now ?fp) w = (Inr resp, w1)"
      by (simp add: initiate_def)
    then show ?thesis
    proof (rule on_session_Inr)
      fix r r' s
      assume f: "find ?mine (upload_sessions (fst w)) = Some r" "initiate_replay us st now ?fp r w = (Inr (resp, r'), s)"
        and w1: "w1 = (modify_upload (up_id r) (\<lambda>_. r') (fst w), s)"
      from f(2) obtain b s' where e: "up_request_fingerprint r = ?fp" "expire_record st now r (snd w) = (Inr (b, r'), s')"
        "initiate_response_of us st now True r' = Inr resp"
        by (auto simp: initiate_replay_def bindE_Inr_iff split: if_splits prod.splits sum.splits)
      have "same_upload r r'"
        using e(2) by (auto simp: expire_record_def Let_def same_moved split: if_splits prod.splits)
      note cols = same_upload_cols [OF this]
      have "r' \<in> set (upload_sessions (fst w1))" unfolding w1 fst_conv
        using find_Some_in [OF f(1)] by (intro written_back) simp
      moreover have "ir_id resp = Some (up_id r')" using e(3) by (auto simp: initiate_response_of_def bindE_Inr_iff)
      ultimately show ?thesis using v loc e(1) cols find_Some_in [OF f(1)] by (intro that [of filename suffix c r']) simp_all
    qed simp
  qed
qed

text \<open>
  Once \<open>initiate\<close> has answered an upload session, the same request under the same key
  never creates another: at every later time a successful answer names the same session,
  marked as resumed, and the table has the same sessions as before.
\<close>

theorem initiate_idempotent:
  assumes reach: "upload_evolves us st analyze (empty_db, s0) w" and an: "analyze_ok analyze"
    and first: "initiate us st k now owner rq key w = (Inr resp, w1)" "ir_direct resp"
    and later: "upload_evolves us st analyze w1 w2"
    and again: "initiate us st k' now' owner rq key w2 = (Inr resp', w3)"
  shows "ir_id resp' = ir_id resp \<and> ir_resumed resp'
    \<and> map up_id (upload_sessions (fst w3)) = map up_id (upload_sessions (fst w2))"
  using first
proof (rule initiate_direct)
  fix filename suffix c r
  assume v: "validate_metadata us rq = Inr (filename, suffix)" "validate_idempotency_key key = Inr c" "\<not> us_local us"
    and r: "r \<in> set (upload_sessions (fst w1))" "up_owner r = owner" "up_idempotency_key_hash r = us_sha256 us c"
      "up_request_fingerprint r = request_fingerprint us rq filename" "ir_id resp = Some (up_id r)"
  have "upload_evolves us st analyze (empty_db, s0) w1"
    using upload_evolves.initiate [OF reach, of k now owner rq key] first by simp
  from upload_evolves_later [OF this later an] have l: "upload_later (fst w1) (fst w2)" "upload_inv us (fst w2)" by simp_all
  from l(1) r(1) obtain q where q: "q \<in> set (upload_sessions (fst w2))" "session_step r q" by (auto simp: upload_later_def)
  then have cols: "up_id q = up_id r" "up_owner q = owner" "up_idempotency_key_hash q = us_sha256 us c"
    "up_request_fingerprint q = request_fingerprint us rq filename"
    using same_upload_cols [of r q] r by (simp_all add: session_step_def)
  let ?mine = "\<lambda>r. up_owner r = owner \<and> up_idempotency_key_hash r = us_sha256 us c"
  have f: "find ?mine (upload_sessions (fst w2)) = Some q" using find_by_key [OF l(2) q(1)] cols by simp
  with again v have "on_session ?mine (Inl JobNotFoundError)
      (initiate_replay us st now' (request_fingerprint us rq filename)) w2 = (Inr resp', w3)"
    by (simp add: initiate_def)
  with f obtain q' s where e: "initiate_replay us st now' (request_fingerprint us rq filename) q w2 = (Inr (resp', q'), s)"
    "w3 = (modify_upload (up_id q) (\<lambda>_. q') (fst w2), s)"
    by (auto elim!: on_session_Inr)
  then obtain b s' where x: "expire_record st now' q (snd w2) = (Inr (b, q'), s')" "initiate_response_of us st now' True q' = Inr resp'"
    by (auto simp: initiate_replay_def bindE_Inr_iff split: if_splits prod.splits sum.splits)
  have "up_id q' = up_id q" by (rule expire_step_id [OF x(1)])
  then have "map up_id (upload_sessions (fst w3)) = map up_id (upload_sessions (fst w2))"
    unfolding e(2) fst_conv by (intro upload_tab.keys_modify) simp
  moreover have "ir_id resp' = Some (up_id q') \<and> ir_resumed resp'"
    using x(2) by (auto simp: initiate_response_of_def bindE_Inr_iff)
  ultimately show ?thesis using \<open>up_id q' = up_id q\<close> cols r(5) by simp
qed

theorem initiate_idempotent_witness:
  "\<exists>resp resp'. fst (demo_initiate 50 5 demo_idle) = Inr resp \<and> fst (demo_initiate 51 9 demo_done) = Inr resp'
     \<and> ir_id resp' = ir_id resp \<and> ir_resumed resp'"
proof -
  from demo_answers(1) obtain resp where 1: "fst (demo_initiate 50 5 demo_idle) = Inr resp" "ir_direct resp"
    by (cases "fst (demo_initiate 50 5 demo_idle)") simp_all
  from demo_answers(2) obtain resp' where 2: "fst (demo_initiate 51 9 demo_done) = Inr resp'"
    by (cases "fst (demo_initiate 51 9 demo_done)") simp_all
  have "demo_initiate 50 5 demo_idle = (Inr resp, demo_open)" using 1 by (simp add: demo_open_def prod_eq_iff)
  moreover have "demo_initiate 51 9 demo_done = (Inr resp', snd (demo_initiate 51 9 demo_done))" using 2 by (simp add: prod_eq_iff)
  ultimately have "ir_id resp' = ir_id resp \<and> ir_resumed resp'"
    using initiate_idempotent [OF demo_reach_idle demo_analyze_ok _ 1(2) demo_later] unfolding demo_initiate_def by blast
  with 1 2 show ?thesis by blast
qed

text \<open>
  C21: The cleanup of a duplicate changes the store only by deleting the session's own
  object: the source key of its own allocation, which no analysis has taken over and no
  registered video uses.
\<close>

theorem cleanup_deletes_own:
  assumes call: "cleanup_duplicate st now owner k w = (res, w')" and changed: "snd w' \<noteq> snd w"
  shows "\<exists>r\<in>set (upload_sessions (fst w)). up_id r = k \<and> up_owner r = owner
    \<and> snd w' = snd (os_delete st (up_storage_key r) (snd w))
    \<and> source_object_key owner (up_analysis_id r) (path_suffix (up_filename r)) = Inr (up_storage_key r)
    \<and> get_analysis (fst w) (up_analysis_id r) = None
    \<and> (\<forall>v\<in>set (videos (fst w)). vid_storage_key v \<noteq> Some (up_storage_key r))"
proof -
  from call changed obtain r where f: "find (owned_by owner k) (upload_sessions (fst w)) = Some r"
    by (cases "find (owned_by owner k) (upload_sessions (fst w))") (auto simp: cleanup_duplicate_def load_owned_def on_session_def)
  with call have s: "snd w' = snd (cleanup_body st now owner r w)"
    by (auto simp: cleanup_duplicate_def load_owned_def on_session_def split: prod.splits sum.splits)
  with changed have "cleanup_allowed owner (fst w) r \<and> snd w' = snd (os_delete st (up_storage_key r) (snd w))"
    by (auto simp: cleanup_body_def Let_def split: if_splits sum.splits prod.splits)
  with find_Some_in [OF f] show ?thesis
    by (intro bexI [of _ r]) (auto simp: cleanup_allowed_def owned_by_def Let_def list_ex_iff)
qed

theorem cleanup_deletes_own_witness:
  "\<exists>r\<in>set (upload_sessions (fst demo_pending)). up_id r = 50
     \<and> snd (snd (cleanup_duplicate demo_store 9 1 50 demo_pending)) = snd (os_delete demo_store (up_storage_key r) (snd demo_pending))"
  using cleanup_deletes_own [OF prod.collapse [symmetric] demo_answers(5)] by blast

end
