(* ===== verification/Object_Streams.thy ===== *)
theory Object_Streams
  imports Uploads
begin

text \<open>
  The loops of \<^verbatim>\<open>app/persistence/object_storage.py\<close> over the provider's byte streams and
  pages: the identity of a file, the digest of an object, the bounded lines of a diagnostic
  log and the list of the parts of a multipart upload.

  A stream is a state and its \<open>read\<close>: asked for at most \<open>n\<close> bytes it answers some, none at
  the end, or raises (\<open>None\<close>). Network streams answer less than asked, so the identity
  of a file must not depend on where they cut (\<open>serves\<close>). SHA-256 is a parameter.
\<close>

section \<open>Streams\<close>

type_synonym bytes = "8 word list"

type_synonym 's reader = "nat \<Rightarrow> 's \<Rightarrow> bytes option \<times> 's"

datatype storage_error = ObjectStorageError | ObjectStreamLimitError | ObjectNotFoundError

text \<open>The stream at \<open>s\<close> serves exactly \<open>bs\<close>, in pieces of its own choice.\<close>

coinductive serves :: "'s reader \<Rightarrow> 's \<Rightarrow> bytes \<Rightarrow> bool" for read where
  serve: "(\<And>n. 0 < n \<Longrightarrow> \<exists>k s'. read n s = (Some (take k bs), s') \<and> k \<le> n \<and> (bs \<noteq> [] \<longrightarrow> 0 < k)
      \<and> serves read s' (drop k bs)) \<Longrightarrow> serves read s bs"

text \<open>A stream whose transport delivers at most \<open>m\<close> bytes at a time, a parameter of examples.\<close>

definition short_read :: "nat \<Rightarrow> bytes reader" where
  "short_read m n bs = (Some (take (min m n) bs), drop (min m n) bs)"

lemma servesE:
  assumes "serves read s bs" and "0 < n"
  obtains k s' where "read n s = (Some (take k bs), s')" "k \<le> n" "bs \<noteq> [] \<Longrightarrow> 0 < k" "serves read s' (drop k bs)"
  using assms by (cases rule: serves.cases) blast

lemma serves_short: "0 < m \<Longrightarrow> serves (short_read m) bs bs"
proof (coinduction arbitrary: bs)
  case serves
  have "short_read m n bs = (Some (take (min m n) bs), drop (min m n) bs)" for n by (simp add: short_read_def)
  with serves show ?case by (metis min.cobounded2 min_less_iff_conj)
qed

section \<open>The identity of a file\<close>

definition chunk_bytes :: nat where
  "chunk_bytes = 8388608"

definition ascii :: "string \<Rightarrow> bytes" where
  "ascii = map of_char"

definition hex_text :: "bytes \<Rightarrow> string" where
  "hex_text bs = concat (map (\<lambda>b. hex_of 2 (unat b)) bs)"

text \<open>The inner loop: it ends, for the chunk grows with every block that is not empty.\<close>

function read_chunk :: "'s reader \<Rightarrow> nat \<Rightarrow> bytes \<Rightarrow> 's \<Rightarrow> bytes option \<times> 's" where
  "read_chunk read limit chunk s =
     (if length chunk < limit
      then (case read (limit - length chunk) s of
              (None, s') \<Rightarrow> (None, s')
            | (Some block, s') \<Rightarrow> if block = [] then (Some chunk, s') else read_chunk read limit (chunk @ block) s')
      else (Some chunk, s))"
  by pat_completeness auto

termination
  by (relation "measure (\<lambda>(read, limit, chunk, s). limit - length chunk)") (auto simp: neq_Nil_conv)

declare read_chunk.simps [simp del]

text \<open>The outer loop, over the bytes the hash has been given and their number: a stream need not end.\<close>

partial_function (option) identity_loop ::
    "(bytes \<Rightarrow> bytes) \<Rightarrow> 's reader \<Rightarrow> nat \<Rightarrow> bytes \<Rightarrow> nat \<Rightarrow> 's \<Rightarrow> (bytes \<times> nat) option option" where
  "identity_loop sha read limit fed count s =
     (case read_chunk read limit [] s of
        (None, _) \<Rightarrow> Some None
      | (Some chunk, s') \<Rightarrow>
          if chunk = [] then Some (Some (fed, count))
          else identity_loop sha read limit (fed @ sha chunk) (count + length chunk) s')"

definition identity_text :: "(bytes \<Rightarrow> bytes) \<Rightarrow> bytes \<Rightarrow> nat \<Rightarrow> string" where
  "identity_text sha fed count =
     ''sha256-chunks-v1:'' @ hex_text (sha (fed @ ascii (CHR 0x0A # decimal count)))"

definition stream_file_identity :: "(bytes \<Rightarrow> bytes) \<Rightarrow> 's reader \<Rightarrow> 's \<Rightarrow> (storage_error + string) option" where
  "stream_file_identity sha read s =
     map_option (\<lambda>r. case r of None \<Rightarrow> Inl ObjectStorageError | Some (fed, count) \<Rightarrow> Inr (identity_text sha fed count))
       (identity_loop sha read chunk_bytes (ascii (''court4-file-v1'' @ [CHR 0x0A])) 0 s)"

text \<open>What it computes: the digest of the digests of the 8 MiB chunks of the content.\<close>

function chunks_of :: "nat \<Rightarrow> bytes \<Rightarrow> bytes list" where
  "chunks_of n bs = (if n = 0 \<or> bs = [] then [] else take n bs # chunks_of n (drop n bs))"
  by pat_completeness auto

termination
  by (relation "measure (\<lambda>(n, bs). length bs)") auto

declare chunks_of.simps [simp del]

definition file_identity :: "(bytes \<Rightarrow> bytes) \<Rightarrow> bytes \<Rightarrow> string" where
  "file_identity sha bs = identity_text sha
     (ascii (''court4-file-v1'' @ [CHR 0x0A]) @ concat (map sha (chunks_of chunk_bytes bs))) (length bs)"

lemma read_chunk_serves:
  assumes "serves read s bs" and "length chunk \<le> limit"
  shows "\<exists>s'. read_chunk read limit chunk s = (Some (chunk @ take (limit - length chunk) bs), s')
    \<and> serves read s' (drop (limit - length chunk) bs)"
  using assms
proof (induction "limit - length chunk" arbitrary: chunk s bs rule: less_induct)
  case less
  show ?case
  proof (cases "length chunk < limit")
    case False
    with less.prems show ?thesis by (simp add: read_chunk.simps)
  next
    case True
    then obtain k s' where r: "read (limit - length chunk) s = (Some (take k bs), s')" "k \<le> limit - length chunk"
      "bs \<noteq> [] \<Longrightarrow> 0 < k" "serves read s' (drop k bs)"
      using servesE [OF less.prems(1), of "limit - length chunk"] by auto
    show ?thesis
    proof (cases "bs = []")
      case True
      with r \<open>length chunk < limit\<close> show ?thesis by (simp add: read_chunk.simps)
    next
      case False
      let ?n = "length (take k bs)"
      have n: "0 < ?n" using r(3) [OF False] False by simp
      have "limit - length (chunk @ take k bs) < limit - length chunk" "length (chunk @ take k bs) \<le> limit"
        using True n r(2) length_take [of k bs] unfolding length_append by linarith+
      from less.hyps [OF this(1) r(4) this(2)] obtain t where
        t: "read_chunk read limit (chunk @ take k bs) s'
          = (Some ((chunk @ take k bs) @ take (limit - length (chunk @ take k bs)) (drop k bs)), t)"
          "serves read t (drop (limit - length (chunk @ take k bs)) (drop k bs))" by blast
      have "limit - length chunk = k + (limit - length (chunk @ take k bs)) \<or> length bs < k"
        using r(2) by auto
      then have "take (limit - length chunk) bs = take k bs @ take (limit - length (chunk @ take k bs)) (drop k bs)
        \<and> drop (limit - length chunk) bs = drop (limit - length (chunk @ take k bs)) (drop k bs)"
        using r(2) by (elim disjE) (simp_all add: take_add add.commute)
      with t r(1) True n show ?thesis by (auto simp: read_chunk.simps [of read limit chunk])
    qed
  qed
qed

lemma identity_loop_serves:
  assumes "serves read s bs" and "0 < limit"
  shows "identity_loop sha read limit fed count s
    = Some (Some (fed @ concat (map sha (chunks_of limit bs)), count + length bs))"
  using assms
proof (induction "length bs" arbitrary: bs s fed count rule: less_induct)
  case less
  from read_chunk_serves [OF less.prems(1), of "[]" limit] obtain t where
    c: "read_chunk read limit [] s = (Some (take limit bs), t)" "serves read t (drop limit bs)" by auto
  show ?case
  proof (cases "bs = []")
    case True
    with c show ?thesis by (simp add: identity_loop.simps chunks_of.simps)
  next
    case False
    with less.prems(2) have "length (drop limit bs) < length bs" by simp
    from less.hyps [OF this c(2) less.prems(2), of "fed @ sha (take limit bs)" "count + length (take limit bs)"] False c(1) less.prems(2)
    show ?thesis by (simp add: identity_loop.simps [of sha read limit fed] chunks_of.simps [of limit bs])
  qed
qed

section \<open>The digest of an object\<close>

partial_function (option) digest_loop :: "'s reader \<Rightarrow> nat \<Rightarrow> bytes \<Rightarrow> 's \<Rightarrow> bytes option option" where
  "digest_loop read n fed s =
     (case read n s of
        (None, _) \<Rightarrow> Some None
      | (Some chunk, s') \<Rightarrow> if chunk = [] then Some (Some fed) else digest_loop read n (fed @ chunk) s')"

definition calculate_sha256 :: "(bytes \<Rightarrow> bytes) \<Rightarrow> 's reader \<Rightarrow> nat \<Rightarrow> 's \<Rightarrow> (storage_error + string) option" where
  "calculate_sha256 sha read n s =
     map_option (\<lambda>r. case r of None \<Rightarrow> Inl ObjectStorageError | Some fed \<Rightarrow> Inr (hex_text (sha fed)))
       (digest_loop read n [] s)"

lemma digest_loop_serves: "serves read s bs \<Longrightarrow> 0 < n \<Longrightarrow> digest_loop read n fed s = Some (Some (fed @ bs))"
proof (induction "length bs" arbitrary: bs s fed rule: less_induct)
  case less
  then obtain k s' where r: "read n s = (Some (take k bs), s')" "bs \<noteq> [] \<Longrightarrow> 0 < k" "serves read s' (drop k bs)"
    by (auto elim: servesE)
  show ?case
  proof (cases "bs = []")
    case True
    with r show ?thesis by (simp add: digest_loop.simps)
  next
    case False
    with r have "length (drop k bs) < length bs" by simp
    from less.hyps [OF this r(3) less.prems(2)] r False show ?thesis by (simp add: digest_loop.simps)
  qed
qed

section \<open>The lines of a diagnostic log\<close>

text \<open>
  \<open>late i\<close> is the \<open>i\<close>-th comparison of the clock with the deadline. The inner loop answers
  the lines it yields and either an error or what is left of \<open>pending\<close>.
\<close>

definition line_end :: "bytes \<Rightarrow> nat" where
  "line_end bs = Suc (length (takeWhile (\<lambda>b. b \<noteq> 10) bs))"

function drain :: "int \<Rightarrow> (nat \<Rightarrow> bool) \<Rightarrow> nat \<Rightarrow> bytes \<Rightarrow> bytes list \<times> (storage_error + nat \<times> bytes)" where
  "drain m late i pending =
     (if 10 \<notin> set pending
      then ([], if m < int (length pending) then Inl ObjectStreamLimitError else Inr (i, pending))
      else if m < int (line_end pending) then ([], Inl ObjectStreamLimitError)
      else if late i then ([], Inl ObjectStreamLimitError)
      else (case drain m late (Suc i) (drop (line_end pending) pending) of
              (ls, r) \<Rightarrow> (take (line_end pending) pending # ls, r)))"
  by pat_completeness auto

termination
  by (relation "measure (\<lambda>(m, late, i, pending). length pending)")
    (auto simp: line_end_def intro!: diff_less dest: length_pos_if_in_set)

declare drain.simps [simp del]

record object_metadata =
  om_key :: string
  om_size :: int
  om_checksum :: string
  om_content_type :: string

text \<open>
  The outer loop, which ends on every stream: each block that is not empty brings it closer
  to the byte limit. \<open>fed\<close> are the bytes the hash has been given.
\<close>

function lines_loop ::
    "(bytes \<Rightarrow> bytes) \<Rightarrow> object_metadata \<Rightarrow> int \<Rightarrow> int \<Rightarrow> (nat \<Rightarrow> bool) \<Rightarrow> 's reader \<Rightarrow> nat \<Rightarrow> int \<Rightarrow> bytes \<Rightarrow> bytes
     \<Rightarrow> 's \<Rightarrow> bytes list \<times> storage_error option" where
  "lines_loop sha expected max_bytes m late read i count fed pending s =
     (if late i then ([], Some ObjectStreamLimitError)
      else (case read (nat (min 65536 (max_bytes - count + 1))) s of
          (None, _) \<Rightarrow> ([], Some ObjectStorageError)
        | (Some chunk, s') \<Rightarrow>
            if chunk = []
            then if pending \<noteq> [] \<and> m < int (length pending) then ([], Some ObjectStreamLimitError)
              else (if pending = [] then [] else [pending],
                    if count \<noteq> om_size expected \<or> hex_text (sha fed) \<noteq> om_checksum expected
                    then Some ObjectStorageError else None)
            else let count' = count + int (length chunk) in
              if max_bytes < count' \<or> om_size expected < count' then ([], Some ObjectStreamLimitError)
              else (case drain m late (Suc i) (pending @ chunk) of
                  (ls, Inl e) \<Rightarrow> (ls, Some e)
                | (ls, Inr (i', rest)) \<Rightarrow>
                    (case lines_loop sha expected max_bytes m late read i' count' (fed @ chunk) rest s' of
                       (ls', r) \<Rightarrow> (ls @ ls', r)))))"
  by pat_completeness auto

termination
  by (relation "measure (\<lambda>(sha, expected, max_bytes, m, late, read, i, count, fed, pending, s). nat (max_bytes - count))")
    (auto simp: neq_Nil_conv)

declare lines_loop.simps [simp del]

text \<open>
  The context manager: its checks, and the reader that stops after \<open>want\<close> lines, which is
  refused when the stream is not verified. \<open>body\<close> is the answer of \<open>get_object\<close>.
\<close>

definition diagnostic_stream_lines ::
    "(bytes \<Rightarrow> bytes) \<Rightarrow> object_metadata \<Rightarrow> int \<Rightarrow> int \<Rightarrow> (nat \<Rightarrow> bool) \<Rightarrow> 's reader \<Rightarrow> nat option
     \<Rightarrow> (storage_error + 's) \<Rightarrow> bytes list \<times> storage_error option" where
  "diagnostic_stream_lines sha expected max_bytes m late read want body =
     (if max_bytes < 0 \<or> m < 1 \<or> max_bytes < om_size expected then ([], Some ObjectStreamLimitError)
      else case body of
        Inl e \<Rightarrow> ([], Some e)
      | Inr s \<Rightarrow>
          let (ls, r) = lines_loop sha expected max_bytes m late read 0 0 [] [] s in
          (case want of
             None \<Rightarrow> (ls, r)
           | Some k \<Rightarrow> if k \<le> length ls then (take k ls, Some ObjectStorageError) else (ls, r)))"

text \<open>The lines of a content, and a line as it is yielded.\<close>

function lines_of :: "bytes \<Rightarrow> bytes list" where
  "lines_of bs = (if 10 \<notin> set bs then (if bs = [] then [] else [bs])
     else take (line_end bs) bs # lines_of (drop (line_end bs) bs))"
  by pat_completeness auto

termination
  by (relation "measure length") (auto simp: line_end_def intro!: diff_less dest: length_pos_if_in_set)

declare lines_of.simps [simp del]

definition line_ok :: "int \<Rightarrow> bytes \<Rightarrow> bool" where
  "line_ok m l \<longleftrightarrow> l \<noteq> [] \<and> int (length l) \<le> m \<and> 10 \<notin> set (butlast l)"

definition full_line :: "bytes \<Rightarrow> bool" where
  "full_line l \<longleftrightarrow> l \<noteq> [] \<and> last l = 10 \<and> 10 \<notin> set (butlast l)"

lemma line_end_first: "10 \<notin> set a \<Longrightarrow> line_end (a @ 10 # b) = Suc (length a)"
proof -
  assume "10 \<notin> set a"
  then have "takeWhile (\<lambda>x. x \<noteq> 10) (a @ 10 # b) = a" by (subst takeWhile_append2) auto
  then show ?thesis by (simp add: line_end_def)
qed

lemma first_line:
  assumes "10 \<in> set bs"
  obtains a b where "bs = a @ 10 # b" "10 \<notin> set a" "line_end bs = Suc (length a)"
    "take (line_end bs) bs = a @ [10]" "drop (line_end bs) bs = b"
proof -
  from split_list_first [OF assms] obtain a b where "bs = a @ 10 # b" "10 \<notin> set a" by blast
  with line_end_first [of a b] show ?thesis by (intro that [of a b]) simp_all
qed

lemma full_line_append: "10 \<notin> set a \<Longrightarrow> full_line (a @ [10])"
  by (simp add: full_line_def)

lemma lines_of_first: "10 \<notin> set a \<Longrightarrow> lines_of (a @ 10 # b) = (a @ [10]) # lines_of b"
  by (subst lines_of.simps) (simp add: line_end_first)

lemma lines_of_append: "list_all full_line ls \<Longrightarrow> lines_of (concat ls @ rest) = ls @ lines_of rest"
proof (induction ls)
  case (Cons l ls)
  then obtain a where "l = a @ [10]" "10 \<notin> set a" by (auto simp: full_line_def) (metis append_butlast_last_id)
  with Cons show ?case by (simp add: lines_of_first)
qed simp

lemma drain_yields:
  "drain m late i pending = (ls, r) \<Longrightarrow> \<exists>rest. pending = concat ls @ rest \<and> list_all full_line ls \<and> list_all (line_ok m) ls
     \<and> (\<forall>i' p. r = Inr (i', p) \<longrightarrow> p = rest \<and> 10 \<notin> set rest \<and> int (length rest) \<le> m)"
proof (induction m late i pending arbitrary: ls r rule: drain.induct)
  case (1 m late i pending)
  show ?case
  proof (cases "10 \<in> set pending \<and> \<not> m < int (line_end pending) \<and> \<not> late i")
    case False
    with "1.prems" show ?thesis by (auto simp: drain.simps [of m late i pending] split: if_splits)
  next
    case True
    then obtain a b where ab: "pending = a @ 10 # b" "10 \<notin> set a" "line_end pending = Suc (length a)"
      "take (line_end pending) pending = a @ [10]" "drop (line_end pending) pending = b"
      using first_line [of pending] by metis
    from True "1.prems" obtain ls' where ls': "drain m late (Suc i) b = (ls', r)" "ls = (a @ [10]) # ls'"
      by (auto simp: drain.simps [of m late i pending] ab(4,5) split: prod.splits)
    have "drain m late (Suc i) (drop (line_end pending) pending) = (ls', r)" using ls'(1) ab(5) by simp
    from "1.IH" [OF _ _ _ this] True ab(5) obtain rest where *: "b = concat ls' @ rest" "list_all full_line ls'"
      "list_all (line_ok m) ls'" "\<forall>i' p. r = Inr (i', p) \<longrightarrow> p = rest \<and> 10 \<notin> set rest \<and> int (length rest) \<le> m"
      by simp blast
    have "line_ok m (a @ [10])" using True ab(2,3) by (simp add: line_ok_def)
    then show ?thesis
      unfolding ls'(2) using *(1-3) ab(1) full_line_append [OF ab(2)] by (intro exI [of _ rest] conjI *(4)) simp_all
  qed
qed

text \<open>
  What the loop has yielded, whatever the stream does: complete lines of a content within the
  limits, all of it and verified if it ends without an error.
\<close>

lemma lines_loop_yields:
  "lines_loop sha expected mx m late read i count fed pending s = (ls, r) \<Longrightarrow> 10 \<notin> set pending \<Longrightarrow> count = int (length fed) \<Longrightarrow>
   \<exists>content rest. concat ls @ rest = pending @ content \<and> list_all (line_ok m) ls
     \<and> (content \<noteq> [] \<longrightarrow> count + int (length content) \<le> min mx (om_size expected))
     \<and> (r = None \<longrightarrow> rest = [] \<and> ls = lines_of (pending @ content) \<and> count + int (length content) = om_size expected
         \<and> hex_text (sha (fed @ content)) = om_checksum expected)"
proof (induction sha expected mx m late read i count fed pending s arbitrary: ls r rule: lines_loop.induct)
  case (1 sha expected mx m late read i count fed pending s)
  let ?n = "nat (min 65536 (mx - count + 1))"
  note step = lines_loop.simps [of sha expected mx m late read i count fed pending s]
  show ?case
  proof (cases "\<not> late i \<and> (\<exists>chunk s'. read ?n s = (Some chunk, s') \<and> chunk \<noteq> []
      \<and> count + int (length chunk) \<le> min mx (om_size expected))")
    case False
    then have "(ls = [] \<or> ls = [pending] \<and> pending \<noteq> [] \<and> int (length pending) \<le> m) \<and> (r = None \<longrightarrow>
        ls = (if pending = [] then [] else [pending]) \<and> count = om_size expected \<and> hex_text (sha fed) = om_checksum expected)"
      using "1.prems"(1) by (auto simp: step Let_def not_less split: if_splits option.splits prod.splits)
    with "1.prems"(2) show ?thesis
      by (intro exI [of _ "[]"] exI [of _ "if ls = [] then pending else []"])
        (auto simp: line_ok_def lines_of.simps [of pending] dest: in_set_butlastD split: if_splits)
  next
    case True
    then obtain chunk s' where c: "\<not> late i" "read ?n s = (Some chunk, s')" "chunk \<noteq> []"
      "count + int (length chunk) \<le> min mx (om_size expected)" by blast
    obtain a b where d: "drain m late (Suc i) (pending @ chunk) = (a, b)" by fastforce
    from drain_yields [OF d] obtain p where p: "pending @ chunk = concat a @ p" "list_all full_line a" "list_all (line_ok m) a"
      "\<And>i' q. b = Inr (i', q) \<Longrightarrow> q = p \<and> 10 \<notin> set p" by blast
    show ?thesis
    proof (cases b)
      case (Inl e)
      with "1.prems"(1) c d have "ls = a" "r \<noteq> None" by (auto simp: step Let_def)
      with p c(4) show ?thesis by - (rule exI [of _ chunk], rule exI [of _ p], auto)
    next
      case (Inr x)
      then obtain i' where b: "b = Inr (i', p)" "10 \<notin> set p" using p(4) by (cases x) auto
      obtain ls' r' where l: "lines_loop sha expected mx m late read i' (count + int (length chunk)) (fed @ chunk) p s' = (ls', r')"
        by fastforce
      have e: "ls = a @ ls'" "r = r'" using "1.prems"(1) c d b(1) l by (auto simp: step Let_def)
      have "count + int (length chunk) = int (length (fed @ chunk))" using "1.prems"(3) by simp
      with "1.IH" [OF _ c(2) [symmetric] refl _ refl _ d [symmetric] b(1) refl l b(2)] c obtain content rest where
        *: "concat ls' @ rest = p @ content" "list_all (line_ok m) ls'"
          "content \<noteq> [] \<longrightarrow> count + int (length chunk) + int (length content) \<le> min mx (om_size expected)"
          "r' = None \<longrightarrow> rest = [] \<and> ls' = lines_of (p @ content) \<and> count + int (length chunk) + int (length content) = om_size expected
            \<and> hex_text (sha ((fed @ chunk) @ content)) = om_checksum expected" by auto
      have "lines_of (pending @ chunk @ content) = a @ lines_of (p @ content)"
        using lines_of_append [OF p(2), of "p @ content"] p(1) by (metis append_assoc)
      moreover have "concat ls @ rest = pending @ chunk @ content"
        using p(1) *(1) unfolding e(1) by (metis append_assoc concat_append)
      moreover have "list_all (line_ok m) ls" using e(1) *(2) p(3) by simp
      moreover have "count + int (length (chunk @ content)) \<le> min mx (om_size expected)"
        using *(3) c(4) by (cases "content = []") (simp_all add: add.assoc)
      ultimately show ?thesis
        using *(4) e by - (rule exI [of _ "chunk @ content"], rule exI [of _ rest], auto simp: add.assoc)
    qed
  qed
qed

text \<open>A stream that serves the expected content, read in time.\<close>

lemma lines_prefix:
  "10 \<notin> set p \<Longrightarrow> list_all (\<lambda>l. int (length l) \<le> m) (lines_of (p @ q)) \<Longrightarrow> p \<noteq> [] \<Longrightarrow> int (length p) \<le> m"
proof (cases "10 \<in> set q")
  case False
  moreover assume "10 \<notin> set p" "list_all (\<lambda>l. int (length l) \<le> m) (lines_of (p @ q))" "p \<noteq> []"
  ultimately show ?thesis by (simp add: lines_of.simps [of "p @ q"])
next
  case True
  moreover assume *: "10 \<notin> set p" "list_all (\<lambda>l. int (length l) \<le> m) (lines_of (p @ q))"
  ultimately obtain a b where "q = a @ 10 # b" "10 \<notin> set a" by (metis split_list_first)
  with * lines_of_first [of "p @ a" b] show ?thesis by simp
qed

lemma drain_ok:
  "list_all (\<lambda>l. int (length l) \<le> m) (lines_of (p @ q)) \<Longrightarrow> 0 \<le> m \<Longrightarrow> \<exists>ls i' rest. drain m (\<lambda>_. False) i p = (ls, Inr (i', rest))"
proof (induction "length p" arbitrary: i p rule: less_induct)
  case less
  show ?case
  proof (cases "10 \<in> set p")
    case False
    with lines_prefix [OF False less.prems(1)] less.prems(2) show ?thesis
      by (cases "p = []") (simp_all add: drain.simps)
  next
    case True
    then obtain a b where ab: "p = a @ 10 # b" "10 \<notin> set a" by (metis split_list_first)
    with less.prems(1) have "int (Suc (length a)) \<le> m" "list_all (\<lambda>l. int (length l) \<le> m) (lines_of (b @ q))"
      by (simp_all add: lines_of_first)
    with less.hyps [of b "Suc i"] less.prems(2) ab show ?thesis by (auto simp: drain.simps [of m _ i] line_end_first)
  qed
qed

lemma lines_loop_serves:
  "serves read s bs \<Longrightarrow> 10 \<notin> set pending \<Longrightarrow> count + int (length bs) = om_size expected \<Longrightarrow> om_size expected \<le> mx \<Longrightarrow>
   hex_text (sha (fed @ bs)) = om_checksum expected \<Longrightarrow> list_all (\<lambda>l. int (length l) \<le> m) (lines_of (pending @ bs)) \<Longrightarrow> 0 \<le> m \<Longrightarrow>
   lines_loop sha expected mx m (\<lambda>_. False) read i count fed pending s = (lines_of (pending @ bs), None)"
proof (induction "length bs" arbitrary: bs s i count fed pending rule: less_induct)
  case less
  note step = lines_loop.simps [of sha expected mx m "\<lambda>_. False" read i count fed pending s]
  have "0 < nat (min 65536 (mx - count + 1))" using less.prems(3,4) by simp
  from servesE [OF less.prems(1) this] obtain k s' where
    r: "read (nat (min 65536 (mx - count + 1))) s = (Some (take k bs), s')" "bs \<noteq> [] \<Longrightarrow> 0 < k" "serves read s' (drop k bs)" by metis
  show ?case
  proof (cases "bs = []")
    case True
    have "\<not> m < int (length pending)" if "pending \<noteq> []" using lines_prefix [OF less.prems(2,6) that] by simp
    with True less.prems r(1) show ?thesis unfolding step by (auto simp: lines_of.simps [of pending])
  next
    case False
    let ?c = "take k bs"
    have c: "?c \<noteq> []" "length (drop k bs) < length bs" using r(2) False by simp_all
    have le: "count + int (length ?c) \<le> om_size expected" using less.prems(3) by simp
    have bs: "(pending @ ?c) @ drop k bs = pending @ bs" by simp
    obtain ls i' rest where d: "drain m (\<lambda>_. False) (Suc i) (pending @ ?c) = (ls, Inr (i', rest))"
      using drain_ok [of m "pending @ ?c" "drop k bs"] less.prems(6,7) unfolding bs by blast
    from drain_yields [OF d] have p: "pending @ ?c = concat ls @ rest" "list_all full_line ls" "10 \<notin> set rest" by auto
    have lines: "lines_of (pending @ bs) = ls @ lines_of (rest @ drop k bs)"
      using lines_of_append [OF p(2), of "rest @ drop k bs"] p(1) bs by (metis append_assoc)
    have "count + int (length ?c) + int (length (drop k bs)) = om_size expected" using less.prems(3) by (simp add: min_def)
    moreover have "hex_text (sha ((fed @ ?c) @ drop k bs)) = om_checksum expected" using less.prems(5) by simp
    ultimately have "lines_loop sha expected mx m (\<lambda>_. False) read i' (count + int (length ?c)) (fed @ ?c) rest s'
        = (lines_of (rest @ drop k bs), None)"
      using less.prems(4,6,7) lines p(3) r(3) by (intro less.hyps c(2)) simp_all
    then show ?thesis
      using r(1) c(1) d le less.prems(4) lines unfolding step by (simp add: Let_def del: take_eq_Nil length_take)
  qed
qed

section \<open>The parts of a multipart upload\<close>

text \<open>A page of the answer of \<open>list_parts\<close>; \<open>None\<close> is a marker that is missing or no number.\<close>

record parts_page =
  pg_parts :: "stored_part list"
  pg_truncated :: bool
  pg_next :: "int option"

text \<open>\<open>for _ in range(11)\<close>.\<close>

fun list_parts_loop ::
    "(int \<Rightarrow> 's \<Rightarrow> (storage_error + parts_page) \<times> 's) \<Rightarrow> nat \<Rightarrow> int \<Rightarrow> stored_part list \<Rightarrow> 's
     \<Rightarrow> (storage_error + stored_part list) \<times> 's" where
  "list_parts_loop page 0 marker parts s = (Inl ObjectStorageError, s)"
| "list_parts_loop page (Suc n) marker parts s =
     (case page marker s of
        (Inl e, s') \<Rightarrow> (Inl e, s')
      | (Inr p, s') \<Rightarrow>
          let parts = parts @ pg_parts p in
          if 10000 < length parts then (Inl ObjectStorageError, s')
          else if \<not> pg_truncated p then (Inr parts, s')
          else (case pg_next p of
                  None \<Rightarrow> (Inl ObjectStorageError, s')
                | Some next \<Rightarrow>
                    if next \<le> marker then (Inl ObjectStorageError, s')
                    else list_parts_loop page n next parts s'))"

definition list_multipart_parts ::
    "(int \<Rightarrow> 's \<Rightarrow> (storage_error + parts_page) \<times> 's) \<Rightarrow> 's \<Rightarrow> (storage_error + stored_part list) \<times> 's" where
  "list_multipart_parts page s = list_parts_loop page 11 0 [] s"

text \<open>A provider that pages through \<open>ps\<close> as documented: the next thousand parts after the marker.\<close>

definition provider_page :: "stored_part list \<Rightarrow> int \<Rightarrow> 's \<Rightarrow> (storage_error + parts_page) \<times> 's" where
  "provider_page ps marker s =
     (let rest = filter (\<lambda>p. marker < pt_number p) ps in
      (Inr \<lparr>pg_parts = take 1000 rest, pg_truncated = (1000 < length rest),
            pg_next = (if rest = [] then None else Some (pt_number (last (take 1000 rest))))\<rparr>, s))"

text \<open>A provider whose requests are counted.\<close>

definition counted :: "(int \<Rightarrow> 's \<Rightarrow> (storage_error + parts_page) \<times> 's) \<Rightarrow> int \<Rightarrow> 's \<times> nat \<Rightarrow> (storage_error + parts_page) \<times> 's \<times> nat" where
  "counted page marker = (\<lambda>(s, n). case page marker s of (r, s') \<Rightarrow> (r, s', Suc n))"

lemma filter_after:
  "sorted_wrt (<) (map pt_number (xs @ ys)) \<Longrightarrow> xs \<noteq> [] \<Longrightarrow> filter (\<lambda>p. pt_number (last xs) < pt_number p) (xs @ ys) = ys"
  by (cases xs rule: rev_cases) (fastforce simp: sorted_wrt_append filter_id_conv filter_empty_conv)+

lemma list_parts_loop_provider:
  assumes "sorted_wrt (<) (map pt_number ps)"
  shows "filter (\<lambda>p. marker < pt_number p) ps = rest \<Longrightarrow> ps = done @ rest \<Longrightarrow> length ps \<le> 10000 \<Longrightarrow> length rest \<le> 1000 * n
    \<Longrightarrow> 0 < n \<Longrightarrow> list_parts_loop (provider_page ps) n marker done s = (Inr ps, s)"
proof (induction n arbitrary: marker rest "done")
  case (Suc n)
  show ?case
  proof (cases "1000 < length rest")
    case False
    have "provider_page ps marker s = (Inr \<lparr>pg_parts = rest, pg_truncated = False,
        pg_next = (if rest = [] then None else Some (pt_number (last rest)))\<rparr>, s)"
      using False unfolding provider_page_def Suc.prems(1) Let_def by simp
    moreover have "length (done @ rest) \<le> 10000" using Suc.prems(2,3) by simp
    ultimately show ?thesis using Suc.prems(2) by (simp add: Let_def)
  next
    case True
    let ?next = "pt_number (last (take 1000 rest))"
    have t: "take 1000 rest \<noteq> []" "rest \<noteq> []" using True by auto
    then have "last (take 1000 rest) \<in> set rest" using last_in_set in_set_takeD by metis
    then have "marker < ?next" using Suc.prems(1) by auto
    moreover have "ps = (done @ take 1000 rest) @ drop 1000 rest" using Suc.prems(2) by simp
    moreover from this have "filter (\<lambda>p. ?next < pt_number p) ps = drop 1000 rest"
      using filter_after [of "done @ take 1000 rest" "drop 1000 rest"] assms t by simp
    ultimately have "list_parts_loop (provider_page ps) n ?next (done @ take 1000 rest) s = (Inr ps, s)"
      using Suc.prems True by (intro Suc.IH) auto
    moreover have "length (done @ take 1000 rest) \<le> 10000" using Suc.prems(2,3) True by simp
    moreover have "provider_page ps marker s = (Inr \<lparr>pg_parts = take 1000 rest, pg_truncated = True, pg_next = Some ?next\<rparr>, s)"
      using True t(2) unfolding provider_page_def Suc.prems(1) Let_def by simp
    ultimately show ?thesis using \<open>marker < ?next\<close> by (simp add: Let_def)
  qed
qed simp

lemma list_parts_loop_bound: "list_parts_loop page n marker parts s = (Inr ps, s') \<Longrightarrow> length ps \<le> 10000"
  by (induction n arbitrary: marker parts s) (auto simp: Let_def split: sum.splits prod.splits if_splits option.splits)

lemma counted_call: "counted page m (s, k) = (fst (page m s), snd (page m s), Suc k)"
  by (simp add: counted_def split: prod.split)

lemma list_parts_loop_count: "snd (snd (list_parts_loop (counted page) n marker parts (s, k))) \<le> k + n"
proof (induction n arbitrary: marker parts s k)
  case (Suc n)
  have "snd (snd (list_parts_loop (counted page) n m ps (t, Suc k))) \<le> k + Suc n" for m ps t
    using Suc.IH [of m ps t "Suc k"] by simp
  then show ?case by (auto simp: counted_call Let_def split: sum.split option.split)
qed simp

section \<open>Properties\<close>

text \<open>Three bytes, read one at a time, and a demo digest that is the content itself.\<close>

definition demo_bytes :: bytes where
  "demo_bytes = [97, 10, 98]"

definition demo_log :: object_metadata where
  "demo_log = \<lparr>om_key = ''k'', om_size = 3, om_checksum = ''610a62'', om_content_type = ''t''\<rparr>"

lemma demo_serves: "serves (short_read 1) demo_bytes demo_bytes"
  by (simp add: serves_short)

text \<open>
  C19: The identity of a file does not depend on how the stream cuts its content: from
  every stream that serves a content it is returned, and it is the digest of the digests
  of the 8 MiB chunks and the length.
\<close>

theorem file_identity_blocks:
  assumes "serves read s bs"
  shows "stream_file_identity sha read s = Some (Inr (file_identity sha bs))"
  using identity_loop_serves [OF assms, of chunk_bytes]
  by (simp add: stream_file_identity_def file_identity_def chunk_bytes_def)

theorem file_identity_blocks_witness:
  "stream_file_identity id (short_read 1) demo_bytes = Some (Inr (file_identity id demo_bytes))"
  by (rule file_identity_blocks [OF demo_serves])

text \<open>
  Whatever the provider streams, a reader of a diagnostic log is only given lines within
  the line limit and no more bytes than registered; if it ends without an error, it was
  given exactly the lines of a content of the registered size and checksum.
\<close>

theorem diagnostic_lines_verified:
  assumes "diagnostic_stream_lines sha expected mx m late read want body = (ls, r)"
  shows "list_all (line_ok m) ls \<and> int (length (concat ls)) \<le> max 0 (om_size expected)
    \<and> (r = None \<longrightarrow> ls = lines_of (concat ls) \<and> int (length (concat ls)) = om_size expected
        \<and> hex_text (sha (concat ls)) = om_checksum expected)"
proof (cases "\<exists>s. body = Inr s \<and> \<not> (mx < 0 \<or> m < 1 \<or> mx < om_size expected)")
  case False
  with assms have "ls = [] \<and> r \<noteq> None" by (cases body) (auto simp: diagnostic_stream_lines_def split: if_splits)
  then show ?thesis by auto
next
  case True
  then obtain s where b: "body = Inr s" "\<not> (mx < 0 \<or> m < 1 \<or> mx < om_size expected)" by blast
  obtain as q where l: "lines_loop sha expected mx m late read 0 0 [] [] s = (as, q)" by fastforce
  from lines_loop_yields [OF l] obtain content rest where c: "concat as @ rest = content" "list_all (line_ok m) as"
    "content \<noteq> [] \<longrightarrow> int (length content) \<le> min mx (om_size expected)"
    "q = None \<longrightarrow> rest = [] \<and> as = lines_of content \<and> int (length content) = om_size expected
      \<and> hex_text (sha content) = om_checksum expected" by auto
  from assms b l have "(ls = as \<and> r = q) \<or> (\<exists>k. ls = take k as \<and> r \<noteq> None)"
    by (auto simp: diagnostic_stream_lines_def split: option.splits if_splits)
  then obtain k where k: "ls = take k as" "r = None \<longrightarrow> ls = as \<and> q = None" by (metis order_refl take_all)
  have "concat ls @ concat (drop k as) @ rest = content" using c(1) k(1) by (metis append_assoc append_take_drop_id concat_append)
  then have "length (concat ls) \<le> length content" by (metis le_add1 length_append)
  then have "int (length (concat ls)) \<le> int (length content)" by simp
  also have "\<dots> \<le> max 0 (om_size expected)" using c(3) by (cases "content = []") auto
  finally have "int (length (concat ls)) \<le> max 0 (om_size expected)" .
  moreover have "list_all (line_ok m) ls" using c(2) unfolding k(1) by (auto simp: list_all_iff dest: in_set_takeD)
  moreover have "r = None \<longrightarrow> concat ls = content" using c(1,4) k(2) by auto
  ultimately show ?thesis using c(4) k(2) by auto
qed

theorem diagnostic_lines_verified_witness:
  "\<exists>ls. diagnostic_stream_lines id demo_log 9 2 (\<lambda>_. False) (short_read 1) None (Inr demo_bytes) = (ls, None)
     \<and> list_all (line_ok 2) ls \<and> ls = lines_of (concat ls) \<and> hex_text (concat ls) = ''610a62''"
proof -
  obtain ls r where c: "diagnostic_stream_lines id demo_log 9 2 (\<lambda>_. False) (short_read 1) None (Inr demo_bytes) = (ls, r)"
    by fastforce
  have "snd (diagnostic_stream_lines id demo_log 9 2 (\<lambda>_. False) (short_read 1) None (Inr demo_bytes)) = None" by code_simp
  with c have "r = None" by simp
  with diagnostic_lines_verified [OF c] c show ?thesis by (simp add: demo_log_def)
qed

text \<open>
  From a stream that serves the registered content, read in time, with lines within
  the limit, the reader is given all its lines and no error, however the stream cuts it.
\<close>

theorem diagnostic_lines_served:
  assumes "serves read s bs" and "int (length bs) = om_size expected" and "om_size expected \<le> mx"
    and "hex_text (sha bs) = om_checksum expected" and "list_all (\<lambda>l. int (length l) \<le> m) (lines_of bs)" and "1 \<le> m"
  shows "diagnostic_stream_lines sha expected mx m (\<lambda>_. False) read None (Inr s) = (lines_of bs, None)"
  using lines_loop_serves [OF assms(1), of "[]" 0 expected mx sha "[]" m] assms(2-)
  by (simp add: diagnostic_stream_lines_def)

theorem diagnostic_lines_served_witness:
  "diagnostic_stream_lines id demo_log 9 2 (\<lambda>_. False) (short_read 1) None (Inr demo_bytes) = ([[97, 10], [98]], None)"
proof -
  have l: "lines_of demo_bytes = [[97, 10], [98]]" by code_simp
  have "hex_text demo_bytes = ''610a62''" by code_simp
  then show ?thesis
    using diagnostic_lines_served [OF demo_serves, of demo_log 9 id 2] l
    by (simp add: demo_bytes_def demo_log_def)
qed

text \<open>
  A provider that pages through its parts as documented, at most ten thousand of
  ascending numbers, has all of them listed, in order.
\<close>

theorem list_parts_complete:
  assumes "sorted_wrt (<) (map pt_number ps)" and "\<forall>p\<in>set ps. 0 < pt_number p" and "length ps \<le> 10000"
  shows "list_multipart_parts (provider_page ps) s = (Inr ps, s)"
  unfolding list_multipart_parts_def
  by (rule list_parts_loop_provider [OF assms(1), of 0 ps]) (use assms in auto)

theorem list_parts_complete_witness:
  "list_multipart_parts (provider_page [\<lparr>pt_number = 1, pt_etag = ''a'', pt_size = 6\<rparr>, \<lparr>pt_number = 3, pt_etag = ''b'', pt_size = 4\<rparr>]) ()
     = (Inr [\<lparr>pt_number = 1, pt_etag = ''a'', pt_size = 6\<rparr>, \<lparr>pt_number = 3, pt_etag = ''b'', pt_size = 4\<rparr>], ())"
  by (rule list_parts_complete) simp_all

text \<open>
  C20: Whatever the provider answers, the listing ends after at most eleven requests, with an
  error or at most ten thousand parts.
\<close>

theorem list_parts_bounded:
  "snd (snd (list_multipart_parts (counted page) (s, 0))) \<le> 11
   \<and> (case fst (list_multipart_parts page s) of Inl _ \<Rightarrow> True | Inr ps \<Rightarrow> length ps \<le> 10000)"
  using list_parts_loop_count [of page 11 0 "[]" s 0] list_parts_loop_bound [of page 11 0 "[]" s]
  unfolding list_multipart_parts_def by (cases "list_parts_loop page 11 0 [] s") (auto split: sum.split)

end
