(* ===== verification/Capacity.thy ===== *)
theory Capacity
  imports Uploads
begin

text \<open>
  The admission control of the local workspace (\<^verbatim>\<open>app/persistence/storage.py\<close>): the tables of
  reserved bytes and of active reservations, one entry per storage root of the process, and
  the reservations that hold them. The repository (\<^verbatim>\<open>app/services/jobs/repository.py\<close>) and the
  workflow (\<^verbatim>\<open>app/services/jobs/workflow.py\<close>) take and release them.

  The class variables and the reservations a process has handed out are a \<open>capacity_world\<close>;
  a reservation object is its index. The locks make an operation one step. What
  \<open>shutil.disk_usage\<close> answers is an argument. Of a snapshot the measured values are
  modelled, not the names of the deployment; its log record is not.
\<close>

section \<open>Admissions\<close>

datatype admission = AdmitProcessing | AdmitRead
datatype capacity_decision = CapAccepted | CapWarning | CapActiveLimit | CapHardStop
datatype capacity_state = SpaceAvailable | SpaceWarning | SpaceHardStop

record disk_usage =
  du_total :: int
  du_used :: int
  du_free :: int

record capacity_request =
  cr_requested :: int
  cr_warning :: int
  cr_hard_stop :: int
  cr_max_uploads :: int
  cr_admission :: admission
  cr_max_reads :: int

record capacity_snapshot =
  cs_root :: string
  cs_total :: "int option"
  cs_used :: "int option"
  cs_free :: "int option"
  cs_reserved :: int
  cs_requested :: int
  cs_free_after :: "int option"
  cs_warning :: int
  cs_hard_stop :: int
  cs_active :: int
  cs_max_active :: int
  cs_decision :: capacity_decision
  cs_admission :: admission

datatype capacity_error =
    CapValueError
  | CapRuntimeError
  | CapacityUnavailable capacity_decision capacity_snapshot

record capacity_status =
  ct_state :: capacity_state
  ct_free :: int
  ct_reserved :: int
  ct_requested :: int

record capacity =
  cp_reserved :: "string \<rightharpoonup> int"
  cp_active :: "string \<rightharpoonup> int"
  cp_reads :: "string \<rightharpoonup> int"

record storage_reservation =
  sr_root :: string
  sr_reserved :: int
  sr_admission :: admission
  sr_max_uploads :: int
  sr_max_reads :: int
  sr_released :: bool

text \<open>\<open>table.get(root, 0)\<close>.\<close>

definition count_at :: "(string \<rightharpoonup> int) \<Rightarrow> string \<Rightarrow> int" where
  "count_at t rt = (case t rt of None \<Rightarrow> 0 | Some n \<Rightarrow> n)"

definition capacity_status ::
    "string \<Rightarrow> disk_usage \<Rightarrow> int \<Rightarrow> int \<Rightarrow> int \<Rightarrow> capacity \<Rightarrow> capacity_error + capacity_status" where
  "capacity_status rt disk requested warning hard c =
     (if requested < 0 then Inl CapValueError
      else let reserved = count_at (cp_reserved c) rt; after = du_free disk - reserved - requested in
        Inr \<lparr>ct_state = (if after < hard then SpaceHardStop else if after < warning then SpaceWarning else SpaceAvailable),
             ct_free = du_free disk, ct_reserved = reserved, ct_requested = requested\<rparr>)"

definition capacity_snapshot ::
    "string \<Rightarrow> disk_usage option \<Rightarrow> int option \<Rightarrow> capacity_decision \<Rightarrow> capacity_request \<Rightarrow> capacity \<Rightarrow> capacity_snapshot" where
  "capacity_snapshot rt disk after decision rq c =
     \<lparr>cs_root = rt, cs_total = map_option du_total disk, cs_used = map_option du_used disk,
      cs_free = map_option du_free disk, cs_reserved = count_at (cp_reserved c) rt,
      cs_requested = cr_requested rq, cs_free_after = after, cs_warning = cr_warning rq,
      cs_hard_stop = cr_hard_stop rq, cs_active = count_at (cp_active c) rt,
      cs_max_active = cr_max_uploads rq, cs_decision = decision, cs_admission = cr_admission rq\<rparr>"

definition at_limit :: "string \<Rightarrow> capacity_request \<Rightarrow> capacity \<Rightarrow> bool" where
  "at_limit rt rq c \<longleftrightarrow> (case cr_admission rq of
       AdmitProcessing \<Rightarrow> cr_max_uploads rq \<le> count_at (cp_active c) rt
     | AdmitRead \<Rightarrow> cr_max_reads rq \<le> count_at (cp_reads c) rt)"

text \<open>The reservation of one caller: the bytes and one of the active places.\<close>

definition take_place :: "admission \<Rightarrow> string \<Rightarrow> capacity \<Rightarrow> capacity" where
  "take_place ad rt c = (case ad of
       AdmitProcessing \<Rightarrow> c\<lparr>cp_active := (cp_active c)(rt \<mapsto> count_at (cp_active c) rt + 1)\<rparr>
     | AdmitRead \<Rightarrow> c\<lparr>cp_reads := (cp_reads c)(rt \<mapsto> count_at (cp_reads c) rt + 1)\<rparr>)"

definition reserve_capacity ::
    "string \<Rightarrow> disk_usage \<Rightarrow> capacity_request \<Rightarrow> capacity
     \<Rightarrow> capacity_error + storage_reservation \<times> capacity_status \<times> capacity" where
  "reserve_capacity rt disk rq c =
     (if cr_max_uploads rq < 1 \<or> cr_max_reads rq < 1 then Inl CapValueError
      else if at_limit rt rq c
      then Inl (CapacityUnavailable CapActiveLimit (capacity_snapshot rt None None CapActiveLimit rq c))
      else let reserved = count_at (cp_reserved c) rt; after = du_free disk - reserved - cr_requested rq in
        if after < cr_hard_stop rq
        then Inl (CapacityUnavailable CapHardStop (capacity_snapshot rt (Some disk) (Some after) CapHardStop rq c))
        else Inr
          (\<lparr>sr_root = rt, sr_reserved = cr_requested rq, sr_admission = cr_admission rq,
            sr_max_uploads = cr_max_uploads rq, sr_max_reads = cr_max_reads rq, sr_released = False\<rparr>,
           \<lparr>ct_state = (if after < cr_warning rq then SpaceWarning else SpaceAvailable),
            ct_free = du_free disk, ct_reserved = reserved, ct_requested = cr_requested rq\<rparr>,
           take_place (cr_admission rq) rt
             (c\<lparr>cp_reserved := (cp_reserved c)(rt \<mapsto> reserved + cr_requested rq)\<rparr>)))"

definition extend_capacity ::
    "string \<Rightarrow> disk_usage \<Rightarrow> capacity_request \<Rightarrow> capacity \<Rightarrow> capacity_error + capacity" where
  "extend_capacity rt disk rq c =
     (if cr_requested rq < 0 then Inl CapValueError
      else if cr_requested rq = 0 then Inr c
      else let reserved = count_at (cp_reserved c) rt; after = du_free disk - reserved - cr_requested rq in
        if after < cr_hard_stop rq
        then Inl (CapacityUnavailable CapHardStop (capacity_snapshot rt None (Some after) CapHardStop rq c))
        else Inr (c\<lparr>cp_reserved := (cp_reserved c)(rt \<mapsto> reserved + cr_requested rq)\<rparr>))"

text \<open>An entry that falls to zero is removed.\<close>

definition lower_to :: "int \<Rightarrow> string \<Rightarrow> (string \<rightharpoonup> int) \<Rightarrow> (string \<rightharpoonup> int)" where
  "lower_to n rt t = (if n \<noteq> 0 then t(rt \<mapsto> n) else t(rt := None))"

definition release_capacity :: "string \<Rightarrow> int \<Rightarrow> admission \<Rightarrow> capacity \<Rightarrow> capacity" where
  "release_capacity rt bytes ad c =
     (let remaining = max 0 (count_at (cp_reserved c) rt - bytes);
          c = c\<lparr>cp_reserved := lower_to remaining rt (cp_reserved c)\<rparr> in
      case ad of
        AdmitProcessing \<Rightarrow>
          c\<lparr>cp_active := lower_to (max 0 (count_at (cp_active c) rt - 1)) rt (cp_active c)\<rparr>
      | AdmitRead \<Rightarrow>
          c\<lparr>cp_reads := lower_to (max 0 (count_at (cp_reads c) rt - 1)) rt (cp_reads c)\<rparr>)"

section \<open>Reservations\<close>

record capacity_world =
  cw_tables :: capacity
  cw_objects :: "storage_reservation list"

definition open_reservation ::
    "string \<Rightarrow> disk_usage \<Rightarrow> capacity_request \<Rightarrow> capacity_world
     \<Rightarrow> (capacity_error + nat \<times> capacity_status) \<times> capacity_world" where
  "open_reservation rt disk rq w =
     (case reserve_capacity rt disk rq (cw_tables w) of
        Inl e \<Rightarrow> (Inl e, w)
      | Inr (r, st, c) \<Rightarrow>
          (Inr (length (cw_objects w), st), \<lparr>cw_tables = c, cw_objects = cw_objects w @ [r]\<rparr>))"

text \<open>\<open>StorageReservation.extend\<close> and \<open>release\<close>, of the \<open>i\<close>-th reservation.\<close>

definition extend_reservation ::
    "nat \<Rightarrow> disk_usage \<Rightarrow> int \<Rightarrow> int \<Rightarrow> int \<Rightarrow> capacity_world \<Rightarrow> (capacity_error + unit) \<times> capacity_world" where
  "extend_reservation i disk requested warning hard w =
     (let r = cw_objects w ! i in
      if sr_released r then (Inl CapRuntimeError, w)
      else case extend_capacity (sr_root r) disk
          \<lparr>cr_requested = requested, cr_warning = warning, cr_hard_stop = hard,
           cr_max_uploads = sr_max_uploads r, cr_admission = sr_admission r, cr_max_reads = sr_max_reads r\<rparr>
          (cw_tables w) of
        Inl e \<Rightarrow> (Inl e, w)
      | Inr c \<Rightarrow>
          (Inr (), \<lparr>cw_tables = c, cw_objects = (cw_objects w)[i := r\<lparr>sr_reserved := sr_reserved r + requested\<rparr>]\<rparr>))"

definition release_reservation :: "nat \<Rightarrow> capacity_world \<Rightarrow> capacity_world" where
  "release_reservation i w =
     (let r = cw_objects w ! i in
      if sr_released r then w
      else \<lparr>cw_tables = release_capacity (sr_root r) (sr_reserved r) (sr_admission r) (cw_tables w),
            cw_objects = (cw_objects w)[i := r\<lparr>sr_released := True\<rparr>]\<rparr>)"

section \<open>The workspace of a repository\<close>

text \<open>
  One \<open>AnalysisJobRepository\<close>: its settings, and the reservations it holds for reads and for
  processing. \<open>rp_reading\<close> is the context variable \<open>bounded_artifact_read\<close> sets.
\<close>

record repository =
  rp_local :: bool
  rp_root :: string
  rp_warning :: "int option"
  rp_hard_stop :: "int option"
  rp_max_active :: int
  rp_reading :: bool
  rp_read :: "nat option"
  rp_workspace :: "nat option"

definition max_read_workspace :: int where "max_read_workspace = 128 * 1024 * 1024"
definition max_read_artifact :: int where "max_read_artifact = 16 * 1024 * 1024"
definition max_active_reads :: int where "max_active_reads = 4"

definition requires_processing :: "artifact \<Rightarrow> bool" where
  "requires_processing r \<longleftrightarrow> starts_with ''video/'' (art_content_type r) \<or> art_size r > max_read_artifact"

text \<open>The bytes of the files, and again those of the largest source for its working copy.\<close>

definition workspace_bytes :: "artifact list \<Rightarrow> int" where
  "workspace_bytes rs =
     (let sources = map art_size (filter (\<lambda>r. art_kind r = ''source_video'') rs) in
      sum_list (map art_size rs) + (if sources = [] then 0 else fold max (tl sources) (hd sources)))"

definition workspace_error :: "capacity_error \<Rightarrow> error" where
  "workspace_error e = (case e of
       CapValueError \<Rightarrow> ValueError
     | CapRuntimeError \<Rightarrow> RuntimeError
     | CapacityUnavailable d _ \<Rightarrow>
         JobStorageCapacityError ''processing_workspace_unavailable'' (if d = CapActiveLimit then 429 else 507))"

definition reserve_workspace ::
    "disk_usage \<Rightarrow> artifact list \<Rightarrow> bool \<Rightarrow> repository \<times> capacity_world
     \<Rightarrow> (error + unit) \<times> repository \<times> capacity_world" where
  "reserve_workspace disk rs processing rw = (let (rp, w) = rw in
     if rp_local rp then (Inr (), rp, w)
     else case (rp_warning rp, rp_hard_stop rp) of
       (Some warning, Some hard) \<Rightarrow>
         let requested = workspace_bytes rs;
             use_read = rp_reading rp \<and> \<not> processing \<and> rp_workspace rp = None;
             existing = (if use_read then rp_read rp else rp_workspace rp) in
         if use_read \<and> (case existing of None \<Rightarrow> 0 | Some i \<Rightarrow> sr_reserved (cw_objects w ! i)) + requested > max_read_workspace
         then (Inl (JobStorageCapacityError ''read_workspace_limit'' 413), rp, w)
         else (case existing of
             Some i \<Rightarrow>
               (case extend_reservation i disk requested warning hard w of
                  (Inl e, w) \<Rightarrow> (Inl (workspace_error e), rp, w)
                | (Inr _, w) \<Rightarrow> (Inr (), rp, w))
           | None \<Rightarrow>
               (case open_reservation (rp_root rp) disk
                   \<lparr>cr_requested = requested, cr_warning = warning, cr_hard_stop = hard, cr_max_uploads = rp_max_active rp,
                    cr_admission = (if use_read then AdmitRead else AdmitProcessing), cr_max_reads = max_active_reads\<rparr> w of
                  (Inl e, w) \<Rightarrow> (Inl (workspace_error e), rp, w)
                | (Inr (i, _), w) \<Rightarrow>
                    (Inr (), if use_read then rp\<lparr>rp_read := Some i\<rparr> else rp\<lparr>rp_workspace := Some i\<rparr>, w)))
     | _ \<Rightarrow> (Inr (), rp, w))"

text \<open>\<open>close\<close>; the directory it removes is not part of the state.\<close>

definition release_held :: "nat option \<Rightarrow> capacity_world \<Rightarrow> capacity_world" where
  "release_held h w = (case h of None \<Rightarrow> w | Some i \<Rightarrow> release_reservation i w)"

definition close_repository :: "repository \<times> capacity_world \<Rightarrow> repository \<times> capacity_world" where
  "close_repository rw = (let (rp, w) = rw in
     (rp\<lparr>rp_read := None, rp_workspace := None\<rparr>, release_held (rp_workspace rp) (release_held (rp_read rp) w)))"

end
