(* ===== verification/Capacity_Properties.thy ===== *)
theory Capacity_Properties
  imports Capacity
begin

text \<open>
  The correctness properties of the admission control, for every interleaving of callers
  that open, extend and release reservations (\<open>capacity_evolves\<close>), and of a repository
  among them (\<open>repository_evolves\<close>).
\<close>

section \<open>What is held\<close>

definition held_at :: "string \<Rightarrow> storage_reservation \<Rightarrow> bool" where
  "held_at rt r \<longleftrightarrow> sr_root r = rt \<and> \<not> sr_released r"

definition held_bytes :: "string \<Rightarrow> storage_reservation list \<Rightarrow> int" where
  "held_bytes rt rs = (\<Sum>r\<leftarrow>filter (held_at rt) rs. sr_reserved r)"

definition held_places :: "admission \<Rightarrow> string \<Rightarrow> storage_reservation list \<Rightarrow> int" where
  "held_places ad rt rs = int (length (filter (\<lambda>r. held_at rt r \<and> sr_admission r = ad) rs))"

definition places_of :: "admission \<Rightarrow> capacity \<Rightarrow> (string \<rightharpoonup> int)" where
  "places_of ad c = (case ad of AdmitProcessing \<Rightarrow> cp_active c | AdmitRead \<Rightarrow> cp_reads c)"

definition capacity_inv :: "capacity_world \<Rightarrow> bool" where
  "capacity_inv w \<longleftrightarrow> (\<forall>rt. count_at (cp_reserved (cw_tables w)) rt = held_bytes rt (cw_objects w))
     \<and> (\<forall>ad rt. count_at (places_of ad (cw_tables w)) rt = held_places ad rt (cw_objects w))
     \<and> (\<forall>r\<in>set (cw_objects w). 0 \<le> sr_reserved r)"

definition empty_capacity :: capacity_world where
  "empty_capacity = \<lparr>cw_tables = \<lparr>cp_reserved = Map.empty, cp_active = Map.empty, cp_reads = Map.empty\<rparr>, cw_objects = []\<rparr>"

inductive capacity_evolves :: "capacity_world \<Rightarrow> capacity_world \<Rightarrow> bool" where
  same: "capacity_evolves w w"
| opened: "capacity_evolves w0 w \<Longrightarrow> 0 \<le> cr_requested rq \<Longrightarrow> capacity_evolves w0 (snd (open_reservation rt disk rq w))"
| extended: "capacity_evolves w0 w \<Longrightarrow> i < length (cw_objects w) \<Longrightarrow>
    capacity_evolves w0 (snd (extend_reservation i disk requested warning hard w))"
| released: "capacity_evolves w0 w \<Longrightarrow> i < length (cw_objects w) \<Longrightarrow> capacity_evolves w0 (release_reservation i w)"

lemma count_at_simps [simp]:
  "count_at Map.empty rt = 0"
  "count_at (t(rt \<mapsto> n)) rt' = (if rt' = rt then n else count_at t rt')"
  "count_at (lower_to n rt t) rt' = (if rt' = rt then n else count_at t rt')"
  by (simp_all add: count_at_def lower_to_def)

lemma capacity_inv_empty: "capacity_inv empty_capacity"
  by (simp add: capacity_inv_def empty_capacity_def held_bytes_def held_places_def places_of_def split: admission.split)

lemma held_append [simp]:
  "held_bytes rt (rs @ ss) = held_bytes rt rs + held_bytes rt ss"
  "held_places ad rt (rs @ ss) = held_places ad rt rs + held_places ad rt ss"
  by (simp_all add: held_bytes_def held_places_def)

lemma held_one:
  "held_bytes rt [r] = (if held_at rt r then sr_reserved r else 0)"
  "held_places ad rt [r] = (if held_at rt r \<and> sr_admission r = ad then 1 else 0)"
  by (simp_all add: held_bytes_def held_places_def)

lemma held_at_simps [simp]:
  "held_at rt (r\<lparr>sr_released := True\<rparr>) \<longleftrightarrow> False"
  "held_at rt (r\<lparr>sr_reserved := n\<rparr>) \<longleftrightarrow> held_at rt r"
  "held_at rt \<lparr>sr_root = rt', sr_reserved = n, sr_admission = ad, sr_max_uploads = m, sr_max_reads = m', sr_released = False\<rparr>
    \<longleftrightarrow> rt' = rt"
  by (auto simp: held_at_def)

lemma places_reserved [simp]: "places_of ad (c\<lparr>cp_reserved := t\<rparr>) = places_of ad c"
  by (simp add: places_of_def split: admission.split)

lemma held_update:
  assumes "i < length rs"
  shows "held_bytes rt (rs[i := r]) = held_bytes rt rs - (if held_at rt (rs ! i) then sr_reserved (rs ! i) else 0)
      + (if held_at rt r then sr_reserved r else 0)"
    and "held_places ad rt (rs[i := r]) = held_places ad rt rs - (if held_at rt (rs ! i) \<and> sr_admission (rs ! i) = ad then 1 else 0)
      + (if held_at rt r \<and> sr_admission r = ad then 1 else 0)"
proof -
  have rs: "rs = take i rs @ [rs ! i] @ drop (Suc i) rs" "rs[i := r] = take i rs @ [r] @ drop (Suc i) rs"
    using assms by (simp_all add: id_take_nth_drop upd_conv_take_nth_drop)
  show "held_bytes rt (rs[i := r]) = held_bytes rt rs - (if held_at rt (rs ! i) then sr_reserved (rs ! i) else 0)
      + (if held_at rt r then sr_reserved r else 0)"
    by (subst (2) rs(1), subst rs(2)) (simp add: held_bytes_def)
  show "held_places ad rt (rs[i := r]) = held_places ad rt rs - (if held_at rt (rs ! i) \<and> sr_admission (rs ! i) = ad then 1 else 0)
      + (if held_at rt r \<and> sr_admission r = ad then 1 else 0)"
    by (subst (2) rs(1), subst rs(2)) (simp add: held_places_def)
qed

lemma held_nonneg: "(\<And>r. r \<in> set rs \<Longrightarrow> 0 \<le> sr_reserved r) \<Longrightarrow> 0 \<le> held_bytes rt rs"
  unfolding held_bytes_def by (intro sum_list_nonneg) auto

lemma held_member:
  assumes "i < length rs" "held_at rt (rs ! i)" "\<And>r. r \<in> set rs \<Longrightarrow> 0 \<le> sr_reserved r"
  shows "sr_reserved (rs ! i) \<le> held_bytes rt rs" "1 \<le> held_places (sr_admission (rs ! i)) rt rs"
proof -
  let ?r = "(rs ! i)\<lparr>sr_released := True\<rparr>"
  have "\<not> held_at rt ?r" by (simp add: held_at_def)
  moreover have "0 \<le> held_bytes rt (rs[i := ?r])"
    using assms by (intro held_nonneg) (auto dest!: set_update_subset_insert [THEN subsetD])
  moreover have "0 \<le> held_places (sr_admission (rs ! i)) rt (rs[i := ?r])" by (simp add: held_places_def)
  ultimately show "sr_reserved (rs ! i) \<le> held_bytes rt rs" "1 \<le> held_places (sr_admission (rs ! i)) rt rs"
    using held_update [OF assms(1)] assms(2) by (simp_all split: if_splits)
qed

lemma all_admission: "(\<forall>ad. P ad) \<longleftrightarrow> P AdmitProcessing \<and> P AdmitRead"
  by (metis admission.exhaust)

section \<open>One step\<close>

text \<open>The tables after an admission, and the condition of one.\<close>

definition admitted :: "string \<Rightarrow> capacity_request \<Rightarrow> capacity \<Rightarrow> capacity" where
  "admitted rt rq c = take_place (cr_admission rq) rt
     (c\<lparr>cp_reserved := (cp_reserved c)(rt \<mapsto> count_at (cp_reserved c) rt + cr_requested rq)\<rparr>)"

definition reservation_of :: "string \<Rightarrow> capacity_request \<Rightarrow> storage_reservation" where
  "reservation_of rt rq = \<lparr>sr_root = rt, sr_reserved = cr_requested rq, sr_admission = cr_admission rq,
     sr_max_uploads = cr_max_uploads rq, sr_max_reads = cr_max_reads rq, sr_released = False\<rparr>"

definition may_reserve :: "string \<Rightarrow> disk_usage \<Rightarrow> capacity_request \<Rightarrow> capacity \<Rightarrow> bool" where
  "may_reserve rt disk rq c \<longleftrightarrow> 1 \<le> cr_max_uploads rq \<and> 1 \<le> cr_max_reads rq \<and> \<not> at_limit rt rq c
     \<and> cr_hard_stop rq \<le> du_free disk - count_at (cp_reserved c) rt - cr_requested rq"

lemma reserve_capacity_may:
  "if may_reserve rt disk rq c then \<exists>st. reserve_capacity rt disk rq c = Inr (reservation_of rt rq, st, admitted rt rq c)
   else \<exists>e. reserve_capacity rt disk rq c = Inl e"
  unfolding may_reserve_def reserve_capacity_def Let_def admitted_def reservation_of_def
  by (simp del: not_less)

lemma open_reservation_may:
  "may_reserve rt disk rq (cw_tables w) \<Longrightarrow> \<exists>st. open_reservation rt disk rq w
     = (Inr (length (cw_objects w), st), \<lparr>cw_tables = admitted rt rq (cw_tables w), cw_objects = cw_objects w @ [reservation_of rt rq]\<rparr>)"
  "\<not> may_reserve rt disk rq (cw_tables w) \<Longrightarrow> \<exists>e. open_reservation rt disk rq w = (Inl e, w)"
  using reserve_capacity_may [of rt disk rq "cw_tables w"] by (auto simp: open_reservation_def)

lemma take_place_tables [simp]:
  "cp_reserved (take_place ad rt c) = cp_reserved c"
  "count_at (places_of ad' (take_place ad rt c)) rt' = count_at (places_of ad' c) rt' + (if ad' = ad \<and> rt' = rt then 1 else 0)"
  by (cases ad; cases ad'; simp add: take_place_def places_of_def)+

lemma capacity_inv_open:
  assumes "capacity_inv w" "0 \<le> cr_requested rq"
  shows "capacity_inv (snd (open_reservation rt disk rq w))"
proof -
  have "held_at rt' (reservation_of rt rq) \<longleftrightarrow> rt' = rt" for rt' by (auto simp: reservation_of_def held_at_def)
  with assms open_reservation_may [of rt disk rq w] show ?thesis
    by (cases "may_reserve rt disk rq (cw_tables w)")
      (auto simp: capacity_inv_def admitted_def held_one reservation_of_def)
qed

lemma extend_reservation_cases:
  assumes "extend_reservation i disk requested warning hard w = (res, w')"
  obtains e where "res = Inl e" "w' = w"
  | "res = Inr ()" "\<not> sr_released (cw_objects w ! i)" "requested = 0" "w' = w"
  | "res = Inr ()" "\<not> sr_released (cw_objects w ! i)" "0 < requested"
    "hard \<le> du_free disk - count_at (cp_reserved (cw_tables w)) (sr_root (cw_objects w ! i)) - requested"
    "w' = \<lparr>cw_tables = (cw_tables w)\<lparr>cp_reserved := (cp_reserved (cw_tables w))(sr_root (cw_objects w ! i)
        \<mapsto> count_at (cp_reserved (cw_tables w)) (sr_root (cw_objects w ! i)) + requested)\<rparr>,
      cw_objects = (cw_objects w)[i := (cw_objects w ! i)\<lparr>sr_reserved := sr_reserved (cw_objects w ! i) + requested\<rparr>]\<rparr>"
  using assms by (auto simp: extend_reservation_def extend_capacity_def Let_def split: if_splits)

lemma capacity_inv_extend:
  assumes inv: "capacity_inv w" and i: "i < length (cw_objects w)"
  shows "capacity_inv (snd (extend_reservation i disk requested warning hard w))"
proof -
  obtain res w' where o: "extend_reservation i disk requested warning hard w = (res, w')" by fastforce
  then have "capacity_inv w'"
  proof (cases rule: extend_reservation_cases)
    case 3
    have "0 \<le> sr_reserved (cw_objects w ! i)" using inv i by (simp add: capacity_inv_def)
    with inv 3 show ?thesis
      unfolding capacity_inv_def
      by (auto simp: held_update [OF i] dest!: set_update_subset_insert [THEN subsetD]) (simp_all add: held_at_def)
  qed (use inv in simp_all)
  with o show ?thesis by simp
qed

lemma release_tables [simp]:
  "count_at (cp_reserved (release_capacity rt b ad c)) rt'
    = (if rt' = rt then max 0 (count_at (cp_reserved c) rt - b) else count_at (cp_reserved c) rt')"
  "count_at (places_of ad' (release_capacity rt b ad c)) rt'
    = (if ad' = ad \<and> rt' = rt then max 0 (count_at (places_of ad c) rt - 1) else count_at (places_of ad' c) rt')"
  by (cases ad; cases ad'; simp add: release_capacity_def places_of_def Let_def)+

lemma capacity_inv_release:
  assumes inv: "capacity_inv w" and i: "i < length (cw_objects w)"
  shows "capacity_inv (release_reservation i w)"
proof (cases "sr_released (cw_objects w ! i)")
  case True
  with inv show ?thesis by (simp add: release_reservation_def)
next
  case False
  let ?r = "cw_objects w ! i"
  have pos: "\<And>r. r \<in> set (cw_objects w) \<Longrightarrow> 0 \<le> sr_reserved r" using inv by (simp add: capacity_inv_def)
  have held: "held_at (sr_root ?r) ?r" using False by (simp add: held_at_def)
  note m = held_member [OF i held pos]
  from inv False m pos i show ?thesis
    unfolding capacity_inv_def release_reservation_def Let_def
    by (auto simp: held_update [OF i] dest!: set_update_subset_insert [THEN subsetD]) (simp_all add: held_at_def)
qed

lemma capacity_evolves_inv: "capacity_evolves w0 w \<Longrightarrow> capacity_inv w0 \<Longrightarrow> capacity_inv w"
  by (induction rule: capacity_evolves.induct) (auto intro: capacity_inv_open capacity_inv_extend capacity_inv_release)

lemmas capacity_reachable = capacity_evolves_inv [OF _ capacity_inv_empty]

section \<open>A repository among others\<close>

text \<open>
  \<open>repository_evolves rp H w\<close>: a repository that started with nothing, and whose calls
  opened the reservations \<open>H\<close>, while others opened, extended and released theirs.
\<close>

inductive repository_evolves :: "repository \<Rightarrow> nat set \<Rightarrow> capacity_world \<Rightarrow> bool" where
  fresh: "capacity_inv w \<Longrightarrow> rp_read rp = None \<Longrightarrow> rp_workspace rp = None \<Longrightarrow> repository_evolves rp {} w"
| reserving: "repository_evolves rp H w \<Longrightarrow> list_all (\<lambda>r. 0 \<le> art_size r) rs \<Longrightarrow>
    reserve_workspace disk rs processing (rp\<lparr>rp_reading := b\<rparr>, w) = (res, rp', w') \<Longrightarrow>
    repository_evolves rp' (H \<union> {length (cw_objects w)..<length (cw_objects w')}) w'"
| other_open: "repository_evolves rp H w \<Longrightarrow> 0 \<le> cr_requested rq \<Longrightarrow>
    repository_evolves rp H (snd (open_reservation rt disk rq w))"
| other_extend: "repository_evolves rp H w \<Longrightarrow> i < length (cw_objects w) \<Longrightarrow> i \<notin> H \<Longrightarrow>
    repository_evolves rp H (snd (extend_reservation i disk requested warning hard w))"
| other_release: "repository_evolves rp H w \<Longrightarrow> i < length (cw_objects w) \<Longrightarrow> i \<notin> H \<Longrightarrow>
    repository_evolves rp H (release_reservation i w)"

definition handles :: "repository \<Rightarrow> nat set" where
  "handles rp = set_option (rp_read rp) \<union> set_option (rp_workspace rp)"

text \<open>What the repository knows of its reservations; the handles differ, so closing releases both.\<close>

definition repository_inv :: "repository \<Rightarrow> nat set \<Rightarrow> capacity_world \<Rightarrow> bool" where
  "repository_inv rp H w \<longleftrightarrow> capacity_inv w \<and> H = handles rp \<and> (\<forall>i\<in>H. i < length (cw_objects w))"

lemma fold_max_nonneg: "0 \<le> (m::int) \<Longrightarrow> 0 \<le> fold max xs m"
  by (induction xs arbitrary: m) auto

lemma workspace_bytes_nonneg:
  assumes "list_all (\<lambda>r. 0 \<le> art_size r) rs"
  shows "0 \<le> workspace_bytes rs"
proof -
  let ?s = "map art_size (filter (\<lambda>r. art_kind r = ''source_video'') rs)"
  have "0 \<le> x" if "x \<in> set ?s" for x using assms that by (auto simp: list_all_iff)
  then have "0 \<le> (if ?s = [] then 0 else fold max (tl ?s) (hd ?s))"
    using fold_max_nonneg [of "hd ?s" "tl ?s"] hd_in_set [of ?s] by auto
  moreover have "0 \<le> sum_list (map art_size rs)" using assms by (intro sum_list_nonneg) (auto simp: list_all_iff)
  ultimately show ?thesis unfolding workspace_bytes_def Let_def by simp
qed

lemma length_extend [simp]: "length (cw_objects (snd (extend_reservation i disk n warning hard w))) = length (cw_objects w)"
  by (simp add: extend_reservation_def Let_def split: sum.split)

lemma length_release [simp]: "length (cw_objects (release_reservation i w)) = length (cw_objects w)"
  by (simp add: release_reservation_def Let_def)

lemma reserve_workspace_cases:
  assumes "reserve_workspace disk rs processing (rp, w) = (res, rp', w')"
  obtains "rp' = rp" "w' = w"
  | i n warning hard where "i \<in> handles rp" "rp' = rp" "w' = snd (extend_reservation i disk n warning hard w)"
  | rq i st where "cr_requested rq = workspace_bytes rs" "open_reservation (rp_root rp) disk rq w = (Inr (i, st), w')"
    "rp_read rp = None \<and> rp' = rp\<lparr>rp_read := Some i\<rparr> \<or> rp_workspace rp = None \<and> rp' = rp\<lparr>rp_workspace := Some i\<rparr>"
proof (cases "rp_local rp \<or> rp_warning rp = None \<or> rp_hard_stop rp = None")
  case True
  with assms show ?thesis by (intro that(1)) (auto simp: reserve_workspace_def split: option.splits)
next
  case False
  then obtain warning hard where wh: "\<not> rp_local rp" "rp_warning rp = Some warning" "rp_hard_stop rp = Some hard" by auto
  define use_read where "use_read \<longleftrightarrow> rp_reading rp \<and> \<not> processing \<and> rp_workspace rp = None"
  define held where "held = (if use_read then rp_read rp else rp_workspace rp)"
  have local: "rp_local rp = False" using wh(1) by simp
  note body = assms [unfolded reserve_workspace_def prod.case Let_def wh(2,3) local option.case if_False,
      folded use_read_def, folded held_def]
  show ?thesis
  proof (cases held)
    case None
    show ?thesis
    proof (cases "use_read \<and> 0 + workspace_bytes rs > max_read_workspace")
      case True
      with body None that(1) show ?thesis by simp
    next
      case limit: False
      let ?rq = "\<lparr>cr_requested = workspace_bytes rs, cr_warning = warning, cr_hard_stop = hard, cr_max_uploads = rp_max_active rp,
        cr_admission = (if use_read then AdmitRead else AdmitProcessing), cr_max_reads = max_active_reads\<rparr>"
      obtain a w1 where o: "open_reservation (rp_root rp) disk ?rq w = (a, w1)" by fastforce
      show ?thesis
      proof (cases a)
        case (Inl e)
        with o open_reservation_may [of "rp_root rp" disk ?rq w] have "w1 = w"
          by (cases "may_reserve (rp_root rp) disk ?rq (cw_tables w)") auto
        with body None limit o Inl show ?thesis by (intro that(1)) (simp_all split: if_splits)
      next
        case (Inr p)
        with body None limit o have "w' = w1" "rp' = (if use_read then rp\<lparr>rp_read := Some (fst p)\<rparr> else rp\<lparr>rp_workspace := Some (fst p)\<rparr>)"
          by (auto split: prod.splits if_splits)
        with o Inr None show ?thesis by (intro that(3) [of ?rq "fst p" "snd p"]) (auto simp: held_def split: if_splits)
      qed
    qed
  next
    case (Some i)
    then have i: "i \<in> handles rp" by (auto simp: held_def handles_def split: if_splits)
    show ?thesis
    proof (cases "use_read \<and> sr_reserved (cw_objects w ! i) + workspace_bytes rs > max_read_workspace")
      case True
      with body Some that(1) show ?thesis by simp
    next
      case False
      with body Some have "rp' = rp \<and> w' = snd (extend_reservation i disk (workspace_bytes rs) warning hard w)"
        by (auto split: prod.splits sum.splits)
      with i that(2) show ?thesis by blast
    qed
  qed
qed

lemma repository_evolves_inv: "repository_evolves rp H w \<Longrightarrow> repository_inv rp H w"
proof (induction rule: repository_evolves.induct)
  case (fresh w rp)
  then show ?case by (simp add: repository_inv_def handles_def)
next
  case (reserving rp H w rs disk processing b res rp' w')
  let ?rp = "rp\<lparr>rp_reading := b\<rparr>"
  have inv: "capacity_inv w" "H = handles ?rp" "\<forall>i\<in>H. i < length (cw_objects w)"
    using reserving.IH by (simp_all add: repository_inv_def handles_def)
  from reserving.hyps(3) show ?case
  proof (cases rule: reserve_workspace_cases)
    case 1
    with inv show ?thesis by (simp add: repository_inv_def)
  next
    case (2 i n warning hard)
    with inv show ?thesis by (simp add: repository_inv_def capacity_inv_extend)
  next
    case (3 rq i st)
    have c: "capacity_inv w'"
      using capacity_inv_open [of w rq "rp_root ?rp" disk] 3(1,2) inv(1) workspace_bytes_nonneg [OF reserving.hyps(2)] by simp
    have i: "i = length (cw_objects w)" "length (cw_objects w') = Suc (length (cw_objects w))"
      using open_reservation_may [of "rp_root ?rp" disk rq w] 3(2) by (cases "may_reserve (rp_root ?rp) disk rq (cw_tables w)"; force)+
    have "{length (cw_objects w)..<length (cw_objects w')} = {i}" using i by auto
    moreover have "handles rp' = insert i (handles ?rp)" using 3(3) by (auto simp: handles_def)
    ultimately show ?thesis using c i inv by (auto simp: repository_inv_def)
  qed
next
  case (other_open rp H w rq rt disk)
  have "length (cw_objects w) \<le> length (cw_objects (snd (open_reservation rt disk rq w)))"
    using open_reservation_may [of rt disk rq w] by (cases "may_reserve rt disk rq (cw_tables w)") auto
  with other_open show ?case by (auto simp: repository_inv_def capacity_inv_open intro: less_le_trans)
next
  case (other_extend rp H w i disk requested warning hard)
  then show ?case by (simp add: repository_inv_def capacity_inv_extend)
next
  case (other_release rp H w i)
  then show ?case by (simp add: repository_inv_def capacity_inv_release)
qed

lemma release_reservation_released:
  "i < length (cw_objects w) \<Longrightarrow> sr_released (cw_objects (release_reservation i w) ! i)"
  "i < length (cw_objects w) \<Longrightarrow> sr_released (cw_objects w ! j) \<Longrightarrow> sr_released (cw_objects (release_reservation i w) ! j)"
  by (auto simp: release_reservation_def Let_def nth_list_update)

section \<open>A concrete history\<close>

definition demo_disk :: disk_usage where
  "demo_disk = \<lparr>du_total = 1000, du_used = 0, du_free = 1000\<rparr>"

definition demo_request :: "admission \<Rightarrow> int \<Rightarrow> capacity_request" where
  "demo_request ad n = \<lparr>cr_requested = n, cr_warning = 200, cr_hard_stop = 100, cr_max_uploads = 1,
     cr_admission = ad, cr_max_reads = 4\<rparr>"

definition demo_opened :: capacity_world where
  "demo_opened = snd (open_reservation ''/data'' demo_disk (demo_request AdmitProcessing 300) empty_capacity)"

definition demo_extended :: capacity_world where
  "demo_extended = snd (extend_reservation 0 demo_disk 50 200 100 demo_opened)"

definition demo_repository :: repository where
  "demo_repository = \<lparr>rp_local = False, rp_root = ''/data'', rp_warning = Some 200, rp_hard_stop = Some 100,
     rp_max_active = 2, rp_reading = False, rp_read = None, rp_workspace = None\<rparr>"

definition demo_files :: "artifact list" where
  "demo_files = [\<lparr>art_id = 1, art_owner = 1, art_analysis_id = ''an-1'', art_run_id = None, art_stage_id = None,
     art_kind = ''tracking'', art_provider = ''s3'', art_storage_key = ''k'', art_logical_key = ''k'',
     art_content_type = ''application/json'', art_size = 40, art_checksum = [], art_schema_version = None,
     art_state = AAvailable, art_is_current = True, art_created_at = 0, art_updated_at = 0\<rparr>]"

definition demo_reserved_workspace :: "repository \<times> capacity_world" where
  "demo_reserved_workspace = snd (reserve_workspace demo_disk demo_files True
     (demo_repository\<lparr>rp_reading := True\<rparr>, demo_extended))"

lemma demo_extended_eq:
  "length (cw_objects demo_opened) = 1" "length (cw_objects demo_extended) = 1"
  "length (cw_objects (snd demo_reserved_workspace)) = 2"
  by code_simp+

lemma demo_capacity_reachable: "capacity_evolves empty_capacity demo_extended"
  unfolding demo_extended_def demo_opened_def
  by (intro capacity_evolves.extended capacity_evolves.opened capacity_evolves.same)
    (use demo_extended_eq(1) in \<open>simp_all add: demo_opened_def demo_request_def\<close>)

lemma demo_repository_reachable: "repository_evolves (fst demo_reserved_workspace) {1} (snd demo_reserved_workspace)"
proof -
  have "repository_evolves demo_repository {} demo_extended"
    using demo_capacity_reachable by (intro repository_evolves.fresh capacity_reachable) (simp_all add: demo_repository_def)
  then have "repository_evolves (fst demo_reserved_workspace)
      ({} \<union> {length (cw_objects demo_extended)..<length (cw_objects (snd demo_reserved_workspace))}) (snd demo_reserved_workspace)"
    by (rule repository_evolves.reserving [where disk = demo_disk and rs = demo_files and processing = True and b = True
          and res = "fst (reserve_workspace demo_disk demo_files True (demo_repository\<lparr>rp_reading := True\<rparr>, demo_extended))"])
      (simp_all add: demo_files_def demo_reserved_workspace_def [unfolded demo_files_def])
  moreover have "{1..<2} = {1::nat}" by auto
  ultimately show ?thesis by (simp add: demo_extended_eq)
qed

section \<open>Properties\<close>



text \<open>
  Exactly what fits is admitted: a reservation is granted when a place of its kind is
  free and the free space of the disk, less everything held, keeps the hard stop;
  otherwise it is refused and nothing changes.
\<close>

theorem capacity_admission:
  assumes "capacity_evolves empty_capacity w" and "0 < cr_max_uploads rq" "0 < cr_max_reads rq"
  shows "if held_places (cr_admission rq) rt (cw_objects w)
        < (case cr_admission rq of AdmitProcessing \<Rightarrow> cr_max_uploads rq | AdmitRead \<Rightarrow> cr_max_reads rq)
      \<and> held_bytes rt (cw_objects w) + cr_requested rq + cr_hard_stop rq \<le> du_free disk
    then \<exists>st w'. open_reservation rt disk rq w = (Inr (length (cw_objects w), st), w')
      \<and> cw_objects w' = cw_objects w @ [reservation_of rt rq]
    else \<exists>e. open_reservation rt disk rq w = (Inl e, w)"
proof -
  have "capacity_inv w" by (rule capacity_reachable [OF assms(1)])
  then have "may_reserve rt disk rq (cw_tables w) \<longleftrightarrow>
      held_places (cr_admission rq) rt (cw_objects w)
        < (case cr_admission rq of AdmitProcessing \<Rightarrow> cr_max_uploads rq | AdmitRead \<Rightarrow> cr_max_reads rq)
      \<and> held_bytes rt (cw_objects w) + cr_requested rq + cr_hard_stop rq \<le> du_free disk"
    using assms(2,3) by (cases "cr_admission rq")
      (auto simp: may_reserve_def at_limit_def capacity_inv_def all_admission places_of_def)
  then show ?thesis using open_reservation_may [of rt disk rq w] by auto
qed

theorem capacity_admission_witness:
  "\<exists>e. open_reservation ''/data'' demo_disk (demo_request AdmitProcessing 10) demo_extended = (Inl e, demo_extended)"
proof -
  have "held_places AdmitProcessing ''/data'' (cw_objects demo_extended) = 1" by code_simp
  with capacity_admission [OF demo_capacity_reachable, of "demo_request AdmitProcessing 10" "''/data''" demo_disk]
  show ?thesis by (simp add: demo_request_def)
qed

text \<open>
  C25: A repository leaks nothing: whatever it and others did, closing it releases every
  reservation it opened, and touches no other.
\<close>

theorem close_releases_all:
  assumes "repository_evolves rp H w" and "i < length (cw_objects w)"
  shows "if i \<in> H then sr_released (cw_objects (snd (close_repository (rp, w))) ! i)
    else cw_objects (snd (close_repository (rp, w))) ! i = cw_objects w ! i"
proof -
  have inv: "H = handles rp" "\<forall>i\<in>H. i < length (cw_objects w)"
    using repository_evolves_inv [OF assms(1)] by (simp_all add: repository_inv_def)
  let ?w1 = "release_held (rp_read rp) w"
  have other: "cw_objects (release_held h v) ! i = cw_objects v ! i" if "h \<noteq> Some i" for h v
    using that by (cases h) (auto simp: release_held_def release_reservation_def Let_def nth_list_update)
  have mine: "sr_released (cw_objects (release_held h v) ! i)"
    if "h = Some i \<or> sr_released (cw_objects v ! i)" "i < length (cw_objects v)" for h v
    using that release_reservation_released [of i v] other [of h v] by (cases "h = Some i") (auto simp: release_held_def)
  have len: "length (cw_objects ?w1) = length (cw_objects w)" by (cases "rp_read rp") (simp_all add: release_held_def)
  show ?thesis
  proof (cases "i \<in> H")
    case True
    then have "rp_workspace rp = Some i \<or> sr_released (cw_objects ?w1 ! i)"
      using inv(1) mine [of "rp_read rp" w] assms(2) by (auto simp: handles_def elem_set)
    with True show ?thesis
      using mine [of "rp_workspace rp" ?w1] len assms(2) by (simp add: close_repository_def)
  next
    case False
    then have "rp_read rp \<noteq> Some i" "rp_workspace rp \<noteq> Some i" using inv(1) by (auto simp: handles_def)
    with False other show ?thesis by (simp add: close_repository_def)
  qed
qed

theorem close_releases_all_witness:
  "sr_released (cw_objects (snd (close_repository demo_reserved_workspace)) ! 1)
    \<and> cw_objects (snd (close_repository demo_reserved_workspace)) ! 0 = cw_objects (snd demo_reserved_workspace) ! 0"
  using close_releases_all [OF demo_repository_reachable, of 0] close_releases_all [OF demo_repository_reachable, of 1]
  by (simp add: demo_extended_eq)

end
