(* ===== verification/Deletion.thy ===== *)
theory Deletion
  imports Uploads Jobs
begin

text \<open>
  Deleting a match (\<^verbatim>\<open>app/services/jobs/match_lifecycle.py\<close>) and deleting its recording
  (\<^verbatim>\<open>app/services/jobs/source_media.py\<close>). Both have a transaction that records the intent, a
  phase that deletes the registered objects one by one, and a transaction that finishes.
  Between them the registry rows say what is left to delete, so a deletion that failed or
  was cut off is repeated as a whole.

  The store is a record of calls over a state of which nothing is known; a call that
  answers \<open>False\<close> raised \<open>ObjectStorageError\<close> or \<open>OSError\<close>. A local directory is its path, and
  a file in it a relative path. \<open>env\<close> is what others do before the last transaction: the
  advisory lock of the match keeps out the workflow on it, not the rest of the system.
\<close>

section \<open>The store and the repository\<close>

text \<open>
  \<open>ms_unlink dir path\<close> is \<open>unlink(missing_ok=True)\<close>; \<open>ms_entries dir\<close> is what \<open>rglob\<close> lists
  of a directory, \<open>None\<close> if the directory is a link or leads out of its root.
\<close>

record media_entry =
  me_path :: string
  me_name :: string
  me_is_file :: bool
  me_escapes :: bool

record 's media_store =
  ms_provider :: string
  ms_delete :: "string \<Rightarrow> 's \<Rightarrow> bool \<times> 's"
  ms_unlink :: "string \<Rightarrow> string \<Rightarrow> 's \<Rightarrow> bool \<times> 's"
  ms_entries :: "string \<Rightarrow> 's \<Rightarrow> media_entry list option"

text \<open>
  The roots are the working directory of the repository, the legacy storage and the
  workspaces of the owner that were left behind.
\<close>

record media_repository =
  mr_owner :: uuid
  mr_legacy_root :: string
  mr_roots :: "string list"

definition dir_of :: "string \<Rightarrow> string \<Rightarrow> string" where
  "dir_of rt name = rt @ CHR ''/'' # name"

section \<open>Names\<close>

text \<open>\<open>ANALYSIS_ID_PATTERN\<close>: a letter or digit, then at most 63 letters, digits, underscores and hyphens.\<close>

definition ascii_alnum :: "char \<Rightarrow> bool" where
  "ascii_alnum c = (let n = (of_char c :: nat) in (48 \<le> n \<and> n \<le> 57) \<or> (65 \<le> n \<and> n \<le> 90) \<or> (97 \<le> n \<and> n \<le> 122))"

definition validate_analysis_id :: "string \<Rightarrow> error + string" where
  "validate_analysis_id a =
     (case a of
        c # cs \<Rightarrow> if ascii_alnum c \<and> length cs \<le> 63 \<and> list_all (\<lambda>c. ascii_alnum c \<or> c = CHR ''_'' \<or> c = CHR ''-'') cs
          then Inr a else Inl (JobRequestError ''invalid_analysis_id'')
      | [] \<Rightarrow> Inl (JobRequestError ''invalid_analysis_id''))"

definition validate_relative_path :: "string \<Rightarrow> error + string" where
  "validate_relative_path value =
     (let cleaned = map (\<lambda>c. if c = CHR 0x5C then CHR ''/'' else c) (strip value) in
      if cleaned = [] then Inl (JobRequestError ''invalid_artifact_path'')
      else if starts_with ''/'' cleaned \<or> ''..'' \<in> set (path_parts cleaned)
      then Inl (JobRequestError ''unsafe_artifact_path'')
      else Inr (as_posix (path_parts cleaned)))"

definition remove_suffix :: "string \<Rightarrow> string \<Rightarrow> string" where
  "remove_suffix suf s =
     (if suf \<noteq> [] \<and> length suf \<le> length s \<and> drop (length s - length suf) s = suf then take (length s - length suf) s else s)"

definition is_playback_media :: "string \<Rightarrow> bool" where
  "is_playback_media p \<longleftrightarrow> posix_suffix (remove_suffix ''.court4-download'' (lower p))
     \<in> {''.mp4'', ''.mov'', ''.avi'', ''.mkv'', ''.webm'', ''.m4v''}"

text \<open>The name of the unfinished download beside a file; \<open>with_name\<close> raises for a path without name.\<close>

definition download_name :: "string \<Rightarrow> string" where
  "download_name p = as_posix (butlast (path_parts p) @ [CHR ''.'' # posix_name p @ ''.court4-download''])"

section \<open>Deleting files\<close>

text \<open>
  A step of the phase on the store; the first error ends it. \<open>StorageFailure\<close> is what the
  caller turns into \<open>JobStorageBackendError\<close>.
\<close>

datatype store_error = StorageFailure | Raised error

type_synonym 's store_step = "'s \<Rightarrow> store_error option \<times> 's"

definition and_then :: "'s store_step \<Rightarrow> 's store_step \<Rightarrow> 's store_step" where
  "and_then f g s = (case f s of (Some e, s) \<Rightarrow> (Some e, s) | (None, s) \<Rightarrow> g s)"

definition all_steps :: "'s store_step list \<Rightarrow> 's store_step" where
  "all_steps fs = foldr and_then fs (\<lambda>s. (None, s))"

definition raising :: "error + 'a \<Rightarrow> ('a \<Rightarrow> 's store_step) \<Rightarrow> 's store_step" where
  "raising x f s = (case x of Inl e \<Rightarrow> (Some (Raised e), s) | Inr a \<Rightarrow> f a s)"

definition call_store :: "('s \<Rightarrow> bool \<times> 's) \<Rightarrow> 's store_step" where
  "call_store f s = (case f s of (ok, s) \<Rightarrow> (if ok then None else Some StorageFailure, s))"

text \<open>\<open>LocalObjectStorage(dir).delete\<close> and \<open>S3ObjectStorage.delete\<close>.\<close>

definition local_delete :: "'s media_store \<Rightarrow> string \<Rightarrow> string \<Rightarrow> 's store_step" where
  "local_delete st dir key = raising (validate_object_key key) (\<lambda>k. call_store (ms_unlink st dir k))"

definition object_delete :: "'s media_store \<Rightarrow> string \<Rightarrow> 's store_step" where
  "object_delete st key = raising (validate_object_key key) (\<lambda>k. call_store (ms_delete st k))"

definition delete_source_copies :: "'s media_store \<Rightarrow> media_repository \<Rightarrow> string \<Rightarrow> string \<Rightarrow> 's store_step" where
  "delete_source_copies st rp a logical_key =
     raising (validate_relative_path logical_key) (\<lambda>relative.
       all_steps (concat (map (\<lambda>rt.
         [local_delete st (dir_of rt a) relative,
          (if path_parts relative = [] then (\<lambda>s. (Some (Raised ValueError), s))
           else local_delete st (dir_of rt a) (download_name relative))]) (mr_roots rp))))"

definition purge_entry :: "'s media_store \<Rightarrow> bool \<Rightarrow> string \<Rightarrow> media_entry \<Rightarrow> 's store_step" where
  "purge_entry st videos_only dir e =
     (if me_escapes e then (\<lambda>s. (Some (Raised JobStorageBackendError), s))
      else if me_is_file e \<and> (\<not> videos_only \<or> is_playback_media (me_name e)) then call_store (ms_unlink st dir (me_path e))
      else (\<lambda>s. (None, s)))"

definition purge_dir :: "'s media_store \<Rightarrow> bool \<Rightarrow> string \<Rightarrow> 's store_step" where
  "purge_dir st videos_only dir s =
     (case ms_entries st dir s of
        None \<Rightarrow> (Some (Raised JobStorageBackendError), s)
      | Some es \<Rightarrow> all_steps (map (purge_entry st videos_only dir) es) s)"

definition purge_copies :: "'s media_store \<Rightarrow> media_repository \<Rightarrow> bool \<Rightarrow> string \<Rightarrow> 's store_step" where
  "purge_copies st rp videos_only a =
     all_steps (map (purge_dir st videos_only) (concat (map (\<lambda>rt. [dir_of rt a, dir_of (dir_of rt ''_uploads'') a]) (mr_roots rp))))"

text \<open>The keys the registry may name for an object of the match, rebuilt from their parts.\<close>

definition expected_keys :: "media_repository \<Rightarrow> string \<Rightarrow> string \<Rightarrow> string option \<Rightarrow> bool \<Rightarrow> error + string list" where
  "expected_keys rp a logical_key checksum source =
     (if source then bindE (source_object_key (mr_owner rp) a (posix_suffix logical_key)) (\<lambda>k. Inr [k])
      else bindE (artifact_object_key (mr_owner rp) a logical_key checksum) (\<lambda>k.
           bindE (artifact_object_key (mr_owner rp) a logical_key None) (\<lambda>k'. Inr [k, k'])))"

definition delete_registered ::
    "'s media_store \<Rightarrow> media_repository \<Rightarrow> string \<Rightarrow> string \<Rightarrow> string \<Rightarrow> string \<Rightarrow> string option \<Rightarrow> bool \<Rightarrow> 's store_step" where
  "delete_registered st rp a provider key logical_key checksum source =
     and_then
       (if provider = ''local''
        then raising (requireE (key = logical_key) (JobConflictError ''unsafe_media_key''))
               (\<lambda>_. local_delete st (dir_of (mr_legacy_root rp) a) key)
        else if provider = ms_provider st
        then raising (bindE (expected_keys rp a logical_key checksum source) (\<lambda>ks.
                 requireE (key \<in> set ks) (JobConflictError ''unsafe_media_key'')))
               (\<lambda>_. object_delete st key)
        else (\<lambda>s. (Some (Raised JobStorageBackendError), s)))
       (delete_source_copies st rp a logical_key)"

definition delete_artifact :: "'s media_store \<Rightarrow> media_repository \<Rightarrow> string \<Rightarrow> artifact \<Rightarrow> 's store_step" where
  "delete_artifact st rp a r = delete_registered st rp a (art_provider r) (art_storage_key r) (art_logical_key r)
     (Some (art_checksum r)) (art_kind r = ''source_video'')"

section \<open>Deleting a match\<close>

text \<open>What the phase on the store works from: the source of the recording and the registered artifacts.\<close>

record deletion =
  dl_video_id :: uuid
  dl_provider :: string
  dl_key :: "string option"
  dl_logical :: string
  dl_artifacts :: "artifact list"

definition owned_match :: "uuid \<Rightarrow> string \<Rightarrow> db \<Rightarrow> analysis option" where
  "owned_match owner a d = find (\<lambda>r. an_id r = a \<and> an_owner r = owner) (analyses d)"

definition owned_artifacts :: "uuid \<Rightarrow> string \<Rightarrow> db \<Rightarrow> artifact list" where
  "owned_artifacts owner a d = filter (\<lambda>r. art_analysis_id r = a \<and> art_owner r = owner) (artifacts d)"

definition shared_video :: "video \<Rightarrow> string \<Rightarrow> db \<Rightarrow> bool" where
  "shared_video v a d \<longleftrightarrow> list_ex (\<lambda>r. an_video_id r = vid_id v \<and> an_id r \<noteq> a) (analyses d)"

definition deletion_of :: "uuid \<Rightarrow> string \<Rightarrow> analysis \<Rightarrow> video \<Rightarrow> db \<Rightarrow> deletion" where
  "deletion_of owner a r v d =
     \<lparr>dl_video_id = vid_id v, dl_provider = vid_provider v, dl_key = vid_storage_key v,
      dl_logical = text_or [] (an_job_payload r) ''source_video'', dl_artifacts = owned_artifacts owner a d\<rparr>"

definition retire_active :: "time \<Rightarrow> string \<Rightarrow> db \<Rightarrow> db" where
  "retire_active now a d = d
     \<lparr>runs := update_where (\<lambda>r. run_analysis_id r = a \<and> active_state (run_state r))
        (\<lambda>r. r\<lparr>run_state := Cancelled, run_cancelled_at := Some now, run_updated_at := now\<rparr>) (runs d),
      stages := update_where (\<lambda>r. se_analysis_id r = a \<and> active_state (se_state r))
        (\<lambda>r. r\<lparr>se_state := Cancelled, se_cancelled_at := Some now, se_updated_at := now\<rparr>) (stages d)\<rparr>"

definition request_deletion :: "time \<Rightarrow> analysis \<Rightarrow> analysis" where
  "request_deletion now r = r\<lparr>an_lifecycle := DeletionPending,
     an_deletion_requested_at := Some (case an_deletion_requested_at r of None \<Rightarrow> now | Some t \<Rightarrow> t),
     an_row_version := an_row_version r + 1, an_updated_at := now\<rparr>"

text \<open>A row whose columns did not change is not written, so its update time stays.\<close>

definition deleting_video :: "time \<Rightarrow> video \<Rightarrow> video" where
  "deleting_video now v = (if vid_state v = VDeleting then v else v\<lparr>vid_state := VDeleting, vid_updated_at := now\<rparr>)"

definition begin_deletion :: "uuid \<Rightarrow> time \<Rightarrow> string \<Rightarrow> db \<Rightarrow> error + deletion option \<times> db" where
  "begin_deletion owner now a d =
     (case owned_match owner a d of
        None \<Rightarrow> Inl JobNotFoundError
      | Some r \<Rightarrow>
          if an_lifecycle r = Deleted then Inr (None, d)
          else (case get_video d (an_video_id r) of
            None \<Rightarrow> Inl JobNotFoundError
          | Some v \<Rightarrow>
              if vid_owner v \<noteq> owner then Inl JobNotFoundError
              else if shared_video v a d then Inl (JobConflictError ''source_media_shared'')
              else if list_ex (\<lambda>s. up_analysis_id s = a \<and> in_flight (up_status s)) (upload_sessions d)
              then Inl (JobConflictError ''match_busy'')
              else Inr (Some (deletion_of owner a r v d),
                modify_video (vid_id v) (deleting_video now)
                  (modify_analysis a (request_deletion now) (retire_active now a d)))))"

definition delete_objects :: "'s media_store \<Rightarrow> media_repository \<Rightarrow> string \<Rightarrow> deletion \<Rightarrow> 's store_step" where
  "delete_objects st rp a x =
     all_steps
       ([raising (requireE (\<not> (or_else (dl_key x) [] \<noteq> [] \<and> dl_logical x = [])) (JobConflictError ''unsafe_media_key''))
           (\<lambda>_ s. (None, s)),
         (if or_else (dl_key x) [] \<noteq> [] \<and> dl_logical x \<noteq> []
          then delete_registered st rp a (dl_provider x) (or_else (dl_key x) []) (dl_logical x) None True
          else (\<lambda>s. (None, s)))]
        @ map (delete_artifact st rp a) (dl_artifacts x)
        @ [purge_copies st rp False a])"

definition erase_analysis :: "time \<Rightarrow> analysis \<Rightarrow> analysis" where
  "erase_analysis now r = r\<lparr>an_promoted_run_id := None, an_job_payload := Map.empty, an_lifecycle := Deleted,
     an_deleted_at := Some now, an_row_version := an_row_version r + 1, an_updated_at := now\<rparr>"

text \<open>Under the lock the recording is still \<open>deleting\<close>, so the row changes.\<close>

definition erase_video :: "time \<Rightarrow> video \<Rightarrow> video" where
  "erase_video now v = v\<lparr>vid_state := VDeleted, vid_filename := ''deleted'', vid_storage_key := None, vid_content_type := None,
     vid_size := None, vid_checksum := None, vid_metadata := Map.empty, vid_updated_at := now\<rparr>"

definition erase_upload :: "time \<Rightarrow> upload_session \<Rightarrow> upload_session" where
  "erase_upload now s = s\<lparr>up_result_payload := None, up_filename := ''deleted'', up_client_metadata := Map.empty,
     up_expected_sha256 := None, up_verified_sha256 := None, up_provider_upload_id := ''deleted'',
     up_updated_at := now\<rparr>"

definition erase_content :: "uuid \<Rightarrow> time \<Rightarrow> string \<Rightarrow> db \<Rightarrow> db" where
  "erase_content owner now a d = d
     \<lparr>artifacts := filter (\<lambda>r. art_analysis_id r \<noteq> a) (artifacts d),
      selections := filter (\<lambda>r. ps_analysis_id r \<noteq> a) (selections d),
      verifications := filter (\<lambda>r. cv_analysis_id r \<noteq> a) (verifications d),
      stages := filter (\<lambda>r. se_analysis_id r \<noteq> a) (stages d),
      events := filter (\<lambda>r. ev_analysis_id r \<noteq> a) (events d),
      runs := filter (\<lambda>r. run_analysis_id r \<noteq> a) (runs d),
      idem_records := update_where (\<lambda>r. idem_owner r = owner \<and> idem_resource_id r = Some a)
        (\<lambda>r. r\<lparr>idem_response := None, idem_updated_at := now\<rparr>) (idem_records d),
      upload_sessions := update_where (\<lambda>s. up_owner s = owner \<and> up_analysis_id s = a) (erase_upload now) (upload_sessions d)\<rparr>"

definition finish_deletion :: "uuid \<Rightarrow> time \<Rightarrow> string \<Rightarrow> uuid \<Rightarrow> db \<Rightarrow> error + unit \<times> db" where
  "finish_deletion owner now a v d =
     bindE (requireE (get_analysis d a \<noteq> None) AssertionError) (\<lambda>_.
     bindE (requireE (get_video d v \<noteq> None) AssertionError) (\<lambda>_.
     Inr ((), modify_video v (erase_video now) (modify_analysis a (erase_analysis now) (erase_content owner now a d)))))"

text \<open>\<open>locked\<close>: whether the exclusive lock was free.\<close>

definition delete_match ::
    "'s media_store \<Rightarrow> media_repository \<Rightarrow> bool \<Rightarrow> ('s world \<Rightarrow> 's world) \<Rightarrow> time \<Rightarrow> time \<Rightarrow> string \<Rightarrow> 's world
     \<Rightarrow> (error + unit) \<times> 's world" where
  "delete_match st rp locked env now later a w =
     (case validate_analysis_id a of
        Inl e \<Rightarrow> (Inl e, w)
      | Inr _ \<Rightarrow>
          if \<not> locked then (Inl (JobConflictError ''source_media_busy''), w)
          else case begin_deletion (mr_owner rp) now a (fst w) of
            Inl e \<Rightarrow> (Inl e, w)
          | Inr (None, d) \<Rightarrow> (Inr (), (d, snd w))
          | Inr (Some x, d) \<Rightarrow>
              (case delete_objects st rp a x (snd w) of
                 (Some StorageFailure, s) \<Rightarrow> (Inl JobStorageBackendError, (d, s))
               | (Some (Raised e), s) \<Rightarrow> (Inl e, (d, s))
               | (None, s) \<Rightarrow>
                   (case env (d, s) of (d, s) \<Rightarrow>
                      case transact (finish_deletion (mr_owner rp) later a (dl_video_id x)) d of (r, d) \<Rightarrow> (r, (d, s)))))"

definition match_status :: "media_repository \<Rightarrow> string \<Rightarrow> db \<Rightarrow> error + lifecycle" where
  "match_status rp a d =
     bindE (validate_analysis_id a) (\<lambda>_.
       case get_analysis d a of
         None \<Rightarrow> Inl JobNotFoundError
       | Some r \<Rightarrow> if an_owner r \<noteq> mr_owner rp then Inl JobNotFoundError else Inr (an_lifecycle r))"

section \<open>Deleting the recording\<close>

definition finished_analysis :: "analysis \<Rightarrow> bool" where
  "finished_analysis r \<longleftrightarrow> (an_state r = Completed \<and> get_truthy (an_job_payload r) ''analytics_completed'')
     \<or> (an_sport r = Padel \<and> get_truthy (an_job_payload r) ''inspection_completed'')"

definition is_recording :: "artifact \<Rightarrow> bool" where
  "is_recording r \<longleftrightarrow> art_kind r = ''source_video'' \<or> is_playback_media (art_logical_key r)
     \<or> starts_with ''video/'' (art_content_type r)"

definition request_source_deletion :: "(time \<Rightarrow> string) \<Rightarrow> time \<Rightarrow> video \<Rightarrow> video" where
  "request_source_deletion isofmt now v = v\<lparr>vid_state := VDeleting,
     vid_metadata := (vid_metadata v)(''source_delete_requested_at'' \<mapsto>
       (if get_truthy (vid_metadata v) ''source_delete_requested_at'' then get_or_null (vid_metadata v) ''source_delete_requested_at''
        else JStr (isofmt now))),
     vid_row_version := vid_row_version v + 1, vid_updated_at := now\<rparr>"

definition begin_source_deletion ::
    "(time \<Rightarrow> string) \<Rightarrow> uuid \<Rightarrow> time \<Rightarrow> string \<Rightarrow> db \<Rightarrow> error + deletion \<times> db" where
  "begin_source_deletion isofmt owner now a d =
     (case owned_match owner a d of
        None \<Rightarrow> Inl JobNotFoundError
      | Some r \<Rightarrow>
          if an_lifecycle r \<noteq> Live then Inl JobNotFoundError
          else (case get_video d (an_video_id r) of
            None \<Rightarrow> Inl JobNotFoundError
          | Some v \<Rightarrow>
              if vid_owner v \<noteq> owner then Inl JobNotFoundError
              else if vid_state v \<notin> {VAvailable, VDeleting, VDeleted} then Inl (JobConflictError ''source_video_unavailable'')
              else if shared_video v a d then Inl (JobConflictError ''source_media_shared'')
              else if \<not> finished_analysis r then Inl (JobConflictError ''analysis_not_complete'')
              else if list_ex (\<lambda>s. up_analysis_id s = a \<and> up_status s \<noteq> UCompleted) (upload_sessions d)
              then Inl (JobConflictError ''upload_not_complete'')
              else if or_else (vid_storage_key v) [] = [] then Inl (JobConflictError ''source_video_unavailable'')
              else Inr ((deletion_of owner a r v d)\<lparr>dl_artifacts := filter is_recording (owned_artifacts owner a d)\<rparr>,
                modify_video (vid_id v) (request_source_deletion isofmt now) d)))"

definition delete_recording_objects :: "'s media_store \<Rightarrow> media_repository \<Rightarrow> string \<Rightarrow> deletion \<Rightarrow> 's store_step" where
  "delete_recording_objects st rp a x =
     all_steps
       ([if dl_logical x \<noteq> []
         then delete_registered st rp a (dl_provider x) (or_else (dl_key x) []) (dl_logical x) None True
         else (\<lambda>s. (None, s))]
        @ map (delete_artifact st rp a) (dl_artifacts x)
        @ [purge_copies st rp True a])"

definition source_deleted :: "(time \<Rightarrow> string) \<Rightarrow> time \<Rightarrow> video \<Rightarrow> video" where
  "source_deleted isofmt now v = v\<lparr>vid_state := VDeleted,
     vid_metadata := (vid_metadata v)(''source_deleted_at'' \<mapsto> JStr (isofmt now)),
     vid_row_version := vid_row_version v + 1, vid_updated_at := now\<rparr>"

definition finish_source_deletion ::
    "(time \<Rightarrow> string) \<Rightarrow> uuid \<Rightarrow> time \<Rightarrow> string \<Rightarrow> deletion \<Rightarrow> db \<Rightarrow> error + unit \<times> db" where
  "finish_source_deletion isofmt owner now a x d =
     bindE (requireE (get_video d (dl_video_id x) \<noteq> None) AssertionError) (\<lambda>_.
     Inr ((), modify_artifacts
       (\<lambda>r. art_analysis_id r = a \<and> art_owner r = owner \<and> art_id r \<in> set (map art_id (dl_artifacts x)))
       (\<lambda>r. if art_state r = ADeleted then r else r\<lparr>art_state := ADeleted, art_updated_at := now\<rparr>)
       (modify_video (dl_video_id x) (source_deleted isofmt now) d)))"

text \<open>The lock is waited for; what others do until then is part of the world it starts from.\<close>

definition delete_source ::
    "'s media_store \<Rightarrow> media_repository \<Rightarrow> (time \<Rightarrow> string) \<Rightarrow> ('s world \<Rightarrow> 's world) \<Rightarrow> time \<Rightarrow> time \<Rightarrow> string \<Rightarrow> 's world
     \<Rightarrow> (error + unit) \<times> 's world" where
  "delete_source st rp isofmt env now later a w =
     (case validate_analysis_id a of
        Inl e \<Rightarrow> (Inl e, w)
      | Inr _ \<Rightarrow>
          (case begin_source_deletion isofmt (mr_owner rp) now a (fst w) of
             Inl e \<Rightarrow> (Inl e, w)
           | Inr (x, d) \<Rightarrow>
               (case delete_recording_objects st rp a x (snd w) of
                  (Some StorageFailure, s) \<Rightarrow> (Inl JobStorageBackendError, (d, s))
                | (Some (Raised e), s) \<Rightarrow> (Inl e, (d, s))
                | (None, s) \<Rightarrow>
                    (case env (d, s) of (d, s) \<Rightarrow>
                       case transact (finish_source_deletion isofmt (mr_owner rp) later a x) d of (r, d) \<Rightarrow> (r, (d, s))))))"

end
