(* ===== verification/Deletion_Laws.thy ===== *)
theory Deletion_Laws
  imports Deletion
begin

text \<open>
  What the phase on the store can do. \<open>steps_within R f\<close>: whatever \<open>f\<close> answers, the store
  moved by the reflexive and transitive \<open>R\<close>. For \<open>R\<close> the relation \<open>shrinks\<close>, that only keys
  of a given set and files of given directories went, this holds of the whole deletion.
\<close>

section \<open>Steps\<close>

definition steps_within :: "('s \<Rightarrow> 's \<Rightarrow> bool) \<Rightarrow> 's store_step \<Rightarrow> bool" where
  "steps_within R f \<longleftrightarrow> (\<forall>s. R s (snd (f s)))"

locale store_order =
  fixes R :: "'s \<Rightarrow> 's \<Rightarrow> bool"
  assumes refl: "R s s" and trans: "R s t \<Longrightarrow> R t u \<Longrightarrow> R s u"
begin

lemma within_none: "steps_within R (\<lambda>s. (e, s))"
  by (simp add: steps_within_def refl)

lemma within_and_then: "steps_within R f \<Longrightarrow> steps_within R g \<Longrightarrow> steps_within R (and_then f g)"
  unfolding steps_within_def and_then_def
  by (auto split: prod.split option.split) (metis snd_conv trans)+

lemma within_all: "(\<And>f. f \<in> set fs \<Longrightarrow> steps_within R f) \<Longrightarrow> steps_within R (all_steps fs)"
  by (induction fs) (simp_all add: all_steps_def within_none within_and_then)

lemma within_raising: "(\<And>a. x = Inr a \<Longrightarrow> steps_within R (f a)) \<Longrightarrow> steps_within R (raising x f)"
  by (cases x) (auto simp: steps_within_def raising_def refl)

text \<open>A step that succeeded as part of a phase, and what happened after it.\<close>

lemma all_steps_member:
  assumes "all_steps fs s = (None, s')" and "f \<in> set fs" and "\<And>g. g \<in> set fs \<Longrightarrow> steps_within R g"
  shows "\<exists>t u. f t = (None, u) \<and> R u s'"
  using assms
proof (induction fs arbitrary: s)
  case (Cons g fs)
  from Cons.prems(1) obtain u where g: "g s = (None, u)" and fs: "all_steps fs u = (None, s')"
    by (auto simp: all_steps_def and_then_def split: prod.splits option.splits)
  have "steps_within R (all_steps fs)" using Cons.prems(3) by (intro within_all) simp
  then have "R u s'" using fs unfolding steps_within_def by (metis snd_conv)
  with g Cons.IH [OF fs] Cons.prems(2,3) show ?case by auto
qed simp

end

lemma all_steps_simps [simp]:
  "all_steps [] s = (None, s)"
  "all_steps (f # fs) s = (case f s of (Some e, s) \<Rightarrow> (Some e, s) | (None, s) \<Rightarrow> all_steps fs s)"
  by (simp_all add: all_steps_def and_then_def split: option.split prod.split)

lemma and_then_None: "and_then f g s = (None, u) \<longleftrightarrow> (\<exists>t. f s = (None, t) \<and> g t = (None, u))"
  by (auto simp: and_then_def split: prod.splits option.splits)

lemma raising_None: "raising x f s = (None, u) \<longleftrightarrow> (\<exists>a. x = Inr a \<and> f a s = (None, u))"
  by (cases x) (simp_all add: raising_def)

lemma call_store_None: "call_store f s = (None, u) \<longleftrightarrow> f s = (True, u)"
  by (auto simp: call_store_def split: prod.splits)

section \<open>The store\<close>

text \<open>
  What \<open>delete_object\<close> and \<open>unlink\<close> are documented to do: the named object or file is gone
  after a success, and nothing else is touched.
\<close>

definition media_laws :: "'s media_store \<Rightarrow> ('s \<Rightarrow> string set) \<Rightarrow> ('s \<Rightarrow> (string \<times> string) set) \<Rightarrow> bool" where
  "media_laws st objects files \<longleftrightarrow>
     (\<forall>k s. let (ok, t) = ms_delete st k s in
        objects s - {k} \<subseteq> objects t \<and> objects t \<subseteq> objects s \<and> (ok \<longrightarrow> k \<notin> objects t) \<and> files t = files s)
     \<and> (\<forall>dir p s. let (ok, t) = ms_unlink st dir p s in
        files s - {(dir, p)} \<subseteq> files t \<and> files t \<subseteq> files s \<and> (ok \<longrightarrow> (dir, p) \<notin> files t) \<and> objects t = objects s)"

definition shrinks :: "('s \<Rightarrow> string set) \<Rightarrow> ('s \<Rightarrow> (string \<times> string) set) \<Rightarrow> string set \<Rightarrow> string set \<Rightarrow> 's \<Rightarrow> 's \<Rightarrow> bool" where
  "shrinks objects files ks dirs s t \<longleftrightarrow>
     objects t \<subseteq> objects s \<and> objects s - ks \<subseteq> objects t \<and> files t \<subseteq> files s \<and> files s - dirs \<times> UNIV \<subseteq> files t"

interpretation shrinking: store_order "shrinks objects files ks dirs" for objects files ks dirs
  by unfold_locales (auto simp: shrinks_def)

lemma delete_shrinks:
  assumes "media_laws st objects files"
  shows "k \<in> ks \<Longrightarrow> steps_within (shrinks objects files ks dirs) (call_store (ms_delete st k))"
    and "dir \<in> dirs \<Longrightarrow> steps_within (shrinks objects files ks dirs) (call_store (ms_unlink st dir p))"
  unfolding steps_within_def
  using assms by (auto simp: media_laws_def call_store_def shrinks_def Let_def split: prod.splits) blast+

lemma deleted_gone:
  assumes "media_laws st objects files"
  shows "ms_delete st k s = (True, t) \<Longrightarrow> k \<notin> objects t" and "ms_unlink st dir p s = (True, t) \<Longrightarrow> (dir, p) \<notin> files t"
proof -
  note l = assms [unfolded media_laws_def Let_def]
  show "k \<notin> objects t" if "ms_delete st k s = (True, t)" using spec [OF spec [OF conjunct1 [OF l], of k], of s] that by simp
  show "(dir, p) \<notin> files t" if "ms_unlink st dir p s = (True, t)"
    using spec [OF spec [OF spec [OF conjunct2 [OF l], of dir], of p], of s] that by simp
qed

section \<open>The keys of a match\<close>

definition in_match :: "uuid \<Rightarrow> string \<Rightarrow> string \<Rightarrow> bool" where
  "in_match owner a k \<longleftrightarrow> (\<exists>t rest. t \<in> {''artifacts'', ''source''} \<and> path_parts k = [''users'', uuid_text owner, ''analyses'', a, t] @ rest)"

lemma dropWhile_stop: "\<not> P y \<Longrightarrow> dropWhile P (xs @ y # ys) = dropWhile P xs @ y # ys"
  by (induction xs) auto

lemma strip_below:
  assumes "t \<in> {''artifacts'', ''source''}"
  shows "strip (below owner a (t @ CHR ''/'' # x)) = below owner a (t @ CHR ''/'' # rev (dropWhile is_space (rev x)))"
    "strip (below owner a t) = below owner a t"
proof -
  have "dropWhile is_space (below owner a z) = below owner a z" for z by (simp add: below_def is_space_def)
  then show "strip (below owner a (t @ CHR ''/'' # x)) = below owner a (t @ CHR ''/'' # rev (dropWhile is_space (rev x)))"
    by (simp add: strip_def below_def dropWhile_stop is_space_def)
  show "strip (below owner a t) = below owner a t" using assms by (intro below_strip) (auto simp: is_space_def)
qed

lemma validate_in_match:
  assumes a: "safe_identifier a = Inr b" and t: "t \<in> {''artifacts'', ''source''}"
    and v: "validate_object_key (below owner a (t @ y)) = Inr k" and y: "y = [] \<or> (\<exists>x. y = CHR ''/'' # x)"
  shows "in_match owner a k"
proof -
  let ?m = "map (\<lambda>c. if c = CHR 0x5C then CHR ''/'' else c)"
  have m: "?m (below owner a (t @ z)) = below owner a (t @ ?m z)" for z
    using t uuid_text_part(4) safe_identifier_part(5) [OF a] by (auto simp: below_def intro!: map_idI)
  have p: "path_parts t = [t]" "path_parts (t @ CHR ''/'' # z) = t # path_parts z" for z
    using t parts_append [of t] by (auto simp: path_parts_def)
  note k = validate_parts [OF v]
  from y show ?thesis
  proof
    assume "y = []"
    with k m [of "[]"] p show ?thesis
      using t by (auto simp: in_match_def strip_below [OF t] below_parts [OF a])
  next
    assume "\<exists>x. y = CHR ''/'' # x"
    then obtain x where "y = CHR ''/'' # x" by blast
    with k m [of "CHR ''/'' # rev (dropWhile is_space (rev x))"] p(2) show ?thesis
      using t by (auto simp: in_match_def strip_below [OF t] below_parts [OF a])
  qed
qed

text \<open>A key the deletion accepts, and the key the store is called with.\<close>

lemma artifact_key_in_match:
  assumes "artifact_object_key owner a l c = Inr k"
  shows "(\<exists>b. safe_identifier a = Inr b) \<and> in_match owner a k \<and> (\<exists>v. validate_object_key v = Inr k)"
proof -
  from assms obtain b ps where b: "safe_identifier a = Inr b"
    and v: "validate_object_key (''users/'' @ uuid_text owner @ ''/analyses/'' @ b @ ''/artifacts/'' @ as_posix ps) = Inr k"
    by (auto simp: artifact_object_key_def bindE_Inr_iff split: option.splits)
  have "validate_object_key (below owner a (''artifacts'' @ CHR ''/'' # as_posix ps)) = Inr k"
    using v safe_identifier_part(1) [OF b] by (simp add: below_def)
  with validate_in_match [OF b _ this] b v show ?thesis by auto
qed

lemma source_key_in_match:
  assumes "source_object_key owner a suffix = Inr k"
  shows "(\<exists>b. safe_identifier a = Inr b) \<and> in_match owner a k \<and> (\<exists>v. validate_object_key v = Inr k)"
proof -
  from assms obtain b where b: "safe_identifier a = Inr b"
    and v: "validate_object_key (''users/'' @ uuid_text owner @ ''/analyses/'' @ b @ ''/source/video'' @ lower suffix) = Inr k"
    by (auto simp: source_object_key_def bindE_Inr_iff Let_def split: if_splits)
  have "validate_object_key (below owner a (''source'' @ CHR ''/'' # ''video'' @ lower suffix)) = Inr k"
    using v safe_identifier_part(1) [OF b] by (simp add: below_def)
  with validate_in_match [OF b _ this] b v show ?thesis by auto
qed

lemma deleted_in_match:
  assumes "expected_keys rp a l c source = Inr ks" and "k \<in> set ks" and k': "validate_object_key k = Inr k'"
  shows "in_match (mr_owner rp) a k'"
proof -
  obtain b v where b: "safe_identifier a = Inr b" and m: "in_match (mr_owner rp) a k" and v: "validate_object_key v = Inr k"
    using assms(1,2) unfolding expected_keys_def
    by (auto simp: bindE_Inr_iff split: if_splits dest!: artifact_key_in_match source_key_in_match)
  from m obtain t rest where t: "t \<in> {''artifacts'', ''source''}"
    and p: "path_parts k = [''users'', uuid_text (mr_owner rp), ''analyses'', a, t] @ rest"
    by (auto simp: in_match_def)
  have "k = as_posix (path_parts k)" using validate_Inr [OF v] by metis
  then have "k = as_posix (''users'' # uuid_text (mr_owner rp) # ''analyses'' # a # t # rest)" unfolding p by simp
  then have "k = below (mr_owner rp) a (t @ (if rest = [] then [] else CHR ''/'' # join_on CHR ''/'' rest))"
    by (cases rest) (simp_all add: as_posix_def below_def)
  with k' have "validate_object_key (below (mr_owner rp) a (t @ (if rest = [] then [] else CHR ''/'' # join_on CHR ''/'' rest))) = Inr k'"
    by simp
  from validate_in_match [OF b t this] show ?thesis by simp
qed

section \<open>The phase on the store\<close>

text \<open>The directories a deletion looks into.\<close>

definition match_dirs :: "media_repository \<Rightarrow> string \<Rightarrow> string set" where
  "match_dirs rp a = insert (dir_of (mr_legacy_root rp) a)
     (\<Union>rt\<in>set (mr_roots rp). {dir_of rt a, dir_of (dir_of rt ''_uploads'') a})"

definition media_moves ::
    "media_repository \<Rightarrow> string \<Rightarrow> ('s \<Rightarrow> string set) \<Rightarrow> ('s \<Rightarrow> (string \<times> string) set) \<Rightarrow> 's \<Rightarrow> 's \<Rightarrow> bool" where
  "media_moves rp a objects files = shrinks objects files {k. in_match (mr_owner rp) a k} (match_dirs rp a)"

interpretation media: store_order "media_moves rp a objects files" for rp a objects files
  unfolding media_moves_def by (rule shrinking.store_order_axioms)

lemma local_delete_within:
  "media_laws st objects files \<Longrightarrow> dir \<in> match_dirs rp a \<Longrightarrow>
     steps_within (media_moves rp a objects files) (local_delete st dir key)"
  unfolding local_delete_def media_moves_def by (intro shrinking.within_raising delete_shrinks(2))

lemma source_copies_within:
  assumes "media_laws st objects files"
  shows "steps_within (media_moves rp a objects files) (delete_source_copies st rp a l)"
  unfolding delete_source_copies_def
  by (intro media.within_raising media.within_all)
    (auto simp: match_dirs_def intro!: local_delete_within [OF assms] media.within_none split: if_splits)

lemma delete_registered_within:
  assumes "media_laws st objects files"
  shows "steps_within (media_moves rp a objects files) (delete_registered st rp a provider key l c source)"
proof -
  have o: "steps_within (media_moves rp a objects files) (object_delete st key)"
    if "expected_keys rp a l c source = Inr ks" "key \<in> set ks" for ks
    unfolding object_delete_def media_moves_def
    by (intro shrinking.within_raising delete_shrinks(1) [OF assms]) (simp add: deleted_in_match [OF that])
  have "dir_of (mr_legacy_root rp) a \<in> match_dirs rp a" by (simp add: match_dirs_def)
  with o show ?thesis
    unfolding delete_registered_def
    by (intro media.within_and_then source_copies_within [OF assms])
      (auto simp: bindE_Inr_iff requireE_Inr_iff intro!: media.within_raising local_delete_within [OF assms] media.within_none)
qed

lemma purge_dir_within:
  assumes "media_laws st objects files" and d: "dir \<in> match_dirs rp a"
  shows "steps_within (media_moves rp a objects files) (purge_dir st b dir)"
proof -
  have e: "steps_within (media_moves rp a objects files) (purge_entry st b dir e)" for e
    using delete_shrinks(2) [OF assms] media.within_none unfolding purge_entry_def media_moves_def
    by (auto intro: shrinking.within_none)
  have "steps_within (media_moves rp a objects files) (all_steps (map (purge_entry st b dir) es))" for es
    using e by (intro media.within_all) auto
  then have "media_moves rp a objects files s (snd (all_steps (map (purge_entry st b dir) es) s))" for es s
    by (simp add: steps_within_def)
  then show ?thesis by (auto simp: steps_within_def purge_dir_def media.refl split: option.split)
qed

lemma purge_within:
  assumes "media_laws st objects files"
  shows "steps_within (media_moves rp a objects files) (purge_copies st rp b a)"
  unfolding purge_copies_def
  by (intro media.within_all) (auto simp: match_dirs_def intro!: purge_dir_within [OF assms])

lemma delete_objects_within:
  assumes "media_laws st objects files"
  shows "steps_within (media_moves rp a objects files) (delete_objects st rp a x)"
    and "steps_within (media_moves rp a objects files) (delete_recording_objects st rp a x)"
  unfolding delete_objects_def delete_recording_objects_def delete_artifact_def
  by (auto intro!: media.within_all media.within_raising delete_registered_within [OF assms] purge_within [OF assms] media.within_none)

section \<open>What a successful phase removed\<close>

text \<open>\<open>rglob\<close> lists every file of a directory.\<close>

definition entries_complete :: "'s media_store \<Rightarrow> ('s \<Rightarrow> (string \<times> string) set) \<Rightarrow> bool" where
  "entries_complete st files \<longleftrightarrow>
     (\<forall>dir s es p. ms_entries st dir s = Some es \<longrightarrow> (dir, p) \<in> files s \<longrightarrow> (\<exists>e\<in>set es. me_path e = p \<and> me_is_file e))"

text \<open>The object or file a registered artifact names is not there.\<close>

definition object_gone ::
    "media_repository \<Rightarrow> string \<Rightarrow> ('s \<Rightarrow> string set) \<Rightarrow> ('s \<Rightarrow> (string \<times> string) set) \<Rightarrow> 's \<Rightarrow> artifact \<Rightarrow> bool" where
  "object_gone rp a objects files s r =
     (case validate_object_key (art_storage_key r) of
        Inl _ \<Rightarrow> False
      | Inr k \<Rightarrow> if art_provider r = ''local'' then (dir_of (mr_legacy_root rp) a, k) \<notin> files s else k \<notin> objects s)"

definition copy_dirs :: "media_repository \<Rightarrow> string \<Rightarrow> string list" where
  "copy_dirs rp a = concat (map (\<lambda>rt. [dir_of rt a, dir_of (dir_of rt ''_uploads'') a]) (mr_roots rp))"

lemma copy_dirs_match: "dir \<in> set (copy_dirs rp a) \<Longrightarrow> dir \<in> match_dirs rp a"
  by (auto simp: copy_dirs_def match_dirs_def)

lemma moved_gone: "media_moves rp a objects files s t \<Longrightarrow> x \<notin> files s \<Longrightarrow> x \<notin> files t"
    "media_moves rp a objects files s t \<Longrightarrow> k \<notin> objects s \<Longrightarrow> k \<notin> objects t"
  by (auto simp: media_moves_def shrinks_def)

lemma object_gone_moved:
  "object_gone rp a objects files s r \<Longrightarrow> media_moves rp a objects files s t \<Longrightarrow> object_gone rp a objects files t r"
  by (auto simp: object_gone_def moved_gone split: sum.splits if_splits)

lemma delete_artifact_gone:
  assumes "media_laws st objects files" and "delete_artifact st rp a r s = (None, t)"
  shows "object_gone rp a objects files t r"
proof -
  from assms(2) obtain u where c: "delete_source_copies st rp a (art_logical_key r) u = (None, t)"
    and u: "object_gone rp a objects files u r"
    unfolding delete_artifact_def delete_registered_def and_then_None
    by (auto simp: raising_None local_delete_def object_delete_def call_store_None object_gone_def
        dest: deleted_gone [OF assms(1)] split: if_splits)
  have "media_moves rp a objects files u t"
    using source_copies_within [OF assms(1)] c unfolding steps_within_def by (metis snd_conv)
  with u show ?thesis by (rule object_gone_moved)
qed

lemma purge_dir_empties:
  assumes laws: "media_laws st objects files" and complete: "entries_complete st files"
    and dir: "dir \<in> match_dirs rp a" and p: "purge_dir st False dir s = (None, t)"
  shows "(dir, f) \<notin> files t"
proof -
  from p obtain es where es: "ms_entries st dir s = Some es" and t: "all_steps (map (purge_entry st False dir) es) s = (None, t)"
    by (auto simp: purge_dir_def split: option.splits)
  have within: "steps_within (media_moves rp a objects files) g" if "g \<in> set (map (purge_entry st False dir) es)" for g
    using that delete_shrinks(2) [OF laws dir]
    by (auto simp: purge_entry_def media_moves_def intro: shrinking.within_none)
  show ?thesis
  proof (cases "(dir, f) \<in> files s")
    case True
    with complete es obtain e where e: "e \<in> set es" "me_path e = f" "me_is_file e"
      unfolding entries_complete_def by blast
    from media.all_steps_member [OF t _ within, of "purge_entry st False dir e"] e(1)
    obtain u v where uv: "purge_entry st False dir e u = (None, v)" "media_moves rp a objects files v t" by auto
    then have "(dir, f) \<notin> files v"
      using e by (simp add: purge_entry_def call_store_None deleted_gone [OF laws] split: if_splits)
    with uv(2) show ?thesis by (rule moved_gone(1))
  next
    case False
    moreover have "media_moves rp a objects files s t"
      using media.within_all [OF within] t unfolding steps_within_def by (metis snd_conv)
    ultimately show ?thesis by (metis moved_gone(1))
  qed
qed

lemma delete_objects_gone:
  assumes laws: "media_laws st objects files" and complete: "entries_complete st files"
    and x: "delete_objects st rp a x s = (None, t)"
  shows "r \<in> set (dl_artifacts x) \<Longrightarrow> object_gone rp a objects files t r"
    and "dir \<in> set (copy_dirs rp a) \<Longrightarrow> (dir, f) \<notin> files t"
proof -
  let ?fs = "[raising (requireE (\<not> (or_else (dl_key x) [] \<noteq> [] \<and> dl_logical x = [])) (JobConflictError ''unsafe_media_key''))
           (\<lambda>_ s. (None, s)),
         (if or_else (dl_key x) [] \<noteq> [] \<and> dl_logical x \<noteq> []
          then delete_registered st rp a (dl_provider x) (or_else (dl_key x) []) (dl_logical x) None True
          else (\<lambda>s. (None, s)))]
        @ map (delete_artifact st rp a) (dl_artifacts x)
        @ [purge_copies st rp False a]"
  have t: "all_steps ?fs s = (None, t)" using x by (simp only: delete_objects_def)
  have within: "steps_within (media_moves rp a objects files) g" if "g \<in> set ?fs" for g
    using that delete_registered_within [OF laws] purge_within [OF laws]
    by (auto simp: delete_artifact_def intro!: media.within_raising media.within_none split: if_splits)
  show "object_gone rp a objects files t r" if "r \<in> set (dl_artifacts x)"
  proof -
    from media.all_steps_member [OF t _ within, of "delete_artifact st rp a r"] that
    obtain u v where "delete_artifact st rp a r u = (None, v)" "media_moves rp a objects files v t" by auto
    then show ?thesis by (metis delete_artifact_gone [OF laws] object_gone_moved)
  qed
  show "(dir, f) \<notin> files t" if d: "dir \<in> set (copy_dirs rp a)"
  proof -
    from media.all_steps_member [OF t _ within, of "purge_copies st rp False a"]
    obtain u v where uv: "purge_copies st rp False a u = (None, v)" "media_moves rp a objects files v t" by auto
    let ?gs = "map (purge_dir st False) (copy_dirs rp a)"
    have "all_steps ?gs u = (None, v)" using uv(1) by (simp add: purge_copies_def copy_dirs_def)
    moreover have "steps_within (media_moves rp a objects files) g" if "g \<in> set ?gs" for g
      using that purge_dir_within [OF laws] copy_dirs_match by auto
    ultimately obtain u' v' where "purge_dir st False dir u' = (None, v')" "media_moves rp a objects files v' v"
      using media.all_steps_member [of ?gs u v "purge_dir st False dir" rp a objects files] d by auto
    then have "(dir, f) \<notin> files v" by (metis purge_dir_empties [OF laws complete copy_dirs_match [OF d]] moved_gone(1))
    with uv(2) show ?thesis by (rule moved_gone(1))
  qed
qed

end
