(* ===== verification/Deletion_Properties.thy ===== *)
theory Deletion_Properties
  imports Deletion_Laws Run_Demo
begin

text \<open>
  The correctness properties of the deletions: what they erase, what they leave alone
  whatever fails, and that an interrupted deletion is completed by repeating it.
\<close>

section \<open>A match and its store\<close>

text \<open>
  The match of \<open>Run_Demo\<close>, analysed: its recording and one report are objects, one preview
  is a local file, and the other user's object is in the same bucket. \<open>demo_refusing\<close> is
  the same store while it refuses to delete objects.
\<close>

type_synonym demo_media_state = "string list \<times> (string \<times> string) list"

definition demo_media :: "demo_media_state media_store" where
  "demo_media = \<lparr>ms_provider = ''s3'', ms_delete = (\<lambda>k s. (True, (removeAll k (fst s), snd s))),
     ms_unlink = (\<lambda>dir p s. (True, (fst s, removeAll (dir, p) (snd s)))),
     ms_entries = (\<lambda>dir s. Some (map (\<lambda>f. \<lparr>me_path = snd f, me_name = snd f, me_is_file = True, me_escapes = False\<rparr>)
        (filter (\<lambda>f. fst f = dir) (snd s))))\<rparr>"

definition demo_refusing :: "demo_media_state media_store" where
  "demo_refusing = demo_media\<lparr>ms_delete := (\<lambda>k s. (False, s))\<rparr>"

definition demo_media_repo :: media_repository where
  "demo_media_repo = \<lparr>mr_owner = 1, mr_legacy_root = ''legacy'', mr_roots = [''work'', ''legacy'']\<rparr>"

definition demo_key :: "string \<Rightarrow> string" where
  "demo_key p = ''users/00000000-0000-0000-0000-000000000001/analyses/an-1/'' @ p"

definition demo_objects :: demo_media_state where
  "demo_objects = ([demo_key ''source/video.mp4'', demo_key ''artifacts/report.json'', ''users/other''],
     [(''work/an-1'', ''m.mp4''), (''legacy/an-1'', ''preview.mp4''), (''legacy/an-2'', ''m.mp4'')])"

definition demo_artifact :: "uuid \<Rightarrow> string \<Rightarrow> string \<Rightarrow> string \<Rightarrow> string \<Rightarrow> string \<Rightarrow> artifact" where
  "demo_artifact k kind provider key l ct = \<lparr>art_id = k, art_owner = 1, art_analysis_id = ''an-1'', art_run_id = None,
     art_stage_id = None, art_kind = kind, art_provider = provider, art_storage_key = key, art_logical_key = l,
     art_content_type = ct, art_size = 10, art_checksum = replicate 64 CHR ''d'', art_schema_version = Some 1,
     art_state = AAvailable, art_is_current = True, art_created_at = 5, art_updated_at = 5\<rparr>"

definition demo_match :: db where
  "demo_match = demo_db1
     \<lparr>videos := [(pending_video 11 5 demo_reserve)\<lparr>vid_state := VAvailable, vid_provider := ''s3'',
        vid_storage_key := Some (demo_key ''source/video.mp4'')\<rparr>],
      analyses := [demo_analysis\<lparr>an_state := Completed,
        an_job_payload := [''source_video'' \<mapsto> JStr ''m.mp4'', ''analytics_completed'' \<mapsto> JBool True]\<rparr>],
      artifacts := [demo_artifact 40 ''source_video'' ''s3'' (demo_key ''source/video.mp4'') ''m.mp4'' ''video/mp4'',
        demo_artifact 41 ''report'' ''s3'' (demo_key ''artifacts/report.json'') ''report.json'' ''application/json'',
        demo_artifact 42 ''preview'' ''local'' ''preview.mp4'' ''preview.mp4'' ''video/mp4'']\<rparr>"

lemma demo_media_laws: "media_laws demo_media (\<lambda>s. set (fst s)) (\<lambda>s. set (snd s))"
    "media_laws demo_refusing (\<lambda>s. set (fst s)) (\<lambda>s. set (snd s))" "entries_complete demo_media (\<lambda>s. set (snd s))"
  by (auto simp: media_laws_def demo_media_def demo_refusing_def entries_complete_def)

section \<open>The transactions\<close>

text \<open>What the first transaction of a match deletion found and wrote.\<close>

definition deletion_begun :: "time \<Rightarrow> string \<Rightarrow> uuid \<Rightarrow> db \<Rightarrow> db" where
  "deletion_begun now a v d = modify_video v (deleting_video now)
     (modify_analysis a (request_deletion now) (retire_active now a d))"

lemma owned_match_Some:
  "owned_match owner a d = Some r \<Longrightarrow> r \<in> set (analyses d) \<and> an_id r = a \<and> an_owner r = owner"
  unfolding owned_match_def by (drule find_Some_in) simp

lemma get_video_Some: "get_video d k = Some v \<Longrightarrow> v \<in> set (videos d) \<and> vid_id v = k"
  unfolding get_video_def by (drule find_Some_in) simp

lemma begin_deletion_Inr:
  assumes "begin_deletion owner now a d = Inr (Some x, d')"
  obtains r v where "owned_match owner a d = Some r" "an_lifecycle r \<noteq> Deleted" "get_video d (an_video_id r) = Some v"
    "vid_owner v = owner" "\<not> shared_video v a d"
    "\<not> list_ex (\<lambda>s. up_analysis_id s = a \<and> in_flight (up_status s)) (upload_sessions d)"
    "x = deletion_of owner a r v d" "d' = deletion_begun now a (vid_id v) d"
    "r \<in> set (analyses d)" "an_id r = a" "an_owner r = owner" "vid_id v = an_video_id r"
  using assms owned_match_Some get_video_Some
  by (fastforce simp: begin_deletion_def deletion_begun_def split: option.splits if_splits)

lemma deleting_video_simps [simp]:
  "vid_id (deleting_video now v) = vid_id v" "vid_owner (deleting_video now v) = vid_owner v"
  "vid_provider (deleting_video now v) = vid_provider v" "vid_storage_key (deleting_video now v) = vid_storage_key v"
  "vid_state (deleting_video now v) = VDeleting"
  by (simp_all add: deleting_video_def)

lemma request_deletion_simps [simp]:
  "an_id (request_deletion now r) = an_id r" "an_owner (request_deletion now r) = an_owner r"
  "an_video_id (request_deletion now r) = an_video_id r" "an_job_payload (request_deletion now r) = an_job_payload r"
  "an_lifecycle (request_deletion now r) = DeletionPending"
  by (simp_all add: request_deletion_def)

lemma begun_tables [simp]:
  "artifacts (deletion_begun now a v d) = artifacts d" "upload_sessions (deletion_begun now a v d) = upload_sessions d"
  "analyses (deletion_begun now a v d) = update_where (\<lambda>r. an_id r = a) (request_deletion now) (analyses d)"
  "videos (deletion_begun now a v d) = update_where (\<lambda>r. vid_id r = v) (deleting_video now) (videos d)"
  by (simp_all add: deletion_begun_def modify_video_def modify_analysis_def retire_active_def)

text \<open>Begun again, a deletion finds the same manifest.\<close>

lemma begin_deletion_again:
  assumes "begin_deletion owner now a d = Inr (Some x, d')"
  shows "\<exists>d2. begin_deletion owner now' a d' = Inr (Some x, d2)"
  using assms
proof (rule begin_deletion_Inr)
  fix r v
  assume r: "owned_match owner a d = Some r" "an_lifecycle r \<noteq> Deleted" "get_video d (an_video_id r) = Some v"
    "vid_owner v = owner" "\<not> shared_video v a d"
    "\<not> list_ex (\<lambda>s. up_analysis_id s = a \<and> in_flight (up_status s)) (upload_sessions d)"
    and x: "x = deletion_of owner a r v d" and d': "d' = deletion_begun now a (vid_id v) d"
    and "r \<in> set (analyses d)" "an_id r = a" "an_owner r = owner" "vid_id v = an_video_id r"
  have "owned_match owner a d' = Some (request_deletion now r)"
    using r(1) owned_match_Some [OF r(1)] unfolding owned_match_def d' by (simp add: find_update_where)
  moreover have "get_video d' (an_video_id r) = Some (deleting_video now v)"
    using r(3) find_Some_in [OF r(3) [unfolded get_video_def]] unfolding get_video_def d' by (simp add: find_update_where)
  moreover have "shared_video (deleting_video now v) a d' = shared_video v a d"
    unfolding shared_video_def d' by (simp add: list_ex_update_where)
  moreover have "deletion_of owner a (request_deletion now r) (deleting_video now v) d' = x"
    by (simp add: x d' deletion_of_def owned_artifacts_def)
  ultimately show ?thesis using r by (auto simp: begin_deletion_def d')
qed

section \<open>What is left alone\<close>

text \<open>
  The database without the match \<open>a\<close> of \<open>owner\<close>: its row and the row of its recording, its
  artifacts, runs, stages, events, selections and verifications, and the idempotency records
  and uploads of the owner that name it. Users, sessions and tokens are all kept.
\<close>

definition unrelated :: "uuid \<Rightarrow> string \<Rightarrow> db \<Rightarrow> db" where
  "unrelated owner a d = d
     \<lparr>analyses := filter (\<lambda>r. an_id r \<noteq> a) (analyses d),
      videos := filter (\<lambda>v. \<not> list_ex (\<lambda>r. an_id r = a \<and> an_video_id r = vid_id v) (analyses d)) (videos d),
      artifacts := filter (\<lambda>r. art_analysis_id r \<noteq> a) (artifacts d),
      selections := filter (\<lambda>r. ps_analysis_id r \<noteq> a) (selections d),
      verifications := filter (\<lambda>r. cv_analysis_id r \<noteq> a) (verifications d),
      stages := filter (\<lambda>r. se_analysis_id r \<noteq> a) (stages d),
      events := filter (\<lambda>r. ev_analysis_id r \<noteq> a) (events d),
      runs := filter (\<lambda>r. run_analysis_id r \<noteq> a) (runs d),
      idem_records := filter (\<lambda>r. \<not> (idem_owner r = owner \<and> idem_resource_id r = Some a)) (idem_records d),
      upload_sessions := filter (\<lambda>s. \<not> (up_owner s = owner \<and> up_analysis_id s = a)) (upload_sessions d)\<rparr>"

lemma unrelated_analysis:
  "(\<And>r. an_id (f r) = an_id r) \<Longrightarrow> (\<And>r. an_video_id (f r) = an_video_id r) \<Longrightarrow>
     unrelated owner a (modify_analysis a f d) = unrelated owner a d"
  by (simp add: unrelated_def modify_analysis_def filter_update_outside list_ex_update_where)

lemma unrelated_video:
  assumes f: "\<And>v. vid_id (f v) = vid_id v" and k: "list_ex (\<lambda>r. an_id r = a \<and> an_video_id r = k) (analyses d)"
  shows "unrelated owner a (modify_video k f d) = unrelated owner a d"
proof -
  have "filter (\<lambda>v. \<not> list_ex (\<lambda>r. an_id r = a \<and> an_video_id r = vid_id v) (analyses d)) (update_where (\<lambda>r. vid_id r = k) f (videos d))
      = filter (\<lambda>v. \<not> list_ex (\<lambda>r. an_id r = a \<and> an_video_id r = vid_id v) (analyses d)) (videos d)"
    by (rule filter_update_outside) (simp add: f k)
  then show ?thesis by (simp add: unrelated_def modify_video_def)
qed

lemma unrelated_retired: "unrelated owner a (retire_active now a d) = unrelated owner a d"
proof -
  have "filter (\<lambda>r. run_analysis_id r \<noteq> a) (runs (retire_active now a d)) = filter (\<lambda>r. run_analysis_id r \<noteq> a) (runs d)"
    and "filter (\<lambda>r. se_analysis_id r \<noteq> a) (stages (retire_active now a d)) = filter (\<lambda>r. se_analysis_id r \<noteq> a) (stages d)"
    by (simp_all add: retire_active_def) (rule filter_update_outside, simp)+
  then show ?thesis by (simp add: unrelated_def retire_active_def)
qed

lemma list_ex_analysis:
  "(\<And>r. an_id (f r) = an_id r) \<Longrightarrow> (\<And>r. an_video_id (f r) = an_video_id r) \<Longrightarrow>
     list_ex (\<lambda>r. an_id r = a \<and> an_video_id r = k) (analyses (modify_analysis b f d))
     = list_ex (\<lambda>r. an_id r = a \<and> an_video_id r = k) (analyses d)"
  by (simp add: modify_analysis_def list_ex_update_where)

lemma unrelated_begun:
  assumes "r \<in> set (analyses d)" "an_id r = a" "an_video_id r = v"
  shows "unrelated owner a (deletion_begun now a v d) = unrelated owner a d"
proof -
  have "list_ex (\<lambda>r. an_id r = a \<and> an_video_id r = v) (analyses (retire_active now a d))"
    using assms by (auto simp: list_ex_iff retire_active_def)
  then show ?thesis
    unfolding deletion_begun_def by (simp add: unrelated_video unrelated_analysis unrelated_retired list_ex_analysis)
qed

lemma erase_simps [simp]:
  "an_id (erase_analysis now r) = an_id r" "an_owner (erase_analysis now r) = an_owner r"
  "an_video_id (erase_analysis now r) = an_video_id r" "an_lifecycle (erase_analysis now r) = Deleted"
  "an_job_payload (erase_analysis now r) = Map.empty" "an_promoted_run_id (erase_analysis now r) = None"
  "vid_id (erase_video now v) = vid_id v" "vid_owner (erase_video now v) = vid_owner v"
  "vid_storage_key (erase_video now v) = None" "vid_metadata (erase_video now v) = Map.empty"
  by (simp_all add: erase_analysis_def erase_video_def)

lemma erase_upload_simps [simp]:
  "up_owner (erase_upload now s) = up_owner s" "up_analysis_id (erase_upload now s) = up_analysis_id s"
  by (simp_all add: erase_upload_def)

lemma finish_deletion_Inr:
  "finish_deletion owner now a v d = Inr (u, d') \<longleftrightarrow> get_analysis d a \<noteq> None \<and> get_video d v \<noteq> None
     \<and> d' = modify_video v (erase_video now) (modify_analysis a (erase_analysis now) (erase_content owner now a d))"
  by (auto simp: finish_deletion_def bindE_Inr_iff requireE_Inr_iff)

lemma erased_tables:
  "idem_records (erase_content owner now a d) = update_where (\<lambda>r. idem_owner r = owner \<and> idem_resource_id r = Some a)
     (\<lambda>r. r\<lparr>idem_response := None, idem_updated_at := now\<rparr>) (idem_records d)"
  "upload_sessions (erase_content owner now a d) =
     update_where (\<lambda>s. up_owner s = owner \<and> up_analysis_id s = a) (erase_upload now) (upload_sessions d)"
  by (simp_all add: erase_content_def)

lemma unrelated_erased: "unrelated owner a (erase_content owner now a d) = unrelated owner a d"
proof -
  have "filter (\<lambda>r. \<not> (idem_owner r = owner \<and> idem_resource_id r = Some a)) (idem_records (erase_content owner now a d))
      = filter (\<lambda>r. \<not> (idem_owner r = owner \<and> idem_resource_id r = Some a)) (idem_records d)"
    and "filter (\<lambda>s. \<not> (up_owner s = owner \<and> up_analysis_id s = a)) (upload_sessions (erase_content owner now a d))
      = filter (\<lambda>s. \<not> (up_owner s = owner \<and> up_analysis_id s = a)) (upload_sessions d)"
    unfolding erased_tables by (rule filter_update_outside, simp)+
  then show ?thesis
    by (simp add: unrelated_def erase_content_def)
qed

lemma unrelated_finished:
  assumes "r \<in> set (analyses d)" "an_id r = a" "an_video_id r = v" and "finish_deletion owner now a v d = Inr (u, d')"
  shows "unrelated owner a d' = unrelated owner a d"
proof -
  have "list_ex (\<lambda>r. an_id r = a \<and> an_video_id r = v) (analyses (erase_content owner now a d))"
    using assms by (auto simp: list_ex_iff erase_content_def)
  then show ?thesis
    using assms(4) unfolding finish_deletion_Inr
    by (auto simp: unrelated_video unrelated_analysis unrelated_erased list_ex_analysis)
qed

lemma delete_match_cases:
  assumes "delete_match st rp locked env now later a (d, s) = (res, (d', s'))"
  obtains (unchanged) "d' = d" "s' = s" "res = Inr () \<longrightarrow> (\<exists>r. owned_match (mr_owner rp) a d = Some r \<and> an_lifecycle r = Deleted)"
  | (store_failed) x e where "begin_deletion (mr_owner rp) now a d = Inr (Some x, d')"
      "delete_objects st rp a x s = (Some e, s')" "res \<noteq> Inr ()"
  | (store_done) x d1 s1 d2 where "begin_deletion (mr_owner rp) now a d = Inr (Some x, d1)"
      "delete_objects st rp a x s = (None, s1)" "env (d1, s1) = (d2, s')"
      "transact (finish_deletion (mr_owner rp) later a (dl_video_id x)) d2 = (res, d')"
proof (cases "begin_deletion (mr_owner rp) now a d")
  case (Inl e)
  with assms that(1) show ?thesis by (auto simp: delete_match_def split: sum.splits if_splits)
next
  case (Inr b)
  obtain m d1 where b: "b = (m, d1)" by (cases b)
  show ?thesis
  proof (cases m)
    case None
    with Inr b have "d1 = d" "\<exists>r. owned_match (mr_owner rp) a d = Some r \<and> an_lifecycle r = Deleted"
      by (auto simp: begin_deletion_def split: option.splits if_splits)
    with None Inr b assms that(1) show ?thesis by (auto simp: delete_match_def split: sum.splits if_splits)
  next
    case (Some x)
    obtain e s1 where e: "delete_objects st rp a x s = (e, s1)" by (cases "delete_objects st rp a x s")
    note parts = Some Inr b assms that e
    show ?thesis
    proof (cases e)
      case None
      obtain d2 s2 where "env (d1, s1) = (d2, s2)" by (cases "env (d1, s1)")
      with parts None show ?thesis by (auto simp: delete_match_def split: sum.splits if_splits prod.splits)
    next
      case (Some f)
      with parts show ?thesis
        by (cases f) (auto simp: delete_match_def split: sum.splits if_splits prod.splits)
    qed
  qed
qed

text \<open>
  C22: Whatever the deletion of a match answers, and whatever the store does when it fails,
  the rest of the database is exactly as it was, and of the store at most objects under the
  two key directories of this match and files in its own local directories are gone.
\<close>

theorem match_deletion_scoped:
  assumes "media_laws st objects files"
    and "delete_match st rp locked (\<lambda>w. w) now later a (d, s) = (res, (d', s'))"
  shows "unrelated (mr_owner rp) a d' = unrelated (mr_owner rp) a d
    \<and> objects s' \<subseteq> objects s \<and> files s' \<subseteq> files s
    \<and> objects s - objects s' \<subseteq> {k. in_match (mr_owner rp) a k} \<and> files s - files s' \<subseteq> match_dirs rp a \<times> UNIV"
proof -
  have begun: "unrelated (mr_owner rp) a d1 = unrelated (mr_owner rp) a d"
    if "begin_deletion (mr_owner rp) now a d = Inr (Some x, d1)" for x d1
    using that by (rule begin_deletion_Inr) (metis unrelated_begun)
  have objects: "media_moves rp a objects files s s1" if "delete_objects st rp a x s = (e, s1)" for x e s1
    using delete_objects_within(1) [OF assms(1)] that unfolding steps_within_def by (metis snd_conv)
  have store: "objects s' \<subseteq> objects s \<and> files s' \<subseteq> files s
      \<and> objects s - objects s' \<subseteq> {k. in_match (mr_owner rp) a k} \<and> files s - files s' \<subseteq> match_dirs rp a \<times> UNIV"
    if "media_moves rp a objects files s s'"
    using that by (auto simp: media_moves_def shrinks_def)
  from assms(2) show ?thesis
  proof (cases rule: delete_match_cases)
    case unchanged
    then show ?thesis by simp
  next
    case (store_failed x e)
    then show ?thesis using begun store objects by blast
  next
    case (store_done x d1 s1 d2)
    from store_done(3) have [simp]: "d2 = d1" "s1 = s'" by simp_all
    from store_done(1) obtain r v where r: "r \<in> set (analyses d)" "an_id r = a" "vid_id v = an_video_id r"
      and x: "x = deletion_of (mr_owner rp) a r v d" and d1: "d1 = deletion_begun now a (vid_id v) d"
      by (rule begin_deletion_Inr)
    have "request_deletion now r \<in> set (analyses d1)"
      unfolding d1 using r by (auto simp: in_update_where)
    moreover have "dl_video_id x = an_video_id r"
      using r(3) by (simp add: x deletion_of_def)
    ultimately have "unrelated (mr_owner rp) a d' = unrelated (mr_owner rp) a d1"
      using store_done(4) r(2)
      by (auto simp: transact_def split: sum.splits prod.splits intro!: unrelated_finished)
    with store_done(1,2) begun store objects show ?thesis by auto
  qed
qed

theorem match_deletion_scoped_witness:
  "\<exists>d' s'. delete_match demo_refusing demo_media_repo True (\<lambda>w. w) 6 7 ''an-1'' (demo_match, demo_objects) = (Inl JobStorageBackendError, (d', s'))
     \<and> unrelated 1 ''an-1'' d' = unrelated 1 ''an-1'' demo_match
     \<and> set (fst demo_objects) - set (fst s') \<subseteq> {k. in_match 1 ''an-1'' k}"
proof -
  let ?x = "delete_match demo_refusing demo_media_repo True (\<lambda>w. w) 6 7 ''an-1'' (demo_match, demo_objects)"
  have "fst ?x = Inl JobStorageBackendError" by code_simp
  then obtain d' s' where x: "?x = (Inl JobStorageBackendError, (d', s'))" by (cases ?x) auto
  have "mr_owner demo_media_repo = 1" by (simp add: demo_media_repo_def)
  with match_deletion_scoped [OF demo_media_laws(2) x] x show ?thesis by auto
qed

section \<open>What is erased\<close>


lemma get_analysis_modified:
  "(\<And>r. an_id (f r) = an_id r) \<Longrightarrow> get_analysis (modify_analysis a f d) a = map_option f (get_analysis d a)"
  unfolding get_analysis_def modify_analysis_def
  by (auto simp: find_update_where dest: find_Some_in split: option.split intro!: map_option_cong)

lemma get_video_modified:
  "(\<And>v. vid_id (f v) = vid_id v) \<Longrightarrow> get_video (modify_video k f d) k = map_option f (get_video d k)"
  unfolding get_video_def modify_video_def
  by (auto simp: find_update_where dest: find_Some_in split: option.split intro!: map_option_cong)

lemma get_elsewhere [simp]:
  "get_analysis (modify_video k f d) a = get_analysis d a" "get_video (modify_analysis a g d) k = get_video d k"
  "get_analysis (erase_content owner now b d) a = get_analysis d a" "get_video (erase_content owner now b d) k = get_video d k"
  "get_analysis (retire_active now b d) a = get_analysis d a" "get_video (retire_active now b d) k = get_video d k"
  "get_video (modify_artifacts p h d) k = get_video d k"
  by (simp_all add: modify_artifacts_def get_analysis_def get_video_def modify_video_def modify_analysis_def erase_content_def retire_active_def)

lemma finished_analysis_row:
  "finish_deletion owner now a v d = Inr (u, d') \<Longrightarrow> get_analysis d' a = map_option (erase_analysis now) (get_analysis d a)"
  by (auto simp: finish_deletion_Inr get_analysis_modified)

lemma begun_rows:
  "get_analysis (deletion_begun now a v d) a = map_option (request_deletion now) (get_analysis d a)"
  "get_video (deletion_begun now a v d) v = map_option (deleting_video now) (get_video d v)"
  by (simp_all add: deletion_begun_def get_analysis_modified get_video_modified)




section \<open>Deleting again\<close>

text \<open>
  C24: When the store fails under the deletion of a match, the match is \<open>deletion_pending\<close>,
  neither it nor its recording can be deleted as a live one, and deleting it again, once
  the store has the same objects deleted, finishes the deletion.
\<close>

theorem deletion_resumes:
  assumes "distinct (map an_id (analyses d))" and "validate_analysis_id a = Inr a"
    and "begin_deletion (mr_owner rp) now a d = Inr (Some x, d1)" and "delete_objects st rp a x s = (Some e, s1)"
    and "delete_objects st' rp a x s1 = (None, s2)"
  shows "(\<exists>err. delete_match st rp True env now later a (d, s) = (Inl err, (d1, s1)))
    \<and> match_status rp a d1 = Inr DeletionPending
    \<and> begin_source_deletion isofmt (mr_owner rp) now' a d1 = Inl JobNotFoundError
    \<and> (\<exists>d2. delete_match st' rp True (\<lambda>w. w) now' later' a (d1, s1) = (Inr (), (d2, s2)) \<and> match_status rp a d2 = Inr Deleted)"
proof (intro conjI)
  from assms(3) obtain r v where r: "owned_match (mr_owner rp) a d = Some r" "r \<in> set (analyses d)" "an_id r = a" "an_owner r = mr_owner rp"
      and v: "get_video d (an_video_id r) = Some v" "vid_id v = an_video_id r"
    and x: "x = deletion_of (mr_owner rp) a r v d" and d1: "d1 = deletion_begun now a (vid_id v) d"
    by (rule begin_deletion_Inr)
  show "\<exists>err. delete_match st rp True env now later a (d, s) = (Inl err, (d1, s1))"
    using assms(2-4) by (cases e) (simp_all add: delete_match_def)
  have row: "get_analysis d1 a = Some (request_deletion now r)"
    using get_analysis_unique [OF assms(1) r(2,3)] by (simp add: d1 begun_rows)
  then show "match_status rp a d1 = Inr DeletionPending" using assms(2) r(4) by (simp add: match_status_def)
  have "owned_match (mr_owner rp) a d1 = Some (request_deletion now r)"
    using r unfolding owned_match_def d1 by (simp add: find_update_where)
  then show "begin_source_deletion isofmt (mr_owner rp) now' a d1 = Inl JobNotFoundError"
    by (simp add: begin_source_deletion_def)
  obtain d2 where d2: "begin_deletion (mr_owner rp) now' a d1 = Inr (Some x, d2)"
    using begin_deletion_again [OF assms(3)] by blast
  then obtain r' v' where r': "r' \<in> set (analyses d1)" "an_id r' = a" and v': "get_video d1 (an_video_id r') = Some v'" "vid_id v' = an_video_id r'"
    and x': "x = deletion_of (mr_owner rp) a r' v' d1" and d2': "d2 = deletion_begun now' a (vid_id v') d1"
    by (rule begin_deletion_Inr)
  have "get_video d2 (dl_video_id x) \<noteq> None" "get_analysis d2 a \<noteq> None"
    using v' row by (simp_all add: x' d2' deletion_of_def begun_rows)
  then obtain d3 where d3: "finish_deletion (mr_owner rp) later' a (dl_video_id x) d2 = Inr ((), d3)"
    by (auto simp: finish_deletion_Inr)
  have "delete_match st' rp True (\<lambda>w. w) now' later' a (d1, s1) = (Inr (), (d3, s2))"
    using assms(2,5) d2 d3 by (simp add: delete_match_def transact_def)
  moreover have "match_status rp a d3 = Inr Deleted"
    using finished_analysis_row [OF d3] row assms(2) r(4) by (simp add: match_status_def d2' begun_rows)
  ultimately show "\<exists>d2. delete_match st' rp True (\<lambda>w. w) now' later' a (d1, s1) = (Inr (), (d2, s2)) \<and> match_status rp a d2 = Inr Deleted"
    by blast
qed

theorem deletion_resumes_witness:
  "\<exists>d1 s1 d2 s2. match_status demo_media_repo ''an-1'' d1 = Inr DeletionPending
     \<and> delete_match demo_media demo_media_repo True (\<lambda>w. w) 8 9 ''an-1'' (d1, s1) = (Inr (), (d2, s2))
     \<and> match_status demo_media_repo ''an-1'' d2 = Inr Deleted"
proof -
  let ?b = "begin_deletion (mr_owner demo_media_repo) 6 ''an-1'' demo_match"
  let ?m = "case ?b of Inr (Some x, d) \<Rightarrow> x | _ \<Rightarrow> undefined"
  have "case ?b of Inr (Some x, d) \<Rightarrow>
      (case delete_objects demo_refusing demo_media_repo ''an-1'' x demo_objects of
         (e, s1) \<Rightarrow> e \<noteq> None \<and> fst (delete_objects demo_media demo_media_repo ''an-1'' x s1) = None)
    | _ \<Rightarrow> False" by code_simp
  then obtain x d1 e s1 s2 where b: "?b = Inr (Some x, d1)"
    and o1: "delete_objects demo_refusing demo_media_repo ''an-1'' x demo_objects = (Some e, s1)"
    and o2: "delete_objects demo_media demo_media_repo ''an-1'' x s1 = (None, s2)"
    by (auto split: sum.splits prod.splits option.splits)
      (metis (no_types, lifting) prod.collapse option.exhaust)
  have "distinct (map an_id (analyses demo_match))" by code_simp
  moreover have "validate_analysis_id ''an-1'' = Inr ''an-1''" by code_simp
  ultimately show ?thesis using deletion_resumes [OF _ _ b o1 o2, where now' = 8 and later' = 9] by blast
qed

section \<open>Deleting the recording\<close>

lemma delete_source_cases:
  assumes "delete_source st rp isofmt env now later a (d, s) = (res, (d', s'))"
  obtains (unchanged) "d' = d" "s' = s" "res \<noteq> Inr ()"
  | (begun) x where "begin_source_deletion isofmt (mr_owner rp) now a d = Inr (x, d')" "res \<noteq> Inr ()"
  | (store_done) x d1 s1 d2 where "begin_source_deletion isofmt (mr_owner rp) now a d = Inr (x, d1)"
      "delete_recording_objects st rp a x s = (None, s1)" "env (d1, s1) = (d2, s')"
      "transact (finish_source_deletion isofmt (mr_owner rp) later a x) d2 = (res, d')"
proof (cases "begin_source_deletion isofmt (mr_owner rp) now a d")
  case (Inl e)
  with assms that(1) show ?thesis by (auto simp: delete_source_def split: sum.splits)
next
  case (Inr b)
  obtain x d1 where b: "b = (x, d1)" by (cases b)
  obtain e s1 where e: "delete_recording_objects st rp a x s = (e, s1)" by (cases "delete_recording_objects st rp a x s")
  note parts = Inr b assms that e
  show ?thesis
  proof (cases e)
    case None
    obtain d2 s2 where "env (d1, s1) = (d2, s2)" by (cases "env (d1, s1)")
    with parts None show ?thesis by (auto simp: delete_source_def split: sum.splits prod.splits)
  next
    case (Some f)
    with parts show ?thesis by (cases f) (auto simp: delete_source_def split: sum.splits prod.splits)
  qed
qed

lemma begin_source_deletion_Inr:
  assumes "begin_source_deletion isofmt owner now a d = Inr (x, d')"
  obtains r v where "r \<in> set (analyses d)" "an_id r = a" "get_video d (an_video_id r) = Some v" "dl_video_id x = an_video_id r"
    "dl_artifacts x = filter is_recording (owned_artifacts owner a d)"
    "d' = modify_video (an_video_id r) (request_source_deletion isofmt now) d"
  using assms owned_match_Some get_video_Some
  by (fastforce simp: begin_source_deletion_def deletion_of_def split: option.splits if_splits)

lemma finish_source_deletion_Inr:
  "finish_source_deletion isofmt owner now a x d = Inr (u, d') \<longleftrightarrow> get_video d (dl_video_id x) \<noteq> None
     \<and> d' = modify_artifacts
       (\<lambda>r. art_analysis_id r = a \<and> art_owner r = owner \<and> art_id r \<in> set (map art_id (dl_artifacts x)))
       (\<lambda>r. if art_state r = ADeleted then r else r\<lparr>art_state := ADeleted, art_updated_at := now\<rparr>)
       (modify_video (dl_video_id x) (source_deleted isofmt now) d)"
  by (auto simp: finish_source_deletion_def bindE_Inr_iff requireE_Inr_iff)

lemma recordings_deleted:
  assumes "distinct (map art_id rows)" and "\<And>r. r \<in> set rows \<Longrightarrow> p r \<longleftrightarrow> is_recording r \<and> q r"
    and "rows' = update_where p (\<lambda>r. if art_state r = ADeleted then r else r\<lparr>art_state := ADeleted, art_updated_at := now\<rparr>) rows"
    and "\<And>r. q (r\<lparr>art_state := ADeleted, art_updated_at := now\<rparr>) = q r"
  shows "filter (\<lambda>r. \<not> is_recording r) rows' = filter (\<lambda>r. \<not> is_recording r) rows"
    and "list_all (\<lambda>r. is_recording r \<and> q r \<longrightarrow> art_state r = ADeleted) rows'"
proof -
  have [simp]: "is_recording (r\<lparr>art_state := ADeleted, art_updated_at := now\<rparr>) = is_recording r" for r
    by (simp add: is_recording_def)
  show "filter (\<lambda>r. \<not> is_recording r) rows' = filter (\<lambda>r. \<not> is_recording r) rows"
  proof -
    have "filter (\<lambda>r. \<not> is_recording r) rows'
      = update_where p (\<lambda>r. if art_state r = ADeleted then r else r\<lparr>art_state := ADeleted, art_updated_at := now\<rparr>) (filter (\<lambda>r. \<not> is_recording r) rows)"
      unfolding assms(3) by (rule filter_update_where) simp
    also have "\<dots> = filter (\<lambda>r. \<not> is_recording r) rows" by (rule update_where_id) (use assms(2) in auto)
    finally show ?thesis .
  qed
  show "list_all (\<lambda>r. is_recording r \<and> q r \<longrightarrow> art_state r = ADeleted) rows'"
    unfolding assms(3) list_all_iff
  proof
    fix t assume "t \<in> set (update_where p (\<lambda>r. if art_state r = ADeleted then r else r\<lparr>art_state := ADeleted, art_updated_at := now\<rparr>) rows)"
    then obtain r where r: "r \<in> set rows"
      "t = (if p r then if art_state r = ADeleted then r else r\<lparr>art_state := ADeleted, art_updated_at := now\<rparr> else r)"
      unfolding in_update_where by blast
    with assms(2) [OF r(1)] show "is_recording t \<and> q t \<longrightarrow> art_state t = ADeleted" by (cases "p r") auto
  qed
qed

text \<open>
  C29: Deleting the recording of a match leaves the analyses, their runs and every artifact that
  is no recording exactly as they were, also when it fails half-way. When it succeeds, the
  recording is \<open>deleted\<close> and so are all registered recordings of the match.
\<close>

theorem source_deletion_keeps_results:
  assumes "distinct (map art_id (artifacts d))"
    and "delete_source st rp isofmt (\<lambda>w. w) now later a (d, s) = (res, (d', s'))"
  shows "analyses d' = analyses d \<and> runs d' = runs d \<and> stages d' = stages d \<and> events d' = events d
    \<and> filter (\<lambda>r. \<not> is_recording r) (artifacts d') = filter (\<lambda>r. \<not> is_recording r) (artifacts d)
    \<and> (res = Inr () \<longrightarrow>
         list_all (\<lambda>r. is_recording r \<and> art_analysis_id r = a \<and> art_owner r = mr_owner rp \<longrightarrow> art_state r = ADeleted) (artifacts d')
         \<and> list_ex (\<lambda>r. an_id r = a \<and> map_option vid_state (get_video d' (an_video_id r)) = Some VDeleted) (analyses d'))"
  using assms(2)
proof (cases rule: delete_source_cases)
  case unchanged
  then show ?thesis by simp
next
  case (begun x)
  from begun(1) show ?thesis
    by (rule begin_source_deletion_Inr) (use begun(2) in \<open>simp add: modify_video_def\<close>)
next
  case (store_done x d1 s1 d2)
  from store_done(3) have [simp]: "d2 = d1" "s1 = s'" by simp_all
  from store_done(1) obtain r v where r: "r \<in> set (analyses d)" "an_id r = a" "get_video d (an_video_id r) = Some v"
      "dl_video_id x = an_video_id r" and x: "dl_artifacts x = filter is_recording (owned_artifacts (mr_owner rp) a d)"
    and d1: "d1 = modify_video (an_video_id r) (request_source_deletion isofmt now) d"
    by (rule begin_source_deletion_Inr)
  have "get_video d1 (dl_video_id x) \<noteq> None"
    using r(3,4) by (simp add: d1 get_video_modified request_source_deletion_def)
  then have "finish_source_deletion isofmt (mr_owner rp) later a x d1 = Inr ((), modify_artifacts
       (\<lambda>r. art_analysis_id r = a \<and> art_owner r = mr_owner rp \<and> art_id r \<in> set (map art_id (dl_artifacts x)))
       (\<lambda>r. if art_state r = ADeleted then r else r\<lparr>art_state := ADeleted, art_updated_at := later\<rparr>)
       (modify_video (dl_video_id x) (source_deleted isofmt later) d1))"
    by (subst finish_source_deletion_Inr) simp
  from transact_Inr [of "finish_source_deletion isofmt (mr_owner rp) later a x", OF this] store_done(4) have res: "res = Inr ()"
    and d': "d' = modify_artifacts
       (\<lambda>r. art_analysis_id r = a \<and> art_owner r = mr_owner rp \<and> art_id r \<in> set (map art_id (dl_artifacts x)))
       (\<lambda>r. if art_state r = ADeleted then r else r\<lparr>art_state := ADeleted, art_updated_at := later\<rparr>)
       (modify_video (dl_video_id x) (source_deleted isofmt later) d1)"
    by simp_all
  let ?q = "\<lambda>r. art_analysis_id r = a \<and> art_owner r = mr_owner rp"
  let ?p = "\<lambda>r. art_analysis_id r = a \<and> art_owner r = mr_owner rp \<and> art_id r \<in> set (map art_id (dl_artifacts x))"
  have p: "?p r \<longleftrightarrow> is_recording r \<and> ?q r" if "r \<in> set (artifacts d)" for r
    using that assms(1) by (auto simp: x owned_artifacts_def distinct_map inj_on_def)
  have arts: "artifacts d' = update_where ?p (\<lambda>r. if art_state r = ADeleted then r else r\<lparr>art_state := ADeleted, art_updated_at := later\<rparr>) (artifacts d)"
    by (simp add: d' d1 modify_artifacts_def modify_video_def)
  note recs = recordings_deleted [where q = ?q, OF assms(1) p arts]
  have "get_video d' (an_video_id r) = map_option (source_deleted isofmt later) (get_video d1 (an_video_id r))"
    by (simp add: d' r(4) get_video_modified source_deleted_def)
  then have "map_option vid_state (get_video d' (an_video_id r)) = Some VDeleted"
    using r(3) by (simp add: d1 get_video_modified request_source_deletion_def source_deleted_def)
  with recs r(1,2) res show ?thesis
    by (auto simp: d' d1 modify_artifacts_def modify_video_def list_ex_iff)
qed

theorem source_deletion_keeps_results_witness:
  "\<exists>d' s'. delete_source demo_media demo_media_repo demo_iso (\<lambda>w. w) 6 7 ''an-1'' (demo_match, demo_objects) = (Inr (), (d', s'))
     \<and> analyses d' = analyses demo_match
     \<and> filter (\<lambda>r. \<not> is_recording r) (artifacts d') = filter (\<lambda>r. \<not> is_recording r) (artifacts demo_match)"
proof -
  let ?x = "delete_source demo_media demo_media_repo demo_iso (\<lambda>w. w) 6 7 ''an-1'' (demo_match, demo_objects)"
  have "fst ?x = Inr ()" by code_simp
  then obtain d' s' where x: "?x = (Inr (), (d', s'))" by (cases ?x) auto
  have "distinct (map art_id (artifacts demo_match))" by code_simp
  from source_deletion_keeps_results [OF this x] x show ?thesis by auto
qed

end
