(* ===== verification/Quality.thy ===== *)
theory Quality
  imports Object_Keys
begin

text \<open>
  The assessment of a recording (\<^verbatim>\<open>app/services/recording_quality/assessment.py\<close> and
  \<^verbatim>\<open>app/schemas/recording_quality.py\<close>): the checks of an upload and, after the detection of
  players, the checks before an analysis. Numbers the code holds as floats are rationals
  here, so the comparisons with the thresholds are those of the code and the arithmetic
  before them is exact.
\<close>

section \<open>Assessments\<close>

datatype quality_level = Excellent | Good | Limited | Unsuitable
datatype check_status = CheckPassed | CheckWarning | CheckFailed
datatype preflight_stage = UploadPreflight | AnalysisReadiness
datatype candidate_quality = CandStrong | CandUsable | CandUncertain | CandRejected

record quality_check =
  qc_code :: string
  qc_label :: string
  qc_status :: check_status
  qc_message :: string
  qc_value :: "string option"

record upload_signals =
  uq_format :: string
  uq_orientation :: string
  uq_width :: int
  uq_height :: int
  uq_fps :: rat
  uq_duration :: rat

record analysis_signals =
  aq_court_status :: "string option"
  aq_court_confidence :: "rat option"
  aq_calibrated :: bool
  aq_people :: nat
  aq_selectable :: nat
  aq_quality :: "candidate_quality option"
  aq_visibility :: "rat option"
  aq_tracked :: rat
  aq_gap_seconds :: rat
  aq_gap_ratio :: rat
  aq_fragments :: nat

record quality_assessment =
  qa_stage :: preflight_stage
  qa_status :: quality_level
  qa_passed :: "quality_check list"
  qa_warnings :: "quality_check list"
  qa_failures :: "quality_check list"
  qa_reasons :: "string list"
  qa_guidance :: "string list"
  qa_upload :: "upload_signals option"
  qa_analysis :: "analysis_signals option"
  qa_assessed_at :: time

record quality_thresholds =
  th_minimum_edge :: int
  th_blocking_edge :: int
  th_excellent_edge :: int
  th_minimum_fps :: rat
  th_blocking_fps :: rat
  th_excellent_fps :: rat
  th_minimum_duration :: rat
  th_excellent_duration :: rat
  th_minimum_tracked :: rat
  th_excellent_tracked :: rat
  th_minimum_visibility :: rat
  th_excellent_visibility :: rat
  th_warning_gap :: rat
  th_blocking_gap :: rat
  th_maximum_fragments :: nat

definition quality_policy :: quality_thresholds where
  "quality_policy = \<lparr>th_minimum_edge = 720, th_blocking_edge = 480, th_excellent_edge = 1080,
     th_minimum_fps = 24, th_blocking_fps = 15, th_excellent_fps = 30,
     th_minimum_duration = 10, th_excellent_duration = 60, th_minimum_tracked = 5, th_excellent_tracked = 30,
     th_minimum_visibility = 65/100, th_excellent_visibility = 85/100,
     th_warning_gap = 10/100, th_blocking_gap = 50/100, th_maximum_fragments = 3\<rparr>"

text \<open>The columns of \<open>VideoMetadataReport\<close> and \<open>PlayerCandidate\<close> that the assessment reads.\<close>

record video_metadata =
  vm_filename :: string
  vm_width :: int
  vm_height :: int
  vm_fps :: rat
  vm_duration :: rat

record player_candidate =
  pc_id :: string
  pc_tracks :: "int list"
  pc_first :: rat
  pc_last :: rat
  pc_observed :: rat
  pc_visibility :: rat
  pc_eligible :: bool
  pc_quality :: candidate_quality

section \<open>Checks\<close>

text \<open>
  The code appends a check to the list of its status; here they are listed in the order
  of their evaluation and the three lists are filtered from that.
\<close>

definition pass_check :: "string \<Rightarrow> string \<Rightarrow> string \<Rightarrow> string option \<Rightarrow> quality_check" where
  "pass_check c l m v = \<lparr>qc_code = c, qc_label = l, qc_status = CheckPassed, qc_message = m, qc_value = v\<rparr>"

definition warn_check :: "string \<Rightarrow> string \<Rightarrow> string \<Rightarrow> string option \<Rightarrow> quality_check" where
  "warn_check c l m v = \<lparr>qc_code = c, qc_label = l, qc_status = CheckWarning, qc_message = m, qc_value = v\<rparr>"

definition fail_check :: "string \<Rightarrow> string \<Rightarrow> string \<Rightarrow> string option \<Rightarrow> quality_check" where
  "fail_check c l m v = \<lparr>qc_code = c, qc_label = l, qc_status = CheckFailed, qc_message = m, qc_value = v\<rparr>"

definition with_status :: "check_status \<Rightarrow> quality_check list \<Rightarrow> quality_check list" where
  "with_status s = filter (\<lambda>c. qc_status c = s)"

definition quality_level_of :: "quality_check list \<Rightarrow> quality_check list \<Rightarrow> bool \<Rightarrow> quality_level" where
  "quality_level_of failures warnings excellent =
     (if failures \<noteq> [] then Unsuitable else if warnings \<noteq> [] then Limited else if excellent then Excellent else Good)"

definition reason_codes :: "quality_check list \<Rightarrow> quality_check list \<Rightarrow> string list" where
  "reason_codes warnings failures = map qc_code (failures @ warnings)"

definition guidance_of :: "quality_check list \<Rightarrow> quality_check list \<Rightarrow> string list" where
  "guidance_of warnings failures =
     (let codes = map qc_code (warnings @ failures); any = (\<lambda>cs. list_ex (\<lambda>c. c \<in> set cs) codes) in
      unique_list
       ((if any [''vertical_orientation'', ''upload_preflight_limited'']
         then [''Use landscape orientation with the camera behind the baseline.''] else [])
        @ (if any [''resolution_too_low'', ''resolution_below_minimum'']
           then [''Record at 720p minimum; 1080p is recommended.''] else [])
        @ (if any [''fps_too_low'', ''fps_below_minimum'']
           then [''Record at 24 FPS minimum; 30 FPS is recommended.''] else [])
        @ (if any [''recording_too_short'', ''tracked_duration_too_short'', ''tracked_duration_limited'']
           then [''Capture a longer continuous section of gameplay.''] else [])
        @ (if any [''calibration_missing'', ''no_person_detections'', ''no_selectable_player_candidate'',
             ''player_visibility_too_low'', ''tracking_gaps_excessive'', ''tracking_gaps_present'']
           then [''Keep the full court visible and the camera stable.'',
             ''Place the camera behind or diagonally behind the baseline.''] else [])))"

text \<open>What both assessments answer for their checks.\<close>

definition assessment_of ::
    "preflight_stage \<Rightarrow> quality_check list \<Rightarrow> bool \<Rightarrow> upload_signals option \<Rightarrow> analysis_signals option \<Rightarrow> time \<Rightarrow> quality_assessment" where
  "assessment_of stage checks excellent upload analysis now =
     (let warnings = with_status CheckWarning checks; failures = with_status CheckFailed checks in
      \<lparr>qa_stage = stage, qa_status = quality_level_of failures warnings excellent,
       qa_passed = with_status CheckPassed checks, qa_warnings = warnings, qa_failures = failures,
       qa_reasons = reason_codes warnings failures, qa_guidance = guidance_of warnings failures,
       qa_upload = upload, qa_analysis = analysis, qa_assessed_at = now\<rparr>)"

section \<open>The upload\<close>

definition vertical :: "video_metadata \<Rightarrow> bool" where
  "vertical v \<longleftrightarrow> vm_height v > vm_width v"

definition short_edge :: "video_metadata \<Rightarrow> int" where
  "short_edge v = min (vm_width v) (vm_height v)"

definition resolution_check :: "quality_thresholds \<Rightarrow> video_metadata \<Rightarrow> quality_check" where
  "resolution_check t v =
     (let size = Some (int_text (vm_width v) @ CHR 0xD7 # int_text (vm_height v)) in
      if short_edge v < th_blocking_edge t
      then fail_check ''resolution_too_low'' ''Resolution'' ''Resolution is too low for dependable player visibility.'' size
      else if short_edge v < th_minimum_edge t
      then warn_check ''resolution_below_minimum'' ''Resolution'' ''Resolution is below the initial 720p minimum.'' size
      else pass_check ''resolution_passed'' ''Resolution'' ''Resolution meets the initial 720p minimum.'' size)"

definition fps_check :: "quality_thresholds \<Rightarrow> video_metadata \<Rightarrow> quality_check" where
  "fps_check t v =
     (let fps = Some (fixed_text 1 (vm_fps v) @ '' FPS'') in
      if vm_fps v < th_blocking_fps t
      then fail_check ''fps_too_low'' ''Frame rate'' ''Frame rate is too low for dependable movement tracking.'' fps
      else if vm_fps v < th_minimum_fps t
      then warn_check ''fps_below_minimum'' ''Frame rate'' ''Frame rate is below the initial 24 FPS minimum.'' fps
      else pass_check ''fps_passed'' ''Frame rate'' ''Frame rate meets the initial 24 FPS minimum.'' fps)"

definition duration_check :: "quality_thresholds \<Rightarrow> video_metadata \<Rightarrow> quality_check" where
  "duration_check t v =
     (let seconds = Some (fixed_text 1 (vm_duration v) @ '' seconds'') in
      if vm_duration v < th_minimum_duration t
      then fail_check ''recording_too_short'' ''Duration''
        ''The recording is too short to provide enough continuous evidence.'' seconds
      else pass_check ''duration_passed'' ''Duration'' ''The recording meets the initial duration minimum.'' seconds)"

definition assess_upload_preflight :: "quality_thresholds \<Rightarrow> time \<Rightarrow> video_metadata \<Rightarrow> quality_assessment" where
  "assess_upload_preflight t now v =
     (let suffix = lower (posix_suffix (vm_filename v));
          extension = (if suffix = [] then ''unknown'' else suffix);
          orientation = (if vertical v then ''vertical'' else ''landscape'') in
      assessment_of UploadPreflight
        [pass_check ''format_readable'' ''Video format'' (extension @ '' metadata was readable.'') (Some extension),
         (if vertical v
          then warn_check ''vertical_orientation'' ''Orientation''
            ''Vertical framing may exclude important parts of the court.'' (Some orientation)
          else pass_check ''landscape_orientation'' ''Orientation'' ''Landscape framing detected.'' None),
         resolution_check t v, fps_check t v, duration_check t v]
        (\<not> vertical v \<and> short_edge v \<ge> th_excellent_edge t \<and> vm_fps v \<ge> th_excellent_fps t
          \<and> vm_duration v \<ge> th_excellent_duration t)
        (Some \<lparr>uq_format = extension, uq_orientation = orientation, uq_width = vm_width v, uq_height = vm_height v,
           uq_fps = vm_fps v, uq_duration = vm_duration v\<rparr>)
        None now)"

section \<open>The analysis\<close>

definition selectable :: "player_candidate list \<Rightarrow> player_candidate list" where
  "selectable cs = filter pc_eligible cs"

text \<open>The candidate the evidence is taken from: the selected one, else a strong one, else the first.\<close>

definition evidence_candidate :: "player_candidate list \<Rightarrow> string option \<Rightarrow> player_candidate option" where
  "evidence_candidate cs selected =
     (case find (\<lambda>c. Some (pc_id c) = selected) (selectable cs) of
        Some c \<Rightarrow> Some c
      | None \<Rightarrow>
          (case find (\<lambda>c. pc_quality c = CandStrong) (selectable cs) of
             Some c \<Rightarrow> Some c
           | None \<Rightarrow> (case selectable cs of [] \<Rightarrow> None | c # _ \<Rightarrow> Some c)))"

definition candidate_span :: "player_candidate \<Rightarrow> rat" where
  "candidate_span c = pc_last c - pc_first c"

definition gap_seconds :: "player_candidate \<Rightarrow> rat" where
  "gap_seconds c = max 0 (candidate_span c - pc_observed c)"

definition gap_ratio :: "player_candidate \<Rightarrow> rat" where
  "gap_ratio c = (if candidate_span c > 0 then gap_seconds c / candidate_span c else 0)"

definition preflight_checks :: "quality_assessment option \<Rightarrow> quality_check list" where
  "preflight_checks upload =
     (case upload of
        None \<Rightarrow> []
      | Some u \<Rightarrow>
          [if qa_status u = Unsuitable
           then fail_check ''upload_preflight_blocked'' ''Upload preflight''
             ''The upload preflight contains a blocking recording failure.'' None
           else if qa_status u = Limited
           then warn_check ''upload_preflight_limited'' ''Upload preflight''
             ''The source recording has limitations that carry into analysis.'' None
           else pass_check ''upload_preflight_passed'' ''Upload preflight'' ''Upload checks passed.'' None])"

definition calibration_check :: "bool \<Rightarrow> quality_check" where
  "calibration_check completed =
     (if completed then pass_check ''calibration_available'' ''Court calibration'' ''Court calibration is available.'' None
      else fail_check ''calibration_missing'' ''Court calibration''
        ''A valid court calibration is required for movement measurements.'' None)"

definition candidates_check :: "nat \<Rightarrow> player_candidate list \<Rightarrow> quality_check" where
  "candidates_check people cs =
     (if people = 0
      then fail_check ''no_person_detections'' ''Player visibility'' ''No people were detected in the recording.'' None
      else if selectable cs = []
      then fail_check ''no_selectable_player_candidate'' ''Player candidates''
        ''No player candidate has enough usable court evidence for selection.'' (Some (decimal people))
      else pass_check ''selectable_candidates_available'' ''Player candidates''
        (decimal (length (selectable cs)) @ '' selectable player candidate(s) are available.'')
        (Some (decimal (length (selectable cs)))))"

definition quality_text :: "candidate_quality \<Rightarrow> string" where
  "quality_text q = (case q of CandStrong \<Rightarrow> ''STRONG'' | CandUsable \<Rightarrow> ''USABLE''
     | CandUncertain \<Rightarrow> ''UNCERTAIN'' | CandRejected \<Rightarrow> ''REJECTED'')"

definition candidate_check :: "player_candidate \<Rightarrow> quality_check" where
  "candidate_check c =
     (if pc_quality c = CandStrong
      then pass_check ''candidate_quality_strong'' ''Candidate quality''
        ''The best available candidate meets the strong engineering checks.'' None
      else warn_check ''candidate_quality_usable'' ''Candidate quality''
        ''The best available candidate is usable but does not meet every strong check.'' (Some (quality_text (pc_quality c))))"

definition visibility_check :: "quality_thresholds \<Rightarrow> player_candidate \<Rightarrow> quality_check" where
  "visibility_check t c =
     (let share = Some (fixed_text 0 (pc_visibility c * 100) @ ''%'') in
      if pc_visibility c \<ge> th_minimum_visibility t
      then pass_check ''player_visibility_passed'' ''Player visibility''
        ''The candidate is visible inside the calibrated court often enough to continue.'' share
      else fail_check ''player_visibility_too_low'' ''Player visibility''
        ''The candidate is not visible inside the calibrated court often enough.'' share)"

definition tracked_check :: "quality_thresholds \<Rightarrow> player_candidate \<Rightarrow> quality_check" where
  "tracked_check t c =
     (let seconds = Some (fixed_text 1 (pc_observed c) @ '' seconds'') in
      if pc_observed c < th_minimum_tracked t
      then fail_check ''tracked_duration_too_short'' ''Usable tracked time''
        ''There is too little continuity-safe tracked time for movement insight.'' seconds
      else if pc_observed c < th_excellent_tracked t
      then warn_check ''tracked_duration_limited'' ''Usable tracked time''
        ''Usable tracked time is limited; measurements may not represent the recording.'' seconds
      else pass_check ''tracked_duration_passed'' ''Usable tracked time''
        ''Usable tracked time meets the recommended threshold.'' seconds)"

definition gaps_check :: "quality_thresholds \<Rightarrow> player_candidate \<Rightarrow> quality_check" where
  "gaps_check t c =
     (if gap_ratio c > th_blocking_gap t
      then fail_check ''tracking_gaps_excessive'' ''Tracking gaps''
        ''Unobserved gaps exceed half of the selected candidate span.'' (Some (fixed_text 0 (gap_ratio c * 100) @ ''%''))
      else if gap_ratio c > th_warning_gap t \<or> length (pc_tracks c) > 1
      then warn_check ''tracking_gaps_present'' ''Tracking gaps''
        ''The candidate contains fragments or unobserved gaps; Court4 does not bridge them.''
        (Some (fixed_text 1 (gap_seconds c) @ '' seconds''))
      else pass_check ''tracking_continuity_passed'' ''Tracking gaps'' ''Tracking is continuous.'' None)"

definition fragments_checks :: "quality_thresholds \<Rightarrow> player_candidate \<Rightarrow> quality_check list" where
  "fragments_checks t c =
     (if length (pc_tracks c) > th_maximum_fragments t
      then [fail_check ''too_many_track_fragments'' ''Track fragments''
        ''The candidate contains too many fragments for dependable interpretation.'' (Some (decimal (length (pc_tracks c))))]
      else [])"

definition evidence_checks :: "quality_thresholds \<Rightarrow> player_candidate option \<Rightarrow> quality_check list" where
  "evidence_checks t evidence =
     (case evidence of
        None \<Rightarrow> []
      | Some c \<Rightarrow> [candidate_check c, visibility_check t c, tracked_check t c, gaps_check t c] @ fragments_checks t c)"

definition readiness_excellent :: "quality_thresholds \<Rightarrow> quality_assessment option \<Rightarrow> player_candidate option \<Rightarrow> bool" where
  "readiness_excellent t upload evidence =
     (case (upload, evidence) of
        (Some u, Some c) \<Rightarrow> qa_status u = Excellent \<and> pc_quality c = CandStrong
          \<and> pc_observed c \<ge> th_excellent_tracked t \<and> pc_visibility c \<ge> th_excellent_visibility t
          \<and> gap_ratio c \<le> th_warning_gap t \<and> length (pc_tracks c) = 1
      | _ \<Rightarrow> False)"

record readiness_input =
  ri_upload :: "quality_assessment option"
  ri_calibrated :: bool
  ri_court_status :: "string option"
  ri_court_confidence :: "rat option"
  ri_people :: nat
  ri_candidates :: "player_candidate list"
  ri_selected :: "string option"

definition assess_analysis_readiness :: "quality_thresholds \<Rightarrow> time \<Rightarrow> readiness_input \<Rightarrow> quality_assessment" where
  "assess_analysis_readiness t now i =
     (let evidence = evidence_candidate (ri_candidates i) (ri_selected i) in
      assessment_of AnalysisReadiness
        (preflight_checks (ri_upload i) @ [calibration_check (ri_calibrated i), candidates_check (ri_people i) (ri_candidates i)]
          @ evidence_checks t evidence)
        (readiness_excellent t (ri_upload i) evidence)
        None
        (Some \<lparr>aq_court_status = ri_court_status i, aq_court_confidence = ri_court_confidence i,
           aq_calibrated = ri_calibrated i, aq_people = ri_people i, aq_selectable = length (selectable (ri_candidates i)),
           aq_quality = map_option pc_quality evidence, aq_visibility = map_option pc_visibility evidence,
           aq_tracked = (case evidence of None \<Rightarrow> 0 | Some c \<Rightarrow> pc_observed c),
           aq_gap_seconds = (case evidence of None \<Rightarrow> 0 | Some c \<Rightarrow> gap_seconds c),
           aq_gap_ratio = min 1 (case evidence of None \<Rightarrow> 0 | Some c \<Rightarrow> gap_ratio c),
           aq_fragments = (case evidence of None \<Rightarrow> 0 | Some c \<Rightarrow> length (pc_tracks c))\<rparr>)
        now)"

end
