(* ===== verification/History_Policy.thy ===== *)
theory History_Policy
  imports Quality "HOL-Library.Product_Lexorder" "HOL-Library.List_Lexorder" "HOL-Library.Char_ord"
begin

text \<open>
  The decisions of the play history (\<^verbatim>\<open>app/services/history/policy.py\<close>, \<^verbatim>\<open>comparability.py\<close>,
  \<^verbatim>\<open>grouping.py\<close>, \<^verbatim>\<open>aggregation.py\<close> and \<^verbatim>\<open>progress_policy.py\<close>): which analyses contribute, which
  reports can be compared, how they are grouped, and what is concluded from the groups.
  Floats are rationals, times integers.
\<close>

section \<open>Reports\<close>

text \<open>What the history reads of \<open>AnalyticsReport\<close>, \<open>MatchIQReport\<close> and \<open>AnalysisJob\<close>.\<close>

record analytics_report =
  ar_observed :: rat
  ar_distance :: rat
  ar_kitchen :: rat
  ar_transition :: rat
  ar_baseline :: rat
  ar_tracked :: rat
  ar_created_at :: time

datatype confidence_level = ConfHigh | ConfModerate | ConfLow | ConfNotAvailable
datatype quality_gate = GateNormal | GateCautious | GateMeasurementOnly | GateInsufficient

record match_iq_report =
  mq_generated :: bool
  mq_engine_version :: string
  mq_summary :: string
  mq_gate :: quality_gate
  mq_confidence :: "(confidence_level \<times> confidence_level) option"
  mq_recording :: "quality_assessment option"
  mq_created_at :: time

datatype job_status = JobPending | JobProcessing | JobCompleted | JobFailed

record calibration_review =
  rv_verified :: bool
  rv_calibration_id :: string
  rv_checksum :: string

record job_file =
  jf_path :: string
  jf_url :: string
  jf_content_type :: string

record job =
  job_id :: string
  job_sport :: sport
  job_status :: job_status
  job_source :: "string option"
  job_created_at :: time
  job_updated_at :: time
  job_calibrated :: bool
  job_calibration_id :: "string option"
  job_calibration_checksum :: "string option"
  job_review :: "calibration_review option"
  job_analytics :: bool
  job_preflight :: "quality_assessment option"
  job_readiness :: "quality_assessment option"
  job_files :: "job_file list"

text \<open>The tracking and the measurement level of \<open>MatchIQConfidence\<close>.\<close>

abbreviation tracking_confidence :: "confidence_level \<times> confidence_level \<Rightarrow> confidence_level" where
  "tracking_confidence \<equiv> fst"

abbreviation measurement_confidence :: "confidence_level \<times> confidence_level \<Rightarrow> confidence_level" where
  "measurement_confidence \<equiv> snd"

definition weak :: "confidence_level \<Rightarrow> bool" where
  "weak l \<longleftrightarrow> l \<in> {ConfLow, ConfNotAvailable}"

definition calibration_verified :: "job \<Rightarrow> bool" where
  "calibration_verified j \<longleftrightarrow> job_calibrated j \<and> (case job_review j of
       None \<Rightarrow> False
     | Some r \<Rightarrow> rv_verified r \<and> Some (rv_calibration_id r) = job_calibration_id j
         \<and> Some (rv_checksum r) = job_calibration_checksum j)"

section \<open>Contribution\<close>

datatype contribution_status = Included | Excluded | Provisional | NotEvaluated

record contribution =
  co_status :: contribution_status
  co_reasons :: "string list"
  co_explanation :: string
  co_policy :: string
  co_evaluated_at :: time
  co_source_version :: string

definition history_policy :: string where "history_policy = ''play-history-v1''"
definition analytics_schema :: string where "analytics_schema = ''movement-analytics-v1''"

definition contribution_of :: "contribution_status \<Rightarrow> string list \<Rightarrow> string \<Rightarrow> time \<Rightarrow> string \<Rightarrow> contribution" where
  "contribution_of s rs x now version = \<lparr>co_status = s, co_reasons = rs, co_explanation = x,
     co_policy = history_policy, co_evaluated_at = now, co_source_version = version\<rparr>"

definition legacy_text :: string where
  "legacy_text = ''This report was created before Play History tracking was added, so it does not contribute to your Play History.''"

definition exclusion_reasons :: "analysis_signals \<Rightarrow> analytics_report \<Rightarrow> match_iq_report option \<Rightarrow> string list" where
  "exclusion_reasons s r iq =
     (case aq_visibility s of
        None \<Rightarrow> [''MISSING_OBSERVATION_COVERAGE'']
      | Some v \<Rightarrow> if v < th_minimum_visibility quality_policy then [''INSUFFICIENT_OBSERVATION_COVERAGE''] else [])
     @ (if aq_tracked s < th_minimum_tracked quality_policy then [''INSUFFICIENT_USABLE_DURATION''] else [])
     @ (if aq_gap_ratio s > th_blocking_gap quality_policy then [''FRAGMENTED_PLAYER_TRACKING''] else [])
     @ (if aq_fragments s > th_maximum_fragments quality_policy then [''TOO_MANY_TRACK_FRAGMENTS''] else [])
     @ (if ar_observed r \<le> 0 then [''MISSING_RELIABLE_OBSERVATION''] else [])
     @ (if ar_tracked r \<le> 0 then [''MISSING_MOVEMENT_MEASUREMENTS''] else [])
     @ (case iq of
          None \<Rightarrow> []
        | Some q \<Rightarrow>
            (case mq_confidence q of
               None \<Rightarrow> []
             | Some c \<Rightarrow> if weak (measurement_confidence c) then [''WEAK_MEASUREMENT_CONFIDENCE''] else []))"

definition blocked :: "quality_assessment option \<Rightarrow> bool" where
  "blocked readiness = (case readiness of None \<Rightarrow> False | Some r \<Rightarrow> qa_status r = Unsuitable \<or> qa_failures r \<noteq> [])"

definition evaluate_contribution ::
    "job \<Rightarrow> analytics_report option \<Rightarrow> match_iq_report option \<Rightarrow> time \<Rightarrow> contribution" where
  "evaluate_contribution j analytics iq now =
     (let version = (case iq of None \<Rightarrow> analytics_schema | Some q \<Rightarrow> mq_engine_version q) in
      if job_sport j \<noteq> Pickleball
      then contribution_of Excluded [''SPORT_INTERPRETATION_UNAVAILABLE'']
        ''This Padel analysis remains in Analysis History but does not contribute to Pickleball Play History because sport-specific interpretation is unavailable.''
        now ''padel-experimental-v1''
      else if job_status j = JobFailed
      then contribution_of Excluded [''ANALYSIS_FAILED'']
        ''This analysis remains in your history but does not contribute to Play History because Court4 could not complete it.'' now version
      else if blocked (job_readiness j)
      then contribution_of Excluded [''UNSUITABLE_RECORDING'', ''BLOCKING_EVIDENCE_FAILURE'']
        ''This analysis remains in your history but does not contribute to Play History because the recording did not contain enough reliable observation.''
        now version
      else if job_status j \<in> {JobPending, JobProcessing}
      then contribution_of Provisional [''ANALYSIS_IN_PROGRESS'']
        ''This analysis is saved and will be evaluated for Play History after processing is complete.'' now version
      else if \<not> job_analytics j
      then contribution_of Provisional [''ANALYSIS_INCOMPLETE'']
        ''This analysis is saved but does not yet have complete movement measurements for Play History.'' now version
      else if \<not> calibration_verified j
      then contribution_of Excluded [''CALIBRATION_UNVERIFIED'']
        ''Review and confirm the court overlay before these measurements can contribute to Progress.'' now version
      else case analytics of
        None \<Rightarrow> contribution_of NotEvaluated [''LEGACY_ANALYTICS_UNAVAILABLE''] legacy_text now version
      | Some r \<Rightarrow>
          (case (job_readiness j, Option.bind (job_readiness j) qa_analysis) of
             (Some readiness, Some s) \<Rightarrow>
               if exclusion_reasons s r iq \<noteq> []
               then contribution_of Excluded (exclusion_reasons s r iq)
                 ''This analysis remains in your history but does not contribute to Play History because its observation or movement measurements did not meet the current evidence standard.''
                 now version
               else contribution_of Included [''EVIDENCE_STANDARD_MET'']
                 (if qa_status readiness = Limited
                  then ''Included because the movement measurements met the current evidence standard; recording limitations remain visible in the full analysis.''
                  else ''Included because recording quality, observation coverage, and movement measurement evidence met the current standard.'')
                 now version
           | _ \<Rightarrow> contribution_of NotEvaluated [''LEGACY_EVIDENCE_UNAVAILABLE''] legacy_text now version))"

section \<open>Comparability\<close>

datatype history_status = HistProcessing | HistReady | HistLimited | HistUnsuitable | HistFailed | HistLegacy

record history_item =
  hi_id :: string
  hi_sport :: sport
  hi_title :: string
  hi_created_at :: time
  hi_updated_at :: time
  hi_status :: history_status
  hi_processing :: job_status
  hi_quality :: "quality_level option"
  hi_coverage :: "rat option"
  hi_observed :: "rat option"
  hi_measurement :: bool
  hi_match_iq :: bool
  hi_contribution :: contribution
  hi_limitation :: "string option"
  hi_report_url :: string
  hi_thumbnail :: "string option"

datatype eligibility = Eligible | EligProvisional | Ineligible | EligNotEvaluated

record source_versions =
  sv_analytics :: string
  sv_zone :: string
  sv_geometry :: string
  sv_units :: string
  sv_contribution :: string
  sv_engine :: "string option"

record progress_decision =
  pd_status :: eligibility
  pd_reasons :: "string list"
  pd_limitations :: "string list"
  pd_versions :: "source_versions list"
  pd_policy :: string

record comparable_report =
  cp_item :: history_item
  cp_analytics :: analytics_report
  cp_match_iq :: "match_iq_report option"
  cp_decision :: progress_decision

definition source_versions_of :: "match_iq_report option \<Rightarrow> source_versions" where
  "source_versions_of iq = \<lparr>sv_analytics = analytics_schema, sv_zone = ''court-zones-v1'',
     sv_geometry = ''normalized-court-coordinate-v1'', sv_units = ''metric-seconds-percent-v1'',
     sv_contribution = history_policy, sv_engine = map_option mq_engine_version iq\<rparr>"

definition decision_of ::
    "string \<Rightarrow> eligibility \<Rightarrow> string list \<Rightarrow> string list \<Rightarrow> source_versions list \<Rightarrow> progress_decision" where
  "decision_of policy s rs ls vs = \<lparr>pd_status = s, pd_reasons = rs, pd_limitations = ls, pd_versions = vs, pd_policy = policy\<rparr>"

definition evaluate_comparability ::
    "history_item \<Rightarrow> analytics_report option \<Rightarrow> match_iq_report option \<Rightarrow> progress_decision" where
  "evaluate_comparability item analytics iq =
     (let versions = [source_versions_of iq]; decide = decision_of ''play-history-comparability-v1'';
          confidence = Option.bind iq mq_confidence in
      case co_status (hi_contribution item) of
        Provisional \<Rightarrow> decide EligProvisional [''This report is still awaiting a final contribution decision.'']
          [''Provisional reports are never promoted into a completed comparison.''] versions
      | NotEvaluated \<Rightarrow> decide EligNotEvaluated [''This report does not have the current evidence needed for comparison.'']
          [''Legacy or unreadable evidence is not inferred.''] versions
      | Excluded \<Rightarrow> decide Ineligible [''This report did not meet the Play History contribution standard.'']
          [''Excluded reports never affect progress calculations.''] versions
      | Included \<Rightarrow>
          (case analytics of
             None \<Rightarrow> decide EligNotEvaluated [''Comparable movement measurements are unavailable.'']
               [''Missing measurements are excluded and are never treated as zero.''] versions
           | Some r \<Rightarrow>
               if ar_observed r \<le> 0 \<or> ar_tracked r \<le> 0
               then decide Ineligible [''The report has no usable observation denominator for comparison.'']
                 [''Raw values are not compared without qualified observed time.''] versions
               else if (case confidence of None \<Rightarrow> False | Some c \<Rightarrow> weak (tracking_confidence c))
               then decide Ineligible [''Tracking confidence is too weak for an across-report comparison.'']
                 [''The report remains available in Analysis History.''] versions
               else if (case confidence of None \<Rightarrow> False | Some c \<Rightarrow> weak (measurement_confidence c))
               then decide Ineligible [''Measurement confidence is too weak for an across-report comparison.'']
                 [''The report remains available in Analysis History.''] versions
               else decide EligProvisional
                 [''The report has qualified, time-normalized movement and court-position measurements.'',
                  ''Court geometry, zone definitions, and measurement units use current Court4 versions.'']
                 ([''Match format is not recorded, so singles-versus-doubles compatibility is unknown.'',
                   ''Camera placement is not recorded, so camera compatibility is unknown.'']
                  @ (if hi_quality item = Some Limited then [''The source recording has documented quality limitations.''] else [])
                  @ (if confidence = None
                     then [''Tracking and measurement confidence are not available as comparable fields.''] else []))
                 versions))"

text \<open>\<open>report.decision.source_versions[0]\<close>, without the engine.\<close>

definition report_versions :: "comparable_report \<Rightarrow> source_versions" where
  "report_versions r = hd (pd_versions (cp_decision r))"

definition fingerprint :: "source_versions \<Rightarrow> string \<times> string \<times> string \<times> string \<times> string" where
  "fingerprint v = (sv_analytics v, sv_zone v, sv_geometry v, sv_units v, sv_contribution v)"

definition compatible_versions :: "comparable_report list \<Rightarrow> bool" where
  "compatible_versions rs \<longleftrightarrow> length (unique_list (map (\<lambda>r. fingerprint (report_versions r)) rs)) \<le> 1"

definition unique_versions :: "comparable_report list \<Rightarrow> source_versions list" where
  "unique_versions rs = unique_list (map report_versions rs)"

section \<open>Grouping\<close>

definition baseline_minimum :: nat where "baseline_minimum = 3"
definition trend_minimum :: nat where "trend_minimum = 4"
definition minimum_per_group :: nat where "minimum_per_group = 2"
definition maximum_reports :: nat where "maximum_reports = 8"

text \<open>The times are of one zone, so \<open>normalized_timestamp\<close> is the identity.\<close>

definition report_key :: "comparable_report \<Rightarrow> time \<times> string" where
  "report_key r = (hi_created_at (cp_item r), hi_id (cp_item r))"

definition report_id :: "comparable_report \<Rightarrow> string" where
  "report_id r = hi_id (cp_item r)"

text \<open>The dictionary \<open>unique\<close>, as the list of its values.\<close>

definition keep_latest :: "comparable_report list \<Rightarrow> comparable_report \<Rightarrow> comparable_report list" where
  "keep_latest acc r =
     (case find (\<lambda>x. report_id x = report_id r) acc of
        None \<Rightarrow> acc @ [r]
      | Some x \<Rightarrow> if report_key x < report_key r then update_where (\<lambda>x. report_id x = report_id r) (\<lambda>_. r) acc else acc)"

record comparison_split =
  sp_candidates :: "comparable_report list"
  sp_earlier :: "comparable_report list"
  sp_recent :: "comparable_report list"
  sp_omitted :: "string list"

definition ordered_reports :: "comparable_report list \<Rightarrow> comparable_report list" where
  "ordered_reports rs = sort_key report_key (foldl keep_latest [] rs)"

definition split_window :: "comparable_report list \<Rightarrow> string list \<Rightarrow> comparison_split" where
  "split_window window omitted =
     (if length window < trend_minimum
      then \<lparr>sp_candidates = window, sp_earlier = [], sp_recent = [], sp_omitted = omitted\<rparr>
      else let n = length window div 2 in
        \<lparr>sp_candidates = window, sp_earlier = take n window, sp_recent = drop (length window - n) window,
         sp_omitted = omitted @ (if odd (length window) then [report_id (window ! n)] else [])\<rparr>)"

definition deterministic_split :: "comparable_report list \<Rightarrow> comparison_split" where
  "deterministic_split rs =
     (let ordered = ordered_reports rs; rest = length ordered - maximum_reports in
      split_window (drop rest ordered) (map report_id (take rest ordered)))"

section \<open>Aggregation\<close>

datatype zone = Kitchen | Transition | Baseline

record aggregate =
  ag_value :: "rat option"
  ag_ids :: "string list"
  ag_count :: nat
  ag_observed :: rat
  ag_movement :: rat
  ag_provisional :: bool
  ag_limitations :: "string list"

definition tracked_of :: "comparable_report \<Rightarrow> rat" where "tracked_of r = ar_tracked (cp_analytics r)"
definition observed_of :: "comparable_report \<Rightarrow> rat" where "observed_of r = ar_observed (cp_analytics r)"
definition distance_of :: "comparable_report \<Rightarrow> rat" where "distance_of r = ar_distance (cp_analytics r)"

definition zone_seconds :: "zone \<Rightarrow> comparable_report \<Rightarrow> rat" where
  "zone_seconds z r = (case z of Kitchen \<Rightarrow> ar_kitchen (cp_analytics r)
     | Transition \<Rightarrow> ar_transition (cp_analytics r) | Baseline \<Rightarrow> ar_baseline (cp_analytics r))"

definition usable_reports :: "comparable_report list \<Rightarrow> comparable_report list" where
  "usable_reports rs = filter (\<lambda>r. tracked_of r > 0) rs"

text \<open>\<open>statistics.median\<close> of a list that is not empty.\<close>

definition median :: "rat list \<Rightarrow> rat" where
  "median xs = (let ys = sort xs; n = length ys in
     if odd n then ys ! (n div 2) else (ys ! (n div 2 - 1) + ys ! (n div 2)) / 2)"

definition shared_limitations :: "rat list \<Rightarrow> string list" where
  "shared_limitations durations =
     ''All eligible observations are retained; no outlier is silently removed.''
     # (if length durations > 1 \<and> sum_list durations > 0
           \<and> fold max (tl durations) (hd durations) / sum_list durations > 60/100
        then [''One report supplies more than 60% of the qualified duration. The weighted result is retained and marked provisional.'']
        else [])"

definition outlier_limitation :: string where
  "outlier_limitation = ''A movement-pace observation differs by more than the deterministic 3'' @ CHR 0xD7
     # '' outlier check. It is retained, and this comparison is provisional.''"

definition pace_outlier :: "rat list \<Rightarrow> bool" where
  "pace_outlier paces = (let center = median paces in
     center > 0 \<and> list_ex (\<lambda>p. p > center * 3 \<or> p < center / 3) paces)"

definition aggregate_of :: "rat \<Rightarrow> comparable_report list \<Rightarrow> string list \<Rightarrow> aggregate" where
  "aggregate_of value rs limitations =
     \<lparr>ag_value = Some value, ag_ids = map report_id rs, ag_count = length rs,
      ag_observed = sum_list (map observed_of rs), ag_movement = sum_list (map tracked_of rs),
      ag_provisional = length limitations > 1, ag_limitations = limitations\<rparr>"

definition missing_aggregate :: "string \<Rightarrow> aggregate" where
  "missing_aggregate limitation =
     \<lparr>ag_value = None, ag_ids = [], ag_count = 0, ag_observed = 0, ag_movement = 0, ag_provisional = True,
      ag_limitations = [limitation, ''Missing values are excluded and are never treated as zero.'']\<rparr>"

definition aggregate_pace :: "comparable_report list \<Rightarrow> aggregate" where
  "aggregate_pace rs =
     (let usable = usable_reports rs in
      if usable = []
      then missing_aggregate ''Movement pace is unavailable because no report has a qualified time denominator.''
      else let durations = map tracked_of usable; paces = map (\<lambda>r. distance_of r / tracked_of r) usable in
        aggregate_of (sum_list (map distance_of usable) / sum_list durations) usable
          (shared_limitations durations @ (if pace_outlier paces then [outlier_limitation] else [])))"

definition aggregate_zone :: "zone \<Rightarrow> comparable_report list \<Rightarrow> aggregate" where
  "aggregate_zone z rs =
     (let usable = usable_reports rs in
      if usable = []
      then missing_aggregate ''Court-position share is unavailable because no report has a qualified denominator.''
      else let durations = map tracked_of usable in
        aggregate_of (sum_list (map (zone_seconds z) usable) / sum_list durations * 100) usable (shared_limitations durations))"

section \<open>Trend and interpretation\<close>

definition trend_policy :: string where "trend_policy = ''play-history-trend-v1''"
definition interpretation_policy :: string where "interpretation_policy = ''play-history-interpretation-v1''"

definition trend_limitations :: "nat \<Rightarrow> comparable_report list \<Rightarrow> comparison_split \<Rightarrow> string list" where
  "trend_limitations qualified rs sp =
     unique_list (concat (map (\<lambda>r. pd_limitations (cp_decision r)) rs)
       @ (if qualified > length rs
          then [decimal (qualified - length rs) @ '' contributing report(s) were not suitable for this comparison.'']
          else [])
       @ (if sp_omitted sp \<noteq> []
          then [decimal (length (sp_omitted sp))
            @ '' report(s) were omitted by the deterministic bounded-window or middle-report grouping rule.'']
          else []))"

definition evaluate_trend :: "nat \<Rightarrow> comparable_report list \<Rightarrow> comparison_split \<Rightarrow> progress_decision" where
  "evaluate_trend qualified rs sp =
     (let versions = (if unique_versions rs = [] then [source_versions_of None] else unique_versions rs);
          n = length rs; decide = decision_of trend_policy in
      if n = 0
      then decide Ineligible [''No reports currently meet the comparison requirements.'']
        [''Court4 needs reports with enough reliable information before it can compare them.'',
         ''Court4 will not guess when information is missing or cannot be compared.''] versions
      else if \<not> compatible_versions rs
      then decide Ineligible [''The available reports use incompatible progress source versions.'']
        [''Mixed source versions are never combined into a trend.''] versions
      else if n < baseline_minimum
      then decide Ineligible [''More comparable reports are required to establish a baseline.'']
        [decimal n @ '' of '' @ decimal baseline_minimum @ '' comparable reports are available.''] versions
      else if n = baseline_minimum
      then decide EligProvisional [''Three comparable reports establish an initial baseline only.'']
        [''A trend is not displayed until both earlier and recent groups contain at least two reports.''] versions
      else if length (sp_earlier sp) < minimum_per_group \<or> length (sp_recent sp) < minimum_per_group
      then decide Ineligible [''The deterministic groups do not have enough reports for comparison.'']
        [''Each non-overlapping group requires at least two reports.''] versions
      else decide (if list_ex (\<lambda>r. pd_status (cp_decision r) = EligProvisional) rs then EligProvisional else Eligible)
        [''Both earlier and recent groups meet the minimum report-count requirement.'']
        (trend_limitations qualified rs sp) versions)"

definition evaluate_interpretation :: "progress_decision \<Rightarrow> bool \<Rightarrow> progress_decision" where
  "evaluate_interpretation trend has_metrics =
     (if pd_status trend \<in> {Ineligible, EligNotEvaluated}
      then decision_of interpretation_policy EligNotEvaluated [''There is no eligible trend to interpret.'']
        (pd_limitations trend) (pd_versions trend)
      else if \<not> has_metrics
      then decision_of interpretation_policy Ineligible [''No comparable metric has values in both groups.'']
        [''Missing measurements are excluded and are never interpreted as zero.''] (pd_versions trend)
      else decision_of interpretation_policy EligProvisional
        [''Court4 may describe measured changes using neutral observation language.'']
        (unique_list (pd_limitations trend
          @ [''No validated match-outcome metric links these movement changes to better or worse performance.'',
             ''Tactical intent, opponent response, and match format are not inferred.'']))
        (pd_versions trend))"

end
