(* ===== verification/History.thy ===== *)
theory History
  imports History_Policy
begin

text \<open>
  The projections of the play history (\<^verbatim>\<open>app/services/history/service.py\<close>): the page of the
  analysis history and the play history of an owner, from the jobs and reports of the
  repository. The repository is a record of reads of one moment; a read that raised is \<open>Inl\<close>,
  a report that is missing or no valid document is \<open>None\<close>.
\<close>

record history_repository =
  hr_ids :: "string list"
  hr_job :: "string \<Rightarrow> error + job"
  hr_current :: "string \<Rightarrow> bool"
  hr_analytics :: "string \<Rightarrow> analytics_report option"
  hr_match_iq :: "string \<Rightarrow> match_iq_report option"

section \<open>One analysis\<close>

definition quality_of :: "job \<Rightarrow> quality_level option" where
  "quality_of j = (case job_readiness j of Some q \<Rightarrow> Some (qa_status q) | None \<Rightarrow> map_option qa_status (job_preflight j))"

definition history_status_of :: "job \<Rightarrow> quality_level option \<Rightarrow> history_status" where
  "history_status_of j quality =
     (if job_status j = JobFailed then HistFailed
      else if quality = Some Unsuitable then HistUnsuitable
      else if job_status j \<in> {JobPending, JobProcessing} then HistProcessing
      else if quality = Some Limited then HistLimited
      else if job_status j = JobCompleted \<and> job_analytics j then HistReady
      else HistLegacy)"

definition limitation_of :: "job \<Rightarrow> quality_level option \<Rightarrow> string option" where
  "limitation_of j quality =
     (if job_status j = JobFailed then Some ''Court4 could not complete this analysis. The recording remains saved.''
      else if quality = Some Unsuitable
      then Some ''The recording did not contain enough reliable evidence for movement summaries.''
      else if quality = Some Limited
      then Some ''Some recording or tracking limitations apply; review the full report for context.''
      else None)"

definition title_of :: "job \<Rightarrow> string" where
  "title_of j =
     (let short = ''Analysis '' @ take 8 (job_id j);
          name = strip (map (\<lambda>c. if c = CHR ''_'' \<or> c = CHR ''-'' then CHR '' '' else c) (posix_stem (or_else (job_source j) []))) in
      if or_else (job_source j) [] = [] \<or> name = [] then short else name)"

definition thumbnail_of :: "job \<Rightarrow> string option" where
  "thumbnail_of j = map_option jf_url
     (find (\<lambda>f. starts_with ''image/'' (jf_content_type f) \<and> starts_with ''frames/'' (jf_path f)) (job_files j))"

definition observation_coverage :: "job \<Rightarrow> analytics_report option \<Rightarrow> match_iq_report option \<Rightarrow> rat option" where
  "observation_coverage j analytics iq =
     (case analytics of
        None \<Rightarrow> None
      | Some r \<Rightarrow>
          let assessment = (case Option.bind iq mq_recording of None \<Rightarrow> job_readiness j | Some q \<Rightarrow> Some q);
              upload = (case Option.bind (job_preflight j) qa_upload of
                  None \<Rightarrow> Option.bind assessment qa_upload | Some u \<Rightarrow> Some u) in
          (case upload of
             None \<Rightarrow> None
           | Some u \<Rightarrow> if 0 < ar_observed r \<and> ar_observed r \<le> uq_duration u then Some (ar_observed r / uq_duration u) else None))"

text \<open>A job whose candidate evidence is outdated is read as one still in progress.\<close>

definition current_job :: "history_repository \<Rightarrow> job \<Rightarrow> job" where
  "current_job rp j =
     (if hr_current rp (job_id j) then j else j\<lparr>job_analytics := False, job_readiness := None, job_status := JobProcessing\<rparr>)"

definition item_of :: "job \<Rightarrow> analytics_report option \<Rightarrow> match_iq_report option \<Rightarrow> contribution \<Rightarrow> history_item" where
  "item_of j analytics iq c =
     \<lparr>hi_id = job_id j, hi_sport = job_sport j, hi_title = title_of j, hi_created_at = job_created_at j,
      hi_updated_at = job_updated_at j, hi_status = history_status_of j (quality_of j), hi_processing = job_status j,
      hi_quality = quality_of j, hi_coverage = observation_coverage j analytics iq,
      hi_observed = (case analytics of
          Some r \<Rightarrow> Some (ar_observed r)
        | None \<Rightarrow> map_option aq_tracked (Option.bind (job_readiness j) qa_analysis)),
      hi_measurement = (analytics \<noteq> None),
      hi_match_iq = (case iq of None \<Rightarrow> False | Some q \<Rightarrow> mq_generated q),
      hi_contribution = c, hi_limitation = limitation_of j (quality_of j),
      hi_report_url = (if job_analytics j \<and> analytics \<noteq> None then ''/matches/'' @ job_id j @ ''/analytics'' else ''/matches/'' @ job_id j),
      hi_thumbnail = thumbnail_of j\<rparr>"

definition authoritative :: "job \<Rightarrow> bool" where
  "authoritative j \<longleftrightarrow> calibration_verified j \<and> job_analytics j"

definition project_analysis :: "history_repository \<Rightarrow> string \<Rightarrow> error + history_item" where
  "project_analysis rp a =
     bindE (hr_job rp a) (\<lambda>j0.
       let j = current_job rp j0;
           analytics = (if authoritative j then hr_analytics rp a else None);
           iq = (if authoritative j then hr_match_iq rp a else None);
           now = fold max ((case analytics of None \<Rightarrow> [] | Some r \<Rightarrow> [ar_created_at r])
             @ (case iq of None \<Rightarrow> [] | Some q \<Rightarrow> [mq_created_at q])) (job_updated_at j) in
       Inr (item_of j analytics iq (evaluate_contribution j analytics iq now)))"

section \<open>The analysis history\<close>

text \<open>A list comprehension: the first error ends it.\<close>

fun map_all :: "('a \<Rightarrow> error + 'b) \<Rightarrow> 'a list \<Rightarrow> error + 'b list" where
  "map_all f [] = Inr []"
| "map_all f (x # xs) = bindE (f x) (\<lambda>y. bindE (map_all f xs) (\<lambda>ys. Inr (y # ys)))"

text \<open>\<open>sort(key=..., reverse=True)\<close> keeps equal elements in order.\<close>

definition sort_latest :: "('a \<Rightarrow> 'k::linorder) \<Rightarrow> 'a list \<Rightarrow> 'a list" where
  "sort_latest k xs = rev (sort_key k (rev xs))"

record history_page =
  hp_items :: "history_item list"
  hp_total :: nat
  hp_limit :: nat
  hp_offset :: nat
  hp_completed :: nat

definition status_of_job :: "job \<Rightarrow> history_status" where
  "status_of_job j = history_status_of j (quality_of j)"

definition analysis_history :: "history_repository \<Rightarrow> nat \<Rightarrow> nat \<Rightarrow> history_status option \<Rightarrow> error + history_page" where
  "analysis_history rp limit offset status =
     bindE (map_all (hr_job rp) (unique_list (hr_ids rp))) (\<lambda>jobs.
       let jobs = sort_latest (\<lambda>j. (job_created_at j, job_id j)) jobs;
           completed = length (filter (\<lambda>j. status_of_job j \<in> {HistReady, HistLimited, HistUnsuitable}) jobs);
           chosen = (case status of None \<Rightarrow> jobs | Some s \<Rightarrow> filter (\<lambda>j. status_of_job j = s) jobs) in
       bindE (map_all (\<lambda>j. project_analysis rp (job_id j)) (take limit (drop offset chosen))) (\<lambda>items.
         Inr \<lparr>hp_items = items, hp_total = length chosen, hp_limit = limit, hp_offset = offset, hp_completed = completed\<rparr>))"

section \<open>The play history\<close>

record contributing_analysis =
  ca_id :: string
  ca_title :: string
  ca_created_at :: time
  ca_report_url :: string
  ca_status :: contribution_status
  ca_comparability :: progress_decision
  ca_observed :: "rat option"
  ca_movement :: "rat option"

record comparison_group =
  cg_name :: string
  cg_start :: time
  cg_end :: time
  cg_count :: nat
  cg_observed :: rat
  cg_movement :: rat
  cg_analyses :: "contributing_analysis list"

datatype direction = Higher | Lower | Stable

record trend_metric =
  tm_key :: string
  tm_label :: string
  tm_unit :: string
  tm_earlier :: "rat option"
  tm_recent :: "rat option"
  tm_change :: "rat option"
  tm_direction :: "direction option"
  tm_context :: string
  tm_method :: string
  tm_normalization :: string
  tm_earlier_count :: nat
  tm_recent_count :: nat
  tm_earlier_observed :: rat
  tm_recent_observed :: rat
  tm_ids :: "string list"
  tm_provisional :: bool
  tm_limitations :: "string list"

definition contributing_of :: "history_item \<Rightarrow> analytics_report option \<Rightarrow> progress_decision \<Rightarrow> contributing_analysis" where
  "contributing_of item analytics decision =
     \<lparr>ca_id = hi_id item, ca_title = hi_title item, ca_created_at = hi_created_at item, ca_report_url = hi_report_url item,
      ca_status = co_status (hi_contribution item), ca_comparability = decision,
      ca_observed = map_option ar_observed analytics, ca_movement = map_option ar_tracked analytics\<rparr>"

text \<open>The items that contribute; the first of several with the same id.\<close>

definition unique_included :: "history_item list \<Rightarrow> history_item list" where
  "unique_included items = foldl (\<lambda>acc i. if list_ex (\<lambda>x. hi_id x = hi_id i) acc then acc else acc @ [i]) []
     (filter (\<lambda>i. co_status (hi_contribution i) = Included) items)"

definition comparability_of :: "history_repository \<Rightarrow> history_item \<Rightarrow> progress_decision" where
  "comparability_of rp i = evaluate_comparability i (hr_analytics rp (hi_id i)) (hr_match_iq rp (hi_id i))"

definition comparison_candidates :: "history_repository \<Rightarrow> history_item list \<Rightarrow> contributing_analysis list" where
  "comparison_candidates rp included =
     map (\<lambda>i. contributing_of i (hr_analytics rp (hi_id i)) (comparability_of rp i)) included"

definition comparison_reports :: "history_repository \<Rightarrow> history_item list \<Rightarrow> comparable_report list" where
  "comparison_reports rp included =
     concat (map (\<lambda>i. case hr_analytics rp (hi_id i) of
         None \<Rightarrow> []
       | Some r \<Rightarrow> if pd_status (comparability_of rp i) \<in> {Eligible, EligProvisional}
           then [\<lparr>cp_item = i, cp_analytics = r, cp_match_iq = hr_match_iq rp (hi_id i), cp_decision = comparability_of rp i\<rparr>]
           else []) included)"

definition qualified_analytics :: "history_repository \<Rightarrow> history_item list \<Rightarrow> analytics_report list" where
  "qualified_analytics rp included = List.map_filter (\<lambda>i. hr_analytics rp (hi_id i)) included"

record zone_summary =
  zs_zone :: zone
  zs_seconds :: rat
  zs_denominator :: rat
  zs_percentage :: rat
  zs_contributing :: nat

text \<open>\<open>sorted(totals, key=lambda k: (-totals[k], k))[0]\<close>, over the names in their alphabetical order.\<close>

definition greatest_zone :: "rat \<Rightarrow> rat \<Rightarrow> rat \<Rightarrow> zone" where
  "greatest_zone k t b = (if b \<ge> k \<and> b \<ge> t then Baseline else if k \<ge> t then Kitchen else Transition)"

definition zone_total :: "analytics_report \<Rightarrow> rat" where
  "zone_total r = ar_kitchen r + ar_transition r + ar_baseline r"

definition most_common_zone :: "analytics_report list \<Rightarrow> zone_summary option" where
  "most_common_zone rs =
     (let used = filter (\<lambda>r. zone_total r > 0) rs;
          k = sum_list (map ar_kitchen used); t = sum_list (map ar_transition used); b = sum_list (map ar_baseline used);
          z = greatest_zone k t b; seconds = (case z of Kitchen \<Rightarrow> k | Transition \<Rightarrow> t | Baseline \<Rightarrow> b) in
      if k + t + b \<le> 0 \<or> used = [] then None
      else Some \<lparr>zs_zone = z, zs_seconds = seconds, zs_denominator = k + t + b, zs_percentage = seconds / (k + t + b) * 100,
        zs_contributing = length used\<rparr>)"

record verified_summary =
  vs_id :: string
  vs_title :: string
  vs_created_at :: time
  vs_summary :: string
  vs_report_url :: string

definition verified_match_iq :: "history_repository \<Rightarrow> history_item list \<Rightarrow> verified_summary list" where
  "verified_match_iq rp included =
     concat (map (\<lambda>i. case hr_match_iq rp (hi_id i) of
         None \<Rightarrow> []
       | Some q \<Rightarrow> if mq_generated q \<and> mq_gate q \<in> {GateNormal, GateCautious}
           then [\<lparr>vs_id = hi_id i, vs_title = hi_title i, vs_created_at = mq_created_at q, vs_summary = mq_summary q,
             vs_report_url = hi_report_url i\<rparr>] else []) included)"

section \<open>Progress\<close>

definition trend_metric_of ::
    "string \<Rightarrow> string \<Rightarrow> string \<Rightarrow> aggregate \<Rightarrow> aggregate \<Rightarrow> rat \<Rightarrow> string \<Rightarrow> string \<Rightarrow> string \<Rightarrow> progress_decision \<Rightarrow> trend_metric" where
  "trend_metric_of key label unit earlier recent tolerance ctxt method normalization trend =
     (let change = (case (ag_value earlier, ag_value recent) of (Some e, Some r) \<Rightarrow> Some (r - e) | _ \<Rightarrow> None) in
      \<lparr>tm_key = key, tm_label = label, tm_unit = unit, tm_earlier = ag_value earlier, tm_recent = ag_value recent,
       tm_change = change,
       tm_direction = map_option (\<lambda>c. if \<bar>c\<bar> < tolerance then Stable else if c > 0 then Higher else Lower) change,
       tm_context = ctxt, tm_method = method, tm_normalization = normalization,
       tm_earlier_count = ag_count earlier, tm_recent_count = ag_count recent,
       tm_earlier_observed = ag_observed earlier, tm_recent_observed = ag_observed recent,
       tm_ids = unique_list (ag_ids earlier @ ag_ids recent),
       tm_provisional = (pd_status trend = EligProvisional \<or> ag_provisional earlier \<or> ag_provisional recent \<or> change = None),
       tm_limitations = unique_list (ag_limitations earlier @ ag_limitations recent)\<rparr>)"

definition position_minimum :: rat where "position_minimum = 5"

definition zone_metric ::
    "string \<Rightarrow> string \<Rightarrow> zone \<Rightarrow> string \<Rightarrow> comparable_report list \<Rightarrow> comparable_report list \<Rightarrow> progress_decision \<Rightarrow> trend_metric" where
  "zone_metric key label z ctxt earlier recent trend =
     trend_metric_of key label ''%'' (aggregate_zone z earlier) (aggregate_zone z recent) position_minimum ctxt
       (''sum zone seconds '' @ CHR 0xF7 # '' sum qualified tracked seconds'') ''duration-weighted court-zone occupancy'' trend"

definition trend_metrics :: "comparable_report list \<Rightarrow> comparable_report list \<Rightarrow> progress_decision \<Rightarrow> trend_metric list" where
  "trend_metrics earlier recent trend =
     [trend_metric_of ''movement_pace'' ''Observed movement pace'' ''m/s'' (aggregate_pace earlier) (aggregate_pace recent) (5/100)
        ''Distance is normalized by qualified tracked time. A higher or lower value describes observed movement and is not a performance judgment.''
        (''sum distance metres '' @ CHR 0xF7 # '' sum qualified tracked seconds'') ''time-normalized movement distance'' trend,
      zone_metric ''kitchen_share'' ''Observed time near the kitchen'' Kitchen
        ''Share of qualified tracked time observed near the kitchen.'' earlier recent trend,
      zone_metric ''transition_share'' ''Observed time in transition'' Transition
        ''Share of qualified tracked time observed in the transition zone.'' earlier recent trend,
      zone_metric ''baseline_share'' ''Observed time near the baseline'' Baseline
        ''Share of qualified tracked time observed near the baseline.'' earlier recent trend]"

text \<open>\<open>min\<close> and \<open>max\<close> of a list that is not empty.\<close>

definition first_of :: "time list \<Rightarrow> time" where "first_of ts = fold min (tl ts) (hd ts)"
definition last_of :: "time list \<Rightarrow> time" where "last_of ts = fold max (tl ts) (hd ts)"

definition report_times :: "comparable_report list \<Rightarrow> time list" where
  "report_times rs = map (\<lambda>r. hi_created_at (cp_item r)) rs"

definition comparison_group_of :: "string \<Rightarrow> comparable_report list \<Rightarrow> comparison_group option" where
  "comparison_group_of name rs =
     (if rs = [] then None
      else Some \<lparr>cg_name = name, cg_start = first_of (report_times rs), cg_end = last_of (report_times rs), cg_count = length rs,
        cg_observed = sum_list (map observed_of rs), cg_movement = sum_list (map tracked_of rs),
        cg_analyses = map (\<lambda>r. contributing_of (cp_item r) (Some (cp_analytics r)) (cp_decision r)) rs\<rparr>)"

datatype baseline_status = NoQualifiedReports | BuildingBaseline | BaselineEstablished | MixedReports | ComparisonAvailable

definition baseline_status_of :: "nat \<Rightarrow> nat \<Rightarrow> progress_decision \<Rightarrow> baseline_status" where
  "baseline_status_of qualified comparable trend =
     (if qualified = 0 then NoQualifiedReports
      else if comparable < baseline_minimum then (if qualified \<ge> baseline_minimum then MixedReports else BuildingBaseline)
      else if comparable = baseline_minimum then BaselineEstablished
      else if pd_status trend = Ineligible then MixedReports
      else ComparisonAvailable)"

definition progress_copy :: "baseline_status \<Rightarrow> trend_metric list \<Rightarrow> nat \<Rightarrow> string \<times> string" where
  "progress_copy s metrics comparable =
     (case s of
        NoQualifiedReports \<Rightarrow> (''Your progress history hasn'' @ CHR 0x27 # ''t started yet'',
          ''Court4 needs completed analyses with enough clear, reliable video before it can compare how your play changes over time.'')
      | BuildingBaseline \<Rightarrow> (''Building your baseline'',
          ''Court4 has '' @ decimal comparable @ '' comparable '' @ (if comparable = 1 then ''report'' else ''reports'')
          @ ''. More are needed before showing changes over time.'')
      | BaselineEstablished \<Rightarrow> (''Initial baseline established'',
          ''Three comparable reports establish a baseline. Court4 requires at least two reports in both the earlier and recent groups before showing a comparison.'')
      | MixedReports \<Rightarrow> (''Reports are not comparable yet'',
          ''Court4 has qualified reports, but their available evidence is not compatible enough for a reliable comparison.'')
      | ComparisonAvailable \<Rightarrow>
          ((if list_ex (\<lambda>m. tm_direction m \<in> {Some Higher, Some Lower}) metrics
            then ''Observed changes are ready to review'' else ''No clear change yet''),
           ''Court4 compared your earlier and recent qualified observations using the same versioned grouping and aggregation rules.''))"

record play_style =
  py_changed :: bool
  py_key :: string
  py_label :: string
  py_earlier :: "rat option"
  py_recent :: "rat option"
  py_unit :: string
  py_summary :: string
  py_count :: nat
  py_observed :: rat
  py_provisional :: bool
  py_limitations :: "string list"

definition progress_disclaimer :: string where
  "progress_disclaimer = ''Court4 shows differences between similar recordings. A difference alone does not show whether your performance got better or worse.''"

definition change_of :: "trend_metric \<Rightarrow> rat" where
  "change_of m = (case tm_change m of None \<Rightarrow> 0 | Some c \<Rightarrow> c)"

text \<open>\<open>max\<close> keeps the first of several greatest elements.\<close>

definition strongest :: "trend_metric list \<Rightarrow> trend_metric" where
  "strongest ms = foldl (\<lambda>m x. if \<bar>change_of m\<bar> < \<bar>change_of x\<bar> then x else m) (hd ms) (tl ms)"

definition zone_metrics :: "trend_metric list \<Rightarrow> trend_metric list" where
  "zone_metrics ms = filter (\<lambda>m. tm_key m \<in> {''kitchen_share'', ''transition_share'', ''baseline_share''}
     \<and> tm_earlier m \<noteq> None \<and> tm_recent m \<noteq> None \<and> tm_change m \<noteq> None) ms"

definition share_text :: "rat option \<Rightarrow> string" where
  "share_text x = fixed_text 1 (case x of None \<Rightarrow> 0 | Some v \<Rightarrow> v) @ ''%''"

definition play_style_of :: "trend_metric list \<Rightarrow> progress_decision \<Rightarrow> play_style option" where
  "play_style_of ms interpretation =
     (if zone_metrics ms = [] then None
      else let m = strongest (zone_metrics ms); change = change_of m; small = \<bar>change\<bar> < position_minimum in
        Some \<lparr>py_changed = (\<not> small), py_key = tm_key m, py_label = tm_label m, py_earlier = tm_earlier m, py_recent = tm_recent m,
          py_unit = tm_unit m,
          py_summary =
            (if small
             then ''No clear court-positioning change yet. The largest observed zone difference was ''
               @ fixed_text 1 \<bar>change\<bar> @ '' percentage points.''
             else ''Court4 observed '' @ (if change > 0 then ''more'' else ''less'')
               @ '' of your reliably tracked positioning for '' @ lower (tm_label m) @ '' in recent qualified analyses (''
               @ share_text (tm_earlier m) @ '' to '' @ share_text (tm_recent m) @ '').''),
          py_count = length (tm_ids m), py_observed = tm_earlier_observed m + tm_recent_observed m, py_provisional = True,
          py_limitations = unique_list (tm_limitations m @ pd_limitations interpretation @ [progress_disclaimer])\<rparr>)"

record progress_summary =
  pg_status :: baseline_status
  pg_answer :: string
  pg_explanation :: string
  pg_qualified :: nat
  pg_comparable :: nat
  pg_observed :: rat
  pg_start :: "time option"
  pg_end :: "time option"
  pg_provisional :: bool
  pg_limitations :: "string list"
  pg_earlier_count :: nat
  pg_recent_count :: nat
  pg_earlier :: "comparison_group option"
  pg_recent :: "comparison_group option"
  pg_trend :: progress_decision
  pg_interpretation :: progress_decision
  pg_ids :: "string list"
  pg_methods :: "string list"
  pg_metrics :: "trend_metric list"
  pg_style :: "play_style option"

definition metrics_of :: "comparison_split \<Rightarrow> progress_decision \<Rightarrow> trend_metric list" where
  "metrics_of sp trend =
     (if sp_earlier sp \<noteq> [] \<and> sp_recent sp \<noteq> [] \<and> pd_status trend \<in> {Eligible, EligProvisional}
      then trend_metrics (sp_earlier sp) (sp_recent sp) trend else [])"

definition progress_of :: "nat \<Rightarrow> analytics_report list \<Rightarrow> comparable_report list \<Rightarrow> comparison_split \<Rightarrow> progress_summary" where
  "progress_of qualified analytics rs sp =
     (let trend = evaluate_trend qualified rs sp;
          metrics = metrics_of sp trend;
          interpretation = evaluate_interpretation trend (list_ex (\<lambda>m. tm_earlier m \<noteq> None) metrics);
          status = baseline_status_of qualified (length rs) trend;
          copy = progress_copy status metrics (length rs);
          times = report_times (sp_candidates sp) in
      \<lparr>pg_status = status, pg_answer = fst copy, pg_explanation = snd copy, pg_qualified = qualified,
       pg_comparable = length rs, pg_observed = sum_list (map ar_observed analytics),
       pg_start = (if times = [] then None else Some (first_of times)),
       pg_end = (if times = [] then None else Some (last_of times)),
       pg_provisional = (status \<noteq> ComparisonAvailable \<or> pd_status trend = EligProvisional
         \<or> pd_status interpretation = EligProvisional \<or> list_ex tm_provisional metrics),
       pg_limitations = unique_list (progress_disclaimer # pd_limitations trend @ pd_limitations interpretation
         @ concat (map tm_limitations metrics)),
       pg_earlier_count = length (sp_earlier sp), pg_recent_count = length (sp_recent sp),
       pg_earlier = comparison_group_of ''Earlier'' (sp_earlier sp), pg_recent = comparison_group_of ''Recent'' (sp_recent sp),
       pg_trend = trend, pg_interpretation = interpretation,
       pg_ids = map report_id (if metrics \<noteq> [] then sp_earlier sp @ sp_recent sp else sp_candidates sp),
       pg_methods = unique_list (map tm_method metrics), pg_metrics = metrics,
       pg_style = play_style_of metrics interpretation\<rparr>)"

record play_history_response =
  ph_total :: nat
  ph_eligible :: nat
  ph_comparable :: nat
  ph_excluded :: nat
  ph_provisional :: nat
  ph_not_evaluated :: nat
  ph_observed :: "rat option"
  ph_movement :: "rat option"
  ph_zone :: "zone_summary option"
  ph_match_iq :: "verified_summary list"
  ph_recent :: "history_item list"
  ph_contributions :: "history_item list"
  ph_candidates :: "contributing_analysis list"
  ph_readiness :: "baseline_status \<times> string \<times> nat \<times> nat"
  ph_progress :: progress_summary

definition all_items :: "history_repository \<Rightarrow> error + history_item list" where
  "all_items rp = bindE (map_all (project_analysis rp) (unique_list (hr_ids rp))) (\<lambda>items.
     Inr (sort_latest (\<lambda>i. (hi_created_at i, hi_id i)) items))"

definition with_contribution :: "contribution_status \<Rightarrow> history_item list \<Rightarrow> nat" where
  "with_contribution s items = length (filter (\<lambda>i. co_status (hi_contribution i) = s) items)"

definition play_history_of :: "history_repository \<Rightarrow> nat \<Rightarrow> history_item list \<Rightarrow> play_history_response" where
  "play_history_of rp recent items =
     (let included = unique_included items;
          analytics = qualified_analytics rp included;
          reports = comparison_reports rp included;
          progress = progress_of (length included) analytics reports (deterministic_split reports) in
      \<lparr>ph_total = length items, ph_eligible = length included, ph_comparable = length reports,
       ph_excluded = with_contribution Excluded items, ph_provisional = with_contribution Provisional items,
       ph_not_evaluated = with_contribution NotEvaluated items,
       ph_observed = (if analytics = [] then None else Some (sum_list (map ar_observed analytics))),
       ph_movement = (if analytics = [] then None else Some (sum_list (map ar_tracked analytics))),
       ph_zone = most_common_zone analytics,
       ph_match_iq = take recent (verified_match_iq rp included), ph_recent = take recent included,
       ph_contributions = items, ph_candidates = comparison_candidates rp included,
       ph_readiness = (pg_status progress, pg_explanation progress, baseline_minimum, pg_comparable progress),
       ph_progress = progress\<rparr>)"

definition play_history :: "history_repository \<Rightarrow> nat \<Rightarrow> error + play_history_response" where
  "play_history rp recent = bindE (all_items rp) (\<lambda>items. Inr (play_history_of rp recent items))"

end
