(* ===== verification/Quality_Properties.thy ===== *)
theory Quality_Properties
  imports Quality
begin

text \<open>
  What the assessments amount to: the level of an upload and the verdict on an analysis as
  conditions on the measured values, and the ranges of the signals.
\<close>

section \<open>Checks by status\<close>

named_theorems check_simps "the status of a check"

lemma check_status [check_simps]:
  "qc_status (pass_check c l m v) = CheckPassed" "qc_status (warn_check c l m v) = CheckWarning"
  "qc_status (fail_check c l m v) = CheckFailed"
  by (simp_all add: pass_check_def warn_check_def fail_check_def)

lemma with_status_simps [check_simps]:
  "with_status s [] = []" "with_status s (c # cs) = (if qc_status c = s then c # with_status s cs else with_status s cs)"
  "with_status s (cs @ ds) = with_status s cs @ with_status s ds"
  by (simp_all add: with_status_def)

lemma with_status_empty: "with_status s cs = [] \<longleftrightarrow> (\<forall>c\<in>set cs. qc_status c \<noteq> s)"
  by (auto simp: with_status_def filter_empty_conv)

lemma assessment_level:
  "qa_status (assessment_of st cs excellent u a now) =
     (if list_ex (\<lambda>c. qc_status c = CheckFailed) cs then Unsuitable
      else if list_ex (\<lambda>c. qc_status c = CheckWarning) cs then Limited
      else if excellent then Excellent else Good)"
  by (auto simp: assessment_of_def Let_def quality_level_of_def with_status_empty list_ex_iff)

lemma upload_check_status [check_simps]:
  "qc_status (resolution_check t v) = (if short_edge v < th_blocking_edge t then CheckFailed
     else if short_edge v < th_minimum_edge t then CheckWarning else CheckPassed)"
  "qc_status (fps_check t v) = (if vm_fps v < th_blocking_fps t then CheckFailed
     else if vm_fps v < th_minimum_fps t then CheckWarning else CheckPassed)"
  "qc_status (duration_check t v) = (if vm_duration v < th_minimum_duration t then CheckFailed else CheckPassed)"
  by (simp_all add: resolution_check_def fps_check_def duration_check_def check_simps Let_def)

lemma analysis_check_status [check_simps]:
  "qc_status (calibration_check b) = (if b then CheckPassed else CheckFailed)"
  "qc_status (candidates_check n cs) = (if n = 0 \<or> selectable cs = [] then CheckFailed else CheckPassed)"
  "qc_status (candidate_check c) = (if pc_quality c = CandStrong then CheckPassed else CheckWarning)"
  "qc_status (visibility_check t c) = (if pc_visibility c \<ge> th_minimum_visibility t then CheckPassed else CheckFailed)"
  "qc_status (tracked_check t c) = (if pc_observed c < th_minimum_tracked t then CheckFailed
     else if pc_observed c < th_excellent_tracked t then CheckWarning else CheckPassed)"
  "qc_status (gaps_check t c) = (if gap_ratio c > th_blocking_gap t then CheckFailed
     else if gap_ratio c > th_warning_gap t \<or> length (pc_tracks c) > 1 then CheckWarning else CheckPassed)"
  by (simp_all add: calibration_check_def candidates_check_def candidate_check_def visibility_check_def tracked_check_def
      gaps_check_def check_simps Let_def)

text \<open>
  The level of an upload, read off its measurements: unsuitable below 480 lines, 15
  frames a second or 10 seconds, else limited when it is vertical or below 720 lines or 24
  frames a second, else excellent from 1080 lines, 30 frames and a minute on, else good.
\<close>

theorem upload_quality_level:
  "qa_status (assess_upload_preflight quality_policy now v) =
     (if short_edge v < 480 \<or> vm_fps v < 15 \<or> vm_duration v < 10 then Unsuitable
      else if vm_height v > vm_width v \<or> short_edge v < 720 \<or> vm_fps v < 24 then Limited
      else if short_edge v \<ge> 1080 \<and> vm_fps v \<ge> 30 \<and> vm_duration v \<ge> 60 then Excellent
      else Good)"
  unfolding assess_upload_preflight_def Let_def assessment_level
  by (auto simp: check_simps quality_policy_def vertical_def)

section \<open>The evidence of an analysis\<close>

lemma evidence_selectable:
  "evidence_candidate cs s = Some c \<Longrightarrow> c \<in> set (selectable cs)"
  by (auto simp: evidence_candidate_def split: option.splits list.splits dest: find_Some_in)

lemma evidence_None: "evidence_candidate cs s = None \<longleftrightarrow> selectable cs = []"
  by (auto simp: evidence_candidate_def split: option.splits list.splits dest: find_Some_in)

text \<open>The candidate is good enough for the blocking thresholds.\<close>

definition evidence_suffices :: "player_candidate \<Rightarrow> bool" where
  "evidence_suffices c \<longleftrightarrow> pc_visibility c \<ge> 65/100 \<and> pc_observed c \<ge> 5 \<and> gap_ratio c \<le> 1/2 \<and> length (pc_tracks c) \<le> 3"

lemma evidence_failed:
  "list_ex (\<lambda>x. qc_status x = CheckFailed) (evidence_checks quality_policy (Some c)) \<longleftrightarrow> \<not> evidence_suffices c"
  by (auto simp: evidence_checks_def fragments_checks_def check_simps evidence_suffices_def quality_policy_def)

lemma readiness_failed:
  "qa_status (assess_analysis_readiness quality_policy now i) \<noteq> Unsuitable \<longleftrightarrow>
     (case ri_upload i of None \<Rightarrow> True | Some u \<Rightarrow> qa_status u \<noteq> Unsuitable)
     \<and> ri_calibrated i \<and> ri_people i > 0
     \<and> (case evidence_candidate (ri_candidates i) (ri_selected i) of None \<Rightarrow> False | Some c \<Rightarrow> evidence_suffices c)"
proof (cases "evidence_candidate (ri_candidates i) (ri_selected i)")
  case None
  then have "selectable (ri_candidates i) = []" by (simp add: evidence_None)
  with None show ?thesis
    by (simp add: assess_analysis_readiness_def assessment_level Let_def check_simps)
next
  case (Some c)
  then have "selectable (ri_candidates i) \<noteq> []" by (metis evidence_None option.distinct(1))
  then show ?thesis
    using Some evidence_failed [of c]
    by (auto simp: assess_analysis_readiness_def assessment_level Let_def check_simps preflight_checks_def split: option.split)
qed

lemma gap_ratio_range:
  assumes "pc_observed c \<ge> 0"
  shows "0 \<le> gap_ratio c \<and> gap_ratio c \<le> 1"
proof (cases "candidate_span c > 0")
  case True
  then have "gap_seconds c \<le> candidate_span c" using assms by (simp add: gap_seconds_def)
  moreover have "0 \<le> gap_seconds c" by (simp add: gap_seconds_def)
  ultimately show ?thesis using True by (simp add: gap_ratio_def)
next
  case False
  then show ?thesis by (simp add: gap_ratio_def)
qed

text \<open>The ranges \<open>AnalysisQualitySignals\<close> declares.\<close>

definition signals_valid :: "analysis_signals \<Rightarrow> bool" where
  "signals_valid s \<longleftrightarrow> (case aq_court_confidence s of None \<Rightarrow> True | Some c \<Rightarrow> 0 \<le> c \<and> c \<le> 1)
     \<and> (case aq_visibility s of None \<Rightarrow> True | Some v \<Rightarrow> 0 \<le> v \<and> v \<le> 1)
     \<and> 0 \<le> aq_tracked s \<and> 0 \<le> aq_gap_seconds s \<and> 0 \<le> aq_gap_ratio s \<and> aq_gap_ratio s \<le> 1"

text \<open>The ranges \<open>PlayerCandidate\<close> declares of what is read here.\<close>

definition candidate_valid :: "player_candidate \<Rightarrow> bool" where
  "candidate_valid c \<longleftrightarrow> pc_tracks c \<noteq> [] \<and> distinct (pc_tracks c) \<and> 0 \<le> pc_first c \<and> pc_first c \<le> pc_last c
     \<and> 0 \<le> pc_observed c \<and> 0 \<le> pc_visibility c \<and> pc_visibility c \<le> 1"

text \<open>
  An analysis is found unsuitable exactly when its upload was, the court is not
  calibrated, nobody was detected, no candidate can be selected, or the candidate the
  evidence is taken from falls short of a blocking threshold; and the signals stored for
  valid candidates are always in the ranges their schema declares.
\<close>

theorem readiness_verdict:
  assumes "list_all candidate_valid (ri_candidates i)"
    and "case ri_court_confidence i of None \<Rightarrow> True | Some c \<Rightarrow> 0 \<le> c \<and> c \<le> 1"
  shows "(qa_status (assess_analysis_readiness quality_policy now i) = Unsuitable \<longleftrightarrow>
       Option.is_none (evidence_candidate (ri_candidates i) (ri_selected i))
       \<or> ri_people i = 0 \<or> \<not> ri_calibrated i
       \<or> map_option qa_status (ri_upload i) = Some Unsuitable
       \<or> map_option evidence_suffices (evidence_candidate (ri_candidates i) (ri_selected i)) = Some False)
     \<and> map_option signals_valid (qa_analysis (assess_analysis_readiness quality_policy now i)) = Some True"
proof
  show "qa_status (assess_analysis_readiness quality_policy now i) = Unsuitable \<longleftrightarrow>
       Option.is_none (evidence_candidate (ri_candidates i) (ri_selected i))
       \<or> ri_people i = 0 \<or> \<not> ri_calibrated i
       \<or> map_option qa_status (ri_upload i) = Some Unsuitable
       \<or> map_option evidence_suffices (evidence_candidate (ri_candidates i) (ri_selected i)) = Some False"
    using readiness_failed [of now i] by (auto split: option.splits)
  have "candidate_valid c" if "evidence_candidate (ri_candidates i) (ri_selected i) = Some c" for c
    using evidence_selectable [OF that] assms(1) by (auto simp: selectable_def list_all_iff)
  then show "map_option signals_valid (qa_analysis (assess_analysis_readiness quality_policy now i)) = Some True"
    using assms(2) gap_ratio_range
    by (auto simp: assess_analysis_readiness_def assessment_of_def Let_def signals_valid_def candidate_valid_def gap_seconds_def
        split: option.split)
qed

definition demo_candidate :: player_candidate where
  "demo_candidate = \<lparr>pc_id = ''player-1'', pc_tracks = [4, 9], pc_first = 0, pc_last = 40, pc_observed = 36,
     pc_visibility = 9/10, pc_eligible = True, pc_quality = CandStrong\<rparr>"

definition demo_readiness :: readiness_input where
  "demo_readiness = \<lparr>ri_upload = None, ri_calibrated = True, ri_court_status = None, ri_court_confidence = Some (8/10),
     ri_people = 2, ri_candidates = [demo_candidate], ri_selected = Some ''player-1''\<rparr>"

theorem readiness_verdict_witness:
  "map_option signals_valid (qa_analysis (assess_analysis_readiness quality_policy 7 demo_readiness)) = Some True
   \<and> qa_status (assess_analysis_readiness quality_policy 7 demo_readiness) = Limited"
proof
  have "list_all candidate_valid (ri_candidates demo_readiness)"
    by (simp add: demo_readiness_def demo_candidate_def candidate_valid_def)
  moreover have "case ri_court_confidence demo_readiness of None \<Rightarrow> True | Some c \<Rightarrow> 0 \<le> c \<and> c \<le> 1"
    by (simp add: demo_readiness_def)
  ultimately show "map_option signals_valid (qa_analysis (assess_analysis_readiness quality_policy 7 demo_readiness)) = Some True"
    using readiness_verdict by blast
  show "qa_status (assess_analysis_readiness quality_policy 7 demo_readiness) = Limited" by code_simp
qed

end
