(* ===== verification/History_Properties.thy ===== *)
theory History_Properties
  imports History Quality_Properties "HOL-Library.Multiset"
begin

text \<open>
  The play history counts an analysis exactly when its evidence meets the standard, compares
  the same reports in the same way whatever order they come in, and never claims more than
  a provisional comparison.
\<close>

section \<open>What contributes\<close>

text \<open>The evidence standard, as conditions.\<close>

definition evidence_standard :: "analysis_signals \<Rightarrow> analytics_report \<Rightarrow> match_iq_report option \<Rightarrow> bool" where
  "evidence_standard s r iq \<longleftrightarrow>
     (case aq_visibility s of None \<Rightarrow> False | Some v \<Rightarrow> v \<ge> 65/100) \<and> aq_tracked s \<ge> 5 \<and> aq_gap_ratio s \<le> 1/2
     \<and> aq_fragments s \<le> 3 \<and> ar_observed r > 0 \<and> ar_tracked r > 0
     \<and> (case Option.bind iq mq_confidence of None \<Rightarrow> True | Some c \<Rightarrow> measurement_confidence c \<in> {ConfHigh, ConfModerate})"

lemma not_weak: "\<not> weak l \<longleftrightarrow> l \<in> {ConfHigh, ConfModerate}"
  by (cases l) (simp_all add: weak_def)

lemma no_exclusion: "exclusion_reasons s r iq = [] \<longleftrightarrow> evidence_standard s r iq"
  unfolding exclusion_reasons_def evidence_standard_def not_weak [symmetric]
  by (simp add: quality_policy_def not_less split: option.split)

lemma contribution_status_of [simp]: "co_status (contribution_of s rs x now v) = s"
  by (simp add: contribution_of_def)

text \<open>
  An analysis contributes to the play history exactly when it is a completed pickleball
  analysis with analytics under a verified calibration, its readiness assessment blocks
  nothing, and its signals and measurements meet the evidence standard.
\<close>

theorem contribution_exact:
  "co_status (evaluate_contribution j analytics iq now) = Included \<longleftrightarrow>
     job_sport j = Pickleball \<and> job_status j = JobCompleted \<and> job_analytics j \<and> calibration_verified j
     \<and> \<not> blocked (job_readiness j)
     \<and> (case (analytics, Option.bind (job_readiness j) qa_analysis) of
          (Some r, Some s) \<Rightarrow> evidence_standard s r iq
        | _ \<Rightarrow> False)"
  unfolding no_exclusion [symmetric]
  by (cases "job_status j"; cases analytics; cases "job_readiness j"; cases "Option.bind (job_readiness j) qa_analysis")
    (auto simp: evaluate_contribution_def Let_def split: option.split)

lemma assessed_signals:
  "qa_analysis (assess_analysis_readiness t now i) = Some s \<Longrightarrow> qa_status (assess_analysis_readiness t now i) \<noteq> Unsuitable \<Longrightarrow>
     t = quality_policy \<Longrightarrow>
     (case aq_visibility s of None \<Rightarrow> False | Some v \<Rightarrow> v \<ge> 65/100) \<and> aq_tracked s \<ge> 5 \<and> aq_gap_ratio s \<le> 1/2 \<and> aq_fragments s \<le> 3"
  using readiness_failed [of now i]
  by (auto simp: assess_analysis_readiness_def assessment_of_def Let_def evidence_suffices_def split: option.splits)

lemma not_blocked_iff:
  "blocked (Some (assess_analysis_readiness t now i)) \<longleftrightarrow> qa_status (assess_analysis_readiness t now i) = Unsuitable"
  by (simp add: blocked_def assess_analysis_readiness_def assessment_of_def Let_def quality_level_of_def)

text \<open>
  C25: The assessment before the analysis and the play history agree: a completed, verified
  analysis whose readiness was not found unsuitable contributes exactly when its
  measurements have a denominator and their confidence is not weak. No signal threshold of
  the history can exclude it.
\<close>

theorem readiness_supports_history:
  assumes "job_readiness j = Some (assess_analysis_readiness quality_policy t i)"
    and "qa_status (assess_analysis_readiness quality_policy t i) \<noteq> Unsuitable"
    and "job_sport j = Pickleball" and "job_status j = JobCompleted" and "job_analytics j" and "calibration_verified j"
  shows "co_status (evaluate_contribution j (Some r) iq now) = Included \<longleftrightarrow>
    ar_observed r > 0 \<and> ar_tracked r > 0
    \<and> (case Option.bind iq mq_confidence of None \<Rightarrow> True | Some c \<Rightarrow> measurement_confidence c \<in> {ConfHigh, ConfModerate})"
proof -
  obtain s where s: "qa_analysis (assess_analysis_readiness quality_policy t i) = Some s"
    by (simp add: assess_analysis_readiness_def assessment_of_def Let_def)
  have "\<not> blocked (job_readiness j)" using assms(1,2) not_blocked_iff by simp
  then show ?thesis
    using assms(1,3-6) s assessed_signals [OF s assms(2) refl]
    by (auto simp: evaluate_contribution_def Let_def no_exclusion evidence_standard_def split: if_splits)
qed

section \<open>How reports are grouped\<close>

lemma keep_latest_ids:
  "distinct (map report_id acc) \<Longrightarrow> distinct (map report_id (keep_latest acc r))
     \<and> report_id ` set (keep_latest acc r) = insert (report_id r) (report_id ` set acc)"
proof (cases "find (\<lambda>x. report_id x = report_id r) acc")
  case None
  assume d: "distinct (map report_id acc)"
  from None have "keep_latest acc r = acc @ [r]" by (simp add: keep_latest_def)
  moreover from None have "report_id r \<notin> report_id ` set acc" by (auto simp: find_None_iff)
  ultimately show ?thesis using d by auto
next
  case (Some x)
  assume d: "distinct (map report_id acc)"
  from Some have x: "x \<in> set acc" "report_id x = report_id r" by (auto dest: find_Some_in)
  have "map report_id (update_where (\<lambda>x. report_id x = report_id r) (\<lambda>_. r) acc) = map report_id acc"
    by (simp add: map_update_where_on)
  then have "map report_id (keep_latest acc r) = map report_id acc" using Some by (simp add: keep_latest_def)
  with d x show ?thesis by (metis image_eqI insert_absorb set_map)
qed

lemma keep_latest_members:
  "set (keep_latest acc r) \<subseteq> insert r (set acc)"
  by (auto simp: keep_latest_def in_update_where split: option.splits if_splits)

lemma keep_latest_greatest:
  assumes "distinct (map report_id acc)"
  shows "\<exists>y\<in>set (keep_latest acc r). report_id y = report_id r \<and> report_key r \<le> report_key y"
    and "x \<in> set acc \<Longrightarrow> \<exists>y\<in>set (keep_latest acc r). report_id y = report_id x \<and> report_key x \<le> report_key y"
proof -
  show "\<exists>y\<in>set (keep_latest acc r). report_id y = report_id r \<and> report_key r \<le> report_key y"
    by (fastforce simp: keep_latest_def in_update_where split: option.split dest: find_Some_in)
  assume x: "x \<in> set acc"
  show "\<exists>y\<in>set (keep_latest acc r). report_id y = report_id x \<and> report_key x \<le> report_key y"
  proof (cases "find (\<lambda>x. report_id x = report_id r) acc")
    case None
    with x show ?thesis by (auto simp: keep_latest_def)
  next
    case (Some z)
    then have z: "z \<in> set acc" "report_id z = report_id r" by (auto dest: find_Some_in)
    show ?thesis
    proof (cases "report_key z < report_key r \<and> report_id x = report_id r")
      case True
      then have "x = z" using assms x z by (metis distinct_map inj_onD)
      moreover have "r \<in> set (keep_latest acc r)" using Some True x by (auto simp: keep_latest_def in_update_where)
      ultimately show ?thesis using True by (metis less_imp_le)
    next
      case False
      with Some x have "x \<in> set (keep_latest acc r)" by (auto simp: keep_latest_def in_update_where)
      then show ?thesis by blast
    qed
  qed
qed

text \<open>What the dictionary holds at the end, for reports with different keys.\<close>

definition latest_reports :: "comparable_report list \<Rightarrow> comparable_report set" where
  "latest_reports rs = {r \<in> set rs. \<forall>s\<in>set rs. report_id s = report_id r \<longrightarrow> report_key s \<le> report_key r}"

lemma fold_keep_latest:
  "distinct (map report_id (foldl keep_latest [] rs)) \<and> set (foldl keep_latest [] rs) \<subseteq> set rs
     \<and> report_id ` set (foldl keep_latest [] rs) = report_id ` set rs
     \<and> (\<forall>r\<in>set rs. \<exists>x\<in>set (foldl keep_latest [] rs). report_id x = report_id r \<and> report_key r \<le> report_key x)"
proof (induction rs rule: rev_induct)
  case (snoc r rs)
  let ?f = "foldl keep_latest [] rs"
  from snoc have d: "distinct (map report_id ?f)" and sub: "set ?f \<subseteq> set rs" and ids: "report_id ` set ?f = report_id ` set rs"
    and top: "\<And>s. s \<in> set rs \<Longrightarrow> \<exists>x\<in>set ?f. report_id x = report_id s \<and> report_key s \<le> report_key x" by blast+
  have "\<exists>y\<in>set (keep_latest ?f r). report_id y = report_id s \<and> report_key s \<le> report_key y" if "s \<in> set rs" for s
    using top [OF that] keep_latest_greatest(2) [OF d, of _ r] by (metis order_trans)
  then show ?case
    using keep_latest_ids [OF d, of r] keep_latest_members [of ?f r] keep_latest_greatest(1) [OF d, of r] sub ids by auto
qed simp

lemma fold_keep_latest_set:
  assumes "inj_on report_key (set rs)"
  shows "set (foldl keep_latest [] rs) = latest_reports rs"
proof
  let ?f = "foldl keep_latest [] rs"
  note f = fold_keep_latest [of rs]
  show "set ?f \<subseteq> latest_reports rs"
  proof
    fix x assume x: "x \<in> set ?f"
    have "report_key s \<le> report_key x" if "s \<in> set rs" "report_id s = report_id x" for s
    proof -
      from f that obtain y where "y \<in> set ?f" "report_id y = report_id s" "report_key s \<le> report_key y" by blast
      with f x that(2) show ?thesis by (metis distinct_map inj_onD)
    qed
    with f x show "x \<in> latest_reports rs" by (auto simp: latest_reports_def)
  qed
  show "latest_reports rs \<subseteq> set ?f"
  proof
    fix r assume r: "r \<in> latest_reports rs"
    with f obtain x where x: "x \<in> set ?f" "report_id x = report_id r" "report_key r \<le> report_key x"
      by (auto simp: latest_reports_def)
    with f r have "report_key x = report_key r" by (fastforce simp: latest_reports_def)
    with assms f r x(1) have "x = r" by (auto simp: latest_reports_def dest: inj_onD)
    with x(1) show "r \<in> set ?f" by simp
  qed
qed

lemma sorted_by_key_unique:
  assumes "inj_on k (set xs)" and "set xs = set ys" and "distinct xs" "distinct ys" "sorted (map k xs)" "sorted (map k ys)"
  shows "xs = ys"
proof -
  have "map k xs = map k ys"
    using assms by (intro sorted_distinct_set_unique) (auto simp: distinct_map)
  with assms(1,2) show ?thesis by (metis map_inj_on sup.idem)
qed

lemma key_by_id: "report_key x = report_key y \<Longrightarrow> report_id x = report_id y"
  by (simp add: report_key_def report_id_def)

lemma ordered_reports_laws:
  "distinct (map report_id (ordered_reports rs))" "report_id ` set (ordered_reports rs) = report_id ` set rs"
  "sorted_wrt (\<lambda>x y. report_key x < report_key y) (ordered_reports rs)"
proof -
  let ?o = "ordered_reports rs"
  have d: "distinct (map report_id ?o)"
    using fold_keep_latest [of rs] by (simp add: ordered_reports_def distinct_map)
  then show "distinct (map report_id ?o)" "report_id ` set ?o = report_id ` set rs"
    using fold_keep_latest [of rs] by (simp_all add: ordered_reports_def)
  have "distinct (map report_key ?o)"
    using d by (auto simp: distinct_map inj_on_def dest: key_by_id)
  then have "sorted_wrt (<) (map report_key ?o)"
    by (simp add: strict_sorted_iff ordered_reports_def)
  then show "sorted_wrt (\<lambda>x y. report_key x < report_key y) ?o" by (simp add: sorted_wrt_map)
qed

text \<open>
  C31: The comparison does not depend on the order in which the reports come: for reports
  with different keys, any permutation is split into the same groups.
\<close>

theorem split_order_independent:
  assumes "mset rs = mset rs'" and "inj_on report_key (set rs)"
  shows "deterministic_split rs' = deterministic_split rs"
proof -
  have s: "set rs' = set rs" using assms(1) by (metis set_mset_mset)
  then have "latest_reports rs' = latest_reports rs" by (simp add: latest_reports_def)
  then have "set (ordered_reports rs') = set (ordered_reports rs)"
    using fold_keep_latest_set assms(2) s by (simp add: ordered_reports_def)
  moreover have "inj_on report_key (set (ordered_reports rs'))"
    using assms(2) fold_keep_latest [of rs'] s by (auto simp: ordered_reports_def intro: inj_on_subset)
  moreover have "distinct (ordered_reports xs)" "sorted (map report_key (ordered_reports xs))" for xs
    using ordered_reports_laws(1) [of xs] by (simp_all add: distinct_map ordered_reports_def)
  ultimately have "ordered_reports rs' = ordered_reports rs" by (intro sorted_by_key_unique) auto
  then show ?thesis by (simp add: deterministic_split_def)
qed

lemma window_parts:
  assumes "n \<le> length w div 2"
  shows "distinct (map f w) \<Longrightarrow> distinct (map f (take n w @ drop (length w - n) w))"
    and "sorted_wrt R w \<Longrightarrow> x \<in> set (take n w) \<Longrightarrow> y \<in> set (drop (length w - n) w) \<Longrightarrow> R x y"
proof -
  have split: "w = take n w @ take (length w - 2 * n) (drop n w) @ drop (length w - n) w"
  proof -
    have d: "drop (length w - n) w = drop (length w - 2 * n) (drop n w)" using assms by simp
    show ?thesis unfolding d append_take_drop_id ..
  qed
  show "distinct (map f w) \<Longrightarrow> distinct (map f (take n w @ drop (length w - n) w))"
    by (subst (asm) split) auto
  show "sorted_wrt R w \<Longrightarrow> x \<in> set (take n w) \<Longrightarrow> y \<in> set (drop (length w - n) w) \<Longrightarrow> R x y"
    by (subst (asm) split) (auto simp: sorted_wrt_append)
qed

lemma odd_window:
  assumes "n = length w div 2"
  shows "w = take n w @ (if odd (length w) then [w ! n] else []) @ drop (length w - n) w"
proof (cases "odd (length w)")
  case True
  then have n: "n < length w" "length w - n = Suc n" using assms by presburger+
  then show ?thesis using True by (simp add: id_take_nth_drop [symmetric])
next
  case False
  then have "length w - n = n" using assms by presburger
  with False show ?thesis by simp
qed

text \<open>
  From four different analyses on there are two groups of the same size, at most four and
  at least two reports each, every report of the first before every one of the second; no
  analysis is in two places, and each is in a group or listed as omitted.
\<close>

theorem split_groups:
  "let sp = deterministic_split rs; n = card (report_id ` set rs) in
     length (sp_earlier sp) = (if n < 4 then 0 else min n 8 div 2) \<and> length (sp_recent sp) = length (sp_earlier sp)
     \<and> list_all (\<lambda>e. list_all (\<lambda>r. report_key e < report_key r) (sp_recent sp)) (sp_earlier sp)
     \<and> distinct (map report_id (sp_earlier sp @ sp_recent sp) @ sp_omitted sp)
     \<and> (if n < 4 then set (map report_id (sp_candidates sp))
         else set (map report_id (sp_earlier sp @ sp_recent sp) @ sp_omitted sp)) = report_id ` set rs"
proof -
  let ?o = "ordered_reports rs" and ?n = "card (report_id ` set rs)"
  let ?rest = "length ?o - 8"
  let ?w = "drop ?rest ?o"
  note laws = ordered_reports_laws [of rs]
  have n: "length ?o = ?n" using laws(1,2) by (metis distinct_card length_map set_map)
  have w: "length ?w = min ?n 8" using n by simp
  have ids: "report_id ` set ?o = report_id ` set (take ?rest ?o) \<union> report_id ` set ?w"
    by (metis append_take_drop_id image_Un set_append)
  have dist: "distinct (map report_id (take ?rest ?o) @ map report_id ?w)"
    using laws(1) by (metis append_take_drop_id map_append)
  have sorted: "sorted_wrt (\<lambda>x y. report_key x < report_key y) ?w"
    using laws(3) by (metis append_take_drop_id sorted_wrt_append)
  have sp: "deterministic_split rs = split_window ?w (map report_id (take ?rest ?o))"
    by (simp add: deterministic_split_def Let_def maximum_reports_def)
  show ?thesis
  proof (cases "?n < 4")
    case True
    then have "?rest = 0" "length ?w < 4" using n by simp_all
    with True laws(2) show ?thesis by (simp add: sp split_window_def trend_minimum_def Let_def)
  next
    case False
    let ?k = "length ?w div 2"
    have four: "\<not> length ?w < 4" using False w by simp
    note parts = window_parts [of ?k ?w]
    have whole: "map report_id ?w = map report_id (take ?k ?w) @ (if odd (length ?w) then [report_id (?w ! ?k)] else [])
        @ map report_id (drop (length ?w - ?k) ?w)"
      by (subst odd_window [OF refl, of ?w]) (simp only: map_append if_distrib [of "map report_id"] list.map)
    have out: "split_window ?w (map report_id (take ?rest ?o)) = \<lparr>sp_candidates = ?w, sp_earlier = take ?k ?w,
        sp_recent = drop (length ?w - ?k) ?w, sp_omitted = map report_id (take ?rest ?o)
          @ (if odd (length ?w) then [report_id (?w ! ?k)] else [])\<rparr>"
      using four by (simp only: split_window_def trend_minimum_def Let_def if_False)
    define early where "early = map report_id (take ?k ?w)"
    define late where "late = map report_id (drop (length ?w - ?k) ?w)"
    define middle where "middle = (if odd (length ?w) then [report_id (?w ! ?k)] else [])"
    define old where "old = map report_id (take ?rest ?o)"
    have window: "map report_id ?w = early @ middle @ late" using whole by (simp only: early_def middle_def late_def)
    have "distinct (old @ early @ middle @ late)" using dist unfolding window old_def .
    then have "distinct ((early @ late) @ old @ middle)" by auto
    moreover have "set ((early @ late) @ old @ middle) = report_id ` set rs"
    proof -
      have "report_id ` set ?w = set (early @ middle @ late)" unfolding window [symmetric] by (rule set_map [symmetric])
      moreover have "report_id ` set (take ?rest ?o) = set old" unfolding old_def by (rule set_map [symmetric])
      ultimately show ?thesis using ids laws(2) by auto
    qed
    moreover have "list_all (\<lambda>e. list_all (\<lambda>r. report_key e < report_key r) (drop (length ?w - ?k) ?w)) (take ?k ?w)"
      using parts(2) [OF _ sorted] by (simp add: list_all_iff)
    moreover have "length (take ?k ?w) = min ?n 8 div 2" "length (drop (length ?w - ?k) ?w) = min ?n 8 div 2"
    proof -
      have k: "?k \<le> length ?w" by (rule div_le_dividend)
      then have "length (drop (length ?w - ?k) ?w) = ?k" unfolding length_drop by (rule diff_diff_cancel)
      then show "length (drop (length ?w - ?k) ?w) = min ?n 8 div 2" using w by (simp only:)
      show "length (take ?k ?w) = min ?n 8 div 2" using w k by (simp only: length_take min.absorb2)
    qed
    ultimately show ?thesis using False
      unfolding sp out Let_def early_def late_def old_def middle_def
      by (simp only: comparison_split.simps if_False simp_thms map_append append_assoc)
  qed
qed

section \<open>What is aggregated\<close>

lemma sum_list_bounds:
  fixes f g :: "'a \<Rightarrow> rat"
  assumes "\<And>x. x \<in> set xs \<Longrightarrow> c * g x \<le> f x"
  shows "c * sum_list (map g xs) \<le> sum_list (map f xs)"
  using assms by (induction xs) (auto simp: distrib_left intro: add_mono)

lemma sum_list_bounds_above:
  fixes f g :: "'a \<Rightarrow> rat"
  assumes "\<And>x. x \<in> set xs \<Longrightarrow> f x \<le> c * g x"
  shows "sum_list (map f xs) \<le> c * sum_list (map g xs)"
  using assms by (induction xs) (auto simp: distrib_left intro: add_mono)

lemma sum_list_pos:
  fixes g :: "'a \<Rightarrow> rat"
  shows "xs \<noteq> [] \<Longrightarrow> (\<And>x. x \<in> set xs \<Longrightarrow> g x > 0) \<Longrightarrow> sum_list (map g xs) > 0"
proof (induction xs)
  case (Cons x xs)
  then show ?case by (cases "xs = []") (auto intro: add_pos_pos)
qed simp

lemma usable_tracked: "r \<in> set (usable_reports rs) \<Longrightarrow> tracked_of r > 0"
  by (simp add: usable_reports_def)

text \<open>
  The movement pace of a group is the mean of the paces of its reports weighted by
  their tracked time, so it lies between the slowest and the fastest; and where the zones
  of every report make up its tracked time, the three zone shares of the group make up
  100 percent.
\<close>

theorem aggregates_weighted:
  assumes "usable_reports rs \<noteq> []"
    and "list_all (\<lambda>r. low \<le> distance_of r / tracked_of r \<and> distance_of r / tracked_of r \<le> high) (usable_reports rs)"
    and "list_all (\<lambda>r. zone_seconds Kitchen r + zone_seconds Transition r + zone_seconds Baseline r = tracked_of r) (usable_reports rs)"
  shows "\<exists>v k t b. ag_value (aggregate_pace rs) = Some v \<and> low \<le> v \<and> v \<le> high
      \<and> v * ag_movement (aggregate_pace rs) = sum_list (map distance_of (usable_reports rs))
      \<and> ag_value (aggregate_zone Kitchen rs) = Some k \<and> ag_value (aggregate_zone Transition rs) = Some t
      \<and> ag_value (aggregate_zone Baseline rs) = Some b \<and> k + t + b = 100"
proof -
  let ?u = "usable_reports rs"
  let ?d = "sum_list (map distance_of ?u)" and ?t = "sum_list (map tracked_of ?u)"
  let ?z = "\<lambda>z. sum_list (map (zone_seconds z) ?u)"
  have pos: "?t > 0" using assms(1) usable_tracked by (rule sum_list_pos)
  have "low * ?t \<le> ?d"
    using assms(2) usable_tracked by (intro sum_list_bounds) (auto simp: list_all_iff pos_le_divide_eq)
  moreover have "?d \<le> high * ?t"
    using assms(2) usable_tracked by (intro sum_list_bounds_above) (auto simp: list_all_iff pos_divide_le_eq)
  ultimately have v: "low \<le> ?d / ?t" "?d / ?t \<le> high" using pos by (simp_all add: pos_le_divide_eq pos_divide_le_eq)
  have "?z Kitchen + ?z Transition + ?z Baseline = sum_list (map (\<lambda>r. zone_seconds Kitchen r + zone_seconds Transition r + zone_seconds Baseline r) ?u)"
    by (simp add: sum_list_addf)
  also have "\<dots> = ?t" using assms(3) by (intro arg_cong [where f = sum_list] map_cong) (auto simp: list_all_iff)
  finally have "?z Kitchen / ?t * 100 + ?z Transition / ?t * 100 + ?z Baseline / ?t * 100 = 100"
    using pos by (simp add: field_simps)
  then show ?thesis
    using assms(1) v pos by (simp add: aggregate_pace_def aggregate_zone_def aggregate_of_def Let_def)
qed

section \<open>What is claimed\<close>

lemma comparability_status: "pd_status (evaluate_comparability i a q) \<noteq> Eligible"
  by (auto simp: evaluate_comparability_def decision_of_def Let_def split: contribution_status.split option.split)

lemma comparison_reports_of:
  "r \<in> set (comparison_reports rp included) \<Longrightarrow> cp_item r \<in> set included \<and> pd_status (cp_decision r) = EligProvisional"
  using comparability_status
  by (auto simp: comparison_reports_def comparability_of_def split: option.splits if_splits)

lemma unique_included_of:
  "i \<in> set (unique_included items) \<Longrightarrow> i \<in> set items \<and> co_status (hi_contribution i) = Included"
proof -
  have "set (foldl (\<lambda>acc i. if list_ex (\<lambda>x. hi_id x = hi_id i) acc then acc else acc @ [i]) acc xs) \<subseteq> set acc \<union> set xs" for acc xs
    by (induction xs rule: rev_induct) (auto split: if_splits)
  from this [of "[]"] show "i \<in> set (unique_included items) \<Longrightarrow> i \<in> set items \<and> co_status (hi_contribution i) = Included"
    unfolding unique_included_def by fastforce
qed

lemma trend_metrics_not_Nil [simp]: "trend_metrics e r t \<noteq> []"
  by (simp add: trend_metrics_def)

lemma trend_eligible:
  assumes "list_all (\<lambda>r. pd_status (cp_decision r) = EligProvisional) rs"
  shows "pd_status (evaluate_trend q rs sp) \<noteq> Eligible"
    and "length rs \<noteq> 3 \<Longrightarrow> pd_status (evaluate_trend q rs sp) = EligProvisional \<Longrightarrow>
      4 \<le> length rs \<and> compatible_versions rs \<and> 2 \<le> length (sp_earlier sp) \<and> 2 \<le> length (sp_recent sp)"
  using assms
  by (auto simp: evaluate_trend_def decision_of_def Let_def baseline_minimum_def minimum_per_group_def list_all_iff list_ex_iff
      neq_Nil_conv split: if_splits)

lemma split_members:
  "set (sp_earlier (deterministic_split rs) @ sp_recent (deterministic_split rs) @ sp_candidates (deterministic_split rs)) \<subseteq> set rs"
proof -
  have "set (ordered_reports rs) \<subseteq> set rs" using fold_keep_latest [of rs] by (simp add: ordered_reports_def)
  then show ?thesis
    by (auto simp: deterministic_split_def split_window_def Let_def dest!: in_set_dropD in_set_takeD)
qed

lemma length_ordered: "length (ordered_reports rs) \<le> length rs"
proof -
  have "length (ordered_reports rs) = card (report_id ` set rs)"
    using ordered_reports_laws(1,2) [of rs] by (metis distinct_card length_map set_map)
  also have "\<dots> \<le> length rs" by (metis card_length length_map set_map)
  finally show ?thesis .
qed

lemma short_split: "length rs < 4 \<Longrightarrow> sp_earlier (deterministic_split rs) = []"
  using length_ordered [of rs] by (auto simp: deterministic_split_def split_window_def Let_def trend_minimum_def)

text \<open>
  C26: Every play history is provisional. It shows changes over time only between two groups
  of at least two reports each, out of at least four comparable reports of the same source
  versions, and whatever it counts is the report of an analysis that contributes.
\<close>

theorem progress_gated:
  "let g = ph_progress (play_history_of rp recent items) in
     pg_provisional g
     \<and> (pg_metrics g = [] \<or>
          4 \<le> pg_comparable g \<and> 2 \<le> pg_earlier_count g \<and> 2 \<le> pg_recent_count g
          \<and> compatible_versions (comparison_reports rp (unique_included items)) \<and> pg_status g = ComparisonAvailable)
     \<and> set (pg_ids g) \<subseteq> hi_id ` {i \<in> set items. co_status (hi_contribution i) = Included}"
proof -
  let ?inc = "unique_included items"
  let ?rs = "comparison_reports rp ?inc"
  let ?sp = "deterministic_split ?rs"
  let ?trend = "evaluate_trend (length ?inc) ?rs ?sp"
  have prov: "list_all (\<lambda>r. pd_status (cp_decision r) = EligProvisional) ?rs"
    using comparison_reports_of by (auto simp: list_all_iff)
  have "report_id r \<in> hi_id ` {i \<in> set items. co_status (hi_contribution i) = Included}" if "r \<in> set ?rs" for r
    using comparison_reports_of [OF that] unique_included_of by (auto simp: report_id_def)
  then have ids: "report_id ` (set (sp_earlier ?sp) \<union> set (sp_recent ?sp) \<union> set (sp_candidates ?sp))
      \<subseteq> hi_id ` {i \<in> set items. co_status (hi_contribution i) = Included}"
    using split_members [of ?rs] by auto
  have len: "length ?rs \<noteq> 3" "length ?rs > 3" if "sp_earlier ?sp \<noteq> []"
    using that short_split [of ?rs] by (cases "length ?rs < 4"; simp)+
  note trend = trend_eligible [OF prov, of "length ?inc" ?sp]
  have inc: "length ?inc > 0" if "length ?rs > 3"
    using that by (auto simp: comparison_reports_def)
  have status: "pd_status ?trend = EligProvisional \<or> baseline_status_of (length ?inc) (length ?rs) ?trend \<noteq> ComparisonAvailable"
    using trend(1) by (auto simp: baseline_status_of_def evaluate_trend_def decision_of_def Let_def)
  have metrics: "metrics_of ?sp ?trend = [] \<or> 4 \<le> length ?rs \<and> compatible_versions ?rs \<and> 2 \<le> length (sp_earlier ?sp)
      \<and> 2 \<le> length (sp_recent ?sp) \<and> baseline_status_of (length ?inc) (length ?rs) ?trend = ComparisonAvailable"
    using trend len inc by (auto simp: metrics_of_def baseline_status_of_def baseline_minimum_def split: if_splits)
  show ?thesis
    using ids status metrics unfolding play_history_of_def progress_of_def Let_def by (auto split: if_splits)
qed

section \<open>The pages of the analysis history\<close>

lemma map_all_append:
  "map_all f (xs @ ys) = Inr zs \<longleftrightarrow> (\<exists>us vs. map_all f xs = Inr us \<and> map_all f ys = Inr vs \<and> zs = us @ vs)"
proof (induction xs arbitrary: zs)
  case (Cons x xs)
  show ?case by (simp add: bindE_Inr_iff Cons.IH) (metis append_Cons)
qed simp

lemma map_all_keys:
  "map_all f xs = Inr ys \<Longrightarrow> (\<And>x y. x \<in> set xs \<Longrightarrow> f x = Inr y \<Longrightarrow> k y = h x) \<Longrightarrow> map k ys = map h xs"
  by (induction xs arbitrary: ys) (auto simp: bindE_Inr_iff)

lemma map_all_members: "map_all f xs = Inr ys \<Longrightarrow> y \<in> set ys \<Longrightarrow> \<exists>x\<in>set xs. f x = Inr y"
  by (induction xs arbitrary: ys) (auto simp: bindE_Inr_iff)

lemma sort_latest_sorted: "sorted_wrt (\<lambda>x y. k y \<le> k x) (sort_latest k xs)"
proof -
  have "sorted_wrt (\<lambda>x y. k x \<le> k y) (sort_key k (rev xs))"
    using sorted_sort_key [of k "rev xs"] by (simp add: sorted_map)
  then show ?thesis by (simp add: sort_latest_def sorted_wrt_rev)
qed

lemma strictly_latest:
  fixes k :: "'a \<Rightarrow> 'k::linorder"
  shows "sorted_wrt (\<lambda>x y. k y \<le> k x) xs \<Longrightarrow> distinct (map k xs) \<Longrightarrow> sorted_wrt (\<lambda>x y. k y < k x) xs"
  by (induction xs) (auto simp: less_le image_iff)

lemma set_sort_latest [simp]: "set (sort_latest k xs) = set xs"
  by (simp add: sort_latest_def)

lemma distinct_sort_latest [simp]: "distinct (map f (sort_latest k xs)) = distinct (map f xs)"
  by (simp add: sort_latest_def distinct_map rev_map [symmetric])

lemma project_item:
  assumes "project_analysis rp a = Inr i"
  shows "\<exists>j. hr_job rp a = Inr j \<and> hi_id i = job_id j \<and> hi_created_at i = job_created_at j"
  using assms by (auto simp: project_analysis_def item_of_def current_job_def bindE_Inr_iff Let_def split: if_splits)

text \<open>
  Pages fit together: a page followed by the next one is the page of both sizes, with
  the same counts, and the items of a page go strictly back in time, so that no analysis is
  listed twice.
\<close>

theorem history_pages:
  assumes "\<And>a j. hr_job rp a = Inr j \<Longrightarrow> job_id j = a"
    and "analysis_history rp (n + m) start status = Inr p"
  shows "(\<exists>p1 p2. analysis_history rp n start status = Inr p1 \<and> analysis_history rp m (start + n) status = Inr p2
       \<and> hp_items p = hp_items p1 @ hp_items p2 \<and> hp_total p1 = hp_total p \<and> hp_total p2 = hp_total p
       \<and> hp_completed p1 = hp_completed p \<and> hp_completed p2 = hp_completed p)
    \<and> sorted_wrt (\<lambda>x y. (hi_created_at y, hi_id y) < (hi_created_at x, hi_id x)) (hp_items p)
    \<and> length (hp_items p) = min (n + m) (hp_total p - start)"
proof -
  let ?key = "\<lambda>j. (job_created_at j, job_id j)"
  from assms(2) obtain jobs where jobs: "map_all (hr_job rp) (unique_list (hr_ids rp)) = Inr jobs"
    by (auto simp: analysis_history_def bindE_Inr_iff)
  define js where "js = sort_latest ?key jobs"
  define chosen where "chosen = (case status of None \<Rightarrow> js | Some s \<Rightarrow> filter (\<lambda>j. status_of_job j = s) js)"
  let ?page = "\<lambda>l st. map_all (\<lambda>j. project_analysis rp (job_id j)) (take l (drop st chosen))"
  have page: "analysis_history rp l st status = bindE (?page l st) (\<lambda>items. Inr \<lparr>hp_items = items, hp_total = length chosen,
      hp_limit = l, hp_offset = st,
      hp_completed = length (filter (\<lambda>j. status_of_job j \<in> {HistReady, HistLimited, HistUnsuitable}) js)\<rparr>)" for l st
    unfolding analysis_history_def jobs chosen_def js_def Let_def by (simp add: bindE_def)
  from assms(2) obtain items where items: "?page (n + m) start = Inr items" and p: "hp_items p = items" "hp_total p = length chosen"
    "hp_completed p = length (filter (\<lambda>j. status_of_job j \<in> {HistReady, HistLimited, HistUnsuitable}) js)"
    by (auto simp: page bindE_Inr_iff)
  have "take (n + m) (drop start chosen) = take n (drop start chosen) @ take m (drop (start + n) chosen)"
    unfolding take_add by (simp add: add.commute)
  with items obtain us vs where "?page n start = Inr us" "?page m (start + n) = Inr vs" "items = us @ vs"
    by (auto simp: map_all_append)
  then have parts: "\<exists>p1 p2. analysis_history rp n start status = Inr p1 \<and> analysis_history rp m (start + n) status = Inr p2
       \<and> hp_items p = hp_items p1 @ hp_items p2 \<and> hp_total p1 = hp_total p \<and> hp_total p2 = hp_total p
       \<and> hp_completed p1 = hp_completed p \<and> hp_completed p2 = hp_completed p"
    by (simp add: page p bindE_def)
  have ids: "map job_id jobs = unique_list (hr_ids rp)"
    using map_all_keys [OF jobs, of job_id id] assms(1) by simp
  have loaded: "hr_job rp (job_id j) = Inr j" if "j \<in> set jobs" for j
    using map_all_members [OF jobs that] assms(1) by blast
  have "distinct (map job_id js)" using ids by (simp add: js_def)
  then have "distinct (map ?key js)" by (auto simp: distinct_map inj_on_def)
  then have keys: "sorted_wrt (\<lambda>x y. ?key y < ?key x) js"
    using sort_latest_sorted [of ?key jobs] unfolding js_def [symmetric] by (intro strictly_latest)
  then have sorted: "sorted_wrt (\<lambda>x y. ?key y < ?key x) (take (n + m) (drop start chosen))"
    unfolding chosen_def by (auto split: option.split intro!: sorted_wrt_take sorted_wrt_drop sorted_wrt_filter)
  have "set chosen \<subseteq> set jobs" by (auto simp: chosen_def js_def split: option.splits)
  then have loaded_here: "hr_job rp (job_id j) = Inr j" if "j \<in> set (take (n + m) (drop start chosen))" for j
    using that loaded by (meson in_set_dropD in_set_takeD subsetD)
  have item: "map (\<lambda>i. (hi_created_at i, hi_id i)) items = map ?key (take (n + m) (drop start chosen))"
    by (rule map_all_keys [OF items]) (auto dest!: project_item loaded_here)
  then have "sorted_wrt (<) (rev (map (\<lambda>i. (hi_created_at i, hi_id i)) items))"
    using sorted by (simp only: sorted_wrt_rev sorted_wrt_map)
  then have "sorted_wrt (\<lambda>x y. (hi_created_at y, hi_id y) < (hi_created_at x, hi_id x)) (hp_items p)"
    by (simp only: p sorted_wrt_rev sorted_wrt_map)
  moreover have "length (hp_items p) = min (n + m) (hp_total p - start)"
    using arg_cong [OF item, of length] by (simp add: p min.commute)
  ultimately show ?thesis using parts by blast
qed

section \<open>Concrete reports\<close>

definition demo_job :: "string \<Rightarrow> time \<Rightarrow> job" where
  "demo_job a t = \<lparr>job_id = a, job_sport = Pickleball, job_status = JobCompleted, job_source = Some ''uploads/my_match.mp4'',
     job_created_at = t, job_updated_at = t, job_calibrated = True, job_calibration_id = Some ''c'', job_calibration_checksum = Some ''d'',
     job_review = Some \<lparr>rv_verified = True, rv_calibration_id = ''c'', rv_checksum = ''d''\<rparr>, job_analytics = True,
     job_preflight = None, job_readiness = Some (assess_analysis_readiness quality_policy 7 demo_readiness), job_files = []\<rparr>"

definition demo_analytics :: "rat \<Rightarrow> analytics_report" where
  "demo_analytics distance = \<lparr>ar_observed = 36, ar_distance = distance, ar_kitchen = 10, ar_transition = 6, ar_baseline = 20,
     ar_tracked = 36, ar_created_at = 9\<rparr>"

definition demo_history :: history_repository where
  "demo_history = \<lparr>hr_ids = [''m1'', ''m2'', ''m3''], hr_job = (\<lambda>a. Inr (demo_job a (of_nat (length a) + (if a = ''m2'' then 9 else 5)))),
     hr_current = (\<lambda>_. True), hr_analytics = (\<lambda>a. Some (demo_analytics (if a = ''m2'' then 72 else 36))), hr_match_iq = (\<lambda>_. None)\<rparr>"

definition demo_report :: "string \<Rightarrow> time \<Rightarrow> rat \<Rightarrow> comparable_report" where
  "demo_report a t distance =
     (let j = demo_job a t; i = item_of j (Some (demo_analytics distance)) None (evaluate_contribution j (Some (demo_analytics distance)) None 9) in
      \<lparr>cp_item = i, cp_analytics = demo_analytics distance, cp_match_iq = None,
       cp_decision = evaluate_comparability i (Some (demo_analytics distance)) None\<rparr>)"

theorem readiness_supports_history_witness:
  "co_status (evaluate_contribution (demo_job ''m1'' 5) (Some (demo_analytics 36)) None 9) = Included"
proof -
  have "qa_status (assess_analysis_readiness quality_policy 7 demo_readiness) \<noteq> Unsuitable" by code_simp
  then show ?thesis
    using readiness_supports_history [of "demo_job ''m1'' 5" 7 demo_readiness "demo_analytics 36" None 9]
    by (simp add: demo_job_def demo_analytics_def calibration_verified_def)
qed

theorem split_order_independent_witness:
  "deterministic_split [demo_report ''b'' 2 36, demo_report ''a'' 1 72] = deterministic_split [demo_report ''a'' 1 72, demo_report ''b'' 2 36]"
  by (rule split_order_independent) (simp_all add: demo_report_def Let_def report_key_def item_of_def demo_job_def)

theorem aggregates_weighted_witness:
  "\<exists>v. ag_value (aggregate_pace [demo_report ''a'' 1 36, demo_report ''b'' 2 72]) = Some v \<and> 1 \<le> v \<and> v \<le> (2 :: rat)"
proof -
  let ?rs = "[demo_report ''a'' 1 36, demo_report ''b'' 2 72]"
  have u: "usable_reports ?rs = ?rs"
    by (simp add: usable_reports_def tracked_of_def demo_report_def Let_def demo_analytics_def)
  have "list_all (\<lambda>r. 1 \<le> distance_of r / tracked_of r \<and> distance_of r / tracked_of r \<le> 2) (usable_reports ?rs)"
    unfolding u by (simp add: distance_of_def tracked_of_def demo_report_def Let_def demo_analytics_def)
  moreover have "list_all (\<lambda>r. zone_seconds Kitchen r + zone_seconds Transition r + zone_seconds Baseline r = tracked_of r) (usable_reports ?rs)"
    unfolding u by (simp add: zone_seconds_def tracked_of_def demo_report_def Let_def demo_analytics_def)
  moreover have "usable_reports ?rs \<noteq> []" unfolding u by simp
  ultimately show ?thesis using aggregates_weighted by blast
qed

theorem history_pages_witness:
  "\<exists>p. analysis_history demo_history 2 0 None = Inr p \<and> length (hp_items p) = 2
     \<and> sorted_wrt (\<lambda>x y. (hi_created_at y, hi_id y) < (hi_created_at x, hi_id x)) (hp_items p)"
proof -
  have "case analysis_history demo_history 2 0 None of Inl _ \<Rightarrow> False | Inr p \<Rightarrow> hp_total p = 3" by code_simp
  then obtain p where p: "analysis_history demo_history (1 + 1) 0 None = Inr p" "hp_total p = 3"
    by (auto split: sum.splits simp: numeral_2_eq_2)
  have "job_id j = a" if "hr_job demo_history a = Inr j" for a j
    using that by (auto simp: demo_history_def demo_job_def)
  from history_pages [OF this p(1)] p show ?thesis by (auto simp: numeral_2_eq_2)
qed

end
