(* ===== verification/Candidates.thy ===== *)
theory Candidates
  imports Quality "HOL-Library.Product_Lexorder" "HOL-Library.List_Lexorder" "HOL-Library.Char_ord"
begin

text \<open>
  The generation of player candidates (\<^verbatim>\<open>app/services/candidates/service.py\<close>,
  \<^verbatim>\<open>app/services/tracking/continuity.py\<close> and \<^verbatim>\<open>app/schemas/player_tracking.py\<close>): the raw
  observations of a tracker are cut into fragments, one per track, fragments that can be
  one person are joined, and each group becomes a candidate with its measurements, its
  quality and the reasons that keep it from being selected. Floats are rationals; distances
  are real numbers, since \<open>math.hypot\<close> takes a square root. Images and the video
  are what \<open>media\<close> answers.
\<close>

section \<open>Observations\<close>

record bounding_box =
  bx_x1 :: rat
  bx_y1 :: rat
  bx_x2 :: rat
  bx_y2 :: rat

definition box_width :: "bounding_box \<Rightarrow> rat" where "box_width b = bx_x2 b - bx_x1 b"
definition box_height :: "bounding_box \<Rightarrow> rat" where "box_height b = bx_y2 b - bx_y1 b"
definition box_area :: "bounding_box \<Rightarrow> rat" where "box_area b = box_width b * box_height b"

record observation =
  ob_frame :: int
  ob_time :: rat
  ob_track :: int
  ob_box :: bounding_box
  ob_confidence :: rat
  ob_position :: "rat \<times> rat"
  ob_inside :: bool
  ob_excluded :: bool
  ob_interpolated :: bool

definition observed_position :: "observation \<Rightarrow> bool" where
  "observed_position b \<longleftrightarrow> ob_inside b \<and> \<not> ob_excluded b \<and> \<not> ob_interpolated b"

definition max_observed_gap :: rat where "max_observed_gap = 1"

definition supports_interval :: "observation \<Rightarrow> observation \<Rightarrow> bool" where
  "supports_interval a b \<longleftrightarrow> ob_track a = ob_track b \<and> ob_frame b > ob_frame a
     \<and> 0 < ob_time b - ob_time a \<and> ob_time b - ob_time a \<le> max_observed_gap
     \<and> observed_position a \<and> observed_position b"

text \<open>\<open>zip(xs, xs[1:])\<close>.\<close>

definition adjacent :: "'a list \<Rightarrow> ('a \<times> 'a) list" where
  "adjacent xs = zip xs (tl xs)"

text \<open>
  \<open>math.sqrt\<close> and \<open>math.hypot\<close>. Along an axis a distance is an absolute value, which
  is how it evaluates.
\<close>

definition square_root :: "rat \<Rightarrow> real" where
  [code del]: "square_root x = sqrt (of_rat x)"

definition hypot :: "rat \<Rightarrow> rat \<Rightarrow> real" where
  [code del]: "hypot x y = square_root (x * x + y * y)"

lemma square_root_square: "square_root (x * x) = of_rat \<bar>x\<bar>"
proof (cases "x < 0")
  case True
  then show ?thesis by (simp add: square_root_def of_rat_mult of_rat_minus)
next
  case False
  then show ?thesis by (simp add: square_root_def of_rat_mult)
qed

lemma hypot_code [code]:
  "hypot x y = (if y = 0 then of_rat \<bar>x\<bar> else if x = 0 then of_rat \<bar>y\<bar> else square_root (x * x + y * y))"
  by (simp add: hypot_def square_root_square)

definition distance :: "rat \<times> rat \<Rightarrow> rat \<times> rat \<Rightarrow> real" where
  "distance a b = hypot (fst b - fst a) (snd b - snd a)"

section \<open>Thresholds\<close>

record association_thresholds =
  at_max_gap :: rat
  at_short_gap :: rat
  at_max_distance :: real
  at_max_speed :: real
  at_max_ratio :: rat
  at_min_similarity :: rat
  at_min_reentry_similarity :: rat
  at_min_reentry_duration :: rat
  at_overlap :: rat
  at_net_uncertainty :: rat
  at_strong_duration :: rat
  at_usable_duration :: rat
  at_strong_ratio :: rat
  at_usable_ratio :: rat
  at_strong_observations :: nat
  at_usable_observations :: nat
  at_small_area :: rat
  at_strong_span :: rat
  at_selectable_ratio :: rat
  at_selectable_rate :: real
  at_max_fragments :: nat
  at_max_selectable :: nat
  at_manual_gap :: rat
  at_manual_speed :: real
  at_duplicate_ratio :: rat

definition thresholds :: association_thresholds where
  "thresholds = \<lparr>at_max_gap = 15, at_short_gap = 3/4, at_max_distance = 14, at_max_speed = 18,
     at_max_ratio = 7/4, at_min_similarity = 70/100, at_min_reentry_similarity = 96/100,
     at_min_reentry_duration = 1/2, at_overlap = 0, at_net_uncertainty = 5/2, at_strong_duration = 5,
     at_usable_duration = 1, at_strong_ratio = 65/100, at_usable_ratio = 30/100, at_strong_observations = 15,
     at_usable_observations = 3, at_small_area = 2/1000, at_strong_span = 4, at_selectable_ratio = 65/100,
     at_selectable_rate = 1/2, at_max_fragments = 3, at_max_selectable = 4, at_manual_gap = 20,
     at_manual_speed = 25, at_duplicate_ratio = 10/100\<rparr>"

section \<open>Fragments\<close>

datatype court_side = SideNear | SideFar | SideMixed | SideUnknown

record fragment =
  fr_track :: int
  fr_observations :: "observation list"
  fr_first :: rat
  fr_last :: rat
  fr_first_position :: "rat \<times> rat"
  fr_last_position :: "rat \<times> rat"
  fr_area :: rat
  fr_side :: court_side
  fr_appearance :: "rat list option"

text \<open>The dictionary of the fragments, in the order of its keys.\<close>

type_synonym fragments = "(int \<times> fragment) list"

definition middle :: "'a::linorder list \<Rightarrow> 'a" where
  "middle xs = sort xs ! (length xs div 2)"

definition net_line :: rat where "net_line = 22"

definition side_of :: "observation list \<Rightarrow> court_side" where
  "side_of obs =
     (let inside = map (\<lambda>b. snd (ob_position b)) (filter ob_inside obs) in
      if inside = [] then SideUnknown
      else if \<bar>middle inside - net_line\<bar> \<le> at_net_uncertainty thresholds then SideUnknown
      else if middle inside < net_line then SideNear else SideFar)"

definition mean :: "rat list \<Rightarrow> rat" where
  "mean xs = sum_list xs / of_nat (length xs)"

definition fragment_of :: "int \<Rightarrow> observation list \<Rightarrow> fragment" where
  "fragment_of t items =
     (let inside = filter ob_inside items; positional = (if inside = [] then items else inside) in
      \<lparr>fr_track = t, fr_observations = items, fr_first = ob_time (hd items), fr_last = ob_time (last items),
       fr_first_position = ob_position (hd positional), fr_last_position = ob_position (last positional),
       fr_area = mean (map (\<lambda>b. box_area (ob_box b)) items), fr_side = side_of positional, fr_appearance = None\<rparr>)"

definition track_items :: "observation list \<Rightarrow> int \<Rightarrow> observation list" where
  "track_items obs t = sort_key (\<lambda>b. (ob_time b, ob_frame b)) (filter (\<lambda>b. ob_track b = t) obs)"

definition build_fragments :: "observation list \<Rightarrow> fragments" where
  "build_fragments obs =
     map (\<lambda>t. (t, fragment_of t (track_items obs t))) (sort (remdups (map ob_track obs)))"

section \<open>The video\<close>

text \<open>
  \<open>md_file\<close> and \<open>md_opened\<close>: the source is a file, and OpenCV opens it. \<open>md_frames\<close> frames
  can be read from the start. \<open>md_descriptor\<close> is the histogram of the crop of a frame.
  \<open>md_shot\<close> seeks a frame for the preview at a position (\<open>None\<close>: it cannot be
  read) and tells whether the full frame and its crop were written.
\<close>

record media =
  md_file :: bool
  md_opened :: bool
  md_frames :: int
  md_descriptor :: "int \<Rightarrow> bounding_box \<Rightarrow> rat list option"
  md_shot :: "string \<Rightarrow> nat \<Rightarrow> observation \<Rightarrow> (bool \<times> bool) option"

text \<open>\<open>max(xs, key=k)\<close>: the first of the greatest (the empty list is not reached).\<close>

definition best_by :: "('a \<Rightarrow> 'k::linorder) \<Rightarrow> 'a list \<Rightarrow> 'a" where
  "best_by k xs = the (greatest k xs)"

definition representative :: "fragment \<Rightarrow> observation" where
  "representative f =
     best_by (\<lambda>b. (of_rat (ob_confidence b) * square_root (box_area (ob_box b)), - ob_frame b)) (fr_observations f)"

definition described :: "media \<Rightarrow> fragment \<Rightarrow> rat list option" where
  "described m f =
     (let b = representative f in
      if ob_frame b < md_frames m then md_descriptor m (ob_frame b) (ob_box b) else None)"

definition attach_descriptors :: "media \<Rightarrow> fragments \<Rightarrow> fragments" where
  "attach_descriptors m fs =
     (if fs = [] \<or> \<not> md_file m \<or> \<not> md_opened m then fs
      else map (\<lambda>(t, f). (t, f\<lparr>fr_appearance := described m f\<rparr>)) fs)"

section \<open>Which fragments can be one person\<close>

record merge_evidence =
  me_from :: int
  me_to :: int
  me_gap :: rat
  me_distance :: real
  me_speed :: real
  me_ratio :: rat
  me_similarity :: "rat option"
  me_consistent :: bool
  me_reasons :: "string list"

definition opposite_sides :: "court_side \<Rightarrow> court_side \<Rightarrow> bool" where
  "opposite_sides a b \<longleftrightarrow> {a, b} = {SideNear, SideFar}"

definition positive_intervals :: "fragment \<Rightarrow> rat list" where
  "positive_intervals f =
     map (\<lambda>(a, b). ob_time b - ob_time a) (filter (\<lambda>(a, b). ob_time b > ob_time a) (adjacent (fr_observations f)))"

definition median_interval :: "fragment \<Rightarrow> fragment \<Rightarrow> rat" where
  "median_interval f g =
     (let intervals = positive_intervals f @ positive_intervals g in
      if intervals = [] then 1/30 else middle intervals)"

text \<open>\<open>None\<close> is \<open>math.inf\<close>.\<close>

definition area_ratio :: "rat \<Rightarrow> rat \<Rightarrow> rat option" where
  "area_ratio a b = (if min a b > 0 then Some (max a b / min a b) else None)"

definition required_speed :: "real \<Rightarrow> rat \<Rightarrow> real option" where
  "required_speed d gap = (if gap > 0 then Some (d / of_rat gap) else None)"

definition similarity :: "rat list option \<Rightarrow> rat list option \<Rightarrow> rat option" where
  "similarity a b =
     (case (a, b) of
        (Some xs, Some ys) \<Rightarrow>
          if length xs = length ys then Some (max 0 (min 1 (sum_list (map (\<lambda>(x, y). x * y) (zip xs ys))))) else None
      | _ \<Rightarrow> None)"

definition falls_below :: "'a::ord option \<Rightarrow> 'a \<Rightarrow> bool" where
  "falls_below x m = (case x of None \<Rightarrow> False | Some v \<Rightarrow> v < m)"

definition exceeds :: "'a::ord option \<Rightarrow> 'a \<Rightarrow> bool" where
  "exceeds x m = (case x of None \<Rightarrow> True | Some v \<Rightarrow> v > m)"

definition weak_reentry :: "fragment \<Rightarrow> fragment \<Rightarrow> rat option \<Rightarrow> bool" where
  "weak_reentry f g s \<longleftrightarrow> s = None \<or> falls_below s (at_min_reentry_similarity thresholds)
     \<or> fr_last f - fr_first f < at_min_reentry_duration thresholds
     \<or> fr_last g - fr_first g < at_min_reentry_duration thresholds"

definition evidence_reasons :: "rat option \<Rightarrow> rat \<Rightarrow> string list" where
  "evidence_reasons s gap =
     [''non_overlapping_fragments'', ''short_temporal_gap'', ''plausible_endpoint_distance'',
      ''plausible_movement_speed'', ''similar_bounding_box_size'', ''court_side_consistent'']
     @ (if s \<noteq> None then [''appearance_histogram_consistent''] else [])
     @ (if gap > at_short_gap thresholds then [''appearance_supported_reentry''] else [])"

definition association_evidence :: "fragment \<Rightarrow> fragment \<Rightarrow> merge_evidence option" where
  "association_evidence f g =
     (let gap = fr_first g - fr_last f;
          d = distance (fr_last_position f) (fr_first_position g);
          speed = required_speed d (max gap (median_interval f g));
          ratio = area_ratio (fr_area f) (fr_area g);
          s = similarity (fr_appearance f) (fr_appearance g) in
      if \<not> observed_position (last (fr_observations f)) \<or> \<not> observed_position (hd (fr_observations g)) then None
      else if fr_first g \<le> fr_last f then None
      else if gap > at_max_gap thresholds then None
      else if opposite_sides (fr_side f) (fr_side g) then None
      else if d > at_max_distance thresholds then None
      else if exceeds speed (at_max_speed thresholds) then None
      else if exceeds ratio (at_max_ratio thresholds) then None
      else if falls_below s (at_min_similarity thresholds) then None
      else if gap > at_short_gap thresholds \<and> weak_reentry f g s then None
      else Some \<lparr>me_from = fr_track f, me_to = fr_track g, me_gap = gap, me_distance = d, me_speed = the speed,
        me_ratio = the ratio, me_similarity = s, me_consistent = (\<not> opposite_sides (fr_side f) (fr_side g)),
        me_reasons = evidence_reasons s gap\<rparr>)"

text \<open>Two fragments that are never seen at the same time, on sides of the net that fit.\<close>

definition apart :: "fragments \<Rightarrow> int \<Rightarrow> int \<Rightarrow> bool" where
  "apart fs i j =
     (case (map_of fs i, map_of fs j) of
        (Some f, Some g) \<Rightarrow> min (fr_last f) (fr_last g) - max (fr_first f) (fr_first g) < at_overlap thresholds
          \<and> \<not> opposite_sides (fr_side f) (fr_side g)
      | _ \<Rightarrow> False)"

definition groups_compatible :: "fragments \<Rightarrow> int set \<Rightarrow> int set \<Rightarrow> bool" where
  "groups_compatible fs A B \<longleftrightarrow> (\<forall>i\<in>A. \<forall>j\<in>B. apart fs i j)"

section \<open>Joining fragments\<close>

type_synonym edge_score = "rat \<times> real \<times> rat \<times> int \<times> int"

definition score_of :: "merge_evidence \<Rightarrow> edge_score" where
  "score_of e = (me_gap e, me_distance e, me_ratio e, me_from e, me_to e)"

definition association_edges :: "fragments \<Rightarrow> merge_evidence list" where
  "association_edges fs =
     (let ordered = sort_key (\<lambda>f. (fr_first f, fr_track f)) (map snd fs) in
      List.map_filter id
        (concat (map (\<lambda>f. map (\<lambda>g.
           if fr_track f = fr_track g \<or> fr_first g < fr_first f then None else association_evidence f g) ordered) ordered)))"

definition predecessors :: "merge_evidence list \<Rightarrow> int \<Rightarrow> int list" where
  "predecessors edges t = map me_from (filter (\<lambda>e. me_to e = t) edges)"

definition successors :: "merge_evidence list \<Rightarrow> int \<Rightarrow> int list" where
  "successors edges t = map me_to (filter (\<lambda>e. me_from e = t) edges)"

text \<open>Another fragment, seen together with one endpoint, could continue the other as well.\<close>

definition ambiguous :: "fragments \<Rightarrow> merge_evidence list \<Rightarrow> merge_evidence \<Rightarrow> bool" where
  "ambiguous fs edges e \<longleftrightarrow>
     list_ex (\<lambda>i. i \<noteq> me_from e \<and> \<not> groups_compatible fs {i} {me_from e}) (predecessors edges (me_to e))
     \<or> list_ex (\<lambda>i. i \<noteq> me_to e \<and> \<not> groups_compatible fs {i} {me_to e}) (successors edges (me_from e))"

record association =
  as_groups :: "int \<rightharpoonup> int set"
  as_evidence :: "int \<rightharpoonup> merge_evidence list"
  as_root :: "int \<rightharpoonup> int"

definition start_association :: "fragments \<Rightarrow> association" where
  "start_association fs =
     \<lparr>as_groups = map_of (map (\<lambda>(t, _). (t, {t})) fs), as_evidence = map_of (map (\<lambda>(t, _). (t, [])) fs),
      as_root = map_of (map (\<lambda>(t, _). (t, t)) fs)\<rparr>"

definition join_groups :: "association \<Rightarrow> int \<Rightarrow> int \<Rightarrow> merge_evidence \<Rightarrow> association" where
  "join_groups s a b e =
     (let kept = min a b; removed = max a b; members = the (as_groups s a) \<union> the (as_groups s b);
          evidence = the (as_evidence s a) @ the (as_evidence s b) @ [e] in
      \<lparr>as_groups = ((as_groups s)(kept \<mapsto> members))(removed := None),
       as_evidence = ((as_evidence s)(kept \<mapsto> evidence))(removed := None),
       as_root = (\<lambda>t. if t \<in> members then Some kept else as_root s t)\<rparr>)"

definition join_fragments :: "fragments \<Rightarrow> merge_evidence list \<Rightarrow> association \<Rightarrow> merge_evidence \<Rightarrow> association" where
  "join_fragments fs edges s e =
     (if ambiguous fs edges e then s
      else let a = the (as_root s (me_from e)); b = the (as_root s (me_to e)) in
        if a = b then s
        else if \<not> groups_compatible fs (the (as_groups s a)) (the (as_groups s b)) then s
        else join_groups s a b e)"

record candidate_group =
  cg_tracks :: "int list"
  cg_evidence :: "merge_evidence list"

definition final_association :: "fragments \<Rightarrow> association" where
  "final_association fs =
     (let edges = association_edges fs in
      foldl (join_fragments fs edges) (start_association fs) (sort_key score_of edges))"

definition group_at :: "association \<Rightarrow> int \<Rightarrow> candidate_group" where
  "group_at s r =
     \<lparr>cg_tracks = sorted_list_of_set (the (as_groups s r)),
      cg_evidence = sort_key (\<lambda>e. (me_from e, me_to e)) (the (as_evidence s r))\<rparr>"

definition associate_fragments :: "fragments \<Rightarrow> candidate_group list" where
  "associate_fragments fs =
     (let s = final_association fs; roots = filter (\<lambda>t. as_groups s t \<noteq> None) (map fst fs) in
      map (group_at s) (sort_key (\<lambda>r. Min (the (as_groups s r))) roots))"

end
