(* ===== verification/Candidate_Measures.thy ===== *)
theory Candidate_Measures
  imports Candidates
begin

text \<open>
  What the code measures of a group of fragments and concludes from it
  (\<^verbatim>\<open>_build_candidate\<close>, \<^verbatim>\<open>_classify_quality\<close>, \<^verbatim>\<open>_selection_exclusion_reasons\<close>,
  \<^verbatim>\<open>_apply_selection_policy\<close>, \<^verbatim>\<open>assess_recording_suitability\<close> in
  \<^verbatim>\<open>app/services/candidates/service.py\<close>).
\<close>

section \<open>Candidates\<close>

datatype review_status = ReviewPending | ReviewSelected | ReviewRejected | ReviewMerged

record candidate_preview =
  cp_time :: rat
  cp_frame :: int
  cp_full :: "string option"
  cp_crop :: "string option"

record average_box =
  ab_width :: rat
  ab_height :: rat
  ab_area :: rat

record court_candidate = player_candidate +
  cc_frames :: nat
  cc_distance :: real
  cc_rate :: real
  cc_exclusions :: "string list"
  cc_frame :: "int option"
  cc_crop :: "string option"
  cc_full :: "string option"
  cc_previews :: "candidate_preview list"
  cc_box :: average_box
  cc_side :: court_side
  cc_reasons :: "string list"
  cc_warnings :: "string list"
  cc_evidence :: "merge_evidence list"
  cc_status :: review_status
  cc_rejection :: "string option"
  cc_merge :: "string option"

text \<open>\<open>validate_candidate\<close> and the bounds of the fields.\<close>

definition valid_candidate :: "court_candidate \<Rightarrow> bool" where
  "valid_candidate c \<longleftrightarrow> pc_tracks c \<noteq> [] \<and> distinct (pc_tracks c) \<and> pc_first c \<le> pc_last c
     \<and> (pc_eligible c \<or> cc_exclusions c \<noteq> [])
     \<and> 0 \<le> pc_first c \<and> 0 \<le> pc_last c \<and> 0 \<le> pc_observed c \<and> 0 \<le> cc_distance c \<and> 0 \<le> cc_rate c
     \<and> 0 \<le> pc_visibility c \<and> pc_visibility c \<le> 1
     \<and> 0 \<le> ab_width (cc_box c) \<and> 0 \<le> ab_height (cc_box c) \<and> 0 \<le> ab_area (cc_box c) \<and> ab_area (cc_box c) \<le> 1"

text \<open>The digest of \<open>_stable_id\<close> is \<open>sha256(...).hexdigest()\<close>.\<close>

fun comma_joined :: "string list \<Rightarrow> string" where
  "comma_joined [] = []"
| "comma_joined [x] = x"
| "comma_joined (x # xs) = x @ CHR '','' # comma_joined xs"

definition membership_text :: "string \<Rightarrow> int list \<Rightarrow> string" where
  "membership_text analysis tracks =
     analysis @ CHR ''|'' # comma_joined (map int_text (sort (remdups tracks)))"

definition stable_id :: "(string \<Rightarrow> string) \<Rightarrow> string \<Rightarrow> string \<Rightarrow> int list \<Rightarrow> string" where
  "stable_id sha prefix analysis tracks =
     prefix @ CHR ''_'' # take 16 (sha (membership_text analysis tracks))"

definition candidate_id :: "(string \<Rightarrow> string) \<Rightarrow> string \<Rightarrow> int list \<Rightarrow> string" where
  "candidate_id sha = stable_id sha ''pc''"

section \<open>Previews\<close>

definition preview_dir :: string where "preview_dir = ''player_candidates''"

definition candidate_artifact :: "string \<Rightarrow> string \<Rightarrow> string" where
  "candidate_artifact cid name = ''tracking/'' @ preview_dir @ ''/'' @ cid @ ''/'' @ name"

definition preview_indices :: "nat \<Rightarrow> nat list" where
  "preview_indices n = sort (remdups [0, n div 2, n - 1])"

definition preview_of :: "media \<Rightarrow> string \<Rightarrow> nat \<times> observation \<Rightarrow> candidate_preview option" where
  "preview_of m cid = (\<lambda>(position, b).
     case md_shot m cid position b of
       None \<Rightarrow> None
     | Some (full, crop) \<Rightarrow> Some \<lparr>cp_time = ob_time b, cp_frame = ob_frame b,
         cp_full = (if full then Some (candidate_artifact cid (''frame_'' @ decimal (position + 1) @ ''.jpg'')) else None),
         cp_crop = (if crop then Some (candidate_artifact cid (''crop_'' @ decimal (position + 1) @ ''.jpg'')) else None)\<rparr>)"

definition write_previews :: "media \<Rightarrow> string \<Rightarrow> observation list \<Rightarrow> candidate_preview list" where
  "write_previews m cid obs =
     (if obs = [] \<or> \<not> md_file m \<or> \<not> md_opened m then []
      else let selected = map (\<lambda>i. obs ! i) (preview_indices (length obs)) in
        List.map_filter (preview_of m cid) (enumerate 0 selected))"

section \<open>Quality of a candidate\<close>

record candidate_facts =
  cf_duration :: rat
  cf_observations :: nat
  cf_ratio :: rat
  cf_fragments :: nat
  cf_preview :: bool
  cf_area :: rat
  cf_side :: court_side
  cf_vertical :: bool
  cf_span :: rat

definition quality_reasons :: "candidate_facts \<Rightarrow> string list" where
  "quality_reasons k =
     (if cf_duration k < at_usable_duration thresholds then [''short_track_duration''] else [])
     @ (if cf_ratio k < at_usable_ratio thresholds then [''low_in_court_ratio''] else [])
     @ (if cf_fragments k > 3 then [''high_fragment_count''] else [])
     @ (if \<not> cf_preview k then [''candidate_preview_generation_failure''] else [])
     @ (if cf_area k < at_small_area thresholds then [''small_subject''] else [])
     @ (if cf_side k = SideMixed then [''court_side_inconsistent''] else [])
     @ (if cf_vertical k then [''vertical_video_limitation''] else [])
     @ (if cf_span k < at_strong_span thresholds then [''limited_court_movement''] else [])"

definition classify_quality :: "candidate_facts \<Rightarrow> candidate_quality" where
  "classify_quality k =
     (if cf_duration k \<ge> at_strong_duration thresholds \<and> cf_observations k \<ge> at_strong_observations thresholds
        \<and> cf_ratio k \<ge> at_strong_ratio thresholds \<and> cf_preview k \<and> cf_fragments k \<le> 3
        \<and> cf_side k \<noteq> SideMixed \<and> cf_span k \<ge> at_strong_span thresholds
      then CandStrong
      else if cf_duration k \<ge> at_usable_duration thresholds \<and> cf_observations k \<ge> at_usable_observations thresholds
        \<and> cf_ratio k \<ge> at_usable_ratio thresholds
      then CandUsable
      else CandUncertain)"

definition selection_exclusions :: "candidate_quality \<Rightarrow> rat \<Rightarrow> real \<Rightarrow> nat \<Rightarrow> string list" where
  "selection_exclusions q ratio rate fragments =
     (if q \<notin> {CandStrong, CandUsable} then [''uncertain_player_candidate''] else [])
     @ (if ratio < at_selectable_ratio thresholds then [''mostly_outside_detected_court''] else [])
     @ (if rate < at_selectable_rate thresholds then [''limited_court_movement''] else [])
     @ (if fragments > at_max_fragments thresholds then [''excessive_track_fragmentation''] else [])"

section \<open>Measurements of a group\<close>

definition fragment_observations :: "fragments \<Rightarrow> int \<Rightarrow> observation list" where
  "fragment_observations fs t = (case map_of fs t of None \<Rightarrow> [] | Some f \<Rightarrow> fr_observations f)"

definition group_observations :: "fragments \<Rightarrow> int list \<Rightarrow> observation list" where
  "group_observations fs tracks =
     sort_key (\<lambda>b. (ob_time b, ob_frame b, ob_track b)) (concat (map (fragment_observations fs) tracks))"

text \<open>One observation for every frame: the most confident, of the smallest track.\<close>

definition frame_winner :: "observation list \<Rightarrow> int \<Rightarrow> observation" where
  "frame_winner obs n = best_by (\<lambda>b. (ob_confidence b, - ob_track b)) (filter (\<lambda>b. ob_frame b = n) obs)"

definition one_per_frame :: "observation list \<Rightarrow> observation list" where
  "one_per_frame obs = map (frame_winner obs) (sort (remdups (map ob_frame obs)))"

definition candidate_observations :: "fragments \<Rightarrow> int list \<Rightarrow> string option \<Rightarrow> observation list" where
  "candidate_observations fs tracks merge =
     (let obs = group_observations fs tracks in if merge = None then obs else one_per_frame obs)"

definition observed_frames :: "observation list \<Rightarrow> nat" where
  "observed_frames obs =
     length (remdups (map (\<lambda>b. (ob_frame b, ob_track b)) (filter (\<lambda>b. \<not> ob_interpolated b) obs)))"

definition observed_duration :: "observation list \<Rightarrow> rat" where
  "observed_duration obs =
     sum_list (map (\<lambda>(a, b). ob_time b - ob_time a) (filter (\<lambda>(a, b). supports_interval a b) (adjacent obs)))"

definition max_step :: real where "max_step = 15"

definition court_steps :: "observation list \<Rightarrow> real list" where
  "court_steps obs =
     filter (\<lambda>d. d \<le> max_step)
       (map (\<lambda>(a, b). distance (ob_position a) (ob_position b)) (filter (\<lambda>(a, b). supports_interval a b) (adjacent obs)))"

definition court_distance :: "fragments \<Rightarrow> int list \<Rightarrow> real" where
  "court_distance fs tracks = sum_list (concat (map (\<lambda>t. court_steps (fragment_observations fs t)) tracks))"

definition spread :: "rat list \<Rightarrow> rat" where
  "spread xs = Max (set xs) - Min (set xs)"

definition position_span :: "observation list \<Rightarrow> rat" where
  "position_span obs =
     (let inside = map ob_position (filter ob_inside obs) in
      if inside = [] then 0 else max (spread (map fst inside)) (spread (map snd inside)))"

text \<open>The sides of the fragments without the unknown ones, in any order.\<close>

definition combined_side :: "court_side list \<Rightarrow> court_side" where
  "combined_side sides =
     (case remdups (filter (\<lambda>s. s \<noteq> SideUnknown) sides) of [] \<Rightarrow> SideUnknown | [s] \<Rightarrow> s | _ \<Rightarrow> SideMixed)"

definition group_side :: "fragments \<Rightarrow> int list \<Rightarrow> court_side" where
  "group_side fs tracks = combined_side (map fr_side (List.map_filter (map_of fs) tracks))"

record video_report = video_metadata +
  vr_preflight :: "quality_assessment option"

definition mean_area_ratio :: "video_report \<Rightarrow> observation list \<Rightarrow> rat" where
  "mean_area_ratio v obs =
     (let area = vm_width v * vm_height v in
      if area > 0 then mean (map (\<lambda>b. box_area (ob_box b)) obs) / of_int area else 0)"

definition in_court_ratio :: "observation list \<Rightarrow> rat" where
  "in_court_ratio obs = (if obs = [] then 0 else of_nat (length (filter observed_position obs)) / of_nat (length obs))"

text \<open>
  What a candidate is built from. The fragments are those of the observations, so every
  track of a group is one of them and the averages are over at least one observation.
\<close>

record build_input =
  bi_sha :: "string \<Rightarrow> string"
  bi_analysis :: string
  bi_fragments :: fragments
  bi_video :: video_report
  bi_media :: media

definition candidate_previews :: "build_input \<Rightarrow> string \<Rightarrow> observation list \<Rightarrow> candidate_preview list" where
  "candidate_previews i cid obs =
     (if observed_duration obs \<ge> at_usable_duration thresholds \<and> observed_frames obs \<ge> at_usable_observations thresholds
      then write_previews (bi_media i) cid (filter observed_position obs) else [])"

definition movement_rate :: "real \<Rightarrow> rat \<Rightarrow> real" where
  "movement_rate d t = (if t > 0 then d / of_rat t else 0)"

definition facts_of :: "build_input \<Rightarrow> int list \<Rightarrow> observation list \<Rightarrow> candidate_preview list \<Rightarrow> candidate_facts" where
  "facts_of i tracks obs previews =
     \<lparr>cf_duration = observed_duration obs, cf_observations = observed_frames obs, cf_ratio = in_court_ratio obs,
      cf_fragments = length tracks, cf_preview = (previews \<noteq> []), cf_area = mean_area_ratio (bi_video i) obs,
      cf_side = group_side (bi_fragments i) tracks, cf_vertical = (vm_height (bi_video i) > vm_width (bi_video i)),
      cf_span = position_span obs\<rparr>"

definition build_candidate :: "build_input \<Rightarrow> candidate_group \<Rightarrow> string option \<Rightarrow> court_candidate" where
  "build_candidate i g merge =
     (let tracks = cg_tracks g;
          obs = candidate_observations (bi_fragments i) tracks merge;
          cid = candidate_id (bi_sha i) (bi_analysis i) tracks;
          previews = candidate_previews i cid obs;
          preview = (if previews = [] then None else Some (previews ! (length previews div 2)));
          facts = facts_of i tracks obs previews;
          quality = classify_quality facts;
          d = court_distance (bi_fragments i) tracks;
          rate = movement_rate d (observed_duration obs);
          exclusions = selection_exclusions quality (in_court_ratio obs) rate (length tracks) in
      \<lparr>pc_id = cid, pc_tracks = tracks, pc_first = ob_time (hd obs), pc_last = ob_time (last obs),
       pc_observed = observed_duration obs, pc_visibility = in_court_ratio obs, pc_eligible = (exclusions = []),
       pc_quality = quality, cc_frames = observed_frames obs, cc_distance = d, cc_rate = rate, cc_exclusions = exclusions,
       cc_frame = map_option cp_frame preview, cc_crop = Option.bind preview cp_crop, cc_full = Option.bind preview cp_full,
       cc_previews = previews,
       cc_box = \<lparr>ab_width = mean (map (\<lambda>b. box_width (ob_box b)) obs), ab_height = mean (map (\<lambda>b. box_height (ob_box b)) obs),
         ab_area = min 1 (mean_area_ratio (bi_video i) obs)\<rparr>,
       cc_side = group_side (bi_fragments i) tracks, cc_reasons = quality_reasons facts, cc_warnings = quality_reasons facts,
       cc_evidence = cg_evidence g, cc_status = ReviewPending, cc_rejection = None, cc_merge = merge\<rparr>)"

section \<open>Ranking and selection policy\<close>

definition quality_rank :: "candidate_quality \<Rightarrow> nat" where
  "quality_rank q = (case q of CandStrong \<Rightarrow> 0 | CandUsable \<Rightarrow> 1 | CandUncertain \<Rightarrow> 2 | CandRejected \<Rightarrow> 3)"

type_synonym rank_key = "nat \<times> real \<times> rat \<times> rat \<times> nat \<times> string"

definition candidate_rank :: "court_candidate \<Rightarrow> rank_key" where
  "candidate_rank c =
     (quality_rank (pc_quality c), - cc_distance c, - pc_visibility c, - pc_observed c, length (pc_tracks c), pc_id c)"

definition outside_top_four :: "court_candidate \<Rightarrow> court_candidate" where
  "outside_top_four c =
     c\<lparr>pc_eligible := False, cc_exclusions := cc_exclusions c @ [''outside_top_four_court_players'']\<rparr>"

definition kept_ids :: "court_candidate list \<Rightarrow> string option \<Rightarrow> string set" where
  "kept_ids eligible chosen =
     (let kept = set (map pc_id (take (at_max_selectable thresholds) (sort_key candidate_rank eligible))) in
      case find (\<lambda>c. Some (pc_id c) = chosen) eligible of
        None \<Rightarrow> kept
      | Some c \<Rightarrow>
          if pc_id c \<in> kept then kept
          else insert (pc_id c) (kept - {pc_id (best_by candidate_rank (filter (\<lambda>c. pc_id c \<in> kept) eligible))}))"

definition apply_selection_policy :: "court_candidate list \<Rightarrow> string option \<Rightarrow> court_candidate list" where
  "apply_selection_policy cs chosen =
     (let eligible = filter pc_eligible cs; kept = kept_ids eligible chosen in
      if length eligible \<le> at_max_selectable thresholds then cs
      else map (\<lambda>c. if \<not> pc_eligible c \<or> pc_id c \<in> kept then c else outside_top_four c) cs)"

section \<open>Suitability of the recording\<close>

datatype suitability_status = RecSuitable | RecLimited | RecUnsuitable

record recording_suitability =
  su_status :: suitability_status
  su_reasons :: "string list"
  su_guidance :: "string list"
  su_orientation :: string
  su_people :: nat
  su_usable :: nat

text \<open>The checks in their order, each with the status it sets, its reason and its guidance.\<close>

type_synonym suitability_step = "suitability_status \<times> string \<times> string list"

definition framing_steps :: "video_report \<Rightarrow> suitability_step list" where
  "framing_steps v =
     (if vm_height v > vm_width v
      then [(RecLimited, ''vertical_video_limitation'', [''Use landscape orientation when possible.''])] else [])
     @ (if min (vm_width v) (vm_height v) < 480
        then [(RecLimited, ''limited_resolution'', [''Record at a higher resolution so players occupy more pixels.''])] else [])
     @ (if vm_duration v < 3
        then [(RecUnsuitable, ''recording_too_short'', [''Record a longer continuous section of play.''])] else [])"

definition evidence_steps :: "suitability_status \<Rightarrow> nat \<Rightarrow> court_candidate list \<Rightarrow> suitability_step list" where
  "evidence_steps status people cs =
     (if people = 0
      then [(RecUnsuitable, ''no_person_detections'', [''Keep players large enough to detect and the full court visible.''])]
      else if cs = [] then [(RecUnsuitable, ''detections_without_candidates'', [])]
      else if list_all (\<lambda>c. pc_quality c = CandUncertain) cs
      then [(if status \<noteq> RecUnsuitable then RecLimited else status, ''only_uncertain_candidates'', [])]
      else [])"

definition status_after :: "suitability_step list \<Rightarrow> suitability_status" where
  "status_after steps = (if steps = [] then RecSuitable else fst (last steps))"

definition assess_suitability :: "video_report \<Rightarrow> nat \<Rightarrow> court_candidate list \<Rightarrow> recording_suitability" where
  "assess_suitability v people cs =
     (let framing = framing_steps v;
          steps = framing @ evidence_steps (status_after framing) people cs;
          status = status_after steps in
      \<lparr>su_status = status, su_reasons = unique_list (map (fst \<circ> snd) steps),
       su_guidance = unique_list (concat (map (snd \<circ> snd) steps)
         @ (if status \<noteq> RecSuitable
            then [''Keep the full court visible.'', ''Place the camera behind the baseline and keep it stable.''] else [])),
       su_orientation = (if vm_height v > vm_width v then ''vertical'' else ''landscape''),
       su_people = people, su_usable = length (filter (\<lambda>c. pc_quality c \<in> {CandStrong, CandUsable}) cs)\<rparr>)"

end
