(* ===== verification/Candidate_Review.thy ===== *)
theory Candidate_Review
  imports Candidate_Measures
begin

text \<open>
  The review of player candidates (\<^verbatim>\<open>app/services/candidates/service.py\<close>,
  \<^verbatim>\<open>app/schemas/player_candidates.py\<close>): the stored collection, its generation from the
  files of an analysis, and the operations that select, reject, restore, merge and unmerge
  candidates. Each operation loads the collection, computes the next one, writes it, and
  then may update the tracking report, so an error of that last step leaves the new
  collection behind.
\<close>

section \<open>Collections\<close>

record merge_decision =
  md_id :: string
  md_sources :: "string list"
  md_tracks :: "int list"
  md_merged :: string
  md_active :: bool
  md_created :: time
  md_undone :: "time option"

record collection =
  cl_version :: nat
  cl_analysis :: string
  cl_candidates :: "court_candidate list"
  cl_excluded :: "court_candidate list"
  cl_selected :: "string option"
  cl_decisions :: "merge_decision list"
  cl_suitability :: recording_suitability
  cl_readiness :: "quality_assessment option"
  cl_performance :: "rat \<times> rat"
  cl_generated :: time
  cl_updated :: time

definition current_version :: nat where "current_version = 4"

definition members :: "collection \<Rightarrow> court_candidate list" where
  "members c = cl_candidates c @ cl_excluded c"

text \<open>\<open>validate_unique_membership\<close>.\<close>

definition unique_membership :: "collection \<Rightarrow> bool" where
  "unique_membership c \<longleftrightarrow> distinct (map pc_id (members c)) \<and> distinct (concat (map pc_tracks (members c)))
     \<and> (case cl_selected c of None \<Rightarrow> True | Some i \<Rightarrow> i \<in> set (map pc_id (members c)))"

definition valid_collection :: "collection \<Rightarrow> bool" where
  "valid_collection c \<longleftrightarrow> cl_version c \<ge> 1 \<and> list_all valid_candidate (members c) \<and> unique_membership c"

section \<open>Files\<close>

text \<open>
  A file that is missing, one that cannot be read or parsed, or one with a value.
\<close>

datatype 'a disk_file = NoFile | BadFile | Stored 'a

text \<open>The columns of \<open>PlayerTrackingReport\<close> that a selection writes.\<close>

record tracking_report =
  tr_track :: "int option"
  tr_candidate :: "string option"
  tr_sources :: "int list"
  tr_saved_at :: "time option"

record candidate_files =
  fl_collection :: "collection disk_file"
  fl_report :: "tracking_report disk_file"
  fl_observations :: "observation list disk_file"
  fl_video :: "video_report disk_file"
  fl_writable :: bool

datatype candidate_error = OutdatedCandidates | CandidateNotFound string | ImpossibleMerge string
  | CandidatePersistence string | MissingTrack | InvalidCollection

definition load_file :: "'a disk_file \<Rightarrow> string \<Rightarrow> candidate_error + 'a" where
  "load_file f message = (case f of Stored x \<Rightarrow> Inr x | _ \<Rightarrow> Inl (CandidatePersistence message))"

definition load_collection :: "candidate_files \<Rightarrow> candidate_error + collection" where
  "load_collection fs =
     (case fl_collection fs of
        Stored c \<Rightarrow> if valid_collection c then Inr c
          else Inl (CandidatePersistence ''Player candidate state could not be loaded.'')
      | _ \<Rightarrow> Inl (CandidatePersistence ''Player candidate state could not be loaded.''))"

definition load_optional_collection :: "candidate_files \<Rightarrow> candidate_error + collection option" where
  "load_optional_collection fs =
     (case fl_collection fs of NoFile \<Rightarrow> Inr None | _ \<Rightarrow> bindE (load_collection fs) (\<lambda>c. Inr (Some c)))"

text \<open>The bounds \<open>PlayerObservation\<close>, \<open>BoundingBox\<close> and \<open>VideoMetadataReport\<close> validate.\<close>

definition valid_observation :: "observation \<Rightarrow> bool" where
  "valid_observation b \<longleftrightarrow> 0 \<le> ob_frame b \<and> 0 \<le> ob_time b \<and> 0 \<le> ob_track b
     \<and> 0 \<le> ob_confidence b \<and> ob_confidence b \<le> 1 \<and> bx_x1 (ob_box b) < bx_x2 (ob_box b) \<and> bx_y1 (ob_box b) < bx_y2 (ob_box b)"

definition valid_video :: "video_report \<Rightarrow> bool" where
  "valid_video v \<longleftrightarrow> 0 < vm_width v \<and> 0 < vm_height v \<and> 0 < vm_fps v \<and> 0 < vm_duration v"

definition load_observations :: "candidate_files \<Rightarrow> candidate_error + observation list" where
  "load_observations fs =
     bindE (load_file (fl_observations fs) ''Raw tracking observations could not be loaded.'')
       (\<lambda>obs. bindE (requireE (list_all valid_observation obs) (CandidatePersistence ''Raw tracking observations could not be loaded.'')) (\<lambda>_.
          Inr (sort_key (\<lambda>b. (ob_time b, ob_frame b, ob_track b)) obs)))"

definition load_video :: "candidate_files \<Rightarrow> candidate_error + video_report" where
  "load_video fs = bindE (load_file (fl_video fs) ''Video metadata could not be loaded.'')
     (\<lambda>v. bindE (requireE (valid_video v) (CandidatePersistence ''Video metadata could not be loaded.'')) (\<lambda>_. Inr v))"

definition load_report :: "candidate_files \<Rightarrow> candidate_error + tracking_report" where
  "load_report fs = load_file (fl_report fs) ''Tracking report could not be loaded.''"

definition require_current :: "collection \<Rightarrow> candidate_error + unit" where
  "require_current c = requireE (cl_version c = current_version) OutdatedCandidates"

definition write_collection :: "candidate_files \<Rightarrow> collection \<Rightarrow> candidate_error + candidate_files" where
  "write_collection fs c =
     (if fl_writable fs then Inr (fs\<lparr>fl_collection := Stored c\<rparr>)
      else Inl (CandidatePersistence ''Player candidate state could not be saved.''))"

definition selection_report :: "time \<Rightarrow> court_candidate \<Rightarrow> tracking_report \<Rightarrow> tracking_report" where
  "selection_report now c r =
     r\<lparr>tr_track := Some (hd (pc_tracks c)), tr_candidate := Some (pc_id c), tr_sources := pc_tracks c, tr_saved_at := Some now\<rparr>"

definition cleared_report :: "tracking_report \<Rightarrow> tracking_report" where
  "cleared_report r = r\<lparr>tr_track := None, tr_candidate := None, tr_sources := [], tr_saved_at := None\<rparr>"

text \<open>What an operation does to the tracking report after it wrote the collection.\<close>

datatype report_step = KeepReport | ClearReport | ReportSelection court_candidate

definition update_report :: "time \<Rightarrow> report_step \<Rightarrow> candidate_files \<Rightarrow> candidate_error + candidate_files" where
  "update_report now step fs =
     (case step of
        KeepReport \<Rightarrow> Inr fs
      | ClearReport \<Rightarrow> bindE (load_report fs) (\<lambda>r. Inr (fs\<lparr>fl_report := Stored (cleared_report r)\<rparr>))
      | ReportSelection c \<Rightarrow> bindE (load_report fs) (\<lambda>r. Inr (fs\<lparr>fl_report := Stored (selection_report now c r)\<rparr>)))"

text \<open>The two writes of an operation; what the first one wrote stays.\<close>

definition commit :: "time \<Rightarrow> candidate_files \<Rightarrow> collection \<times> report_step \<Rightarrow> (candidate_error + collection) \<times> candidate_files" where
  "commit now fs = (\<lambda>(c, step).
     case write_collection fs c of
       Inl e \<Rightarrow> (Inl e, fs)
     | Inr fs1 \<Rightarrow> (case update_report now step fs1 of Inl e \<Rightarrow> (Inl e, fs1) | Inr fs2 \<Rightarrow> (Inr c, fs2)))"

definition reviewed :: "time \<Rightarrow> candidate_files \<Rightarrow> candidate_error + collection \<times> report_step
    \<Rightarrow> (candidate_error + collection) \<times> candidate_files" where
  "reviewed now fs r = (case r of Inl e \<Rightarrow> (Inl e, fs) | Inr x \<Rightarrow> commit now fs x)"

section \<open>Select, reject, restore\<close>

definition find_active :: "collection \<Rightarrow> string \<Rightarrow> candidate_error + court_candidate" where
  "find_active c i =
     (case find (\<lambda>x. pc_id x = i) (cl_candidates c) of
        None \<Rightarrow> Inl (CandidateNotFound ''Player candidate was not found.'') | Some x \<Rightarrow> Inr x)"

definition load_current :: "candidate_files \<Rightarrow> candidate_error + collection" where
  "load_current fs = bindE (load_collection fs) (\<lambda>c. bindE (require_current c) (\<lambda>_. Inr c))"

definition mark_selected :: "string \<Rightarrow> court_candidate list \<Rightarrow> court_candidate list" where
  "mark_selected i = map (\<lambda>x. x\<lparr>cc_status := if pc_id x = i then ReviewSelected else ReviewPending\<rparr>)"

definition selecting :: "time \<Rightarrow> string \<Rightarrow> candidate_files \<Rightarrow> candidate_error + collection \<times> report_step" where
  "selecting now i fs =
     bindE (load_current fs) (\<lambda>c.
     bindE (find_active c i) (\<lambda>x.
     bindE (requireE (pc_eligible x \<and> pc_quality x \<noteq> CandRejected)
       (CandidateNotFound ''Ineligible candidate cannot be selected.'')) (\<lambda>_.
     Inr (c\<lparr>cl_candidates := mark_selected i (cl_candidates c), cl_selected := Some i, cl_readiness := None,
       cl_updated := now\<rparr>, ReportSelection x))))"

definition select_candidate :: "time \<Rightarrow> string \<Rightarrow> candidate_files \<Rightarrow> (candidate_error + collection) \<times> candidate_files" where
  "select_candidate now i fs = reviewed now fs (selecting now i fs)"

definition spaces_joined :: "string \<Rightarrow> string" where
  "spaces_joined = map (\<lambda>ch. if ch = CHR '' '' then CHR ''_'' else ch)"

definition structured_reason :: "string \<Rightarrow> string" where
  "structured_reason reason =
     (let cleaned = spaces_joined (lower (strip reason)) in
      if cleaned \<in> {''spectator'', ''background_person'', ''duplicate'', ''not_me'', ''not_a_player''}
      then cleaned else ''not_a_player'')"

definition rejected_as :: "string \<Rightarrow> court_candidate \<Rightarrow> court_candidate" where
  "rejected_as reason x = x\<lparr>cc_status := ReviewRejected, cc_rejection := Some (structured_reason reason)\<rparr>"

definition without_id :: "string \<Rightarrow> court_candidate list \<Rightarrow> court_candidate list" where
  "without_id i = filter (\<lambda>x. pc_id x \<noteq> i)"

definition rejecting :: "time \<Rightarrow> string \<Rightarrow> string \<Rightarrow> candidate_files \<Rightarrow> candidate_error + collection \<times> report_step" where
  "rejecting now i reason fs =
     bindE (load_current fs) (\<lambda>c.
     bindE (find_active c i) (\<lambda>x.
     Inr (c\<lparr>cl_candidates := without_id i (cl_candidates c), cl_excluded := cl_excluded c @ [rejected_as reason x],
       cl_selected := (if cl_selected c = Some i then None else cl_selected c), cl_readiness := None, cl_updated := now\<rparr>,
       if cl_selected c = Some i then ClearReport else KeepReport)))"

definition reject_candidate :: "time \<Rightarrow> string \<Rightarrow> string \<Rightarrow> candidate_files \<Rightarrow> (candidate_error + collection) \<times> candidate_files" where
  "reject_candidate now i reason fs = reviewed now fs (rejecting now i reason fs)"

definition restored :: "court_candidate \<Rightarrow> court_candidate" where
  "restored x = x\<lparr>cc_status := ReviewPending, cc_rejection := None\<rparr>"

definition restoring :: "time \<Rightarrow> string \<Rightarrow> candidate_files \<Rightarrow> candidate_error + collection \<times> report_step" where
  "restoring now i fs =
     bindE (load_current fs) (\<lambda>c.
     case find (\<lambda>x. pc_id x = i) (cl_excluded c) of
       None \<Rightarrow> Inl (CandidateNotFound ''Excluded player candidate was not found.'')
     | Some x \<Rightarrow>
         bindE (requireE (pc_eligible x) (CandidateNotFound ''Automatically excluded candidate cannot be restored.'')) (\<lambda>_.
         Inr (c\<lparr>cl_candidates := sort_key candidate_rank (cl_candidates c @ [restored x]),
           cl_excluded := without_id i (cl_excluded c), cl_readiness := None, cl_updated := now\<rparr>, KeepReport)))"

definition restore_candidate :: "time \<Rightarrow> string \<Rightarrow> candidate_files \<Rightarrow> (candidate_error + collection) \<times> candidate_files" where
  "restore_candidate now i fs = reviewed now fs (restoring now i fs)"

section \<open>Generation\<close>

definition rejected_before :: "collection \<Rightarrow> int list \<Rightarrow> court_candidate option" where
  "rejected_before previous tracks =
     find (\<lambda>x. pc_tracks x = tracks) (rev (filter (\<lambda>x. pc_eligible x \<and> cc_status x = ReviewRejected) (cl_excluded previous)))"

definition preserve_rejections :: "collection \<Rightarrow> court_candidate list \<Rightarrow> court_candidate list" where
  "preserve_rejections previous = map (\<lambda>x.
     case rejected_before previous (pc_tracks x) of
       None \<Rightarrow> x | Some p \<Rightarrow> x\<lparr>cc_status := ReviewRejected, cc_rejection := cc_rejection p\<rparr>)"

definition first_reason :: "court_candidate list \<Rightarrow> string option" where
  "first_reason xs =
     (case find (\<lambda>x. cc_rejection x \<noteq> None) xs of None \<Rightarrow> Some ''not_a_player'' | Some x \<Rightarrow> cc_rejection x)"

definition apply_persisted_merge :: "build_input \<Rightarrow> merge_decision \<Rightarrow> court_candidate list \<Rightarrow> court_candidate list" where
  "apply_persisted_merge i d cs =
     (let raw = set (md_tracks d); part = (\<lambda>x. set (pc_tracks x) \<subseteq> raw); source = filter part cs;
          merged = build_candidate i \<lparr>cg_tracks = sorted_list_of_set raw, cg_evidence = []\<rparr> (Some (md_id d)) in
      if set (concat (map pc_tracks source)) \<noteq> raw then cs
      else filter (\<lambda>x. \<not> part x) cs
        @ [if list_ex (\<lambda>x. cc_status x = ReviewRejected) source
           then merged\<lparr>cc_status := ReviewRejected, cc_rejection := first_reason source\<rparr> else merged])"

definition persisted_merges :: "build_input \<Rightarrow> merge_decision list \<Rightarrow> court_candidate list \<Rightarrow> court_candidate list" where
  "persisted_merges i ds cs = foldl (\<lambda>cs d. if md_active d then apply_persisted_merge i d cs else cs) cs ds"

definition preserved_selection :: "court_candidate list \<Rightarrow> collection \<Rightarrow> string option" where
  "preserved_selection cs previous =
     (case cl_selected previous of
        None \<Rightarrow> None
      | Some i \<Rightarrow>
          if i \<in> set (map pc_id cs) then Some i
          else case find (\<lambda>x. pc_id x = i) (members previous) of
            None \<Rightarrow> None
          | Some p \<Rightarrow> map_option pc_id (find (\<lambda>x. set (pc_tracks x) = set (pc_tracks p)) cs))"

text \<open>
  The selection a generation starts from: that of the previous collection, if it is of the
  current version, and without a previous collection that of the tracking report.
\<close>

definition initial_selection :: "bool \<Rightarrow> collection option \<Rightarrow> tracking_report \<Rightarrow> court_candidate list \<Rightarrow> string option" where
  "initial_selection preserve previous report cs =
     (case previous of
        Some p \<Rightarrow> if preserve \<and> cl_version p = current_version then preserved_selection cs p else None
      | None \<Rightarrow>
          (case tr_track report of
             None \<Rightarrow> None
           | Some t \<Rightarrow> map_option pc_id (find (\<lambda>x. t \<in> set (pc_tracks x)) cs)))"

definition ranked_candidates :: "build_input \<Rightarrow> bool \<Rightarrow> collection option \<Rightarrow> court_candidate list" where
  "ranked_candidates i preserve previous =
     (let cs = map (\<lambda>g. build_candidate i g None) (associate_fragments (bi_fragments i)) in
      sort_key candidate_rank
        (case previous of
           Some p \<Rightarrow> if preserve then persisted_merges i (cl_decisions p) (preserve_rejections p cs) else cs
         | None \<Rightarrow> cs))"

definition eligible_selection :: "court_candidate list \<Rightarrow> string option \<Rightarrow> string option" where
  "eligible_selection cs chosen =
     (if list_ex (\<lambda>x. Some (pc_id x) = chosen \<and> pc_eligible x) cs then chosen else None)"

definition mark_chosen :: "string option \<Rightarrow> court_candidate list \<Rightarrow> court_candidate list" where
  "mark_chosen chosen = map (\<lambda>x. if Some (pc_id x) = chosen then x\<lparr>cc_status := ReviewSelected\<rparr> else x)"

definition selectable_now :: "court_candidate \<Rightarrow> bool" where
  "selectable_now x \<longleftrightarrow> pc_eligible x \<and> cc_status x \<noteq> ReviewRejected"

text \<open>The candidates of a generation, with the policy and the selection applied.\<close>

definition generated :: "build_input \<Rightarrow> bool \<Rightarrow> collection option \<Rightarrow> tracking_report \<Rightarrow> court_candidate list \<times> string option" where
  "generated i preserve previous report =
     (let cs = ranked_candidates i preserve previous;
          wanted = initial_selection preserve previous report cs;
          limited = apply_selection_policy cs wanted;
          chosen = eligible_selection limited wanted in
      (mark_chosen chosen limited, chosen))"

record generation =
  gn_sha :: "string \<Rightarrow> string"
  gn_media :: media
  gn_now :: time
  gn_performance :: "rat \<times> rat"

definition input_of :: "generation \<Rightarrow> string \<Rightarrow> observation list \<Rightarrow> video_report \<Rightarrow> build_input" where
  "input_of g analysis obs v =
     \<lparr>bi_sha = gn_sha g, bi_analysis = analysis, bi_fragments = attach_descriptors (gn_media g) (build_fragments obs),
      bi_video = v, bi_media = gn_media g\<rparr>"

definition build_readiness :: "time \<Rightarrow> video_report \<Rightarrow> nat \<Rightarrow> court_candidate list \<Rightarrow> string option \<Rightarrow> quality_assessment" where
  "build_readiness now v people active chosen =
     assess_analysis_readiness quality_policy now
       \<lparr>ri_upload = Some (case vr_preflight v of Some u \<Rightarrow> u
          | None \<Rightarrow> assess_upload_preflight quality_policy now (video_metadata.truncate v)),
        ri_calibrated = True, ri_court_status = None, ri_court_confidence = None, ri_people = people,
        ri_candidates = map player_candidate.truncate active, ri_selected = chosen\<rparr>"

definition collection_of :: "generation \<Rightarrow> build_input \<Rightarrow> bool \<Rightarrow> collection option \<Rightarrow> tracking_report \<Rightarrow> collection" where
  "collection_of g i preserve previous report =
     (let (cs, chosen) = generated i preserve previous report;
          active = filter selectable_now cs;
          people = length (bi_fragments i) in
      \<lparr>cl_version = current_version, cl_analysis = bi_analysis i, cl_candidates = active,
       cl_excluded = filter (\<lambda>x. \<not> selectable_now x) cs, cl_selected = chosen,
       cl_decisions = (case previous of Some p \<Rightarrow> if preserve then cl_decisions p else [] | None \<Rightarrow> []),
       cl_suitability = assess_suitability (bi_video i) people active,
       cl_readiness = Some (build_readiness (gn_now g) (bi_video i) people active chosen),
       cl_performance = gn_performance g,
       cl_generated = (case previous of Some p \<Rightarrow> cl_generated p | None \<Rightarrow> gn_now g), cl_updated = gn_now g\<rparr>)"

text \<open>The report is left alone when there is none.\<close>

definition generation_step :: "candidate_files \<Rightarrow> collection \<Rightarrow> report_step" where
  "generation_step fs c =
     (if fl_report fs = NoFile then KeepReport
      else case cl_selected c of
        None \<Rightarrow> ClearReport
      | Some i \<Rightarrow> (case find (\<lambda>x. pc_id x = i) (cl_candidates c) of None \<Rightarrow> ClearReport | Some x \<Rightarrow> ReportSelection x))"

definition generating :: "generation \<Rightarrow> string \<Rightarrow> tracking_report \<Rightarrow> bool \<Rightarrow> candidate_files \<Rightarrow> candidate_error + collection \<times> report_step" where
  "generating g analysis report preserve fs =
     bindE (load_optional_collection fs) (\<lambda>previous.
     bindE (load_observations fs) (\<lambda>obs.
     bindE (load_video fs) (\<lambda>v.
     let c = collection_of g (input_of g analysis obs v) preserve previous report in
     bindE (requireE (valid_collection c) InvalidCollection) (\<lambda>_.
     Inr (c, generation_step fs c)))))"

definition build_candidates :: "generation \<Rightarrow> string \<Rightarrow> tracking_report \<Rightarrow> bool \<Rightarrow> candidate_files \<Rightarrow> (candidate_error + collection) \<times> candidate_files" where
  "build_candidates g analysis report preserve fs = reviewed (gn_now g) fs (generating g analysis report preserve fs)"

section \<open>Merge and unmerge\<close>

definition track_observations :: "court_candidate \<Rightarrow> observation list \<Rightarrow> observation list" where
  "track_observations x = filter (\<lambda>b. ob_track b \<in> set (pc_tracks x))"

definition frames_of :: "observation list \<Rightarrow> int set" where
  "frames_of obs = set (map ob_frame obs)"

definition seen_together :: "observation list \<Rightarrow> observation list \<Rightarrow> bool" where
  "seen_together a b =
     (let overlap = card (frames_of a \<inter> frames_of b);
          denominator = max 1 (min (card (frames_of a)) (card (frames_of b))) in
      overlap \<ge> 3 \<or> of_nat overlap / of_nat denominator > at_duplicate_ratio thresholds)"

definition validate_manual_merge :: "court_candidate \<Rightarrow> court_candidate \<Rightarrow> observation list \<Rightarrow> candidate_error + unit" where
  "validate_manual_merge x y obs =
     (let a = track_observations x obs; b = track_observations y obs;
          earlier = (if pc_first x \<le> pc_first y then a else b);
          later = (if pc_first x \<le> pc_first y then b else a);
          gap = ob_time (hd later) - ob_time (last earlier);
          d = distance (ob_position (last earlier)) (ob_position (hd later)) in
      if seen_together a b
      then Inl (ImpossibleMerge ''These candidates appear at the same time and cannot be merged safely.'')
      else if opposite_sides (cc_side x) (cc_side y)
      then Inl (ImpossibleMerge ''These candidates remain on incompatible court sides.'')
      else if earlier = [] \<or> later = [] then Inl (ImpossibleMerge ''Candidate observations are unavailable.'')
      else if gap < 0
      then Inl (ImpossibleMerge ''These candidates have overlapping observations and cannot be merged safely.'')
      else if gap > at_manual_gap thresholds
      then Inl (ImpossibleMerge ''The gap between these candidates is too long.'')
      else if d / of_rat (max gap (1/30)) > at_manual_speed thresholds
      then Inl (ImpossibleMerge ''The movement required between these candidates is not physically plausible.'')
      else Inr ())"

definition merge_tracks :: "court_candidate \<Rightarrow> court_candidate \<Rightarrow> int list" where
  "merge_tracks x y = sort (remdups (pc_tracks x @ pc_tracks y))"

definition decision_for :: "generation \<Rightarrow> string \<Rightarrow> string list \<Rightarrow> int list \<Rightarrow> merge_decision" where
  "decision_for g analysis ids raw =
     \<lparr>md_id = stable_id (gn_sha g) ''merge'' analysis raw, md_sources = sort ids, md_tracks = raw,
      md_merged = candidate_id (gn_sha g) analysis raw, md_active = True, md_created = gn_now g, md_undone = None\<rparr>"

text \<open>
  Merging uses the fragments without descriptors. It raises \<open>KeyError\<close> for a track of a
  candidate that the observations do not have, and the constructor validates the candidate.
\<close>

definition merged_candidate :: "generation \<Rightarrow> string \<Rightarrow> observation list \<Rightarrow> video_report \<Rightarrow> int list \<Rightarrow> candidate_error + court_candidate" where
  "merged_candidate g analysis obs v raw =
     (let fragments = build_fragments obs;
          i = \<lparr>bi_sha = gn_sha g, bi_analysis = analysis, bi_fragments = fragments, bi_video = v, bi_media = gn_media g\<rparr> in
      bindE (requireE (list_all (\<lambda>t. map_of fragments t \<noteq> None) raw) MissingTrack) (\<lambda>_.
      let x = build_candidate i \<lparr>cg_tracks = raw, cg_evidence = []\<rparr> (Some (stable_id (gn_sha g) ''merge'' analysis raw)) in
      bindE (requireE (valid_candidate x) InvalidCollection) (\<lambda>_. Inr x)))"

definition merged_status :: "string list \<Rightarrow> collection \<Rightarrow> court_candidate \<Rightarrow> court_candidate" where
  "merged_status ids c m = (if \<exists>i\<in>set ids. cl_selected c = Some i then m\<lparr>cc_status := ReviewSelected\<rparr> else m)"

definition merge_outcome :: "generation \<Rightarrow> string list \<Rightarrow> collection \<Rightarrow> court_candidate \<Rightarrow> court_candidate \<Rightarrow> court_candidate \<Rightarrow> collection \<times> report_step" where
  "merge_outcome g ids c x y m =
     (let was_selected = (\<exists>i\<in>set ids. cl_selected c = Some i); merged = merged_status ids c m in
      (c\<lparr>cl_candidates := sort_key candidate_rank (filter (\<lambda>z. pc_id z \<notin> set ids) (cl_candidates c) @ [merged]),
         cl_selected := (if was_selected then Some (pc_id merged) else cl_selected c),
         cl_decisions := cl_decisions c @ [decision_for g (cl_analysis c) ids (merge_tracks x y)],
         cl_readiness := None, cl_updated := gn_now g\<rparr>,
       if was_selected then ReportSelection merged else KeepReport))"

definition merging :: "generation \<Rightarrow> string list \<Rightarrow> candidate_files \<Rightarrow> candidate_error + collection \<times> report_step" where
  "merging g ids fs =
     bindE (requireE (length ids = 2 \<and> distinct ids) (ImpossibleMerge ''Exactly two distinct candidates are required.'')) (\<lambda>_.
     bindE (load_current fs) (\<lambda>c.
     bindE (find_active c (ids ! 0)) (\<lambda>x.
     bindE (find_active c (ids ! 1)) (\<lambda>y.
     bindE (load_observations fs) (\<lambda>obs.
     bindE (validate_manual_merge x y obs) (\<lambda>_.
     bindE (load_video fs) (\<lambda>v.
     bindE (merged_candidate g (cl_analysis c) obs v (merge_tracks x y)) (\<lambda>m.
     bindE (requireE (pc_eligible m)
       (ImpossibleMerge ''The combined candidate does not meet the existing player eligibility checks.'')) (\<lambda>_.
     Inr (merge_outcome g ids c x y m))))))))))"

definition merge_candidates :: "generation \<Rightarrow> string list \<Rightarrow> candidate_files \<Rightarrow> (candidate_error + collection) \<times> candidate_files" where
  "merge_candidates g ids fs = reviewed (gn_now g) fs (merging g ids fs)"

definition undone :: "time \<Rightarrow> string \<Rightarrow> merge_decision list \<Rightarrow> merge_decision list" where
  "undone now i = map (\<lambda>d. if md_id d = i then d\<lparr>md_active := False, md_undone := Some now\<rparr> else d)"

definition active_merge :: "collection \<Rightarrow> string \<Rightarrow> merge_decision option" where
  "active_merge c i = find (\<lambda>d. md_active d \<and> md_merged d = i) (rev (cl_decisions c))"

text \<open>The collection without the decision, which is written before the candidates are generated again.\<close>

definition unmerging :: "time \<Rightarrow> string \<Rightarrow> collection \<Rightarrow> candidate_error + collection" where
  "unmerging now i c =
     (case active_merge c i of
        None \<Rightarrow> Inl (CandidateNotFound ''Active manual merge not found.'')
      | Some d \<Rightarrow> Inr (c\<lparr>cl_decisions := undone now (md_id d) (cl_decisions c),
          cl_selected := (if cl_selected c = Some i then None else cl_selected c), cl_readiness := None, cl_updated := now\<rparr>))"

definition unmerge_candidates :: "generation \<Rightarrow> string \<Rightarrow> candidate_files \<Rightarrow> (candidate_error + collection) \<times> candidate_files" where
  "unmerge_candidates g i fs =
     (case bindE (load_current fs) (\<lambda>c. bindE (unmerging (gn_now g) i c) (\<lambda>interim. Inr (c, interim))) of
        Inl e \<Rightarrow> (Inl e, fs)
      | Inr (c, interim) \<Rightarrow>
          (case write_collection fs interim of
             Inl e \<Rightarrow> (Inl e, fs)
           | Inr fs1 \<Rightarrow>
               (case load_report fs1 of
                  Inl e \<Rightarrow> (Inl e, fs1)
                | Inr report \<Rightarrow>
                    (case build_candidates g (cl_analysis c) report True fs1 of
                       (Inl e, fs2) \<Rightarrow> (Inl e, fs2)
                     | (Inr c', fs2) \<Rightarrow>
                         (case update_report (gn_now g) (if cl_selected c = Some i then ClearReport else KeepReport) fs2 of
                            Inl e \<Rightarrow> (Inl e, fs2) | Inr fs3 \<Rightarrow> (Inr c', fs3))))))"

end
