(* ===== verification/Candidate_Laws.thy ===== *)
theory Candidate_Laws
  imports Candidate_Review "HOL-Library.Multiset"
begin

text \<open>
  Laws of the generation of candidates: what the joining of fragments keeps, what a
  candidate measures, and what the selection policy keeps.
\<close>

section \<open>Groups of pairwise compatible members\<close>

locale compatible_groups =
  fixes fits :: "'a \<Rightarrow> 'a \<Rightarrow> bool"
  assumes fits_sym: "fits i j \<Longrightarrow> fits j i"
begin

lemma union_fits:
  assumes "pairwise fits A" and "pairwise fits B" and "\<And>i j. i \<in> A \<Longrightarrow> j \<in> B \<Longrightarrow> fits i j"
  shows "pairwise fits (A \<union> B)"
  using assms fits_sym unfolding pairwise_def by blast

lemma chain_fits:
  assumes "\<And>G. G \<in> \<C> \<Longrightarrow> pairwise fits G" and "\<And>G H. G \<in> \<C> \<Longrightarrow> H \<in> \<C> \<Longrightarrow> G \<noteq> H \<Longrightarrow> (\<forall>i\<in>G. \<forall>j\<in>H. fits i j)"
  shows "pairwise fits (\<Union>\<C>)"
  using assms unfolding pairwise_def by blast

end

lemma apart_sym: "apart fs i j \<Longrightarrow> apart fs j i"
  by (auto simp: apart_def opposite_sides_def min.commute max.commute insert_commute split: option.splits)

interpretation fragment_pairs: compatible_groups "apart fs" for fs
  by unfold_locales (rule apart_sym)

section \<open>Fragments\<close>

definition fragments_ok :: "fragments \<Rightarrow> bool" where
  "fragments_ok fs \<longleftrightarrow> distinct (map fst fs) \<and> (\<forall>(t, f)\<in>set fs. fr_track f = t)"

lemma fragments_ok_build: "fragments_ok (build_fragments obs)"
  by (auto simp: fragments_ok_def build_fragments_def fragment_of_def Let_def comp_def)

lemma fragments_ok_attach: "fragments_ok fs \<Longrightarrow> fragments_ok (attach_descriptors m fs)"
  by (auto simp: fragments_ok_def attach_descriptors_def comp_def split_beta)

lemma keys_build: "fst ` set (build_fragments obs) = ob_track ` set obs"
  by (force simp: build_fragments_def)

lemma keys_attach: "fst ` set (attach_descriptors m fs) = fst ` set fs"
  by (force simp: attach_descriptors_def split_beta)

lemma fragments_at:
  assumes "fragments_ok fs" and "f \<in> snd ` set fs"
  shows "map_of fs (fr_track f) = Some f"
  using assms by (auto simp: fragments_ok_def)

section \<open>Edges\<close>

lemma association_evidence_ends:
  "association_evidence f g = Some e \<Longrightarrow> me_from e = fr_track f \<and> me_to e = fr_track g"
  by (auto simp: association_evidence_def Let_def split: if_splits)

definition plausible_edge :: "fragments \<Rightarrow> merge_evidence \<Rightarrow> bool" where
  "plausible_edge fs e \<longleftrightarrow> (\<exists>f g. map_of fs (me_from e) = Some f \<and> map_of fs (me_to e) = Some g
     \<and> association_evidence f g = Some e)"

lemma in_map_filter_id: "e \<in> set (List.map_filter id xs) \<longleftrightarrow> Some e \<in> set xs"
  by (auto simp: map_filter_def image_iff intro: bexI [rotated])

lemma edges_plausible:
  assumes "fragments_ok fs" and "e \<in> set (association_edges fs)"
  shows "plausible_edge fs e"
proof -
  from assms(2) obtain f g where fg: "f \<in> snd ` set fs" "g \<in> snd ` set fs" and e: "association_evidence f g = Some e"
    by (fastforce simp: association_edges_def Let_def in_map_filter_id eq_commute [of "Some _"] split: if_splits)
  from fragments_at [OF assms(1) fg(1)] fragments_at [OF assms(1) fg(2)] association_evidence_ends [OF e] e
  show ?thesis by (auto simp: plausible_edge_def)
qed

section \<open>The state of the association\<close>

definition link :: "merge_evidence list \<Rightarrow> (int \<times> int) set" where
  "link es = {(me_from e, me_to e) | e. e \<in> set es} \<union> {(me_to e, me_from e) | e. e \<in> set es}"

text \<open>A group with the evidence that joined it: as many edges as a tree needs, and they connect it.\<close>

definition joined :: "fragments \<Rightarrow> int set \<Rightarrow> merge_evidence list \<Rightarrow> bool" where
  "joined fs A es \<longleftrightarrow> length es + 1 = card A
     \<and> (\<forall>e\<in>set es. me_from e \<in> A \<and> me_to e \<in> A \<and> plausible_edge fs e) \<and> (\<forall>i\<in>A. \<forall>j\<in>A. (i, j) \<in> (link es)\<^sup>*)"

definition group_ok :: "fragments \<Rightarrow> association \<Rightarrow> int \<Rightarrow> int set \<Rightarrow> bool" where
  "group_ok fs s r A \<longleftrightarrow> r \<in> A \<and> A \<subseteq> fst ` set fs \<and> (\<forall>t\<in>A. as_root s t = Some r) \<and> pairwise (apart fs) A
     \<and> (\<exists>es. as_evidence s r = Some es \<and> joined fs A es)"

definition association_ok :: "fragments \<Rightarrow> association \<Rightarrow> bool" where
  "association_ok fs s \<longleftrightarrow>
     (\<forall>t\<in>fst ` set fs. \<exists>r A. as_root s t = Some r \<and> as_groups s r = Some A \<and> t \<in> A)
     \<and> (\<forall>r A. as_groups s r = Some A \<longrightarrow> group_ok fs s r A)"

lemma joined_union:
  assumes A: "joined fs A es" and B: "joined fs B es'" and disj: "A \<inter> B = {}" and fin: "finite A" "finite B"
    and e: "me_from e \<in> A" "me_to e \<in> B" "plausible_edge fs e"
  shows "joined fs (A \<union> B) (es @ es' @ [e])"
proof -
  let ?R = "(link (es @ es' @ [e]))\<^sup>*"
  have sub: "link es \<subseteq> link (es @ es' @ [e])" "link es' \<subseteq> link (es @ es' @ [e])" by (auto simp: link_def)
  have inA: "(i, j) \<in> ?R" if "i \<in> A" "j \<in> A" for i j
    using A that rtrancl_mono [OF sub(1)] by (auto simp: joined_def)
  have inB: "(i, j) \<in> ?R" if "i \<in> B" "j \<in> B" for i j
    using B that rtrancl_mono [OF sub(2)] by (auto simp: joined_def)
  have e1: "(me_from e, me_to e) \<in> ?R" "(me_to e, me_from e) \<in> ?R" by (auto simp: link_def)
  have across: "(i, j) \<in> ?R" "(j, i) \<in> ?R" if "i \<in> A" "j \<in> B" for i j
    using inA [OF that(1) e(1)] inA [OF e(1) that(1)] inB [OF e(2) that(2)] inB [OF that(2) e(2)] e1
    by (meson rtrancl_trans)+
  have "card (A \<union> B) = card A + card B" by (rule card_Un_disjoint [OF fin disj])
  with A B e inA inB across show ?thesis by (auto simp: joined_def)
qed

lemma group_ok_finite: "group_ok fs s r A \<Longrightarrow> finite A"
  by (auto simp: group_ok_def intro: finite_subset)

lemma start_association_ok:
  assumes "fragments_ok fs"
  shows "association_ok fs (start_association fs)"
proof -
  have m: "map_of (map (\<lambda>(t, _). (t, h t)) fs) t = (if t \<in> fst ` set fs then Some (h t) else None)" for h :: "int \<Rightarrow> 'z" and t
    by (induction fs) auto
  show ?thesis
    unfolding association_ok_def group_ok_def start_association_def m association.simps
    by (auto simp: joined_def)
qed

lemma join_groups_ok:
  assumes ok: "association_ok fs s" and r: "as_groups s a = Some A" "as_groups s b = Some B" and ab: "a \<noteq> b"
    and fit: "groups_compatible fs A B" and e: "me_from e \<in> A" "me_to e \<in> B" "plausible_edge fs e"
  shows "association_ok fs (join_groups s a b e)"
proof -
  let ?s = "join_groups s a b e" and ?k = "min a b" and ?x = "max a b"
  from ok r have A: "group_ok fs s a A" and B: "group_ok fs s b B" by (auto simp: association_ok_def)
  have disj: "A \<inter> B = {}" using A B ab by (auto simp: group_ok_def)
  have fin: "finite A" "finite B" using A B by (auto dest: group_ok_finite)
  obtain es es' where es: "as_evidence s a = Some es" "joined fs A es" and es': "as_evidence s b = Some es'" "joined fs B es'"
    using A B by (auto simp: group_ok_def)
  have g: "as_groups ?s q = (if q = ?x then None else if q = ?k then Some (A \<union> B) else as_groups s q)"
    and v: "as_evidence ?s q = (if q = ?x then None else if q = ?k then Some (es @ es' @ [e]) else as_evidence s q)"
    and t: "as_root ?s q = (if q \<in> A \<union> B then Some ?k else as_root s q)" for q
    using r es(1) es'(1) by (auto simp: join_groups_def Let_def)
  have kx: "?k \<noteq> ?x" using ab by (auto simp: min_def max_def)
  have kin: "?k \<in> A \<union> B" using A B by (auto simp: group_ok_def min_def)
  have pair: "pairwise (apart fs) (A \<union> B)"
    by (rule fragment_pairs.union_fits) (use A B fit in \<open>auto simp: group_ok_def groups_compatible_def\<close>)
  have merged: "group_ok fs ?s ?k (A \<union> B)"
    unfolding group_ok_def v t using A B kx kin pair joined_union [OF es(2) es'(2) disj fin e]
    by (auto simp: group_ok_def)
  have others: "group_ok fs ?s q C" if q: "as_groups s q = Some C" "q \<noteq> a" "q \<noteq> b" for q C
  proof -
    have C: "group_ok fs s q C" using ok q(1) by (auto simp: association_ok_def)
    have "C \<inter> A = {}" "C \<inter> B = {}" using A B C q by (auto simp: group_ok_def)
    moreover have "q \<noteq> ?x" "q \<noteq> ?k" using q by (auto simp: min_def max_def)
    ultimately show ?thesis using C unfolding group_ok_def v t by auto
  qed
  have "group_ok fs ?s q C" if "as_groups ?s q = Some C" for q C
  proof (cases "q = ?k")
    case True
    with that merged kx show ?thesis by (simp add: g)
  next
    case False
    with that have "as_groups s q = Some C" "q \<noteq> a" "q \<noteq> b" by (auto simp: g min_def max_def split: if_splits)
    then show ?thesis by (rule others)
  qed
  moreover have "\<exists>q C. as_root ?s i = Some q \<and> as_groups ?s q = Some C \<and> i \<in> C" if i: "i \<in> fst ` set fs" for i
  proof (cases "i \<in> A \<union> B")
    case True
    then show ?thesis using kx by (auto simp: t g)
  next
    case False
    from ok i obtain q C where q: "as_root s i = Some q" "as_groups s q = Some C" "i \<in> C" by (auto simp: association_ok_def)
    with r False have "q \<noteq> a" "q \<noteq> b" by auto
    then have "q \<noteq> ?x" "q \<noteq> ?k" by (auto simp: min_def max_def)
    with q False show ?thesis by (auto simp: t g)
  qed
  ultimately show ?thesis by (simp add: association_ok_def)
qed

lemma join_fragments_ok:
  assumes "association_ok fs s" and e: "plausible_edge fs e"
  shows "association_ok fs (join_fragments fs edges s e)"
proof -
  from e have "me_from e \<in> fst ` set fs" "me_to e \<in> fst ` set fs"
    by (auto simp: plausible_edge_def image_iff dest!: map_of_SomeD intro: bexI [rotated])
  with assms(1) obtain a A b B where "as_root s (me_from e) = Some a" "as_groups s a = Some A" "me_from e \<in> A"
    "as_root s (me_to e) = Some b" "as_groups s b = Some B" "me_to e \<in> B"
    by (meson association_ok_def)
  with assms show ?thesis by (auto simp: join_fragments_def Let_def intro: join_groups_ok)
qed

lemma final_association_ok:
  assumes "fragments_ok fs"
  shows "association_ok fs (final_association fs)"
proof -
  have "association_ok fs (foldl (join_fragments fs edges) s es)"
    if "association_ok fs s" "\<forall>e\<in>set es. plausible_edge fs e" for edges s es
    using that by (induction es arbitrary: s) (auto intro: join_fragments_ok)
  with start_association_ok [OF assms] edges_plausible [OF assms] show ?thesis
    by (auto simp: final_association_def Let_def)
qed

section \<open>The groups\<close>

definition coherent_group :: "fragments \<Rightarrow> candidate_group \<Rightarrow> bool" where
  "coherent_group fs g \<longleftrightarrow> cg_tracks g \<noteq> [] \<and> sorted_wrt (<) (cg_tracks g) \<and> pairwise (apart fs) (set (cg_tracks g))
     \<and> joined fs (set (cg_tracks g)) (cg_evidence g)"

lemma joined_set: "set es = set es' \<Longrightarrow> length es = length es' \<Longrightarrow> joined fs A es = joined fs A es'"
  by (simp add: joined_def link_def)

lemma associate_groups:
  assumes ok: "fragments_ok fs"
  shows "list_all (coherent_group fs) (associate_fragments fs)"
    and "distinct (concat (map cg_tracks (associate_fragments fs)))"
    and "set (concat (map cg_tracks (associate_fragments fs))) = fst ` set fs"
proof -
  let ?s = "final_association fs"
  let ?roots = "filter (\<lambda>t. as_groups ?s t \<noteq> None) (map fst fs)"
  let ?G = "\<lambda>r. the (as_groups ?s r)"
  let ?sorted = "sort_key (\<lambda>r. Min (?G r)) ?roots"
  note inv = final_association_ok [OF ok]
  have G: "group_ok fs ?s r (?G r)" if "r \<in> set ?roots" for r
    using inv that by (auto simp: association_ok_def)
  have gs: "associate_fragments fs = map (group_at ?s) ?sorted" by (simp add: associate_fragments_def Let_def)
  have fin: "finite (?G r)" if "r \<in> set ?roots" for r using G [OF that] by (rule group_ok_finite)
  have "coherent_group fs (group_at ?s r)" if r: "r \<in> set ?roots" for r
  proof -
    from G [OF r] obtain es where es: "as_evidence ?s r = Some es" "joined fs (?G r) es" by (auto simp: group_ok_def)
    then have "joined fs (?G r) (sort_key (\<lambda>e. (me_from e, me_to e)) es)"
      using joined_set [of "sort_key (\<lambda>e. (me_from e, me_to e)) es" es] by simp
    moreover have "?G r \<noteq> {}" "pairwise (apart fs) (?G r)" using G [OF r] by (auto simp: group_ok_def)
    ultimately show ?thesis using fin [OF r] es(1)
      by (simp add: coherent_group_def group_at_def)
  qed
  then show "list_all (coherent_group fs) (associate_fragments fs)" by (auto simp: gs list_all_iff)
  have tracks: "map cg_tracks (associate_fragments fs) = map (\<lambda>r. sorted_list_of_set (?G r)) ?sorted"
    by (simp add: gs group_at_def)
  have disj: "?G q \<inter> ?G r = {}" if "q \<in> set ?roots" "r \<in> set ?roots" "q \<noteq> r" for q r
    using G [OF that(1)] G [OF that(2)] that(3) by (auto simp: group_ok_def)
  have ne: "?G r \<noteq> {}" if "r \<in> set ?roots" for r using G [OF that] by (auto simp: group_ok_def)
  have inj: "inj_on (\<lambda>r. sorted_list_of_set (?G r)) (set ?roots)"
  proof (rule inj_onI)
    fix q r assume q: "q \<in> set ?roots" and r: "r \<in> set ?roots" and eq: "sorted_list_of_set (?G q) = sorted_list_of_set (?G r)"
    then have "?G q = ?G r" using fin by (metis sorted_list_of_set.set_sorted_key_list_of_set)
    with disj [OF q r] ne [OF q] show "q = r" by auto
  qed
  have keys: "distinct ?roots" using ok by (simp add: fragments_ok_def)
  show "distinct (concat (map cg_tracks (associate_fragments fs)))"
    unfolding tracks
  proof (rule distinct_concat)
    show "distinct (map (\<lambda>r. sorted_list_of_set (?G r)) ?sorted)" using inj keys by (simp add: distinct_map)
  next
    fix ys assume "ys \<in> set (map (\<lambda>r. sorted_list_of_set (?G r)) ?sorted)"
    then show "distinct ys" by auto
  next
    fix ys zs assume "ys \<in> set (map (\<lambda>r. sorted_list_of_set (?G r)) ?sorted)"
      "zs \<in> set (map (\<lambda>r. sorted_list_of_set (?G r)) ?sorted)" "ys \<noteq> zs"
    then obtain q r where "q \<in> set ?roots" "r \<in> set ?roots" "ys = sorted_list_of_set (?G q)" "zs = sorted_list_of_set (?G r)"
      unfolding set_map set_sort by blast
    with \<open>ys \<noteq> zs\<close> have "q \<in> set ?roots" "r \<in> set ?roots" "ys = sorted_list_of_set (?G q)" "zs = sorted_list_of_set (?G r)" "q \<noteq> r"
      by auto
    with disj fin show "set ys \<inter> set zs = {}" by simp
  qed
  have "set (concat (map cg_tracks (associate_fragments fs))) = (\<Union>r\<in>set ?roots. ?G r)"
    unfolding tracks using fin by simp
  also have "\<dots> = fst ` set fs"
  proof
    show "(\<Union>r\<in>set ?roots. ?G r) \<subseteq> fst ` set fs" using G by (auto simp: group_ok_def simp del: set_map)
  next
    show "fst ` set fs \<subseteq> (\<Union>r\<in>set ?roots. ?G r)"
    proof
      fix t assume "t \<in> fst ` set fs"
      with inv obtain r A where r: "as_root ?s t = Some r" "as_groups ?s r = Some A" "t \<in> A"
        unfolding association_ok_def by blast
      with inv have "group_ok fs ?s r A" by (simp add: association_ok_def)
      then have "r \<in> fst ` set fs" unfolding group_ok_def by blast
      with r show "t \<in> (\<Union>r\<in>set ?roots. ?G r)" by force
    qed
  qed
  finally show "set (concat (map cg_tracks (associate_fragments fs))) = fst ` set fs" .
qed

section \<open>Measurements\<close>

definition time_ordered :: "observation list \<Rightarrow> bool" where
  "time_ordered obs \<longleftrightarrow> sorted (map ob_time obs)"

definition frames_in_time :: "observation list \<Rightarrow> bool" where
  "frames_in_time obs \<longleftrightarrow> (\<forall>a\<in>set obs. \<forall>b\<in>set obs. ob_frame a \<le> ob_frame b \<longrightarrow> ob_time a \<le> ob_time b)"

lemma observed_duration_step:
  "observed_duration (a # b # xs) = (if supports_interval a b then ob_time b - ob_time a else 0) + observed_duration (b # xs)"
  by (simp add: observed_duration_def adjacent_def)

lemma observed_duration_short [simp]: "observed_duration [] = 0" "observed_duration [a] = 0"
  by (simp_all add: observed_duration_def adjacent_def)

lemma observed_duration_nonneg: "0 \<le> observed_duration obs"
  unfolding observed_duration_def by (rule sum_list_nonneg) (auto simp: supports_interval_def)

lemma observed_duration_bound:
  assumes "obs \<noteq> []" and "time_ordered obs"
  shows "observed_duration obs \<le> ob_time (last obs) - ob_time (hd obs)"
  using assms
proof (induction obs rule: induct_list012)
  case (3 a b xs)
  then have "observed_duration (b # xs) \<le> ob_time (last (b # xs)) - ob_time b" and "ob_time a \<le> ob_time b"
    by (simp_all add: time_ordered_def)
  then show ?case by (simp add: observed_duration_step)
qed simp_all

lemma ordered_span: "obs \<noteq> [] \<Longrightarrow> time_ordered obs \<Longrightarrow> ob_time (hd obs) \<le> ob_time (last obs)"
  by (cases obs) (auto simp: time_ordered_def)

lemma hypot_nonneg [simp]: "0 \<le> hypot x y"
  by (simp add: hypot_def square_root_def)

lemma distance_nonneg [simp]: "0 \<le> distance a b"
  by (simp add: distance_def)

lemma court_distance_nonneg: "0 \<le> court_distance fs tracks"
  unfolding court_distance_def by (rule sum_list_nonneg) (auto simp: court_steps_def)

lemma in_court_ratio_bounds: "0 \<le> in_court_ratio obs" "in_court_ratio obs \<le> 1"
  by (simp_all add: in_court_ratio_def divide_le_eq)

lemma mean_nonneg: "(\<And>x. x \<in> set xs \<Longrightarrow> 0 \<le> x) \<Longrightarrow> 0 \<le> mean xs"
  by (simp add: mean_def sum_list_nonneg)

lemma sort_key_prefix:
  fixes k :: "'a \<Rightarrow> 'k::linorder" and h :: "'a \<Rightarrow> 'l::linorder"
  assumes "\<And>a b. k a \<le> k b \<Longrightarrow> h a \<le> h b"
  shows "sorted (map h (sort_key k xs))"
  using sorted_sort_key [of k xs] assms unfolding sorted_map by (auto elim: sorted_wrt_mono_rel [rotated])

lemma group_observations_ordered: "time_ordered (group_observations fs tracks)"
  unfolding time_ordered_def group_observations_def by (rule sort_key_prefix) auto

lemma set_group_observations: "set (group_observations fs tracks) = (\<Union>t\<in>set tracks. set (fragment_observations fs t))"
  by (simp add: group_observations_def)

lemma frame_winner_in:
  assumes "n \<in> ob_frame ` set obs"
  shows "frame_winner obs n \<in> set obs \<and> ob_frame (frame_winner obs n) = n"
proof -
  from assms have "filter (\<lambda>b. ob_frame b = n) obs \<noteq> []" by (auto simp: filter_empty_conv)
  then obtain b where "greatest (\<lambda>b. (ob_confidence b, - ob_track b)) (filter (\<lambda>b. ob_frame b = n) obs) = Some b"
    by (meson greatest_None not_None_eq)
  then show ?thesis using greatest_Some by (fastforce simp: frame_winner_def best_by_def)
qed

lemma one_per_frame_subset: "set (one_per_frame obs) \<subseteq> set obs"
  using frame_winner_in by (auto simp: one_per_frame_def)

lemma one_per_frame_empty [simp]: "one_per_frame obs = [] \<longleftrightarrow> obs = []"
  by (metis length_0_conv length_map length_sort list.map_disc_iff one_per_frame_def remdups_eq_nil_iff)

lemma one_per_frame_ordered:
  assumes "frames_in_time obs"
  shows "time_ordered (one_per_frame obs)"
proof -
  let ?ns = "sort (remdups (map ob_frame obs))"
  have "sorted_wrt (\<lambda>m n. ob_time (frame_winner obs m) \<le> ob_time (frame_winner obs n)) ?ns"
  proof (rule sorted_wrt_mono_rel [of _ "(\<le>)"])
    fix m n assume "m \<in> set ?ns" "n \<in> set ?ns" "m \<le> n"
    then have "m \<in> ob_frame ` set obs" "n \<in> ob_frame ` set obs" by auto
    with frame_winner_in [OF this(1)] frame_winner_in [OF this(2)] \<open>m \<le> n\<close> assms
    show "ob_time (frame_winner obs m) \<le> ob_time (frame_winner obs n)" by (auto simp: frames_in_time_def)
  qed simp
  then show ?thesis by (simp add: time_ordered_def one_per_frame_def sorted_map sorted_wrt_map)
qed

section \<open>Candidates of observed fragments\<close>

text \<open>Fragments cut out of a list of observations.\<close>

definition cut_from :: "observation list \<Rightarrow> fragments \<Rightarrow> bool" where
  "cut_from obs fs \<longleftrightarrow> (\<forall>t f. map_of fs t = Some f \<longrightarrow> fr_observations f \<noteq> [] \<and> set (fr_observations f) \<subseteq> set obs)"

lemma map_of_build:
  "map_of (build_fragments obs) t = (if t \<in> ob_track ` set obs then Some (fragment_of t (track_items obs t)) else None)"
  by (simp add: build_fragments_def map_of_map_restrict restrict_map_def)

lemma map_of_attach:
  "map_of (attach_descriptors m fs) t = (if fs = [] \<or> \<not> md_file m \<or> \<not> md_opened m then map_of fs t
     else map_option (\<lambda>f. f\<lparr>fr_appearance := described m f\<rparr>) (map_of fs t))"
proof -
  have "map_of (map (\<lambda>(t, f). (t, g f)) fs) t = map_option g (map_of fs t)" for g :: "fragment \<Rightarrow> fragment"
    by (induction fs) auto
  then show ?thesis by (simp add: attach_descriptors_def)
qed

lemma cut_from_build: "cut_from obs (build_fragments obs)"
proof -
  have "track_items obs t \<noteq> []" if "t \<in> ob_track ` set obs" for t
    using that by (metis (mono_tags, lifting) filter_empty_conv image_iff length_0_conv length_sort track_items_def)
  then show ?thesis by (auto simp: cut_from_def map_of_build fragment_of_def Let_def track_items_def)
qed

lemma cut_from_attach: "cut_from obs fs \<Longrightarrow> cut_from obs (attach_descriptors m fs)"
  unfolding cut_from_def map_of_attach by (auto split: if_splits simp del: split_paired_All) blast+

lemma candidate_observations_cut:
  assumes cut: "cut_from obs fs" and tracks: "tracks \<noteq> []" "set tracks \<subseteq> fst ` set fs"
  shows "candidate_observations fs tracks merge \<noteq> []" "set (candidate_observations fs tracks merge) \<subseteq> set obs"
    "merge = None \<or> frames_in_time obs \<Longrightarrow> time_ordered (candidate_observations fs tracks merge)"
proof -
  have ob: "fragment_observations fs t \<noteq> []" "set (fragment_observations fs t) \<subseteq> set obs" if "t \<in> set tracks" for t
  proof -
    from that tracks(2) obtain f where "map_of fs t = Some f" by (metis map_of_eq_None_iff not_None_eq subset_iff)
    with cut show "fragment_observations fs t \<noteq> []" "set (fragment_observations fs t) \<subseteq> set obs"
      by (auto simp: cut_from_def fragment_observations_def)
  qed
  from tracks(1) have t: "hd tracks \<in> set tracks" by simp
  let ?g = "group_observations fs tracks"
  have g: "?g \<noteq> []" "set ?g \<subseteq> set obs"
  proof -
    have "set ?g \<noteq> {}" using ob(1) [OF t] t by (auto simp: set_group_observations)
    then show "?g \<noteq> []" by auto
    show "set ?g \<subseteq> set obs" using ob(2) by (auto simp: set_group_observations)
  qed
  then have "set (one_per_frame ?g) \<subseteq> set obs" using one_per_frame_subset by blast
  with g show "candidate_observations fs tracks merge \<noteq> []" "set (candidate_observations fs tracks merge) \<subseteq> set obs"
    by (auto simp: candidate_observations_def Let_def)
  assume m: "merge = None \<or> frames_in_time obs"
  show "time_ordered (candidate_observations fs tracks merge)"
  proof (cases "merge = None")
    case True
    then show ?thesis by (simp add: candidate_observations_def group_observations_ordered)
  next
    case False
    with m have "frames_in_time obs" by simp
    with g(2) have "frames_in_time ?g" unfolding frames_in_time_def by blast
    with False show ?thesis by (simp add: candidate_observations_def Let_def one_per_frame_ordered group_observations_ordered)
  qed
qed

lemma box_area_nonneg: "valid_observation b \<Longrightarrow> 0 \<le> box_area (ob_box b)"
  by (simp add: valid_observation_def box_area_def box_width_def box_height_def)

lemma mean_area_ratio_nonneg: "list_all valid_observation obs \<Longrightarrow> 0 \<le> mean_area_ratio v obs"
  by (auto simp: mean_area_ratio_def Let_def list_all_iff box_area_nonneg simp del: of_int_mult intro!: divide_nonneg_nonneg mean_nonneg)

lemma built_candidate_columns:
  "pc_tracks (build_candidate i g merge) = cg_tracks g"
  "pc_id (build_candidate i g merge) = candidate_id (bi_sha i) (bi_analysis i) (cg_tracks g)"
  "cc_merge (build_candidate i g merge) = merge"
  "cc_status (build_candidate i g merge) = ReviewPending"
  "cc_rejection (build_candidate i g merge) = None"
  "pc_eligible (build_candidate i g merge) \<longleftrightarrow> cc_exclusions (build_candidate i g merge) = []"
  by (simp_all add: build_candidate_def Let_def)

lemma built_candidate_valid:
  assumes cut: "cut_from obs (bi_fragments i)" and v: "list_all valid_observation obs"
    and tracks: "cg_tracks g \<noteq> []" "distinct (cg_tracks g)" "set (cg_tracks g) \<subseteq> fst ` set (bi_fragments i)"
    and m: "merge = None \<or> frames_in_time obs"
  shows "valid_candidate (build_candidate i g merge)"
    and "pc_observed (build_candidate i g merge) \<le> pc_last (build_candidate i g merge) - pc_first (build_candidate i g merge)"
proof -
  let ?obs = "candidate_observations (bi_fragments i) (cg_tracks g) merge"
  note c = candidate_observations_cut [OF cut tracks(1, 3), where merge = merge]
  have valid: "list_all valid_observation ?obs" using v c(2) by (auto simp: list_all_iff)
  note bound = observed_duration_bound [OF c(1) c(3) [OF m]] and span = ordered_span [OF c(1) c(3) [OF m]]
  have times: "0 \<le> ob_time (hd ?obs)" "0 \<le> ob_time (last ?obs)"
    using valid c(1) by (auto simp: list_all_iff valid_observation_def)
  have boxes: "0 \<le> mean (map (\<lambda>b. box_width (ob_box b)) ?obs)" "0 \<le> mean (map (\<lambda>b. box_height (ob_box b)) ?obs)"
    using valid by (auto simp: list_all_iff valid_observation_def box_width_def box_height_def less_imp_le intro!: mean_nonneg)
  have rate: "0 \<le> movement_rate (court_distance (bi_fragments i) (cg_tracks g)) (observed_duration ?obs)"
    by (simp add: movement_rate_def court_distance_nonneg observed_duration_nonneg)
  show "valid_candidate (build_candidate i g merge)"
    using tracks span times boxes rate mean_area_ratio_nonneg [OF valid] in_court_ratio_bounds court_distance_nonneg observed_duration_nonneg
    by (simp add: valid_candidate_def build_candidate_def Let_def)
  show "pc_observed (build_candidate i g merge) \<le> pc_last (build_candidate i g merge) - pc_first (build_candidate i g merge)"
    using bound by (simp add: build_candidate_def Let_def)
qed

section \<open>The selection policy\<close>

lemma candidate_rank_id: "candidate_rank x = candidate_rank y \<Longrightarrow> pc_id x = pc_id y"
  by (simp add: candidate_rank_def)

lemma rank_outside [simp]: "candidate_rank (outside_top_four x) = candidate_rank x"
  by (simp add: candidate_rank_def outside_top_four_def)

lemma outside_columns [simp]:
  "pc_id (outside_top_four x) = pc_id x" "pc_tracks (outside_top_four x) = pc_tracks x"
  "\<not> pc_eligible (outside_top_four x)" "cc_status (outside_top_four x) = cc_status x"
  "valid_candidate x \<Longrightarrow> valid_candidate (outside_top_four x)"
  by (simp_all add: outside_top_four_def valid_candidate_def)

lemma by_id_unique: "distinct (map pc_id xs) \<Longrightarrow> x \<in> set xs \<Longrightarrow> y \<in> set xs \<Longrightarrow> pc_id x = pc_id y \<Longrightarrow> x = y"
  by (auto simp: distinct_map dest: inj_onD)

text \<open>The first \<open>n\<close> of a ranking come strictly before the others.\<close>

lemma ranking_front:
  assumes d: "distinct (map pc_id xs)" and x: "x \<in> set xs" "x \<notin> set (take n (sort_key candidate_rank xs))"
    and y: "y \<in> set (take n (sort_key candidate_rank xs))"
  shows "candidate_rank y < candidate_rank x"
proof -
  let ?s = "sort_key candidate_rank xs"
  have "x \<in> set (take n ?s @ drop n ?s)" using x(1) by (simp only: append_take_drop_id set_sort)
  then have x': "x \<in> set (drop n ?s)" using x(2) unfolding set_append by blast
  have y': "y \<in> set xs" using y set_take_subset [of n ?s] by auto
  have "sorted (map candidate_rank (take n ?s @ drop n ?s))" by (simp only: append_take_drop_id sorted_sort_key)
  then have "candidate_rank y \<le> candidate_rank x" using x' y by (auto simp: sorted_append simp del: append_take_drop_id)
  moreover have "candidate_rank y \<noteq> candidate_rank x"
    using candidate_rank_id by_id_unique [OF d y' x(1)] x(2) y by metis
  ultimately show ?thesis by simp
qed

lemma ranking_ids:
  assumes d: "distinct (map pc_id xs)" and n: "n \<le> length xs"
  shows "card (pc_id ` set (take n (sort_key candidate_rank xs))) = n"
    and "pc_id ` set (take n (sort_key candidate_rank xs)) \<subseteq> pc_id ` set xs"
proof -
  let ?s = "sort_key candidate_rank xs"
  have "distinct (map pc_id ?s)" using d by (auto simp: distinct_map)
  then have "distinct (map pc_id (take n ?s))" by (simp only: take_map [symmetric] distinct_take)
  from distinct_card [OF this] n show "card (pc_id ` set (take n ?s)) = n" by simp
  show "pc_id ` set (take n ?s) \<subseteq> pc_id ` set xs" using set_take_subset [of n ?s] by auto
qed

text \<open>What \<open>kept_ids\<close> does: the front of the ranking, where the last gives its place to the chosen one.\<close>

lemma kept_ids_cases:
  assumes d: "distinct (map pc_id xs)" and long: "at_max_selectable thresholds < length xs"
  obtains (front) "kept_ids xs chosen = pc_id ` set (take 4 (sort_key candidate_rank xs))"
      "\<And>c. c \<in> set xs \<Longrightarrow> Some (pc_id c) = chosen \<Longrightarrow> pc_id c \<in> kept_ids xs chosen"
    | (replaced) c w where "c \<in> set xs" "Some (pc_id c) = chosen" "pc_id c \<notin> pc_id ` set (take 4 (sort_key candidate_rank xs))"
      "w \<in> set (take 4 (sort_key candidate_rank xs))"
      "\<And>y. y \<in> set (take 4 (sort_key candidate_rank xs)) \<Longrightarrow> candidate_rank y \<le> candidate_rank w"
      "kept_ids xs chosen = insert (pc_id c) (pc_id ` set (take 4 (sort_key candidate_rank xs)) - {pc_id w})"
proof -
  have four: "at_max_selectable thresholds = 4" by (simp add: thresholds_def)
  let ?top = "take 4 (sort_key candidate_rank xs)"
  let ?kept = "pc_id ` set ?top"
  have top_in: "y \<in> set xs" if "y \<in> set ?top" for y using that set_take_subset [of 4 "sort_key candidate_rank xs"] by auto
  show thesis
  proof (cases "find (\<lambda>c. Some (pc_id c) = chosen) xs")
    case None
    then have "kept_ids xs chosen = ?kept" by (simp add: kept_ids_def Let_def four)
    with None show thesis by (intro front) (auto simp: find_None_all)
  next
    case (Some c)
    then have c: "c \<in> set xs" "Some (pc_id c) = chosen" by (auto dest: find_Some_in)
    show thesis
    proof (cases "pc_id c \<in> ?kept")
      case True
      with Some have k: "kept_ids xs chosen = ?kept" by (simp add: kept_ids_def Let_def four)
      show thesis
      proof (rule front [OF k])
        fix z assume "z \<in> set xs" "Some (pc_id z) = chosen"
        with c have "pc_id z = pc_id c" by (metis option.inject)
        with True k show "pc_id z \<in> kept_ids xs chosen" by simp
      qed
    next
      case False
      let ?f = "filter (\<lambda>c. pc_id c \<in> ?kept) xs"
      have f: "set ?f = set ?top" using top_in by_id_unique [OF d] by auto
      have "length ?top \<noteq> 0" using long by (simp add: thresholds_def)
      then have "?top \<noteq> []" by force
      then have "?f \<noteq> []" using f by (metis set_empty)
      then obtain w where w: "greatest candidate_rank ?f = Some w" by (meson greatest_None not_None_eq)
      with greatest_Some [OF w] f have "w \<in> set ?top" "\<And>y. y \<in> set ?top \<Longrightarrow> candidate_rank y \<le> candidate_rank w" by auto
      moreover have "kept_ids xs chosen = insert (pc_id c) (?kept - {pc_id w})"
        using Some False w by (simp add: kept_ids_def Let_def four best_by_def)
      ultimately show thesis using c False by (intro replaced)
    qed
  qed
qed

lemma kept_ids_facts:
  assumes d: "distinct (map pc_id xs)" and long: "at_max_selectable thresholds < length xs"
  shows kept_card: "card (kept_ids xs chosen) = 4"
    and kept_sub: "kept_ids xs chosen \<subseteq> pc_id ` set xs"
    and kept_chosen: "\<And>c. c \<in> set xs \<Longrightarrow> Some (pc_id c) = chosen \<Longrightarrow> pc_id c \<in> kept_ids xs chosen"
    and kept_best: "\<And>x y. x \<in> set xs \<Longrightarrow> pc_id x \<notin> kept_ids xs chosen \<Longrightarrow> y \<in> set xs \<Longrightarrow> pc_id y \<in> kept_ids xs chosen
      \<Longrightarrow> Some (pc_id y) \<noteq> chosen \<Longrightarrow> candidate_rank y < candidate_rank x"
proof -
  let ?top = "take 4 (sort_key candidate_rank xs)"
  have len: "4 \<le> length xs" using long by (simp add: thresholds_def)
  note ids = ranking_ids [OF d len]
  have top_in: "y \<in> set xs" if "y \<in> set ?top" for y using that set_take_subset [of 4 "sort_key candidate_rank xs"] by auto
  have in_top: "y \<in> set ?top" if "y \<in> set xs" "pc_id y \<in> pc_id ` set ?top" for y
    using that top_in by_id_unique [OF d] by (metis (no_types, lifting) imageE)
  have "card (kept_ids xs chosen) = 4 \<and> kept_ids xs chosen \<subseteq> pc_id ` set xs
    \<and> (\<forall>c\<in>set xs. Some (pc_id c) = chosen \<longrightarrow> pc_id c \<in> kept_ids xs chosen)
    \<and> (\<forall>x\<in>set xs. \<forall>y\<in>set xs. pc_id x \<notin> kept_ids xs chosen \<longrightarrow> pc_id y \<in> kept_ids xs chosen
      \<longrightarrow> Some (pc_id y) \<noteq> chosen \<longrightarrow> candidate_rank y < candidate_rank x)"
  proof (cases rule: kept_ids_cases [OF d long, of chosen, case_names front replaced])
    case front
    have "candidate_rank y < candidate_rank x" if "x \<in> set xs" "y \<in> set xs" "pc_id x \<notin> kept_ids xs chosen" "pc_id y \<in> kept_ids xs chosen" for x y
      using ranking_front [OF d that(1), of 4 y] in_top [OF that(2)] that(3, 4) front(1) by auto
    with front ids show ?thesis by auto
  next
    case (replaced c w)
    have fin: "finite (pc_id ` set ?top)" by simp
    have w: "pc_id w \<in> pc_id ` set ?top" using replaced(4) by simp
    have "card (kept_ids xs chosen) = 4"
      using fin w replaced(3, 6) ids(1) by (simp add: card_insert_if)
    moreover have "kept_ids xs chosen \<subseteq> pc_id ` set xs" using ids(2) replaced(1, 6) by auto
    moreover have "pc_id z \<in> kept_ids xs chosen" if "Some (pc_id z) = chosen" for z
      using that replaced(2, 6) by (metis insertI1 option.inject)
    moreover have "candidate_rank y < candidate_rank x" if x: "x \<in> set xs" "pc_id x \<notin> kept_ids xs chosen"
      and y: "y \<in> set xs" "pc_id y \<in> kept_ids xs chosen" "Some (pc_id y) \<noteq> chosen" for x y
    proof -
      have "pc_id y \<noteq> pc_id c" using y(3) replaced(2) by auto
      then have yt: "y \<in> set ?top" "pc_id y \<noteq> pc_id w" using y in_top replaced(6) by auto
      show ?thesis
      proof (cases "x \<in> set ?top")
        case False
        show ?thesis by (rule ranking_front [OF d x(1) False yt(1)])
      next
        case True
        then have "pc_id x = pc_id w" using x(2) replaced(6) by auto
        then have "x = w" using by_id_unique [OF d x(1) top_in [OF replaced(4)]] by simp
        then have "candidate_rank y \<le> candidate_rank x" using replaced(5) yt(1) by simp
        moreover have "candidate_rank y \<noteq> candidate_rank x" using candidate_rank_id yt(2) \<open>pc_id x = pc_id w\<close> by metis
        ultimately show ?thesis by simp
      qed
    qed
    ultimately show ?thesis by blast
  qed
  then show "card (kept_ids xs chosen) = 4" "kept_ids xs chosen \<subseteq> pc_id ` set xs"
    "\<And>c. c \<in> set xs \<Longrightarrow> Some (pc_id c) = chosen \<Longrightarrow> pc_id c \<in> kept_ids xs chosen"
    "\<And>x y. x \<in> set xs \<Longrightarrow> pc_id x \<notin> kept_ids xs chosen \<Longrightarrow> y \<in> set xs \<Longrightarrow> pc_id y \<in> kept_ids xs chosen
      \<Longrightarrow> Some (pc_id y) \<noteq> chosen \<Longrightarrow> candidate_rank y < candidate_rank x"
    by blast+
qed

text \<open>The policy leaves a candidate as it is or makes it ineligible.\<close>

lemma policy_map: "\<exists>p. apply_selection_policy cs chosen = map (\<lambda>x. if p x then outside_top_four x else x) cs
    \<and> (\<forall>x. p x \<longrightarrow> pc_eligible x)"
proof (cases "length (filter pc_eligible cs) \<le> at_max_selectable thresholds")
  case True
  then show ?thesis by (intro exI [of _ "\<lambda>x. False"]) (simp add: apply_selection_policy_def Let_def)
next
  case False
  then show ?thesis
    by (intro exI [of _ "\<lambda>x. pc_eligible x \<and> pc_id x \<notin> kept_ids (filter pc_eligible cs) chosen"])
      (auto simp: apply_selection_policy_def Let_def)
qed

lemma policy_columns:
  "map pc_id (apply_selection_policy cs chosen) = map pc_id cs"
  "map pc_tracks (apply_selection_policy cs chosen) = map pc_tracks cs"
  "map candidate_rank (apply_selection_policy cs chosen) = map candidate_rank cs"
  "map cc_status (apply_selection_policy cs chosen) = map cc_status cs"
  "list_all valid_candidate cs \<Longrightarrow> list_all valid_candidate (apply_selection_policy cs chosen)"
  using policy_map [of cs chosen] by (auto simp: list_all_iff)

lemma policy_at_most_four:
  assumes d: "distinct (map pc_id cs)"
  shows "length (filter pc_eligible (apply_selection_policy cs chosen)) \<le> 4"
proof (cases "length (filter pc_eligible cs) \<le> at_max_selectable thresholds")
  case True
  then show ?thesis by (simp add: apply_selection_policy_def thresholds_def)
next
  case False
  let ?e = "filter pc_eligible cs"
  let ?k = "kept_ids ?e chosen"
  have de: "distinct (map pc_id ?e)" using d by (simp add: distinct_map_filter)
  have k: "card ?k = 4" "?k \<subseteq> pc_id ` set ?e" using kept_card [OF de] kept_sub [OF de] False by auto
  have "filter pc_eligible (apply_selection_policy cs chosen) = filter (\<lambda>x. pc_eligible x \<and> pc_id x \<in> ?k) cs"
  proof -
    have "filter pc_eligible (map (\<lambda>c. if \<not> pc_eligible c \<or> pc_id c \<in> K then c else outside_top_four c) xs)
        = filter (\<lambda>x. pc_eligible x \<and> pc_id x \<in> K) xs" for K xs
      by (induction xs) auto
    with False show ?thesis by (simp add: apply_selection_policy_def Let_def)
  qed
  moreover have "distinct (map pc_id (filter (\<lambda>x. pc_eligible x \<and> pc_id x \<in> ?k) cs))" using d by (rule distinct_map_filter)
  ultimately have "length (filter pc_eligible (apply_selection_policy cs chosen))
      = card (pc_id ` set (filter (\<lambda>x. pc_eligible x \<and> pc_id x \<in> ?k) cs))"
    by (metis distinct_card length_map set_map)
  also have "\<dots> \<le> card ?k"
    by (rule card_mono) (use k(2) in \<open>auto intro: finite_subset\<close>)
  finally show ?thesis by (simp add: k(1))
qed

lemma policy_eligible:
  assumes d: "distinct (map pc_id cs)" and x: "x \<in> set cs" "pc_eligible x" "Some (pc_id x) = chosen"
  shows "x \<in> set (apply_selection_policy cs chosen)"
proof (cases "length (filter pc_eligible cs) \<le> at_max_selectable thresholds")
  case True
  with x show ?thesis by (simp add: apply_selection_policy_def)
next
  case False
  have "distinct (map pc_id (filter pc_eligible cs))" using d by (simp add: distinct_map_filter)
  from kept_chosen [OF this, of x chosen] False x have "pc_id x \<in> kept_ids (filter pc_eligible cs) chosen" by auto
  with False x show ?thesis by (force simp: apply_selection_policy_def Let_def image_iff)
qed

text \<open>A candidate that loses its place ranks below every one that keeps it, the chosen one apart.\<close>

lemma policy_best:
  assumes d: "distinct (map pc_id cs)"
    and x: "x \<in> set cs" "pc_eligible x" "x \<notin> set (apply_selection_policy cs chosen)"
    and y: "y \<in> set (apply_selection_policy cs chosen)" "pc_eligible y" "Some (pc_id y) \<noteq> chosen"
  shows "candidate_rank y < candidate_rank x"
proof -
  let ?e = "filter pc_eligible cs"
  have long: "\<not> length ?e \<le> at_max_selectable thresholds" using x by (auto simp: apply_selection_policy_def)
  have de: "distinct (map pc_id ?e)" using d by (simp add: distinct_map_filter)
  have "pc_id x \<notin> kept_ids ?e chosen" using x long by (force simp: apply_selection_policy_def Let_def image_iff)
  moreover have "y \<in> set ?e" "pc_id y \<in> kept_ids ?e chosen"
    using y(1, 2) long by (auto simp: apply_selection_policy_def Let_def split: if_splits)
  ultimately show ?thesis using kept_best [OF de] long x(1, 2) y(3) by simp
qed

end
