(* ===== verification/Candidate_Invariant.thy ===== *)
theory Candidate_Invariant
  imports Candidate_Laws
begin

text \<open>
  What every operation of the review keeps: the membership of a collection, its order, and
  the selection. The operations are the steps of a transition system over the files of an
  analysis.
\<close>

section \<open>Well-formed collections\<close>

definition identified :: "(string \<Rightarrow> string) \<Rightarrow> int set \<Rightarrow> string \<Rightarrow> court_candidate \<Rightarrow> bool" where
  "identified sha U a x \<longleftrightarrow> pc_id x = candidate_id sha a (pc_tracks x) \<and> sorted_wrt (<) (pc_tracks x) \<and> set (pc_tracks x) \<subseteq> U"

definition membership_ok :: "(string \<Rightarrow> string) \<Rightarrow> int set \<Rightarrow> string \<Rightarrow> court_candidate list \<Rightarrow> bool" where
  "membership_ok sha U a xs \<longleftrightarrow> list_all valid_candidate xs \<and> distinct (map pc_id xs) \<and> distinct (concat (map pc_tracks xs))
     \<and> list_all (identified sha U a) xs \<and> length (filter pc_eligible xs) \<le> 4"

definition collection_ok :: "(string \<Rightarrow> string) \<Rightarrow> int set \<Rightarrow> collection \<Rightarrow> bool" where
  "collection_ok sha U c \<longleftrightarrow> cl_version c = current_version \<and> membership_ok sha U (cl_analysis c) (members c)
     \<and> list_all selectable_now (cl_candidates c) \<and> list_all (\<lambda>x. \<not> selectable_now x) (cl_excluded c)
     \<and> sorted (map candidate_rank (cl_candidates c))
     \<and> (case cl_selected c of None \<Rightarrow> True | Some i \<Rightarrow> i \<in> pc_id ` set (cl_candidates c))"

lemma collection_okI:
  assumes "cl_version c = current_version" "membership_ok sha U (cl_analysis c) (members c)"
    "list_all selectable_now (cl_candidates c)" "list_all (\<lambda>x. \<not> selectable_now x) (cl_excluded c)"
    "sorted (map candidate_rank (cl_candidates c))" "\<And>i. cl_selected c = Some i \<Longrightarrow> i \<in> pc_id ` set (cl_candidates c)"
  shows "collection_ok sha U c"
  using assms by (auto simp: collection_ok_def split: option.splits)

lemma collection_okD:
  assumes "collection_ok sha U c"
  shows "cl_version c = current_version" "membership_ok sha U (cl_analysis c) (members c)"
    "list_all selectable_now (cl_candidates c)" "list_all (\<lambda>x. \<not> selectable_now x) (cl_excluded c)"
    "sorted (map candidate_rank (cl_candidates c))" "cl_selected c = Some i \<Longrightarrow> i \<in> pc_id ` set (cl_candidates c)"
    "distinct (map pc_id (cl_candidates c))" "distinct (map pc_id (cl_excluded c))"
  using assms by (auto simp: collection_ok_def membership_ok_def members_def split: option.splits)

lemma collection_ok_valid: "collection_ok sha U c \<Longrightarrow> valid_collection c"
  by (auto simp: collection_ok_def membership_ok_def valid_collection_def unique_membership_def members_def current_version_def split: option.splits)

text \<open>Membership depends on what the members are called, cover, and may be selected for.\<close>

definition member_key :: "court_candidate \<Rightarrow> string \<times> int list \<times> bool \<times> bool" where
  "member_key x = (pc_id x, pc_tracks x, pc_eligible x, valid_candidate x)"

lemma key_mset:
  assumes "image_mset member_key (mset xs) = image_mset member_key (mset ys)"
  shows "mset (map (g \<circ> member_key) xs) = mset (map (g \<circ> member_key) ys)"
  using arg_cong [OF assms, of "image_mset g"] by (simp only: mset_map multiset.map_comp)

lemma key_list_all:
  assumes "image_mset member_key (mset xs) = image_mset member_key (mset ys)"
  shows "list_all (g \<circ> member_key) xs = list_all (g \<circ> member_key) ys"
proof -
  have e: "list_all P zs \<longleftrightarrow> False \<notin># mset (map P zs)" for P and zs :: "court_candidate list"
    by (induction zs) auto
  show ?thesis by (simp only: e key_mset [OF assms])
qed

lemma key_columns:
  "pc_id = fst \<circ> member_key" "pc_tracks = (fst \<circ> snd) \<circ> member_key" "pc_eligible = (fst \<circ> snd \<circ> snd) \<circ> member_key"
  "valid_candidate = (snd \<circ> snd \<circ> snd) \<circ> member_key"
  "identified sha U a = (\<lambda>(i, ts, _). i = candidate_id sha a ts \<and> sorted_wrt (<) ts \<and> set ts \<subseteq> U) \<circ> member_key"
  by (rule ext, simp add: member_key_def identified_def)+

lemma membership_same:
  assumes "image_mset member_key (mset xs) = image_mset member_key (mset ys)"
  shows "membership_ok sha U a xs = membership_ok sha U a ys"
proof -
  have ids: "mset (map pc_id xs) = mset (map pc_id ys)" unfolding key_columns(1) by (rule key_mset [OF assms])
  have tracks: "mset (map pc_tracks xs) = mset (map pc_tracks ys)" unfolding key_columns(2) by (rule key_mset [OF assms])
  have e: "mset (concat (map pc_tracks zs)) = sum_mset (image_mset mset (mset (map pc_tracks zs)))" for zs
    by (induction zs) auto
  have concat: "mset (concat (map pc_tracks xs)) = mset (concat (map pc_tracks ys))" by (simp only: e tracks)
  have n: "length (filter pc_eligible zs) = count (mset (map pc_eligible zs)) True" for zs by (induction zs) auto
  have m: "mset (map pc_eligible xs) = mset (map pc_eligible ys)" unfolding key_columns(3) by (rule key_mset [OF assms])
  have eligible: "length (filter pc_eligible xs) = length (filter pc_eligible ys)" by (simp only: n m)
  have valid: "list_all valid_candidate xs = list_all valid_candidate ys"
    unfolding key_columns(4) by (rule key_list_all [OF assms])
  have ident: "list_all (identified sha U a) xs = list_all (identified sha U a) ys"
    unfolding key_columns(5) by (rule key_list_all [OF assms])
  show ?thesis
    by (simp only: membership_ok_def valid ident eligible mset_eq_imp_distinct_iff [OF ids] mset_eq_imp_distinct_iff [OF concat])
qed

lemma membership_ids: "membership_ok sha U a (xs @ ys) \<Longrightarrow> distinct (map pc_id xs)"
  by (simp add: membership_ok_def)

lemma mset_without_id:
  assumes "distinct (map pc_id xs)" and "find (\<lambda>x. pc_id x = i) xs = Some x"
  shows "mset xs = add_mset x (mset (without_id i xs))"
  using assms
proof (induction xs)
  case (Cons y ys)
  show ?case
  proof (cases "pc_id y = i")
    case True
    then have "without_id i ys = ys" using Cons.prems by (auto simp: without_id_def filter_id_conv image_iff)
    with True Cons.prems show ?thesis by (simp add: without_id_def)
  next
    case False
    with Cons show ?thesis by (simp add: without_id_def)
  qed
qed simp

section \<open>Operations keep collections well-formed\<close>

lemma key_status [simp]:
  "member_key (x\<lparr>cc_status := s\<rparr>) = member_key x"
  "member_key (x\<lparr>cc_status := s, cc_rejection := r\<rparr>) = member_key x"
  "member_key (rejected_as reason x) = member_key x" "member_key (restored x) = member_key x"
  by (simp_all add: member_key_def valid_candidate_def rejected_as_def restored_def)

lemma rank_status [simp]:
  "candidate_rank (x\<lparr>cc_status := s\<rparr>) = candidate_rank x"
  "candidate_rank (x\<lparr>cc_status := s, cc_rejection := r\<rparr>) = candidate_rank x"
  "candidate_rank (rejected_as reason x) = candidate_rank x" "candidate_rank (restored x) = candidate_rank x"
  by (simp_all add: candidate_rank_def rejected_as_def restored_def)

lemma mark_selected_columns:
  "pc_id ` set (mark_selected i xs) = pc_id ` set xs" "map candidate_rank (mark_selected i xs) = map candidate_rank xs"
  "image_mset member_key (mset (mark_selected i xs)) = image_mset member_key (mset xs)"
  "list_all selectable_now xs \<Longrightarrow> list_all selectable_now (mark_selected i xs)"
  by (simp_all add: mark_selected_def image_image multiset.map_comp comp_def list_all_iff selectable_now_def)

lemma load_current_Inr: "load_current fs = Inr c \<longleftrightarrow> fl_collection fs = Stored c \<and> valid_collection c \<and> cl_version c = current_version"
  by (auto simp: load_current_def load_collection_def require_current_def resultE_iffs split: disk_file.splits)

lemma find_active_Inr: "find_active c i = Inr x \<longleftrightarrow> find (\<lambda>x. pc_id x = i) (cl_candidates c) = Some x"
  by (auto simp: find_active_def split: option.splits)

lemma selecting_Inr:
  "selecting now i fs = Inr (c', step) \<longleftrightarrow> (\<exists>c x. load_current fs = Inr c \<and> find (\<lambda>x. pc_id x = i) (cl_candidates c) = Some x
     \<and> pc_eligible x \<and> pc_quality x \<noteq> CandRejected
     \<and> c' = c\<lparr>cl_candidates := mark_selected i (cl_candidates c), cl_selected := Some i, cl_readiness := None, cl_updated := now\<rparr>
     \<and> step = ReportSelection x)"
  by (auto simp: selecting_def resultE_iffs find_active_Inr)

lemma rejecting_Inr:
  "rejecting now i reason fs = Inr (c', step) \<longleftrightarrow> (\<exists>c x. load_current fs = Inr c \<and> find (\<lambda>x. pc_id x = i) (cl_candidates c) = Some x
     \<and> c' = c\<lparr>cl_candidates := without_id i (cl_candidates c), cl_excluded := cl_excluded c @ [rejected_as reason x],
          cl_selected := (if cl_selected c = Some i then None else cl_selected c), cl_readiness := None, cl_updated := now\<rparr>
     \<and> step = (if cl_selected c = Some i then ClearReport else KeepReport))"
  by (auto simp: rejecting_def resultE_iffs find_active_Inr)

lemma restoring_Inr:
  "restoring now i fs = Inr (c', step) \<longleftrightarrow> (\<exists>c x. load_current fs = Inr c \<and> find (\<lambda>x. pc_id x = i) (cl_excluded c) = Some x
     \<and> pc_eligible x
     \<and> c' = c\<lparr>cl_candidates := sort_key candidate_rank (cl_candidates c @ [restored x]), cl_excluded := without_id i (cl_excluded c),
          cl_readiness := None, cl_updated := now\<rparr>
     \<and> step = KeepReport)"
  by (auto simp: restoring_def resultE_iffs split: option.splits)

lemma selecting_ok:
  assumes "selecting now i fs = Inr (c', step)" and "\<And>c. load_current fs = Inr c \<Longrightarrow> collection_ok sha U c"
  shows "collection_ok sha U c'"
proof -
  from assms obtain c x where c: "collection_ok sha U c" and x: "find (\<lambda>x. pc_id x = i) (cl_candidates c) = Some x"
    and c': "c' = c\<lparr>cl_candidates := mark_selected i (cl_candidates c), cl_selected := Some i, cl_readiness := None, cl_updated := now\<rparr>"
    by (auto simp: selecting_Inr)
  have "membership_ok sha U (cl_analysis c) (members c') = membership_ok sha U (cl_analysis c) (members c)"
    by (rule membership_same) (simp add: c' members_def mark_selected_columns)
  then show ?thesis
    using collection_okD [OF c] mark_selected_columns(4) find_Some_in [OF x]
    by (intro collection_okI) (auto simp: c' mark_selected_columns(1, 2))
qed

lemma without_id_facts:
  "set (without_id i xs) = {x \<in> set xs. pc_id x \<noteq> i}"
  "list_all P xs \<Longrightarrow> list_all P (without_id i xs)"
  "sorted (map candidate_rank xs) \<Longrightarrow> sorted (map candidate_rank (without_id i xs))"
  by (auto simp: without_id_def list_all_iff sorted_filter)

lemma rejecting_ok:
  assumes "rejecting now i reason fs = Inr (c', step)" and "\<And>c. load_current fs = Inr c \<Longrightarrow> collection_ok sha U c"
  shows "collection_ok sha U c'"
proof -
  from assms obtain c x where c: "collection_ok sha U c" and x: "find (\<lambda>x. pc_id x = i) (cl_candidates c) = Some x"
    and c': "c' = c\<lparr>cl_candidates := without_id i (cl_candidates c), cl_excluded := cl_excluded c @ [rejected_as reason x],
      cl_selected := (if cl_selected c = Some i then None else cl_selected c), cl_readiness := None, cl_updated := now\<rparr>"
    by (auto simp: rejecting_Inr)
  from mset_without_id [OF collection_okD(7) [OF c] x]
  have "membership_ok sha U (cl_analysis c) (members c') = membership_ok sha U (cl_analysis c) (members c)"
    by (intro membership_same) (simp add: c' members_def)
  moreover have "\<not> selectable_now (rejected_as reason x)" by (simp add: selectable_now_def rejected_as_def)
  ultimately show ?thesis using collection_okD [OF c]
    by (intro collection_okI) (auto simp: c' without_id_facts split: if_splits)
qed

lemma restoring_ok:
  assumes "restoring now i fs = Inr (c', step)" and "\<And>c. load_current fs = Inr c \<Longrightarrow> collection_ok sha U c"
  shows "collection_ok sha U c'"
proof -
  from assms obtain c x where c: "collection_ok sha U c" and x: "find (\<lambda>x. pc_id x = i) (cl_excluded c) = Some x" "pc_eligible x"
    and c': "c' = c\<lparr>cl_candidates := sort_key candidate_rank (cl_candidates c @ [restored x]), cl_excluded := without_id i (cl_excluded c),
      cl_readiness := None, cl_updated := now\<rparr>"
    by (auto simp: restoring_Inr)
  from mset_without_id [OF collection_okD(8) [OF c] x(1)]
  have "membership_ok sha U (cl_analysis c) (members c') = membership_ok sha U (cl_analysis c) (members c)"
    by (intro membership_same) (simp add: c' members_def)
  moreover have "selectable_now (restored x)" using x(2) by (simp add: selectable_now_def restored_def)
  ultimately show ?thesis using collection_okD [OF c]
    by (intro collection_okI) (auto simp: c' without_id_facts list_all_iff)
qed

section \<open>Merging\<close>

definition track_lists :: "int set \<Rightarrow> int list set" where
  "track_lists U = {ts. sorted_wrt (<) ts \<and> set ts \<subseteq> U}"

lemma merge_tracks_facts:
  "set (merge_tracks x y) = set (pc_tracks x) \<union> set (pc_tracks y)" "sorted_wrt (<) (merge_tracks x y)"
  by (simp_all add: merge_tracks_def strict_sorted_iff)

lemma membership_merge:
  assumes ok: "membership_ok sha U a (x # y # rest)" and inj: "inj_on (candidate_id sha a) (track_lists U)"
    and x: "pc_eligible x" and m: "valid_candidate m" "pc_tracks m = merge_tracks x y" "pc_id m = candidate_id sha a (merge_tracks x y)"
  shows "membership_ok sha U a (m # rest)"
proof -
  from ok have idx: "identified sha U a x" and idy: "identified sha U a y" and idr: "\<And>z. z \<in> set rest \<Longrightarrow> identified sha U a z"
    and vx: "valid_candidate x" by (auto simp: membership_ok_def list_all_iff)
  have idm: "identified sha U a m"
    using idx idy merge_tracks_facts by (auto simp: identified_def m)
  have fresh: "pc_id m \<noteq> pc_id z" if z: "z \<in> set rest" for z
  proof
    assume "pc_id m = pc_id z"
    with idm idr [OF z] have "candidate_id sha a (pc_tracks m) = candidate_id sha a (pc_tracks z)" by (auto simp: identified_def)
    then have "pc_tracks m = pc_tracks z"
      using inj idm idr [OF z] by (auto simp: inj_on_def track_lists_def identified_def)
    then have "set (pc_tracks x) \<subseteq> set (pc_tracks z)" by (metis Un_upper1 m(2) merge_tracks_facts(1))
    moreover have "set (pc_tracks x) \<inter> set (pc_tracks z) = {}" "pc_tracks x \<noteq> []"
      using ok z vx by (auto simp: membership_ok_def valid_candidate_def)
    ultimately show False by (metis inf.absorb1 set_empty)
  qed
  have "set (pc_tracks m) \<inter> set (concat (map pc_tracks rest)) = {}" "distinct (pc_tracks m)"
    using ok merge_tracks_facts by (auto simp: membership_ok_def m(2) strict_sorted_iff)
  moreover have "length (filter pc_eligible (m # rest)) \<le> length (filter pc_eligible (x # y # rest))" using x by auto
  ultimately show ?thesis using ok idm fresh m(1)
    by (auto simp: membership_ok_def simp del: filter.simps)
qed

lemma merged_candidate_Inr:
  assumes "merged_candidate g a obs v raw = Inr m"
  shows "valid_candidate m" "pc_tracks m = raw" "pc_id m = candidate_id (gn_sha g) a raw" "cc_status m = ReviewPending"
    "cc_rejection m = None" "list_all (\<lambda>t. map_of (build_fragments obs) t \<noteq> None) raw"
  using assms by (auto simp: merged_candidate_def resultE_iffs Let_def built_candidate_columns)

lemma bindE_InrE:
  assumes "bindE m f = Inr y"
  obtains x where "m = Inr x" "f x = Inr y"
  using assms by (auto simp: bindE_Inr_iff)

lemma merging_Inr:
  assumes "merging g ids fs = Inr r"
  obtains (merged) c i j x y obs v m where "ids = [i, j]" "i \<noteq> j" "load_current fs = Inr c"
    "find_active c i = Inr x" "find_active c j = Inr y"
    "load_observations fs = Inr obs" "validate_manual_merge x y obs = Inr ()" "load_video fs = Inr v"
    "merged_candidate g (cl_analysis c) obs v (merge_tracks x y) = Inr m" "pc_eligible m"
    "r = merge_outcome g ids c x y m"
proof -
  from assms have "length ids = 2" and d: "distinct ids" by (auto simp: merging_def resultE_iffs)
  then obtain i j where ij: "ids = [i, j]" by (auto simp: numeral_2_eq_2 length_Suc_conv)
  with d have n: "i \<noteq> j" by simp
  show thesis
    using assms unfolding merging_def ij
    by (elim bindE_InrE, intro merged [OF ij n]) (assumption | simp add: requireE_Inr_iff ij)+
qed

lemma merged_status_columns [simp]:
  "pc_id (merged_status ids c m) = pc_id m" "pc_tracks (merged_status ids c m) = pc_tracks m"
  "pc_eligible (merged_status ids c m) = pc_eligible m" "member_key (merged_status ids c m) = member_key m"
  "cc_status m = ReviewPending \<Longrightarrow> cc_status (merged_status ids c m) \<noteq> ReviewRejected"
  by (simp_all add: merged_status_def)

lemma find_without_id:
  fixes xs :: "court_candidate list"
  shows "i \<noteq> j \<Longrightarrow> find (\<lambda>x. pc_id x = j) (without_id i xs) = find (\<lambda>x. pc_id x = j) xs"
  by (induction xs) (auto simp: without_id_def)

lemma mset_pair:
  fixes xs :: "court_candidate list"
  assumes d: "distinct (map pc_id xs)" and "i \<noteq> j"
    and x: "find (\<lambda>x. pc_id x = i) xs = Some x" and y: "find (\<lambda>x. pc_id x = j) xs = Some y"
  shows "mset xs = mset (x # y # filter (\<lambda>z. pc_id z \<notin> {i, j}) xs)"
proof -
  have "distinct (map pc_id (without_id i xs))" using d by (simp add: without_id_def distinct_map_filter)
  from mset_without_id [OF d x] mset_without_id [OF this, of j y] assms(2) y
  have "mset xs = mset (x # y # without_id j (without_id i xs))" by (simp add: find_without_id)
  moreover have "without_id j (without_id i xs) = filter (\<lambda>z. pc_id z \<notin> {i, j}) xs"
    by (auto simp: without_id_def intro: filter_cong)
  ultimately show ?thesis by simp
qed

lemma merging_ok:
  assumes m: "merging g ids fs = Inr (c', step)" and ok: "\<And>c. load_current fs = Inr c \<Longrightarrow> collection_ok (gn_sha g) U c"
    and inj: "\<And>c. load_current fs = Inr c \<Longrightarrow> inj_on (candidate_id (gn_sha g) (cl_analysis c)) (track_lists U)"
  shows "collection_ok (gn_sha g) U c'"
  using m
proof (cases rule: merging_Inr)
  case (merged c i j x y obs v m)
  note c = merged(3) and m = merged(9, 10)
  from merged(4, 5) have x: "find (\<lambda>x. pc_id x = i) (cl_candidates c) = Some x"
    and y: "find (\<lambda>x. pc_id x = j) (cl_candidates c) = Some y" by (simp_all only: find_active_Inr)
  note k = collection_okD [OF ok [OF c]] and mm = merged_candidate_Inr [OF m(1)]
  let ?m = "merged_status ids c m"
  define rest where "rest = filter (\<lambda>z. pc_id z \<notin> {i, j}) (cl_candidates c)"
  have cands: "cl_candidates c' = sort_key candidate_rank (rest @ [?m])" "cl_excluded c' = cl_excluded c"
    "cl_version c' = cl_version c"
    and same: "cl_analysis c' = cl_analysis c"
    and sel: "cl_selected c' = (if \<exists>i\<in>set ids. cl_selected c = Some i then Some (pc_id ?m) else cl_selected c)"
    using merged(11) by (auto simp: merge_outcome_def Let_def merged(1) rest_def)
  have p: "mset (cl_candidates c) = mset (x # y # rest)" unfolding rest_def by (rule mset_pair [OF k(7) merged(2) x y])
  have "membership_ok (gn_sha g) U (cl_analysis c) (x # y # rest @ cl_excluded c)
      = membership_ok (gn_sha g) U (cl_analysis c) (members c)"
    by (rule membership_same) (simp add: members_def p)
  with k(2) have all: "membership_ok (gn_sha g) U (cl_analysis c) (x # y # rest @ cl_excluded c)" by simp
  have xe: "pc_eligible x" using k(3) find_Some_in [OF x] by (auto simp: list_all_iff selectable_now_def)
  have "membership_ok (gn_sha g) U (cl_analysis c) (members c')
      = membership_ok (gn_sha g) U (cl_analysis c) (m # rest @ cl_excluded c)"
    by (rule membership_same) (simp add: cands members_def)
  with membership_merge [OF all inj [OF c] xe mm(1, 2, 3)] same
  have mem: "membership_ok (gn_sha g) U (cl_analysis c') (members c')" by simp
  have "selectable_now ?m" using m(2) mm(4) by (simp add: selectable_now_def)
  with k(3) have active: "list_all selectable_now (cl_candidates c')" by (simp add: cands list_all_iff rest_def)
  have "q \<in> pc_id ` set (cl_candidates c')" if q: "cl_selected c' = Some q" for q
  proof (cases "\<exists>i\<in>set ids. cl_selected c = Some i")
    case True
    with q sel show ?thesis by (simp add: cands)
  next
    case False
    with q sel have "cl_selected c = Some q" "q \<notin> {i, j}" by (auto simp: merged(1))
    with k(6) show ?thesis by (force simp: cands rest_def)
  qed
  with mem active k show "collection_ok (gn_sha g) U c'"
    by (intro collection_okI) (simp_all add: cands)
qed

section \<open>Generating\<close>

text \<open>Everything a generated candidate is called and covers, whatever was decided about it.\<close>

lemma identified_built:
  assumes "sorted_wrt (<) (cg_tracks g)" "set (cg_tracks g) \<subseteq> U"
  shows "identified (bi_sha i) U (bi_analysis i) (build_candidate i g merge)"
  using assms by (simp add: identified_def built_candidate_columns)

lemma identified_status [simp]:
  "identified sha U a (x\<lparr>cc_status := s\<rparr>) = identified sha U a x"
  "identified sha U a (x\<lparr>cc_status := s, cc_rejection := r\<rparr>) = identified sha U a x"
  "identified sha U a (outside_top_four x) = identified sha U a x"
  by (simp_all add: identified_def)

lemma identified_preserved:
  "list_all (identified sha U a) cs \<Longrightarrow> list_all (identified sha U a) (preserve_rejections p cs)"
  by (auto simp: preserve_rejections_def list_all_iff split: option.splits)

lemma identified_merge:
  assumes "list_all (identified (bi_sha i) U (bi_analysis i)) cs"
  shows "list_all (identified (bi_sha i) U (bi_analysis i)) (apply_persisted_merge i d cs)"
proof -
  let ?raw = "set (md_tracks d)"
  have "identified (bi_sha i) U (bi_analysis i) (build_candidate i \<lparr>cg_tracks = sorted_list_of_set ?raw, cg_evidence = []\<rparr> m)"
    if "set (concat (map pc_tracks (filter (\<lambda>x. set (pc_tracks x) \<subseteq> ?raw) cs))) = ?raw" for m
  proof -
    have "?raw \<subseteq> U" using assms by (subst that [symmetric]) (auto simp: list_all_iff identified_def)
    then show ?thesis by (intro identified_built) simp_all
  qed
  with assms show ?thesis by (auto simp: apply_persisted_merge_def Let_def list_all_iff)
qed

lemma identified_merges:
  assumes "list_all (identified (bi_sha i) U (bi_analysis i)) cs"
  shows "list_all (identified (bi_sha i) U (bi_analysis i)) (persisted_merges i ds cs)"
  using assms unfolding persisted_merges_def
  by (induction ds arbitrary: cs) (auto intro: identified_merge)

lemma list_all_sort: "list_all P (sort_key k xs) = list_all P xs"
  by (simp add: list_all_iff)

lemma identified_ranked:
  assumes "fragments_ok (bi_fragments i)" and "fst ` set (bi_fragments i) \<subseteq> U"
  shows "list_all (identified (bi_sha i) U (bi_analysis i)) (ranked_candidates i preserve previous)"
proof -
  have "list_all (identified (bi_sha i) U (bi_analysis i)) (map (\<lambda>g. build_candidate i g None) (associate_fragments (bi_fragments i)))"
    using associate_groups [OF assms(1)] assms(2)
    by (fastforce simp: list_all_iff coherent_group_def intro!: identified_built)
  then show ?thesis
    by (cases previous) (simp_all add: ranked_candidates_def Let_def list_all_sort identified_preserved identified_merges)
qed

lemma mark_chosen_columns:
  "map pc_id (mark_chosen chosen xs) = map pc_id xs" "map candidate_rank (mark_chosen chosen xs) = map candidate_rank xs"
  "map pc_eligible (mark_chosen chosen xs) = map pc_eligible xs"
  "list_all (identified sha U a) xs \<Longrightarrow> list_all (identified sha U a) (mark_chosen chosen xs)"
  by (auto simp: mark_chosen_def list_all_iff)

lemma length_filter_map:
  fixes f :: "'a \<Rightarrow> bool"
  assumes "map f xs = map f ys"
  shows "length (filter f xs) = length (filter f ys)"
proof -
  have e: "length (filter f zs) = length (filter id (map f zs))" for zs by (induction zs) auto
  show ?thesis by (simp only: e assms)
qed

lemma generated_facts:
  assumes fr: "fragments_ok (bi_fragments i)" "fst ` set (bi_fragments i) \<subseteq> U"
    and gen: "generated i preserve previous report = (cs, chosen)" and d: "distinct (map pc_id cs)"
  shows "list_all (identified (bi_sha i) U (bi_analysis i)) cs" "sorted (map candidate_rank cs)"
    "length (filter pc_eligible cs) \<le> 4"
    "chosen = Some q \<Longrightarrow> \<exists>x\<in>set cs. pc_id x = q \<and> pc_eligible x \<and> cc_status x = ReviewSelected"
proof -
  let ?r = "ranked_candidates i preserve previous"
  let ?w = "initial_selection preserve previous report ?r"
  let ?l = "apply_selection_policy ?r ?w"
  from gen have chosen: "chosen = eligible_selection ?l ?w" and cs: "cs = mark_chosen chosen ?l"
    by (auto simp: generated_def Let_def)
  have ids: "distinct (map pc_id ?r)" using d by (simp add: cs mark_chosen_columns(1) policy_columns(1))
  have "list_all (identified (bi_sha i) U (bi_analysis i)) ?l"
    using identified_ranked [OF fr, of preserve previous] policy_map [of ?r ?w] by (auto simp: list_all_iff)
  then show "list_all (identified (bi_sha i) U (bi_analysis i)) cs" by (simp add: cs mark_chosen_columns)
  have "sorted (map candidate_rank ?r)" by (simp add: ranked_candidates_def Let_def)
  then show "sorted (map candidate_rank cs)" by (simp add: cs mark_chosen_columns(2) policy_columns(3))
  show "length (filter pc_eligible cs) \<le> 4"
    using policy_at_most_four [OF ids, of ?w] length_filter_map [OF mark_chosen_columns(3), of chosen ?l] by (simp add: cs)
  assume q: "chosen = Some q"
  then obtain x where "x \<in> set ?l" "pc_id x = q" "pc_eligible x"
    by (auto simp: chosen eligible_selection_def list_ex_iff split: if_splits)
  then have "x\<lparr>cc_status := ReviewSelected\<rparr> \<in> set cs" using q by (force simp: cs mark_chosen_def)
  then show "\<exists>x\<in>set cs. pc_id x = q \<and> pc_eligible x \<and> cc_status x = ReviewSelected"
    by (rule bexI [rotated]) (use \<open>pc_id x = q\<close> \<open>pc_eligible x\<close> in simp)
qed

lemma members_split: "mset (filter p xs @ filter (\<lambda>x. \<not> p x) xs) = mset xs"
  by (induction xs) auto

lemma collection_of_ok:
  assumes fr: "fragments_ok (bi_fragments i)" "fst ` set (bi_fragments i) \<subseteq> U"
    and v: "valid_collection (collection_of g i preserve previous report)"
  shows "collection_ok (bi_sha i) U (collection_of g i preserve previous report)"
proof -
  let ?c = "collection_of g i preserve previous report"
  obtain cs chosen where gen: "generated i preserve previous report = (cs, chosen)" by fastforce
  have c: "cl_candidates ?c = filter selectable_now cs" "cl_excluded ?c = filter (\<lambda>x. \<not> selectable_now x) cs"
    "cl_selected ?c = chosen" "cl_version ?c = current_version" "cl_analysis ?c = bi_analysis i"
    by (simp_all add: collection_of_def gen Let_def)
  have "mset (members ?c) = mset cs" unfolding members_def c by (rule members_split)
  then have same: "membership_ok sha U a (members ?c) = membership_ok sha U a cs" for sha a
    by (intro membership_same) simp
  from v have "distinct (map pc_id (members ?c))" by (simp add: valid_collection_def unique_membership_def)
  then have d: "distinct (map pc_id cs)"
    using \<open>mset (members ?c) = mset cs\<close> by (metis mset_eq_imp_distinct_iff mset_map)
  note f = generated_facts [OF fr gen d]
  have "distinct (concat (map pc_tracks (members ?c)))" "list_all valid_candidate (members ?c)"
    using v by (simp_all add: valid_collection_def unique_membership_def)
  moreover have "length (filter pc_eligible (members ?c)) = length (filter pc_eligible cs)"
    using \<open>mset (members ?c) = mset cs\<close> by (metis mset_filter size_mset)
  moreover have "list_all (identified (bi_sha i) U (bi_analysis i)) (members ?c)"
    using f(1) \<open>mset (members ?c) = mset cs\<close> by (metis list_all_iff mset_eq_setD)
  ultimately have mem: "membership_ok (bi_sha i) U (cl_analysis ?c) (members ?c)"
    using \<open>distinct (map pc_id (members ?c))\<close> f(3) by (simp add: membership_ok_def c(5))
  show ?thesis
  proof (rule collection_okI)
    show "sorted (map candidate_rank (cl_candidates ?c))" using f(2) by (simp add: c sorted_filter)
    fix q assume "cl_selected ?c = Some q"
    with f(4) [of q] show "q \<in> pc_id ` set (cl_candidates ?c)" by (force simp: c selectable_now_def)
  qed (use mem in \<open>auto simp: c list_all_iff\<close>)
qed

end
