(* ===== verification/Candidate_Steps.thy ===== *)
theory Candidate_Steps
  imports Candidate_Invariant
begin

text \<open>
  The review as a transition system over the files of an analysis: every operation keeps a
  stored collection well-formed, a successful one leaves the tracking report with the
  selection of the collection, and rejecting a candidate can be taken back.
\<close>

section \<open>The review as a transition system\<close>

datatype review_op = SelectOp string | RejectOp string string | RestoreOp string | MergeOp "string list"
  | UnmergeOp string | BuildOp tracking_report bool

definition run_review :: "generation \<Rightarrow> string \<Rightarrow> review_op \<Rightarrow> candidate_files \<Rightarrow> (candidate_error + collection) \<times> candidate_files" where
  "run_review g a op fs =
     (case op of
        SelectOp i \<Rightarrow> select_candidate (gn_now g) i fs
      | RejectOp i reason \<Rightarrow> reject_candidate (gn_now g) i reason fs
      | RestoreOp i \<Rightarrow> restore_candidate (gn_now g) i fs
      | MergeOp ids \<Rightarrow> merge_candidates g ids fs
      | UnmergeOp i \<Rightarrow> unmerge_candidates g i fs
      | BuildOp report preserve \<Rightarrow> build_candidates g a report preserve fs)"

text \<open>
  What holds of the files of the analysis \<open>a\<close> between operations: a current collection is
  well-formed, and its tracks and those of the observations are among \<open>U\<close>.
\<close>

definition review_ok :: "(string \<Rightarrow> string) \<Rightarrow> string \<Rightarrow> int set \<Rightarrow> candidate_files \<Rightarrow> bool" where
  "review_ok sha a U fs \<longleftrightarrow>
     (\<forall>obs. fl_observations fs = Stored obs \<longrightarrow> ob_track ` set obs \<subseteq> U)
     \<and> (\<forall>c. load_current fs = Inr c \<longrightarrow> collection_ok sha U c \<and> cl_analysis c = a)"

lemma update_report_files:
  assumes "update_report now step fs = Inr fs'"
  shows "fl_collection fs' = fl_collection fs" "fl_observations fs' = fl_observations fs" "fl_video fs' = fl_video fs"
    "fl_writable fs' = fl_writable fs"
  using assms by (auto simp: update_report_def resultE_iffs split: report_step.splits)

lemma write_collection_Inr:
  "write_collection fs c = Inr fs' \<longleftrightarrow> fl_writable fs \<and> fs' = fs\<lparr>fl_collection := Stored c\<rparr>"
  by (auto simp: write_collection_def)

text \<open>An operation leaves the files as they were or stores the collection it computed.\<close>

lemma reviewed_files:
  "fl_observations (snd (reviewed now fs r)) = fl_observations fs"
  "fl_collection (snd (reviewed now fs r)) = fl_collection fs
     \<or> (\<exists>c step. r = Inr (c, step) \<and> fl_collection (snd (reviewed now fs r)) = Stored c)"
  by (auto simp: reviewed_def commit_def write_collection_def update_report_files split: sum.splits dest: update_report_files)

lemma load_current_stored: "fl_collection fs = fl_collection fs' \<Longrightarrow> load_current fs = load_current fs'"
  by (simp add: load_current_def load_collection_def)

lemma review_ok_reviewed:
  assumes ok: "review_ok sha a U fs"
    and r: "\<And>c step. r = Inr (c, step) \<Longrightarrow> collection_ok sha U c \<and> cl_analysis c = a"
  shows "review_ok sha a U (snd (reviewed now fs r))"
proof -
  let ?fs = "snd (reviewed now fs r)"
  have "collection_ok sha U c \<and> cl_analysis c = a" if c: "load_current ?fs = Inr c" for c
    using reviewed_files(2) [of now fs r]
  proof
    assume "fl_collection ?fs = fl_collection fs"
    from load_current_stored [OF this] c ok show ?thesis by (auto simp: review_ok_def)
  next
    assume "\<exists>c step. r = Inr (c, step) \<and> fl_collection ?fs = Stored c"
    with c r show ?thesis by (auto simp: load_current_Inr)
  qed
  with ok reviewed_files(1) [of now fs r] show ?thesis by (simp add: review_ok_def)
qed

text \<open>No operation changes the analysis of a collection.\<close>

lemma computed_analysis:
  "selecting now i fs = Inr (c', step) \<Longrightarrow> \<exists>c. load_current fs = Inr c \<and> cl_analysis c' = cl_analysis c"
  "rejecting now i reason fs = Inr (c', step) \<Longrightarrow> \<exists>c. load_current fs = Inr c \<and> cl_analysis c' = cl_analysis c"
  "restoring now i fs = Inr (c', step) \<Longrightarrow> \<exists>c. load_current fs = Inr c \<and> cl_analysis c' = cl_analysis c"
  "merging g ids fs = Inr (c', step) \<Longrightarrow> \<exists>c. load_current fs = Inr c \<and> cl_analysis c' = cl_analysis c"
  by (auto simp: selecting_Inr rejecting_Inr restoring_Inr merge_outcome_def Let_def elim!: merging_Inr)

lemma generating_Inr:
  assumes "generating g a report preserve fs = Inr (c, step)"
  obtains previous obs v where "load_optional_collection fs = Inr previous" "load_observations fs = Inr obs" "load_video fs = Inr v"
    "c = collection_of g (input_of g a obs v) preserve previous report" "valid_collection c" "step = generation_step fs c"
  using assms unfolding generating_def Let_def
  by (elim bindE_InrE) (auto simp: requireE_Inr_iff)

lemma load_observations_tracks:
  "load_observations fs = Inr obs \<Longrightarrow> \<exists>raw. fl_observations fs = Stored raw \<and> set obs = set raw \<and> list_all valid_observation obs"
  by (auto simp: load_observations_def load_file_def resultE_iffs list_all_iff split: disk_file.splits)

lemma generating_ok:
  assumes g: "generating g a report preserve fs = Inr (c, step)"
    and u: "\<And>obs. fl_observations fs = Stored obs \<Longrightarrow> ob_track ` set obs \<subseteq> U"
  shows "collection_ok (gn_sha g) U c \<and> cl_analysis c = a"
  using g
proof (cases rule: generating_Inr)
  case (1 previous obs v)
  let ?i = "input_of g a obs v"
  have "ob_track ` set obs \<subseteq> U" using u load_observations_tracks [OF 1(2)] by auto
  then have "fst ` set (bi_fragments ?i) \<subseteq> U" by (simp add: input_of_def keys_attach keys_build)
  moreover have "fragments_ok (bi_fragments ?i)" by (simp add: input_of_def fragments_ok_attach fragments_ok_build)
  ultimately have "collection_ok (bi_sha ?i) U c" using collection_of_ok 1(4, 5) by blast
  moreover have "cl_analysis c = a" unfolding 1(4) by (simp add: collection_of_def input_of_def Let_def split: prod.splits)
  ultimately show ?thesis by (simp add: input_of_def)
qed

lemma unmerging_Inr:
  "unmerging now i c = Inr c' \<longleftrightarrow> (\<exists>d. active_merge c i = Some d
     \<and> c' = c\<lparr>cl_decisions := undone now (md_id d) (cl_decisions c),
          cl_selected := (if cl_selected c = Some i then None else cl_selected c), cl_readiness := None, cl_updated := now\<rparr>)"
  by (auto simp: unmerging_def split: option.splits)

lemma unmerging_ok:
  assumes "unmerging now i c = Inr c'" and ok: "collection_ok sha U c"
  shows "collection_ok sha U c' \<and> cl_analysis c' = cl_analysis c"
proof -
  from assms(1) have same: "cl_candidates c' = cl_candidates c" "cl_excluded c' = cl_excluded c" "cl_version c' = cl_version c"
    "cl_analysis c' = cl_analysis c" "cl_selected c' = None \<or> cl_selected c' = cl_selected c"
    by (auto simp: unmerging_Inr)
  moreover have "members c' = members c" by (simp add: members_def same)
  ultimately show ?thesis using collection_okD [OF ok] by (auto intro!: collection_okI)
qed

text \<open>The steps of an unmerge; each leaves the files to the next.\<close>

lemma unmerge_cases:
  obtains (refused) e where "unmerge_candidates g i fs = (Inl e, fs)"
    | (interim) c c' e where "load_current fs = Inr c" "unmerging (gn_now g) i c = Inr c'"
        "unmerge_candidates g i fs = (Inl e, fs\<lparr>fl_collection := Stored c'\<rparr>)"
    | (failed) c c' report e fs2 where "load_current fs = Inr c" "unmerging (gn_now g) i c = Inr c'"
        "load_report (fs\<lparr>fl_collection := Stored c'\<rparr>) = Inr report"
        "snd (build_candidates g (cl_analysis c) report True (fs\<lparr>fl_collection := Stored c'\<rparr>)) = fs2"
        "unmerge_candidates g i fs = (Inl e, fs2)"
    | (undo) c c' report c2 fs2 fs3 where "load_current fs = Inr c" "unmerging (gn_now g) i c = Inr c'"
        "load_report (fs\<lparr>fl_collection := Stored c'\<rparr>) = Inr report"
        "build_candidates g (cl_analysis c) report True (fs\<lparr>fl_collection := Stored c'\<rparr>) = (Inr c2, fs2)"
        "update_report (gn_now g) (if cl_selected c = Some i then ClearReport else KeepReport) fs2 = Inr fs3"
        "unmerge_candidates g i fs = (Inr c2, fs3)"
proof (cases "bindE (load_current fs) (\<lambda>c. bindE (unmerging (gn_now g) i c) (\<lambda>interim. Inr (c, interim)))")
  case (Inl e)
  then show thesis by (intro refused) (simp add: unmerge_candidates_def)
next
  case (Inr p)
  obtain c c' where p: "p = (c, c')" by (cases p)
  with Inr have cc: "load_current fs = Inr c" "unmerging (gn_now g) i c = Inr c'" by (auto simp: resultE_iffs)
  let ?fs1 = "fs\<lparr>fl_collection := Stored c'\<rparr>"
  show thesis
  proof (cases "fl_writable fs")
    case False
    then show thesis using Inr p by (intro refused) (simp add: unmerge_candidates_def write_collection_def)
  next
    case w: True
    show thesis
    proof (cases "load_report ?fs1")
      case (Inl e)
      then show thesis using Inr p w cc by (intro interim) (simp_all add: unmerge_candidates_def write_collection_def)
    next
      case r: (Inr report)
      obtain b fs2 where b: "build_candidates g (cl_analysis c) report True ?fs1 = (b, fs2)" by fastforce
      then have s: "snd (build_candidates g (cl_analysis c) report True ?fs1) = fs2" by simp
      show thesis
      proof (cases b)
        case (Inl e)
        then show thesis using Inr p w cc r b by (intro failed [OF cc r s]) (simp_all add: unmerge_candidates_def write_collection_def)
      next
        case c2: (Inr c2)
        show thesis
        proof (cases "update_report (gn_now g) (if cl_selected c = Some i then ClearReport else KeepReport) fs2")
          case (Inl e)
          then show thesis using \<open>bindE _ _ = Inr p\<close> p w cc r b c2 by (intro failed [OF cc r s]) (simp_all add: unmerge_candidates_def write_collection_def)
        next
          case (Inr fs3)
          then show thesis using \<open>bindE _ _ = Inr p\<close> p w cc r b c2 by (intro undo) (simp_all add: unmerge_candidates_def write_collection_def)
        qed
      qed
    qed
  qed
qed

lemma review_ok_unmerge:
  assumes ok: "review_ok (gn_sha g) a U fs"
  shows "review_ok (gn_sha g) a U (snd (unmerge_candidates g i fs))"
proof -
  have kept: "review_ok (gn_sha g) a U (fs\<lparr>fl_collection := Stored c'\<rparr>) \<and> cl_analysis c = a"
    if "load_current fs = Inr c" "unmerging (gn_now g) i c = Inr c'" for c c'
  proof -
    have c: "collection_ok (gn_sha g) U c" "cl_analysis c = a" using ok that(1) by (auto simp: review_ok_def)
    then show ?thesis using ok unmerging_ok [OF that(2) c(1)] by (auto simp: review_ok_def load_current_Inr)
  qed
  have built: "review_ok (gn_sha g) a U (snd (build_candidates g a report True fs1))" if "review_ok (gn_sha g) a U fs1" for fs1 report
    unfolding build_candidates_def by (rule review_ok_reviewed [OF that], erule generating_ok) (use that in \<open>simp add: review_ok_def\<close>)
  show ?thesis
  proof (cases rule: unmerge_cases [where g = g and i = i and fs = fs, case_names refused interim failed undo])
    case (refused e)
    with ok show ?thesis by simp
  next
    case (interim c c' e)
    with kept show ?thesis by simp
  next
    case (failed c c' report e fs2)
    with kept [OF failed(1, 2)] built [of _ report] show ?thesis by (metis snd_conv)
  next
    case (undo c c' report c2 fs2 fs3)
    with kept [OF undo(1, 2)] built [of _ report] have "review_ok (gn_sha g) a U fs2" by (metis snd_conv)
    then show ?thesis
      using load_current_stored [OF update_report_files(1) [OF undo(5)]] update_report_files(2) [OF undo(5)] undo(6)
      by (simp add: review_ok_def)
  qed
qed

text \<open>Every operation keeps the files well-formed, whether it succeeds or not.\<close>

lemma run_review_ok:
  assumes ok: "review_ok (gn_sha g) a U fs" and inj: "inj_on (candidate_id (gn_sha g) a) (track_lists U)"
  shows "review_ok (gn_sha g) a U (snd (run_review g a op fs))"
proof -
  have c: "collection_ok (gn_sha g) U c" "cl_analysis c = a" if "load_current fs = Inr c" for c
    using ok that by (auto simp: review_ok_def)
  show ?thesis
  proof (cases op)
    case (SelectOp i)
    have "review_ok (gn_sha g) a U (snd (reviewed (gn_now g) fs (selecting (gn_now g) i fs)))"
      by (rule review_ok_reviewed [OF ok]) (metis c computed_analysis(1) selecting_ok)
    with SelectOp show ?thesis by (simp add: run_review_def select_candidate_def)
  next
    case (RejectOp i reason)
    have "review_ok (gn_sha g) a U (snd (reviewed (gn_now g) fs (rejecting (gn_now g) i reason fs)))"
      by (rule review_ok_reviewed [OF ok]) (metis c computed_analysis(2) rejecting_ok)
    with RejectOp show ?thesis by (simp add: run_review_def reject_candidate_def)
  next
    case (RestoreOp i)
    have "review_ok (gn_sha g) a U (snd (reviewed (gn_now g) fs (restoring (gn_now g) i fs)))"
      by (rule review_ok_reviewed [OF ok]) (metis c computed_analysis(3) restoring_ok)
    with RestoreOp show ?thesis by (simp add: run_review_def restore_candidate_def)
  next
    case (MergeOp ids)
    have "review_ok (gn_sha g) a U (snd (reviewed (gn_now g) fs (merging g ids fs)))"
      by (rule review_ok_reviewed [OF ok]) (metis c computed_analysis(4) inj merging_ok)
    with MergeOp show ?thesis by (simp add: run_review_def merge_candidates_def)
  next
    case (UnmergeOp i)
    then show ?thesis using review_ok_unmerge [OF ok] by (simp add: run_review_def)
  next
    case (BuildOp report preserve)
    have "review_ok (gn_sha g) a U (snd (reviewed (gn_now g) fs (generating g a report preserve fs)))"
      by (rule review_ok_reviewed [OF ok], erule generating_ok) (use ok in \<open>simp add: review_ok_def\<close>)
    with BuildOp show ?thesis by (simp add: run_review_def build_candidates_def)
  qed
qed

text \<open>The states the files of an analysis can reach; operations may fail, and have their own clock and video.\<close>

inductive reviews :: "(string \<Rightarrow> string) \<Rightarrow> string \<Rightarrow> candidate_files \<Rightarrow> candidate_files \<Rightarrow> bool" for sha a fs where
  none: "reviews sha a fs fs"
| step: "reviews sha a fs fs1 \<Longrightarrow> gn_sha g = sha \<Longrightarrow> reviews sha a fs (snd (run_review g a op fs1))"

lemma reviews_ok:
  assumes "reviews sha a fs fs'" and "review_ok sha a U fs" and "inj_on (candidate_id sha a) (track_lists U)"
  shows "review_ok sha a U fs'"
  using assms by (induction) (auto intro: run_review_ok)

section \<open>The selection of the tracking report\<close>

definition report_matches :: "collection \<Rightarrow> tracking_report \<Rightarrow> bool" where
  "report_matches c r \<longleftrightarrow> tr_candidate r = cl_selected c
     \<and> (case cl_selected c of
          None \<Rightarrow> tr_track r = None \<and> tr_sources r = []
        | Some i \<Rightarrow> list_ex (\<lambda>x. pc_id x = i \<and> tr_sources r = pc_tracks x \<and> tr_track r = Some (hd (pc_tracks x))) (cl_candidates c))"

definition synchronised :: "candidate_files \<Rightarrow> bool" where
  "synchronised fs =
     (case (fl_report fs, load_current fs) of (Stored r, Inr c) \<Rightarrow> report_matches c r | (Stored r, Inl e) \<Rightarrow> True | _ \<Rightarrow> False)"

definition report_after :: "time \<Rightarrow> report_step \<Rightarrow> tracking_report \<Rightarrow> tracking_report" where
  "report_after now step r = (case step of KeepReport \<Rightarrow> r | ClearReport \<Rightarrow> cleared_report r | ReportSelection x \<Rightarrow> selection_report now x r)"

lemma reviewed_success:
  assumes "reviewed now fs r = (Inr c, fs')" and "fl_report fs = Stored t"
  obtains step where "r = Inr (c, step)" "fl_collection fs' = Stored c" "fl_report fs' = Stored (report_after now step t)"
  using assms
  by (auto simp: reviewed_def commit_def write_collection_Inr update_report_def report_after_def load_report_def load_file_def resultE_iffs
      split: sum.splits prod.splits report_step.splits if_splits)

text \<open>What a successful operation leaves.\<close>

definition synced_to :: "collection \<Rightarrow> candidate_files \<Rightarrow> bool" where
  "synced_to c fs \<longleftrightarrow> fl_collection fs = Stored c \<and> (\<exists>r. fl_report fs = Stored r \<and> report_matches c r)"

lemma synchronisedI:
  assumes "fl_report fs = Stored r" and "\<And>c. load_current fs = Inr c \<Longrightarrow> report_matches c r"
  shows "synchronised fs"
  using assms by (simp add: synchronised_def split: sum.splits)

lemma synchronisedD: "synchronised fs \<Longrightarrow> load_current fs = Inr c \<Longrightarrow> \<exists>r. fl_report fs = Stored r \<and> report_matches c r"
  by (auto simp: synchronised_def split: disk_file.splits)

lemma matches_cleared [simp]: "cl_selected c = None \<Longrightarrow> report_matches c (cleared_report r)"
  by (simp add: report_matches_def cleared_report_def)

lemma matches_selection:
  assumes "cl_selected c = Some (pc_id x)" and "y \<in> set (cl_candidates c)" and "pc_id y = pc_id x" "pc_tracks y = pc_tracks x"
  shows "report_matches c (selection_report now x r)"
  using assms by (auto simp: report_matches_def selection_report_def list_ex_iff)

text \<open>A report stays right while the selection and the selected candidate stay.\<close>

lemma matches_kept:
  assumes "report_matches c r" and "cl_selected c' = cl_selected c"
    and "\<And>x i. cl_selected c = Some i \<Longrightarrow> x \<in> set (cl_candidates c) \<Longrightarrow> pc_id x = i \<Longrightarrow> x \<in> set (cl_candidates c')"
  shows "report_matches c' r"
  using assms by (auto simp: report_matches_def list_ex_iff split: option.splits)

lemma selecting_matches:
  assumes "selecting now i fs = Inr (c', step)"
  shows "report_matches c' (report_after now step r)"
proof -
  from assms obtain c x where x: "find (\<lambda>x. pc_id x = i) (cl_candidates c) = Some x" and step: "step = ReportSelection x"
    and c': "c' = c\<lparr>cl_candidates := mark_selected i (cl_candidates c), cl_selected := Some i, cl_readiness := None, cl_updated := now\<rparr>"
    by (auto simp: selecting_Inr)
  from find_Some_in [OF x] have "x\<lparr>cc_status := ReviewSelected\<rparr> \<in> set (mark_selected i (cl_candidates c))" "pc_id x = i"
    by (force simp: mark_selected_def)+
  then show ?thesis
    by (auto simp: report_after_def step c' intro: matches_selection [where y = "x\<lparr>cc_status := ReviewSelected\<rparr>"])
qed

lemma rejecting_matches:
  assumes "rejecting now i reason fs = Inr (c', step)" and "\<And>c. load_current fs = Inr c \<Longrightarrow> report_matches c r"
  shows "report_matches c' (report_after now step r)"
proof -
  from assms(1) obtain c where c: "load_current fs = Inr c" and step: "step = (if cl_selected c = Some i then ClearReport else KeepReport)"
    and c': "cl_candidates c' = without_id i (cl_candidates c)" "cl_selected c' = (if cl_selected c = Some i then None else cl_selected c)"
    by (auto simp: rejecting_Inr)
  show ?thesis
  proof (cases "cl_selected c = Some i")
    case True
    then show ?thesis by (simp add: report_after_def step c')
  next
    case False
    have "report_matches c' r"
      by (rule matches_kept [OF assms(2) [OF c]]) (use False in \<open>auto simp: c' without_id_facts\<close>)
    with False show ?thesis by (simp add: report_after_def step)
  qed
qed

lemma restoring_matches:
  assumes "restoring now i fs = Inr (c', step)" and "\<And>c. load_current fs = Inr c \<Longrightarrow> report_matches c r"
  shows "report_matches c' (report_after now step r)"
proof -
  from assms(1) obtain c x where c: "load_current fs = Inr c" and step: "step = KeepReport"
    and c': "cl_candidates c' = sort_key candidate_rank (cl_candidates c @ [restored x])" "cl_selected c' = cl_selected c"
    by (auto simp: restoring_Inr)
  have "report_matches c' r" by (rule matches_kept [OF assms(2) [OF c]]) (auto simp: c')
  then show ?thesis by (simp add: report_after_def step)
qed

lemma merging_matches:
  assumes "merging g ids fs = Inr (c', step)" and "\<And>c. load_current fs = Inr c \<Longrightarrow> report_matches c r"
  shows "report_matches c' (report_after now step r)"
  using assms(1)
proof (cases rule: merging_Inr)
  case (merged c i j x y obs v m)
  let ?m = "merged_status ids c m"
  have c': "cl_candidates c' = sort_key candidate_rank (filter (\<lambda>z. pc_id z \<notin> set ids) (cl_candidates c) @ [?m])"
    "cl_selected c' = (if \<exists>i\<in>set ids. cl_selected c = Some i then Some (pc_id ?m) else cl_selected c)"
    and step: "step = (if \<exists>i\<in>set ids. cl_selected c = Some i then ReportSelection ?m else KeepReport)"
    using merged(11) by (auto simp: merge_outcome_def Let_def)
  show ?thesis
  proof (cases "\<exists>i\<in>set ids. cl_selected c = Some i")
    case True
    then show ?thesis
      by (auto simp: report_after_def step c'(2) intro!: matches_selection [where y = ?m] simp: c'(1))
  next
    case False
    have "report_matches c' r"
      by (rule matches_kept [OF assms(2) [OF merged(3)]]) (use False in \<open>auto simp: c'\<close>)
    with False show ?thesis by (simp add: report_after_def step)
  qed
qed

lemma generating_matches:
  assumes g: "generating g a report preserve fs = Inr (c, step)" and ok: "review_ok (gn_sha g) a U fs"
    and r: "fl_report fs = Stored r"
  shows "report_matches c (report_after now step r)"
proof -
  have c: "collection_ok (gn_sha g) U c" using generating_ok [OF g] ok by (auto simp: review_ok_def)
  from g have step: "step = generation_step fs c" by (auto elim: generating_Inr)
  show ?thesis
  proof (cases "cl_selected c")
    case None
    then show ?thesis by (simp add: step generation_step_def r report_after_def)
  next
    case (Some i)
    from collection_okD(6) [OF c Some] have "find (\<lambda>x. pc_id x = i) (cl_candidates c) \<noteq> None" by (auto simp: find_None_all)
    then obtain x where x: "find (\<lambda>x. pc_id x = i) (cl_candidates c) = Some x" by auto
    with Some find_Some_in [OF x] show ?thesis
      by (auto simp: step generation_step_def r report_after_def intro!: matches_selection [where y = x])
  qed
qed

text \<open>A regeneration without a selection selects nobody.\<close>

lemma generating_unselected:
  assumes "generating g a report True fs = Inr (c, step)" and "fl_collection fs = Stored p" "cl_selected p = None"
  shows "cl_selected c = None"
  using assms(1)
proof (cases rule: generating_Inr)
  case (1 previous obs v)
  with assms(2) have "previous = Some p"
    by (auto simp: load_optional_collection_def load_collection_def split: if_splits)
  with assms(3) 1(4) show ?thesis
    by (simp add: collection_of_def generated_def Let_def initial_selection_def preserved_selection_def eligible_selection_def split: prod.splits)
qed

lemma reviewed_synchronised:
  assumes s: "synchronised fs" and r: "reviewed now fs x = (Inr c, fs')"
    and m: "\<And>step t. x = Inr (c, step) \<Longrightarrow> fl_report fs = Stored t \<Longrightarrow> report_matches c (report_after now step t)"
  shows "synced_to c fs'"
proof -
  from s obtain t where t: "fl_report fs = Stored t" by (auto simp: synchronised_def split: disk_file.splits)
  from r t obtain step where "x = Inr (c, step)" "fl_collection fs' = Stored c" "fl_report fs' = Stored (report_after now step t)"
    by (rule reviewed_success)
  with m t show ?thesis by (auto simp: synced_to_def)
qed

lemma build_synchronised:
  assumes ok: "review_ok (gn_sha g) a U fs" and r: "fl_report fs = Stored t"
    and b: "build_candidates g a report preserve fs = (Inr c, fs')"
  shows "synced_to c fs'"
proof -
  from b [unfolded build_candidates_def] r obtain step where "generating g a report preserve fs = Inr (c, step)"
    "fl_collection fs' = Stored c" "fl_report fs' = Stored (report_after (gn_now g) step t)"
    by (rule reviewed_success)
  then show ?thesis using generating_matches [OF _ ok r] by (auto simp: synced_to_def)
qed

lemma unmerge_interim_ok:
  assumes ok: "review_ok sha a U fs" and c: "load_current fs = Inr c" "unmerging now i c = Inr c'"
  shows "review_ok sha a U (fs\<lparr>fl_collection := Stored c'\<rparr>) \<and> cl_analysis c = a"
proof -
  have k: "collection_ok sha U c" "cl_analysis c = a" using ok c(1) by (auto simp: review_ok_def)
  then show ?thesis using ok unmerging_ok [OF c(2) k(1)] by (auto simp: review_ok_def load_current_Inr)
qed

lemma unmerge_synchronised:
  assumes ok: "review_ok (gn_sha g) a U fs" and u: "unmerge_candidates g i fs = (Inr c2, fs')"
  shows "synced_to c2 fs'"
proof (cases rule: unmerge_cases [where g = g and i = i and fs = fs, case_names refused interim failed undo])
  case (undo c c' report c2' fs2 fs3)
  with u have eq: "c2' = c2" "fs3 = fs'" by auto
  let ?fs1 = "fs\<lparr>fl_collection := Stored c'\<rparr>"
  have ok1: "review_ok (gn_sha g) a U ?fs1" and a: "cl_analysis c = a" using unmerge_interim_ok [OF ok undo(1, 2)] by auto
  have r1: "fl_report ?fs1 = Stored report" using undo(3) by (auto simp: load_report_def load_file_def split: disk_file.splits)
  have b: "build_candidates g a report True ?fs1 = (Inr c2, fs2)" using undo(4) by (simp add: a eq)
  from build_synchronised [OF ok1 r1 b] have s: "synced_to c2 fs2" .
  show ?thesis
  proof (cases "cl_selected c = Some i")
    case False
    with undo(5) have "fs' = fs2" by (simp add: update_report_def eq)
    with s show ?thesis by simp
  next
    case True
    from undo(2) True have "cl_selected c' = None" by (auto simp: unmerging_Inr)
    moreover from b [unfolded build_candidates_def] r1 obtain step where "generating g a report True ?fs1 = Inr (c2, step)"
      by (rule reviewed_success)
    ultimately have none: "cl_selected c2 = None" by (auto intro: generating_unselected)
    from True undo(5) obtain t where "fs' = fs2\<lparr>fl_report := Stored (cleared_report t)\<rparr>"
      by (auto simp: update_report_def resultE_iffs eq)
    with s none show ?thesis by (auto simp: synced_to_def)
  qed
qed (use u in auto)

lemma run_review_synchronised:
  assumes ok: "review_ok (gn_sha g) a U fs" and s: "synchronised fs" and r: "run_review g a op fs = (Inr c, fs')"
  shows "synced_to c fs'"
proof -
  have m: "report_matches d t" if "load_current fs = Inr d" "fl_report fs = Stored t" for d t
    using s that by (auto dest: synchronisedD)
  show ?thesis
  proof (cases op)
    case (SelectOp i)
    with r have "reviewed (gn_now g) fs (selecting (gn_now g) i fs) = (Inr c, fs')" by (simp add: run_review_def select_candidate_def)
    then show ?thesis by (rule reviewed_synchronised [OF s]) (rule selecting_matches)
  next
    case (RejectOp i reason)
    with r have "reviewed (gn_now g) fs (rejecting (gn_now g) i reason fs) = (Inr c, fs')" by (simp add: run_review_def reject_candidate_def)
    then show ?thesis by (rule reviewed_synchronised [OF s]) (rule rejecting_matches, assumption, rule m)
  next
    case (RestoreOp i)
    with r have "reviewed (gn_now g) fs (restoring (gn_now g) i fs) = (Inr c, fs')" by (simp add: run_review_def restore_candidate_def)
    then show ?thesis by (rule reviewed_synchronised [OF s]) (rule restoring_matches, assumption, rule m)
  next
    case (MergeOp ids)
    with r have "reviewed (gn_now g) fs (merging g ids fs) = (Inr c, fs')" by (simp add: run_review_def merge_candidates_def)
    then show ?thesis by (rule reviewed_synchronised [OF s]) (rule merging_matches, assumption, rule m)
  next
    case (UnmergeOp i)
    with r show ?thesis by (auto simp: run_review_def intro!: unmerge_synchronised [OF ok])
  next
    case (BuildOp report preserve)
    from s obtain t where "fl_report fs = Stored t" by (auto simp: synchronised_def split: disk_file.splits)
    from build_synchronised [OF ok this] BuildOp r show ?thesis by (auto simp: run_review_def)
  qed
qed

section \<open>Rejecting and restoring\<close>

lemma find_last_id:
  "i \<notin> pc_id ` set xs \<Longrightarrow> pc_id x = i \<Longrightarrow> find (\<lambda>x. pc_id x = i) (xs @ [x]) = Some x"
  by (induction xs) auto

lemma reinsert_ranked:
  assumes s: "sorted (map candidate_rank xs)" and d: "distinct (map pc_id xs)" and f: "find (\<lambda>x. pc_id x = i) xs = Some x"
    and y: "candidate_rank y = candidate_rank x"
  shows "sort_key candidate_rank (without_id i xs @ [y]) = map (\<lambda>z. if pc_id z = i then y else z) xs"
proof -
  let ?m = "\<lambda>z. if pc_id z = i then y else z"
  have id: "candidate_rank (?m z) = candidate_rank z" if "z \<in> set xs" for z
  proof (cases "pc_id z = i")
    case True
    from find_Some_in [OF f] have x: "x \<in> set xs" "pc_id x = i" by blast+
    from True x(2) have "pc_id z = pc_id x" by (simp only:)
    from by_id_unique [OF d that x(1) this] have "z = x" .
    then show ?thesis by (simp add: x(2) y)
  qed simp
  then have ranks: "map candidate_rank (map ?m xs) = map candidate_rank xs" by simp
  have perm: "mset (map ?m xs) = mset (without_id i xs @ [y])"
  proof -
    have "mset (map ?m xs) = image_mset ?m (add_mset x (mset (without_id i xs)))" using mset_without_id [OF d f] by simp
    also have "\<dots> = add_mset y (image_mset ?m (mset (without_id i xs)))" using find_Some_in [OF f] by simp
    also have "image_mset ?m (mset (without_id i xs)) = mset (without_id i xs)"
      by (subst image_mset_cong [where g = id]) (auto simp: without_id_def)
    finally show ?thesis by simp
  qed
  have "inj_on candidate_rank (set (map ?m xs))"
  proof (rule inj_onI)
    fix p q assume "p \<in> set (map ?m xs)" "q \<in> set (map ?m xs)" and eq: "candidate_rank p = candidate_rank q"
    then obtain u v where u: "u \<in> set xs" "p = ?m u" and v: "v \<in> set xs" "q = ?m v" by auto
    with eq id have "candidate_rank u = candidate_rank v" by simp
    then have "u = v" using by_id_unique [OF d u(1) v(1)] candidate_rank_id by blast
    with u v show "p = q" by simp
  qed
  then have inj: "inj_on candidate_rank (set (without_id i xs @ [y]))" unfolding mset_eq_setD [OF perm] .
  have "sorted (map candidate_rank (map ?m xs))" unfolding ranks by (rule s)
  then show ?thesis by (rule sort_key_inj_key_eq [OF perm [symmetric] inj])
qed

lemma commit_ok:
  assumes "fl_writable fs" and "step = KeepReport \<or> fl_report fs = Stored t"
  obtains fs' where "commit now fs (c, step) = (Inr c, fs')" "fl_collection fs' = Stored c" "fl_writable fs'"
    "fl_report fs' = (if step = KeepReport then fl_report fs else Stored (report_after now step t))"
  using assms
  by (cases step)
    (auto simp: commit_def write_collection_def update_report_def load_report_def load_file_def report_after_def resultE_iffs)

lemma reject_then_restore:
  assumes c: "load_current fs = Inr c" and ok: "collection_ok sha U c" and x: "find (\<lambda>x. pc_id x = i) (cl_candidates c) = Some x"
    and w: "fl_writable fs" and t: "fl_report fs = Stored t"
  obtains c1 fs1 c2 fs2 where "reject_candidate now i reason fs = (Inr c1, fs1)" "restore_candidate now' i fs1 = (Inr c2, fs2)"
    "cl_candidates c2 = map (\<lambda>z. if pc_id z = i then restored x else z) (cl_candidates c)" "cl_excluded c2 = cl_excluded c"
    "cl_selected c2 = (if cl_selected c = Some i then None else cl_selected c)" "cl_decisions c2 = cl_decisions c"
    "i \<in> set (map pc_id (cl_excluded c1))" "i \<notin> set (map pc_id (cl_candidates c1))"
proof -
  note k = collection_okD [OF ok]
  have xi: "x \<in> set (cl_candidates c)" "pc_id x = i" using find_Some_in [OF x] by blast+
  define step where "step = (if cl_selected c = Some i then ClearReport else KeepReport)"
  obtain c1 where r: "rejecting now i reason fs = Inr (c1, step)"
    and c1: "cl_candidates c1 = without_id i (cl_candidates c)" "cl_excluded c1 = cl_excluded c @ [rejected_as reason x]"
      "cl_selected c1 = (if cl_selected c = Some i then None else cl_selected c)" "cl_decisions c1 = cl_decisions c"
    using c x by (auto simp: rejecting_Inr step_def)
  have ok1: "collection_ok sha U c1" by (rule rejecting_ok [OF r]) (use c ok in auto)
  obtain fs1 where fs1: "reject_candidate now i reason fs = (Inr c1, fs1)" "fl_collection fs1 = Stored c1" "fl_writable fs1"
    using commit_ok [OF w disjI2 [OF t], of now c1 step] r by (auto simp: reject_candidate_def reviewed_def)
  have load1: "load_current fs1 = Inr c1"
    using fs1(2) collection_ok_valid [OF ok1] collection_okD(1) [OF ok1] by (simp add: load_current_Inr)
  have out: "i \<notin> pc_id ` set (cl_excluded c)" using k(2) xi by (auto simp: membership_ok_def members_def)
  then have f: "find (\<lambda>x. pc_id x = i) (cl_excluded c1) = Some (rejected_as reason x)"
    unfolding c1 by (rule find_last_id) (simp add: rejected_as_def xi)
  have e: "pc_eligible (rejected_as reason x)" using k(3) xi by (auto simp: rejected_as_def list_all_iff selectable_now_def)
  have same: "restored (rejected_as reason x) = restored x" by (simp add: restored_def rejected_as_def)
  obtain c2 where r2: "restoring now' i fs1 = Inr (c2, KeepReport)"
    and c2: "cl_candidates c2 = sort_key candidate_rank (cl_candidates c1 @ [restored x])" "cl_excluded c2 = without_id i (cl_excluded c1)"
      "cl_selected c2 = cl_selected c1" "cl_decisions c2 = cl_decisions c1"
    using load1 f e by (auto simp: restoring_Inr same)
  obtain fs2 where fs2: "restore_candidate now' i fs1 = (Inr c2, fs2)"
    using commit_ok [OF fs1(3), of KeepReport t now' c2] r2 by (auto simp: restore_candidate_def reviewed_def)
  have "cl_candidates c2 = map (\<lambda>z. if pc_id z = i then restored x else z) (cl_candidates c)"
    unfolding c2 c1 by (rule reinsert_ranked [OF k(5, 7) x]) simp
  moreover have "cl_excluded c2 = cl_excluded c"
  proof -
    have "without_id i (cl_excluded c) = cl_excluded c" using out by (auto simp: without_id_def filter_id_conv)
    then show ?thesis by (simp add: c2 c1 without_id_def rejected_as_def xi)
  qed
  moreover have "i \<in> set (map pc_id (cl_excluded c1))" by (simp add: c1 rejected_as_def xi)
  moreover have "i \<notin> set (map pc_id (cl_candidates c1))" by (auto simp: c1 without_id_facts)
  ultimately show thesis using that fs1(1) fs2 c2(3, 4) c1(3, 4) by simp
qed

end
