(* ===== verification/Candidate_Rebuild.thy ===== *)
theory Candidate_Rebuild
  imports Candidate_Steps
begin

text \<open>
  The generation of a collection: that it succeeds for readable files, and which decisions
  of the review it keeps.
\<close>

section \<open>Generation succeeds\<close>

text \<open>What is true of the candidates at every stage of a generation.\<close>

definition candidates_ok :: "(string \<Rightarrow> string) \<Rightarrow> int set \<Rightarrow> string \<Rightarrow> court_candidate list \<Rightarrow> bool" where
  "candidates_ok sha U a xs \<longleftrightarrow> list_all valid_candidate xs \<and> list_all (identified sha U a) xs \<and> distinct (concat (map pc_tracks xs))"

lemma distinct_concat_filter: "distinct (concat (map f xs)) \<Longrightarrow> distinct (concat (map f (filter p xs)))"
  by (induction xs) auto

lemma concat_split_disjoint:
  assumes "distinct (concat (map f xs))"
  shows "set (concat (map f (filter p xs))) \<inter> set (concat (map f (filter (\<lambda>x. \<not> p x) xs))) = {}"
  using assms by (induction xs) auto

lemma candidates_ok_ids:
  assumes ok: "candidates_ok sha U a xs" and inj: "inj_on (candidate_id sha a) (track_lists U)"
  shows "distinct (map pc_id xs)"
  using ok
proof (induction xs)
  case (Cons x xs)
  then have x: "valid_candidate x" "identified sha U a x" and xs: "candidates_ok sha U a xs"
    and disj: "set (pc_tracks x) \<inter> set (concat (map pc_tracks xs)) = {}"
    by (auto simp: candidates_ok_def)
  have "pc_id x \<noteq> pc_id y" if y: "y \<in> set xs" for y
  proof
    assume e: "pc_id x = pc_id y"
    have idy: "identified sha U a y" using xs y by (auto simp: candidates_ok_def list_all_iff)
    have "pc_tracks x = pc_tracks y"
      using inj_onD [OF inj, of "pc_tracks x" "pc_tracks y"] e x(2) idy by (simp add: identified_def track_lists_def)
    moreover have "hd (pc_tracks x) \<in> set (pc_tracks x)" using x(1) by (simp add: valid_candidate_def)
    ultimately show False using disj y by auto
  qed
  with Cons.IH [OF xs] show ?case by auto
qed simp

lemma candidates_ok_same:
  assumes "map member_key xs = map member_key ys"
  shows "candidates_ok sha U a xs = candidates_ok sha U a ys"
proof -
  have m: "image_mset member_key (mset xs) = image_mset member_key (mset ys)" using assms by (metis mset_map)
  have "map pc_tracks xs = map pc_tracks ys"
    unfolding key_columns(2) by (simp only: map_map [symmetric] assms)
  then show ?thesis
    unfolding candidates_ok_def
    by (simp only: key_columns(4) key_columns(5) key_list_all [OF m])
qed

lemma candidates_ok_perm:
  assumes "mset xs = mset ys"
  shows "candidates_ok sha U a xs = candidates_ok sha U a ys"
proof -
  have e: "mset (concat (map pc_tracks zs)) = sum_mset (image_mset mset (image_mset pc_tracks (mset zs)))" for zs :: "court_candidate list"
    by (induction zs) auto
  have "mset (concat (map pc_tracks xs)) = mset (concat (map pc_tracks ys))" by (simp only: e assms)
  note d = mset_eq_imp_distinct_iff [OF this]
  have "set xs = set ys" using assms by (rule mset_eq_setD)
  then show ?thesis unfolding candidates_ok_def list_all_iff d by simp
qed

lemma candidates_ok_groups:
  assumes fr: "fragments_ok (bi_fragments i)" "fst ` set (bi_fragments i) \<subseteq> U" and cut: "cut_from obs (bi_fragments i)"
    and v: "list_all valid_observation obs"
  shows "candidates_ok (bi_sha i) U (bi_analysis i) (map (\<lambda>g. build_candidate i g None) (associate_fragments (bi_fragments i)))"
proof -
  note gs = associate_groups [OF fr(1)]
  have g: "cg_tracks g \<noteq> []" "sorted_wrt (<) (cg_tracks g)" "set (cg_tracks g) \<subseteq> fst ` set (bi_fragments i)"
    if "g \<in> set (associate_fragments (bi_fragments i))" for g
    using that gs by (auto simp: list_all_iff coherent_group_def)
  show ?thesis
    unfolding candidates_ok_def
  proof (intro conjI)
    show "list_all valid_candidate (map (\<lambda>g. build_candidate i g None) (associate_fragments (bi_fragments i)))"
      using g built_candidate_valid(1) [OF cut v] by (auto simp: list_all_iff strict_sorted_iff)
    show "list_all (identified (bi_sha i) U (bi_analysis i)) (map (\<lambda>g. build_candidate i g None) (associate_fragments (bi_fragments i)))"
      using g fr(2) by (fastforce simp: list_all_iff intro!: identified_built)
    show "distinct (concat (map pc_tracks (map (\<lambda>g. build_candidate i g None) (associate_fragments (bi_fragments i)))))"
      using gs(2) by (simp add: comp_def built_candidate_columns)
  qed
qed

lemma candidates_ok_preserved: "candidates_ok sha U a (preserve_rejections p xs) = candidates_ok sha U a xs"
  by (rule candidates_ok_same) (auto simp: preserve_rejections_def split: option.splits)

lemma candidates_ok_merge:
  assumes ok: "candidates_ok (bi_sha i) U (bi_analysis i) xs"
    and cut: "cut_from obs (bi_fragments i)" and keys: "\<And>x. x \<in> set xs \<Longrightarrow> set (pc_tracks x) \<subseteq> fst ` set (bi_fragments i)"
    and v: "list_all valid_observation obs" and t: "frames_in_time obs" and d: "md_tracks d \<noteq> []"
  shows "candidates_ok (bi_sha i) U (bi_analysis i) (apply_persisted_merge i d xs)
    \<and> (\<forall>x\<in>set (apply_persisted_merge i d xs). set (pc_tracks x) \<subseteq> fst ` set (bi_fragments i))"
proof -
  let ?raw = "set (md_tracks d)"
  let ?part = "\<lambda>x. set (pc_tracks x) \<subseteq> ?raw"
  let ?source = "filter ?part xs"
  define m where "m = build_candidate i \<lparr>cg_tracks = sorted_list_of_set ?raw, cg_evidence = []\<rparr> (Some (md_id d))"
  define m' where "m' = (if list_ex (\<lambda>x. cc_status x = ReviewRejected) ?source
     then m\<lparr>cc_status := ReviewRejected, cc_rejection := first_reason ?source\<rparr> else m)"
  show ?thesis
  proof (cases "set (concat (map pc_tracks ?source)) = ?raw")
    case False
    with ok keys show ?thesis by (simp add: apply_persisted_merge_def Let_def)
  next
    case True
    have result: "apply_persisted_merge i d xs = filter (\<lambda>x. \<not> ?part x) xs @ [m']"
      using True by (simp add: apply_persisted_merge_def Let_def m_def m'_def)
    have tracks: "pc_tracks m' = sorted_list_of_set ?raw" by (simp add: m'_def m_def built_candidate_columns)
    have raw: "?raw \<subseteq> fst ` set (bi_fragments i)" using keys by (subst True [symmetric]) auto
    have "valid_candidate m"
      unfolding m_def by (rule built_candidate_valid(1) [OF cut v]) (use d raw t in simp_all)
    then have vm: "valid_candidate m'" by (auto simp: m'_def valid_candidate_def)
    have "identified (bi_sha i) U (bi_analysis i) m'"
      using identified_merge [of i U xs d] ok result by (auto simp: candidates_ok_def)
    moreover have "set (pc_tracks m') \<inter> set (concat (map pc_tracks (filter (\<lambda>x. \<not> ?part x) xs))) = {}"
      using concat_split_disjoint [of pc_tracks xs ?part] ok True by (simp add: tracks candidates_ok_def)
    ultimately show ?thesis
      using ok vm raw keys unfolding result
      by (auto simp: candidates_ok_def list_all_iff tracks intro: distinct_concat_filter)
  qed
qed

lemma candidates_ok_merges:
  assumes "candidates_ok (bi_sha i) U (bi_analysis i) xs" and "cut_from obs (bi_fragments i)"
    and "\<And>x. x \<in> set xs \<Longrightarrow> set (pc_tracks x) \<subseteq> fst ` set (bi_fragments i)"
    and "list_all valid_observation obs" and "frames_in_time obs" and "\<forall>d\<in>set ds. md_active d \<longrightarrow> md_tracks d \<noteq> []"
  shows "candidates_ok (bi_sha i) U (bi_analysis i) (persisted_merges i ds xs)"
  using assms unfolding persisted_merges_def
proof (induction ds arbitrary: xs)
  case (Cons d ds)
  show ?case
  proof (cases "md_active d")
    case True
    with Cons.prems have "md_tracks d \<noteq> []" by simp
    note m = candidates_ok_merge [OF Cons.prems(1-5) this]
    from m Cons.prems True show ?thesis by (simp only: foldl_Cons if_True) (rule Cons.IH, auto)
  next
    case False
    with Cons show ?thesis by simp
  qed
qed simp

text \<open>The merges of the previous collection that a generation repeats.\<close>

definition repeatable :: "bool \<Rightarrow> collection option \<Rightarrow> observation list \<Rightarrow> bool" where
  "repeatable preserve previous obs \<longleftrightarrow>
     (case previous of
        None \<Rightarrow> True
      | Some p \<Rightarrow> preserve \<longrightarrow> list_all (\<lambda>d. \<not> md_active d) (cl_decisions p)
          \<or> frames_in_time obs \<and> list_all (\<lambda>d. md_tracks d \<noteq> []) (cl_decisions p))"

lemma persisted_none: "list_all (\<lambda>d. \<not> md_active d) ds \<Longrightarrow> persisted_merges i ds xs = xs"
  unfolding persisted_merges_def by (induction ds arbitrary: xs) auto

lemma candidates_ok_ranked:
  assumes fr: "fragments_ok (bi_fragments i)" "fst ` set (bi_fragments i) \<subseteq> U" and cut: "cut_from obs (bi_fragments i)"
    and v: "list_all valid_observation obs" and rep: "repeatable preserve previous obs"
  shows "candidates_ok (bi_sha i) U (bi_analysis i) (ranked_candidates i preserve previous)"
proof -
  let ?cs = "map (\<lambda>g. build_candidate i g None) (associate_fragments (bi_fragments i))"
  note base = candidates_ok_groups [OF fr cut v]
  have sorted: "candidates_ok sha U a (sort_key candidate_rank xs) = candidates_ok sha U a xs" for sha a xs
    by (rule candidates_ok_perm) simp
  show ?thesis
  proof (cases "\<exists>p. previous = Some p \<and> preserve")
    case False
    with base show ?thesis by (cases previous) (auto simp: ranked_candidates_def sorted)
  next
    case True
    then obtain p where p: "previous = Some p" "preserve" by auto
    have ok: "candidates_ok (bi_sha i) U (bi_analysis i) (preserve_rejections p ?cs)" using base by (simp add: candidates_ok_preserved)
    have keys: "set (pc_tracks x) \<subseteq> fst ` set (bi_fragments i)" if x: "x \<in> set (preserve_rejections p ?cs)" for x
    proof -
      have "map pc_tracks (preserve_rejections p ?cs) = map cg_tracks (associate_fragments (bi_fragments i))"
        by (auto simp: preserve_rejections_def built_candidate_columns split: option.splits)
      with x have "pc_tracks x \<in> cg_tracks ` set (associate_fragments (bi_fragments i))" by (metis image_eqI list.set_map)
      with associate_groups(3) [OF fr(1)] show ?thesis by auto
    qed
    have "candidates_ok (bi_sha i) U (bi_analysis i) (persisted_merges i (cl_decisions p) (preserve_rejections p ?cs))"
    proof (cases "list_all (\<lambda>d. \<not> md_active d) (cl_decisions p)")
      case True
      with ok show ?thesis by (simp add: persisted_none)
    next
      case False
      with rep p have "frames_in_time obs" "\<forall>d\<in>set (cl_decisions p). md_active d \<longrightarrow> md_tracks d \<noteq> []"
        by (auto simp: repeatable_def list_all_iff)
      then show ?thesis by (intro candidates_ok_merges [OF ok cut keys v])
    qed
    with p show ?thesis by (simp add: ranked_candidates_def sorted)
  qed
qed

lemma collection_of_valid:
  assumes fr: "fragments_ok (bi_fragments i)" "fst ` set (bi_fragments i) \<subseteq> U" and cut: "cut_from obs (bi_fragments i)"
    and v: "list_all valid_observation obs" and rep: "repeatable preserve previous obs"
    and inj: "inj_on (candidate_id (bi_sha i) (bi_analysis i)) (track_lists U)"
  shows "valid_collection (collection_of g i preserve previous report)"
proof -
  let ?r = "ranked_candidates i preserve previous"
  let ?w = "initial_selection preserve previous report ?r"
  let ?l = "apply_selection_policy ?r ?w"
  let ?cs = "mark_chosen (eligible_selection ?l ?w) ?l"
  let ?c = "collection_of g i preserve previous report"
  have ranked: "candidates_ok (bi_sha i) U (bi_analysis i) ?r" by (rule candidates_ok_ranked [OF fr cut v rep])
  then have limited: "candidates_ok (bi_sha i) U (bi_analysis i) ?l"
  proof -
    have "list_all (identified (bi_sha i) U (bi_analysis i)) ?l"
      using ranked policy_map [of ?r ?w] by (auto simp: candidates_ok_def list_all_iff)
    with ranked show ?thesis by (simp add: candidates_ok_def policy_columns(2, 5))
  qed
  have cs: "candidates_ok (bi_sha i) U (bi_analysis i) ?cs"
    using limited by (subst candidates_ok_same [of _ ?l]) (auto simp: mark_chosen_def)
  have gen: "generated i preserve previous report = (?cs, eligible_selection ?l ?w)" by (simp add: generated_def Let_def)
  have ids: "distinct (map pc_id ?cs)" by (rule candidates_ok_ids [OF cs inj])
  have c: "members ?c = filter selectable_now ?cs @ filter (\<lambda>x. \<not> selectable_now x) ?cs"
    "cl_selected ?c = eligible_selection ?l ?w" "cl_version ?c = current_version"
    by (simp_all add: members_def collection_of_def gen Let_def)
  have p: "mset (members ?c) = mset ?cs" unfolding c by (rule members_split)
  have "candidates_ok (bi_sha i) U (bi_analysis i) (members ?c)" using cs candidates_ok_perm [OF p] by simp
  moreover have "distinct (map pc_id (members ?c))" using ids p by (metis mset_eq_imp_distinct_iff mset_map)
  moreover have "q \<in> set (map pc_id (members ?c))" if "cl_selected ?c = Some q" for q
    using generated_facts(4) [OF fr gen ids, of q] that c(2) mset_eq_setD [OF p] by auto
  ultimately show ?thesis
    by (auto simp: valid_collection_def unique_membership_def candidates_ok_def c(3) current_version_def split: option.splits)
qed

lemma build_success:
  assumes prev: "load_optional_collection fs = Inr previous" and obs: "load_observations fs = Inr obs" and v: "load_video fs = Inr v"
    and w: "fl_writable fs" and r: "fl_report fs \<noteq> BadFile" and rep: "repeatable preserve previous obs"
    and inj: "inj_on (candidate_id (gn_sha g) a) (track_lists (ob_track ` set obs))"
  shows "\<exists>c step fs'. generating g a report preserve fs = Inr (c, step) \<and> build_candidates g a report preserve fs = (Inr c, fs')
    \<and> fl_collection fs' = Stored c \<and> valid_collection c"
proof -
  let ?i = "input_of g a obs v" and ?c = "collection_of g (input_of g a obs v) preserve previous report"
  have i: "bi_sha ?i = gn_sha g" "bi_analysis ?i = a" "fragments_ok (bi_fragments ?i)"
      "fst ` set (bi_fragments ?i) \<subseteq> ob_track ` set obs" "cut_from obs (bi_fragments ?i)"
    by (simp_all add: input_of_def fragments_ok_attach fragments_ok_build keys_attach keys_build cut_from_attach cut_from_build)
  have v': "list_all valid_observation obs" using load_observations_tracks [OF obs] by auto
  have valid: "valid_collection ?c"
    by (rule collection_of_valid [OF i(3, 4, 5) v' rep]) (simp add: i inj)
  have g: "generating g a report preserve fs = Inr (?c, generation_step fs ?c)"
    using prev obs v valid by (simp add: generating_def Let_def)
  show ?thesis
  proof (cases "fl_report fs")
    case NoFile
    with g valid w show ?thesis
      by (auto simp: build_candidates_def reviewed_def commit_def write_collection_def update_report_def generation_step_def)
  next
    case (Stored t)
    from commit_ok [OF w disjI2 [OF Stored], of "gn_now g" ?c "generation_step fs ?c"]
    obtain fs' where "commit (gn_now g) fs (?c, generation_step fs ?c) = (Inr ?c, fs')" "fl_collection fs' = Stored ?c" by blast
    with g valid show ?thesis by (auto simp: build_candidates_def reviewed_def)
  qed (use r in simp)
qed

section \<open>What a regeneration keeps\<close>

text \<open>Without merges to repeat, the ranked candidates are the groups with the rejections of the previous collection.\<close>

lemma ranked_without_merges:
  assumes "list_all (\<lambda>d. \<not> md_active d) (cl_decisions p)"
  shows "set (ranked_candidates i True (Some p))
    = set (preserve_rejections p (map (\<lambda>g. build_candidate i g None) (associate_fragments (bi_fragments i))))"
  using assms by (simp add: ranked_candidates_def persisted_none)

lemma distinct_concat_unique:
  assumes "distinct (concat (map f xs))" and "x \<in> set xs" "y \<in> set xs" "f x = f y" "f x \<noteq> []"
  shows "x = y"
proof -
  obtain t where "t \<in> set (f x)" "t \<in> set (f y)" using assms(4, 5) by (metis list.set_sel(1))
  with assms(1-3) show ?thesis by (induction xs) auto
qed

lemma rejected_before_unique:
  assumes d: "distinct (concat (map pc_tracks (cl_excluded p)))" and v: "list_all valid_candidate (cl_excluded p)"
    and x: "x \<in> set (cl_excluded p)" "pc_eligible x" "cc_status x = ReviewRejected"
  shows "rejected_before p (pc_tracks x) = Some x"
proof -
  let ?r = "rev (filter (\<lambda>x. pc_eligible x \<and> cc_status x = ReviewRejected) (cl_excluded p))"
  have "pc_tracks x \<noteq> []" using v x(1) by (auto simp: list_all_iff valid_candidate_def)
  then have same: "y = x" if "y \<in> set (cl_excluded p)" "pc_tracks y = pc_tracks x" for y
    using distinct_concat_unique [OF d that(1) x(1) that(2)] that(2) by simp
  have "find (\<lambda>y. pc_tracks y = pc_tracks x) ?r \<noteq> None" using x by (auto simp: find_None_all)
  then obtain y where y: "find (\<lambda>y. pc_tracks y = pc_tracks x) ?r = Some y" by auto
  with find_Some_in [OF y] same show ?thesis by (auto simp: rejected_before_def)
qed

lemma generated_image:
  assumes gen: "generated i preserve previous report = (cs, chosen)" and y: "y \<in> set (ranked_candidates i preserve previous)"
  shows "\<exists>z\<in>set cs. pc_id z = pc_id y \<and> pc_tracks z = pc_tracks y \<and> cc_rejection z = cc_rejection y
    \<and> (Some (pc_id y) \<noteq> chosen \<longrightarrow> cc_status z = cc_status y)"
proof -
  let ?r = "ranked_candidates i preserve previous"
  let ?w = "initial_selection preserve previous report ?r"
  obtain p where l: "apply_selection_policy ?r ?w = map (\<lambda>x. if p x then outside_top_four x else x) ?r"
    using policy_map by blast
  let ?z = "if p y then outside_top_four y else y"
  have "?z \<in> set (apply_selection_policy ?r ?w)" using y by (auto simp: l)
  then have "(if Some (pc_id ?z) = chosen then ?z\<lparr>cc_status := ReviewSelected\<rparr> else ?z) \<in> set cs"
    using gen by (auto simp: generated_def Let_def mark_chosen_def)
  then show ?thesis
    by (rule bexI [rotated]) (simp add: outside_top_four_def)
qed

lemma generated_choice:
  assumes "generated i preserve previous report = (cs, Some q)"
  shows "initial_selection preserve previous report (ranked_candidates i preserve previous) = Some q"
  using assms by (auto simp: generated_def Let_def eligible_selection_def split: if_splits)

lemma generated_keeps_choice:
  assumes gen: "generated i preserve previous report = (cs, chosen)" and d: "distinct (map pc_id (ranked_candidates i preserve previous))"
    and w: "initial_selection preserve previous report (ranked_candidates i preserve previous) = Some q"
    and y: "y \<in> set (ranked_candidates i preserve previous)" "pc_eligible y" "pc_id y = q"
  shows "chosen = Some q"
proof -
  have "y \<in> set (apply_selection_policy (ranked_candidates i preserve previous) (Some q))"
    by (rule policy_eligible [OF d]) (use y in auto)
  with gen w y show ?thesis by (auto simp: generated_def Let_def eligible_selection_def list_ex_iff split: if_splits)
qed

lemma preserved_image:
  assumes "g \<in> set (associate_fragments (bi_fragments i))"
  shows "\<exists>y\<in>set (preserve_rejections p (map (\<lambda>g. build_candidate i g None) (associate_fragments (bi_fragments i)))).
    pc_tracks y = cg_tracks g \<and> pc_id y = candidate_id (bi_sha i) (bi_analysis i) (cg_tracks g)
    \<and> pc_eligible y = pc_eligible (build_candidate i g None)
    \<and> (case rejected_before p (cg_tracks g) of None \<Rightarrow> True | Some x \<Rightarrow> cc_status y = ReviewRejected \<and> cc_rejection y = cc_rejection x)"
proof -
  let ?x = "build_candidate i g None"
  let ?y = "case rejected_before p (pc_tracks ?x) of None \<Rightarrow> ?x | Some q \<Rightarrow> ?x\<lparr>cc_status := ReviewRejected, cc_rejection := cc_rejection q\<rparr>"
  have "?y \<in> set (preserve_rejections p (map (\<lambda>g. build_candidate i g None) (associate_fragments (bi_fragments i))))"
    using assms by (auto simp: preserve_rejections_def)
  then show ?thesis
    by (rule bexI [rotated]) (simp add: built_candidate_columns split: option.splits)
qed

text \<open>
  A regeneration with the previous collection, without merges to repeat: a rejected
  candidate whose tracks still form a group is excluded again, and the selection stays
  with a candidate that is still eligible.
\<close>

lemma regeneration_keeps:
  assumes g: "generating g a report True fs = Inr (c, step)" and p: "load_current fs = Inr p"
    and okp: "collection_ok (gn_sha g) U p" "cl_analysis p = a" and okc: "collection_ok (gn_sha g) U c"
    and none: "list_all (\<lambda>d. \<not> md_active d) (cl_decisions p)"
    and obs: "load_observations fs = Inr obs" and v: "load_video fs = Inr v"
    and grp: "h \<in> set (associate_fragments (bi_fragments (input_of g a obs v)))"
  shows "x \<in> set (cl_excluded p) \<Longrightarrow> pc_eligible x \<Longrightarrow> cc_status x = ReviewRejected \<Longrightarrow> pc_tracks x = cg_tracks h
      \<Longrightarrow> \<exists>y\<in>set (cl_excluded c). pc_id y = pc_id x \<and> pc_tracks y = pc_tracks x \<and> cc_status y = ReviewRejected \<and> cc_rejection y = cc_rejection x"
    and "cl_selected p = Some q \<Longrightarrow> candidate_id (gn_sha g) a (cg_tracks h) = q
      \<Longrightarrow> pc_eligible (build_candidate (input_of g a obs v) h None) \<Longrightarrow> cl_selected c = Some q"
proof -
  let ?i = "input_of g a obs v"
  from p have stored: "fl_collection fs = Stored p" "valid_collection p" "cl_version p = current_version" by (simp_all add: load_current_Inr)
  have opt: "load_optional_collection fs = Inr (Some p)" using stored by (simp add: load_optional_collection_def load_collection_def)
  from g have c: "c = collection_of g ?i True (Some p) report"
    by (auto elim!: generating_Inr simp: opt obs v)
  obtain cs chosen where gen: "generated ?i True (Some p) report = (cs, chosen)" by fastforce
  let ?r = "ranked_candidates ?i True (Some p)"
  have cl: "cl_candidates c = filter selectable_now cs" "cl_excluded c = filter (\<lambda>x. \<not> selectable_now x) cs" "cl_selected c = chosen"
    by (simp_all add: c collection_of_def gen Let_def)
  have pm: "mset (members c) = mset cs" unfolding members_def cl by (rule members_split)
  have idc: "distinct (map pc_id cs)"
    using okc pm by (metis collection_okD(2) membership_ok_def mset_eq_imp_distinct_iff mset_map)
  have "map pc_id cs = map pc_id ?r" using gen by (auto simp: generated_def Let_def mark_chosen_columns(1) policy_columns(1))
  then have idr: "distinct (map pc_id ?r)" using idc by simp
  have bi: "bi_sha ?i = gn_sha g" "bi_analysis ?i = a" by (simp_all add: input_of_def)
  note ranked = ranked_without_merges [OF none, of ?i]
  obtain y where y: "y \<in> set ?r" "pc_tracks y = cg_tracks h" "pc_id y = candidate_id (gn_sha g) a (cg_tracks h)"
      "pc_eligible y = pc_eligible (build_candidate ?i h None)"
      "case rejected_before p (cg_tracks h) of None \<Rightarrow> True | Some x \<Rightarrow> cc_status y = ReviewRejected \<and> cc_rejection y = cc_rejection x"
    using preserved_image [OF grp, of p] unfolding ranked bi by blast
  {
    assume q: "cl_selected p = Some q" "candidate_id (gn_sha g) a (cg_tracks h) = q" "pc_eligible (build_candidate ?i h None)"
    have "q \<in> set (map pc_id ?r)" using y(1, 3) q(2) by auto
    then have "initial_selection True (Some p) report ?r = Some q"
      using q(1) stored(3) by (simp add: initial_selection_def preserved_selection_def)
    from generated_keeps_choice [OF gen idr this y(1)] y(3, 4) q show "cl_selected c = Some q" by (simp add: cl)
  }
  {
    assume x: "x \<in> set (cl_excluded p)" "pc_eligible x" "cc_status x = ReviewRejected" "pc_tracks x = cg_tracks h"
    have "rejected_before p (pc_tracks x) = Some x"
      by (rule rejected_before_unique [OF _ _ x(1-3)]) (use okp(1) in \<open>auto simp: collection_ok_def membership_ok_def members_def\<close>)
    with y(5) x(4) have rej: "cc_status y = ReviewRejected" "cc_rejection y = cc_rejection x" by simp_all
    have idx: "identified (gn_sha g) U a x" and mem: "membership_ok (gn_sha g) U a (members p)"
      using okp x(1) by (auto simp: collection_ok_def membership_ok_def members_def list_all_iff)
    then have same: "pc_id y = pc_id x" using x(4) y(3) by (simp add: identified_def)
    have "Some (pc_id x) \<noteq> chosen"
    proof
      assume "Some (pc_id x) = chosen"
      with gen have "generated ?i True (Some p) report = (cs, Some (pc_id x))" by simp
      from generated_choice [OF this] stored(3) have "preserved_selection ?r p = Some (pc_id x)" by (simp add: initial_selection_def)
      then obtain w where w: "cl_selected p = Some w" by (auto simp: preserved_selection_def split: option.splits)
      then obtain s where s: "s \<in> set (cl_candidates p)" "pc_id s = w" using collection_okD(6) [OF okp(1)] by auto
      have sx: "pc_id s \<noteq> pc_id x" using mem s(1) x(1) by (auto simp: membership_ok_def members_def)
      have "w \<notin> set (map pc_id ?r)"
        using \<open>preserved_selection ?r p = Some (pc_id x)\<close> w s(2) sx by (auto simp: preserved_selection_def)
      with \<open>preserved_selection ?r p = Some (pc_id x)\<close> w obtain pr z where pr: "find (\<lambda>x. pc_id x = w) (members p) = Some pr"
        and z: "find (\<lambda>x. set (pc_tracks x) = set (pc_tracks pr)) ?r = Some z"
        by (auto simp: preserved_selection_def split: option.splits)
      have pr': "pr \<in> set (members p)" "pc_id pr = w" using find_Some_in [OF pr] by auto
      have z': "z \<in> set ?r" "set (pc_tracks z) = set (pc_tracks pr)" using find_Some_in [OF z] by auto
      have "identified (gn_sha g) U a pr" using mem pr'(1) by (auto simp: membership_ok_def list_all_iff)
      moreover have "fragments_ok (bi_fragments ?i)" by (simp add: input_of_def fragments_ok_attach fragments_ok_build)
      then have "identified (gn_sha g) (fst ` set (bi_fragments ?i)) a z"
        using identified_ranked [of ?i "fst ` set (bi_fragments ?i)" True "Some p"] z'(1) by (auto simp: bi list_all_iff)
      ultimately have "pc_id z = w" using z'(2) pr'(2) by (auto simp: identified_def dest: strict_sorted_equal)
      with z'(1) \<open>w \<notin> set (map pc_id ?r)\<close> show False by auto
    qed
    then obtain z where "z \<in> set cs" "pc_id z = pc_id y" "pc_tracks z = pc_tracks y" "cc_rejection z = cc_rejection y" "cc_status z = cc_status y"
      using generated_image [OF gen y(1)] same by auto
    then show "\<exists>y\<in>set (cl_excluded c). pc_id y = pc_id x \<and> pc_tracks y = pc_tracks x \<and> cc_status y = ReviewRejected \<and> cc_rejection y = cc_rejection x"
      using rej same x(4) y(2) by (intro bexI [of _ z]) (auto simp: cl selectable_now_def)
  }
qed

end
