(* ===== verification/Candidate_Properties.thy ===== *)
theory Candidate_Properties
  imports Candidate_Rebuild
begin

text \<open>What the generation and the review of player candidates promise.\<close>

section \<open>A small recording\<close>







definition demo_candidate :: "string \<Rightarrow> int list \<Rightarrow> rat \<Rightarrow> rat \<Rightarrow> review_status \<Rightarrow> court_candidate" where
  "demo_candidate i tracks first latest status =
     \<lparr>pc_id = i, pc_tracks = tracks, pc_first = first, pc_last = latest, pc_observed = latest - first, pc_visibility = 1, pc_eligible = True,
      pc_quality = CandUsable, cc_frames = 4, cc_distance = 3, cc_rate = 2, cc_exclusions = [], cc_frame = None, cc_crop = None,
      cc_full = None, cc_previews = [], cc_box = \<lparr>ab_width = 40, ab_height = 100, ab_area = 1/100\<rparr>, cc_side = SideNear,
      cc_reasons = [], cc_warnings = [], cc_evidence = [], cc_status = status, cc_rejection = None, cc_merge = None\<rparr>"









section \<open>Generation\<close>

text \<open>
  C27: The fragments of a recording are partitioned into groups: every track of the
  observations is in exactly one group, the fragments of a group are never seen at the same
  time nor on opposite sides of the net, and the plausible edges that joined them are a
  spanning tree of the group.
\<close>

theorem candidate_groups:
  "let fs = attach_descriptors m (build_fragments obs); groups = associate_fragments fs in
     distinct (concat (map cg_tracks groups)) \<and> set (concat (map cg_tracks groups)) = ob_track ` set obs
     \<and> list_all (coherent_group fs) groups"
proof -
  have "fragments_ok (attach_descriptors m (build_fragments obs))" by (simp add: fragments_ok_attach fragments_ok_build)
  from associate_groups [OF this] show ?thesis by (simp add: keys_attach keys_build Let_def)
qed



section \<open>Review\<close>








text \<open>
  C32: The selection policy leaves at most four candidates that may be selected. It never
  drops the selected one, and every other candidate it keeps ranks strictly above every
  one it drops.
\<close>

theorem selection_policy:
  assumes "distinct (map pc_id cs)"
  shows "length (filter pc_eligible (apply_selection_policy cs chosen)) \<le> 4
     \<and> (\<forall>x\<in>set cs. pc_eligible x \<longrightarrow> Some (pc_id x) = chosen \<longrightarrow> x \<in> set (apply_selection_policy cs chosen))
     \<and> (\<forall>x\<in>set cs. \<forall>y\<in>set (apply_selection_policy cs chosen). pc_eligible x \<longrightarrow> x \<notin> set (apply_selection_policy cs chosen)
          \<longrightarrow> pc_eligible y \<longrightarrow> Some (pc_id y) \<noteq> chosen \<longrightarrow> candidate_rank y < candidate_rank x)"
  using policy_at_most_four [OF assms] policy_eligible [OF assms] policy_best [OF assms] by blast

theorem selection_policy_witness:
  "distinct (map pc_id (map (\<lambda>n. demo_candidate (''pc_'' @ decimal n) [int n] 0 (of_nat n) ReviewPending) [1, 2, 3, 4, 5]))
   \<and> length (filter pc_eligible (apply_selection_policy
       (map (\<lambda>n. demo_candidate (''pc_'' @ decimal n) [int n] 0 (of_nat n) ReviewPending) [1, 2, 3, 4, 5]) (Some ''pc_1''))) \<le> 4"
proof -
  let ?cs = "map (\<lambda>n. demo_candidate (''pc_'' @ decimal n) [int n] 0 (of_nat n) ReviewPending) [1, 2, 3, 4, 5]"
  have d: "distinct (map pc_id ?cs)" by code_simp
  from selection_policy [OF d, of "Some ''pc_1''"] d show ?thesis by blast
qed

section \<open>Merges\<close>







section \<open>Regeneration\<close>




end
