(* ===== verification/Active_Play.thy ===== *)
theory Active_Play
  imports Candidate_Review
begin

text \<open>
  The shadow estimate of active play (\<^verbatim>\<open>app/services/active_play/engine.py\<close>,
  \<^verbatim>\<open>policy.py\<close>, \<^verbatim>\<open>app/schemas/active_play.py\<close>): a window of motion evidence is classified
  as likely active, likely idle or unknown, and adjoining windows of one state are merged
  into intervals. The constructors of the schema validate, so every value is built by a
  function that may raise. Speeds are real numbers, times and ratios rationals.
\<close>

section \<open>Data\<close>

datatype play_state = LikelyActive | LikelyIdle | PlayUnknown
datatype play_confidence = PlayHigh | PlayModerate | PlayLow | PlayNotAvailable
datatype play_visibility = SeenHigh | SeenModerate | SeenLow | SeenNotAvailable
datatype gap_severity = GapNone | GapMinor | GapSevere
datatype play_continuity = ContinuityStrong | ContinuityLimited | ContinuityPoor | ContinuityNotAvailable

datatype play_reason = SufficientCoverage | SustainedMovement | SimultaneousMovement | DirectionChanges
  | StationaryWithActivePeers | SustainedLowMovement | StableLowActivity | CasualMovement | KitchenSafeguard
  | InsufficientCoverage | InsufficientPlayers | OnePlayerOnly | TrackingGap | SevereGaps | FragmentedCandidates
  | UnsuitableRecording | StaleSource | ShortContext | ConflictingEvidence | NoObservations

fun reason_value :: "play_reason \<Rightarrow> string" where
  "reason_value SufficientCoverage = ''SUFFICIENT_TRACKED_COVERAGE''"
| "reason_value SustainedMovement = ''SUSTAINED_MULTI_PLAYER_MOVEMENT''"
| "reason_value SimultaneousMovement = ''SIMULTANEOUS_MOVEMENT''"
| "reason_value DirectionChanges = ''MEANINGFUL_DIRECTION_CHANGES''"
| "reason_value StationaryWithActivePeers = ''STATIONARY_PLAYER_WITH_ACTIVE_PEERS''"
| "reason_value SustainedLowMovement = ''SUSTAINED_LOW_MOVEMENT''"
| "reason_value StableLowActivity = ''STABLE_LOW_ACTIVITY''"
| "reason_value CasualMovement = ''CASUAL_LOW_INTENSITY_MOVEMENT''"
| "reason_value KitchenSafeguard = ''KITCHEN_LOW_MOVEMENT_SAFEGUARD''"
| "reason_value InsufficientCoverage = ''INSUFFICIENT_TRACKED_COVERAGE''"
| "reason_value InsufficientPlayers = ''INSUFFICIENT_RELIABLE_PLAYERS''"
| "reason_value OnePlayerOnly = ''ONE_PLAYER_ONLY''"
| "reason_value TrackingGap = ''TRACKING_GAP''"
| "reason_value SevereGaps = ''SEVERE_TRACKING_GAPS''"
| "reason_value FragmentedCandidates = ''FRAGMENTED_CANDIDATES''"
| "reason_value UnsuitableRecording = ''UNSUITABLE_RECORDING''"
| "reason_value StaleSource = ''STALE_SOURCE_ARTIFACT''"
| "reason_value ShortContext = ''SHORT_CONTEXT''"
| "reason_value ConflictingEvidence = ''CONFLICTING_EVIDENCE''"
| "reason_value NoObservations = ''NO_OBSERVATIONS''"

definition all_reasons :: "play_reason list" where
  "all_reasons = [SufficientCoverage, SustainedMovement, SimultaneousMovement, DirectionChanges,
     StationaryWithActivePeers, SustainedLowMovement, StableLowActivity, CasualMovement, KitchenSafeguard,
     InsufficientCoverage, InsufficientPlayers, OnePlayerOnly, TrackingGap, SevereGaps, FragmentedCandidates,
     UnsuitableRecording, StaleSource, ShortContext, ConflictingEvidence, NoObservations]"

record play_coverage =
  av_observed :: rat
  av_window :: rat
  av_ratio :: rat
  av_visible :: nat
  av_reliable :: nat

record play_signals =
  sg_speed :: real
  sg_change :: real
  sg_intensity :: real
  sg_directions :: real
  sg_stationary :: rat
  sg_kitchen :: nat
  sg_moving :: nat
  sg_simultaneous :: bool
  sg_together :: rat
  sg_visibility :: play_visibility
  sg_gap :: gap_severity
  sg_continuity :: play_continuity

record play_lineage =
  ln_candidates :: "string list"
  ln_tracks :: "int list"

record motion_window =
  mw_start :: rat
  mw_end :: rat
  mw_coverage :: play_coverage
  mw_signals :: play_signals
  mw_reasons :: "play_reason list"
  mw_lineage :: play_lineage
  mw_policy :: string

record play_window =
  pw_start :: rat
  pw_end :: rat
  pw_state :: play_state
  pw_confidence :: play_confidence
  pw_coverage :: play_coverage
  pw_signals :: play_signals
  pw_reasons :: "play_reason list"
  pw_limitations :: "string list"
  pw_lineage :: play_lineage
  pw_policy :: string

record play_interval = play_window +
  pi_windows :: nat

section \<open>Validation\<close>

definition valid_coverage :: "play_coverage \<Rightarrow> bool" where
  "valid_coverage c \<longleftrightarrow> 0 \<le> av_observed c \<and> 0 < av_window c \<and> 0 \<le> av_ratio c \<and> av_ratio c \<le> 1
     \<and> av_observed c \<le> av_window c + 1/10^6
     \<and> \<bar>av_observed c / av_window c - av_ratio c\<bar> \<le> 1/10^5
     \<and> av_reliable c \<le> av_visible c"

definition valid_signals :: "play_signals \<Rightarrow> bool" where
  "valid_signals s \<longleftrightarrow> 0 \<le> sg_speed s \<and> 0 \<le> sg_change s \<and> 0 \<le> sg_intensity s \<and> sg_intensity s \<le> 1
     \<and> 0 \<le> sg_directions s \<and> 0 \<le> sg_stationary s \<and> 0 \<le> sg_together s"

definition valid_span :: "rat \<Rightarrow> rat \<Rightarrow> play_coverage \<Rightarrow> bool" where
  "valid_span a b c \<longleftrightarrow> 0 \<le> a \<and> 0 < b \<and> a < b \<and> \<bar>(b - a) - av_window c\<bar> \<le> 1/10^5"

definition valid_motion :: "motion_window \<Rightarrow> bool" where
  "valid_motion w \<longleftrightarrow> valid_coverage (mw_coverage w) \<and> valid_signals (mw_signals w)
     \<and> valid_span (mw_start w) (mw_end w) (mw_coverage w)"

definition valid_estimate :: "'a play_window_scheme \<Rightarrow> bool" where
  "valid_estimate w \<longleftrightarrow> valid_coverage (pw_coverage w) \<and> valid_signals (pw_signals w)
     \<and> valid_span (pw_start w) (pw_end w) (pw_coverage w) \<and> pw_reasons w \<noteq> [] \<and> pw_limitations w \<noteq> []"

definition valid_interval :: "play_interval \<Rightarrow> bool" where
  "valid_interval i \<longleftrightarrow> valid_estimate i \<and> 1 \<le> pi_windows i"

datatype active_error = InvalidEstimate | ActiveNotReady | ActivePersistence string

definition checked :: "('a \<Rightarrow> bool) \<Rightarrow> 'a \<Rightarrow> active_error + 'a" where
  "checked valid x = (if valid x then Inr x else Inl InvalidEstimate)"

section \<open>Policy\<close>

record play_policy =
  po_version :: string
  po_window :: rat
  po_smoothing :: rat
  po_min_delta :: rat
  po_max_gap :: rat
  po_min_context :: rat
  po_min_in_court :: rat
  po_min_duration :: rat
  po_max_fragments :: nat
  po_player_ratio :: rat
  po_window_ratio :: rat
  po_strong_ratio :: rat
  po_players :: nat
  po_moving_speed :: real
  po_stationary_speed :: real
  po_reference_speed :: real
  po_active_intensity :: real
  po_idle_intensity :: real
  po_min_moving :: rat
  po_min_simultaneous :: rat
  po_direction_degrees :: real
  po_direction_speed :: real
  po_direction_rate :: real
  po_minor_gap :: rat
  po_severe_gap :: rat
  po_discontinuity :: rat

definition active_play_policy :: play_policy where
  "active_play_policy = \<lparr>po_version = ''active-play-v1'', po_window = 3, po_smoothing = 1/2, po_min_delta = 8/100,
     po_max_gap = 75/100, po_min_context = 6, po_min_in_court = 30/100, po_min_duration = 1, po_max_fragments = 3,
     po_player_ratio = 55/100, po_window_ratio = 65/100, po_strong_ratio = 85/100, po_players = 2,
     po_moving_speed = 8/10, po_stationary_speed = 3/10, po_reference_speed = 4, po_active_intensity = 25/100,
     po_idle_intensity = 12/100, po_min_moving = 1/2, po_min_simultaneous = 35/100, po_direction_degrees = 50,
     po_direction_speed = 1/2, po_direction_rate = 8/100, po_minor_gap = 15/100, po_severe_gap = 35/100,
     po_discontinuity = 5/100\<rparr>"

section \<open>Classification of a window\<close>

definition base_limitations :: "string list" where
  "base_limitations = [''Ball movement was not observed.'', ''Warm-up and ball retrieval may resemble likely active play.'',
     ''Slow live play may be misclassified.'',
     ''States are unvalidated shadow-mode estimates, not rally or point detection.'']"

definition unknown_limitation :: string where
  "unknown_limitation = ''Weak or incomplete tracking evidence prevented a classification.''"

definition sorted_reasons :: "play_reason list \<Rightarrow> play_reason list" where
  "sorted_reasons rs = sort_key reason_value (remdups rs)"

record play_context =
  px_duration :: rat
  px_quality :: "quality_assessment option"
  px_current :: bool

definition unsuitable :: "play_context \<Rightarrow> bool" where
  "unsuitable x \<longleftrightarrow> (case px_quality x of None \<Rightarrow> False | Some q \<Rightarrow> qa_status q = Unsuitable)"

definition short_context :: "play_policy \<Rightarrow> play_context \<Rightarrow> motion_window \<Rightarrow> bool" where
  "short_context p x f \<longleftrightarrow> px_duration x < po_min_context p \<or> av_window (mw_coverage f) < po_window p - 1/10^6"

definition unclassifiable :: "play_policy \<Rightarrow> play_context \<Rightarrow> motion_window \<Rightarrow> bool" where
  "unclassifiable p x f \<longleftrightarrow> unsuitable x \<or> short_context p x f
     \<or> av_reliable (mw_coverage f) < po_players p \<or> av_ratio (mw_coverage f) < po_window_ratio p
     \<or> sg_gap (mw_signals f) = GapSevere \<or> \<not> px_current x"

definition blocking_reasons :: "play_policy \<Rightarrow> play_context \<Rightarrow> motion_window \<Rightarrow> play_reason list" where
  "blocking_reasons p x f =
     (if unsuitable x then [UnsuitableRecording] else [])
     @ (if short_context p x f then [ShortContext] else [])
     @ (if \<not> px_current x then [StaleSource] else [])"

definition active_evidence :: "play_policy \<Rightarrow> motion_window \<Rightarrow> bool" where
  "active_evidence p f \<longleftrightarrow> sg_moving (mw_signals f) \<ge> po_players p \<and> sg_simultaneous (mw_signals f)
     \<and> sg_intensity (mw_signals f) \<ge> po_active_intensity p"

definition idle_evidence :: "play_policy \<Rightarrow> motion_window \<Rightarrow> bool" where
  "idle_evidence p f \<longleftrightarrow> sg_moving (mw_signals f) = 0 \<and> sg_kitchen (mw_signals f) = 0
     \<and> sg_intensity (mw_signals f) \<le> po_idle_intensity p
     \<and> sg_stationary (mw_signals f) \<ge> av_window (mw_coverage f) * po_player_ratio p"

definition supported_confidence :: "play_policy \<Rightarrow> motion_window \<Rightarrow> play_confidence" where
  "supported_confidence p f =
     (if av_ratio (mw_coverage f) \<ge> po_strong_ratio p \<and> sg_continuity (mw_signals f) = ContinuityStrong
        \<and> sg_visibility (mw_signals f) = SeenHigh
      then PlayModerate else PlayLow)"

definition active_reasons :: "play_policy \<Rightarrow> motion_window \<Rightarrow> play_reason list" where
  "active_reasons p f =
     [SustainedMovement, SimultaneousMovement]
     @ (if sg_directions (mw_signals f) \<ge> po_direction_rate p then [DirectionChanges] else [])
     @ (if sg_moving (mw_signals f) < av_reliable (mw_coverage f) then [StationaryWithActivePeers] else [])"

definition conflict_reasons :: "motion_window \<Rightarrow> play_reason list" where
  "conflict_reasons f = (if sg_kitchen (mw_signals f) > 0 then [KitchenSafeguard] else []) @ [ConflictingEvidence]"

text \<open>The state, its confidence and the reasons the evidence adds.\<close>

definition judgement :: "play_policy \<Rightarrow> play_context \<Rightarrow> motion_window \<Rightarrow> play_state \<times> play_confidence \<times> play_reason list" where
  "judgement p x f =
     (if unclassifiable p x f then (PlayUnknown, PlayNotAvailable, [])
      else if active_evidence p f then (LikelyActive, supported_confidence p f, active_reasons p f)
      else if idle_evidence p f then (LikelyIdle, supported_confidence p f, [SustainedLowMovement, StableLowActivity])
      else (PlayUnknown, PlayLow, conflict_reasons f))"

definition classify_window :: "play_policy \<Rightarrow> play_context \<Rightarrow> motion_window \<Rightarrow> active_error + play_window" where
  "classify_window p x f =
     (case judgement p x f of (state, confidence, reasons) \<Rightarrow>
        checked valid_estimate
          \<lparr>pw_start = mw_start f, pw_end = mw_end f, pw_state = state, pw_confidence = confidence,
           pw_coverage = mw_coverage f, pw_signals = mw_signals f,
           pw_reasons = sorted_reasons (mw_reasons f @ blocking_reasons p x f @ reasons),
           pw_limitations = base_limitations @ (if state = PlayUnknown then [unknown_limitation] else []),
           pw_lineage = mw_lineage f, pw_policy = po_version p\<rparr>)"

text \<open>A comprehension whose body may raise.\<close>

fun mapE :: "('a \<Rightarrow> 'e + 'b) \<Rightarrow> 'a list \<Rightarrow> 'e + 'b list" where
  "mapE f [] = Inr []"
| "mapE f (x # xs) = bindE (f x) (\<lambda>y. bindE (mapE f xs) (\<lambda>ys. Inr (y # ys)))"

definition classify_motion_windows :: "play_policy \<Rightarrow> play_context \<Rightarrow> motion_window list \<Rightarrow> active_error + play_window list" where
  "classify_motion_windows p x = mapE (classify_window p x)"

section \<open>Merging windows into intervals\<close>

fun confidence_rank :: "play_confidence \<Rightarrow> nat" where
  "confidence_rank PlayNotAvailable = 0" | "confidence_rank PlayLow = 1"
| "confidence_rank PlayModerate = 2" | "confidence_rank PlayHigh = 3"

fun visibility_rank :: "play_visibility \<Rightarrow> nat" where
  "visibility_rank SeenNotAvailable = 0" | "visibility_rank SeenLow = 1"
| "visibility_rank SeenModerate = 2" | "visibility_rank SeenHigh = 3"

fun gap_rank :: "gap_severity \<Rightarrow> nat" where
  "gap_rank GapNone = 0" | "gap_rank GapMinor = 1" | "gap_rank GapSevere = 2"

fun continuity_rank :: "play_continuity \<Rightarrow> nat" where
  "continuity_rank ContinuityNotAvailable = 0" | "continuity_rank ContinuityPoor = 1"
| "continuity_rank ContinuityLimited = 2" | "continuity_rank ContinuityStrong = 3"

text \<open>\<open>min((a, b), key=rank)\<close> and \<open>max((a, b), key=rank)\<close>: the first one of equal rank.\<close>

definition lower_of :: "('a \<Rightarrow> nat) \<Rightarrow> 'a \<Rightarrow> 'a \<Rightarrow> 'a" where
  "lower_of rank a b = (if rank b < rank a then b else a)"

definition higher_of :: "('a \<Rightarrow> nat) \<Rightarrow> 'a \<Rightarrow> 'a \<Rightarrow> 'a" where
  "higher_of rank a b = (if rank a < rank b then b else a)"

definition weaker_confidence :: "play_confidence \<Rightarrow> play_confidence \<Rightarrow> play_confidence" where
  "weaker_confidence = lower_of confidence_rank"

definition weaker_visibility :: "play_visibility \<Rightarrow> play_visibility \<Rightarrow> play_visibility" where
  "weaker_visibility = lower_of visibility_rank"

definition worse_gap :: "gap_severity \<Rightarrow> gap_severity \<Rightarrow> gap_severity" where
  "worse_gap = higher_of gap_rank"

definition weaker_continuity :: "play_continuity \<Rightarrow> play_continuity \<Rightarrow> play_continuity" where
  "weaker_continuity = lower_of continuity_rank"

definition weighted_average :: "real \<Rightarrow> rat \<Rightarrow> real \<Rightarrow> rat \<Rightarrow> real" where
  "weighted_average a v b w = (a * of_rat v + b * of_rat w) / of_rat (v + w)"

definition merge_coverage :: "play_coverage \<Rightarrow> play_coverage \<Rightarrow> play_coverage" where
  "merge_coverage a b =
     \<lparr>av_observed = av_observed a + av_observed b, av_window = av_window a + av_window b,
      av_ratio = (av_observed a + av_observed b) / (av_window a + av_window b),
      av_visible = min (av_visible a) (av_visible b), av_reliable = min (av_reliable a) (av_reliable b)\<rparr>"

definition merge_signals :: "play_signals \<Rightarrow> rat \<Rightarrow> play_signals \<Rightarrow> rat \<Rightarrow> play_signals" where
  "merge_signals a v b w =
     \<lparr>sg_speed = weighted_average (sg_speed a) v (sg_speed b) w,
      sg_change = weighted_average (sg_change a) v (sg_change b) w,
      sg_intensity = weighted_average (sg_intensity a) v (sg_intensity b) w,
      sg_directions = weighted_average (sg_directions a) v (sg_directions b) w,
      sg_stationary = sg_stationary a + sg_stationary b,
      sg_kitchen = max (sg_kitchen a) (sg_kitchen b), sg_moving = min (sg_moving a) (sg_moving b),
      sg_simultaneous = (sg_simultaneous a \<and> sg_simultaneous b), sg_together = sg_together a + sg_together b,
      sg_visibility = weaker_visibility (sg_visibility a) (sg_visibility b),
      sg_gap = worse_gap (sg_gap a) (sg_gap b),
      sg_continuity = weaker_continuity (sg_continuity a) (sg_continuity b)\<rparr>"

definition merge_lineage :: "play_lineage \<Rightarrow> play_lineage \<Rightarrow> play_lineage" where
  "merge_lineage a b =
     \<lparr>ln_candidates = sort (remdups (ln_candidates a @ ln_candidates b)), ln_tracks = sort (remdups (ln_tracks a @ ln_tracks b))\<rparr>"

definition interval_from_window :: "play_window \<Rightarrow> active_error + play_interval" where
  "interval_from_window w = checked valid_interval (play_window.extend w (play_interval.fields 1))"

definition merged_interval :: "play_interval \<Rightarrow> play_window \<Rightarrow> play_interval" where
  "merged_interval i w =
     \<lparr>pw_start = pw_start i, pw_end = pw_end w, pw_state = pw_state i,
      pw_confidence = weaker_confidence (pw_confidence i) (pw_confidence w),
      pw_coverage = merge_coverage (pw_coverage i) (pw_coverage w),
      pw_signals = merge_signals (pw_signals i) (av_window (pw_coverage i)) (pw_signals w) (av_window (pw_coverage w)),
      pw_reasons = sorted_reasons (pw_reasons i @ pw_reasons w),
      pw_limitations = sort (remdups (pw_limitations i @ pw_limitations w)),
      pw_lineage = merge_lineage (pw_lineage i) (pw_lineage w), pw_policy = pw_policy i, pi_windows = pi_windows i + 1\<rparr>"

definition merge_interval_and_window :: "play_interval \<Rightarrow> play_window \<Rightarrow> active_error + play_interval" where
  "merge_interval_and_window i w = checked valid_interval (merged_interval i w)"

definition joins :: "play_policy \<Rightarrow> play_interval \<Rightarrow> play_window \<Rightarrow> bool" where
  "joins p i w \<longleftrightarrow> pw_state w = pw_state i \<and> \<bar>pw_start w - pw_end i\<bar> \<le> po_discontinuity p"

text \<open>The loop over the ordered windows, with the last of the intervals so far.\<close>

fun merge_from :: "play_policy \<Rightarrow> play_interval \<Rightarrow> play_window list \<Rightarrow> active_error + play_interval list" where
  "merge_from p current [] = Inr [current]"
| "merge_from p current (w # ws) =
     (if joins p current w then bindE (merge_interval_and_window current w) (\<lambda>i. merge_from p i ws)
      else bindE (interval_from_window w) (\<lambda>i. bindE (merge_from p i ws) (\<lambda>is. Inr (current # is))))"

definition merge_active_play_windows :: "play_policy \<Rightarrow> play_window list \<Rightarrow> active_error + play_interval list" where
  "merge_active_play_windows p ws =
     (case sort_key (\<lambda>w. (pw_start w, pw_end w)) ws of
        [] \<Rightarrow> Inr []
      | w # rest \<Rightarrow> bindE (interval_from_window w) (\<lambda>i. merge_from p i rest))"

section \<open>Distributions\<close>

definition confidence_distribution :: "play_window list \<Rightarrow> (play_confidence \<times> nat) list" where
  "confidence_distribution ws =
     map (\<lambda>l. (l, length (filter (\<lambda>w. pw_confidence w = l) ws))) [PlayHigh, PlayModerate, PlayLow, PlayNotAvailable]"

definition reason_distribution :: "play_window list \<Rightarrow> (play_reason \<times> nat) list" where
  "reason_distribution ws =
     filter (\<lambda>(r, n). n \<noteq> 0) (map (\<lambda>r. (r, length (filter (\<lambda>s. s = r) (concat (map pw_reasons ws))))) all_reasons)"

end
