(* ===== verification/Active_Features.thy ===== *)
theory Active_Features
  imports Active_Play
begin

text \<open>
  The motion evidence of a window (\<^verbatim>\<open>app/services/active_play/features.py\<close>): the tracks of
  every candidate are smoothed, differentiated and clipped to windows of the recording;
  what is observed of a window is a sweep over the intervals in which players are seen.
\<close>

section \<open>Positions and velocities\<close>

text \<open>\<open>supports_observed_interval\<close> with a limit of the caller.\<close>

definition supports_within :: "rat \<Rightarrow> observation \<Rightarrow> observation \<Rightarrow> bool" where
  "supports_within limit a b \<longleftrightarrow> ob_track a = ob_track b \<and> ob_frame b > ob_frame a
     \<and> 0 < ob_time b - ob_time a \<and> ob_time b - ob_time a \<le> limit
     \<and> observed_position a \<and> observed_position b"

record smoothed_point =
  sp_time :: rat
  sp_track :: int
  sp_x :: rat
  sp_y :: rat
  sp_segment :: nat

record velocity_sample =
  vs_start :: rat
  vs_end :: rat
  vs_track :: int
  vs_speed :: real
  vs_x :: rat
  vs_y :: rat
  vs_segment :: nat

text \<open>
  The segments of the ordered observations, with the observation before (\<open>None\<close> after one
  that is not observed on the court).
\<close>

definition extend_last :: "'a list list \<Rightarrow> 'a \<Rightarrow> 'a list list" where
  "extend_last ss x = butlast ss @ [last ss @ [x]]"

definition segment_step :: "rat \<Rightarrow> observation list list \<times> observation option \<Rightarrow> observation \<Rightarrow> observation list list \<times> observation option" where
  "segment_step limit = (\<lambda>(ss, previous) b.
     if \<not> observed_position b then (ss, None)
     else case previous of
       Some a \<Rightarrow> if supports_within limit a b then (extend_last ss b, Some b) else (ss @ [[b]], Some b)
     | None \<Rightarrow> (ss @ [[b]], Some b))"

definition track_segments :: "rat \<Rightarrow> observation list \<Rightarrow> observation list list" where
  "track_segments limit obs =
     fst (foldl (segment_step limit) ([], None) (sort_key (\<lambda>b. (ob_track b, ob_time b, ob_frame b)) obs))"

definition smoothed_at :: "rat \<Rightarrow> nat \<Rightarrow> observation list \<Rightarrow> observation \<Rightarrow> smoothed_point" where
  "smoothed_at half n segment b =
     (let near = filter (\<lambda>a. \<bar>ob_time a - ob_time b\<bar> \<le> half) segment in
      \<lparr>sp_time = ob_time b, sp_track = ob_track b, sp_x = mean (map (fst \<circ> ob_position) near),
       sp_y = mean (map (snd \<circ> ob_position) near), sp_segment = n\<rparr>)"

definition smooth_track_positions :: "play_policy \<Rightarrow> observation list \<Rightarrow> smoothed_point list" where
  "smooth_track_positions p obs =
     sort_key (\<lambda>s. (sp_time s, sp_track s))
       (concat (map (\<lambda>(n, segment). map (smoothed_at (po_smoothing p / 2) n segment) segment)
          (enumerate 0 (track_segments (po_max_gap p) obs))))"

definition usable_delta :: "play_policy \<Rightarrow> rat \<Rightarrow> bool" where
  "usable_delta p d \<longleftrightarrow> \<not> (d < po_min_delta p \<or> d > po_max_gap p)"

definition velocity_between :: "smoothed_point \<Rightarrow> smoothed_point \<Rightarrow> velocity_sample" where
  "velocity_between a b =
     (let d = sp_time b - sp_time a; x = (sp_x b - sp_x a) / d; y = (sp_y b - sp_y a) / d in
      \<lparr>vs_start = sp_time a, vs_end = sp_time b, vs_track = sp_track b, vs_speed = hypot x y, vs_x = x, vs_y = y,
       vs_segment = sp_segment b\<rparr>)"

definition calculate_velocity_samples :: "play_policy \<Rightarrow> smoothed_point list \<Rightarrow> velocity_sample list" where
  "calculate_velocity_samples p points =
     sort_key (\<lambda>v. (vs_end v, vs_track v))
       (map (\<lambda>(a, b). velocity_between a b)
         (filter (\<lambda>(a, b). sp_track b = sp_track a \<and> sp_segment b = sp_segment a \<and> usable_delta p (sp_time b - sp_time a))
           (adjacent (sort_key (\<lambda>s. (sp_track s, sp_time s)) points))))"

definition successive_samples :: "velocity_sample list \<Rightarrow> (velocity_sample \<times> velocity_sample) list" where
  "successive_samples vs =
     filter (\<lambda>(a, b). vs_track b = vs_track a \<and> vs_segment b = vs_segment a)
       (adjacent (sort_key (\<lambda>v. (vs_track v, vs_end v)) vs))"

definition calculate_speed_change_samples :: "play_policy \<Rightarrow> velocity_sample list \<Rightarrow> (rat \<times> real) list" where
  "calculate_speed_change_samples p vs =
     sort (map (\<lambda>(a, b). (vs_end b, \<bar>vs_speed b - vs_speed a\<bar> / of_rat (vs_end b - vs_end a)))
       (filter (\<lambda>(a, b). usable_delta p (vs_end b - vs_end a)) (successive_samples vs)))"

text \<open>\<open>math.degrees(math.acos(c))\<close>, which evaluates at the ends and in the middle.\<close>

definition angle_degrees :: "real \<Rightarrow> real" where
  [code del]: "angle_degrees c = arccos c * 180 / pi"

lemma angle_degrees_code [code]:
  "angle_degrees c = (if c = 1 then 0 else if c = 0 then 90 else if c = -1 then 180 else angle_degrees c)"
  by (simp add: angle_degrees_def)

definition turn_cosine :: "velocity_sample \<Rightarrow> velocity_sample \<Rightarrow> real" where
  "turn_cosine a b = max (-1) (min 1 (of_rat (vs_x a * vs_x b + vs_y a * vs_y b) / (vs_speed a * vs_speed b)))"

definition turns :: "play_policy \<Rightarrow> velocity_sample \<Rightarrow> velocity_sample \<Rightarrow> bool" where
  "turns p a b \<longleftrightarrow> \<not> (vs_speed a < po_direction_speed p \<or> vs_speed b < po_direction_speed p)
     \<and> angle_degrees (turn_cosine a b) \<ge> po_direction_degrees p"

definition calculate_direction_change_times :: "play_policy \<Rightarrow> velocity_sample list \<Rightarrow> rat list" where
  "calculate_direction_change_times p vs =
     sort (map (\<lambda>(a, b). vs_end b) (filter (\<lambda>(a, b). turns p a b) (successive_samples vs)))"

section \<open>Intervals\<close>

type_synonym span = "rat \<times> rat"

text \<open>The fold keeps the merged intervals in reverse, its head is \<open>merged[-1]\<close>.\<close>

definition merge_step :: "span list \<Rightarrow> span \<Rightarrow> span list" where
  "merge_step merged = (\<lambda>(a, b).
     case merged of
       [] \<Rightarrow> [(a, b)]
     | (c, d) # rest \<Rightarrow> if a > d then (a, b) # merged else (c, max d b) # rest)"

definition merge_numeric_intervals :: "span list \<Rightarrow> span list" where
  "merge_numeric_intervals ivs = rev (foldl merge_step [] (sort ivs))"

definition observed_intervals :: "play_policy \<Rightarrow> observation list \<Rightarrow> span list" where
  "observed_intervals p obs =
     merge_numeric_intervals
       (map (\<lambda>(a, b). (ob_time a, ob_time b))
         (filter (\<lambda>(a, b). supports_within (po_max_gap p) a b)
           (adjacent (sort_key (\<lambda>b. (ob_time b, ob_frame b)) obs))))"

definition clip_intervals :: "span list \<Rightarrow> rat \<Rightarrow> rat \<Rightarrow> span list" where
  "clip_intervals ivs start end =
     map (\<lambda>(a, b). (max start a, min end b)) (filter (\<lambda>(a, b). min end b > max start a) ivs)"

definition interval_duration :: "span list \<Rightarrow> rat" where
  "interval_duration ivs = sum_list (map (\<lambda>(a, b). b - a) ivs)"

definition span_events :: "span list \<Rightarrow> (rat \<times> int) list" where
  "span_events ivs = concat (map (\<lambda>(a, b). [(a, 1), (b, -1)]) ivs)"

fun sweep :: "int \<Rightarrow> (rat \<times> int) list \<Rightarrow> rat \<Rightarrow> int \<Rightarrow> rat" where
  "sweep required [] previous count = 0"
| "sweep required ((t, d) # es) previous count =
     (if count \<ge> required then t - previous else 0) + sweep required es t (count + d)"

definition duration_with_minimum_streams :: "span list list \<Rightarrow> nat \<Rightarrow> rat" where
  "duration_with_minimum_streams streams required =
     (case span_events (concat streams) of
        [] \<Rightarrow> 0
      | e # es \<Rightarrow> sweep (int required) (sort (e # es)) (fst e) 0)"

definition overlap_duration :: "rat \<Rightarrow> rat \<Rightarrow> rat \<Rightarrow> rat \<Rightarrow> rat" where
  "overlap_duration a b c d = max 0 (min b d - max a c)"

section \<open>The streams of the candidates\<close>

record motion_stream =
  ms_candidate :: court_candidate
  ms_observations :: "observation list"
  ms_intervals :: "span list"
  ms_velocities :: "velocity_sample list"
  ms_changes :: "(rat \<times> real) list"
  ms_turns :: "rat list"

definition deduplicate_observations :: "observation list \<Rightarrow> observation list" where
  "deduplicate_observations obs =
     sort_key (\<lambda>b. (ob_time b, ob_frame b, ob_track b)) (map (frame_winner obs) (remdups (map ob_frame obs)))"

definition stream_of :: "play_policy \<Rightarrow> observation list \<Rightarrow> court_candidate \<Rightarrow> motion_stream" where
  "stream_of p observations c =
     (let obs = deduplicate_observations
            (concat (map (\<lambda>t. filter (\<lambda>b. ob_track b = t) observations) (pc_tracks c)));
          vs = calculate_velocity_samples p (smooth_track_positions p obs) in
      \<lparr>ms_candidate = c, ms_observations = obs, ms_intervals = observed_intervals p obs, ms_velocities = vs,
       ms_changes = calculate_speed_change_samples p vs, ms_turns = calculate_direction_change_times p vs\<rparr>)"

definition stream_candidates :: "collection \<Rightarrow> court_candidate list" where
  "stream_candidates cl =
     sort_key pc_id (filter (\<lambda>c. cc_status c \<noteq> ReviewRejected \<and> pc_quality c \<noteq> CandRejected) (members cl))"

definition candidate_streams :: "play_policy \<Rightarrow> collection \<Rightarrow> observation list \<Rightarrow> motion_stream list" where
  "candidate_streams p cl observations = map (stream_of p observations) (stream_candidates cl)"

section \<open>The features of a window\<close>

definition base_reliable :: "play_policy \<Rightarrow> court_candidate \<Rightarrow> bool" where
  "base_reliable p c \<longleftrightarrow> pc_quality c \<in> {CandStrong, CandUsable} \<and> pc_visibility c \<ge> po_min_in_court p
     \<and> pc_observed c \<ge> po_min_duration p \<and> length (pc_tracks c) \<le> po_max_fragments p"

definition gap_severity_of :: "play_policy \<Rightarrow> rat \<Rightarrow> gap_severity" where
  "gap_severity_of p r = (if r \<ge> po_severe_gap p then GapSevere else if r \<ge> po_minor_gap p then GapMinor else GapNone)"

definition continuity_quality :: "court_candidate list \<Rightarrow> gap_severity \<Rightarrow> play_continuity" where
  "continuity_quality reliable gap =
     (if reliable = [] then ContinuityNotAvailable
      else if gap = GapSevere then ContinuityPoor
      else if gap = GapNone \<and> list_all (\<lambda>c. length (pc_tracks c) = 1) reliable then ContinuityStrong
      else ContinuityLimited)"

definition visibility_quality :: "play_policy \<Rightarrow> nat \<Rightarrow> rat \<Rightarrow> play_visibility" where
  "visibility_quality p reliable ratio =
     (if reliable < po_players p then SeenNotAvailable
      else if ratio \<ge> po_strong_ratio p then SeenHigh
      else if ratio \<ge> po_window_ratio p then SeenModerate else SeenLow)"

definition feature_reasons :: "play_policy \<Rightarrow> nat \<Rightarrow> nat \<Rightarrow> rat \<Rightarrow> gap_severity \<Rightarrow> play_continuity \<Rightarrow> play_reason list" where
  "feature_reasons p visible reliable ratio gap continuity =
     sorted_reasons
       ((if visible = 0 then [NoObservations] else [])
        @ (if reliable < po_players p then InsufficientPlayers # (if reliable = 1 then [OnePlayerOnly] else []) else [])
        @ (if ratio \<ge> po_window_ratio p then [SufficientCoverage] else [InsufficientCoverage])
        @ (if gap \<noteq> GapNone then [TrackingGap] else [])
        @ (if gap = GapSevere then [SevereGaps] else [])
        @ (if continuity \<in> {ContinuityLimited, ContinuityPoor} then [FragmentedCandidates] else []))"

definition within_window :: "rat \<Rightarrow> rat \<Rightarrow> rat \<Rightarrow> bool" where
  "within_window start end t \<longleftrightarrow> start \<le> t \<and> t < end"

definition visible_streams :: "motion_stream list \<Rightarrow> rat \<Rightarrow> rat \<Rightarrow> motion_stream list" where
  "visible_streams streams start end =
     filter (\<lambda>s. list_ex (\<lambda>b. within_window start end (ob_time b)) (ms_observations s)) streams"

text \<open>
  The dictionaries of the code are keyed by the identifier of a candidate, which is unique
  in a collection; here they are the values of the streams.
\<close>

definition clipped :: "rat \<Rightarrow> rat \<Rightarrow> motion_stream \<Rightarrow> span list" where
  "clipped start end s = clip_intervals (ms_intervals s) start end"

definition reliable_streams :: "play_policy \<Rightarrow> motion_stream list \<Rightarrow> rat \<Rightarrow> rat \<Rightarrow> motion_stream list" where
  "reliable_streams p streams start end =
     filter (\<lambda>s. base_reliable p (ms_candidate s)
         \<and> interval_duration (clipped start end s) / (end - start) \<ge> po_player_ratio p)
       (visible_streams streams start end)"

definition clipped_velocities :: "rat \<Rightarrow> rat \<Rightarrow> motion_stream \<Rightarrow> (velocity_sample \<times> rat) list" where
  "clipped_velocities start end s =
     filter (\<lambda>(v, w). w > 0)
       (map (\<lambda>v. (v, overlap_duration (vs_start v) (vs_end v) start end)) (ms_velocities s))"

definition moving_intervals :: "play_policy \<Rightarrow> rat \<Rightarrow> rat \<Rightarrow> motion_stream \<Rightarrow> span list" where
  "moving_intervals p start end s =
     map (\<lambda>(v, w). (max start (vs_start v), min end (vs_end v)))
       (filter (\<lambda>(v, w). vs_speed v \<ge> po_moving_speed p \<and> w > 0) (clipped_velocities start end s))"

definition stationary_seconds :: "play_policy \<Rightarrow> rat \<Rightarrow> rat \<Rightarrow> motion_stream \<Rightarrow> rat" where
  "stationary_seconds p start end s =
     sum_list (map snd (filter (\<lambda>(v, w). vs_speed v \<le> po_stationary_speed p) (clipped_velocities start end s)))"

definition near_kitchen :: rat where "near_kitchen = 15"
definition far_kitchen :: rat where "far_kitchen = 29"

definition low_movement_kitchen :: "play_policy \<Rightarrow> rat \<Rightarrow> rat \<Rightarrow> motion_stream \<Rightarrow> bool" where
  "low_movement_kitchen p start end s \<longleftrightarrow>
     (let seen = filter (\<lambda>b. ob_inside b \<and> within_window start end (ob_time b)) (ms_observations s);
          kitchen = filter (\<lambda>b. near_kitchen \<le> snd (ob_position b) \<and> snd (ob_position b) \<le> far_kitchen) seen in
      stationary_seconds p start end s \<ge> (end - start) * po_player_ratio p \<and> seen \<noteq> []
      \<and> (of_nat (length kitchen) :: rat) / of_nat (length seen) \<ge> 1/2)"

definition smoothed_speed :: "(velocity_sample \<times> rat) list \<Rightarrow> real" where
  "smoothed_speed vs =
     (let duration = sum_list (map snd vs) in
      if duration > 0 then sum_list (map (\<lambda>(v, w). vs_speed v * of_rat w) vs) / of_rat duration else 0)"

definition average :: "real list \<Rightarrow> real" where
  "average xs = (if xs = [] then 0 else sum_list xs / of_nat (length xs))"

definition window_changes :: "rat \<Rightarrow> rat \<Rightarrow> motion_stream list \<Rightarrow> real list" where
  "window_changes start end reliable =
     concat (map (\<lambda>s. map snd (filter (\<lambda>(t, x). within_window start end t) (ms_changes s))) reliable)"

definition window_turns :: "rat \<Rightarrow> rat \<Rightarrow> motion_stream list \<Rightarrow> nat" where
  "window_turns start end reliable = sum_list (map (\<lambda>s. length (filter (within_window start end) (ms_turns s))) reliable)"

definition direction_frequency :: "nat \<Rightarrow> rat \<Rightarrow> real" where
  "direction_frequency n seconds = (if seconds > 0 then of_nat n / of_rat seconds else 0)"

definition window_signals :: "play_policy \<Rightarrow> rat \<Rightarrow> rat \<Rightarrow> motion_stream list \<Rightarrow> rat \<Rightarrow> play_signals" where
  "window_signals p start end reliable ratio =
     (let speed = smoothed_speed (concat (map (clipped_velocities start end) reliable));
          moving = map (moving_intervals p start end) reliable;
          stationary = map (stationary_seconds p start end) reliable;
          together = duration_with_minimum_streams moving 2;
          gap = gap_severity_of p (1 - ratio) in
      \<lparr>sg_speed = speed, sg_change = average (window_changes start end reliable),
       sg_intensity = min 1 (speed / po_reference_speed p),
       sg_directions = direction_frequency (window_turns start end reliable)
         (sum_list (map (\<lambda>s. interval_duration (clipped start end s)) reliable)),
       sg_stationary = (if stationary = [] then 0 else mean stationary),
       sg_kitchen = length (filter (low_movement_kitchen p start end) reliable),
       sg_moving = length (filter (\<lambda>ivs. interval_duration ivs \<ge> po_min_moving p) moving),
       sg_simultaneous = (together \<ge> po_min_simultaneous p), sg_together = together,
       sg_visibility = visibility_quality p (length reliable) ratio, sg_gap = gap,
       sg_continuity = continuity_quality (map ms_candidate reliable) gap\<rparr>)"

definition lineage_of :: "motion_stream list \<Rightarrow> play_lineage" where
  "lineage_of streams =
     \<lparr>ln_candidates = sort (map (\<lambda>s. pc_id (ms_candidate s)) streams),
      ln_tracks = sort (remdups (concat (map (\<lambda>s. pc_tracks (ms_candidate s)) streams)))\<rparr>"

definition window_coverage :: "play_policy \<Rightarrow> motion_stream list \<Rightarrow> rat \<Rightarrow> rat \<Rightarrow> play_coverage" where
  "window_coverage p streams start end =
     (let reliable = reliable_streams p streams start end;
          observed = duration_with_minimum_streams (map (clipped start end) reliable) (po_players p) in
      \<lparr>av_observed = observed, av_window = end - start,
       av_ratio = (if end - start > 0 then observed / (end - start) else 0),
       av_visible = length (visible_streams streams start end), av_reliable = length reliable\<rparr>)"

definition motion_of :: "play_policy \<Rightarrow> motion_stream list \<Rightarrow> rat \<Rightarrow> rat \<Rightarrow> motion_window" where
  "motion_of p streams start end =
     (let reliable = reliable_streams p streams start end;
          coverage = window_coverage p streams start end;
          signals = window_signals p start end reliable (av_ratio coverage) in
      \<lparr>mw_start = start, mw_end = end, mw_coverage = coverage, mw_signals = signals,
       mw_reasons = feature_reasons p (av_visible coverage) (av_reliable coverage) (av_ratio coverage)
         (sg_gap signals) (sg_continuity signals),
       mw_lineage = lineage_of (if reliable = [] then visible_streams streams start end else reliable),
       mw_policy = po_version p\<rparr>)"

definition window_features :: "play_policy \<Rightarrow> motion_stream list \<Rightarrow> rat \<Rightarrow> rat \<Rightarrow> active_error + motion_window" where
  "window_features p streams start end = checked valid_motion (motion_of p streams start end)"

section \<open>The windows of a recording\<close>

text \<open>
  \<open>while start < duration - 1e-9\<close>. A window that does not advance is refused by its own
  validation, so the loop ends for every policy.
\<close>

lemma window_features_advance: "window_features p streams start end = Inr w \<Longrightarrow> start < end"
  by (auto simp: window_features_def checked_def motion_of_def Let_def valid_motion_def valid_span_def split: if_splits)

function windows_from :: "play_policy \<Rightarrow> motion_stream list \<Rightarrow> rat \<Rightarrow> rat \<Rightarrow> active_error + motion_window list" where
  "windows_from p streams duration start =
     (if start < duration - 1/10^9
      then case window_features p streams start (min duration (start + po_window p)) of
          Inl e \<Rightarrow> Inl e
        | Inr w \<Rightarrow> bindE (windows_from p streams duration (min duration (start + po_window p))) (\<lambda>rest. Inr (w # rest))
      else Inr [])"
  by pat_completeness auto

termination windows_from
proof (relation "measure (\<lambda>(p, _, d, s). nat \<lceil>(d - s) / po_window p\<rceil>)")
  fix p streams d s w
  assume s: "s < d - 1/10^9" and w: "window_features p streams s (min d (s + po_window p)) = Inr w"
  from window_features_advance [OF w] have pos: "0 < po_window p" by (simp add: min_def split: if_splits)
  from s have lt: "0 < (d - s) / po_window p" using pos by simp
  have "\<lceil>(d - min d (s + po_window p)) / po_window p\<rceil> < \<lceil>(d - s) / po_window p\<rceil>"
  proof (cases "d \<le> s + po_window p")
    case True
    with lt show ?thesis by simp
  next
    case False
    have "(d - (s + po_window p)) / po_window p = (d - s) / po_window p - 1" using pos by (simp add: field_simps)
    with False show ?thesis by (simp add: min_def)
  qed
  with lt show "((p, streams, d, min d (s + po_window p)), (p, streams, d, s)) \<in> measure (\<lambda>(p, _, d, s). nat \<lceil>(d - s) / po_window p\<rceil>)"
    by simp
qed simp

declare windows_from.simps [simp del]

definition build_motion_windows :: "play_policy \<Rightarrow> collection \<Rightarrow> observation list \<Rightarrow> rat \<Rightarrow> active_error + motion_window list" where
  "build_motion_windows p cl observations duration =
     (if duration \<le> 0 then Inr [] else windows_from p (candidate_streams p cl observations) duration 0)"

end
