(* ===== verification/Active_Report.thy ===== *)
theory Active_Report
  imports Active_Features
begin

text \<open>
  The report of active play (\<^verbatim>\<open>app/services/active_play/persistence.py\<close>): it is built from
  the tracking report, the candidates and the observations of an analysis, and written
  once. A later call answers the stored report as long as it was made from the same files.
  A source file is its bytes and what they parse to; existing files are readable. The
  names of the artifacts and the constant fields of the report are left out.
\<close>

section \<open>The report\<close>

record source_artifacts =
  sx_tracking :: string
  sx_observations :: string
  sx_candidates :: string
  sx_version :: int

record active_summary =
  sm_duration :: rat
  sm_active :: rat
  sm_idle :: rat
  sm_unknown :: rat
  sm_classifiable :: rat
  sm_ratio :: rat
  sm_intervals :: nat
  sm_windows :: nat
  sm_confidences :: "(play_confidence \<times> nat) list"
  sm_reasons :: "(play_reason \<times> nat) list"

record active_report =
  rp_analysis :: string
  rp_policy :: string
  rp_sources :: source_artifacts
  rp_summary :: active_summary
  rp_windows :: "play_window list"
  rp_intervals :: "play_interval list"
  rp_limitations :: "string list"
  rp_created :: time

definition valid_summary :: "active_summary \<Rightarrow> bool" where
  "valid_summary s \<longleftrightarrow> 0 \<le> sm_duration s \<and> 0 \<le> sm_active s \<and> 0 \<le> sm_idle s \<and> 0 \<le> sm_unknown s
     \<and> 0 \<le> sm_classifiable s \<and> 0 \<le> sm_ratio s \<and> sm_ratio s \<le> 1"

definition disjoint_estimates :: "'a play_window_scheme list \<Rightarrow> bool" where
  "disjoint_estimates ws \<longleftrightarrow>
     list_all (\<lambda>(a, b). \<not> pw_start b < pw_end a - 1/10^6) (adjacent (sort_key (\<lambda>w. (pw_start w, pw_end w)) ws))"

definition valid_report :: "active_report \<Rightarrow> bool" where
  "valid_report r \<longleftrightarrow> list_all valid_estimate (rp_windows r) \<and> list_all valid_interval (rp_intervals r)
     \<and> valid_summary (rp_summary r) \<and> 1 \<le> sx_version (rp_sources r)
     \<and> length (rp_windows r) = sm_windows (rp_summary r) \<and> length (rp_intervals r) = sm_intervals (rp_summary r)
     \<and> list_all (\<lambda>w. pw_policy w = rp_policy r) (rp_windows r) \<and> list_all (\<lambda>i. pw_policy i = rp_policy r) (rp_intervals r)
     \<and> disjoint_estimates (rp_windows r) \<and> disjoint_estimates (rp_intervals r)
     \<and> \<bar>sm_active (rp_summary r) + sm_idle (rp_summary r) + sm_unknown (rp_summary r) - sm_duration (rp_summary r)\<bar> \<le> 1/10^5"

definition state_seconds :: "play_interval list \<Rightarrow> play_state \<Rightarrow> rat" where
  "state_seconds is st = sum_list (map (\<lambda>i. pw_end i - pw_start i) (filter (\<lambda>i. pw_state i = st) is))"

definition summary_of :: "rat \<Rightarrow> play_window list \<Rightarrow> play_interval list \<Rightarrow> active_summary" where
  "summary_of duration ws is =
     (let classifiable = state_seconds is LikelyActive + state_seconds is LikelyIdle in
      \<lparr>sm_duration = duration, sm_active = state_seconds is LikelyActive, sm_idle = state_seconds is LikelyIdle,
       sm_unknown = state_seconds is PlayUnknown, sm_classifiable = classifiable,
       sm_ratio = (if duration > 0 then classifiable / duration else 0), sm_intervals = length is, sm_windows = length ws,
       sm_confidences = confidence_distribution ws, sm_reasons = reason_distribution ws\<rparr>)"

record report_input =
  ra_analysis :: string
  ra_duration :: rat
  ra_candidates :: collection
  ra_observations :: "observation list"
  ra_sources :: source_artifacts
  ra_now :: time

definition report_context :: "report_input \<Rightarrow> play_context" where
  "report_context i =
     \<lparr>px_duration = ra_duration i, px_quality = cl_readiness (ra_candidates i),
      px_current = (sx_version (ra_sources i) = int current_version)\<rparr>"

definition report_of :: "play_policy \<Rightarrow> report_input \<Rightarrow> play_window list \<Rightarrow> play_interval list \<Rightarrow> active_report" where
  "report_of p i ws is =
     \<lparr>rp_analysis = ra_analysis i, rp_policy = po_version p, rp_sources = ra_sources i,
      rp_summary = summary_of (ra_duration i) ws is, rp_windows = ws, rp_intervals = is,
      rp_limitations = base_limitations
        @ [''Output is internal shadow evidence and is excluded from player-facing analytics.''],
      rp_created = ra_now i\<rparr>"

definition build_active_play_report :: "play_policy \<Rightarrow> report_input \<Rightarrow> active_error + active_report" where
  "build_active_play_report p i =
     bindE (build_motion_windows p (ra_candidates i) (ra_observations i) (ra_duration i)) (\<lambda>features.
     bindE (classify_motion_windows p (report_context i) features) (\<lambda>ws.
     bindE (merge_active_play_windows p ws) (\<lambda>is.
     checked valid_report (report_of p i ws is))))"

section \<open>Files\<close>

record 'a source_file =
  so_bytes :: string
  so_value :: "'a option"

record candidate_source = "collection source_file" +
  so_version :: "int option"

datatype observation_line = BlankLine | BadLine | ObservationLine observation

record observation_source =
  os_bytes :: string
  os_lines :: "observation_line list"

record timed_report = tracking_report +
  tr_duration :: rat

datatype output_directory = NoDirectory | EmptyDirectory | FilledDirectory "active_report disk_file"

record active_files =
  af_tracking :: "timed_report source_file option"
  af_observations :: "observation_source option"
  af_candidates :: "candidate_source option"
  af_output :: output_directory
  af_writable :: bool

text \<open>The three source files, when they are there.\<close>

definition required_files :: "active_files \<Rightarrow>
    active_error + timed_report source_file \<times> observation_source \<times> candidate_source" where
  "required_files fs =
     (case (af_tracking fs, af_observations fs, af_candidates fs) of
        (Some t, Some b, Some c) \<Rightarrow> Inr (t, b, c) | _ \<Rightarrow> Inl ActiveNotReady)"

definition source_artifacts_of :: "(string \<Rightarrow> string) \<Rightarrow> timed_report source_file \<Rightarrow> observation_source
    \<Rightarrow> candidate_source \<Rightarrow> active_error + source_artifacts" where
  "source_artifacts_of sha t b c =
     (case so_version c of
        None \<Rightarrow> Inl (ActivePersistence ''Candidate schema version could not be read.'')
      | Some v \<Rightarrow> checked (\<lambda>s. 1 \<le> sx_version s)
          \<lparr>sx_tracking = sha (so_bytes t), sx_observations = sha (os_bytes b),
           sx_candidates = sha (source_file.so_bytes c), sx_version = v\<rparr>)"

definition load_active_report :: "active_report disk_file \<Rightarrow> active_error + active_report" where
  "load_active_report f =
     (case f of
        Stored r \<Rightarrow> if valid_report r then Inr r
          else Inl (ActivePersistence ''Saved Active Play report could not be loaded.'')
      | _ \<Rightarrow> Inl (ActivePersistence ''Saved Active Play report could not be loaded.''))"

text \<open>\<open>report_path.is_file()\<close>.\<close>

definition stored_report :: "active_files \<Rightarrow> active_report disk_file option" where
  "stored_report fs =
     (case af_output fs of FilledDirectory NoFile \<Rightarrow> None | FilledDirectory f \<Rightarrow> Some f | _ \<Rightarrow> None)"

fun observation_lines :: "observation_line list \<Rightarrow> active_error + observation list" where
  "observation_lines [] = Inr []"
| "observation_lines (BlankLine # ls) = observation_lines ls"
| "observation_lines (BadLine # ls) = Inl (ActivePersistence ''Invalid Active Play observation.'')"
| "observation_lines (ObservationLine b # ls) =
     (if valid_observation b then bindE (observation_lines ls) (\<lambda>bs. Inr (b # bs))
      else Inl (ActivePersistence ''Invalid Active Play observation.''))"

definition load_source :: "'a source_file \<Rightarrow> ('a \<Rightarrow> bool) \<Rightarrow> active_error + 'a" where
  "load_source f valid =
     (case so_value f of
        None \<Rightarrow> Inl (ActivePersistence ''Active Play source artifacts could not be loaded.'')
      | Some x \<Rightarrow> if valid x then Inr x
          else Inl (ActivePersistence ''Active Play source artifacts could not be loaded.''))"

definition load_inputs :: "string \<Rightarrow> time \<Rightarrow> source_artifacts \<Rightarrow> timed_report source_file \<Rightarrow> observation_source
    \<Rightarrow> candidate_source \<Rightarrow> active_error + report_input" where
  "load_inputs analysis now s t b c =
     bindE (load_source t (\<lambda>r. 0 \<le> tr_duration r)) (\<lambda>report.
     bindE (load_source (source_file.truncate c) valid_collection) (\<lambda>cl.
     bindE (observation_lines (os_lines b)) (\<lambda>obs.
     Inr \<lparr>ra_analysis = analysis, ra_duration = tr_duration report, ra_candidates = cl, ra_observations = obs,
       ra_sources = s, ra_now = now\<rparr>)))"

text \<open>A directory can be moved to a missing one or onto an empty one.\<close>

definition write_report :: "active_report \<Rightarrow> active_files \<Rightarrow> active_error + active_files" where
  "write_report r fs =
     (if af_writable fs \<and> af_output fs \<in> {NoDirectory, EmptyDirectory}
      then Inr (fs\<lparr>af_output := FilledDirectory (Stored r)\<rparr>)
      else Inl (ActivePersistence ''Active Play artifacts could not be written.''))"

definition reuse_report :: "play_policy \<Rightarrow> source_artifacts \<Rightarrow> active_report disk_file \<Rightarrow> active_error + active_report" where
  "reuse_report p s f =
     bindE (load_active_report f) (\<lambda>r.
     if rp_policy r = po_version p \<and> rp_sources r = s then Inr r
     else Inl (ActivePersistence ''Saved Active Play output is stale for the current source artifacts or policy.''))"

definition generate_active_play :: "(string \<Rightarrow> string) \<Rightarrow> play_policy \<Rightarrow> string \<Rightarrow> time \<Rightarrow> active_files
    \<Rightarrow> (active_error + active_report) \<times> active_files" where
  "generate_active_play sha p analysis now fs =
     (case bindE (required_files fs) (\<lambda>(t, b, c). bindE (source_artifacts_of sha t b c) (\<lambda>s. Inr (t, b, c, s))) of
        Inl e \<Rightarrow> (Inl e, fs)
      | Inr (t, b, c, s) \<Rightarrow>
          (case stored_report fs of
             Some f \<Rightarrow> (reuse_report p s f, fs)
           | None \<Rightarrow>
               (case bindE (load_inputs analysis now s t b c) (build_active_play_report p) of
                  Inl e \<Rightarrow> (Inl e, fs)
                | Inr r \<Rightarrow> (case write_report r fs of Inl e \<Rightarrow> (Inl e, fs) | Inr fs' \<Rightarrow> (Inr r, fs')))))"

end
