(* ===== verification/Active_Sweep.thy ===== *)
theory Active_Sweep
  imports Active_Report "HOL-Library.Multiset"
begin

text \<open>
  Ranked values (a locale, interpreted for the four enumerations whose values are merged)
  and the sweep over intervals: what it measures, compared with the moments at which enough
  intervals, and enough players, are there.
\<close>

section \<open>Ranked values\<close>

locale ranked =
  fixes rank :: "'a \<Rightarrow> nat"
  assumes rank_inj: "rank a = rank b \<Longrightarrow> a = b"
begin

lemma lower_rank: "rank (lower_of rank a b) = min (rank a) (rank b)"
  by (simp add: lower_of_def)

lemma higher_rank: "rank (higher_of rank a b) = max (rank a) (rank b)"
  by (simp add: higher_of_def)

lemma lower_commute: "lower_of rank a b = lower_of rank b a"
  by (rule rank_inj) (simp add: lower_rank min.commute)

lemma lower_snoc:
  assumes "rank a = Min (rank ` set xs)" and "xs \<noteq> []"
  shows "rank (lower_of rank a b) = Min (rank ` set (xs @ [b]))"
  using assms by (simp add: lower_rank min.commute)

lemma higher_snoc:
  assumes "rank a = Max (rank ` set xs)" and "xs \<noteq> []"
  shows "rank (higher_of rank a b) = Max (rank ` set (xs @ [b]))"
  using assms by (simp add: higher_rank max.commute)

end

interpretation confidences: ranked confidence_rank
proof
  fix a b assume "confidence_rank a = confidence_rank b" then show "a = b" by (cases a; cases b) simp_all
qed

interpretation visibilities: ranked visibility_rank
proof
  fix a b assume "visibility_rank a = visibility_rank b" then show "a = b" by (cases a; cases b) simp_all
qed

interpretation gaps: ranked gap_rank
proof
  fix a b assume "gap_rank a = gap_rank b" then show "a = b" by (cases a; cases b) simp_all
qed

interpretation continuities: ranked continuity_rank
proof
  fix a b assume "continuity_rank a = continuity_rank b" then show "a = b" by (cases a; cases b) simp_all
qed

section \<open>The sweep over intervals\<close>

text \<open>How many intervals contain a moment, and the time at which it is at least \<open>k\<close>.\<close>

definition contains_moment :: "rat \<Rightarrow> span \<Rightarrow> bool" where
  "contains_moment t = (\<lambda>(a, b). a \<le> t \<and> t < b)"

definition endpoints :: "span list \<Rightarrow> rat list" where
  "endpoints ivs = concat (map (\<lambda>(a, b). [a, b]) ivs)"

definition time_where :: "(rat \<Rightarrow> bool) \<Rightarrow> rat list \<Rightarrow> rat" where
  "time_where P ts = sum_list (map (\<lambda>(a, b). if P a then b - a else 0) (adjacent ts))"

definition ordered_spans :: "span list \<Rightarrow> bool" where
  "ordered_spans ivs \<longleftrightarrow> list_all (\<lambda>(a, b). a \<le> b) ivs"

definition level :: "(rat \<times> int) list \<Rightarrow> rat \<Rightarrow> int" where
  "level es t = sum_list (map snd (filter (\<lambda>e. fst e \<le> t) es))"

lemma adjacent_Cons [simp]: "adjacent (x # y # zs) = (x, y) # adjacent (y # zs)" "adjacent [x] = []" "adjacent [] = []"
  by (simp_all add: adjacent_def)

lemma time_where_Cons [simp]:
  "time_where P (a # b # ts) = (if P a then b - a else 0) + time_where P (b # ts)" "time_where P [a] = 0" "time_where P [] = 0"
  by (simp_all add: time_where_def)

lemma sweep_levels:
  assumes "sorted (map fst (xs @ es))" and "n = sum_list (map snd xs)"
    and "\<forall>e\<in>set xs. fst e \<le> prev" and "\<forall>e\<in>set es. prev \<le> fst e"
  shows "sweep k es prev n = time_where (\<lambda>t. k \<le> level (xs @ es) t) (prev # map fst es)"
  using assms
proof (induction es arbitrary: xs prev n)
  case Nil
  then show ?case by simp
next
  case (Cons e es)
  obtain t d where e: "e = (t, d)" by (cases e)
  have rest: "sweep k es t (n + d) = time_where (\<lambda>t. k \<le> level ((xs @ [e]) @ es) t) (t # map fst es)"
  proof (rule Cons.IH)
    show "\<forall>e'\<in>set (xs @ [e]). fst e' \<le> t" using Cons.prems e by (auto simp: sorted_append)
    show "\<forall>e'\<in>set es. t \<le> fst e'" using Cons.prems e by (auto simp: sorted_append)
  qed (use Cons.prems e in auto)
  have "n = level (xs @ e # es) prev" if "prev < t"
  proof -
    have "\<forall>e'\<in>set es. t \<le> fst e'" using Cons.prems e by (auto simp: sorted_append)
    with that have "filter (\<lambda>e. fst e \<le> prev) es = []" by (auto simp: filter_empty_conv)
    moreover have "filter (\<lambda>e. fst e \<le> prev) xs = xs" using Cons.prems by simp
    ultimately show ?thesis using that Cons.prems(2) e by (simp add: level_def)
  qed
  moreover have "prev \<le> t" using Cons.prems e by auto
  ultimately have "(if n \<ge> k then t - prev else 0) = (if k \<le> level (xs @ e # es) prev then t - prev else 0)"
    by (cases "prev = t") auto
  with rest show ?case by (simp add: e)
qed

lemma level_events: "ordered_spans ivs \<Longrightarrow> level (span_events ivs) t = int (length (filter (contains_moment t) ivs))"
proof (induction ivs)
  case Nil
  show ?case by (simp add: level_def span_events_def)
next
  case (Cons iv ivs)
  obtain a b where iv: "iv = (a, b)" by (cases iv)
  have "level (span_events (iv # ivs)) t = (if a \<le> t then 1 else 0) - (if b \<le> t then 1 else 0) + level (span_events ivs) t"
    by (simp add: iv level_def span_events_def)
  with Cons show ?case by (simp add: iv ordered_spans_def contains_moment_def)
qed

lemma level_mset: "mset es = mset es' \<Longrightarrow> level es t = level es' t"
proof -
  assume "mset es = mset es'"
  then have "mset (map snd (filter (\<lambda>e. fst e \<le> t) es)) = mset (map snd (filter (\<lambda>e. fst e \<le> t) es'))"
    by (simp only: mset_map mset_filter)
  then show ?thesis unfolding level_def by (simp only: flip: sum_mset_sum_list)
qed

lemma events_endpoints: "map fst (span_events ivs) = endpoints ivs"
  by (induction ivs) (auto simp: span_events_def endpoints_def)

lemma sorted_fst: "sorted xs \<Longrightarrow> sorted (map fst xs)" for xs :: "('a::linorder \<times> 'b::linorder) list"
  by (induction xs) (auto simp: less_eq_prod_def)

lemma sweep_reference:
  assumes ok: "ordered_spans (concat streams)" and k: "0 < k"
  shows "duration_with_minimum_streams streams k
    = time_where (\<lambda>t. k \<le> length (filter (contains_moment t) (concat streams))) (sort (endpoints (concat streams)))"
proof (cases "span_events (concat streams)")
  case Nil
  then have "endpoints (concat streams) = []" using events_endpoints [of "concat streams"] by simp
  with Nil show ?thesis by (simp add: duration_with_minimum_streams_def)
next
  case (Cons e es)
  define E where "E = sort (span_events (concat streams))"
  obtain t d rest where E: "E = (t, d) # rest"
    using Cons by (cases E) (auto simp: E_def dest: arg_cong [of _ _ length])
  have sorted: "sorted (map fst E)" unfolding E_def by (rule sorted_fst) simp
  have "map fst E = sort (endpoints (concat streams))"
    by (rule properties_for_sort [symmetric]) (use sorted in \<open>simp_all add: E_def flip: events_endpoints\<close>)
  then have ends: "t # map fst rest = sort (endpoints (concat streams))" by (simp add: E)
  have lev: "level E s = int (length (filter (contains_moment s) (concat streams)))" for s
    using level_mset [of E "span_events (concat streams)"] level_events [OF ok] by (simp add: E_def)
  have "duration_with_minimum_streams streams k = sweep (int k) rest t d"
    using k E unfolding E_def Cons by (simp add: duration_with_minimum_streams_def Cons del: sort_key_simps)
  also have "\<dots> = time_where (\<lambda>s. int k \<le> level E s) (t # map fst rest)"
    using sweep_levels [of "[(t, d)]" rest d t "int k"] sorted by (simp add: E)
  finally show ?thesis by (simp add: ends lev)
qed

lemma time_where_bounds:
  assumes "sorted ts" and "\<forall>t\<in>set ts. lo \<le> t \<and> t \<le> hi" and "lo \<le> hi"
  shows "0 \<le> time_where P ts \<and> time_where P ts \<le> hi - lo"
proof -
  have "0 \<le> time_where P (a # ts) \<and> time_where P (a # ts) \<le> hi - a" if "sorted (a # ts)" "\<forall>t\<in>set (a # ts). t \<le> hi" for a ts
    using that
  proof (induction ts arbitrary: a)
    case Nil
    then show ?case by simp
  next
    case (Cons b ts)
    from Cons.IH [of b] Cons.prems show ?case by auto
  qed
  with assms show ?thesis by (cases ts) force+
qed

lemma duration_bounds:
  assumes "list_all (\<lambda>(a, b). lo \<le> a \<and> a \<le> b \<and> b \<le> hi) (concat streams)" and "0 < k" and "lo \<le> hi"
  shows "0 \<le> duration_with_minimum_streams streams k \<and> duration_with_minimum_streams streams k \<le> hi - lo"
proof -
  have "ordered_spans (concat streams)" using assms(1) by (auto simp: ordered_spans_def list_all_iff split: prod.splits)
  moreover have "\<forall>t\<in>set (sort (endpoints (concat streams))). lo \<le> t \<and> t \<le> hi"
    using assms(1) by (fastforce simp: endpoints_def list_all_iff)
  ultimately show ?thesis using assms(2,3) by (simp add: sweep_reference time_where_bounds)
qed

section \<open>Separated intervals\<close>

definition separated :: "span list \<Rightarrow> bool" where
  "separated ivs \<longleftrightarrow> ordered_spans ivs \<and> sorted_wrt (\<lambda>x y. snd x < fst y) ivs"

definition within_spans :: "span list \<Rightarrow> rat \<Rightarrow> bool" where
  "within_spans ivs t \<longleftrightarrow> (\<exists>(a, b)\<in>set ivs. a \<le> t \<and> t \<le> b)"

lemma within_simps [simp]:
  "within_spans [] t = False"
  "within_spans ((a, b) # ivs) t = (a \<le> t \<and> t \<le> b \<or> within_spans ivs t)"
  "within_spans (xs @ ys) t = (within_spans xs t \<or> within_spans ys t)"
  "within_spans (rev xs) t = within_spans xs t"
  "within_spans (sort xs) t = within_spans xs t"
  by (auto simp: within_spans_def)

definition merging_state :: "span list \<Rightarrow> bool" where
  "merging_state merged \<longleftrightarrow> ordered_spans merged \<and> sorted_wrt (\<lambda>x y. snd y < fst x) merged"

lemma merge_steps:
  assumes "sorted ivs" and "ordered_spans ivs" and "merging_state merged"
    and "\<forall>m\<in>set merged. \<forall>x\<in>set ivs. fst m \<le> fst x"
  shows "merging_state (foldl merge_step merged ivs)
    \<and> (\<forall>t. within_spans (foldl merge_step merged ivs) t \<longleftrightarrow> within_spans merged t \<or> within_spans ivs t)"
  using assms
proof (induction ivs arbitrary: merged)
  case Nil
  then show ?case by simp
next
  case (Cons x ivs)
  obtain a b where x: "x = (a, b)" by (cases x)
  have ab: "a \<le> b" and rest: "sorted ivs" "ordered_spans ivs"
    using Cons.prems x by (auto simp: ordered_spans_def)
  have later: "\<forall>y\<in>set ivs. a \<le> fst y"
    using Cons.prems(1) x by (auto simp: less_eq_prod_def)
  have step: "merging_state (merge_step merged x) \<and> (\<forall>m\<in>set (merge_step merged x). \<forall>y\<in>set ivs. fst m \<le> fst y)
    \<and> (\<forall>t. within_spans (merge_step merged x) t \<longleftrightarrow> within_spans merged t \<or> a \<le> t \<and> t \<le> b)"
  proof (cases merged)
    case Nil
    with ab later show ?thesis by (simp add: x merge_step_def merging_state_def ordered_spans_def)
  next
    case ms: (Cons m rest)
    obtain c d where m: "m = (c, d)" by (cases m)
    have "c \<le> a" "c \<le> d" using Cons.prems ms m x by (auto simp: merging_state_def ordered_spans_def)
    with Cons.prems ab later show ?thesis
      by (auto simp: ms m x merge_step_def merging_state_def ordered_spans_def max_def)
  qed
  then have state: "merging_state (merge_step merged x)"
    and starts: "\<forall>m\<in>set (merge_step merged x). \<forall>y\<in>set ivs. fst m \<le> fst y"
    and points: "\<And>t. within_spans (merge_step merged x) t \<longleftrightarrow> within_spans merged t \<or> a \<le> t \<and> t \<le> b"
    by auto
  from Cons.IH [OF rest state starts] points show ?case by (auto simp: x)
qed

lemma merge_numeric:
  assumes "ordered_spans ivs"
  shows "separated (merge_numeric_intervals ivs)"
    and "within_spans (merge_numeric_intervals ivs) t \<longleftrightarrow> within_spans ivs t"
proof -
  have "merging_state (foldl merge_step [] (sort ivs))
    \<and> (\<forall>t. within_spans (foldl merge_step [] (sort ivs)) t \<longleftrightarrow> within_spans [] t \<or> within_spans (sort ivs) t)"
    by (rule merge_steps) (use assms in \<open>auto simp: ordered_spans_def merging_state_def list_all_iff\<close>)
  then show "separated (merge_numeric_intervals ivs)"
    and "within_spans (merge_numeric_intervals ivs) t \<longleftrightarrow> within_spans ivs t"
    by (auto simp: merge_numeric_intervals_def separated_def merging_state_def ordered_spans_def sorted_wrt_rev list_all_iff)
qed

lemma separated_observed: "separated (observed_intervals p obs)"
  unfolding observed_intervals_def
  by (rule merge_numeric) (auto simp: ordered_spans_def supports_within_def list_all_iff)

lemma clip_bounds: "(a, b) \<in> set (clip_intervals ivs lo hi) \<Longrightarrow> lo \<le> a \<and> a < b \<and> b \<le> hi"
  by (auto simp: clip_intervals_def)

lemma separated_clip:
  assumes "separated ivs"
  shows "separated (clip_intervals ivs lo hi)"
  using assms
proof (induction ivs)
  case Nil
  then show ?case by (simp add: clip_intervals_def separated_def ordered_spans_def)
next
  case (Cons x ivs)
  obtain a b where x: "x = (a, b)" by (cases x)
  have rest: "separated (clip_intervals ivs lo hi)" using Cons by (auto simp: separated_def ordered_spans_def)
  have gap: "\<forall>y\<in>set ivs. b < fst y" using Cons.prems x by (auto simp: separated_def)
  have after: "min hi b < c" if y: "(c, d) \<in> set (clip_intervals ivs lo hi)" for c d
  proof -
    from y obtain c' d' where "(c', d') \<in> set ivs" "c = max lo c'" by (auto simp: clip_intervals_def)
    with gap show ?thesis by force
  qed
  show ?case
  proof (cases "min hi b > max lo a")
    case True
    have "clip_intervals (x # ivs) lo hi = (max lo a, min hi b) # clip_intervals ivs lo hi"
      using True by (simp add: clip_intervals_def x)
    with rest after True show ?thesis by (auto simp: separated_def ordered_spans_def)
  next
    case False
    have "clip_intervals (x # ivs) lo hi = clip_intervals ivs lo hi"
      using False by (auto simp: clip_intervals_def x)
    with rest show ?thesis by simp
  qed
qed

lemma separated_count:
  "separated ivs \<Longrightarrow> length (filter (contains_moment t) ivs) = (if list_ex (contains_moment t) ivs then 1 else 0)"
proof (induction ivs)
  case (Cons x ivs)
  have "\<not> contains_moment t y" if "contains_moment t x" "y \<in> set ivs" for y
    using Cons.prems that by (force simp: separated_def contains_moment_def)
  with Cons show ?case by (auto simp: separated_def ordered_spans_def list_ex_iff filter_empty_conv)
qed simp

text \<open>The players seen at a moment, when each stream is separated.\<close>

definition players_at :: "span list list \<Rightarrow> rat \<Rightarrow> nat" where
  "players_at streams t = length (filter (list_ex (contains_moment t)) streams)"

lemma count_players:
  "list_all separated streams \<Longrightarrow> length (filter (contains_moment t) (concat streams)) = players_at streams t"
  by (induction streams) (auto simp: players_at_def separated_count)

definition time_with_players :: "nat \<Rightarrow> span list list \<Rightarrow> rat" where
  "time_with_players k streams = time_where (\<lambda>t. k \<le> players_at streams t) (sort (endpoints (concat streams)))"

lemma minimum_streams_players:
  assumes "list_all separated streams" and "0 < k"
  shows "duration_with_minimum_streams streams k = time_with_players k streams"
proof -
  have "ordered_spans (concat streams)"
    using assms(1) by (force simp: ordered_spans_def separated_def list_all_iff)
  with assms show ?thesis by (simp add: sweep_reference time_with_players_def count_players)
qed

end
