(* ===== verification/Active_Laws.thy ===== *)
theory Active_Laws
  imports Active_Sweep
begin

text \<open>
  Laws of active play: the features of a window are valid, the windows tile the recording,
  intervals summarise maximal runs of windows of one state, and a report is always built.
\<close>

section \<open>The features of a window are valid\<close>

definition sound_policy :: "play_policy \<Rightarrow> bool" where
  "sound_policy p \<longleftrightarrow> 0 < po_window p \<and> 0 \<le> po_min_delta p \<and> 0 < po_reference_speed p \<and> 0 < po_players p
     \<and> 0 \<le> po_discontinuity p"

lemma sound_active_play_policy: "sound_policy active_play_policy"
  by (simp add: sound_policy_def active_play_policy_def)

definition stream_ok :: "motion_stream \<Rightarrow> bool" where
  "stream_ok s \<longleftrightarrow> separated (ms_intervals s) \<and> (\<forall>v\<in>set (ms_velocities s). 0 \<le> vs_speed v)
     \<and> (\<forall>c\<in>set (ms_changes s). 0 \<le> snd c)"

lemma sample_speed_nonneg: "0 \<le> hypot x y"
  by (simp add: hypot_def square_root_def flip: of_rat_mult of_rat_add)

lemma velocity_nonneg: "v \<in> set (calculate_velocity_samples p points) \<Longrightarrow> 0 \<le> vs_speed v"
  by (auto simp: calculate_velocity_samples_def velocity_between_def Let_def sample_speed_nonneg)

lemma change_nonneg: "0 \<le> po_min_delta p \<Longrightarrow> c \<in> set (calculate_speed_change_samples p vs) \<Longrightarrow> 0 \<le> snd c"
  by (auto simp: calculate_speed_change_samples_def usable_delta_def intro!: divide_nonneg_nonneg)

lemma stream_ok_of: "sound_policy p \<Longrightarrow> stream_ok (stream_of p obs c)"
  by (auto simp: stream_ok_def stream_of_def Let_def separated_observed velocity_nonneg sound_policy_def
      intro: change_nonneg)

lemma candidate_streams_ok: "sound_policy p \<Longrightarrow> list_all stream_ok (candidate_streams p cl obs)"
  by (auto simp: candidate_streams_def list_all_iff stream_ok_of)

lemma reliable_visible: "length (reliable_streams p streams a b) \<le> length (visible_streams streams a b)"
  by (simp add: reliable_streams_def)

lemma reliable_in: "s \<in> set (reliable_streams p streams a b) \<Longrightarrow> s \<in> set streams"
  by (auto simp: reliable_streams_def visible_streams_def)

lemma sum_nonneg_list: "\<forall>x\<in>set xs. 0 \<le> x \<Longrightarrow> 0 \<le> sum_list xs" for xs :: "'a::linordered_field list"
  by (induction xs) auto

lemma overlap_positive: "0 < overlap_duration a b c d \<Longrightarrow> overlap_duration a b c d = min b d - max a c"
  unfolding overlap_duration_def by (cases "0 \<le> min b d - max a c") (simp_all add: max.absorb2 max.absorb1)

lemma clipped_velocity:
  assumes "stream_ok s" and "(v, w) \<in> set (clipped_velocities a b s)"
  shows "0 \<le> vs_speed v" "0 < w" "w = min (vs_end v) b - max (vs_start v) a"
  using assms by (auto simp: clipped_velocities_def stream_ok_def intro: overlap_positive)

lemma moving_within:
  assumes "stream_ok s" and "(x, y) \<in> set (moving_intervals p a b s)"
  shows "a \<le> x \<and> x \<le> y \<and> y \<le> b"
proof -
  from assms(2) obtain v w where v: "(v, w) \<in> set (clipped_velocities a b s)" "x = max a (vs_start v)" "y = min b (vs_end v)"
    by (auto simp: moving_intervals_def)
  with clipped_velocity [OF assms(1) v(1)] show ?thesis by (auto simp: min_def max_def split: if_splits)
qed

lemma smoothed_speed_nonneg:
  assumes "\<forall>(v, w)\<in>set vs. 0 \<le> vs_speed v \<and> 0 < w"
  shows "0 \<le> smoothed_speed vs"
proof -
  have "0 \<le> sum_list (map (\<lambda>(v, w). vs_speed v * of_rat w) vs)"
    by (rule sum_nonneg_list) (use assms in \<open>fastforce intro: mult_nonneg_nonneg\<close>)
  then show ?thesis by (simp add: smoothed_speed_def Let_def)
qed

lemma average_nonneg: "\<forall>x\<in>set xs. 0 \<le> x \<Longrightarrow> 0 \<le> average xs"
  by (simp add: average_def sum_nonneg_list)

lemma mean_of_nonneg: "\<forall>x\<in>set xs. 0 \<le> x \<Longrightarrow> 0 \<le> mean xs"
  by (simp add: mean_def sum_nonneg_list)

lemma window_signals_valid:
  assumes p: "sound_policy p" and ok: "list_all stream_ok reliable" and ab: "a < b"
  shows "valid_signals (window_signals p a b reliable ratio)"
proof -
  have s: "stream_ok s" if "s \<in> set reliable" for s using ok that by (auto simp: list_all_iff)
  have speed: "0 \<le> smoothed_speed (concat (map (clipped_velocities a b) reliable))"
    by (rule smoothed_speed_nonneg) (use s in \<open>auto dest: clipped_velocity\<close>)
  have change: "0 \<le> average (window_changes a b reliable)"
    by (rule average_nonneg) (use s in \<open>fastforce simp: window_changes_def stream_ok_def\<close>)
  have stationary: "0 \<le> stationary_seconds p a b s" if "s \<in> set reliable" for s
    unfolding stationary_seconds_def
    by (rule sum_nonneg_list) (use clipped_velocity [OF s [OF that]] in \<open>auto intro: less_imp_le\<close>)
  have "list_all (\<lambda>(x, y). a \<le> x \<and> x \<le> y \<and> y \<le> b) (concat (map (moving_intervals p a b) reliable))"
    using s moving_within by (force simp: list_all_iff)
  then have together: "0 \<le> duration_with_minimum_streams (map (moving_intervals p a b) reliable) 2"
    using duration_bounds [of a b "map (moving_intervals p a b) reliable" 2] ab by simp
  show ?thesis
    using speed change together stationary p
    by (auto simp: valid_signals_def window_signals_def Let_def direction_frequency_def sound_policy_def
        intro!: mean_of_nonneg divide_nonneg_nonneg)
qed

lemma observed_bounds:
  assumes ok: "list_all stream_ok streams" and k: "0 < k" and ab: "a \<le> b"
  shows "0 \<le> duration_with_minimum_streams (map (clipped a b) streams) k
    \<and> duration_with_minimum_streams (map (clipped a b) streams) k \<le> b - a"
proof (rule duration_bounds [OF _ k ab])
  show "list_all (\<lambda>(x, y). a \<le> x \<and> x \<le> y \<and> y \<le> b) (concat (map (clipped a b) streams))"
    using clip_bounds by (fastforce simp: list_all_iff clipped_def)
qed

lemma window_coverage_valid:
  assumes p: "sound_policy p" and ok: "list_all stream_ok streams" and ab: "a < b"
  shows "valid_coverage (window_coverage p streams a b)"
proof -
  have "list_all stream_ok (reliable_streams p streams a b)" using ok reliable_in by (force simp: list_all_iff)
  with observed_bounds [of "reliable_streams p streams a b" "po_players p" a b] p ab
  show ?thesis
    by (simp add: valid_coverage_def window_coverage_def Let_def sound_policy_def reliable_visible)
qed

lemma motion_valid:
  assumes p: "sound_policy p" and ok: "list_all stream_ok streams" and ab: "0 \<le> a" "a < b"
  shows "valid_motion (motion_of p streams a b)"
proof -
  have "list_all stream_ok (reliable_streams p streams a b)" using ok reliable_in by (force simp: list_all_iff)
  with window_signals_valid [OF p this ab(2)] window_coverage_valid [OF p ok ab(2)] ab
  show ?thesis by (simp add: valid_motion_def motion_of_def Let_def valid_span_def window_coverage_def)
qed

section \<open>The windows tile the recording\<close>

fun chain :: "rat \<Rightarrow> span list \<Rightarrow> rat \<Rightarrow> bool" where
  "chain a [] b = (a = b)"
| "chain a ((x, y) # r) b = (x = a \<and> x < y \<and> chain y r b)"

definition motion_span :: "motion_window \<Rightarrow> span" where "motion_span w = (mw_start w, mw_end w)"
definition window_span :: "'a play_window_scheme \<Rightarrow> span" where "window_span w = (pw_start w, pw_end w)"

text \<open>Every window is the evidence between its ends.\<close>

definition motion_windows_ok :: "play_policy \<Rightarrow> motion_stream list \<Rightarrow> motion_window list \<Rightarrow> bool" where
  "motion_windows_ok p streams ws \<longleftrightarrow> list_all (\<lambda>w. w = motion_of p streams (mw_start w) (mw_end w)
     \<and> valid_motion w \<and> mw_end w - mw_start w \<le> po_window p) ws"

lemma motion_of_ends [simp]: "mw_start (motion_of p streams a b) = a" "mw_end (motion_of p streams a b) = b"
  by (simp_all add: motion_of_def Let_def)

lemma windows_from_tile:
  assumes p: "sound_policy p" and ok: "list_all stream_ok streams" and "0 \<le> s"
  shows "\<exists>ws e. windows_from p streams d s = Inr ws \<and> chain s (map motion_span ws) e
    \<and> d - 1/10^9 \<le> e \<and> e \<le> max s d \<and> motion_windows_ok p streams ws"
  using assms
proof (induction p streams d s rule: windows_from.induct)
  case (1 p streams d s)
  show ?case
  proof (cases "s < d - 1/10^9")
    case False
    then show ?thesis by (intro exI [of _ "[]"] exI [of _ s]) (simp add: windows_from.simps [of p streams d s] motion_windows_ok_def)
  next
    case True
    let ?e = "min d (s + po_window p)"
    let ?w = "motion_of p streams s ?e"
    have lt: "s < ?e" using True \<open>sound_policy p\<close> by (simp add: sound_policy_def)
    have v: "valid_motion ?w" by (rule motion_valid) (use 1 lt in auto)
    then have w: "window_features p streams s ?e = Inr ?w" by (simp add: window_features_def checked_def)
    have "0 \<le> ?e" using lt \<open>0 \<le> s\<close> by linarith
    with 1(1) [OF True w] 1(2,3) obtain ws e where ws: "windows_from p streams d ?e = Inr ws" "chain ?e (map motion_span ws) e"
      "d - 1/10^9 \<le> e" "e \<le> max ?e d" "motion_windows_ok p streams ws" by auto
    have "windows_from p streams d s = Inr (?w # ws)"
      using True w ws(1) by (simp add: windows_from.simps [of p streams d s])
    moreover have "chain s (map motion_span (?w # ws)) e" using ws(2) lt by (simp add: motion_span_def)
    moreover have "motion_windows_ok p streams (?w # ws)" using ws(5) v by (simp add: motion_windows_ok_def)
    moreover have "e \<le> max s d" using ws(4) lt by (simp add: max_def min_def split: if_splits)
    ultimately show ?thesis using ws(3) by blast
  qed
qed

section \<open>Classification\<close>

lemma mapE_Inr: "mapE f xs = Inr ys \<longleftrightarrow> list_all2 (\<lambda>x y. f x = Inr y) xs ys"
proof (induction xs arbitrary: ys)
  case Nil
  show ?case by (auto simp: list_all2_Nil)
next
  case (Cons x xs)
  then show ?case by (cases ys) (auto simp: bindE_Inr_iff)
qed

lemma mapE_total: "(\<And>x. x \<in> set xs \<Longrightarrow> \<exists>y. f x = Inr y) \<Longrightarrow> \<exists>ys. mapE f xs = Inr ys"
  by (induction xs) force+

lemma checked_Inr: "checked valid x = Inr y \<longleftrightarrow> valid x \<and> y = x"
  by (auto simp: checked_def)

lemma sorted_reasons_set [simp]: "set (sorted_reasons rs) = set rs"
  by (simp add: sorted_reasons_def)

lemma sorted_reasons_Nil [simp]: "sorted_reasons rs = [] \<longleftrightarrow> rs = []"
  using sorted_reasons_set [of rs] by (metis set_empty)

text \<open>What a classification keeps of the evidence.\<close>

definition classified :: "play_policy \<Rightarrow> play_context \<Rightarrow> motion_window \<Rightarrow> play_window \<Rightarrow> bool" where
  "classified p x f w \<longleftrightarrow> valid_estimate w \<and> window_span w = motion_span f \<and> pw_coverage w = mw_coverage f
     \<and> pw_signals w = mw_signals f \<and> pw_policy w = po_version p \<and> pw_lineage w = mw_lineage f
     \<and> (pw_state w, pw_confidence w) = map_prod id fst (judgement p x f)
     \<and> set (pw_reasons w) = set (mw_reasons f) \<union> set (blocking_reasons p x f) \<union> set (snd (snd (judgement p x f)))"

lemma classify_window_Inr: "classify_window p x f = Inr w \<Longrightarrow> classified p x f w"
  by (auto simp: classify_window_def checked_Inr classified_def window_span_def motion_span_def split: prod.splits)

lemma classify_window_total:
  assumes "valid_motion f" and "mw_reasons f \<noteq> []"
  shows "\<exists>w. classify_window p x f = Inr w"
  using assms
  by (auto simp: classify_window_def checked_def valid_estimate_def valid_motion_def base_limitations_def split: prod.splits)

lemma motion_of_reasons: "mw_reasons (motion_of p streams a b) \<noteq> []"
  by (simp add: motion_of_def Let_def feature_reasons_def)

lemma classify_windows_total:
  assumes "motion_windows_ok p streams fs"
  shows "\<exists>ws. classify_motion_windows q x fs = Inr ws"
  unfolding classify_motion_windows_def
proof (rule mapE_total, rule classify_window_total)
  fix f assume "f \<in> set fs"
  with assms have "f = motion_of p streams (mw_start f) (mw_end f)" "valid_motion f"
    by (auto simp: motion_windows_ok_def list_all_iff)
  then show "valid_motion f" "mw_reasons f \<noteq> []" using motion_of_reasons by metis+
qed

lemma classify_windows_all2:
  "classify_motion_windows p x fs = Inr ws \<Longrightarrow> list_all2 (classified p x) fs ws"
  unfolding classify_motion_windows_def mapE_Inr by (erule list_all2_mono) (rule classify_window_Inr)

lemma classified_spans: "list_all2 (classified p x) fs ws \<Longrightarrow> map window_span ws = map motion_span fs"
  by (induction rule: list_all2_induct) (auto simp: classified_def)

section \<open>Intervals summarise their windows\<close>

definition weighted_sum :: "(play_signals \<Rightarrow> real) \<Rightarrow> play_window list \<Rightarrow> real" where
  "weighted_sum f ws = sum_list (map (\<lambda>w. f (pw_signals w) * of_rat (av_window (pw_coverage w))) ws)"

definition averages :: "(play_signals \<Rightarrow> real) \<Rightarrow> play_window list \<Rightarrow> play_interval \<Rightarrow> bool" where
  "averages f ws i \<longleftrightarrow> f (pw_signals i) * of_rat (av_window (pw_coverage i)) = weighted_sum f ws"

definition summarises_coverage :: "play_window list \<Rightarrow> play_coverage \<Rightarrow> bool" where
  "summarises_coverage ws c \<longleftrightarrow> av_observed c = sum_list (map (\<lambda>w. av_observed (pw_coverage w)) ws)
     \<and> av_window c = sum_list (map (\<lambda>w. av_window (pw_coverage w)) ws)
     \<and> av_reliable c = Min (set (map (\<lambda>w. av_reliable (pw_coverage w)) ws))
     \<and> av_visible c = Min (set (map (\<lambda>w. av_visible (pw_coverage w)) ws))"

definition summarises_signals :: "play_window list \<Rightarrow> play_signals \<Rightarrow> bool" where
  "summarises_signals ws s \<longleftrightarrow> sg_moving s = Min (set (map (\<lambda>w. sg_moving (pw_signals w)) ws))
     \<and> sg_kitchen s = Max (set (map (\<lambda>w. sg_kitchen (pw_signals w)) ws))
     \<and> (sg_simultaneous s \<longleftrightarrow> (\<forall>w\<in>set ws. sg_simultaneous (pw_signals w)))
     \<and> sg_stationary s = sum_list (map (\<lambda>w. sg_stationary (pw_signals w)) ws)
     \<and> sg_together s = sum_list (map (\<lambda>w. sg_together (pw_signals w)) ws)
     \<and> visibility_rank (sg_visibility s) = Min (visibility_rank ` set (map (\<lambda>w. sg_visibility (pw_signals w)) ws))
     \<and> gap_rank (sg_gap s) = Max (gap_rank ` set (map (\<lambda>w. sg_gap (pw_signals w)) ws))
     \<and> continuity_rank (sg_continuity s) = Min (continuity_rank ` set (map (\<lambda>w. sg_continuity (pw_signals w)) ws))"

definition summarises :: "play_window list \<Rightarrow> play_interval \<Rightarrow> bool" where
  "summarises ws i \<longleftrightarrow> ws \<noteq> [] \<and> pw_start i = pw_start (hd ws) \<and> pw_end i = pw_end (last ws)
     \<and> (\<forall>w\<in>set ws. pw_state w = pw_state i) \<and> pi_windows i = length ws
     \<and> confidence_rank (pw_confidence i) = Min (confidence_rank ` set (map pw_confidence ws))
     \<and> summarises_coverage ws (pw_coverage i) \<and> summarises_signals ws (pw_signals i)
     \<and> averages sg_speed ws i \<and> averages sg_change ws i \<and> averages sg_intensity ws i \<and> averages sg_directions ws i
     \<and> set (pw_reasons i) = \<Union> (set ` pw_reasons ` set ws)
     \<and> set (pw_limitations i) = \<Union> (set ` pw_limitations ` set ws)
     \<and> set (ln_candidates (pw_lineage i)) = \<Union> ((\<lambda>w. set (ln_candidates (pw_lineage w))) ` set ws)
     \<and> set (ln_tracks (pw_lineage i)) = \<Union> ((\<lambda>w. set (ln_tracks (pw_lineage w))) ` set ws)"

lemma summarises_single:
  "summarises [w] (play_window.extend w (play_interval.fields 1))"
  by (simp add: summarises_def summarises_coverage_def summarises_signals_def averages_def weighted_sum_def
      play_window.defs play_interval.defs)

lemma weighted_average_times: "0 < v + w \<Longrightarrow> weighted_average a v b w * of_rat (v + w) = a * of_rat v + b * of_rat w"
  by (simp add: weighted_average_def)

lemma Min_snoc: "xs \<noteq> [] \<Longrightarrow> Min (set (xs @ [x])) = min (Min (set xs)) x" for x :: "'a::linorder"
  by (simp add: min.commute)

lemma Max_snoc: "xs \<noteq> [] \<Longrightarrow> Max (set (xs @ [x])) = max (Max (set xs)) x" for x :: "'a::linorder"
  by (simp add: max.commute)

lemma summarises_coverage_snoc:
  assumes "summarises_coverage ws c" and "ws \<noteq> []"
  shows "summarises_coverage (ws @ [w]) (merge_coverage c (pw_coverage w))"
  using assms Min_snoc [of "map (\<lambda>w. av_reliable (pw_coverage w)) ws"] Min_snoc [of "map (\<lambda>w. av_visible (pw_coverage w)) ws"]
  by (simp add: summarises_coverage_def merge_coverage_def)

lemma summarises_signals_snoc:
  assumes "summarises_signals ws s" and "ws \<noteq> []"
  shows "summarises_signals (ws @ [w]) (merge_signals s a (pw_signals w) b)"
  using assms Min_snoc [of "map (\<lambda>w. sg_moving (pw_signals w)) ws"] Max_snoc [of "map (\<lambda>w. sg_kitchen (pw_signals w)) ws"]
    visibilities.lower_snoc [of "sg_visibility s" "map (\<lambda>w. sg_visibility (pw_signals w)) ws" "sg_visibility (pw_signals w)"]
    gaps.higher_snoc [of "sg_gap s" "map (\<lambda>w. sg_gap (pw_signals w)) ws" "sg_gap (pw_signals w)"]
    continuities.lower_snoc [of "sg_continuity s" "map (\<lambda>w. sg_continuity (pw_signals w)) ws" "sg_continuity (pw_signals w)"]
  unfolding summarises_signals_def merge_signals_def weaker_visibility_def worse_gap_def weaker_continuity_def
  by (simp add: conj_commute)

lemma averages_snoc:
  assumes "averages f ws i" and "0 < av_window (pw_coverage i) + av_window (pw_coverage w)"
    and "f (pw_signals j) = weighted_average (f (pw_signals i)) (av_window (pw_coverage i)) (f (pw_signals w)) (av_window (pw_coverage w))"
    and "av_window (pw_coverage j) = av_window (pw_coverage i) + av_window (pw_coverage w)"
  shows "averages f (ws @ [w]) j"
  using assms weighted_average_times [OF assms(2)] by (simp add: averages_def weighted_sum_def)

lemma summarises_snoc:
  assumes s: "summarises ws i" and st: "pw_state w = pw_state i"
    and v: "0 < av_window (pw_coverage i) + av_window (pw_coverage w)"
  shows "summarises (ws @ [w]) (merged_interval i w)"
proof -
  let ?j = "merged_interval i w"
  have ne: "ws \<noteq> []" using s by (simp add: summarises_def)
  have cov: "summarises_coverage (ws @ [w]) (pw_coverage ?j)"
    using summarises_coverage_snoc s ne by (simp add: summarises_def merged_interval_def)
  have sig: "summarises_signals (ws @ [w]) (pw_signals ?j)"
    using summarises_signals_snoc s ne by (simp add: summarises_def merged_interval_def)
  have avg: "averages sg_speed (ws @ [w]) ?j" "averages sg_change (ws @ [w]) ?j" "averages sg_intensity (ws @ [w]) ?j"
    "averages sg_directions (ws @ [w]) ?j"
    by (rule averages_snoc [OF _ v]; use s in \<open>simp add: summarises_def merged_interval_def merge_signals_def merge_coverage_def\<close>)+
  have conf: "confidence_rank (pw_confidence ?j) = Min (confidence_rank ` set (map pw_confidence (ws @ [w])))"
    using confidences.lower_snoc [of "pw_confidence i" "map pw_confidence ws" "pw_confidence w"] s ne
    by (simp add: summarises_def merged_interval_def weaker_confidence_def)
  have sets: "set (pw_reasons ?j) = \<Union> (set ` pw_reasons ` set (ws @ [w]))"
    "set (pw_limitations ?j) = \<Union> (set ` pw_limitations ` set (ws @ [w]))"
    "set (ln_candidates (pw_lineage ?j)) = \<Union> ((\<lambda>w. set (ln_candidates (pw_lineage w))) ` set (ws @ [w]))"
    "set (ln_tracks (pw_lineage ?j)) = \<Union> ((\<lambda>w. set (ln_tracks (pw_lineage w))) ` set (ws @ [w]))"
    using s by (auto simp: summarises_def merged_interval_def merge_lineage_def)
  have "pw_start ?j = pw_start (hd (ws @ [w]))" "pw_end ?j = pw_end (last (ws @ [w]))"
    "\<forall>x\<in>set (ws @ [w]). pw_state x = pw_state ?j" "pi_windows ?j = length (ws @ [w])"
    using s ne st by (simp_all add: summarises_def merged_interval_def)
  with cov sig avg conf sets show ?thesis unfolding summarises_def by blast
qed

text \<open>Successive intervals could not have been one.\<close>

definition maximal :: "play_policy \<Rightarrow> play_interval list \<Rightarrow> bool" where
  "maximal p is \<longleftrightarrow> list_all (\<lambda>(i, j). pw_state j \<noteq> pw_state i \<or> \<bar>pw_start j - pw_end i\<bar> > po_discontinuity p) (adjacent is)"

definition run_lengths :: "play_policy \<Rightarrow> play_window list \<Rightarrow> play_interval list \<Rightarrow> bool" where
  "run_lengths p ws is \<longleftrightarrow> list_all valid_interval is \<and> maximal p is
     \<and> (\<exists>gs. concat gs = ws \<and> list_all2 summarises gs is)"

lemma valid_window_positive: "valid_estimate w \<Longrightarrow> 0 < av_window (pw_coverage w)"
  by (simp add: valid_estimate_def valid_coverage_def)

lemma merge_from_groups:
  assumes "merge_from p i ws = Inr is" and "summarises g i" and "valid_interval i" and "list_all valid_estimate ws"
  shows "list_all valid_interval is \<and> maximal p is \<and> is \<noteq> [] \<and> pw_start (hd is) = pw_start i \<and> pw_state (hd is) = pw_state i
    \<and> (\<exists>gs. concat gs = g @ ws \<and> list_all2 summarises gs is)"
  using assms
proof (induction ws arbitrary: i g "is")
  case Nil
  then have "is": "is = [i]" by simp
  have "concat [g] = g @ []" "list_all2 summarises [g] is" using Nil "is" by simp_all
  then have "\<exists>gs. concat gs = g @ [] \<and> list_all2 summarises gs is" by blast
  then show ?case using Nil by (auto simp: maximal_def "is")
next
  case (Cons w ws)
  have pos: "0 < av_window (pw_coverage i) + av_window (pw_coverage w)"
    using Cons.prems(3,4) valid_window_positive [of i] valid_window_positive [of w] by (simp add: valid_interval_def)
  show ?case
  proof (cases "joins p i w")
    case True
    with Cons.prems(1) have v: "valid_interval (merged_interval i w)"
      and rest: "merge_from p (merged_interval i w) ws = Inr is"
      by (auto simp: merge_interval_and_window_def checked_Inr bindE_Inr_iff)
    have "summarises (g @ [w]) (merged_interval i w)"
      by (rule summarises_snoc) (use Cons.prems pos True in \<open>auto simp: joins_def\<close>)
    from Cons.IH [OF rest this v] Cons.prems(4) show ?thesis by (simp add: merged_interval_def)
  next
    case False
    let ?j = "play_window.extend w (play_interval.fields 1)"
    from False Cons.prems(1) obtain js where v: "valid_interval ?j" and rest: "merge_from p ?j ws = Inr js" and "is": "is = i # js"
      by (auto simp: interval_from_window_def checked_Inr bindE_Inr_iff)
    from Cons.IH [OF rest summarises_single v] Cons.prems(4) obtain gs where
      js: "list_all valid_interval js" "maximal p js" "js \<noteq> []" "pw_start (hd js) = pw_start w" "pw_state (hd js) = pw_state w"
      and gs: "concat gs = [w] @ ws" "list_all2 summarises gs js"
      by (auto simp: play_window.defs)
    have "maximal p (i # js)" using js False by (cases js) (auto simp: maximal_def joins_def)
    moreover have "concat (g # gs) = g @ w # ws" "list_all2 summarises (g # gs) (i # js)" using gs Cons.prems(2) by simp_all
    then have "\<exists>gs. concat gs = g @ w # ws \<and> list_all2 summarises gs (i # js)" by blast
    ultimately show ?thesis using js Cons.prems(3) by (simp add: "is")
  qed
qed

lemma merge_windows_groups:
  assumes "merge_active_play_windows p ws = Inr is" and "list_all valid_estimate ws"
  shows "run_lengths p (sort_key (\<lambda>w. (pw_start w, pw_end w)) ws) is"
proof (cases "sort_key (\<lambda>w. (pw_start w, pw_end w)) ws")
  case Nil
  with assms(1) have "is = []" by (simp add: merge_active_play_windows_def)
  with Nil show ?thesis by (auto simp: run_lengths_def maximal_def intro!: exI [of _ "[]"])
next
  case (Cons w rest)
  let ?j = "play_window.extend w (play_interval.fields 1)"
  from Cons assms(1) have v: "valid_interval ?j" and "merge_from p ?j rest = Inr is"
    by (auto simp: merge_active_play_windows_def interval_from_window_def checked_Inr bindE_Inr_iff)
  moreover have "list_all valid_estimate rest"
    using assms(2) Cons by (metis list_all_iff set_sort list.set_intros(2))
  ultimately show ?thesis using merge_from_groups [OF _ summarises_single] Cons by (fastforce simp: run_lengths_def)
qed

section \<open>Merging windows that adjoin succeeds\<close>

definition exact_estimate :: "'a play_window_scheme \<Rightarrow> bool" where
  "exact_estimate w \<longleftrightarrow> valid_estimate w \<and> av_window (pw_coverage w) = pw_end w - pw_start w
     \<and> av_observed (pw_coverage w) \<le> av_window (pw_coverage w)"

lemma mean_of_two:
  fixes v :: real
  assumes "0 < v" "0 < w"
  shows "a \<le> hi \<Longrightarrow> b \<le> hi \<Longrightarrow> (a * v + b * w) / (v + w) \<le> hi"
    and "lo \<le> a \<Longrightarrow> lo \<le> b \<Longrightarrow> lo \<le> (a * v + b * w) / (v + w)"
  using assms by (simp_all add: pos_divide_le_eq pos_le_divide_eq distrib_left add_mono mult_right_mono)

lemma weighted_average_le:
  "0 < v \<Longrightarrow> 0 < w \<Longrightarrow> a \<le> hi \<Longrightarrow> b \<le> hi \<Longrightarrow> weighted_average a v b w \<le> hi"
  unfolding weighted_average_def of_rat_add by (rule mean_of_two) simp_all

lemma weighted_average_ge:
  "0 < v \<Longrightarrow> 0 < w \<Longrightarrow> lo \<le> a \<Longrightarrow> lo \<le> b \<Longrightarrow> lo \<le> weighted_average a v b w"
  unfolding weighted_average_def of_rat_add by (rule mean_of_two) simp_all

lemma merge_signals_valid:
  "valid_signals a \<Longrightarrow> valid_signals b \<Longrightarrow> 0 < v \<Longrightarrow> 0 < w \<Longrightarrow> valid_signals (merge_signals a v b w)"
  by (simp add: valid_signals_def merge_signals_def weighted_average_ge weighted_average_le)

lemma merge_coverage_valid:
  assumes "valid_coverage a" "av_observed a \<le> av_window a" "valid_coverage b" "av_observed b \<le> av_window b"
  shows "valid_coverage (merge_coverage a b)"
  using assms by (simp add: valid_coverage_def merge_coverage_def divide_le_eq min_le_iff_disj)

lemma sort_key_Nil: "sort_key f xs = [] \<longleftrightarrow> xs = []"
  by (metis set_empty set_sort)

lemma merged_exact:
  assumes i: "exact_estimate i" and w: "exact_estimate w" and adj: "pw_start w = pw_end i"
  shows "exact_estimate (merged_interval i w)" and "valid_interval (merged_interval i w)"
proof -
  have v: "valid_estimate i" "valid_estimate w" using i w by (simp_all add: exact_estimate_def)
  have cov: "valid_coverage (merge_coverage (pw_coverage i) (pw_coverage w))"
    by (rule merge_coverage_valid) (use i w in \<open>auto simp: exact_estimate_def valid_estimate_def\<close>)
  have sig: "valid_signals (merge_signals (pw_signals i) (av_window (pw_coverage i)) (pw_signals w) (av_window (pw_coverage w)))"
    by (rule merge_signals_valid) (use v in \<open>auto simp: valid_estimate_def valid_coverage_def\<close>)
  have win: "av_window (merge_coverage (pw_coverage i) (pw_coverage w)) = pw_end w - pw_start i"
    using i w adj by (simp add: merge_coverage_def exact_estimate_def)
  have span: "valid_span (pw_start i) (pw_end w) (merge_coverage (pw_coverage i) (pw_coverage w))"
    using v adj win by (auto simp: valid_estimate_def valid_span_def)
  have ne: "pw_reasons (merged_interval i w) \<noteq> []" "pw_limitations (merged_interval i w) \<noteq> []"
    using v by (auto simp: merged_interval_def valid_estimate_def sort_key_Nil)
  have "valid_estimate (merged_interval i w)"
    using cov sig span ne by (simp add: valid_estimate_def merged_interval_def)
  moreover have "av_observed (merge_coverage (pw_coverage i) (pw_coverage w)) \<le> av_window (merge_coverage (pw_coverage i) (pw_coverage w))"
    using i w by (simp add: merge_coverage_def exact_estimate_def)
  ultimately show "exact_estimate (merged_interval i w)" "valid_interval (merged_interval i w)"
    using win by (simp_all add: exact_estimate_def valid_interval_def) (simp_all add: merged_interval_def)
qed

definition interval_of :: "play_window \<Rightarrow> play_interval" where
  "interval_of w = play_window.extend w (play_interval.fields 1)"

lemma interval_of_exact:
  assumes "exact_estimate w"
  shows "exact_estimate (interval_of w)" and "valid_interval (interval_of w)" and "interval_from_window w = Inr (interval_of w)"
    and "window_span (interval_of w) = window_span w" and "pw_policy (interval_of w) = pw_policy w"
  using assms
  by (simp_all add: exact_estimate_def valid_interval_def valid_estimate_def interval_of_def interval_from_window_def
      checked_def window_span_def play_window.defs play_interval.defs)

definition well_merged :: "string \<Rightarrow> rat \<Rightarrow> rat \<Rightarrow> play_interval list \<Rightarrow> bool" where
  "well_merged version a b is \<longleftrightarrow> chain a (map window_span is) b \<and> list_all exact_estimate is
     \<and> list_all (\<lambda>i. pw_policy i = version) is"

lemma merge_from_chain:
  assumes "0 \<le> po_discontinuity p" and "exact_estimate i" and "chain (pw_end i) (map window_span ws) e"
    and "list_all exact_estimate ws" and "list_all (\<lambda>w. pw_policy w = v) ws" and "pw_policy i = v"
  shows "\<exists>is. merge_from p i ws = Inr is \<and> well_merged v (pw_start i) e is"
  using assms
proof (induction ws arbitrary: i)
  case Nil
  then have "pw_start i < pw_end i" by (auto simp: exact_estimate_def valid_estimate_def valid_span_def)
  with Nil show ?case by (simp add: well_merged_def window_span_def)
next
  case (Cons w ws)
  have w: "exact_estimate w" "pw_start w = pw_end i" "pw_policy w = v" using Cons.prems by (auto simp: window_span_def)
  have i: "pw_start i < pw_end i" using Cons.prems(2) by (auto simp: exact_estimate_def valid_estimate_def valid_span_def)
  show ?case
  proof (cases "joins p i w")
    case True
    note j = merged_exact [OF Cons.prems(2) w(1,2)]
    have "\<exists>is. merge_from p (merged_interval i w) ws = Inr is \<and> well_merged v (pw_start (merged_interval i w)) e is"
      by (rule Cons.IH [OF _ j(1)]) (use Cons.prems in \<open>auto simp: merged_interval_def window_span_def\<close>)
    with True j(2) show ?thesis by (simp add: merge_interval_and_window_def checked_def) (simp add: merged_interval_def)
  next
    case False
    note j = interval_of_exact [OF w(1)]
    have "\<exists>is. merge_from p (interval_of w) ws = Inr is \<and> well_merged v (pw_start (interval_of w)) e is"
      by (rule Cons.IH [OF _ j(1)]) (use Cons.prems j(4,5) w in \<open>auto simp: window_span_def\<close>)
    then obtain js where js: "merge_from p (interval_of w) ws = Inr js" "well_merged v (pw_start (interval_of w)) e js" by blast
    have "pw_start (interval_of w) = pw_end i" using j(4) w(2) by (simp add: window_span_def)
    with js i Cons.prems(2,6) have "well_merged v (pw_start i) e (i # js)"
      by (simp add: well_merged_def window_span_def)
    with False j(3) js(1) show ?thesis by simp
  qed
qed

lemma chain_later: "chain a xs b \<Longrightarrow> a \<le> b \<and> (\<forall>x\<in>set xs. a \<le> fst x)"
  by (induction a xs b rule: chain.induct) force+

lemma chain_sorted: "chain a xs b \<Longrightarrow> sorted xs"
proof (induction a xs b rule: chain.induct)
  case (2 a x y r b)
  then have "\<forall>z\<in>set r. y \<le> fst z" using chain_later by auto
  with 2 show ?case by (force simp: less_eq_prod_def)
qed simp

lemma chain_sort: "chain a (map window_span ws) b \<Longrightarrow> sort_key (\<lambda>w. (pw_start w, pw_end w)) ws = ws"
  using chain_sorted [of a "map window_span ws" b] by (simp add: window_span_def [abs_def] sort_key_id_if_sorted)

lemma chain_adjacent: "chain a (map window_span ws) b \<Longrightarrow> list_all (\<lambda>(v, w). pw_start w = pw_end v) (adjacent ws)"
proof (induction ws arbitrary: a)
  case (Cons w ws)
  then show ?case by (cases ws) (auto simp: window_span_def)
qed simp

lemma chain_disjoint: "chain a (map window_span ws) b \<Longrightarrow> disjoint_estimates ws"
  using chain_adjacent [of a ws b]
  by (fastforce simp: disjoint_estimates_def chain_sort list_all_iff)

lemma merge_windows_chain:
  assumes "0 \<le> po_discontinuity p" and "chain a (map window_span ws) e"
    and "list_all exact_estimate ws" and "list_all (\<lambda>w. pw_policy w = v) ws"
  shows "\<exists>is. merge_active_play_windows p ws = Inr is \<and> well_merged v a e is"
proof (cases ws)
  case Nil
  with assms show ?thesis by (simp add: merge_active_play_windows_def well_merged_def)
next
  case (Cons w rest)
  have w: "exact_estimate w" using assms(3) Cons by simp
  note j = interval_of_exact [OF w]
  have "\<exists>is. merge_from p (interval_of w) rest = Inr is \<and> well_merged v (pw_start (interval_of w)) e is"
    by (rule merge_from_chain [OF assms(1) j(1)]) (use assms Cons j(4,5) in \<open>auto simp: window_span_def\<close>)
  moreover have "pw_start (interval_of w) = a" using assms(2) j(4) Cons by (simp add: window_span_def)
  ultimately show ?thesis
    using j(3) chain_sort [OF assms(2)] by (auto simp: merge_active_play_windows_def Cons)
qed

section \<open>The report\<close>

lemma chain_total: "chain a (map window_span is) b \<Longrightarrow> sum_list (map (\<lambda>i. pw_end i - pw_start i) is) = b - a"
  by (induction "is" arbitrary: a) (auto simp: window_span_def)

lemma state_seconds_total:
  "state_seconds is LikelyActive + state_seconds is LikelyIdle + state_seconds is PlayUnknown
    = sum_list (map (\<lambda>i. pw_end i - pw_start i) is)"
proof (induction "is")
  case Nil
  show ?case by (simp add: state_seconds_def)
next
  case (Cons i "is")
  then show ?case by (cases "pw_state i") (simp_all add: state_seconds_def)
qed

lemma state_seconds_nonneg: "list_all exact_estimate is \<Longrightarrow> 0 \<le> state_seconds is st"
  by (induction "is") (auto simp: state_seconds_def exact_estimate_def valid_estimate_def valid_span_def)

definition timeline :: "play_policy \<Rightarrow> rat \<Rightarrow> play_window list \<Rightarrow> play_interval list \<Rightarrow> rat \<Rightarrow> bool" where
  "timeline p d ws is e \<longleftrightarrow> chain 0 (map window_span ws) e \<and> chain 0 (map window_span is) e
     \<and> d - 1/10^9 \<le> e \<and> e \<le> d \<and> list_all (\<lambda>w. pw_end w - pw_start w \<le> po_window p) ws"

lemma build_motion_total:
  assumes "sound_policy p" and "0 \<le> d"
  shows "\<exists>fs e. build_motion_windows p cl obs d = Inr fs \<and> chain 0 (map motion_span fs) e
    \<and> d - 1/10^9 \<le> e \<and> e \<le> d \<and> motion_windows_ok p (candidate_streams p cl obs) fs"
proof (cases "d \<le> 0")
  case True
  with assms(2) show ?thesis
    by (intro exI [of _ "[]"] exI [of _ 0]) (simp add: build_motion_windows_def motion_windows_ok_def)
next
  case False
  with windows_from_tile [OF assms(1) candidate_streams_ok [OF assms(1)], of 0 cl obs d] show ?thesis
    by (auto simp: build_motion_windows_def)
qed

lemma classified_exact:
  assumes "sound_policy p" and "list_all stream_ok streams" and "motion_windows_ok p streams fs"
    and "list_all2 (classified q x) fs ws"
  shows "list_all exact_estimate ws" and "list_all (\<lambda>w. pw_policy w = po_version q) ws"
    and "list_all (\<lambda>w. pw_end w - pw_start w \<le> po_window p) ws"
proof -
  have ok: "exact_estimate w \<and> pw_policy w = po_version q \<and> pw_end w - pw_start w \<le> po_window p"
    if f: "f \<in> set fs" and w: "classified q x f w" for f w
  proof -
    from f assms(3) have fs: "f = motion_of p streams (mw_start f) (mw_end f)" "valid_motion f" "mw_end f - mw_start f \<le> po_window p"
      by (auto simp: motion_windows_ok_def list_all_iff)
    have lt: "mw_start f < mw_end f" using fs(2) by (simp add: valid_motion_def valid_span_def)
    have "list_all stream_ok (reliable_streams p streams (mw_start f) (mw_end f))"
      using assms(2) reliable_in by (force simp: list_all_iff)
    with observed_bounds [of "reliable_streams p streams (mw_start f) (mw_end f)" "po_players p" "mw_start f" "mw_end f"] assms(1) lt
    have "av_observed (window_coverage p streams (mw_start f) (mw_end f)) \<le> mw_end f - mw_start f"
      by (simp add: window_coverage_def Let_def sound_policy_def)
    moreover have "mw_coverage f = window_coverage p streams (mw_start f) (mw_end f)"
      by (subst fs(1)) (simp add: motion_of_def Let_def)
    moreover have "av_window (window_coverage p streams (mw_start f) (mw_end f)) = mw_end f - mw_start f"
      by (simp add: window_coverage_def Let_def)
    ultimately show ?thesis using w fs(3)
      by (auto simp: exact_estimate_def classified_def window_span_def motion_span_def)
  qed
  have "list_all (\<lambda>w. exact_estimate w \<and> pw_policy w = po_version q \<and> pw_end w - pw_start w \<le> po_window p) ws"
    unfolding list_all_iff
  proof
    fix w assume "w \<in> set ws"
    with assms(4) obtain f where "f \<in> set fs" "classified q x f w"
      by (metis in_set_conv_nth list_all2_conv_all_nth)
    then show "exact_estimate w \<and> pw_policy w = po_version q \<and> pw_end w - pw_start w \<le> po_window p" by (rule ok)
  qed
  then show "list_all exact_estimate ws" and "list_all (\<lambda>w. pw_policy w = po_version q) ws"
    and "list_all (\<lambda>w. pw_end w - pw_start w \<le> po_window p) ws"
    by (simp_all add: list_all_iff)
qed

lemma report_valid:
  assumes e: "timeline p (ra_duration i) ws is e" and ok: "list_all exact_estimate ws" "well_merged (po_version p) 0 e is"
    and "list_all (\<lambda>w. pw_policy w = po_version p) ws" and "list_all valid_interval is"
    and "0 \<le> ra_duration i" and "1 \<le> sx_version (ra_sources i)"
  shows "valid_report (report_of p i ws is)"
proof -
  have total: "state_seconds is LikelyActive + state_seconds is LikelyIdle + state_seconds is PlayUnknown = e"
    using e chain_total [of 0 "is" e] by (simp add: state_seconds_total timeline_def)
  have pos: "0 \<le> state_seconds is st" for st using ok(2) state_seconds_nonneg by (simp add: well_merged_def)
  have d: "ra_duration i - 1/10^9 \<le> e" "e \<le> ra_duration i" using e by (simp_all add: timeline_def)
  have "valid_summary (summary_of (ra_duration i) ws is)"
    using pos [of LikelyActive] pos [of LikelyIdle] pos [of PlayUnknown] total d assms(6)
    by (simp add: valid_summary_def summary_of_def Let_def divide_le_eq)
  moreover have "\<bar>e - ra_duration i\<bar> \<le> 1/10^5" using d by (simp add: abs_le_iff)
  moreover have "list_all valid_estimate ws" using ok(1) by (simp add: list_all_iff exact_estimate_def)
  ultimately show ?thesis using e assms(4,5,7) ok(2) chain_disjoint [of 0 ws e] chain_disjoint [of 0 "is" e] total
    by (simp add: valid_report_def report_of_def timeline_def well_merged_def) (simp add: summary_of_def Let_def)
qed

text \<open>A report is built from windows and intervals that cover the recording.\<close>

definition built_from :: "play_policy \<Rightarrow> report_input \<Rightarrow> active_report \<Rightarrow> motion_window list \<Rightarrow> rat \<Rightarrow> bool" where
  "built_from p i r fs e \<longleftrightarrow> motion_windows_ok p (candidate_streams p (ra_candidates i) (ra_observations i)) fs
     \<and> list_all2 (classified p (report_context i)) fs (rp_windows r)
     \<and> r = report_of p i (rp_windows r) (rp_intervals r) \<and> timeline p (ra_duration i) (rp_windows r) (rp_intervals r) e
     \<and> run_lengths p (rp_windows r) (rp_intervals r) \<and> valid_report r"

lemma build_report:
  assumes "sound_policy p" and "0 \<le> ra_duration i" and "1 \<le> sx_version (ra_sources i)"
  shows "\<exists>r fs e. build_active_play_report p i = Inr r \<and> built_from p i r fs e"
proof -
  let ?streams = "candidate_streams p (ra_candidates i) (ra_observations i)"
  have streams: "list_all stream_ok ?streams" by (rule candidate_streams_ok [OF assms(1)])
  from build_motion_total [OF assms(1,2)] obtain fs e where
    fs: "build_motion_windows p (ra_candidates i) (ra_observations i) (ra_duration i) = Inr fs"
    "chain 0 (map motion_span fs) e" "ra_duration i - 1/10^9 \<le> e" "e \<le> ra_duration i" "motion_windows_ok p ?streams fs" by blast
  from classify_windows_total [OF fs(5)] obtain ws where ws: "classify_motion_windows p (report_context i) fs = Inr ws" by blast
  note all2 = classify_windows_all2 [OF ws]
  note exact = classified_exact [OF assms(1) streams fs(5) all2]
  have chain: "chain 0 (map window_span ws) e" using fs(2) classified_spans [OF all2] by simp
  have "0 \<le> po_discontinuity p" using assms(1) by (simp add: sound_policy_def)
  from merge_windows_chain [OF this chain exact(1,2)] obtain "is" where
    "is": "merge_active_play_windows p ws = Inr is" "well_merged (po_version p) 0 e is" by blast
  have valid: "list_all valid_estimate ws" using exact(1) by (simp add: list_all_iff exact_estimate_def)
  have runs: "run_lengths p ws is" using merge_windows_groups [OF "is"(1) valid] chain_sort [OF chain] by simp
  have tl: "timeline p (ra_duration i) ws is e"
    using chain "is"(2) fs(3,4) exact(3) by (simp add: timeline_def well_merged_def)
  have "valid_report (report_of p i ws is)"
    by (rule report_valid [OF tl exact(1) "is"(2) exact(2)]) (use runs assms in \<open>simp_all add: run_lengths_def\<close>)
  moreover from this have "build_active_play_report p i = Inr (report_of p i ws is)"
    using fs(1) ws "is"(1) by (simp add: build_active_play_report_def checked_def)
  ultimately show ?thesis using fs(5) all2 tl runs
    by (intro exI [of _ "report_of p i ws is"] exI [of _ fs] exI [of _ e]) (simp add: built_from_def report_of_def)
qed

end
