(* ===== verification/Active_Properties.thy ===== *)
theory Active_Properties
  imports Active_Laws
begin

text \<open>
  The properties of the shadow estimate of active play, and a recording in which two
  players move, on which they are applied.
\<close>

section \<open>A recording\<close>

definition demo_seen :: "int \<Rightarrow> rat \<Rightarrow> nat \<Rightarrow> observation" where
  "demo_seen track y n =
     \<lparr>ob_frame = int n, ob_time = of_nat n * 3/4, ob_track = track,
      ob_box = \<lparr>bx_x1 = 0, bx_y1 = 0, bx_x2 = 1, bx_y2 = 2\<rparr>, ob_confidence = 1,
      ob_position = (of_nat n * 3/2, y), ob_inside = True, ob_excluded = False, ob_interpolated = False\<rparr>"

definition demo_track :: "int \<Rightarrow> rat \<Rightarrow> observation list" where
  "demo_track track y = map (demo_seen track y) [0..<9]"

definition demo_player :: "string \<Rightarrow> int \<Rightarrow> court_candidate" where
  "demo_player i track =
     \<lparr>pc_id = i, pc_tracks = [track], pc_first = 0, pc_last = 6, pc_observed = 6, pc_visibility = 1, pc_eligible = True,
      pc_quality = CandStrong, cc_frames = 9, cc_distance = 12, cc_rate = 2, cc_exclusions = [], cc_frame = None,
      cc_crop = None, cc_full = None, cc_previews = [], cc_box = \<lparr>ab_width = 1, ab_height = 2, ab_area = 0\<rparr>,
      cc_side = SideNear, cc_reasons = [], cc_warnings = [], cc_evidence = [], cc_status = ReviewPending,
      cc_rejection = None, cc_merge = None\<rparr>"

definition demo_court :: collection where
  "demo_court =
     \<lparr>cl_version = 4, cl_analysis = ''a'', cl_candidates = [demo_player ''pc_1'' 1, demo_player ''pc_2'' 2],
      cl_excluded = [], cl_selected = None, cl_decisions = [],
      cl_suitability = \<lparr>su_status = RecSuitable, su_reasons = [], su_guidance = [], su_orientation = ''landscape'',
        su_people = 2, su_usable = 2\<rparr>,
      cl_readiness = None, cl_performance = (0, 0), cl_generated = 0, cl_updated = 0\<rparr>"

definition demo_court_observations :: "observation list" where
  "demo_court_observations = demo_track 1 5 @ demo_track 2 30"

definition demo_velocity :: "int \<Rightarrow> nat \<Rightarrow> velocity_sample" where
  "demo_velocity track n =
     \<lparr>vs_start = of_nat n * 3/4, vs_end = of_nat (Suc n) * 3/4, vs_track = track, vs_speed = 2, vs_x = 2, vs_y = 0,
      vs_segment = 0\<rparr>"

definition demo_stream :: "string \<Rightarrow> int \<Rightarrow> rat \<Rightarrow> motion_stream" where
  "demo_stream i track y =
     \<lparr>ms_candidate = demo_player i track, ms_observations = demo_track track y, ms_intervals = [(0, 6)],
      ms_velocities = map (demo_velocity track) [0..<8], ms_changes = map (\<lambda>n. (of_nat n * 3/4, 0)) [2..<9], ms_turns = []\<rparr>"

definition demo_streams :: "motion_stream list" where
  "demo_streams = [demo_stream ''pc_1'' 1 5, demo_stream ''pc_2'' 2 30]"

lemma demo_velocities:
  "calculate_velocity_samples active_play_policy (smooth_track_positions active_play_policy (demo_track 1 5))
     = map (demo_velocity 1) [0..<8]"
  "calculate_velocity_samples active_play_policy (smooth_track_positions active_play_policy (demo_track 2 30))
     = map (demo_velocity 2) [0..<8]"
  by code_simp+

lemma demo_samples:
  "calculate_speed_change_samples active_play_policy (map (demo_velocity 1) [0..<8]) = map (\<lambda>n. (of_nat n * 3/4, 0)) [2..<9]"
  "calculate_speed_change_samples active_play_policy (map (demo_velocity 2) [0..<8]) = map (\<lambda>n. (of_nat n * 3/4, 0)) [2..<9]"
  "calculate_direction_change_times active_play_policy (map (demo_velocity 1) [0..<8]) = []"
  "calculate_direction_change_times active_play_policy (map (demo_velocity 2) [0..<8]) = []"
  by code_simp+

lemma demo_intervals:
  "observed_intervals active_play_policy (demo_track 1 5) = [(0, 6)]"
  "observed_intervals active_play_policy (demo_track 2 30) = [(0, 6)]"
  by code_simp+

lemma demo_deduplicated:
  "deduplicate_observations (concat [filter (\<lambda>b. ob_track b = 1) demo_court_observations]) = demo_track 1 5"
  "deduplicate_observations (concat [filter (\<lambda>b. ob_track b = 2) demo_court_observations]) = demo_track 2 30"
  by code_simp+

lemma demo_stream_candidates: "stream_candidates demo_court = [demo_player ''pc_1'' 1, demo_player ''pc_2'' 2]"
  by code_simp

lemma demo_candidate_streams: "candidate_streams active_play_policy demo_court demo_court_observations = demo_streams"
proof -
  have "pc_tracks (demo_player i t) = [t]" for i t by (simp add: demo_player_def)
  then show ?thesis
    unfolding candidate_streams_def demo_stream_candidates stream_of_def
    by (simp only: list.map Let_def demo_deduplicated demo_velocities demo_samples demo_intervals demo_streams_def demo_stream_def)
qed

definition demo_coverage :: play_coverage where
  "demo_coverage = \<lparr>av_observed = 3, av_window = 3, av_ratio = 1, av_visible = 2, av_reliable = 2\<rparr>"

definition demo_signals :: play_signals where
  "demo_signals =
     \<lparr>sg_speed = 2, sg_change = 0, sg_intensity = 1/2, sg_directions = 0, sg_stationary = 0, sg_kitchen = 0,
      sg_moving = 2, sg_simultaneous = True, sg_together = 3, sg_visibility = SeenHigh, sg_gap = GapNone,
      sg_continuity = ContinuityStrong\<rparr>"

definition demo_lineage :: play_lineage where
  "demo_lineage = \<lparr>ln_candidates = [''pc_1'', ''pc_2''], ln_tracks = [1, 2]\<rparr>"

definition demo_motion :: "rat \<Rightarrow> motion_window" where
  "demo_motion a =
     \<lparr>mw_start = a, mw_end = a + 3, mw_coverage = demo_coverage, mw_signals = demo_signals,
      mw_reasons = [SufficientCoverage], mw_lineage = demo_lineage, mw_policy = ''active-play-v1''\<rparr>"

definition demo_window :: "rat \<Rightarrow> play_window" where
  "demo_window a =
     \<lparr>pw_start = a, pw_end = a + 3, pw_state = LikelyActive, pw_confidence = PlayModerate, pw_coverage = demo_coverage,
      pw_signals = demo_signals, pw_reasons = [SimultaneousMovement, SufficientCoverage, SustainedMovement],
      pw_limitations = base_limitations, pw_lineage = demo_lineage, pw_policy = ''active-play-v1''\<rparr>"

definition demo_interval :: play_interval where
  "demo_interval =
     \<lparr>pw_start = 0, pw_end = 6, pw_state = LikelyActive, pw_confidence = PlayModerate,
      pw_coverage = \<lparr>av_observed = 6, av_window = 6, av_ratio = 1, av_visible = 2, av_reliable = 2\<rparr>,
      pw_signals = demo_signals\<lparr>sg_together := 6\<rparr>,
      pw_reasons = [SimultaneousMovement, SufficientCoverage, SustainedMovement],
      pw_limitations = sort base_limitations, pw_lineage = demo_lineage, pw_policy = ''active-play-v1'', pi_windows = 2\<rparr>"

lemma demo_motions:
  "motion_of active_play_policy demo_streams 0 3 = demo_motion 0"
  "motion_of active_play_policy demo_streams 3 6 = demo_motion 3"
  by code_simp+

lemma demo_motions_valid: "valid_motion (demo_motion 0)" "valid_motion (demo_motion 3)"
  by code_simp+

lemma demo_build_motion: "build_motion_windows active_play_policy demo_court demo_court_observations 6 = Inr [demo_motion 0, demo_motion 3]"
proof -
  have p: "po_window active_play_policy = 3" by (simp add: active_play_policy_def)
  have "windows_from active_play_policy demo_streams 6 6 = Inr []" by (simp add: windows_from.simps)
  moreover have "windows_from active_play_policy demo_streams 6 3
      = bindE (windows_from active_play_policy demo_streams 6 6) (\<lambda>rest. Inr (demo_motion 3 # rest))"
    by (subst windows_from.simps) (simp add: p window_features_def demo_motions demo_motions_valid checked_def)
  moreover have "windows_from active_play_policy demo_streams 6 0
      = bindE (windows_from active_play_policy demo_streams 6 3) (\<lambda>rest. Inr (demo_motion 0 # rest))"
    by (subst windows_from.simps) (simp add: p window_features_def demo_motions demo_motions_valid checked_def)
  ultimately show ?thesis by (simp add: build_motion_windows_def demo_candidate_streams)
qed

definition demo_input :: report_input where
  "demo_input =
     \<lparr>ra_analysis = ''a'', ra_duration = 6, ra_candidates = demo_court, ra_observations = demo_court_observations,
      ra_sources = \<lparr>sx_tracking = ''t'', sx_observations = ''o'', sx_candidates = ''c'', sx_version = 4\<rparr>, ra_now = 0\<rparr>"

lemma demo_windows:
  "classify_window active_play_policy (report_context demo_input) (demo_motion 0) = Inr (demo_window 0)"
  "classify_window active_play_policy (report_context demo_input) (demo_motion 3) = Inr (demo_window 3)"
  by code_simp+

lemma demo_windows_valid: "valid_estimate (demo_window 0)" "valid_estimate (demo_window 3)"
  by code_simp+

lemma demo_merged: "merge_active_play_windows active_play_policy [demo_window 0, demo_window 3] = Inr [demo_interval]"
  by code_simp

definition demo_play_report :: active_report where
  "demo_play_report = report_of active_play_policy demo_input [demo_window 0, demo_window 3] [demo_interval]"

lemma demo_play_report_valid: "valid_report demo_play_report"
  by code_simp

lemma demo_build: "build_active_play_report active_play_policy demo_input = Inr demo_play_report"
proof -
  have "build_motion_windows active_play_policy (ra_candidates demo_input) (ra_observations demo_input) (ra_duration demo_input)
      = Inr [demo_motion 0, demo_motion 3]"
    using demo_build_motion by (simp add: demo_input_def)
  with demo_play_report_valid show ?thesis
    by (simp add: build_active_play_report_def classify_motion_windows_def demo_windows demo_merged checked_def demo_play_report_def)
qed

section \<open>Reports are always built\<close>




definition demo_active_files :: active_files where
  "demo_active_files =
     \<lparr>af_tracking = Some \<lparr>so_bytes = ''t'', so_value = Some \<lparr>tr_track = None, tr_candidate = None, tr_sources = [],
        tr_saved_at = None, tr_duration = 6\<rparr>\<rparr>,
      af_observations = Some \<lparr>os_bytes = ''o'', os_lines = BlankLine # map ObservationLine demo_court_observations\<rparr>,
      af_candidates = Some \<lparr>so_bytes = ''c'', so_value = Some demo_court, so_version = Some 4\<rparr>,
      af_output = EmptyDirectory, af_writable = True\<rparr>"

lemma demo_lines: "observation_lines (BlankLine # map ObservationLine demo_court_observations) = Inr demo_court_observations"
  by code_simp

lemma demo_court_valid: "valid_collection demo_court"
  by code_simp



section \<open>The timeline\<close>

text \<open>
  C36: In every report the windows follow each other from the start of the recording to its
  end (up to a nanosecond), none longer than the policy allows; the intervals cover the same
  time, two successive ones never have the same state, and the seconds of the three states
  add up to it.
\<close>

theorem active_timeline:
  assumes "sound_policy p" and "0 \<le> ra_duration i" and "1 \<le> sx_version (ra_sources i)"
    and "build_active_play_report p i = Inr r"
  shows "\<exists>e. ra_duration i - 1/10^9 \<le> e \<and> e \<le> ra_duration i
    \<and> chain 0 (map window_span (rp_windows r)) e \<and> chain 0 (map window_span (rp_intervals r)) e
    \<and> list_all (\<lambda>w. pw_end w - pw_start w \<le> po_window p) (rp_windows r)
    \<and> list_all (\<lambda>(a, b). pw_state b \<noteq> pw_state a) (adjacent (rp_intervals r))
    \<and> sm_active (rp_summary r) + sm_idle (rp_summary r) + sm_unknown (rp_summary r) = e"
proof -
  from build_report [OF assms(1-3)] assms(4) obtain fs e where b: "built_from p i r fs e" by auto
  then have tl: "timeline p (ra_duration i) (rp_windows r) (rp_intervals r) e" and runs: "maximal p (rp_intervals r)"
    and r: "r = report_of p i (rp_windows r) (rp_intervals r)"
    by (simp_all add: built_from_def run_lengths_def)
  have chain: "chain 0 (map window_span (rp_intervals r)) e" using tl by (simp add: timeline_def)
  have "list_all (\<lambda>(a, b). pw_state b \<noteq> pw_state a) (adjacent (rp_intervals r))"
    using runs chain_adjacent [OF chain] assms(1) by (fastforce simp: maximal_def list_all_iff sound_policy_def)
  moreover have "sm_active (rp_summary r) + sm_idle (rp_summary r) + sm_unknown (rp_summary r) = e"
    using chain_total [OF chain] state_seconds_total [of "rp_intervals r"]
    by (subst (1 2 3) r) (simp add: report_of_def summary_of_def Let_def)
  ultimately show ?thesis using tl by (auto simp: timeline_def)
qed

theorem active_timeline_witness:
  "\<exists>e. 6 - 1/10^9 \<le> e \<and> e \<le> 6 \<and> chain 0 [(0, 3), (3, 6)] e \<and> chain 0 [(0, 6)] e
    \<and> sm_active (rp_summary demo_play_report) + sm_idle (rp_summary demo_play_report) + sm_unknown (rp_summary demo_play_report) = e"
proof -
  have spans: "map window_span (rp_windows demo_play_report) = [(0, 3), (3, 6)]" "map window_span (rp_intervals demo_play_report) = [(0, 6)]"
    by (simp_all add: demo_play_report_def report_of_def window_span_def demo_window_def demo_interval_def)
  have d: "ra_duration demo_input = 6" "sx_version (ra_sources demo_input) = 4" by (simp_all add: demo_input_def)
  from active_timeline [OF sound_active_play_policy _ _ demo_build, unfolded spans d] show ?thesis by auto
qed

section \<open>Intervals\<close>

text \<open>
  C37: Whatever windows are merged, if the merge returns, the windows in the order of their
  times are cut into runs, one for each interval, that could not have been longer: an
  interval has the state of its windows, the sums of their seconds, the weakest of their
  confidences, qualities and counts, the averages of their speeds weighted by time, and the
  union of their reasons, limitations and tracks.
\<close>

theorem intervals_summarise:
  assumes "merge_active_play_windows p ws = Inr is" and "list_all valid_estimate ws"
  shows "maximal p is \<and> list_all valid_interval is
    \<and> (\<exists>gs. concat gs = sort_key (\<lambda>w. (pw_start w, pw_end w)) ws \<and> list_all2 summarises gs is)"
  using merge_windows_groups [OF assms] by (simp add: run_lengths_def)

theorem intervals_summarise_witness:
  "maximal active_play_policy [demo_interval] \<and> list_all valid_interval [demo_interval]
    \<and> (\<exists>gs. concat gs = sort_key (\<lambda>w. (pw_start w, pw_end w)) [demo_window 0, demo_window 3]
      \<and> list_all2 summarises gs [demo_interval])"
  by (rule intervals_summarise [OF demo_merged]) (simp add: demo_windows_valid)

section \<open>Observed time\<close>

lemma stream_observed: "ms_intervals (stream_of p obs c) = observed_intervals p (ms_observations (stream_of p obs c))"
  by (simp add: stream_of_def Let_def)

lemma observed_intervals_points:
  "within_spans (observed_intervals p obs) t \<longleftrightarrow>
     (\<exists>(a, b)\<in>set (adjacent (sort_key (\<lambda>b. (ob_time b, ob_frame b)) obs)).
        supports_within (po_max_gap p) a b \<and> ob_time a \<le> t \<and> t \<le> ob_time b)"
proof -
  let ?pairs = "filter (\<lambda>(a, b). supports_within (po_max_gap p) a b) (adjacent (sort_key (\<lambda>b. (ob_time b, ob_frame b)) obs))"
  have "ordered_spans (map (\<lambda>(a, b). (ob_time a, ob_time b)) ?pairs)"
    by (auto simp: ordered_spans_def supports_within_def list_all_iff)
  from merge_numeric(2) [OF this, of t] show ?thesis
    unfolding observed_intervals_def by (auto simp: within_spans_def)
qed

text \<open>
  C38: The observed seconds of a window, which the code counts by a sweep over events, are
  the time during which at least the required number of reliable players is seen; and a
  player is seen exactly between two successive observations that support the interval.
\<close>

theorem observed_time:
  assumes "0 < po_players p"
  shows "(av_observed (window_coverage p (candidate_streams p cl obs) a b)
      = time_with_players (po_players p) (map (clipped a b) (reliable_streams p (candidate_streams p cl obs) a b)))
    \<and> (within_spans (ms_intervals (stream_of p obs c)) t \<longleftrightarrow>
      (\<exists>(x, y)\<in>set (adjacent (sort_key (\<lambda>b. (ob_time b, ob_frame b)) (ms_observations (stream_of p obs c)))).
         supports_within (po_max_gap p) x y \<and> ob_time x \<le> t \<and> t \<le> ob_time y))"
proof -
  have "separated (clipped a b s)" if "s \<in> set (candidate_streams p cl obs)" for s
    using that separated_clip [OF separated_observed]
    by (auto simp: candidate_streams_def clipped_def stream_observed)
  then have "list_all separated (map (clipped a b) (reliable_streams p (candidate_streams p cl obs) a b))"
    using reliable_in by (force simp: list_all_iff)
  from minimum_streams_players [OF this assms] show ?thesis
    using observed_intervals_points by (simp add: window_coverage_def Let_def stream_observed)
qed

theorem observed_time_witness:
  "time_with_players 2 (map (clipped 0 3) (reliable_streams active_play_policy demo_streams 0 3)) = 3"
proof -
  have "0 < po_players active_play_policy" "po_players active_play_policy = 2" by (simp_all add: active_play_policy_def)
  moreover have "av_observed (window_coverage active_play_policy demo_streams 0 3) = 3"
    using arg_cong [OF demo_motions(1), of "\<lambda>m. av_observed (mw_coverage m)"]
    by (simp add: motion_of_def Let_def demo_motion_def demo_coverage_def)
  ultimately show ?thesis
    using observed_time [of active_play_policy demo_court demo_court_observations 0 3] by (simp add: demo_candidate_streams)
qed

section \<open>What a likely state rests on\<close>

definition supported :: "play_policy \<Rightarrow> play_context \<Rightarrow> play_state \<Rightarrow> play_coverage \<Rightarrow> play_signals \<Rightarrow> bool" where
  "supported p x st c s \<longleftrightarrow>
     (st \<noteq> PlayUnknown \<longrightarrow> \<not> unsuitable x \<and> px_current x \<and> po_min_context p \<le> px_duration x
        \<and> po_players p \<le> av_reliable c \<and> po_window_ratio p * av_window c \<le> av_observed c \<and> sg_gap s \<noteq> GapSevere)
     \<and> (st = LikelyActive \<longrightarrow> po_players p \<le> sg_moving s \<and> sg_simultaneous s \<and> po_active_intensity p \<le> sg_intensity s)
     \<and> (st = LikelyIdle \<longrightarrow> sg_moving s = 0 \<and> sg_kitchen s = 0 \<and> sg_intensity s \<le> po_idle_intensity p
        \<and> po_player_ratio p * av_window c \<le> sg_stationary s)"

lemma judgement_cautious: "fst (snd (judgement p x f)) \<noteq> PlayHigh"
  by (simp add: judgement_def supported_confidence_def)

lemma window_supported:
  assumes "classified p x f w" and "f = motion_of p streams a b" and "a < b"
  shows "supported p x (pw_state w) (pw_coverage w) (pw_signals w)"
proof -
  have "po_window_ratio p * av_window (mw_coverage f) \<le> av_observed (mw_coverage f)"
    if "po_window_ratio p \<le> av_ratio (mw_coverage f)"
    using that assms(2,3) by (simp add: motion_of_def Let_def window_coverage_def pos_le_divide_eq)
  then show ?thesis using assms(1)
    by (auto simp: classified_def supported_def judgement_def unclassifiable_def short_context_def active_evidence_def
        idle_evidence_def mult.commute split: if_splits)
qed

lemma sum_list_ge: "(\<And>x. x \<in> set xs \<Longrightarrow> c * f x \<le> g x) \<Longrightarrow> c * sum_list (map f xs) \<le> sum_list (map g xs)"
  for c :: "'b::linordered_field"
  by (induction xs) (auto simp: distrib_left intro: add_mono)

lemma weighted_sum_bounds:
  assumes "averages f ws i" and "av_window (pw_coverage i) = sum_list (map (\<lambda>w. av_window (pw_coverage w)) ws)"
    and "\<And>w. w \<in> set ws \<Longrightarrow> 0 < av_window (pw_coverage w)" and "0 < av_window (pw_coverage i)"
  shows "(\<And>w. w \<in> set ws \<Longrightarrow> lo \<le> f (pw_signals w)) \<Longrightarrow> lo \<le> f (pw_signals i)"
    and "(\<And>w. w \<in> set ws \<Longrightarrow> f (pw_signals w) \<le> hi) \<Longrightarrow> f (pw_signals i) \<le> hi"
proof -
  let ?W = "of_rat (av_window (pw_coverage i)) :: real"
  let ?v = "\<lambda>w. of_rat (av_window (pw_coverage w)) :: real"
  have W: "?W = sum_list (map ?v ws)"
    unfolding assms(2) by (induction ws) (simp_all add: of_rat_add)
  have avg: "f (pw_signals i) * ?W = sum_list (map (\<lambda>w. f (pw_signals w) * ?v w) ws)"
    using assms(1) by (simp add: averages_def weighted_sum_def)
  have pos: "0 < ?W" using assms(4) by simp
  show "lo \<le> f (pw_signals i)" if "\<And>w. w \<in> set ws \<Longrightarrow> lo \<le> f (pw_signals w)"
  proof -
    have "lo * sum_list (map ?v ws) \<le> sum_list (map (\<lambda>w. f (pw_signals w) * ?v w) ws)"
      by (rule sum_list_ge) (use that assms(3) in \<open>auto intro!: mult_right_mono simp: less_imp_le\<close>)
    then have "lo * ?W \<le> f (pw_signals i) * ?W" unfolding avg by (simp only: W)
    with pos show ?thesis by (simp add: mult_le_cancel_right)
  qed
  show "f (pw_signals i) \<le> hi" if "\<And>w. w \<in> set ws \<Longrightarrow> f (pw_signals w) \<le> hi"
  proof -
    have "(-hi) * sum_list (map ?v ws) \<le> sum_list (map (\<lambda>w. - (f (pw_signals w) * ?v w)) ws)"
      by (rule sum_list_ge) (use that assms(3) in \<open>auto intro!: mult_right_mono simp: less_imp_le\<close>)
    also have "\<dots> = - (f (pw_signals i) * ?W)" by (simp add: avg uminus_sum_list_map comp_def)
    finally have "f (pw_signals i) * ?W \<le> hi * ?W" by (simp add: W)
    with pos show ?thesis by (simp add: mult_le_cancel_right)
  qed
qed

lemma interval_supported:
  assumes s: "summarises ws i" and v: "\<And>w. w \<in> set ws \<Longrightarrow> valid_estimate w"
    and ok: "\<And>w. w \<in> set ws \<Longrightarrow> supported p x (pw_state w) (pw_coverage w) (pw_signals w)"
  shows "supported p x (pw_state i) (pw_coverage i) (pw_signals i)"
proof -
  have ne: "ws \<noteq> []" and st: "\<And>w. w \<in> set ws \<Longrightarrow> pw_state w = pw_state i"
    and cov: "summarises_coverage ws (pw_coverage i)" and sig: "summarises_signals ws (pw_signals i)"
    and avg: "averages sg_intensity ws i" using s by (auto simp: summarises_def)
  have len: "av_window (pw_coverage i) = sum_list (map (\<lambda>w. av_window (pw_coverage w)) ws)" using cov by (simp add: summarises_coverage_def)
  have vpos: "0 < av_window (pw_coverage w)" if "w \<in> set ws" for w using v [OF that] by (rule valid_window_positive)
  have "0 < sum_list (map (\<lambda>w. av_window (pw_coverage w)) ws)"
    using ne vpos by (induction ws rule: list_nonempty_induct) (auto intro: add_pos_pos)
  then have ipos: "0 < av_window (pw_coverage i)" by (simp add: len)
  note bounds = weighted_sum_bounds [OF avg len vpos ipos]
  have known: "po_players p \<le> av_reliable (pw_coverage i)" "po_window_ratio p * av_window (pw_coverage i) \<le> av_observed (pw_coverage i)"
    "sg_gap (pw_signals i) \<noteq> GapSevere" "\<not> unsuitable x \<and> px_current x \<and> po_min_context p \<le> px_duration x"
    if i: "pw_state i \<noteq> PlayUnknown"
  proof -
    have w: "po_players p \<le> av_reliable (pw_coverage w)" "po_window_ratio p * av_window (pw_coverage w) \<le> av_observed (pw_coverage w)"
      "sg_gap (pw_signals w) \<noteq> GapSevere" "\<not> unsuitable x \<and> px_current x \<and> po_min_context p \<le> px_duration x"
      if "w \<in> set ws" for w using ok [OF that] st [OF that] i by (simp_all add: supported_def)
    show "po_players p \<le> av_reliable (pw_coverage i)" using cov ne w(1) by (simp add: summarises_coverage_def Min_ge_iff)
    show "po_window_ratio p * av_window (pw_coverage i) \<le> av_observed (pw_coverage i)"
      using cov w(2) sum_list_ge [of ws "po_window_ratio p" "\<lambda>w. av_window (pw_coverage w)" "\<lambda>w. av_observed (pw_coverage w)"]
      by (simp add: summarises_coverage_def)
    show "\<not> unsuitable x \<and> px_current x \<and> po_min_context p \<le> px_duration x" using w(4) ne by (meson list.set_sel(1))
    have "gap_rank (sg_gap (pw_signals w)) \<le> 1" if "w \<in> set ws" for w using w(3) [OF that] by (cases "sg_gap (pw_signals w)") simp_all
    then have "gap_rank (sg_gap (pw_signals i)) \<le> 1" using sig ne by (simp add: summarises_signals_def)
    then show "sg_gap (pw_signals i) \<noteq> GapSevere" by auto
  qed
  have active: "po_players p \<le> sg_moving (pw_signals i) \<and> sg_simultaneous (pw_signals i) \<and> po_active_intensity p \<le> sg_intensity (pw_signals i)"
    if i: "pw_state i = LikelyActive"
    using ok st i sig ne bounds(1) [of "po_active_intensity p"] by (simp add: supported_def summarises_signals_def Min_ge_iff)
  have idle: "sg_moving (pw_signals i) = 0 \<and> sg_kitchen (pw_signals i) = 0 \<and> sg_intensity (pw_signals i) \<le> po_idle_intensity p
      \<and> po_player_ratio p * av_window (pw_coverage i) \<le> sg_stationary (pw_signals i)" if i: "pw_state i = LikelyIdle"
  proof -
    have w: "sg_moving (pw_signals w) = 0" "sg_kitchen (pw_signals w) = 0" "sg_intensity (pw_signals w) \<le> po_idle_intensity p"
      "po_player_ratio p * av_window (pw_coverage w) \<le> sg_stationary (pw_signals w)"
      if "w \<in> set ws" for w using ok [OF that] st [OF that] i by (simp_all add: supported_def)
    have "sg_kitchen (pw_signals i) \<le> 0" using sig ne w(2) by (simp add: summarises_signals_def)
    moreover have "sg_moving (pw_signals i) = 0"
      using sig ne w(1) Min_le [of "(\<lambda>w. sg_moving (pw_signals w)) ` set ws" "sg_moving (pw_signals (hd ws))"]
      by (simp add: summarises_signals_def)
    moreover have "po_player_ratio p * av_window (pw_coverage i) \<le> sg_stationary (pw_signals i)"
      using len sig w(4)
        sum_list_ge [of ws "po_player_ratio p" "\<lambda>w. av_window (pw_coverage w)" "\<lambda>w. sg_stationary (pw_signals w)"]
      by (simp add: summarises_signals_def)
    ultimately show ?thesis using bounds(2) [of "po_idle_intensity p"] w(3) by simp
  qed
  show ?thesis using known active idle by (simp add: supported_def)
qed

text \<open>
  C39: An interval, however many windows it merges, is never rated above moderate, and one
  that is likely active or idle rests on a suitable recording of sufficient length, current
  candidates, enough reliable players, the required share of observed time and no severe
  gap; a likely active one on enough players who move at the same time with the required
  intensity, a likely idle one on players who all stand still outside the kitchen.
\<close>

theorem likely_intervals_supported:
  assumes "sound_policy p" and "0 \<le> ra_duration x" and "1 \<le> sx_version (ra_sources x)"
    and "build_active_play_report p x = Inr r" and i: "i \<in> set (rp_intervals r)"
  shows "pw_confidence i \<noteq> PlayHigh \<and> supported p (report_context x) (pw_state i) (pw_coverage i) (pw_signals i)"
proof -
  let ?streams = "candidate_streams p (ra_candidates x) (ra_observations x)"
  from build_report [OF assms(1-3)] assms(4) obtain fs e where "built_from p x r fs e" by auto
  then have fs: "motion_windows_ok p ?streams fs" and all2: "list_all2 (classified p (report_context x)) fs (rp_windows r)"
    and "\<exists>gs. concat gs = rp_windows r \<and> list_all2 summarises gs (rp_intervals r)"
    by (auto simp: built_from_def run_lengths_def)
  then obtain gs where gs: "concat gs = rp_windows r" "list_all2 summarises gs (rp_intervals r)" by blast
  from i gs(2) obtain g where g: "g \<in> set gs" "summarises g i" by (metis in_set_conv_nth list_all2_conv_all_nth)
  have sub: "w \<in> set (rp_windows r)" if "w \<in> set g" for w using that g(1) unfolding gs(1) [symmetric] by auto
  have w: "valid_estimate w \<and> pw_confidence w \<noteq> PlayHigh
      \<and> supported p (report_context x) (pw_state w) (pw_coverage w) (pw_signals w)" if "w \<in> set g" for w
  proof -
    from sub [OF that] all2 obtain f where f: "f \<in> set fs" "classified p (report_context x) f w"
      by (metis in_set_conv_nth list_all2_conv_all_nth)
    from f(1) fs have m: "f = motion_of p ?streams (mw_start f) (mw_end f)" and "valid_motion f"
      by (auto simp: motion_windows_ok_def list_all_iff)
    then have "mw_start f < mw_end f" by (simp add: valid_motion_def valid_span_def)
    with m have "supported p (report_context x) (pw_state w) (pw_coverage w) (pw_signals w)"
      by (rule window_supported [OF f(2)])
    moreover have "pw_confidence w \<noteq> PlayHigh" "valid_estimate w"
      using f(2) judgement_cautious [of p "report_context x" f]
      by (auto simp: classified_def map_prod_def split: prod.splits)
    ultimately show ?thesis by blast
  qed
  have "supported p (report_context x) (pw_state i) (pw_coverage i) (pw_signals i)"
    by (rule interval_supported [OF g(2)]) (use w in auto)
  moreover have "pw_confidence i \<noteq> PlayHigh"
  proof -
    obtain v where v: "v \<in> set g" using g(2) by (cases g) (auto simp: summarises_def)
    have "confidence_rank (pw_confidence v) < 3" using w [OF v] by (cases "pw_confidence v") simp_all
    moreover have "confidence_rank (pw_confidence i) \<le> confidence_rank (pw_confidence v)"
      using g(2) v by (simp add: summarises_def)
    ultimately show ?thesis by auto
  qed
  ultimately show ?thesis by blast
qed

theorem likely_intervals_supported_witness:
  "pw_state demo_interval = LikelyActive \<and> pw_confidence demo_interval \<noteq> PlayHigh
    \<and> supported active_play_policy (report_context demo_input) LikelyActive (pw_coverage demo_interval) (pw_signals demo_interval)"
proof -
  have "demo_interval \<in> set (rp_intervals demo_play_report)" "pw_state demo_interval = LikelyActive"
    "0 \<le> ra_duration demo_input" "1 \<le> sx_version (ra_sources demo_input)"
    by (simp_all add: demo_play_report_def report_of_def demo_interval_def demo_input_def)
  with likely_intervals_supported [OF sound_active_play_policy _ _ demo_build, of demo_interval] show ?thesis by simp
qed

section \<open>A report is written once\<close>

definition sources_now :: "(string \<Rightarrow> string) \<Rightarrow> active_files \<Rightarrow> active_error + source_artifacts" where
  "sources_now sha fs = bindE (required_files fs) (\<lambda>(t, b, c). source_artifacts_of sha t b c)"

lemma generate_cases:
  "generate_active_play sha p a now fs =
     (case sources_now sha fs of
        Inl e \<Rightarrow> (Inl e, fs)
      | Inr s \<Rightarrow>
          (case stored_report fs of
             Some f \<Rightarrow> (reuse_report p s f, fs)
           | None \<Rightarrow>
               (case bindE (bindE (required_files fs) (\<lambda>(t, b, c). load_inputs a now s t b c)) (build_active_play_report p) of
                  Inl e \<Rightarrow> (Inl e, fs)
                | Inr r \<Rightarrow> (case write_report r fs of Inl e \<Rightarrow> (Inl e, fs) | Inr fs' \<Rightarrow> (Inr r, fs')))))"
  by (auto simp: generate_active_play_def sources_now_def bindE_def split: sum.splits option.splits)

lemma built_report:
  "build_active_play_report p i = Inr r \<Longrightarrow> valid_report r \<and> rp_policy r = po_version p \<and> rp_sources r = ra_sources i"
  by (auto simp: build_active_play_report_def bindE_Inr_iff checked_Inr report_of_def)

lemma generated_stored:
  assumes "generate_active_play sha p a now fs = (Inr r, fs')"
  shows "af_output fs' = FilledDirectory (Stored r)" and "valid_report r" and "rp_policy r = po_version p"
    and "sources_now sha fs' = Inr (rp_sources r)"
proof -
  from assms obtain s where s: "sources_now sha fs = Inr s" by (auto simp: generate_cases split: sum.splits)
  have "af_output fs' = FilledDirectory (Stored r) \<and> valid_report r \<and> rp_policy r = po_version p
    \<and> sources_now sha fs' = Inr (rp_sources r)"
  proof (cases "stored_report fs")
    case (Some f)
    with assms s have "reuse_report p s f = Inr r" "fs' = fs" by (simp_all add: generate_cases)
    with Some s show ?thesis
      by (auto simp: reuse_report_def load_active_report_def stored_report_def bindE_Inr_iff
          split: if_splits disk_file.splits output_directory.splits)
  next
    case None
    with assms s obtain t b c i where req: "required_files fs = Inr (t, b, c)" and inp: "load_inputs a now s t b c = Inr i"
      and r: "build_active_play_report p i = Inr r" and w: "write_report r fs = Inr fs'"
      by (auto simp: generate_cases bindE_Inr_iff split: sum.splits)
    have "ra_sources i = s" using inp by (auto simp: load_inputs_def bindE_Inr_iff)
    moreover have "fs' = fs\<lparr>af_output := FilledDirectory (Stored r)\<rparr>" using w by (auto simp: write_report_def split: if_splits)
    ultimately show ?thesis using built_report [OF r] s by (simp add: sources_now_def required_files_def)
  qed
  then show "af_output fs' = FilledDirectory (Stored r)" and "valid_report r" and "rp_policy r = po_version p"
    and "sources_now sha fs' = Inr (rp_sources r)" by simp_all
qed

text \<open>
  C40: A generation that fails changes nothing. After one that succeeded, the same call
  answers the same report at any later time; whatever the source files have become, with
  any policy, nothing is written again, and an answer is that report, which then was made
  from the very files that are there and under that policy.
\<close>

theorem generate_once:
  assumes "generate_active_play sha p a now fs = (Inr r, fs')" and "af_output gs = af_output fs'"
  shows "generate_active_play sha p a later fs' = (Inr r, fs')
    \<and> snd (generate_active_play sha q b later gs) = gs
    \<and> (\<forall>r'. fst (generate_active_play sha q b later gs) = Inr r' \<longleftrightarrow>
         r' = r \<and> sources_now sha gs = Inr (rp_sources r) \<and> po_version q = po_version p)
    \<and> (\<forall>e. fst (generate_active_play sha q b later hs) = Inl e \<longrightarrow> snd (generate_active_play sha q b later hs) = hs)"
proof -
  note st = generated_stored [OF assms(1)]
  have stored: "stored_report hs = Some (Stored r)" if "af_output hs = af_output fs'" for hs
    using st(1) that by (simp add: stored_report_def)
  have reuse: "reuse_report q s (Stored r) = (if po_version q = po_version p \<and> rp_sources r = s then Inr r
      else Inl (ActivePersistence ''Saved Active Play output is stale for the current source artifacts or policy.''))" for s q
    using st(2,3) by (auto simp: reuse_report_def load_active_report_def)
  have "generate_active_play sha p a later fs' = (Inr r, fs')"
    by (simp add: generate_cases st(4) stored reuse)
  moreover have "snd (generate_active_play sha q b later gs) = gs"
    by (simp add: generate_cases stored [OF assms(2)] split: sum.splits)
  moreover have "fst (generate_active_play sha q b later gs) = Inr r' \<longleftrightarrow>
      r' = r \<and> sources_now sha gs = Inr (rp_sources r) \<and> po_version q = po_version p" for r'
    by (auto simp: generate_cases stored [OF assms(2)] reuse split: sum.splits)
  moreover have "snd (generate_active_play sha q b later hs) = hs" if "fst (generate_active_play sha q b later hs) = Inl e" for e
    using that by (auto simp: generate_cases split: sum.splits option.splits)
  ultimately show ?thesis by blast
qed

lemma demo_generated:
  "generate_active_play id active_play_policy ''a'' 0 demo_active_files
     = (Inr demo_play_report, demo_active_files\<lparr>af_output := FilledDirectory (Stored demo_play_report)\<rparr>)"
proof -
  have "load_inputs ''a'' 0 (ra_sources demo_input) (the (af_tracking demo_active_files)) (the (af_observations demo_active_files))
      (the (af_candidates demo_active_files)) = Inr demo_input"
    using demo_lines demo_court_valid
    by (simp add: load_inputs_def load_source_def demo_active_files_def demo_input_def source_file.truncate_def)
  then show ?thesis
    using demo_build
    by (simp add: generate_active_play_def required_files_def source_artifacts_of_def checked_def stored_report_def
        write_report_def demo_active_files_def demo_input_def)
qed

text \<open>After the candidates were saved again, the stored report is stale and stays.\<close>

theorem generate_once_witness:
  "let fs = demo_active_files\<lparr>af_output := FilledDirectory (Stored demo_play_report)\<rparr>;
       gs = fs\<lparr>af_candidates := Some \<lparr>so_bytes = ''d'', so_value = None, so_version = Some 4\<rparr>\<rparr> in
   generate_active_play id active_play_policy ''a'' 7 fs = (Inr demo_play_report, fs)
   \<and> generate_active_play id active_play_policy ''a'' 7 gs
       = (Inl (ActivePersistence ''Saved Active Play output is stale for the current source artifacts or policy.''), gs)"
proof -
  let ?fs = "demo_active_files\<lparr>af_output := FilledDirectory (Stored demo_play_report)\<rparr>"
  let ?gs = "?fs\<lparr>af_candidates := Some \<lparr>so_bytes = ''d'', so_value = None, so_version = Some 4\<rparr>\<rparr>"
  note once = generate_once [OF demo_generated, of ?gs 7 active_play_policy "''a''" ?gs]
  have s: "sources_now id ?gs = Inr ((rp_sources demo_play_report)\<lparr>sx_candidates := ''d''\<rparr>)"
    by (simp add: sources_now_def required_files_def source_artifacts_of_def checked_def demo_active_files_def
        demo_play_report_def report_of_def demo_input_def)
  have "rp_sources demo_play_report \<noteq> (rp_sources demo_play_report)\<lparr>sx_candidates := ''d''\<rparr>"
    by (simp add: demo_play_report_def report_of_def demo_input_def)
  then have "fst (generate_active_play id active_play_policy ''a'' 7 ?gs)
      = Inl (ActivePersistence ''Saved Active Play output is stale for the current source artifacts or policy.'')"
    using demo_play_report_valid by (simp add: generate_cases s stored_report_def reuse_report_def load_active_report_def)
  with once show ?thesis by (simp add: prod_eq_iff)
qed

end
