(* ===== verification/Spec2Isabelle.thy ===== *)
theory Spec2Isabelle
  imports Run_Properties Job_Properties Account_Properties Upload_Properties Object_Streams Capacity_Properties
    Deletion_Properties History_Properties Candidate_Properties Active_Properties
begin

text \<open>
  \<^bold>\<open>The program.\<close> Court4 is a back end that analyses recorded matches. A user uploads a
  video, an analysis is reserved for it, runs and stage executions of the analysis produce
  artifacts, and a job document describes how far it is. PostgreSQL holds the rows, an
  object store the files. This development verifies the part that keeps these consistent
  when requests are repeated, race or fail: the persistence service, the accounts and
  sessions, the direct uploads, the adapter of the object store, the admission to the
  temporary workspace and the deletion of matches; and the decisions taken from the
  results: the quality of a recording, the players found in it and the review of them, the
  estimate of active play, and the play history of an owner.

  \<^bold>\<open>The state.\<close> A database (\<open>db\<close> of \<^verbatim>\<open>Schema\<close>) is a record of tables, a table a list of
  rows in the order of insertion, a row a record with the columns of its class in
  \<^verbatim>\<open>app/persistence/models.py\<close>. \<open>insert_x\<close> checks the constraints of the table (keys, check
  constraints, partial unique indexes, foreign keys) and answers \<open>IntegrityError\<close> otherwise.
  An operation is a function from a database to a result (\<open>error + 'a\<close>, every \<open>raise\<close> an
  \<open>Inl\<close>) and a database; \<open>transact\<close> of \<^verbatim>\<open>Tables\<close> is a transaction: an error rolls back.
  UUIDs are 128-bit words (\<^verbatim>\<open>Uuids\<close>), versions and times integers; where an operation draws
  several UUIDs it takes a function \<open>u\<close> from \<open>nat\<close>.

  \<^bold>\<open>Concurrency.\<close> One transaction is atomic, since the code takes row or advisory locks or
  relies on constraints. Where an operation has several transactions, or reads before it
  takes the lock, what others commit in between is an argument (\<open>env\<close>, \<open>gap\<close>), and the
  properties quantify over it: \<open>evolves\<close> (runs, reservations and saves of documents),
  \<open>stage_evolves\<close> (stages and artifacts), \<open>auth_evolves\<close> (accounts) and \<open>upload_evolves\<close>
  (uploads and the object store) are the inductive relations of everything the operations,
  interleaved, can do.

  \<^bold>\<open>The theories.\<close>
  \<^item> \<^verbatim>\<open>Prelude\<close>, \<^verbatim>\<open>Tables\<close>, \<^verbatim>\<open>Uuids\<close>: errors as sums, rows, keys, the text of a UUID.
    \<^verbatim>\<open>Interfaces\<close>: the locales of a keyed table and of a transition table, interpreted for
    the tables of \<^verbatim>\<open>Schema\<close> and for the transitions of runs and of stages.
  \<^item> \<^verbatim>\<open>Runs\<close> (\<^verbatim>\<open>app/persistence/service.py\<close>: \<open>reserve_analysis\<close>, \<open>start_run\<close>,
    \<open>transition_run\<close> and the readers). \<^verbatim>\<open>Run_Laws\<close>: what one write commits.
    \<^verbatim>\<open>Run_Invariant\<close>: keys, at most one active run, attempts from 1 without gaps, an event
    log that replays to the stored rows, and idempotency records that point to what they
    answered. \<^verbatim>\<open>Run_Progress\<close>: rows move forward only. \<^verbatim>\<open>Run_Evolution\<close>, \<^verbatim>\<open>Run_Demo\<close>,
    \<^verbatim>\<open>Run_Properties\<close>: interleavings, a history, the properties.
  \<^item> \<^verbatim>\<open>Stages\<close> (stage executions, artifacts, reviews, selections, the bootstrap user),
    \<^verbatim>\<open>Stage_Laws\<close>, \<^verbatim>\<open>Stage_Evolution\<close>, \<^verbatim>\<open>Stage_Properties\<close>.
  \<^item> \<^verbatim>\<open>Jobs\<close> (\<open>persist_job\<close>, which composes runs, artifacts and selections in one
    transaction), \<^verbatim>\<open>Job_Laws\<close> (it keeps the invariant of the runs and moves rows forward,
    unless it ends a queued run), \<^verbatim>\<open>Job_Saves\<close> (its effect on each table),
    \<^verbatim>\<open>Job_Properties\<close>.
  \<^item> \<^verbatim>\<open>Accounts\<close> (\<^verbatim>\<open>app/auth/service.py\<close>, \<^verbatim>\<open>dependencies.py\<close>, \<^verbatim>\<open>rate_limit.py\<close>),
    \<^verbatim>\<open>Account_Laws\<close>, \<^verbatim>\<open>Account_Properties\<close>: registration, login, rotation of refresh
    tokens with reuse detection, links by mail, passwords, managed sessions.
  \<^item> \<^verbatim>\<open>Object_Keys\<close>, \<^verbatim>\<open>Object_Streams\<close> (\<^verbatim>\<open>app/persistence/object_storage.py\<close>): the keys, and
    the loops over streams and pages of the provider.
  \<^item> \<^verbatim>\<open>Uploads\<close> (\<^verbatim>\<open>app/services/uploads.py\<close>), \<^verbatim>\<open>Upload_Laws\<close>, \<^verbatim>\<open>Upload_Demo\<close>,
    \<^verbatim>\<open>Upload_Properties\<close>: multipart uploads against an arbitrary object store, with an
    abstract life of a session that the rows refine.

  \<^item> \<^verbatim>\<open>Capacity\<close> (\<^verbatim>\<open>app/persistence/storage.py\<close> and the workspace of
    \<^verbatim>\<open>app/services/jobs/repository.py\<close>): process-wide tables of reserved bytes and active
    places, the reservations, and a repository that reserves, extends and closes.
    \<^verbatim>\<open>Capacity_Properties\<close>: the tables account for the open reservations.
  \<^item> \<^verbatim>\<open>Deletion\<close> (\<^verbatim>\<open>app/services/jobs/match_lifecycle.py\<close>, \<^verbatim>\<open>source_media.py\<close>): each
    deletion is a transaction that records the intent, a phase on the store and a
    transaction that finishes. \<^verbatim>\<open>Deletion_Laws\<close>: what the phase can remove (the locale of a
    reflexive and transitive relation on the store, interpreted for it);
    \<^verbatim>\<open>Deletion_Properties\<close>.
  \<^item> \<^verbatim>\<open>Quality\<close> (\<^verbatim>\<open>app/services/recording_quality/assessment.py\<close>), \<^verbatim>\<open>History_Policy\<close> and
    \<^verbatim>\<open>History\<close> (\<^verbatim>\<open>app/services/history/\<close>): the checks of a recording, and the policies and
    projections of the play history; \<^verbatim>\<open>Quality_Properties\<close>, \<^verbatim>\<open>History_Properties\<close>.

  \<^item> \<^verbatim>\<open>Candidates\<close>, \<^verbatim>\<open>Candidate_Measures\<close>, \<^verbatim>\<open>Candidate_Review\<close>
    (\<^verbatim>\<open>app/services/candidates/service.py\<close>, \<^verbatim>\<open>app/schemas/player_candidates.py\<close>): fragments of
    raw tracks and how they are joined, what a group measures and whether it may be
    selected, and the operations on the stored collection and the tracking report.
    \<^verbatim>\<open>Candidate_Laws\<close>: the joining (the locale of pairwise compatible groups, interpreted
    for the fragments), the measurements and the selection policy;
    \<^verbatim>\<open>Candidate_Invariant\<close>, \<^verbatim>\<open>Candidate_Steps\<close>, \<^verbatim>\<open>Candidate_Rebuild\<close>: well-formed
    collections, the review as a transition system over the files, and regenerations;
    \<^verbatim>\<open>Candidate_Properties\<close>.

  \<^item> \<^verbatim>\<open>Active_Play\<close>, \<^verbatim>\<open>Active_Features\<close>, \<^verbatim>\<open>Active_Report\<close>
    (\<^verbatim>\<open>app/services/active_play/\<close>, \<^verbatim>\<open>app/schemas/active_play.py\<close>): windows of motion
    evidence, their classification, the merging into intervals, and the report that is
    written once. \<^verbatim>\<open>Active_Sweep\<close>: ranked values (a locale, interpreted for the four
    enumerations) and the sweep over intervals against the moments it counts;
    \<^verbatim>\<open>Active_Laws\<close>: valid features, windows that tile the recording, intervals as
    maximal runs, and the report built from them; \<^verbatim>\<open>Active_Properties\<close>.

  \<^bold>\<open>Parameters.\<close> SHA-256, Argon2, the JWT library, mail, \<open>datetime.isoformat\<close> and
  \<open>fromisoformat\<close>, the provider of the object store and the analysis workflow are arguments.
  What a property needs of them is a hypothesis of it: that two different requests have
  different fingerprints, or that a digest is 64 hexadecimal digits.

  \<^bold>\<open>What the properties show.\<close> Runs: the log replays, one winner per version, idempotent
  replays, one active run, final states, no effect on other owners. Documents: a save is
  what is loaded next, an outdated one is refused, runs follow it, results of superseded
  evidence are retired. Stages and artifacts: attempts, supersession, an append-only
  registry. Accounts: rotation and reuse, resets, changes, links, rate limits. Uploads:
  capacity, verified digests, the life of a session, cancellation, idempotency, cleanup.
  Object store: confined keys, an identity of a file that does not depend on how a stream
  is cut, verified log lines, complete and bounded listings. Workspace: nothing is leaked
  or released twice. Deletions: nothing else is touched, a success leaves nothing, an
  interrupted one is finished by repeating it, results outlive their recording.
  Candidates: tracks are partitioned into groups that fit, a generation succeeds, every
  operation keeps the collection well-formed and the tracking report in step, rejections
  can be taken back and survive, merges are safe. Active play: a report is always built
  and covers the recording, intervals summarise their windows, observed time is what it
  says, a likely state rests on the evidence the policy requires, and a report is written
  once and answered only for the files it was made from. Play
  history: it agrees with the assessment before the analysis, groups reports whatever
  their order, never claims more than a provisional comparison, and pages fit together.

  \<^bold>\<open>Bounds.\<close> No fuel is used: every loop is a total function. A stream ends with its
  bytes, the digest of a file with its content, and the listing of the parts of an upload
  after at most eleven requests, since the code stops at ten thousand parts. The loop over
  the windows of a recording ends for every policy, as a window that does not advance is
  refused by its own validation.

  \<^bold>\<open>Numbers.\<close> Floats of the code are rationals (\<open>rat\<close>). Comparisons with a threshold are
  those of the code; sums, quotients and the texts of numbers are those of exact
  arithmetic, where the code rounds (a coverage of a window can exceed one by a rounding
  error, which the schema refuses; in the model it cannot). Distances, speeds and angles on
  the court are real numbers.

  \<^bold>\<open>Not modelled.\<close> Column widths and \<open>ON DELETE\<close> actions; log records and mails without
  effect on a result; characters from code point 256 on. The deletion of a match cancels
  runs without a version and removes rows, so \<open>evolves\<close> does not include it and the
  properties of runs speak of matches that are not deleted. The job workflow, the paths of
  the file system, the readiness policy of calibrations and the single requests to the
  object store are planned. Video, tracking, the analytics themselves and calibration
  compute with floating-point numbers and model back ends and are left out.
\<close>

end
